(* ===== verification/Prelude.thy ===== *)
theory Prelude
  imports Complex_Main "HOL-Library.AList" "HOL-Library.Char_ord" "HOL-Library.List_Lexorder"
begin

text \<open>
  Shared vocabulary of the development: Python exceptions as values, Python's notion of a
  blank string, insertion-ordered dictionaries as association lists, and the generic lemmas
  on lists and association lists that the component theories use.

  A Python \<open>dict\<close> or \<open>OrderedDict\<close> is an association list in iteration order with
  distinct keys. \<open>AList.update\<close> is \<open>d[k] = v\<close> (in place when the key exists, at the end
  otherwise), \<open>AList.delete\<close> is \<open>d.pop(k, None)\<close>, \<open>map_of d k\<close> is \<open>d.get(k)\<close>.
  Times are rationals: the code only adds, subtracts and compares the readings of its clock.
\<close>

named_theorems dict_simps \<open>rewriting association lists that stand for Python dictionaries\<close>

type_synonym seconds = rat

datatype exn =
    TypeError string
  | ValueError string
  | RuntimeError string
  | KeyError string
  | StopAsyncIteration
  | CancelledError
  | ResponseLifecycleNotFound string
  | ResponseLifecycleNotCancellable string
  | ResponseLifecycleRetentionRefused string
  | ResponseStateNotFound string
  | ResponseStateModelMismatch string
  | ToolConstraintUnsupported string
  | AssertionError
  | OverflowError
  | Unfinished

type_synonym 'a res = "exn + 'a"

text \<open>
  The constructors name the exception classes the modelled code raises. \<open>Unfinished\<close> is not one:
  it is the value of a loop with fuel that ran out of it. Code that changes a state and may raise
  is a function from the state to a result and the state it leaves behind.
\<close>

definition and_then ::
  "('s \<Rightarrow> ('e + 'a) \<times> 's) \<Rightarrow> ('a \<Rightarrow> 's \<Rightarrow> ('e + 'b) \<times> 's) \<Rightarrow> 's \<Rightarrow> ('e + 'b) \<times> 's" where
  "and_then m k s = (case m s of (Inl e, s') \<Rightarrow> (Inl e, s') | (Inr x, s') \<Rightarrow> k x s')"

definition returns :: "'a \<Rightarrow> 's \<Rightarrow> ('e + 'a) \<times> 's" where
  "returns x s = (Inr x, s)"

definition raises :: "'e \<Rightarrow> 's \<Rightarrow> ('e + 'a) \<times> 's" where
  "raises e s = (Inl e, s)"

text \<open>\<open>try m finally f\<close>: an exception of the final block replaces the outcome of the body.\<close>

definition finally_do ::
  "('s \<Rightarrow> ('e + 'a) \<times> 's) \<Rightarrow> ('s \<Rightarrow> ('e + unit) \<times> 's) \<Rightarrow> 's \<Rightarrow> ('e + 'a) \<times> 's" where
  "finally_do m f s = (case m s of (r, s') \<Rightarrow>
     (case f s' of (Inl e, s'') \<Rightarrow> (Inl e, s'') | (Inr _, s'') \<Rightarrow> (r, s'')))"

text \<open>\<open>for x in xs: body(x)\<close>, left by the first exception.\<close>

primrec for_each :: "('a \<Rightarrow> 's \<Rightarrow> ('e + unit) \<times> 's) \<Rightarrow> 'a list \<Rightarrow> 's \<Rightarrow> ('e + unit) \<times> 's" where
  "for_each f [] = returns ()"
| "for_each f (x # xs) = and_then (f x) (\<lambda>_. for_each f xs)"

lemma returns_simp [simp]: "returns x s = (Inr x, s)"
  by (simp add: returns_def)

lemma raises_simp [simp]: "raises e s = (Inl e, s)"
  by (simp add: raises_def)

lemma and_then_Inl [simp]: "m s = (Inl e, t) \<Longrightarrow> and_then m k s = (Inl e, t)"
  by (simp add: and_then_def)

lemma and_then_Inr [simp]: "m s = (Inr x, t) \<Longrightarrow> and_then m k s = k x t"
  by (simp add: and_then_def)

lemma and_then_cases:
  assumes "and_then m k s = (r, t)"
  obtains e where "m s = (Inl e, t)" "r = Inl e" | x u where "m s = (Inr x, u)" "k x u = (r, t)"
  using assms by (auto simp: and_then_def split: prod.splits sum.splits)

lemma and_then_Inr_iff:
  "and_then m k s = (Inr y, t) \<longleftrightarrow> (\<exists>x u. m s = (Inr x, u) \<and> k x u = (Inr y, t))"
  by (auto simp: and_then_def split: prod.split sum.split)

lemma map_sum_Inr [simp]: "map_sum f g r = Inr y \<longleftrightarrow> (\<exists>x. r = Inr x \<and> y = g x)"
  by (cases r) auto

lemma map_sum_Inl [simp]: "map_sum f g r = Inl y \<longleftrightarrow> (\<exists>x. r = Inl x \<and> y = f x)"
  by (cases r) auto

text \<open>A condition on the state that every part of a program keeps.\<close>

definition keeps_state :: "('s \<Rightarrow> bool) \<Rightarrow> ('s \<Rightarrow> ('e + 'a) \<times> 's) \<Rightarrow> bool" where
  "keeps_state P m \<longleftrightarrow> (\<forall>s. P s \<longrightarrow> P (snd (m s)))"

lemma keeps_stateI: "(\<And>s. P s \<Longrightarrow> P (snd (m s))) \<Longrightarrow> keeps_state P m"
  by (simp add: keeps_state_def)

lemma keeps_stateD: "keeps_state P m \<Longrightarrow> P s \<Longrightarrow> P (snd (m s))"
  by (simp add: keeps_state_def)

lemma keeps_returns [intro]: "keeps_state P (returns x)"
  by (simp add: keeps_state_def)

lemma keeps_raises [intro]: "keeps_state P (raises e)"
  by (simp add: keeps_state_def)

lemma keeps_and_then [intro]:
  "keeps_state P m \<Longrightarrow> (\<And>x. keeps_state P (k x)) \<Longrightarrow> keeps_state P (and_then m k)"
  by (auto simp: keeps_state_def and_then_def split: prod.split sum.split)

lemma keeps_finally [intro]:
  "keeps_state P m \<Longrightarrow> keeps_state P f \<Longrightarrow> keeps_state P (finally_do m f)"
  by (auto simp: keeps_state_def finally_do_def split: prod.split sum.split)

lemma keeps_if: "(b \<Longrightarrow> keeps_state P m) \<Longrightarrow> (\<not> b \<Longrightarrow> keeps_state P n) \<Longrightarrow> keeps_state P (if b then m else n)"
  by simp

lemma keeps_prod: "(\<And>x y. keeps_state P (f x y)) \<Longrightarrow> keeps_state P (case p of (x, y) \<Rightarrow> f x y)"
  by (simp split: prod.split)

lemma keeps_option: "keeps_state P m \<Longrightarrow> (\<And>x. keeps_state P (f x)) \<Longrightarrow>
    keeps_state P (case v of None \<Rightarrow> m | Some x \<Rightarrow> f x)"
  by (simp split: option.split)

lemmas keeps_intros = keeps_returns keeps_raises keeps_and_then keeps_if keeps_prod keeps_option

lemma keeps_for_each [intro]: "(\<And>x. keeps_state P (f x)) \<Longrightarrow> keeps_state P (for_each f xs)"
  by (induction xs) auto

text \<open>Evaluating one component of a pair is often much cheaper than comparing the pair.\<close>

lemma pair_of_fst: "fst p = a \<Longrightarrow> p = (a, snd p)"
  by auto

section \<open>Strings\<close>

text \<open>
  A string is a list of code points below 256. \<open>py_space\<close> lists the code points of that
  range for which \<open>str.isspace\<close> holds; \<open>blank s\<close> is \<open>not s.strip()\<close>.
\<close>

definition py_space :: "char \<Rightarrow> bool" where
  "py_space c \<longleftrightarrow> c \<in> set [CHR 0x09, CHR 0x0A, CHR 0x0B, CHR 0x0C, CHR 0x0D,
     CHR 0x1C, CHR 0x1D, CHR 0x1E, CHR 0x1F, CHR 0x20, CHR 0x85, CHR 0xA0]"

definition blank :: "string \<Rightarrow> bool" where
  "blank s \<longleftrightarrow> list_all py_space s"

lemma blank_Nil [simp]: "blank []"
  by (simp add: blank_def)

lemma not_blank_nonempty: "\<not> blank s \<Longrightarrow> s \<noteq> []"
  by auto

text \<open>The number of bytes of \<open>s.encode("utf-8")\<close>: one below 128, two up to 255.\<close>

definition utf8_len :: "string \<Rightarrow> int" where
  "utf8_len s = sum_list (map (\<lambda>c. if (of_char c :: nat) < 128 then 1 else 2) s)"

lemma utf8_len_nonneg [simp]: "0 \<le> utf8_len s"
  by (auto simp: utf8_len_def intro!: sum_list_nonneg)

lemma utf8_len_append [simp]: "utf8_len (s @ t) = utf8_len s + utf8_len t"
  by (simp add: utf8_len_def)

section \<open>Dictionaries\<close>

definition move_to_end :: "'k \<Rightarrow> ('k \<times> 'v) list \<Rightarrow> ('k \<times> 'v) list" where
  "move_to_end k d = (case map_of d k of None \<Rightarrow> d | Some v \<Rightarrow> AList.delete k d @ [(k, v)])"

abbreviation dict_keys :: "('k \<times> 'v) list \<Rightarrow> 'k list" where
  "dict_keys d \<equiv> map fst d"

lemma map_of_delete [dict_simps]: "map_of (AList.delete k d) = (map_of d)(k := None)"
  by (simp add: AList.delete_conv')

lemma map_of_update [dict_simps]: "map_of (AList.update k v d) = (map_of d)(k \<mapsto> v)"
  by (simp add: AList.update_conv')

lemma set_delete: "set (AList.delete k d) = {p \<in> set d. fst p \<noteq> k}"
  by (auto simp: AList.delete_eq)

lemma keys_delete [dict_simps]: "fst ` set (AList.delete k d) = fst ` set d - {k}"
  by (auto simp: AList.delete_eq)

lemma keys_update [dict_simps]: "fst ` set (AList.update k v d) = insert k (fst ` set d)"
  by (induction d) auto

lemma map_of_move_to_end [dict_simps]: "map_of (move_to_end k d) = map_of d"
  by (auto simp: move_to_end_def dict_simps map_add_def fun_eq_iff split: option.splits)

lemma keys_move_to_end [dict_simps]: "fst ` set (move_to_end k d) = fst ` set d"
  by (auto simp: move_to_end_def dict_simps split: option.splits dest: map_of_SomeD)
    (metis image_eqI fst_conv map_of_SomeD)

lemma distinct_delete_keys [simp]:
  "distinct (map fst d) \<Longrightarrow> distinct (map fst (AList.delete k d))"
  by (rule distinct_delete)

lemma distinct_update_keys [simp]:
  "distinct (map fst d) \<Longrightarrow> distinct (map fst (AList.update k v d))"
  by (rule distinct_update)

lemma distinct_move_to_end [simp]:
  "distinct (map fst d) \<Longrightarrow> distinct (map fst (move_to_end k d))"
  by (auto simp: move_to_end_def dict_simps split: option.splits)

lemma set_move_to_end:
  "distinct (map fst d) \<Longrightarrow> set (move_to_end k d) = set d"
  by (auto simp: move_to_end_def set_delete map_of_eq_Some_iff split: option.splits)
    (metis eq_key_imp_eq_value)

lemma map_of_in_set: "map_of d k = Some v \<Longrightarrow> (k, v) \<in> set d"
  by (rule map_of_SomeD)

lemma in_keys_iff: "k \<in> fst ` set d \<longleftrightarrow> (\<exists>v. map_of d k = Some v)"
  by (metis domD domI dom_map_of_conv_image_fst)

lemma not_in_keys_iff: "k \<notin> fst ` set d \<longleftrightarrow> map_of d k = None"
  by (simp add: map_of_eq_None_iff)

lemma length_delete_le: "length (AList.delete k d) \<le> length d"
  by (simp add: AList.delete_eq)

lemma length_delete_less: "k \<in> fst ` set d \<Longrightarrow> length (AList.delete k d) < length d"
  by (auto simp: AList.delete_eq intro!: length_filter_less)

text \<open>The measure of a walk over the keys that never visits one twice.\<close>

lemma keys_minus_decreases:
  "map_of d x = Some v \<Longrightarrow> x \<notin> set seen \<Longrightarrow>
    card (fst ` set d - insert x (set seen)) < card (fst ` set d - set seen)"
proof (rule psubset_card_mono)
  assume "map_of d x = Some v" and "x \<notin> set seen"
  then have "x \<in> fst ` set d - set seen" by (auto simp: in_keys_iff)
  then show "fst ` set d - insert x (set seen) \<subset> fst ` set d - set seen" by auto
qed simp

subsection \<open>Sums over the values of a dictionary\<close>

definition dict_sum :: "('v \<Rightarrow> int) \<Rightarrow> ('k \<times> 'v) list \<Rightarrow> int" where
  "dict_sum w d = sum_list (map (w \<circ> snd) d)"

lemma dict_sum_Nil [simp]: "dict_sum w [] = 0"
  by (simp add: dict_sum_def)

lemma dict_sum_append [simp]: "dict_sum w (d @ e) = dict_sum w d + dict_sum w e"
  by (simp add: dict_sum_def)

lemma dict_sum_Cons [simp]: "dict_sum w (p # d) = w (snd p) + dict_sum w d"
  by (simp add: dict_sum_def)

lemma delete_absent: "k \<notin> fst ` set d \<Longrightarrow> AList.delete k d = d"
  by (force simp: AList.delete_eq intro!: filter_True)

lemma update_absent: "k \<notin> fst ` set d \<Longrightarrow> AList.update k v d = d @ [(k, v)]"
  by (induction d) auto

lemma dict_sum_delete:
  "distinct (map fst d) \<Longrightarrow> map_of d k = Some v \<Longrightarrow> dict_sum w (AList.delete k d) = dict_sum w d - w v"
proof (induction d)
  case (Cons p d)
  show ?case
  proof (cases "fst p = k")
    case True
    with Cons.prems have "k \<notin> fst ` set d" and "snd p = v" by (auto split: if_splits)
    then show ?thesis using True by (simp add: delete_absent)
  qed (use Cons in auto)
qed simp

lemma dict_sum_update_absent:
  "k \<notin> fst ` set d \<Longrightarrow> dict_sum w (AList.update k v d) = dict_sum w d + w v"
  by (induction d) auto

lemma dict_sum_update_same:
  "distinct (map fst d) \<Longrightarrow> map_of d k = Some v \<Longrightarrow> w v' = w v \<Longrightarrow>
    dict_sum w (AList.update k v' d) = dict_sum w d"
  by (induction d) (auto split: if_splits)

lemma dict_sum_move_to_end:
  "distinct (map fst d) \<Longrightarrow> dict_sum w (move_to_end k d) = dict_sum w d"
  by (auto simp: move_to_end_def dict_sum_delete split: option.splits)

lemma length_move_to_end: "distinct (map fst d) \<Longrightarrow> length (move_to_end k d) = length d"
  using dict_sum_move_to_end [of d "\<lambda>_. 1" k]
  by (simp add: dict_sum_def comp_def sum_list_triv)

lemma length_update: "length (AList.update k v d) = length d + (if k \<in> fst ` set d then 0 else 1)"
  by (induction d) auto

section \<open>The first element with a value\<close>

fun first_some :: "('a \<Rightarrow> 'b option) \<Rightarrow> 'a list \<Rightarrow> 'b option" where
  "first_some f [] = None"
| "first_some f (x # xs) = (case f x of Some y \<Rightarrow> Some y | None \<Rightarrow> first_some f xs)"

lemma first_some_None: "first_some f xs = None \<longleftrightarrow> (\<forall>x\<in>set xs. f x = None)"
  by (induction xs) (auto split: option.split)

lemma first_some_Some: "first_some f xs = Some y \<Longrightarrow> \<exists>x\<in>set xs. f x = Some y"
  by (induction xs) (auto split: option.splits)

lemma first_some_append:
  "first_some f (xs @ ys) = (case first_some f xs of Some y \<Rightarrow> Some y | None \<Rightarrow> first_some f ys)"
  by (induction xs) (auto split: option.split)

text \<open>A field that keeps the first value written to it: \<open>step\<close> writes \<open>wants op\<close> when the field
  is still empty. What a sequence of steps leaves in it is the first value any of them wanted.\<close>

locale first_write_field =
  fixes get :: "'s \<Rightarrow> 'a option"
    and wants :: "'op \<Rightarrow> 'a option"
    and step :: "'op \<Rightarrow> 's \<Rightarrow> 's"
  assumes get_step: "get (step p s) = (case get s of Some y \<Rightarrow> Some y | None \<Rightarrow> wants p)"
begin

lemma get_fold: "get (fold step ops s) = (case get s of Some y \<Rightarrow> Some y | None \<Rightarrow> first_some wants ops)"
  by (induction ops arbitrary: s) (auto simp: get_step split: option.split)

lemma get_stable: "get s = Some y \<Longrightarrow> get (fold step ops s) = Some y"
  by (simp add: get_fold)

end

end
