(* ===== verification/Forest.thy ===== *)
theory Forest
  imports Prelude
begin

text \<open>
  The parent-linked forest that both in-memory stores keep: every retained entry may name a
  parent, and \<open>_children\<close> is the inverse index (a dictionary from a parent to the set of its
  children). This theory holds the operations on that index, which the two stores write in
  the same way, the depth-first loop that collects a subtree, the consistency predicates, and
  the locale \<open>forest_state\<close>, in which the effect of removing a whole subtree is proved once
  for both stores.

  A Python set of children is a list without duplicates: its order stands for the iteration
  order of the set, and no result below depends on it.
\<close>

type_synonym 'k kids = "('k \<times> 'k list) list"

definition kids_of :: "'k kids \<Rightarrow> 'k \<Rightarrow> 'k list" where
  "kids_of ch p = (case map_of ch p of None \<Rightarrow> [] | Some cs \<Rightarrow> cs)"

text \<open>\<open>siblings.discard(c)\<close>, and the empty set is popped.\<close>

definition unlink :: "'k option \<Rightarrow> 'k \<Rightarrow> 'k kids \<Rightarrow> 'k kids" where
  "unlink p c ch = (case p of None \<Rightarrow> ch | Some q \<Rightarrow>
     (case map_of ch q of None \<Rightarrow> ch | Some sib \<Rightarrow>
        (let sib' = filter (\<lambda>x. x \<noteq> c) sib
         in if sib' = [] then AList.delete q ch else AList.update q sib' ch)))"

text \<open>\<open>children.setdefault(p, set()).add(c)\<close>.\<close>

definition link :: "'k option \<Rightarrow> 'k \<Rightarrow> 'k kids \<Rightarrow> 'k kids" where
  "link p c ch = (case p of None \<Rightarrow> ch | Some q \<Rightarrow>
     AList.update q (if c \<in> set (kids_of ch q) then kids_of ch q else kids_of ch q @ [c]) ch)"

lemma kids_of_delete [dict_simps]: "kids_of (AList.delete x ch) p = (if p = x then [] else kids_of ch p)"
  by (simp add: kids_of_def dict_simps)

lemma kids_of_unlink [dict_simps]:
  "kids_of (unlink q c ch) p = (if q = Some p then filter (\<lambda>x. x \<noteq> c) (kids_of ch p) else kids_of ch p)"
  by (auto simp: kids_of_def unlink_def dict_simps Let_def split: option.splits)

lemma kids_of_link [dict_simps]:
  "set (kids_of (link q c ch) p) = (if q = Some p then insert c (set (kids_of ch p)) else set (kids_of ch p))"
  by (auto simp: kids_of_def link_def dict_simps split: option.splits)

lemma kids_of_nonempty: "kids_of ch x \<noteq> [] \<Longrightarrow> x \<in> fst ` set ch"
  by (auto simp: kids_of_def in_keys_iff split: option.splits)

section \<open>Collecting a subtree\<close>

text \<open>
  The loop over an explicit stack (its top is the head of the list). \<open>seen\<close> is also the list
  of visited identifiers in the order of their visit, as both sources append to it exactly
  when they add to the set.
\<close>

function subtree_loop :: "('k \<Rightarrow> bool) \<Rightarrow> 'k kids \<Rightarrow> 'k list \<Rightarrow> 'k list \<Rightarrow> 'k list" where
  "subtree_loop admit ch [] seen = seen"
| "subtree_loop admit ch (x # stack) seen =
     (if x \<in> set seen \<or> \<not> admit x then subtree_loop admit ch stack seen
      else subtree_loop admit ch (rev (kids_of ch x) @ stack) (seen @ [x]))"
  by pat_completeness auto

termination
proof (relation "measures [\<lambda>(_, ch, _, seen). card (fst ` set ch - set seen), \<lambda>(_, _, stack, _). length stack]",
    goal_cases)
  case 1
  show ?case by simp
next
  case (2 admit ch x stack seen)
  then show ?case by simp
next
  case (3 admit ch x stack seen)
  show ?case
  proof (cases "kids_of ch x = []")
    case True
    have "card (fst ` set ch - set (seen @ [x])) \<le> card (fst ` set ch - set seen)"
      by (rule card_mono) auto
    with True show ?thesis by auto
  next
    case False
    then have "x \<in> fst ` set ch" by (rule kids_of_nonempty)
    with 3 have "fst ` set ch - set (seen @ [x]) \<subset> fst ` set ch - set seen" by auto
    then have "card (fst ` set ch - set (seen @ [x])) < card (fst ` set ch - set seen)"
      by (intro psubset_card_mono) auto
    then show ?thesis by simp
  qed
qed

definition subtree_ids :: "('k \<Rightarrow> bool) \<Rightarrow> 'k kids \<Rightarrow> 'k \<Rightarrow> 'k list" where
  "subtree_ids admit ch x = subtree_loop admit ch [x] []"

definition kid_edges :: "'k kids \<Rightarrow> ('k \<times> 'k) set" where
  "kid_edges ch = {(p, c). c \<in> set (kids_of ch p)}"

lemma subtree_loop_seen: "set seen \<subseteq> set (subtree_loop admit ch stack seen)"
  by (induction admit ch stack seen rule: subtree_loop.induct) auto

lemma subtree_loop_admit:
  "\<forall>y\<in>set seen. admit y \<Longrightarrow> y \<in> set (subtree_loop admit ch stack seen) \<Longrightarrow> admit y"
  by (induction admit ch stack seen rule: subtree_loop.induct) (auto split: if_splits)

lemma subtree_loop_distinct: "distinct seen \<Longrightarrow> distinct (subtree_loop admit ch stack seen)"
  by (induction admit ch stack seen rule: subtree_loop.induct) auto

lemma subtree_loop_sound:
  "y \<in> set (subtree_loop admit ch stack seen) \<Longrightarrow>
    y \<in> set seen \<or> (\<exists>x\<in>set stack. (x, y) \<in> (kid_edges ch)\<^sup>*)"
proof (induction admit ch stack seen rule: subtree_loop.induct)
  case (2 admit ch x stack seen)
  show ?case
  proof (cases "x \<in> set seen \<or> \<not> admit x")
    case True
    with 2 show ?thesis by auto
  next
    case False
    with 2 have "y \<in> set (seen @ [x]) \<or> (\<exists>z\<in>set (rev (kids_of ch x) @ stack). (z, y) \<in> (kid_edges ch)\<^sup>*)"
      by auto
    moreover have "(x, z) \<in> kid_edges ch" if "z \<in> set (kids_of ch x)" for z
      using that by (simp add: kid_edges_def)
    ultimately show ?thesis
      by (auto intro: converse_rtrancl_into_rtrancl)
  qed
qed simp

lemma subtree_loop_closed:
  assumes "\<forall>y\<in>set seen. \<forall>c\<in>set (kids_of ch y). admit c \<longrightarrow> c \<in> set seen \<union> set stack"
  shows "(\<forall>y\<in>set (subtree_loop admit ch stack seen). \<forall>c\<in>set (kids_of ch y). admit c \<longrightarrow>
            c \<in> set (subtree_loop admit ch stack seen))
       \<and> (\<forall>x\<in>set stack. admit x \<longrightarrow> x \<in> set (subtree_loop admit ch stack seen))"
  using assms
proof (induction admit ch stack seen rule: subtree_loop.induct)
  case (1 admit ch seen)
  then show ?case by simp
next
  case (2 admit ch x stack seen)
  show ?case
  proof (cases "x \<in> set seen \<or> \<not> admit x")
    case True
    with 2 subtree_loop_seen [of seen admit ch stack] show ?thesis by auto
  next
    case False
    have pre: "\<forall>y\<in>set (seen @ [x]). \<forall>c\<in>set (kids_of ch y). admit c \<longrightarrow>
        c \<in> set (seen @ [x]) \<union> set (rev (kids_of ch x) @ stack)"
      using "2.prems" by auto
    have "x \<in> set (subtree_loop admit ch (rev (kids_of ch x) @ stack) (seen @ [x]))"
      using subtree_loop_seen [of "seen @ [x]" admit ch "rev (kids_of ch x) @ stack"] by auto
    with "2.IH"(2) [OF False pre] False show ?thesis by auto
  qed
qed

lemma subtree_ids_distinct: "distinct (subtree_ids admit ch x)"
  by (simp add: subtree_ids_def subtree_loop_distinct)

lemma subtree_ids_root: "admit x \<Longrightarrow> x \<in> set (subtree_ids admit ch x)"
  using subtree_loop_closed [of "[]" ch admit "[x]"] by (simp add: subtree_ids_def)

lemma subtree_ids_closed:
  "y \<in> set (subtree_ids admit ch x) \<Longrightarrow> c \<in> set (kids_of ch y) \<Longrightarrow> admit c \<Longrightarrow>
    c \<in> set (subtree_ids admit ch x)"
  using subtree_loop_closed [of "[]" ch admit "[x]"] by (auto simp: subtree_ids_def)

lemma subtree_ids_sound:
  "y \<in> set (subtree_ids admit ch x) \<Longrightarrow> (x, y) \<in> (kid_edges ch)\<^sup>*"
  using subtree_loop_sound [of y admit ch "[x]" "[]"] by (simp add: subtree_ids_def)

lemma subtree_ids_admit: "y \<in> set (subtree_ids admit ch x) \<Longrightarrow> admit y"
  using subtree_loop_admit [of "[]" admit y ch "[x]"] by (simp add: subtree_ids_def)

text \<open>
  When every indexed child is admitted, the collected identifiers are exactly the
  descendants of the root: the result does not depend on the iteration order of the sets.
\<close>

lemma subtree_ids_eq:
  assumes "admit x" and "\<And>p c. c \<in> set (kids_of ch p) \<Longrightarrow> admit c"
  shows "set (subtree_ids admit ch x) = {y. (x, y) \<in> (kid_edges ch)\<^sup>*}"
proof
  show "{y. (x, y) \<in> (kid_edges ch)\<^sup>*} \<subseteq> set (subtree_ids admit ch x)"
  proof clarify
    fix y
    assume "(x, y) \<in> (kid_edges ch)\<^sup>*"
    then show "y \<in> set (subtree_ids admit ch x)"
    proof (induction rule: rtrancl_induct)
      case base
      show ?case by (rule subtree_ids_root) (rule assms(1))
    next
      case (step y z)
      then show ?case using assms(2) subtree_ids_closed by (fastforce simp: kid_edges_def)
    qed
  qed
qed (auto dest: subtree_ids_sound)

section \<open>Consistency of the index\<close>

definition kids_sound :: "'k set \<Rightarrow> ('k \<Rightarrow> 'k option) \<Rightarrow> 'k kids \<Rightarrow> bool" where
  "kids_sound K par ch \<longleftrightarrow> (\<forall>p c. c \<in> set (kids_of ch p) \<longrightarrow> c \<in> K \<and> par c = Some p)"

definition kids_complete :: "'k set \<Rightarrow> ('k \<Rightarrow> 'k option) \<Rightarrow> 'k kids \<Rightarrow> bool" where
  "kids_complete K par ch \<longleftrightarrow> (\<forall>c\<in>K. \<forall>p\<in>K. par c = Some p \<longrightarrow> c \<in> set (kids_of ch p))"

definition parent_closed :: "'k set \<Rightarrow> ('k \<Rightarrow> 'k option) \<Rightarrow> bool" where
  "parent_closed K par \<longleftrightarrow> (\<forall>c\<in>K. \<forall>p. par c = Some p \<longrightarrow> p \<in> K)"

definition parent_edges :: "'k set \<Rightarrow> ('k \<Rightarrow> 'k option) \<Rightarrow> ('k \<times> 'k) set" where
  "parent_edges K par = {(c, p). c \<in> K \<and> par c = Some p}"

definition forest :: "'k set \<Rightarrow> ('k \<Rightarrow> 'k option) \<Rightarrow> 'k kids \<Rightarrow> bool" where
  "forest K par ch \<longleftrightarrow> kids_sound K par ch \<and> kids_complete K par ch \<and> parent_closed K par
     \<and> acyclic (parent_edges K par)"

text \<open>The part of the consistency that does not exclude a cycle.\<close>

definition linked :: "'k set \<Rightarrow> ('k \<Rightarrow> 'k option) \<Rightarrow> 'k kids \<Rightarrow> bool" where
  "linked K par ch \<longleftrightarrow> kids_sound K par ch \<and> kids_complete K par ch \<and> parent_closed K par"

lemma forest_iff_linked: "forest K par ch \<longleftrightarrow> linked K par ch \<and> acyclic (parent_edges K par)"
  by (simp add: forest_def linked_def)

lemma linkedD:
  assumes "linked K par ch"
  shows linked_sound: "c \<in> set (kids_of ch p) \<Longrightarrow> c \<in> K \<and> par c = Some p"
    and linked_complete: "c \<in> K \<Longrightarrow> par c = Some p \<Longrightarrow> c \<in> set (kids_of ch p)"
    and linked_closed: "c \<in> K \<Longrightarrow> par c = Some p \<Longrightarrow> p \<in> K"
proof -
  have s: "kids_sound K par ch" and c: "kids_complete K par ch" and p: "parent_closed K par"
    using assms by (simp_all only: linked_def)
  show "c \<in> set (kids_of ch p) \<Longrightarrow> c \<in> K \<and> par c = Some p"
    using s by (simp only: kids_sound_def)
  show "c \<in> K \<Longrightarrow> par c = Some p \<Longrightarrow> p \<in> K"
    using p by (simp only: parent_closed_def)
  then show "c \<in> K \<Longrightarrow> par c = Some p \<Longrightarrow> c \<in> set (kids_of ch p)"
    using c by (simp only: kids_complete_def)
qed

lemma forestD:
  assumes "forest K par ch"
  shows forest_sound: "c \<in> set (kids_of ch p) \<Longrightarrow> c \<in> K \<and> par c = Some p"
    and forest_complete: "c \<in> K \<Longrightarrow> par c = Some p \<Longrightarrow> c \<in> set (kids_of ch p)"
    and forest_closed: "c \<in> K \<Longrightarrow> par c = Some p \<Longrightarrow> p \<in> K"
    and forest_acyclic: "acyclic (parent_edges K par)"
proof -
  have s: "kids_sound K par ch" and c: "kids_complete K par ch" and p: "parent_closed K par"
    and a: "acyclic (parent_edges K par)"
    using assms by (simp_all only: forest_def)
  show "c \<in> set (kids_of ch p) \<Longrightarrow> c \<in> K \<and> par c = Some p"
    using s by (simp only: kids_sound_def)
  show "c \<in> K \<Longrightarrow> par c = Some p \<Longrightarrow> p \<in> K"
    using p by (simp only: parent_closed_def)
  then show "c \<in> K \<Longrightarrow> par c = Some p \<Longrightarrow> c \<in> set (kids_of ch p)"
    using c by (simp only: kids_complete_def)
  show "acyclic (parent_edges K par)" by (rule a)
qed

lemma forest_empty [simp]: "forest {} par []"
  by (simp add: forest_def kids_sound_def kids_complete_def parent_closed_def parent_edges_def
      kids_of_def acyclic_def)

lemma parent_edges_mono: "K \<subseteq> L \<Longrightarrow> (\<And>c. c \<in> K \<Longrightarrow> par c = par' c) \<Longrightarrow>
    parent_edges K par \<subseteq> parent_edges L par'"
  by (auto simp: parent_edges_def)

lemma forest_cong: "(\<And>c. c \<in> K \<Longrightarrow> par c = par' c) \<Longrightarrow> forest K par ch \<longleftrightarrow> forest K par' ch"
proof -
  assume eq: "\<And>c. c \<in> K \<Longrightarrow> par c = par' c"
  then have "parent_edges K par = parent_edges K par'" by (auto simp: parent_edges_def)
  moreover have "kids_sound K par ch = kids_sound K par' ch"
    unfolding kids_sound_def using eq by metis
  moreover have "kids_complete K par ch = kids_complete K par' ch"
    by (simp add: kids_complete_def eq)
  moreover have "parent_closed K par = parent_closed K par'"
    by (simp add: parent_closed_def eq)
  ultimately show ?thesis by (simp only: forest_def)
qed

text \<open>A set that is closed under the parent link meets no subtree whose root it excludes.\<close>

lemma closed_set_misses_subtree:
  assumes "kids_sound K par ch" and "\<And>y p. y \<in> P \<Longrightarrow> par y = Some p \<Longrightarrow> p \<in> P"
    and "(x, y) \<in> (kid_edges ch)\<^sup>*" and "y \<in> P"
  shows "x \<in> P"
  using assms(3,4)
proof (induction rule: converse_rtrancl_induct)
  case (step x z)
  then have "par z = Some x" using assms(1) by (auto simp: kid_edges_def kids_sound_def)
  with step assms(2) show ?case by blast
qed

text \<open>Adding an entry that nothing points to.\<close>

lemma forest_link:
  assumes f: "forest K par ch" and new: "x \<notin> K" and closed: "\<And>q. p = Some q \<Longrightarrow> q \<in> K"
  shows "forest (insert x K) (par(x := p)) (link p x ch)"
proof -
  have nokid: "\<And>c. c \<in> K \<Longrightarrow> par c \<noteq> Some x" using forest_closed [OF f] new by blast
  have nopar: "kids_of ch x = []"
  proof (rule ccontr)
    assume "kids_of ch x \<noteq> []"
    then obtain c where "c \<in> set (kids_of ch x)" by (cases "kids_of ch x") auto
    then show False using forest_sound [OF f] nokid by blast
  qed
  have edges: "parent_edges (insert x K) (par(x := p))
      = (case p of None \<Rightarrow> {} | Some q \<Rightarrow> {(x, q)}) \<union> parent_edges K par"
    using new by (auto simp: parent_edges_def split: option.splits if_splits)
  have "acyclic (parent_edges (insert x K) (par(x := p)))"
  proof (cases p)
    case None
    then show ?thesis using edges forest_acyclic [OF f] by simp
  next
    case (Some q)
    have "(q, x) \<notin> (parent_edges K par)\<^sup>*"
    proof
      assume "(q, x) \<in> (parent_edges K par)\<^sup>*"
      moreover have "q \<noteq> x" using closed Some new by blast
      ultimately obtain z where "(z, x) \<in> parent_edges K par" by (auto elim: rtranclE)
      then show False using nokid by (auto simp: parent_edges_def)
    qed
    then show ?thesis using edges Some forest_acyclic [OF f] by simp
  qed
  moreover have "kids_sound (insert x K) (par(x := p)) (link p x ch)"
    using f new nopar by (auto simp: kids_sound_def dict_simps forest_def split: if_splits)
  moreover have "kids_complete (insert x K) (par(x := p)) (link p x ch)"
    using f nokid by (auto simp: kids_complete_def dict_simps forest_def split: if_splits)
  moreover have "parent_closed (insert x K) (par(x := p))"
    using f closed by (auto simp: parent_closed_def forest_def)
  ultimately show ?thesis by (simp add: forest_def)
qed

text \<open>In a linked state the index is the converse of the parent link.\<close>

lemma kid_edges_linked: "linked K par ch \<Longrightarrow> kid_edges ch = (parent_edges K par)\<inverse>"
proof (rule set_eqI, clarify)
  fix p c
  assume l: "linked K par ch"
  show "(p, c) \<in> kid_edges ch \<longleftrightarrow> (p, c) \<in> (parent_edges K par)\<inverse>"
    using linked_sound [OF l] linked_complete [OF l] by (auto simp: kid_edges_def parent_edges_def)
qed

lemma linked_path_up:
  assumes "linked L par' ch'" and "L \<subseteq> K" and "\<And>c. c \<in> L \<Longrightarrow> par' c = par c"
    and "(y, x) \<in> (parent_edges K par)\<^sup>*" and "y \<in> L"
  shows "x \<in> L \<and> (y, x) \<in> (parent_edges L par')\<^sup>*"
  using assms(4)
proof (induction rule: rtrancl_induct)
  case base
  show ?case using assms(5) by simp
next
  case (step x z)
  then have x: "x \<in> L" and z: "par' x = Some z"
    using assms(3) by (auto simp: parent_edges_def)
  then have "z \<in> L" using linked_closed [OF assms(1)] by blast
  moreover have "(x, z) \<in> parent_edges L par'" using x z by (simp add: parent_edges_def)
  ultimately show ?case using step.IH by (blast intro: rtrancl_into_rtrancl)
qed

lemma linked_shrink_paths:
  assumes "linked K par ch" and "linked L par' ch'" and "L \<subseteq> K" and "\<And>c. c \<in> L \<Longrightarrow> par' c = par c"
    and "y \<in> L"
  shows "(x, y) \<in> (kid_edges ch')\<^sup>* \<longleftrightarrow> (x, y) \<in> (kid_edges ch)\<^sup>*"
    and "(x, y) \<in> (kid_edges ch)\<^sup>* \<Longrightarrow> x \<in> L"
proof -
  have up: "x \<in> L \<and> (y, x) \<in> (parent_edges L par')\<^sup>*" if "(y, x) \<in> (parent_edges K par)\<^sup>*" for x
    using linked_path_up [OF assms(2-4) that assms(5)] .
  have sub: "parent_edges L par' \<subseteq> parent_edges K par"
    using assms(3,4) by (rule parent_edges_mono)
  have eq: "(x, y) \<in> (kid_edges ch)\<^sup>* \<longleftrightarrow> (y, x) \<in> (parent_edges K par)\<^sup>*"
    "(x, y) \<in> (kid_edges ch')\<^sup>* \<longleftrightarrow> (y, x) \<in> (parent_edges L par')\<^sup>*"
    by (simp_all add: kid_edges_linked [OF assms(1)] kid_edges_linked [OF assms(2)] rtrancl_converse)
  show "(x, y) \<in> (kid_edges ch')\<^sup>* \<longleftrightarrow> (x, y) \<in> (kid_edges ch)\<^sup>*"
    using eq up rtrancl_mono [OF sub] by blast
  show "(x, y) \<in> (kid_edges ch)\<^sup>* \<Longrightarrow> x \<in> L" using eq up by blast
qed

text \<open>Adding an entry, or giving an entry another parent.\<close>

lemma linked_relink:
  assumes l: "linked K par ch" and q: "\<And>q. p = Some q \<Longrightarrow> q \<in> insert x K"
  shows "linked (insert x K) (par(x := p)) (link p x (if x \<in> K then unlink (par x) x ch else ch))"
proof -
  define ch' where "ch' = (if x \<in> K then unlink (par x) x ch else ch)"
  have rest: "set (kids_of ch' y) = set (kids_of ch y) - {x}" for y
  proof (cases "x \<in> set (kids_of ch y)")
    case True
    then have "x \<in> K" "par x = Some y" using linked_sound [OF l] by auto
    then show ?thesis by (auto simp: ch'_def dict_simps)
  next
    case False
    then show ?thesis by (auto simp: ch'_def dict_simps)
  qed
  have "kids_sound (insert x K) (par(x := p)) (link p x ch')"
    using linked_sound [OF l] by (auto simp: kids_sound_def kids_of_link rest split: if_splits)
  moreover have "kids_complete (insert x K) (par(x := p)) (link p x ch')"
    using linked_complete [OF l] by (auto simp: kids_complete_def kids_of_link rest split: if_splits)
  moreover have "parent_closed (insert x K) (par(x := p))"
    using linked_closed [OF l] q by (auto simp: parent_closed_def)
  ultimately show ?thesis unfolding ch'_def [symmetric] by (simp only: linked_def)
qed

section \<open>Stores that keep a forest\<close>

text \<open>
  What both stores' removal step promises: the identifier is gone, the other entries and
  their parent links stay, and the index forgets the identifier as a parent and as a child.
\<close>

locale forest_state =
  fixes ids :: "'s \<Rightarrow> 'k set"
    and parent :: "'s \<Rightarrow> 'k \<Rightarrow> 'k option"
    and kids :: "'s \<Rightarrow> 'k kids"
    and remove :: "'k \<Rightarrow> 's \<Rightarrow> 's"
  assumes ids_remove: "ids (remove x s) = ids s - {x}"
    and parent_remove: "y \<noteq> x \<Longrightarrow> parent (remove x s) y = parent s y"
    and kids_remove: "kids (remove x s) = AList.delete x
          (if x \<in> ids s then unlink (parent s x) x (kids s) else kids s)"
begin

lemma ids_fold: "ids (fold remove xs s) = ids s - set xs"
  by (induction xs arbitrary: s) (auto simp: ids_remove)

lemma parent_fold: "y \<notin> set xs \<Longrightarrow> parent (fold remove xs s) y = parent s y"
  by (induction xs arbitrary: s) (auto simp: parent_remove)

lemma sound_remove:
  "kids_sound (ids s) (parent s) (kids s) \<Longrightarrow>
   kids_sound (ids (remove x s)) (parent (remove x s)) (kids (remove x s))"
  by (auto simp: kids_sound_def ids_remove kids_remove dict_simps parent_remove split: if_splits)
    (metis parent_remove)+

lemma complete_remove:
  "kids_complete (ids s) (parent s) (kids s) \<Longrightarrow>
   kids_complete (ids (remove x s)) (parent (remove x s)) (kids (remove x s))"
  by (auto simp: kids_complete_def ids_remove kids_remove dict_simps parent_remove)

lemma sound_fold:
  "kids_sound (ids s) (parent s) (kids s) \<Longrightarrow>
   kids_sound (ids (fold remove xs s)) (parent (fold remove xs s)) (kids (fold remove xs s))"
  by (induction xs arbitrary: s) (auto intro: sound_remove)

lemma complete_fold:
  "kids_complete (ids s) (parent s) (kids s) \<Longrightarrow>
   kids_complete (ids (fold remove xs s)) (parent (fold remove xs s)) (kids (fold remove xs s))"
  by (induction xs arbitrary: s) (auto intro: complete_remove)

text \<open>Removing a set of identifiers that is closed under the index keeps the forest.\<close>

lemma linked_fold:
  assumes f: "linked (ids s) (parent s) (kids s)"
    and closed: "\<And>y c. y \<in> set xs \<Longrightarrow> c \<in> set (kids_of (kids s) y) \<Longrightarrow> c \<in> set xs"
  shows "linked (ids (fold remove xs s)) (parent (fold remove xs s)) (kids (fold remove xs s))"
proof -
  let ?t = "fold remove xs s"
  have "parent_closed (ids ?t) (parent ?t)"
    unfolding parent_closed_def
  proof (intro ballI allI impI)
    fix c p
    assume c: "c \<in> ids ?t" and p: "parent ?t c = Some p"
    then have c': "c \<in> ids s" "c \<notin> set xs" and p': "parent s c = Some p"
      by (auto simp: ids_fold parent_fold)
    then have "p \<in> ids s" and "c \<in> set (kids_of (kids s) p)"
      by (auto dest: linked_closed [OF f] linked_complete [OF f])
    with c' closed show "p \<in> ids ?t" by (auto simp: ids_fold)
  qed
  then show ?thesis
    using f sound_fold [of s xs] complete_fold [of s xs] by (simp add: linked_def)
qed

lemma acyclic_fold:
  assumes "acyclic (parent_edges (ids s) (parent s))"
  shows "acyclic (parent_edges (ids (fold remove xs s)) (parent (fold remove xs s)))"
proof -
  have "parent_edges (ids (fold remove xs s)) (parent (fold remove xs s))
      \<subseteq> parent_edges (ids s) (parent s)"
    by (rule parent_edges_mono) (auto simp: ids_fold parent_fold)
  then show ?thesis using assms by (rule acyclic_subset [rotated])
qed

lemma linked_remove_subtree:
  assumes f: "linked (ids s) (parent s) (kids s)" and adm: "\<And>y. y \<in> ids s \<Longrightarrow> admit y"
  shows "linked (ids (fold remove (rev (subtree_ids admit (kids s) x)) s))
     (parent (fold remove (rev (subtree_ids admit (kids s) x)) s))
     (kids (fold remove (rev (subtree_ids admit (kids s) x)) s))"
proof (rule linked_fold [OF f])
  fix y c
  assume "y \<in> set (rev (subtree_ids admit (kids s) x))" and c: "c \<in> set (kids_of (kids s) y)"
  moreover from c have "admit c" using linked_sound [OF f] adm by blast
  ultimately show "c \<in> set (rev (subtree_ids admit (kids s) x))"
    by (auto intro: subtree_ids_closed)
qed

lemma forest_remove_subtree:
  assumes f: "forest (ids s) (parent s) (kids s)" and adm: "\<And>y. y \<in> ids s \<Longrightarrow> admit y"
  shows "forest (ids (fold remove (rev (subtree_ids admit (kids s) x)) s))
     (parent (fold remove (rev (subtree_ids admit (kids s) x)) s))
     (kids (fold remove (rev (subtree_ids admit (kids s) x)) s))"
  using linked_remove_subtree [of s admit x] acyclic_fold adm f by (simp only: forest_iff_linked simp_thms)

text \<open>A set closed under the parent link that does not contain the root survives the removal.\<close>

lemma closed_set_survives:
  assumes f: "kids_sound (ids s) (parent s) (kids s)"
    and P: "\<And>y p. y \<in> P \<Longrightarrow> parent s y = Some p \<Longrightarrow> p \<in> P" "P \<subseteq> ids s" "x \<notin> P"
  shows "P \<subseteq> ids (fold remove (rev (subtree_ids admit (kids s) x)) s)"
proof
  fix y
  assume y: "y \<in> P"
  have "y \<notin> set (subtree_ids admit (kids s) x)"
  proof
    assume "y \<in> set (subtree_ids admit (kids s) x)"
    then have "(x, y) \<in> (kid_edges (kids s))\<^sup>*" by (rule subtree_ids_sound)
    then have "x \<in> P"
      using closed_set_misses_subtree [of "ids s" "parent s" "kids s" P x y] f P(1) y
      by (simp only: forest_def)
    with P(3) show False ..
  qed
  with y P(2) show "y \<in> ids (fold remove (rev (subtree_ids admit (kids s) x)) s)"
    by (auto simp: ids_fold)
qed

end

section \<open>Parent chains\<close>

text \<open>
  The specification of a walk from an entry to its root: \<open>chain_path look c xs\<close> says that
  \<open>xs\<close> lists the identifiers met from \<open>c\<close> on, and that the walk ends at an entry without a
  parent. \<open>look\<close> is \<open>None\<close> for an absent entry and \<open>Some\<close> of its parent link otherwise.
\<close>

fun chain_path :: "('k \<Rightarrow> 'k option option) \<Rightarrow> 'k option \<Rightarrow> 'k list \<Rightarrow> bool" where
  "chain_path look None xs = (xs = [])"
| "chain_path look (Some c) [] = False"
| "chain_path look (Some c) (x # xs) =
     (x = c \<and> (case look c of None \<Rightarrow> False | Some p \<Rightarrow> chain_path look p xs))"

lemma chain_path_unique: "chain_path look c xs \<Longrightarrow> chain_path look c ys \<Longrightarrow> xs = ys"
proof (induction look c xs arbitrary: ys rule: chain_path.induct)
  case (3 look c x xs)
  then show ?case by (cases ys) (auto split: option.splits)
qed auto

lemma chain_path_cong:
  "chain_path look c xs \<Longrightarrow> (\<And>x. x \<in> set xs \<Longrightarrow> look' x = look x) \<Longrightarrow> chain_path look' c xs"
  by (induction look c xs rule: chain_path.induct) (auto split: option.splits)

lemma chain_path_present: "chain_path look c xs \<Longrightarrow> x \<in> set xs \<Longrightarrow> look x \<noteq> None"
  by (induction look c xs rule: chain_path.induct) (auto split: option.splits)

lemma chain_path_closed:
  "chain_path look c xs \<Longrightarrow> x \<in> set xs \<Longrightarrow> look x = Some (Some p) \<Longrightarrow> p \<in> set xs"
proof (induction look c xs rule: chain_path.induct)
  case (3 look c x' xs)
  show ?case
  proof (cases "x \<in> set xs")
    case False
    with 3 have "x = c" and "chain_path look (Some p) xs" by auto
    then show ?thesis by (cases xs) auto
  qed (use 3 in \<open>auto split: option.splits\<close>)
qed auto

lemma chain_path_suffix:
  "chain_path look c (xs @ x # ys) \<Longrightarrow> chain_path look (Some x) (x # ys)"
proof (induction xs arbitrary: c)
  case Nil
  then show ?case by (cases c) auto
next
  case (Cons z zs)
  then obtain p where "chain_path look p (zs @ x # ys)"
    by (cases c) (auto split: option.splits)
  then show ?case by (rule Cons.IH)
qed

lemma chain_path_distinct: "chain_path look c xs \<Longrightarrow> distinct xs"
proof (induction xs arbitrary: c)
  case (Cons x xs)
  then obtain p where "c = Some x" and p: "look x = Some p" "chain_path look p xs"
    by (cases c) (auto split: option.splits)
  have "x \<notin> set xs"
  proof
    assume "x \<in> set xs"
    then obtain us vs where "xs = us @ x # vs" by (meson split_list)
    then have "chain_path look (Some x) (x # vs)" using p chain_path_suffix by metis
    moreover have "chain_path look (Some x) (x # xs)" using p by simp
    ultimately show False using chain_path_unique \<open>xs = us @ x # vs\<close> by fastforce
  qed
  with Cons.IH [OF p(2)] show ?case by simp
qed simp

text \<open>In a finite forest every entry has a chain to its root.\<close>

lemma forest_has_chain:
  assumes f: "forest K par ch" and fin: "finite K" and c: "c \<in> K"
    and look: "\<And>x. x \<in> K \<Longrightarrow> look x = Some (par x)"
  shows "\<exists>xs. chain_path look (Some c) xs \<and> set xs \<subseteq> K"
proof -
  have "finite (parent_edges K par)"
  proof (rule finite_subset)
    show "parent_edges K par \<subseteq> K \<times> K" using forest_closed [OF f] by (auto simp: parent_edges_def)
  qed (use fin in simp)
  then have "wf ((parent_edges K par)\<inverse>)"
    using forest_acyclic [OF f] by (rule finite_acyclic_wf_converse)
  then show ?thesis using c
  proof (induction c rule: wf_induct_rule)
    case (less c)
    show ?case
    proof (cases "par c")
      case None
      with less.prems look have "chain_path look (Some c) [c]" by simp
      then show ?thesis using less.prems by (intro exI [of _ "[c]"]) simp
    next
      case (Some p)
      with less.prems have "(p, c) \<in> (parent_edges K par)\<inverse>" by (simp add: parent_edges_def)
      moreover have "p \<in> K" using f less.prems Some by (rule forest_closed)
      ultimately obtain xs where "chain_path look (Some p) xs" "set xs \<subseteq> K"
        using less.IH by blast
      then show ?thesis using Some look less.prems by (intro exI [of _ "c # xs"]) simp
    qed
  qed
qed

end
