(* ===== verification/Core_Types.thy ===== *)
theory Core_Types
  imports Prelude
begin

text \<open>
  The protocol-neutral vocabulary of \<open>src/exqserve/core\<close>: errors, items, usage, timing,
  requests and generation events. A frozen dataclass is a record (or a constructor of the
  union it belongs to), and its \<open>__post_init__\<close> is a constructor function \<open>mk_\<dots>\<close> that
  returns either the exception the source raises or the value. The source's checks
  \<open>isinstance(x, T)\<close> are the types of the arguments here; every check on values is a branch.
  Finite floats are rationals, so \<open>math.isfinite\<close> always holds.
\<close>

definition raise_if :: "bool \<Rightarrow> exn \<Rightarrow> 'a res \<Rightarrow> 'a res" where
  "raise_if b e k = (if b then Inl e else k)"

lemma raise_if_Inr [simp]: "raise_if b e k = Inr x \<longleftrightarrow> \<not> b \<and> k = Inr x"
  by (simp add: raise_if_def)

lemma raise_if_False [simp]: "raise_if False e k = k"
  by (simp add: raise_if_def)

lemma raise_if_True [simp]: "raise_if True e k = Inl e"
  by (simp add: raise_if_def)

section \<open>Errors (core/errors.py)\<close>

datatype failure_cause =
    OUTPUT_EOS | OUTPUT_LENGTH | PARSER_AMBIGUITY_LIMIT | RUNTIME_RECOVERING
  | RESTART_REQUIRED | CONSTRAINT_FAILURE | MODEL_TOOL_OUTPUT_INVALID

datatype semantic_commit_class =
    NO_SEMANTIC_COMMIT | CONTENT_COMMITTED | PARTIAL_TOOL_COMMITTED | TOOL_COMPLETED

datatype error_category =
    INVALID_REQUEST | UNSUPPORTED_CAPABILITY | CONTEXT_LENGTH | OVERLOADED
  | MODEL_FAILURE | RUNTIME_FAILURE | INTERNAL

record canonical_error =
  err_category :: error_category
  err_code :: string
  err_message :: string
  err_retryable :: bool
  err_cause :: "failure_cause option"

definition mk_canonical_error ::
  "error_category \<Rightarrow> string \<Rightarrow> string \<Rightarrow> bool \<Rightarrow> failure_cause option \<Rightarrow> canonical_error res" where
  "mk_canonical_error cat c m r cs =
     raise_if (blank c) (ValueError ''code must not be empty'')
       (Inr \<lparr>err_category = cat, err_code = c, err_message = m, err_retryable = r, err_cause = cs\<rparr>)"

text \<open>The positional call \<open>CanonicalError(category, code, message, retryable)\<close> with a literal,
  non-empty code.\<close>

definition canonical_error4 :: "error_category \<Rightarrow> string \<Rightarrow> string \<Rightarrow> bool \<Rightarrow> canonical_error" where
  "canonical_error4 cat c m r =
     \<lparr>err_category = cat, err_code = c, err_message = m, err_retryable = r, err_cause = None\<rparr>"

lemma canonical_error4_sel [simp]:
  "err_category (canonical_error4 cat c m r) = cat" "err_code (canonical_error4 cat c m r) = c"
  "err_retryable (canonical_error4 cat c m r) = r" "err_cause (canonical_error4 cat c m r) = None"
  by (simp_all add: canonical_error4_def)

definition public_error_code :: "canonical_error \<Rightarrow> string option" where
  "public_error_code e =
     (if err_category e = CONTEXT_LENGTH then Some ''context_length_exceeded'' else None)"

definition commit_aware_error :: "canonical_error \<Rightarrow> semantic_commit_class \<Rightarrow> canonical_error" where
  "commit_aware_error e cc =
     (if cc = NO_SEMANTIC_COMMIT \<or> \<not> err_retryable e then e
      else \<lparr>err_category = err_category e, err_code = err_code e, err_message = err_message e,
            err_retryable = False, err_cause = err_cause e\<rparr>)"

section \<open>Token usage and timing (core/usage.py, core/timing.py)\<close>

record token_usage =
  input_tokens :: "int option"
  cached_input_tokens :: "int option"
  output_tokens :: "int option"
  reasoning_tokens :: "int option"

definition negative :: "'a::linordered_idom option \<Rightarrow> bool" where
  "negative v = (case v of None \<Rightarrow> False | Some n \<Rightarrow> n < 0)"

definition mk_token_usage ::
  "int option \<Rightarrow> int option \<Rightarrow> int option \<Rightarrow> int option \<Rightarrow> token_usage res" where
  "mk_token_usage i c out r =
     raise_if (negative i) (ValueError ''input_tokens must be non-negative'')
    (raise_if (negative c) (ValueError ''cached_input_tokens must be non-negative'')
    (raise_if (negative out) (ValueError ''output_tokens must be non-negative'')
    (raise_if (negative r) (ValueError ''reasoning_tokens must be non-negative'')
    (raise_if (case i of None \<Rightarrow> False | Some n \<Rightarrow> (case c of None \<Rightarrow> False | Some k \<Rightarrow> n < k))
       (ValueError ''cached_input_tokens cannot exceed input_tokens'')
    (Inr \<lparr>input_tokens = i, cached_input_tokens = c, output_tokens = out, reasoning_tokens = r\<rparr>)))))"

record generation_timing =
  queue_seconds :: "seconds option"
  prefill_seconds :: "seconds option"
  generation_seconds :: "seconds option"

definition mk_generation_timing ::
  "seconds option \<Rightarrow> seconds option \<Rightarrow> seconds option \<Rightarrow> generation_timing res" where
  "mk_generation_timing q p g =
     raise_if (negative q) (ValueError ''queue_seconds must be finite and non-negative'')
    (raise_if (negative p) (ValueError ''prefill_seconds must be finite and non-negative'')
    (raise_if (negative g) (ValueError ''generation_seconds must be finite and non-negative'')
    (Inr \<lparr>queue_seconds = q, prefill_seconds = p, generation_seconds = g\<rparr>)))"

section \<open>Items (core/items.py)\<close>

datatype message_role = SYSTEM | DEVELOPER | USER | ASSISTANT

record message_item =
  mi_role :: message_role
  mi_text :: string

record image_content_part =
  ip_source :: string
  ip_detail :: "string option"

datatype content_part = TextContentPart string | ImageContentPart image_content_part

record multimodal_message_item =
  mm_role :: message_role
  mm_parts :: "content_part list"

record reasoning_item =
  ri_text :: string
  starts_new_assistant_segment :: bool

record tool_call_item =
  call_id :: string
  tool_name :: string
  arguments_json :: string
  call_index :: int

record tool_result_item =
  tr_call_id :: string
  tr_text :: string
  tr_is_error :: bool

record multimodal_tool_result_item =
  mr_call_id :: string
  mr_parts :: "content_part list"
  mr_is_error :: bool

datatype canonical_item =
    MessageItem message_item
  | MultimodalMessageItem multimodal_message_item
  | ReasoningItem reasoning_item
  | ToolCallItem tool_call_item
  | ToolResultItem tool_result_item
  | MultimodalToolResultItem multimodal_tool_result_item

definition mk_image_content_part :: "string \<Rightarrow> string option \<Rightarrow> image_content_part res" where
  "mk_image_content_part src d =
     raise_if (blank src) (ValueError ''source must not be empty'')
    (raise_if (d \<noteq> None \<and> d \<notin> Some ` set [''auto'', ''low'', ''high''])
       (ValueError ''detail must be auto, low, high, or None'')
    (Inr \<lparr>ip_source = src, ip_detail = d\<rparr>))"

fun is_image_part :: "content_part \<Rightarrow> bool" where
  "is_image_part (ImageContentPart p) = True"
| "is_image_part (TextContentPart t) = False"

definition mk_multimodal_message_item ::
  "message_role \<Rightarrow> content_part list \<Rightarrow> multimodal_message_item res" where
  "mk_multimodal_message_item r ps =
     raise_if (r \<noteq> USER) (ValueError ''multimodal messages are supported only for the user role'')
    (raise_if (ps = []) (ValueError ''parts must not be empty'')
    (raise_if (\<not> list_ex is_image_part ps)
       (ValueError ''multimodal messages must contain at least one image part'')
    (Inr \<lparr>mm_role = r, mm_parts = ps\<rparr>)))"

definition mk_tool_call_item :: "string \<Rightarrow> string \<Rightarrow> string \<Rightarrow> int \<Rightarrow> tool_call_item res" where
  "mk_tool_call_item cid n args i =
     raise_if (blank cid) (ValueError ''call_id must not be empty'')
    (raise_if (blank n) (ValueError ''name must not be empty'')
    (raise_if (i < 0) (ValueError ''index must be non-negative'')
    (Inr \<lparr>call_id = cid, tool_name = n, arguments_json = args, call_index = i\<rparr>)))"

definition mk_tool_result_item :: "string \<Rightarrow> string \<Rightarrow> bool \<Rightarrow> tool_result_item res" where
  "mk_tool_result_item cid t err =
     raise_if (blank cid) (ValueError ''call_id must not be empty'')
    (Inr \<lparr>tr_call_id = cid, tr_text = t, tr_is_error = err\<rparr>)"

definition mk_multimodal_tool_result_item ::
  "string \<Rightarrow> content_part list \<Rightarrow> bool \<Rightarrow> multimodal_tool_result_item res" where
  "mk_multimodal_tool_result_item cid ps err =
     raise_if (blank cid) (ValueError ''call_id must not be empty'')
    (raise_if (ps = []) (ValueError ''parts must not be empty'')
    (raise_if (\<not> list_ex is_image_part ps)
       (ValueError ''multimodal tool results must contain at least one image part'')
    (Inr \<lparr>mr_call_id = cid, mr_parts = ps, mr_is_error = err\<rparr>)))"

record raw_prompt_item =
  rp_text :: "string option"
  rp_token_ids :: "int list option"

definition mk_raw_prompt_item :: "string option \<Rightarrow> int list option \<Rightarrow> raw_prompt_item res" where
  "mk_raw_prompt_item t ids =
     raise_if ((t = None) = (ids = None)) (ValueError ''exactly one of text or token_ids must be set'')
    (case ids of None \<Rightarrow> Inr \<lparr>rp_text = t, rp_token_ids = ids\<rparr>
     | Some xs \<Rightarrow>
        raise_if (xs = []) (ValueError ''token_ids must not be empty'')
       (raise_if (\<not> list_all (\<lambda>x. 0 \<le> x) xs)
          (TypeError ''token_ids must contain only non-negative integers'')
       (Inr \<lparr>rp_text = t, rp_token_ids = ids\<rparr>)))"

section \<open>Requests (core/request.py)\<close>

record canonical_request =
  cr_request_id :: string
  cr_model :: string
  cr_items :: "canonical_item list"

definition mk_canonical_request :: "string \<Rightarrow> string \<Rightarrow> canonical_item list \<Rightarrow> canonical_request res" where
  "mk_canonical_request rid m items =
     raise_if (blank rid) (ValueError ''request_id must not be empty'')
    (raise_if (blank m) (ValueError ''model must not be empty'')
    (Inr \<lparr>cr_request_id = rid, cr_model = m, cr_items = items\<rparr>))"

record raw_prompt_request =
  rr_request_id :: string
  rr_model_name :: string
  rr_items :: "raw_prompt_item list"

definition mk_raw_prompt_request ::
  "string \<Rightarrow> string \<Rightarrow> raw_prompt_item list \<Rightarrow> raw_prompt_request res" where
  "mk_raw_prompt_request rid m items =
     raise_if (blank rid) (ValueError ''request_id must not be empty'')
    (raise_if (blank m) (ValueError ''model must not be empty'')
    (raise_if (length items \<noteq> 1)
       (ValueError ''raw prompt request must contain exactly one RawPromptItem'')
    (Inr \<lparr>rr_request_id = rid, rr_model_name = m, rr_items = items\<rparr>)))"

section \<open>Token spans (core/tokens.py)\<close>

record native_token_span =
  span_start :: int
  span_end :: int
  span_token_id :: int
  span_text :: string

definition mk_native_token_span :: "int \<Rightarrow> int \<Rightarrow> int \<Rightarrow> string \<Rightarrow> native_token_span res" where
  "mk_native_token_span s e tid t =
     raise_if (s < 0) (ValueError ''start must be non-negative'')
    (raise_if (e \<le> s) (ValueError ''end must be greater than start'')
    (raise_if (tid < 0) (ValueError ''token_id must be non-negative'')
    (raise_if (t = []) (ValueError ''text must not be empty'')
    (Inr \<lparr>span_start = s, span_end = e, span_token_id = tid, span_text = t\<rparr>))))"

section \<open>Generation guarantees (core/generation_guarantees.py)\<close>

datatype generation_guarantee = GNone | GFormat | GSchema | GUnknown

datatype constraint_fallback_policy = FAIL_CLOSED | ALLOW_VALIDATION_ONLY

section \<open>Generation events (core/events.py)\<close>

datatype completion_reason = STOP | LENGTH_LIMIT | TOOL_CALLS | FILTERED

text \<open>Every event carries the identifier of its request as its first argument.\<close>

datatype generation_event =
    GenerationStarted string
  | GenerationCompleted string completion_reason "token_usage option" "string option"
  | GenerationCancelled string
  | GenerationFailed string canonical_error
  | TextStarted string
  | TextDelta string string
  | TextCompleted string string
  | ReasoningStarted string
  | ReasoningDelta string string
  | ReasoningCompleted string string
  | ToolCallStarted string string string int
  | ToolCallArgumentsDelta string string string int
  | ToolCallCompleted string tool_call_item
  | TimingUpdated string generation_timing
  | UsageUpdated string token_usage

primrec event_request_id :: "generation_event \<Rightarrow> string" where
  "event_request_id (GenerationStarted r) = r"
| "event_request_id (GenerationCompleted r c u s) = r"
| "event_request_id (GenerationCancelled r) = r"
| "event_request_id (GenerationFailed r e) = r"
| "event_request_id (TextStarted r) = r"
| "event_request_id (TextDelta r t) = r"
| "event_request_id (TextCompleted r t) = r"
| "event_request_id (ReasoningStarted r) = r"
| "event_request_id (ReasoningDelta r t) = r"
| "event_request_id (ReasoningCompleted r t) = r"
| "event_request_id (ToolCallStarted r c n i) = r"
| "event_request_id (ToolCallArgumentsDelta r c d i) = r"
| "event_request_id (ToolCallCompleted r c) = r"
| "event_request_id (TimingUpdated r t) = r"
| "event_request_id (UsageUpdated r u) = r"

text \<open>\<open>__post_init__\<close> of each event class: the exception it raises, if any.\<close>

definition validate_request_id :: "string \<Rightarrow> 'a res \<Rightarrow> 'a res" where
  "validate_request_id r = raise_if (blank r) (ValueError ''request_id must not be empty'')"

definition validate_index :: "int \<Rightarrow> 'a res \<Rightarrow> 'a res" where
  "validate_index i = raise_if (i < 0) (ValueError ''index must be non-negative'')"

definition validate_tool_identity :: "string \<Rightarrow> string option \<Rightarrow> 'a res \<Rightarrow> 'a res" where
  "validate_tool_identity c n k =
     raise_if (blank c) (ValueError ''call_id must not be empty'')
    (raise_if (case n of None \<Rightarrow> False | Some m \<Rightarrow> blank m) (ValueError ''name must not be empty'') k)"

definition mk_event :: "generation_event \<Rightarrow> generation_event res" where
  "mk_event e = validate_request_id (event_request_id e)
    (case e of
       GenerationCompleted r reason u stop \<Rightarrow>
         (case stop of None \<Rightarrow> Inr e | Some s \<Rightarrow>
            raise_if (s = []) (ValueError ''stop_sequence must not be empty'')
           (raise_if (reason \<noteq> STOP) (ValueError ''stop_sequence is valid only for stop completions'')
           (Inr e)))
     | TextDelta r t \<Rightarrow> raise_if (t = []) (ValueError ''text delta must not be empty'') (Inr e)
     | ReasoningDelta r t \<Rightarrow> raise_if (t = []) (ValueError ''reasoning delta must not be empty'') (Inr e)
     | ToolCallStarted r c n i \<Rightarrow> validate_tool_identity c (Some n) (validate_index i (Inr e))
     | ToolCallArgumentsDelta r c d i \<Rightarrow>
         validate_tool_identity c None
          (validate_index i
            (raise_if (d = []) (ValueError ''tool-call arguments delta must not be empty'') (Inr e)))
     | _ \<Rightarrow> Inr e)"

text \<open>An event that a generation ends with.\<close>

primrec is_terminal_event :: "generation_event \<Rightarrow> bool" where
  "is_terminal_event (GenerationStarted r) = False"
| "is_terminal_event (GenerationCompleted r c u s) = True"
| "is_terminal_event (GenerationCancelled r) = True"
| "is_terminal_event (GenerationFailed r e) = True"
| "is_terminal_event (TextStarted r) = False"
| "is_terminal_event (TextDelta r t) = False"
| "is_terminal_event (TextCompleted r t) = False"
| "is_terminal_event (ReasoningStarted r) = False"
| "is_terminal_event (ReasoningDelta r t) = False"
| "is_terminal_event (ReasoningCompleted r t) = False"
| "is_terminal_event (ToolCallStarted r c n i) = False"
| "is_terminal_event (ToolCallArgumentsDelta r c d i) = False"
| "is_terminal_event (ToolCallCompleted r c) = False"
| "is_terminal_event (TimingUpdated r t) = False"
| "is_terminal_event (UsageUpdated r u) = False"

section \<open>Lemmas\<close>

text \<open>A constructed usage never claims more cached than total input tokens.\<close>

lemma mk_token_usage_Inr:
  "mk_token_usage i c out r = Inr u \<Longrightarrow>
    u = \<lparr>input_tokens = i, cached_input_tokens = c, output_tokens = out, reasoning_tokens = r\<rparr>
    \<and> (\<forall>n\<in>set_option i \<union> set_option c \<union> set_option out \<union> set_option r. 0 \<le> n)
    \<and> (\<forall>n\<in>set_option i. \<forall>k\<in>set_option c. k \<le> n)"
  by (auto simp: mk_token_usage_def negative_def split: option.splits)

lemma mk_event_Inr: "mk_event e = Inr e' \<Longrightarrow> e' = e \<and> \<not> blank (event_request_id e)"
  by (cases e)
    (auto simp: mk_event_def validate_request_id_def validate_index_def validate_tool_identity_def
      split: option.splits)

lemma commit_aware_error_retryable:
  "err_retryable (commit_aware_error e cc) \<longleftrightarrow> err_retryable e \<and> cc = NO_SEMANTIC_COMMIT"
  by (simp add: commit_aware_error_def)

lemma commit_aware_error_frame:
  "err_category (commit_aware_error e cc) = err_category e
    \<and> err_code (commit_aware_error e cc) = err_code e
    \<and> err_message (commit_aware_error e cc) = err_message e
    \<and> err_cause (commit_aware_error e cc) = err_cause e"
  by (simp add: commit_aware_error_def)

end
