(* ===== verification/Store.thy ===== *)
theory Store
  imports Forest Core_Types
begin

text \<open>
  The bounded, parent-linked response store of \<open>src/exqserve/state/store.py\<close>
  (\<open>InMemoryResponseStore\<close>). The state is one record; every public coroutine runs its whole
  body under \<open>self._lock\<close>, so each is one function on the state, with the reading of
  \<open>self._clock()\<close> as an argument. Its invariant says that identifiers, children index and byte
  count agree, that every retained record has its whole ancestor chain retained, and that the
  parent links have no cycle.
\<close>

section \<open>Records and sizes\<close>

record response_record =
  response_id :: string
  rec_model :: string
  parent_response_id :: "string option"
  delta_items :: "canonical_item list"

definition mk_response_record ::
  "string \<Rightarrow> string \<Rightarrow> string option \<Rightarrow> canonical_item list \<Rightarrow> response_record res" where
  "mk_response_record rid m parent items =
     raise_if (blank rid) (ValueError ''response_id must be a non-empty string'')
    (raise_if (blank m) (ValueError ''model must be a non-empty string'')
    (raise_if (case parent of None \<Rightarrow> False | Some p \<Rightarrow> blank p)
       (ValueError ''parent_response_id must be None or a non-empty string'')
    (Inr \<lparr>response_id = rid, rec_model = m, parent_response_id = parent, delta_items = items\<rparr>)))"

datatype disposition =
    STORED | REFUSED_TOO_LARGE | REFUSED_MISSING_PARENT | REFUSED_MODEL_MISMATCH
  | REFUSED_INVALID_GRAPH | REFUSED_BUDGET

text \<open>
  \<open>_estimate_value_bytes\<close> walks an arbitrary Python value: \<open>pyval\<close> has one constructor per
  branch of the function (an \<open>Enum\<close> that is also a \<open>str\<close> is caught by the \<open>str\<close> branch).
\<close>

datatype pyval =
    PyNone
  | PyStr string
  | PyBytes nat
  | PyEnum pyval
  | PyNumber
  | PySeq "pyval list"
  | PyDict "(pyval \<times> pyval) list"
  | PyDataclass "(string \<times> pyval) list"
  | PyOther string

fun estimate_value_bytes :: "pyval \<Rightarrow> int" where
  "estimate_value_bytes PyNone = 1"
| "estimate_value_bytes (PyStr s) = utf8_len s"
| "estimate_value_bytes (PyBytes n) = int n"
| "estimate_value_bytes (PyEnum v) = estimate_value_bytes v"
| "estimate_value_bytes PyNumber = 16"
| "estimate_value_bytes (PySeq vs) = 16 + sum_list (map estimate_value_bytes vs)"
| "estimate_value_bytes (PyDict kvs) =
     32 + sum_list (map (\<lambda>(k, v). estimate_value_bytes k + estimate_value_bytes v) kvs)"
| "estimate_value_bytes (PyDataclass fs) =
     32 + sum_list (map (\<lambda>(n, v). utf8_len n + estimate_value_bytes v) fs)"
| "estimate_value_bytes (PyOther r) = utf8_len r"

lemma estimate_value_bytes_nonneg: "0 \<le> estimate_value_bytes v"
proof (induction v rule: estimate_value_bytes.induct)
  case (7 kvs)
  then show ?case by (auto intro!: add_nonneg_nonneg sum_list_nonneg)
next
  case (8 fs)
  then show ?case by (auto intro!: add_nonneg_nonneg sum_list_nonneg)
qed (auto intro!: add_nonneg_nonneg sum_list_nonneg)

text \<open>The dataclass fields of the canonical items, in declaration order.\<close>

definition pystr_opt :: "string option \<Rightarrow> pyval" where
  "pystr_opt v = (case v of None \<Rightarrow> PyNone | Some s \<Rightarrow> PyStr s)"

primrec role_value :: "message_role \<Rightarrow> string" where
  "role_value SYSTEM = ''system''"
| "role_value DEVELOPER = ''developer''"
| "role_value USER = ''user''"
| "role_value ASSISTANT = ''assistant''"

primrec part_pyval :: "content_part \<Rightarrow> pyval" where
  "part_pyval (TextContentPart t) = PyDataclass [(''text'', PyStr t)]"
| "part_pyval (ImageContentPart p) =
     PyDataclass [(''source'', PyStr (ip_source p)), (''detail'', pystr_opt (ip_detail p))]"

primrec item_pyval :: "canonical_item \<Rightarrow> pyval" where
  "item_pyval (MessageItem m) =
     PyDataclass [(''role'', PyStr (role_value (mi_role m))), (''text'', PyStr (mi_text m))]"
| "item_pyval (MultimodalMessageItem m) =
     PyDataclass [(''role'', PyStr (role_value (mm_role m))),
                  (''parts'', PySeq (map part_pyval (mm_parts m)))]"
| "item_pyval (ReasoningItem r) =
     PyDataclass [(''text'', PyStr (ri_text r)), (''starts_new_assistant_segment'', PyNumber)]"
| "item_pyval (ToolCallItem c) =
     PyDataclass [(''call_id'', PyStr (call_id c)), (''name'', PyStr (tool_name c)),
                  (''arguments_json'', PyStr (arguments_json c)), (''index'', PyNumber)]"
| "item_pyval (ToolResultItem r) =
     PyDataclass [(''call_id'', PyStr (tr_call_id r)), (''text'', PyStr (tr_text r)),
                  (''is_error'', PyNumber)]"
| "item_pyval (MultimodalToolResultItem r) =
     PyDataclass [(''call_id'', PyStr (mr_call_id r)),
                  (''parts'', PySeq (map part_pyval (mr_parts r))), (''is_error'', PyNumber)]"

definition estimate_response_record_bytes :: "response_record \<Rightarrow> int" where
  "estimate_response_record_bytes r = estimate_value_bytes (PyDataclass
     [(''response_id'', PyStr (response_id r)), (''model'', PyStr (rec_model r)),
      (''parent_response_id'', pystr_opt (parent_response_id r)),
      (''delta_items'', PySeq (map item_pyval (delta_items r)))])"

lemma estimate_response_record_bytes_pos: "0 < estimate_response_record_bytes r"
proof -
  have "0 \<le> estimate_value_bytes (PySeq (map item_pyval (delta_items r)))"
    and "0 \<le> estimate_value_bytes (pystr_opt (parent_response_id r))"
    by (rule estimate_value_bytes_nonneg)+
  then show ?thesis
    unfolding estimate_response_record_bytes_def
    by (simp add: add_nonneg_pos del: estimate_value_bytes.simps(6))
      (smt (verit) utf8_len_nonneg)
qed

section \<open>State\<close>

record stored_record =
  sr_record :: response_record
  sr_bytes :: int
  sr_expires_at :: seconds

record store =
  st_max_records :: int
  st_ttl_seconds :: seconds
  st_max_total_bytes :: int
  st_records :: "(string \<times> stored_record) list"
  st_children :: "string kids"
  st_pins :: "(string \<times> int) list"
  st_estimated_bytes :: int

definition new_store :: "int \<Rightarrow> seconds \<Rightarrow> int \<Rightarrow> store res" where
  "new_store max_records ttl max_bytes =
     raise_if (max_records \<le> 0) (ValueError ''max_records must be positive'')
    (raise_if (ttl \<le> 0) (ValueError ''ttl_seconds must be positive and finite'')
    (raise_if (max_bytes \<le> 0) (ValueError ''max_total_bytes must be positive'')
    (Inr \<lparr>st_max_records = max_records, st_ttl_seconds = ttl, st_max_total_bytes = max_bytes,
          st_records = [], st_children = [], st_pins = [], st_estimated_bytes = 0\<rparr>)))"

abbreviation st_ids :: "store \<Rightarrow> string set" where
  "st_ids s \<equiv> fst ` set (st_records s)"

definition pin_count :: "(string \<times> int) list \<Rightarrow> string \<Rightarrow> int" where
  "pin_count pins rid = (case map_of pins rid of None \<Rightarrow> 0 | Some n \<Rightarrow> n)"

section \<open>Operations\<close>

definition validate_response_id :: "string \<Rightarrow> 'a res \<Rightarrow> 'a res" where
  "validate_response_id rid =
     raise_if (blank rid) (ValueError ''response_id must be a non-empty string'')"

definition remove_one_locked :: "string \<Rightarrow> store \<Rightarrow> store" where
  "remove_one_locked rid s =
     (let s1 = s\<lparr>st_records := AList.delete rid (st_records s),
                 st_pins := AList.delete rid (st_pins s)\<rparr>
      in case map_of (st_records s) rid of
           None \<Rightarrow> s1\<lparr>st_children := AList.delete rid (st_children s1)\<rparr>
         | Some stored \<Rightarrow>
             s1\<lparr>st_estimated_bytes := st_estimated_bytes s1 - sr_bytes stored,
                st_children := AList.delete rid
                  (unlink (parent_response_id (sr_record stored)) rid (st_children s1))\<rparr>)"

definition remove_subtree_locked :: "string \<Rightarrow> store \<Rightarrow> store" where
  "remove_subtree_locked rid s =
     (let ordered = subtree_ids (\<lambda>_. True) (st_children s) rid
      in fold remove_one_locked (rev ordered) s)"

definition purge_expired_locked :: "seconds \<Rightarrow> store \<Rightarrow> store" where
  "purge_expired_locked now s =
     (let expired = [rid. (rid, stored) \<leftarrow> st_records s,
                       sr_expires_at stored \<le> now \<and> pin_count (st_pins s) rid = 0]
      in fold (\<lambda>rid s. if rid \<in> st_ids s then remove_subtree_locked rid s else s) expired s)"

definition over_budget :: "store \<Rightarrow> bool" where
  "over_budget s \<longleftrightarrow> st_records s \<noteq> [] \<and>
     (int (length (st_records s)) > st_max_records s \<or> st_estimated_bytes s > st_max_total_bytes s)"

definition eviction_victim :: "string list \<Rightarrow> store \<Rightarrow> string option" where
  "eviction_victim protected s =
     List.find (\<lambda>rid. rid \<notin> set protected \<and> pin_count (st_pins s) rid = 0) (dict_keys (st_records s))"

lemma records_remove_one [simp]: "st_records (remove_one_locked rid s) = AList.delete rid (st_records s)"
  by (simp add: remove_one_locked_def Let_def split: option.splits)

lemma records_fold_remove:
  "length (st_records (fold remove_one_locked xs s)) \<le> length (st_records s)"
proof (induction xs arbitrary: s)
  case (Cons x xs)
  have "length (st_records (fold remove_one_locked xs (remove_one_locked x s)))
      \<le> length (st_records (remove_one_locked x s))" by (rule Cons.IH)
  also have "\<dots> \<le> length (st_records s)" by (simp add: length_delete_le)
  finally show ?case by simp
qed simp

lemma fold_remove_shrinks:
  "x \<in> set xs \<Longrightarrow> x \<in> st_ids s \<Longrightarrow>
    length (st_records (fold remove_one_locked xs s)) < length (st_records s)"
proof (induction xs arbitrary: s)
  case (Cons y xs)
  have le: "length (st_records (fold remove_one_locked xs (remove_one_locked y s)))
      \<le> length (AList.delete y (st_records s))"
    using records_fold_remove [of xs "remove_one_locked y s"] by simp
  show ?case
  proof (cases "x = y")
    case True
    with Cons.prems have "length (AList.delete y (st_records s)) < length (st_records s)"
      by (simp add: length_delete_less)
    with le show ?thesis by simp
  next
    case False
    with Cons.prems have "x \<in> set xs" and "x \<in> st_ids (remove_one_locked y s)"
      by (simp_all add: keys_delete)
    then have "length (st_records (fold remove_one_locked xs (remove_one_locked y s)))
        < length (st_records (remove_one_locked y s))" by (rule Cons.IH)
    also have "\<dots> \<le> length (st_records s)" by (simp add: length_delete_le)
    finally show ?thesis by simp
  qed
qed simp

lemma remove_subtree_shrinks:
  "rid \<in> st_ids s \<Longrightarrow> length (st_records (remove_subtree_locked rid s)) < length (st_records s)"
  unfolding remove_subtree_locked_def Let_def
  by (rule fold_remove_shrinks) (simp_all add: subtree_ids_root [of "\<lambda>_. True"])

lemma eviction_victim_Some:
  "eviction_victim protected s = Some rid \<Longrightarrow>
    rid \<in> st_ids s \<and> rid \<notin> set protected \<and> pin_count (st_pins s) rid = 0"
  by (auto simp: eviction_victim_def find_Some_iff)

text \<open>The eviction loop ends because every turn removes at least the victim.\<close>

function evict_to_budget_locked :: "string list \<Rightarrow> store \<Rightarrow> bool \<times> store" where
  "evict_to_budget_locked protected s =
     (if over_budget s
      then (case eviction_victim protected s of
              None \<Rightarrow> (False, s)
            | Some victim \<Rightarrow> evict_to_budget_locked protected (remove_subtree_locked victim s))
      else (True, s))"
  by pat_completeness auto
termination
  by (relation "measure (\<lambda>(_, s). length (st_records s))")
    (auto intro!: remove_subtree_shrinks dest: eviction_victim_Some)

declare evict_to_budget_locked.simps [simp del]

text \<open>
  The three walks along the parent links. Each carries the set \<open>seen\<close> of the source (a list
  here) and so visits every retained identifier at most once.
\<close>

function parent_chain_loop :: "store \<Rightarrow> string \<Rightarrow> string \<Rightarrow> string option \<Rightarrow> string list \<Rightarrow> bool" where
  "parent_chain_loop s child_id model None seen = True"
| "parent_chain_loop s child_id model (Some current) seen =
     (if current = child_id \<or> current \<in> set seen then False
      else (case map_of (st_records s) current of
              None \<Rightarrow> False
            | Some stored \<Rightarrow>
                (if rec_model (sr_record stored) \<noteq> model then False
                 else parent_chain_loop s child_id model
                        (parent_response_id (sr_record stored)) (current # seen))))"
  by pat_completeness auto

termination
  by (relation "measures [\<lambda>(s, _, _, _, seen). card (st_ids s - set seen)]")
    (auto intro: keys_minus_decreases)

definition parent_chain_is_valid_locked :: "store \<Rightarrow> string \<Rightarrow> string \<Rightarrow> string \<Rightarrow> bool" where
  "parent_chain_is_valid_locked s parent_id child_id model =
     parent_chain_loop s child_id model (Some parent_id) []"

text \<open>\<open>stored.expires_at = now + ttl\<close> followed by \<open>move_to_end\<close>.\<close>

definition touch_record :: "seconds \<Rightarrow> string \<Rightarrow> store \<Rightarrow> store" where
  "touch_record now rid s =
     (case map_of (st_records s) rid of
        None \<Rightarrow> s
      | Some stored \<Rightarrow> s\<lparr>st_records := move_to_end rid (AList.update rid
          (stored\<lparr>sr_expires_at := now + st_ttl_seconds s\<rparr>) (st_records s))\<rparr>)"

definition store_get :: "seconds \<Rightarrow> string \<Rightarrow> store \<Rightarrow> response_record option res \<times> store" where
  "store_get now rid s =
     (if blank rid then (validate_response_id rid (Inr None), s)
      else (let s = purge_expired_locked now s
            in case map_of (st_records s) rid of
                 None \<Rightarrow> (Inr None, s)
               | Some stored \<Rightarrow> (Inr (Some (sr_record stored)), touch_record now rid s)))"

text \<open>The walk of \<open>materialize\<close>: a cycle or a model change raises, a missing ancestor makes
  the caller drop the subtree.\<close>

datatype chain_result = ChainError string | ChainMissing | Chain "stored_record list"

function materialize_loop ::
  "store \<Rightarrow> string option \<Rightarrow> string option \<Rightarrow> string list \<Rightarrow> stored_record list \<Rightarrow> chain_result" where
  "materialize_loop s model None seen chain = Chain chain"
| "materialize_loop s model (Some current) seen chain =
     (if current \<in> set seen then ChainError ''response parent chain contains a cycle''
      else (case map_of (st_records s) current of
              None \<Rightarrow> ChainMissing
            | Some stored \<Rightarrow>
                (if model \<noteq> None \<and> model \<noteq> Some (rec_model (sr_record stored))
                 then ChainError ''response parent chain crosses model identity''
                 else materialize_loop s (Some (rec_model (sr_record stored)))
                        (parent_response_id (sr_record stored)) (current # seen)
                        (chain @ [stored]))))"
  by pat_completeness auto
termination
  by (relation "measures [\<lambda>(s, _, _, seen, _). card (st_ids s - set seen)]")
    (auto intro: keys_minus_decreases)

definition store_materialize ::
  "seconds \<Rightarrow> string \<Rightarrow> store \<Rightarrow> canonical_item list option res \<times> store" where
  "store_materialize now rid s =
     (if blank rid then (validate_response_id rid (Inr None), s)
      else (let s = purge_expired_locked now s
            in if rid \<notin> st_ids s then (Inr None, s)
               else (case materialize_loop s None (Some rid) [] [] of
                       ChainError m \<Rightarrow> (Inl (RuntimeError m), s)
                     | ChainMissing \<Rightarrow> (Inr None, remove_subtree_locked rid s)
                     | Chain chain \<Rightarrow>
                         (Inr (Some (concat (map (\<lambda>st. delta_items (sr_record st)) (rev chain)))),
                          fold (\<lambda>st. touch_record now (response_id (sr_record st))) (rev chain) s))))"

text \<open>
  The loop of \<open>put\<close> that collects the ancestors has no \<open>seen\<close> set: it relies on the chain
  check before it. Its fuel is the number of retained records plus one, which lemma
  \<open>protected_loop_path\<close> shows to be enough on a valid chain; \<open>None\<close> is a \<open>KeyError\<close> or a
  walk that does not end.
\<close>

fun protected_loop :: "nat \<Rightarrow> store \<Rightarrow> string option \<Rightarrow> string list \<Rightarrow> string list option" where
  "protected_loop fuel s None protected = Some protected"
| "protected_loop 0 s (Some current) protected = None"
| "protected_loop (Suc fuel) s (Some current) protected =
     (case map_of (st_records s) current of
        None \<Rightarrow> None
      | Some stored \<Rightarrow>
          protected_loop fuel s (parent_response_id (sr_record stored)) (protected @ [current]))"

definition put_parent_refusal :: "response_record \<Rightarrow> store \<Rightarrow> disposition option" where
  "put_parent_refusal r s =
     (case parent_response_id r of
        None \<Rightarrow> None
      | Some pid \<Rightarrow>
          (case map_of (st_records s) pid of
             None \<Rightarrow> Some REFUSED_MISSING_PARENT
           | Some parent \<Rightarrow>
               (if rec_model (sr_record parent) \<noteq> rec_model r then Some REFUSED_MODEL_MISMATCH
                else if \<not> parent_chain_is_valid_locked s pid (response_id r) (rec_model r)
                then Some REFUSED_INVALID_GRAPH
                else None)))"

text \<open>The middle of \<open>put_with_evictions\<close>: an older record of the same identifier is dropped
  with its subtree, then the new one is linked and becomes the most recent.\<close>

definition clear_record :: "response_record \<Rightarrow> store \<Rightarrow> store" where
  "clear_record r s =
     (if response_id r \<in> st_ids s then remove_subtree_locked (response_id r) s else s)"

definition insert_record_locked :: "seconds \<Rightarrow> response_record \<Rightarrow> store \<Rightarrow> store" where
  "insert_record_locked now r s =
     (let rid = response_id r;
          s1 = clear_record r s;
          s2 = s1\<lparr>st_records := AList.update rid
                  \<lparr>sr_record = r, sr_bytes = estimate_response_record_bytes r,
                   sr_expires_at = now + st_ttl_seconds s1\<rparr> (st_records s1),
                  st_estimated_bytes := st_estimated_bytes s1 + estimate_response_record_bytes r,
                  st_children := link (parent_response_id r) rid (st_children s1)\<rparr>
      in s2\<lparr>st_records := move_to_end rid (st_records s2)\<rparr>)"

definition put_with_evictions ::
  "seconds \<Rightarrow> response_record \<Rightarrow> store \<Rightarrow> (disposition \<times> string list) res \<times> store" where
  "put_with_evictions now r s0 =
     (let s = purge_expired_locked now s0
      in if estimate_response_record_bytes r > st_max_total_bytes s
         then (Inr (REFUSED_TOO_LARGE, []), s)
         else (case put_parent_refusal r s of
                 Some d \<Rightarrow> (Inr (d, []), s)
               | None \<Rightarrow>
                   (case protected_loop (Suc (length (st_records s))) s (parent_response_id r) [response_id r] of
                      None \<Rightarrow> (Inl (KeyError ''parent chain''), s)
                    | Some protected \<Rightarrow>
                        (case evict_to_budget_locked protected (insert_record_locked now r s) of
                           (False, s') \<Rightarrow>
                             (Inr (REFUSED_BUDGET, []),
                              s'\<lparr>st_records := st_records s, st_children := st_children s,
                                 st_estimated_bytes := st_estimated_bytes s\<rparr>)
                         | (True, s') \<Rightarrow>
                             (Inr (STORED, filter (\<lambda>rid. rid \<noteq> response_id r \<and> rid \<notin> st_ids s')
                                             (dict_keys (st_records s))),
                              s')))))"

definition store_put :: "seconds \<Rightarrow> response_record \<Rightarrow> store \<Rightarrow> disposition res \<times> store" where
  "store_put now r s = (case put_with_evictions now r s of (res, s') \<Rightarrow> (map_sum id fst res, s'))"

function pin_chain_loop ::
  "store \<Rightarrow> string \<Rightarrow> string option \<Rightarrow> string list \<Rightarrow> string list \<Rightarrow> string list option" where
  "pin_chain_loop s model None seen chain = Some chain"
| "pin_chain_loop s model (Some current) seen chain =
     (if current \<in> set seen then None
      else (case map_of (st_records s) current of
              None \<Rightarrow> None
            | Some stored \<Rightarrow>
                (if rec_model (sr_record stored) \<noteq> model then None
                 else pin_chain_loop s model (parent_response_id (sr_record stored))
                        (current # seen) (chain @ [current]))))"
  by pat_completeness auto
termination
  by (relation "measures [\<lambda>(s, _, _, seen, _). card (st_ids s - set seen)]")
    (auto intro: keys_minus_decreases)

definition pin_one :: "seconds \<Rightarrow> string \<Rightarrow> store \<Rightarrow> store" where
  "pin_one now rid s = touch_record now rid
     (s\<lparr>st_pins := AList.update rid (pin_count (st_pins s) rid + 1) (st_pins s)\<rparr>)"

definition store_pin_chain :: "seconds \<Rightarrow> string \<Rightarrow> store \<Rightarrow> string list option res \<times> store" where
  "store_pin_chain now rid s =
     (if blank rid then (validate_response_id rid (Inr None), s)
      else (let s = purge_expired_locked now s
            in case map_of (st_records s) rid of
                 None \<Rightarrow> (Inr None, s)
               | Some first \<Rightarrow>
                   (case pin_chain_loop s (rec_model (sr_record first)) (Some rid) [] [] of
                      None \<Rightarrow> (Inr None, s)
                    | Some chain \<Rightarrow> (Inr (Some chain), fold (pin_one now) chain s))))"

definition unpin_one :: "string \<Rightarrow> (string \<times> int) list \<Rightarrow> (string \<times> int) list" where
  "unpin_one rid pins =
     (let count = pin_count pins rid
      in if count \<le> 1 then AList.delete rid pins else AList.update rid (count - 1) pins)"

definition store_unpin_chain :: "string list \<Rightarrow> store \<Rightarrow> store" where
  "store_unpin_chain rids s = s\<lparr>st_pins := fold unpin_one rids (st_pins s)\<rparr>"

definition store_discard :: "seconds \<Rightarrow> string \<Rightarrow> store \<Rightarrow> unit res \<times> store" where
  "store_discard now rid s =
     (if blank rid then (validate_response_id rid (Inr ()), s)
      else (Inr (), remove_subtree_locked rid (purge_expired_locked now s)))"

definition store_size :: "seconds \<Rightarrow> store \<Rightarrow> nat \<times> store" where
  "store_size now s = (let s = purge_expired_locked now s in (length (st_records s), s))"

definition store_stats :: "seconds \<Rightarrow> store \<Rightarrow> (nat \<times> int) \<times> store" where
  "store_stats now s =
     (let s = purge_expired_locked now s in ((length (st_records s), st_estimated_bytes s), s))"

section \<open>Invariant\<close>

definition st_look :: "store \<Rightarrow> string \<Rightarrow> string option option" where
  "st_look s rid = map_option (\<lambda>st. parent_response_id (sr_record st)) (map_of (st_records s) rid)"

definition st_parent :: "store \<Rightarrow> string \<Rightarrow> string option" where
  "st_parent s rid = (case st_look s rid of None \<Rightarrow> None | Some p \<Rightarrow> p)"

definition st_model :: "store \<Rightarrow> string \<Rightarrow> string option" where
  "st_model s rid = map_option (\<lambda>st. rec_model (sr_record st)) (map_of (st_records s) rid)"

definition entry_ok :: "string \<Rightarrow> stored_record \<Rightarrow> bool" where
  "entry_ok rid st \<longleftrightarrow> response_id (sr_record st) = rid
     \<and> sr_bytes st = estimate_response_record_bytes (sr_record st)"

definition store_local_inv :: "store \<Rightarrow> bool" where
  "store_local_inv s \<longleftrightarrow> distinct (dict_keys (st_records s))
     \<and> (\<forall>rid st. map_of (st_records s) rid = Some st \<longrightarrow> entry_ok rid st)
     \<and> st_estimated_bytes s = dict_sum sr_bytes (st_records s)
     \<and> (\<forall>rid p. st_parent s rid = Some p \<longrightarrow> p \<in> st_ids s \<longrightarrow> st_model s p = st_model s rid)
     \<and> 0 < st_max_records s \<and> 0 < st_ttl_seconds s \<and> 0 < st_max_total_bytes s"

definition store_inv :: "store \<Rightarrow> bool" where
  "store_inv s \<longleftrightarrow> store_local_inv s \<and> forest (st_ids s) (st_parent s) (st_children s)"

definition within_budget :: "store \<Rightarrow> bool" where
  "within_budget s \<longleftrightarrow> int (length (st_records s)) \<le> st_max_records s
     \<and> st_estimated_bytes s \<le> st_max_total_bytes s"

text \<open>No retained record is expired, unless a pin keeps it.\<close>

definition fresh :: "seconds \<Rightarrow> store \<Rightarrow> bool" where
  "fresh now s \<longleftrightarrow> (\<forall>rid st. map_of (st_records s) rid = Some st \<longrightarrow>
     now < sr_expires_at st \<or> pin_count (st_pins s) rid \<noteq> 0)"

lemma st_look_in_ids: "rid \<in> st_ids s \<Longrightarrow> st_look s rid = Some (st_parent s rid)"
  by (auto simp: st_look_def st_parent_def in_keys_iff)

lemma st_look_None: "st_look s rid = None \<longleftrightarrow> rid \<notin> st_ids s"
  by (simp add: st_look_def not_in_keys_iff)

lemma new_store_inv: "new_store m t b = Inr s \<Longrightarrow> store_inv s \<and> within_budget s"
  by (auto simp: new_store_def store_inv_def store_local_inv_def within_budget_def st_parent_def
      st_look_def)

section \<open>Removal\<close>

lemma config_remove_one [simp]:
  "st_max_records (remove_one_locked rid s) = st_max_records s"
  "st_ttl_seconds (remove_one_locked rid s) = st_ttl_seconds s"
  "st_max_total_bytes (remove_one_locked rid s) = st_max_total_bytes s"
  "st_pins (remove_one_locked rid s) = AList.delete rid (st_pins s)"
  by (simp_all add: remove_one_locked_def Let_def split: option.splits)

lemma st_look_remove_one:
  "st_look (remove_one_locked x s) y = (if y = x then None else st_look s y)"
  by (simp add: st_look_def dict_simps)

lemma bytes_remove_one:
  "store_local_inv s \<Longrightarrow>
   st_estimated_bytes (remove_one_locked x s) = dict_sum sr_bytes (st_records (remove_one_locked x s))"
  by (auto simp: remove_one_locked_def store_local_inv_def Let_def dict_sum_delete delete_absent
      not_in_keys_iff split: option.splits)

interpretation store_forest:
  forest_state "\<lambda>s. st_ids s" st_parent st_children remove_one_locked
proof (unfold_locales, goal_cases)
  case (1 x s)
  show ?case by (simp add: dict_simps)
next
  case (2 y x s)
  then show ?case by (simp add: st_parent_def st_look_remove_one)
next
  case (3 x s)
  show ?case
    by (cases "map_of (st_records s) x")
      (auto simp: remove_one_locked_def Let_def st_parent_def st_look_def in_keys_iff)
qed

lemma local_remove_one: "store_local_inv s \<Longrightarrow> store_local_inv (remove_one_locked x s)"
  using bytes_remove_one [of s x]
  by (simp add: store_local_inv_def dict_simps st_parent_def st_look_remove_one st_model_def
      del: map_of_eq_Some_iff)

lemma local_fold_remove: "store_local_inv s \<Longrightarrow> store_local_inv (fold remove_one_locked xs s)"
  by (induction xs arbitrary: s) (auto intro: local_remove_one)

lemma inv_remove_subtree: "store_inv s \<Longrightarrow> store_inv (remove_subtree_locked rid s)"
  unfolding store_inv_def remove_subtree_locked_def Let_def
  by (auto intro: local_fold_remove store_forest.forest_remove_subtree)

lemma map_of_fold_remove:
  "map_of (st_records (fold remove_one_locked xs s)) =
     (\<lambda>y. if y \<in> set xs then None else map_of (st_records s) y)"
  by (induction xs arbitrary: s) (auto simp: dict_simps)

lemma pins_fold_remove:
  "pin_count (st_pins (fold remove_one_locked xs s)) y =
     (if y \<in> set xs then 0 else pin_count (st_pins s) y)"
  by (induction xs arbitrary: s) (auto simp: dict_simps pin_count_def)

definition subtree_of :: "store \<Rightarrow> string \<Rightarrow> string set" where
  "subtree_of s rid = {y. (rid, y) \<in> (kid_edges (st_children s))\<^sup>*}"

lemma set_subtree: "set (subtree_ids (\<lambda>_. True) (st_children s) rid) = subtree_of s rid"
  by (simp add: subtree_ids_eq subtree_of_def)

lemma map_of_remove_subtree:
  "map_of (st_records (remove_subtree_locked rid s)) =
     (\<lambda>y. if y \<in> subtree_of s rid then None else map_of (st_records s) y)"
  by (simp add: remove_subtree_locked_def map_of_fold_remove set_subtree)

lemma pins_remove_subtree:
  "pin_count (st_pins (remove_subtree_locked rid s)) y =
     (if y \<in> subtree_of s rid then 0 else pin_count (st_pins s) y)"
  by (simp add: remove_subtree_locked_def pins_fold_remove set_subtree)

lemma config_remove_subtree [simp]:
  "st_max_records (remove_subtree_locked rid s) = st_max_records s"
  "st_ttl_seconds (remove_subtree_locked rid s) = st_ttl_seconds s"
  "st_max_total_bytes (remove_subtree_locked rid s) = st_max_total_bytes s"
proof -
  have "st_max_records (fold remove_one_locked xs s) = st_max_records s
      \<and> st_ttl_seconds (fold remove_one_locked xs s) = st_ttl_seconds s
      \<and> st_max_total_bytes (fold remove_one_locked xs s) = st_max_total_bytes s" for xs
    by (induction xs arbitrary: s) auto
  then show "st_max_records (remove_subtree_locked rid s) = st_max_records s"
    "st_ttl_seconds (remove_subtree_locked rid s) = st_ttl_seconds s"
    "st_max_total_bytes (remove_subtree_locked rid s) = st_max_total_bytes s"
    by (simp_all add: remove_subtree_locked_def)
qed

lemma sr_bytes_pos:
  "store_local_inv s \<Longrightarrow> map_of (st_records s) x = Some st \<Longrightarrow> 0 < sr_bytes st"
  by (auto simp: store_local_inv_def entry_ok_def estimate_response_record_bytes_pos)

lemma bytes_remove_one_le:
  "store_local_inv s \<Longrightarrow> st_estimated_bytes (remove_one_locked x s) \<le> st_estimated_bytes s"
  by (auto simp: remove_one_locked_def Let_def split: option.splits dest: sr_bytes_pos)

lemma bytes_fold_remove_le:
  "store_local_inv s \<Longrightarrow> st_estimated_bytes (fold remove_one_locked xs s) \<le> st_estimated_bytes s"
proof (induction xs arbitrary: s)
  case (Cons x xs)
  then have "st_estimated_bytes (fold remove_one_locked xs (remove_one_locked x s))
      \<le> st_estimated_bytes (remove_one_locked x s)"
    by (intro Cons.IH local_remove_one)
  also have "\<dots> \<le> st_estimated_bytes s" by (rule bytes_remove_one_le) (rule Cons.prems)
  finally show ?case by simp
qed simp

lemma within_budget_remove_subtree:
  assumes "store_inv s" and "within_budget s"
  shows "within_budget (remove_subtree_locked rid s)"
proof -
  have "st_estimated_bytes (remove_subtree_locked rid s) \<le> st_estimated_bytes s"
    using assms by (auto simp: remove_subtree_locked_def store_inv_def intro: bytes_fold_remove_le)
  moreover have "length (st_records (remove_subtree_locked rid s)) \<le> length (st_records s)"
    by (simp add: remove_subtree_locked_def records_fold_remove)
  ultimately show ?thesis using assms(2) by (simp add: within_budget_def)
qed

lemma fresh_remove_subtree: "fresh now s \<Longrightarrow> fresh now (remove_subtree_locked rid s)"
  by (auto simp: fresh_def map_of_remove_subtree pins_remove_subtree split: if_splits)

section \<open>Expiry and eviction\<close>

lemma purge_induct:
  assumes "P s"
    and "\<And>rid t. pin_count (st_pins s) rid = 0 \<Longrightarrow> P t \<Longrightarrow> P (remove_subtree_locked rid t)"
  shows "P (purge_expired_locked now s)"
proof -
  let ?f = "\<lambda>rid s. if rid \<in> st_ids s then remove_subtree_locked rid s else s"
  let ?expired = "[rid. (rid, stored) \<leftarrow> st_records s,
     sr_expires_at stored \<le> now \<and> pin_count (st_pins s) rid = 0]"
  have gen: "P (fold ?f xs t)" if "\<forall>rid\<in>set xs. pin_count (st_pins s) rid = 0" and "P t" for xs t
    using that by (induction xs arbitrary: t) (auto intro: assms(2))
  have "\<forall>rid\<in>set ?expired. pin_count (st_pins s) rid = 0" by auto
  then show ?thesis
    unfolding purge_expired_locked_def Let_def using assms(1) by (rule gen)
qed

lemma evict_induct:
  assumes "P s"
    and "\<And>rid t. rid \<notin> set protected \<Longrightarrow> pin_count (st_pins t) rid = 0 \<Longrightarrow> rid \<in> st_ids t \<Longrightarrow> P t \<Longrightarrow>
           P (remove_subtree_locked rid t)"
  shows "P (snd (evict_to_budget_locked protected s))"
  using assms
proof (induction protected s rule: evict_to_budget_locked.induct [case_names step])
  case (step protected s)
  show ?case
  proof (cases "over_budget s")
    case True
    show ?thesis
    proof (cases "eviction_victim protected s")
      case None
      then show ?thesis using True step.prems(1) by (simp add: evict_to_budget_locked.simps [of protected s])
    next
      case (Some rid)
      have "P (remove_subtree_locked rid s)"
        by (rule step.prems(2)) (use eviction_victim_Some [OF Some] step.prems(1) in auto)
      then have "P (snd (evict_to_budget_locked protected (remove_subtree_locked rid s)))"
        by (rule step.IH [OF True Some]) (rule step.prems(2))
      then show ?thesis using True Some by (simp add: evict_to_budget_locked.simps [of protected s])
    qed
  qed (use step.prems(1) in \<open>simp add: evict_to_budget_locked.simps [of protected s]\<close>)
qed

lemma inv_purge: "store_inv s \<Longrightarrow> store_inv (purge_expired_locked now s)"
  by (rule purge_induct) (auto intro: inv_remove_subtree)

lemma inv_evict: "store_inv s \<Longrightarrow> store_inv (snd (evict_to_budget_locked protected s))"
  by (rule evict_induct) (auto intro: inv_remove_subtree)

lemma within_budget_purge:
  assumes "store_inv s" and "within_budget s"
  shows "within_budget (purge_expired_locked now s)"
proof -
  have "store_inv (purge_expired_locked now s) \<and> within_budget (purge_expired_locked now s)"
    by (rule purge_induct) (auto intro: inv_remove_subtree within_budget_remove_subtree assms)
  then show ?thesis ..
qed

lemma config_purge [simp]:
  "st_max_records (purge_expired_locked now s) = st_max_records s"
  "st_ttl_seconds (purge_expired_locked now s) = st_ttl_seconds s"
  "st_max_total_bytes (purge_expired_locked now s) = st_max_total_bytes s"
proof -
  have "st_max_records (purge_expired_locked now s) = st_max_records s
     \<and> st_ttl_seconds (purge_expired_locked now s) = st_ttl_seconds s
     \<and> st_max_total_bytes (purge_expired_locked now s) = st_max_total_bytes s"
    by (rule purge_induct) auto
  then show "st_max_records (purge_expired_locked now s) = st_max_records s"
    "st_ttl_seconds (purge_expired_locked now s) = st_ttl_seconds s"
    "st_max_total_bytes (purge_expired_locked now s) = st_max_total_bytes s" by auto
qed

lemma config_evict [simp]:
  "st_max_records (snd (evict_to_budget_locked protected s)) = st_max_records s"
  "st_ttl_seconds (snd (evict_to_budget_locked protected s)) = st_ttl_seconds s"
  "st_max_total_bytes (snd (evict_to_budget_locked protected s)) = st_max_total_bytes s"
proof -
  have "st_max_records (snd (evict_to_budget_locked protected s)) = st_max_records s
     \<and> st_ttl_seconds (snd (evict_to_budget_locked protected s)) = st_ttl_seconds s
     \<and> st_max_total_bytes (snd (evict_to_budget_locked protected s)) = st_max_total_bytes s"
    by (rule evict_induct) auto
  then show "st_max_records (snd (evict_to_budget_locked protected s)) = st_max_records s"
    "st_ttl_seconds (snd (evict_to_budget_locked protected s)) = st_ttl_seconds s"
    "st_max_total_bytes (snd (evict_to_budget_locked protected s)) = st_max_total_bytes s" by auto
qed

text \<open>After the purge nothing retained is expired and unpinned.\<close>

lemma fresh_purge: "fresh now (purge_expired_locked now s)"
proof -
  let ?f = "\<lambda>rid s. if rid \<in> st_ids s then remove_subtree_locked rid s else s"
  let ?bad = "\<lambda>t. {rid. \<exists>st. map_of (st_records t) rid = Some st \<and> sr_expires_at st \<le> now
                       \<and> pin_count (st_pins t) rid = 0}"
  have step: "?bad (?f rid t) \<subseteq> ?bad t - {rid}" for rid t
    by (auto simp: map_of_remove_subtree pins_remove_subtree subtree_of_def in_keys_iff
        split: if_splits)
  have gen: "?bad (fold ?f xs t) \<subseteq> ?bad t - set xs" for xs t
  proof (induction xs arbitrary: t)
    case (Cons rid xs)
    have "?bad (fold ?f xs (?f rid t)) \<subseteq> ?bad (?f rid t) - set xs" by (rule Cons.IH)
    also have "\<dots> \<subseteq> ?bad t - {rid} - set xs" using step [of rid t] by blast
    finally show ?case by (simp only: fold_simps set_simps) blast
  qed simp
  have "?bad s \<subseteq> set [rid. (rid, stored) \<leftarrow> st_records s,
      sr_expires_at stored \<le> now \<and> pin_count (st_pins s) rid = 0]"
    by (force dest: map_of_SomeD)
  then have "?bad (purge_expired_locked now s) = {}"
    using gen [of "[rid. (rid, stored) \<leftarrow> st_records s,
      sr_expires_at stored \<le> now \<and> pin_count (st_pins s) rid = 0]" s]
    unfolding purge_expired_locked_def Let_def by blast
  then show ?thesis unfolding fresh_def by fastforce
qed

lemma purge_fresh: "fresh now s \<Longrightarrow> distinct (dict_keys (st_records s)) \<Longrightarrow> purge_expired_locked now s = s"
proof -
  assume f: "fresh now s" and d: "distinct (dict_keys (st_records s))"
  have "[rid. (rid, stored) \<leftarrow> st_records s,
      sr_expires_at stored \<le> now \<and> pin_count (st_pins s) rid = 0] = []"
    using f d by (force simp: fresh_def concat_eq_Nil_conv)
  then show ?thesis by (simp only: purge_expired_locked_def Let_def fold_simps id_apply)
qed

text \<open>
  A parent-closed set of retained records survives the purge when all of it is pinned, and
  survives the eviction when it is protected (or pinned).
\<close>

definition parent_closed_in :: "store \<Rightarrow> string set \<Rightarrow> bool" where
  "parent_closed_in s P \<longleftrightarrow> P \<subseteq> st_ids s \<and> (\<forall>y\<in>P. \<forall>p. st_parent s y = Some p \<longrightarrow> p \<in> P)"

definition keeps :: "string set \<Rightarrow> store \<Rightarrow> store \<Rightarrow> bool" where
  "keeps P s t \<longleftrightarrow> (\<forall>y\<in>P. map_of (st_records t) y = map_of (st_records s) y
     \<and> pin_count (st_pins t) y = pin_count (st_pins s) y)"

lemma remove_subtree_keeps:
  assumes inv: "store_inv t" and P: "parent_closed_in t P" and rid: "rid \<notin> P"
  shows "keeps P t (remove_subtree_locked rid t) \<and> parent_closed_in (remove_subtree_locked rid t) P"
proof -
  have miss: "y \<notin> subtree_of t rid" if y: "y \<in> P" for y
  proof
    assume "y \<in> subtree_of t rid"
    moreover have "kids_sound (st_ids t) (st_parent t) (st_children t)"
      using inv by (simp only: store_inv_def forest_def)
    ultimately have "rid \<in> P"
      using closed_set_misses_subtree [of _ "st_parent t" "st_children t" P rid y] P y
      by (auto simp: subtree_of_def parent_closed_in_def)
    with rid show False ..
  qed
  have keep: "map_of (st_records (remove_subtree_locked rid t)) y = map_of (st_records t) y" if "y \<in> P" for y
    using miss [OF that] by (simp add: map_of_remove_subtree)
  moreover have "parent_closed_in (remove_subtree_locked rid t) P"
    using P keep unfolding parent_closed_in_def
    by (simp add: subset_iff in_keys_iff st_parent_def st_look_def)
  ultimately show ?thesis using miss by (simp add: keeps_def pins_remove_subtree)
qed

lemma keeps_trans: "keeps P s t \<Longrightarrow> keeps P t u \<Longrightarrow> keeps P s u"
  by (simp add: keeps_def)

lemma keeps_refl [simp]: "keeps P s s"
  by (simp add: keeps_def)

lemma purge_keeps:
  assumes "store_inv s" and "parent_closed_in s P" and "\<forall>y\<in>P. pin_count (st_pins s) y \<noteq> 0"
  shows "keeps P s (purge_expired_locked now s)"
    and "parent_closed_in (purge_expired_locked now s) P"
proof -
  have "store_inv (purge_expired_locked now s) \<and> keeps P s (purge_expired_locked now s)
      \<and> parent_closed_in (purge_expired_locked now s) P"
  proof (rule purge_induct)
    fix rid t
    assume "pin_count (st_pins s) rid = 0"
      and IH: "store_inv t \<and> keeps P s t \<and> parent_closed_in t P"
    then have "rid \<notin> P" using assms(3) by blast
    with IH show "store_inv (remove_subtree_locked rid t) \<and> keeps P s (remove_subtree_locked rid t)
        \<and> parent_closed_in (remove_subtree_locked rid t) P"
      using remove_subtree_keeps inv_remove_subtree keeps_trans by blast
  qed (use assms in auto)
  then show "keeps P s (purge_expired_locked now s)"
    "parent_closed_in (purge_expired_locked now s) P" by auto
qed

lemma evict_keeps:
  assumes "store_inv s" and "parent_closed_in s P"
    and "\<forall>y\<in>P. y \<in> set protected \<or> pin_count (st_pins s) y \<noteq> 0"
  shows "keeps P s (snd (evict_to_budget_locked protected s))"
    and "parent_closed_in (snd (evict_to_budget_locked protected s)) P"
proof -
  let ?t = "snd (evict_to_budget_locked protected s)"
  have "store_inv ?t \<and> keeps P s ?t \<and> parent_closed_in ?t P"
  proof (rule evict_induct)
    fix rid t
    assume "rid \<notin> set protected" and "pin_count (st_pins t) rid = 0"
      and IH: "store_inv t \<and> keeps P s t \<and> parent_closed_in t P"
    then have "rid \<notin> P" using assms(3) by (auto simp: keeps_def)
    with IH show "store_inv (remove_subtree_locked rid t) \<and> keeps P s (remove_subtree_locked rid t)
        \<and> parent_closed_in (remove_subtree_locked rid t) P"
      using remove_subtree_keeps inv_remove_subtree keeps_trans by blast
  qed (use assms in auto)
  then show "keeps P s ?t" "parent_closed_in ?t P" by auto
qed


section \<open>Walking the parent links\<close>

lemma has_chain:
  assumes "store_inv s" and "rid \<in> st_ids s"
  shows "\<exists>xs. chain_path (st_look s) (Some rid) xs \<and> set xs \<subseteq> st_ids s"
  using assms by (intro forest_has_chain [where par = "st_parent s" and ch = "st_children s"])
    (auto simp: store_inv_def st_look_in_ids)

lemma chain_length: "chain_path (st_look s) c xs \<Longrightarrow> length xs \<le> length (st_records s)"
proof -
  assume p: "chain_path (st_look s) c xs"
  have "set xs \<subseteq> st_ids s" using chain_path_present [OF p] st_look_None by blast
  then have "card (set xs) \<le> card (st_ids s)" by (rule card_mono [rotated]) simp
  also have "\<dots> \<le> length (st_records s)" by (metis card_length length_map list.set_map)
  finally show ?thesis using chain_path_distinct [OF p] by (simp add: distinct_card)
qed

lemma chain_models:
  assumes "store_local_inv s"
  shows "chain_path (st_look s) (Some c) xs \<Longrightarrow> \<forall>x\<in>set xs. st_model s x = st_model s c"
proof (induction xs arbitrary: c)
  case (Cons x xs)
  then obtain p where x: "x = c" and p: "st_look s c = Some p" "chain_path (st_look s) p xs"
    by (auto split: option.splits)
  show ?case
  proof (cases p)
    case None
    with p x show ?thesis by simp
  next
    case (Some q)
    with p have q: "q \<in> st_ids s" by (cases xs) (auto simp: st_look_def in_keys_iff split: option.splits)
    have "st_parent s c = Some q" using p Some by (simp add: st_parent_def)
    then have "st_model s q = st_model s c"
      using assms q by (simp add: store_local_inv_def)
    moreover have "\<forall>x\<in>set xs. st_model s x = st_model s q"
      using Cons.IH p Some by blast
    ultimately show ?thesis using x by simp
  qed
qed simp

lemma parent_chain_loop_True:
  "parent_chain_loop s child m c seen \<Longrightarrow>
    \<exists>xs. chain_path (st_look s) c xs \<and> child \<notin> set xs \<and> (\<forall>x\<in>set xs. st_model s x = Some m)"
proof (induction s child m c seen rule: parent_chain_loop.induct)
  case (1 s child m seen)
  then show ?case by (intro exI [of _ "[]"]) simp
next
  case (2 s child m current seen)
  then obtain st where st: "current \<noteq> child" "current \<notin> set seen"
      "map_of (st_records s) current = Some st" "rec_model (sr_record st) = m"
      and rest: "parent_chain_loop s child m (parent_response_id (sr_record st)) (current # seen)"
    by (auto split: if_splits option.splits)
  obtain xs where "chain_path (st_look s) (parent_response_id (sr_record st)) xs \<and> child \<notin> set xs
      \<and> (\<forall>x\<in>set xs. st_model s x = Some m)"
    using "2.IH" [OF _ st(3) _ rest] st by auto
  moreover have "st_look s current = Some (parent_response_id (sr_record st))"
      and "st_model s current = Some m"
    using st by (simp_all add: st_look_def st_model_def)
  ultimately show ?case using st by (intro exI [of _ "current # xs"]) simp
qed

lemma protected_loop_path:
  "chain_path (st_look s) c xs \<Longrightarrow> length xs < fuel \<Longrightarrow> protected_loop fuel s c ps = Some (ps @ xs)"
proof (induction fuel s c ps arbitrary: xs rule: protected_loop.induct)
  case (1 fuel s ps)
  then show ?case by simp
next
  case (3 fuel s current ps)
  then obtain p ys where ys: "xs = current # ys" "st_look s current = Some p"
      "chain_path (st_look s) p ys" by (cases xs) (auto split: option.splits)
  then obtain st where "map_of (st_records s) current = Some st" "parent_response_id (sr_record st) = p"
    by (auto simp: st_look_def)
  with "3.IH" [OF this(1), of ys] "3.prems" ys show ?case by simp
qed simp

lemma pin_chain_loop_path:
  "chain_path (st_look s) c xs \<Longrightarrow> set xs \<inter> set seen = {} \<Longrightarrow> (\<forall>x\<in>set xs. st_model s x = Some m) \<Longrightarrow>
    pin_chain_loop s m c seen chain = Some (chain @ xs)"
proof (induction s m c seen chain arbitrary: xs rule: pin_chain_loop.induct)
  case (2 s m current seen chain)
  then obtain p ys where ys: "xs = current # ys" "st_look s current = Some p"
      "chain_path (st_look s) p ys" by (cases xs) (auto split: option.splits)
  then obtain st where st: "map_of (st_records s) current = Some st" "parent_response_id (sr_record st) = p"
    by (auto simp: st_look_def)
  have "current \<notin> set ys" using chain_path_distinct [OF "2.prems"(1)] ys by simp
  with "2.IH" [OF _ st(1), of ys] "2.prems" ys st show ?case by (auto simp: st_model_def)
qed simp

lemma materialize_loop_path:
  "chain_path (st_look s) c xs \<Longrightarrow> set xs \<inter> set seen = {} \<Longrightarrow> (\<forall>x\<in>set xs. st_model s x = Some m) \<Longrightarrow>
    mo = None \<or> mo = Some m \<Longrightarrow>
    materialize_loop s mo c seen chain = Chain (chain @ map (\<lambda>x. the (map_of (st_records s) x)) xs)"
proof (induction s mo c seen chain arbitrary: xs rule: materialize_loop.induct)
  case (2 s mo current seen chain)
  then obtain p ys where ys: "xs = current # ys" "st_look s current = Some p"
      "chain_path (st_look s) p ys" by (cases xs) (auto split: option.splits)
  then obtain st where st: "map_of (st_records s) current = Some st" "parent_response_id (sr_record st) = p"
    by (auto simp: st_look_def)
  have "current \<notin> set ys" using chain_path_distinct [OF "2.prems"(1)] ys by simp
  with "2.IH" [OF _ st(1), of ys] "2.prems" ys st show ?case by (auto simp: st_model_def)
qed simp

section \<open>Refreshing and pinning\<close>

lemma touch_frame [simp]:
  "st_max_records (touch_record now rid s) = st_max_records s"
  "st_ttl_seconds (touch_record now rid s) = st_ttl_seconds s"
  "st_max_total_bytes (touch_record now rid s) = st_max_total_bytes s"
  "st_children (touch_record now rid s) = st_children s"
  "st_pins (touch_record now rid s) = st_pins s"
  "st_estimated_bytes (touch_record now rid s) = st_estimated_bytes s"
  by (simp_all add: touch_record_def split: option.splits)

lemma map_of_touch:
  "map_of (st_records (touch_record now rid s)) y =
     (if y = rid then map_option (\<lambda>st. st\<lparr>sr_expires_at := now + st_ttl_seconds s\<rparr>)
                        (map_of (st_records s) y)
      else map_of (st_records s) y)"
  by (auto simp: touch_record_def dict_simps split: option.splits)

lemma ids_touch [simp]: "st_ids (touch_record now rid s) = st_ids s"
  by (auto simp: in_keys_iff set_eq_iff map_of_touch)

lemma look_touch [simp]: "st_look (touch_record now rid s) = st_look s"
  by (auto simp: st_look_def map_of_touch fun_eq_iff option.map_comp comp_def)

lemma parent_touch [simp]: "st_parent (touch_record now rid s) = st_parent s"
  by (simp add: st_parent_def fun_eq_iff)

lemma model_touch [simp]: "st_model (touch_record now rid s) = st_model s"
  by (auto simp: st_model_def map_of_touch fun_eq_iff option.map_comp comp_def)

lemma touch_length_sum:
  assumes "distinct (dict_keys (st_records s))"
  shows "length (st_records (touch_record now rid s)) = length (st_records s)
     \<and> dict_sum sr_bytes (st_records (touch_record now rid s)) = dict_sum sr_bytes (st_records s)
     \<and> distinct (dict_keys (st_records (touch_record now rid s)))"
  using assms
  by (auto simp: touch_record_def length_move_to_end length_update dict_sum_move_to_end
      dict_sum_update_same in_keys_iff split: option.splits)

lemma inv_touch: "store_inv s \<Longrightarrow> store_inv (touch_record now rid s)"
  using touch_length_sum [of s now rid]
  unfolding store_inv_def store_local_inv_def
  by (simp add: map_of_touch entry_ok_def del: map_of_eq_Some_iff split: if_splits) auto

lemma within_budget_touch: "store_inv s \<Longrightarrow> within_budget s \<Longrightarrow> within_budget (touch_record now rid s)"
  using touch_length_sum [of s now rid]
  by (simp add: within_budget_def store_inv_def store_local_inv_def)

definition set_pins :: "(string \<times> int) list \<Rightarrow> store \<Rightarrow> store" where
  "set_pins pins s = s\<lparr>st_pins := pins\<rparr>"

lemma inv_pins: "store_inv (s\<lparr>st_pins := pins\<rparr>) \<longleftrightarrow> store_inv s"
proof -
  have "st_look (s\<lparr>st_pins := pins\<rparr>) = st_look s" by (simp add: st_look_def fun_eq_iff)
  moreover have "st_model (s\<lparr>st_pins := pins\<rparr>) = st_model s" by (simp add: st_model_def fun_eq_iff)
  moreover have "st_parent (s\<lparr>st_pins := pins\<rparr>) = st_parent s"
    by (simp add: st_parent_def st_look_def fun_eq_iff)
  ultimately show ?thesis by (simp add: store_inv_def store_local_inv_def)
qed

lemma within_budget_pins: "within_budget (s\<lparr>st_pins := pins\<rparr>) \<longleftrightarrow> within_budget s"
  by (simp add: within_budget_def)

lemma pin_one_ok:
  "store_inv s \<and> within_budget s \<Longrightarrow> store_inv (pin_one now rid s) \<and> within_budget (pin_one now rid s)"
  unfolding pin_one_def
  by (auto intro!: inv_touch within_budget_touch simp: inv_pins within_budget_pins)

lemma fold_ok:
  assumes "\<And>x t. P t \<Longrightarrow> P (f x t)" and "P s"
  shows "P (fold f xs s)"
  using assms(2) by (induction xs arbitrary: s) (auto intro: assms(1))


section \<open>Inserting a record\<close>

definition parent_accepted :: "response_record \<Rightarrow> store \<Rightarrow> string list \<Rightarrow> bool" where
  "parent_accepted r s xs \<longleftrightarrow> chain_path (st_look s) (parent_response_id r) xs
     \<and> response_id r \<notin> set xs \<and> (\<forall>x\<in>set xs. st_model s x = Some (rec_model r))"

lemma put_parent_refusal_None:
  "put_parent_refusal r s = None \<Longrightarrow> \<exists>xs. parent_accepted r s xs"
proof (cases "parent_response_id r")
  case None
  then show ?thesis by (intro exI [of _ "[]"]) (simp add: parent_accepted_def)
next
  case (Some pid)
  assume "put_parent_refusal r s = None"
  with Some have "parent_chain_loop s (response_id r) (rec_model r) (Some pid) []"
    by (auto simp: put_parent_refusal_def parent_chain_is_valid_locked_def split: option.splits if_splits)
  from parent_chain_loop_True [OF this] Some show ?thesis by (auto simp: parent_accepted_def)
qed

lemma st_parent_look: "st_parent s y = Some q \<longleftrightarrow> st_look s y = Some (Some q)"
  by (auto simp: st_parent_def split: option.splits)

lemma parent_accepted_closed:
  assumes "parent_accepted r s xs"
  shows "parent_closed_in s (set xs)"
proof -
  have p: "chain_path (st_look s) (parent_response_id r) xs"
    using assms by (simp add: parent_accepted_def)
  have "set xs \<subseteq> st_ids s" using chain_path_present [OF p] st_look_None by blast
  moreover have "q \<in> set xs" if "y \<in> set xs" "st_parent s y = Some q" for y q
    using chain_path_closed [OF p that(1)] that(2) by (simp add: st_parent_look)
  ultimately show ?thesis by (auto simp: parent_closed_in_def)
qed

lemma keeps_look: "keeps P s t \<Longrightarrow> y \<in> P \<Longrightarrow> st_look t y = st_look s y \<and> st_model t y = st_model s y"
  by (simp add: keeps_def st_look_def st_model_def)

lemma parent_accepted_keeps:
  assumes "parent_accepted r s xs" and "keeps (set xs) s t"
  shows "parent_accepted r t xs"
  using assms chain_path_cong [of "st_look s" "parent_response_id r" xs "st_look t"]
  by (auto simp: parent_accepted_def dest: keeps_look)

lemma clear_config [simp]:
  "st_max_records (clear_record r s) = st_max_records s"
  "st_ttl_seconds (clear_record r s) = st_ttl_seconds s"
  "st_max_total_bytes (clear_record r s) = st_max_total_bytes s"
  by (simp_all add: clear_record_def)

abbreviation new_entry :: "seconds \<Rightarrow> response_record \<Rightarrow> store \<Rightarrow> stored_record" where
  "new_entry now r s \<equiv> \<lparr>sr_record = r, sr_bytes = estimate_response_record_bytes r,
     sr_expires_at = now + st_ttl_seconds s\<rparr>"

lemma clear_record_ok:
  assumes "store_inv s" and "parent_accepted r s xs"
  shows "store_inv (clear_record r s)" and "response_id r \<notin> st_ids (clear_record r s)"
    and "keeps (set xs) s (clear_record r s)" and "parent_closed_in (clear_record r s) (set xs)"
    and "parent_accepted r (clear_record r s) xs"
proof -
  have notin: "response_id r \<notin> set xs" using assms(2) by (simp add: parent_accepted_def)
  show "store_inv (clear_record r s)" using assms by (simp add: clear_record_def inv_remove_subtree)
  show "response_id r \<notin> st_ids (clear_record r s)"
    by (auto simp: clear_record_def in_keys_iff map_of_remove_subtree subtree_of_def)
  have "keeps (set xs) s (clear_record r s) \<and> parent_closed_in (clear_record r s) (set xs)"
    using remove_subtree_keeps [OF assms(1) parent_accepted_closed [OF assms(2)] notin]
      parent_accepted_closed [OF assms(2)] by (simp add: clear_record_def)
  then show k: "keeps (set xs) s (clear_record r s)" and "parent_closed_in (clear_record r s) (set xs)"
    by auto
  show "parent_accepted r (clear_record r s) xs"
    using assms(2) k by (rule parent_accepted_keeps)
qed

lemma insert_map_of:
  "map_of (st_records (insert_record_locked now r s)) =
     (map_of (st_records (clear_record r s)))(response_id r \<mapsto> new_entry now r s)"
  by (simp add: insert_record_locked_def Let_def dict_simps)

lemma insert_frame [simp]:
  "st_max_records (insert_record_locked now r s) = st_max_records s"
  "st_ttl_seconds (insert_record_locked now r s) = st_ttl_seconds s"
  "st_max_total_bytes (insert_record_locked now r s) = st_max_total_bytes s"
  "st_pins (insert_record_locked now r s) = st_pins (clear_record r s)"
  "st_children (insert_record_locked now r s) =
     link (parent_response_id r) (response_id r) (st_children (clear_record r s))"
  by (simp_all add: insert_record_locked_def Let_def)

lemma insert_ids: "st_ids (insert_record_locked now r s) = insert (response_id r) (st_ids (clear_record r s))"
  by (auto simp: in_keys_iff set_eq_iff insert_map_of)

lemma insert_look:
  "st_look (insert_record_locked now r s) =
     (st_look (clear_record r s))(response_id r \<mapsto> parent_response_id r)"
  by (auto simp: st_look_def insert_map_of fun_eq_iff)

lemma insert_parent:
  "st_parent (insert_record_locked now r s) =
     (st_parent (clear_record r s))(response_id r := parent_response_id r)"
  by (auto simp: st_parent_def insert_look fun_eq_iff)

lemma insert_model:
  "st_model (insert_record_locked now r s) =
     (st_model (clear_record r s))(response_id r \<mapsto> rec_model r)"
  by (auto simp: st_model_def insert_map_of fun_eq_iff)

lemma insert_records_ok:
  assumes "store_local_inv (clear_record r s)" and "response_id r \<notin> st_ids (clear_record r s)"
  shows "distinct (dict_keys (st_records (insert_record_locked now r s)))"
    and "st_estimated_bytes (insert_record_locked now r s)
       = dict_sum sr_bytes (st_records (insert_record_locked now r s))"
  using assms
  by (simp_all add: insert_record_locked_def Let_def store_local_inv_def dict_sum_move_to_end
      dict_sum_update_absent)

lemma inv_insert:
  assumes "store_inv s" and "parent_accepted r s xs"
  shows "store_inv (insert_record_locked now r s)"
proof -
  let ?c = "clear_record r s"
  let ?t = "insert_record_locked now r s"
  note ok = clear_record_ok [OF assms]
  have c: "store_local_inv ?c" and f: "forest (st_ids ?c) (st_parent ?c) (st_children ?c)"
    using ok(1) by (simp_all only: store_inv_def)
  have par: "q \<in> st_ids ?c \<and> st_model ?c q = Some (rec_model r) \<and> q \<noteq> response_id r"
    if "parent_response_id r = Some q" for q
  proof -
    have "q \<in> set xs" using ok(5) that by (cases xs) (auto simp: parent_accepted_def)
    with ok(4,5) show ?thesis by (auto simp: parent_accepted_def parent_closed_in_def)
  qed
  have nokid: "st_parent ?c y \<noteq> Some (response_id r)" for y
  proof
    assume "st_parent ?c y = Some (response_id r)"
    moreover from this have "y \<in> st_ids ?c"
      by (auto simp: st_parent_def st_look_def in_keys_iff split: option.splits)
    ultimately have "response_id r \<in> st_ids ?c" using forest_closed [OF f] by blast
    with ok(2) show False ..
  qed
  have "forest (st_ids ?t) (st_parent ?t) (st_children ?t)"
    unfolding insert_ids insert_parent insert_frame
    using f ok(2) by (rule forest_link) (use par in auto)
  moreover have "entry_ok y st" if "map_of (st_records ?t) y = Some st" for y st
    using that c unfolding insert_map_of store_local_inv_def
    by (auto simp: entry_ok_def split: if_splits simp del: map_of_eq_Some_iff)
  moreover have "st_model ?t p = st_model ?t y" if "st_parent ?t y = Some p" "p \<in> st_ids ?t" for y p
  proof (cases "y = response_id r")
    case True
    with that(1) par [of p] show ?thesis by (simp add: insert_parent insert_model)
  next
    case False
    with that nokid [of y] c show ?thesis
      by (auto simp: insert_parent insert_model insert_ids store_local_inv_def)
  qed
  ultimately show ?thesis
    using insert_records_ok [OF c ok(2)] c assms(1)
    by (simp add: store_inv_def store_local_inv_def)
qed

lemma insert_keeps:
  assumes "store_inv s" and "parent_accepted r s xs"
  shows "keeps (set xs) s (insert_record_locked now r s)"
    and "parent_closed_in (insert_record_locked now r s) (insert (response_id r) (set xs))"
    and "chain_path (st_look (insert_record_locked now r s)) (Some (response_id r)) (response_id r # xs)"
proof -
  note ok = clear_record_ok [OF assms]
  have notin: "response_id r \<notin> set xs" using assms(2) by (simp add: parent_accepted_def)
  show k: "keeps (set xs) s (insert_record_locked now r s)"
    using ok(3) notin unfolding keeps_def insert_map_of insert_frame by (auto simp del: if_split)
  have "parent_accepted r (insert_record_locked now r s) xs"
    using assms(2) k by (rule parent_accepted_keeps)
  then have p: "chain_path (st_look (insert_record_locked now r s)) (parent_response_id r) xs"
    by (simp add: parent_accepted_def)
  then show path: "chain_path (st_look (insert_record_locked now r s)) (Some (response_id r)) (response_id r # xs)"
    by (simp add: insert_look)
  let ?P = "insert (response_id r) (set xs)"
  have sub: "?P \<subseteq> st_ids (insert_record_locked now r s)"
    using chain_path_present [OF path] st_look_None [of "insert_record_locked now r s"] by fastforce
  have "q \<in> ?P" if "y \<in> ?P" "st_parent (insert_record_locked now r s) y = Some q" for y q
    using chain_path_closed [OF path, of y q] that by (simp add: st_parent_look)
  with sub show "parent_closed_in (insert_record_locked now r s) ?P"
    by (auto simp: parent_closed_in_def)
qed


section \<open>The effect of \<open>put\<close>\<close>

lemma put_parent_refusal_not_stored: "put_parent_refusal r s \<noteq> Some STORED"
  by (auto simp: put_parent_refusal_def split: option.splits)

lemma protected_of_accepted:
  assumes "parent_accepted r s xs"
  shows "protected_loop (Suc (length (st_records s))) s (parent_response_id r) [response_id r]
    = Some (response_id r # xs)"
proof -
  have p: "chain_path (st_look s) (parent_response_id r) xs"
    using assms by (simp add: parent_accepted_def)
  have "length xs < Suc (length (st_records s))" using chain_length [OF p] by simp
  from protected_loop_path [OF p this] show ?thesis by simp
qed

lemma restore_saved:
  fixes s t :: store
  assumes "st_max_records t = st_max_records s" "st_ttl_seconds t = st_ttl_seconds s"
    "st_max_total_bytes t = st_max_total_bytes s"
  shows "t\<lparr>st_records := st_records s, st_children := st_children s,
     st_estimated_bytes := st_estimated_bytes s\<rparr> = s\<lparr>st_pins := st_pins t\<rparr>"
  using assms by (cases s, cases t) simp

text \<open>
  The three ways a call of \<open>put\<close> can end: refused before any insertion, refused by the
  budget with the saved dictionaries restored, or stored.
\<close>

lemma put_outcome:
  assumes inv: "store_inv s0" and put: "put_with_evictions now r s0 = (res, s')"
  defines "s \<equiv> purge_expired_locked now s0"
  shows "(\<exists>d. d \<noteq> STORED \<and> res = Inr (d, []) \<and> s' = s)
    \<or> (\<exists>xs pins. parent_accepted r s xs \<and> res = Inr (REFUSED_BUDGET, []) \<and> s' = s\<lparr>st_pins := pins\<rparr>)
    \<or> (\<exists>xs. parent_accepted r s xs
         \<and> evict_to_budget_locked (response_id r # xs) (insert_record_locked now r s) = (True, s')
         \<and> res = Inr (STORED, filter (\<lambda>rid. rid \<noteq> response_id r \<and> rid \<notin> st_ids s')
                                (dict_keys (st_records s))))"
proof (cases "estimate_response_record_bytes r > st_max_total_bytes s")
  case True
  then have "res = Inr (REFUSED_TOO_LARGE, []) \<and> s' = s"
    using put by (simp add: put_with_evictions_def Let_def s_def)
  then show ?thesis by blast
next
  case small: False
  show ?thesis
  proof (cases "put_parent_refusal r s")
    case (Some d)
    then have "d \<noteq> STORED" using put_parent_refusal_not_stored by auto
    moreover have "res = Inr (d, []) \<and> s' = s"
      using put Some small by (simp add: put_with_evictions_def Let_def s_def)
    ultimately show ?thesis by blast
  next
    case None
    obtain xs where xs: "parent_accepted r s xs" using put_parent_refusal_None [OF None] by blast
    obtain b t where ev: "evict_to_budget_locked (response_id r # xs) (insert_record_locked now r s) = (b, t)"
      by fastforce
    have conf: "st_max_records t = st_max_records s" "st_ttl_seconds t = st_ttl_seconds s"
        "st_max_total_bytes t = st_max_total_bytes s"
      using config_evict [of "response_id r # xs" "insert_record_locked now r s"] ev by simp_all
    have put': "(case (b, t) of
        (False, s') \<Rightarrow> (Inr (REFUSED_BUDGET, []),
           s'\<lparr>st_records := st_records s, st_children := st_children s,
              st_estimated_bytes := st_estimated_bytes s\<rparr>)
      | (True, s') \<Rightarrow> (Inr (STORED, filter (\<lambda>rid. rid \<noteq> response_id r \<and> rid \<notin> st_ids s')
                             (dict_keys (st_records s))), s')) = (res, s')"
      using put small None protected_of_accepted [OF xs] ev unfolding s_def
      by (simp add: put_with_evictions_def Let_def)
    show ?thesis
    proof (cases b)
      case True
      with put' ev xs show ?thesis by auto
    next
      case False
      with put' restore_saved [OF conf]
      have "res = Inr (REFUSED_BUDGET, []) \<and> s' = s\<lparr>st_pins := st_pins t\<rparr>" by auto
      with xs show ?thesis by blast
    qed
  qed
qed

lemma evict_True_within_budget:
  assumes "evict_to_budget_locked protected s = (True, t)"
  shows "\<not> over_budget t"
  using assms
proof (induction protected s rule: evict_to_budget_locked.induct [case_names step])
  case (step protected s)
  then show ?case
    by (subst (asm) evict_to_budget_locked.simps [of protected s]) (auto split: if_splits option.splits)
qed

lemma not_over_budget: "store_inv t \<Longrightarrow> \<not> over_budget t \<Longrightarrow> within_budget t"
  by (cases "st_records t") (auto simp: over_budget_def within_budget_def store_inv_def store_local_inv_def)

lemma put_stored:
  assumes inv: "store_inv s0"
    and put: "put_with_evictions now r s0 = (Inr (STORED, evicted), s')"
  defines "s \<equiv> purge_expired_locked now s0"
  shows "store_inv s' \<and> within_budget s'
    \<and> evicted = filter (\<lambda>rid. rid \<noteq> response_id r \<and> rid \<notin> st_ids s') (dict_keys (st_records s))
    \<and> map_of (st_records s') (response_id r) = Some (new_entry now r s)
    \<and> (\<exists>xs. parent_accepted r s xs \<and> keeps (set xs) s s'
          \<and> chain_path (st_look s') (Some (response_id r)) (response_id r # xs))"
proof -
  from put_outcome [OF inv put] obtain xs where xs: "parent_accepted r s xs"
    and ev: "evict_to_budget_locked (response_id r # xs) (insert_record_locked now r s) = (True, s')"
    and evicted: "evicted = filter (\<lambda>rid. rid \<noteq> response_id r \<and> rid \<notin> st_ids s') (dict_keys (st_records s))"
    unfolding s_def by auto
  let ?t = "insert_record_locked now r s"
  let ?P = "insert (response_id r) (set xs)"
  have s: "store_inv s" unfolding s_def using inv by (rule inv_purge)
  note t = inv_insert [OF s xs, of now] insert_keeps [OF s xs, of now]
  have s': "snd (evict_to_budget_locked (response_id r # xs) ?t) = s'" using ev by simp
  have inv': "store_inv s'" using inv_evict [OF t(1), of "response_id r # xs"] s' by simp
  have keep: "keeps ?P ?t s'"
    using evict_keeps(1) [OF t(1) t(3), of "response_id r # xs"] s' by simp
  have "map_of (st_records s') (response_id r) = Some (new_entry now r s)"
    using keep by (simp add: keeps_def insert_map_of)
  moreover have "keeps (set xs) s s'"
    using t(2) keep by (auto simp: keeps_def)
  moreover have "chain_path (st_look s') (Some (response_id r)) (response_id r # xs)"
    using t(4) by (rule chain_path_cong) (use keep in \<open>auto dest: keeps_look\<close>)
  ultimately show ?thesis
    using inv' evict_True_within_budget [OF ev] xs evicted by (auto intro: not_over_budget)
qed

lemma put_ok:
  assumes "store_inv s0" and "within_budget s0"
  shows "store_inv (snd (put_with_evictions now r s0))
    \<and> within_budget (snd (put_with_evictions now r s0))"
proof -
  obtain res s' where put: "put_with_evictions now r s0 = (res, s')" by fastforce
  have p: "store_inv (purge_expired_locked now s0)" "within_budget (purge_expired_locked now s0)"
    using assms by (auto intro: inv_purge within_budget_purge)
  have "store_inv s' \<and> within_budget s'"
    using put_outcome [OF assms(1) put]
  proof (elim disjE)
    assume "\<exists>xs. parent_accepted r (purge_expired_locked now s0) xs
         \<and> evict_to_budget_locked (response_id r # xs)
             (insert_record_locked now r (purge_expired_locked now s0)) = (True, s')
         \<and> res = Inr (STORED, filter (\<lambda>rid. rid \<noteq> response_id r \<and> rid \<notin> st_ids s')
                                (dict_keys (st_records (purge_expired_locked now s0))))"
    then show ?thesis using put_stored [OF assms(1)] put by auto
  qed (use p in \<open>auto simp: inv_pins within_budget_pins\<close>)
  then show ?thesis using put by simp
qed


section \<open>Histories of the store\<close>

datatype store_op =
    OpGet string | OpMaterialize string | OpPut response_record | OpPinChain string
  | OpUnpinChain "string list" | OpDiscard string | OpSize

fun store_step :: "seconds \<Rightarrow> store_op \<Rightarrow> store \<Rightarrow> store" where
  "store_step now (OpGet rid) s = snd (store_get now rid s)"
| "store_step now (OpMaterialize rid) s = snd (store_materialize now rid s)"
| "store_step now (OpPut r) s = snd (store_put now r s)"
| "store_step now (OpPinChain rid) s = snd (store_pin_chain now rid s)"
| "store_step now (OpUnpinChain rids) s = store_unpin_chain rids s"
| "store_step now (OpDiscard rid) s = snd (store_discard now rid s)"
| "store_step now OpSize s = snd (store_size now s)"

text \<open>The clock readings of a history are arbitrary: the invariant does not need them to grow.\<close>

definition store_run :: "(seconds \<times> store_op) list \<Rightarrow> store \<Rightarrow> store" where
  "store_run ops s = fold (\<lambda>(now, op). store_step now op) ops s"

lemma snd_store_put: "snd (store_put now r s) = snd (put_with_evictions now r s)"
  by (simp add: store_put_def split: prod.splits)

lemma store_step_ok:
  assumes "store_inv s \<and> within_budget s"
  shows "store_inv (store_step now op s) \<and> within_budget (store_step now op s)"
proof -
  have p: "store_inv (purge_expired_locked now s) \<and> within_budget (purge_expired_locked now s)"
    using assms by (auto intro: inv_purge within_budget_purge)
  have t: "store_inv (touch_record now rid t) \<and> within_budget (touch_record now rid t)"
    if "store_inv t \<and> within_budget t" for rid t
    using that by (auto intro: inv_touch within_budget_touch)
  have m: "store_inv (remove_subtree_locked rid t) \<and> within_budget (remove_subtree_locked rid t)"
    if "store_inv t \<and> within_budget t" for rid t
    using that by (auto intro: inv_remove_subtree within_budget_remove_subtree)
  have ft: "store_inv (fold (\<lambda>st. touch_record now (response_id (sr_record st))) xs t)
      \<and> within_budget (fold (\<lambda>st. touch_record now (response_id (sr_record st))) xs t)"
    if "store_inv t \<and> within_budget t" for xs t
    by (rule fold_ok) (use that t in auto)
  have fp: "store_inv (fold (pin_one now) xs t) \<and> within_budget (fold (pin_one now) xs t)"
    if "store_inv t \<and> within_budget t" for xs t
    by (rule fold_ok) (use that pin_one_ok in auto)
  show ?thesis
  proof (cases op)
    case (OpGet rid)
    then show ?thesis using assms p t by (auto simp: store_get_def Let_def split: option.splits)
  next
    case (OpMaterialize rid)
    then show ?thesis using assms p ft m
      by (auto simp: store_materialize_def Let_def split: chain_result.splits)
  next
    case (OpPut r)
    then show ?thesis using assms put_ok by (simp add: snd_store_put)
  next
    case (OpPinChain rid)
    then show ?thesis using assms p fp by (auto simp: store_pin_chain_def Let_def split: option.splits)
  next
    case (OpUnpinChain rids)
    then show ?thesis using assms by (simp add: store_unpin_chain_def inv_pins within_budget_pins)
  next
    case (OpDiscard rid)
    then show ?thesis using assms p m by (auto simp: store_discard_def)
  next
    case OpSize
    then show ?thesis using p by (simp add: store_size_def Let_def)
  qed
qed

lemma store_run_ok: "store_inv s \<and> within_budget s \<Longrightarrow> store_inv (store_run ops s) \<and> within_budget (store_run ops s)"
  unfolding store_run_def by (rule fold_ok) (auto simp: store_step_ok)

section \<open>What \<open>materialize\<close> returns\<close>

text \<open>The specification: the items of the chain, from the root to the response.\<close>

definition chain_items :: "store \<Rightarrow> string list \<Rightarrow> canonical_item list" where
  "chain_items s xs = concat (map (\<lambda>x. delta_items (sr_record (the (map_of (st_records s) x)))) (rev xs))"

lemma materialize_chain:
  assumes inv: "store_inv s" and path: "chain_path (st_look s) (Some rid) xs"
  shows "materialize_loop s None (Some rid) [] [] = Chain (map (\<lambda>x. the (map_of (st_records s) x)) xs)"
proof -
  have "rid \<in> set xs" using path by (cases xs) auto
  then obtain m where m: "st_model s rid = Some m"
    using chain_path_present [OF path] by (fastforce simp: st_look_def st_model_def)
  have "\<forall>x\<in>set xs. st_model s x = Some m"
    using chain_models [OF _ path] inv m by (simp add: store_inv_def)
  from materialize_loop_path [OF path _ this, of "[]" None "[]"] show ?thesis by simp
qed

lemma materialize_result:
  fixes now :: seconds
  assumes inv: "store_inv s0" and rid: "\<not> blank rid"
  defines "s \<equiv> purge_expired_locked now s0"
  shows "fst (store_materialize now rid s0) =
    Inr (if rid \<in> st_ids s then Some (chain_items s (THE xs. chain_path (st_look s) (Some rid) xs)) else None)"
proof (cases "rid \<in> st_ids s")
  case True
  have s: "store_inv s" unfolding s_def using inv by (rule inv_purge)
  obtain xs where xs: "chain_path (st_look s) (Some rid) xs" using has_chain [OF s True] by blast
  then have the: "(THE xs. chain_path (st_look s) (Some rid) xs) = xs"
    by (rule the_equality) (rule chain_path_unique [OF _ xs])
  show ?thesis
    using materialize_chain [OF s xs] True rid the
    by (simp add: store_materialize_def Let_def s_def chain_items_def rev_map comp_def)
next
  case False
  then show ?thesis using rid by (simp add: store_materialize_def Let_def s_def)
qed

lemma materialize_items:
  assumes inv: "store_inv s" and fresh: "fresh now s" and rid: "\<not> blank rid"
    and path: "chain_path (st_look s) (Some rid) xs"
  shows "fst (store_materialize now rid s) = Inr (Some (chain_items s xs))"
proof -
  have purge: "purge_expired_locked now s = s"
    using fresh inv by (intro purge_fresh) (simp_all add: store_inv_def store_local_inv_def)
  have "rid \<in> set xs" using path by (cases xs) auto
  then have "rid \<in> st_ids s" using chain_path_present [OF path] st_look_None by blast
  moreover have "(THE xs. chain_path (st_look s) (Some rid) xs) = xs"
    using path by (rule the_equality) (rule chain_path_unique [OF _ path])
  ultimately show ?thesis using materialize_result [OF inv rid, of now] purge by simp
qed

lemma fresh_insert:
  "fresh now s \<Longrightarrow> 0 < st_ttl_seconds s \<Longrightarrow> fresh now (insert_record_locked now r s)"
  using fresh_remove_subtree [of now s "response_id r"]
  by (auto simp: fresh_def insert_map_of clear_record_def split: if_splits)

lemma fresh_evict: "fresh now s \<Longrightarrow> fresh now (snd (evict_to_budget_locked protected s))"
  by (rule evict_induct) (auto intro: fresh_remove_subtree)

lemma put_stored_fresh:
  assumes inv: "store_inv s0" and put: "put_with_evictions now r s0 = (Inr (STORED, evicted), s')"
  shows "fresh now s'"
proof -
  have "0 < st_ttl_seconds (purge_expired_locked now s0)"
    using inv by (simp add: store_inv_def store_local_inv_def)
  from put_outcome [OF inv put] obtain xs where
    ev: "evict_to_budget_locked (response_id r # xs)
           (insert_record_locked now r (purge_expired_locked now s0)) = (True, s')" by auto
  have "fresh now (insert_record_locked now r (purge_expired_locked now s0))"
    by (rule fresh_insert) (use fresh_purge \<open>0 < st_ttl_seconds (purge_expired_locked now s0)\<close> in auto)
  from fresh_evict [OF this, of "response_id r # xs"] ev show ?thesis by simp
qed

lemma chain_items_cong:
  "keeps (set xs) s t \<Longrightarrow> chain_items t xs = chain_items s xs"
  by (auto simp: chain_items_def keeps_def intro!: arg_cong [where f = concat])


section \<open>Pinned chains\<close>

definition pinned_set :: "string set \<Rightarrow> store \<Rightarrow> bool" where
  "pinned_set P s \<longleftrightarrow> store_inv s \<and> parent_closed_in s P \<and> (\<forall>y\<in>P. 1 \<le> pin_count (st_pins s) y)"

definition same_records :: "string set \<Rightarrow> store \<Rightarrow> store \<Rightarrow> bool" where
  "same_records P s t \<longleftrightarrow> (\<forall>y\<in>P. map_option sr_record (map_of (st_records t) y)
     = map_option sr_record (map_of (st_records s) y))"

lemma same_records_trans: "same_records P s t \<Longrightarrow> same_records P t u \<Longrightarrow> same_records P s u"
  by (simp add: same_records_def)

lemma keeps_pinned:
  "keeps P s t \<Longrightarrow> parent_closed_in t P \<Longrightarrow> store_inv t \<Longrightarrow> pinned_set P s \<Longrightarrow>
    pinned_set P t \<and> same_records P s t"
  by (simp add: pinned_set_def keeps_def same_records_def)

lemma pinned_purge: "pinned_set P s \<Longrightarrow> pinned_set P (purge_expired_locked now s)
    \<and> same_records P s (purge_expired_locked now s)"
proof -
  assume p: "pinned_set P s"
  then have "\<forall>y\<in>P. pin_count (st_pins s) y \<noteq> 0" by (fastforce simp: pinned_set_def)
  then have "keeps P s (purge_expired_locked now s)" "parent_closed_in (purge_expired_locked now s) P"
    using p purge_keeps by (auto simp: pinned_set_def)
  then show ?thesis using p by (intro keeps_pinned) (auto simp: pinned_set_def intro: inv_purge)
qed

lemma pinned_touch: "pinned_set P s \<Longrightarrow> pinned_set P (touch_record now rid s)
    \<and> same_records P s (touch_record now rid s)"
  by (auto simp: pinned_set_def parent_closed_in_def same_records_def map_of_touch inv_touch
      option.map_comp comp_def simp del: image_eqI)

lemma pinned_set_pins:
  assumes "pinned_set P s" and "\<And>y. y \<in> P \<Longrightarrow> 1 \<le> pin_count pins y"
  shows "pinned_set P (s\<lparr>st_pins := pins\<rparr>)"
proof -
  have "st_parent (s\<lparr>st_pins := pins\<rparr>) = st_parent s"
    by (simp add: st_parent_def st_look_def fun_eq_iff)
  with assms show ?thesis by (simp add: pinned_set_def inv_pins parent_closed_in_def)
qed

lemma pinned_pins:
  assumes "pinned_set P s" and "\<And>y. y \<in> P \<Longrightarrow> pin_count (st_pins s) y \<le> pin_count pins y"
  shows "pinned_set P (s\<lparr>st_pins := pins\<rparr>) \<and> same_records P s (s\<lparr>st_pins := pins\<rparr>)"
proof -
  have "1 \<le> pin_count pins y" if "y \<in> P" for y
    using assms(1) assms(2) [OF that] that by (force simp: pinned_set_def)
  then show ?thesis using pinned_set_pins [OF assms(1)] by (simp add: same_records_def)
qed

lemma pinned_pin_one: "pinned_set P s \<Longrightarrow> pinned_set P (pin_one now rid s)
    \<and> same_records P s (pin_one now rid s)"
proof -
  assume p: "pinned_set P s"
  let ?t = "s\<lparr>st_pins := AList.update rid (pin_count (st_pins s) rid + 1) (st_pins s)\<rparr>"
  have "pinned_set P ?t \<and> same_records P s ?t"
    using p by (rule pinned_pins) (simp add: pin_count_def dict_simps)
  with pinned_touch [of P ?t now rid] show ?thesis
    unfolding pin_one_def using same_records_trans by blast
qed

lemma pinned_remove_subtree: "pinned_set P s \<Longrightarrow> rid \<notin> P \<Longrightarrow>
    pinned_set P (remove_subtree_locked rid s) \<and> same_records P s (remove_subtree_locked rid s)"
  using remove_subtree_keeps [of s P rid] inv_remove_subtree [of s rid]
  by (intro keeps_pinned) (auto simp: pinned_set_def)

lemma pinned_evict:
  "pinned_set P s \<Longrightarrow> pinned_set P (snd (evict_to_budget_locked protected s))
    \<and> same_records P s (snd (evict_to_budget_locked protected s))"
  by (intro keeps_pinned)
    (auto simp: pinned_set_def intro!: evict_keeps inv_evict, (fastforce+)?)

lemma fold_pinned:
  assumes "\<And>x t. pinned_set P t \<Longrightarrow> pinned_set P (f x t) \<and> same_records P t (f x t)" and "pinned_set P s"
  shows "pinned_set P (fold f xs s) \<and> same_records P s (fold f xs s)"
proof -
  have "pinned_set P t \<and> same_records P s t \<Longrightarrow>
      pinned_set P (fold f xs t) \<and> same_records P s (fold f xs t)" for t
  proof (induction xs arbitrary: t)
    case (Cons x xs)
    then have "pinned_set P (f x t) \<and> same_records P s (f x t)"
      using assms(1) same_records_trans by blast
    then show ?case using Cons.IH by simp
  qed simp
  then show ?thesis using assms(2) by (simp add: same_records_def)
qed

lemma pinned_insert:
  assumes p: "pinned_set P s" and r: "response_id r \<notin> P" and acc: "parent_accepted r s xs"
  shows "pinned_set P (insert_record_locked now r s) \<and> same_records P s (insert_record_locked now r s)"
proof -
  have c: "pinned_set P (clear_record r s) \<and> same_records P s (clear_record r s)"
    using p pinned_remove_subtree [OF p r] by (simp add: clear_record_def same_records_def)
  have inv: "store_inv (insert_record_locked now r s)"
    using p acc by (intro inv_insert) (simp_all add: pinned_set_def)
  have "parent_closed_in (insert_record_locked now r s) P"
    using c r by (auto simp: pinned_set_def parent_closed_in_def insert_ids insert_parent)
  with c inv r show ?thesis
    by (auto simp: pinned_set_def same_records_def insert_map_of)
qed

definition op_spares :: "string set \<Rightarrow> store_op \<Rightarrow> bool" where
  "op_spares P op = (case op of OpPut r \<Rightarrow> response_id r \<notin> P | OpDiscard rid \<Rightarrow> rid \<notin> P
     | OpUnpinChain rids \<Rightarrow> set rids \<inter> P = {} | _ \<Rightarrow> True)"

lemma pinned_put:
  assumes p: "pinned_set P s0" and r: "response_id r \<notin> P"
  shows "pinned_set P (snd (put_with_evictions now r s0))
    \<and> same_records P s0 (snd (put_with_evictions now r s0))"
proof -
  obtain res s' where put: "put_with_evictions now r s0 = (res, s')" by fastforce
  let ?s = "purge_expired_locked now s0"
  have inv0: "store_inv s0" using p by (simp add: pinned_set_def)
  have pu: "pinned_set P ?s" "same_records P s0 ?s" using pinned_purge [OF p] by auto
  show ?thesis
  proof (cases "estimate_response_record_bytes r > st_max_total_bytes ?s \<or> put_parent_refusal r ?s \<noteq> None")
    case True
    then have "s' = ?s" using put by (auto simp: put_with_evictions_def Let_def split: if_splits)
    then show ?thesis using put pu by simp
  next
    case False
    then obtain xs where xs: "parent_accepted r ?s xs" using put_parent_refusal_None by blast
    define t where "t = snd (evict_to_budget_locked (response_id r # xs) (insert_record_locked now r ?s))"
    have i: "pinned_set P (insert_record_locked now r ?s)" "same_records P ?s (insert_record_locked now r ?s)"
      using pinned_insert [OF pu(1) r xs] by auto
    have t: "pinned_set P t" "same_records P ?s t"
      using pinned_evict [OF i(1)] same_records_trans [OF i(2)] by (auto simp: t_def)
    have "t\<lparr>st_records := st_records ?s, st_children := st_children ?s,
        st_estimated_bytes := st_estimated_bytes ?s\<rparr> = ?s\<lparr>st_pins := st_pins t\<rparr>"
      by (rule restore_saved) (simp_all add: t_def)
    moreover obtain b where "evict_to_budget_locked (response_id r # xs) (insert_record_locked now r ?s) = (b, t)"
      by (cases "evict_to_budget_locked (response_id r # xs) (insert_record_locked now r ?s)")
        (simp add: t_def)
    ultimately have "s' = (if b then t else ?s\<lparr>st_pins := st_pins t\<rparr>)"
      using put False protected_of_accepted [OF xs]
      by (cases b) (simp_all add: put_with_evictions_def Let_def)
    then have "s' = t \<or> s' = ?s\<lparr>st_pins := st_pins t\<rparr>" by simp
    moreover have "pinned_set P (?s\<lparr>st_pins := st_pins t\<rparr>)"
      using pu(1) by (rule pinned_set_pins) (use t(1) in \<open>simp add: pinned_set_def\<close>)
    moreover have "same_records P ?s (?s\<lparr>st_pins := st_pins t\<rparr>)"
      by (simp add: same_records_def)
    ultimately have "pinned_set P s' \<and> same_records P ?s s'" using t by metis
    then show ?thesis using put same_records_trans [OF pu(2)] by simp
  qed
qed

lemma pin_count_unpin_one: "y \<noteq> x \<Longrightarrow> pin_count (unpin_one x pins) y = pin_count pins y"
  by (simp add: unpin_one_def Let_def pin_count_def dict_simps)

lemma pin_count_fold_unpin: "y \<notin> set rids \<Longrightarrow> pin_count (fold unpin_one rids pins) y = pin_count pins y"
  by (induction rids arbitrary: pins) (auto simp: pin_count_unpin_one)

lemma pinned_step:
  assumes p: "pinned_set P s" and spare: "op_spares P op"
  shows "pinned_set P (store_step now op s) \<and> same_records P s (store_step now op s)"
proof -
  let ?s = "purge_expired_locked now s"
  have pu: "pinned_set P ?s" "same_records P s ?s" using pinned_purge [OF p] by auto
  have refl: "same_records P s s" by (simp add: same_records_def)
  note tr = same_records_trans [OF pu(2)]
  show ?thesis
  proof (cases op)
    case (OpGet rid)
    then show ?thesis using p pu refl pinned_touch [OF pu(1), of now rid] tr
      by (auto simp: store_get_def Let_def split: option.splits)
  next
    case (OpMaterialize rid)
    have inv: "store_inv ?s" using pu by (simp add: pinned_set_def)
    have touch: "pinned_set P (fold (\<lambda>st. touch_record now (response_id (sr_record st))) xs ?s)
        \<and> same_records P ?s (fold (\<lambda>st. touch_record now (response_id (sr_record st))) xs ?s)" for xs
      by (rule fold_pinned) (use pu pinned_touch in auto)
    show ?thesis
    proof (cases "blank rid \<or> rid \<notin> st_ids ?s")
      case True
      then show ?thesis using OpMaterialize p pu refl by (auto simp: store_materialize_def Let_def)
    next
      case False
      then obtain xs where "chain_path (st_look ?s) (Some rid) xs" using has_chain [OF inv] by blast
      from materialize_chain [OF inv this] False touch show ?thesis
        using OpMaterialize tr by (auto simp: store_materialize_def Let_def)
    qed
  next
    case (OpPut r)
    then show ?thesis using spare pinned_put [OF p] by (simp add: snd_store_put op_spares_def)
  next
    case (OpPinChain rid)
    have "pinned_set P (fold (pin_one now) xs ?s) \<and> same_records P ?s (fold (pin_one now) xs ?s)" for xs
      by (rule fold_pinned) (use pu pinned_pin_one in auto)
    then show ?thesis using OpPinChain p pu refl tr
      by (auto simp: store_pin_chain_def Let_def split: option.splits)
  next
    case (OpUnpinChain rids)
    then have "\<And>y. y \<in> P \<Longrightarrow> y \<notin> set rids" using spare by (auto simp: op_spares_def)
    then have "\<And>y. y \<in> P \<Longrightarrow> pin_count (st_pins s) y \<le> pin_count (fold unpin_one rids (st_pins s)) y"
      by (simp add: pin_count_fold_unpin)
    from pinned_pins [OF p this] OpUnpinChain show ?thesis by (simp add: store_unpin_chain_def)
  next
    case (OpDiscard rid)
    then have "rid \<notin> P" using spare by (simp add: op_spares_def)
    from pinned_remove_subtree [OF pu(1) this] OpDiscard p refl tr show ?thesis
      by (auto simp: store_discard_def)
  next
    case OpSize
    then show ?thesis using pu by (simp add: store_size_def Let_def)
  qed
qed

lemma pinned_run:
  assumes "pinned_set P s" and "\<forall>(now, op)\<in>set ops. op_spares P op"
  shows "pinned_set P (store_run ops s) \<and> same_records P s (store_run ops s)"
  using assms
proof (induction ops arbitrary: s)
  case Nil
  then show ?case by (simp add: store_run_def same_records_def)
next
  case (Cons a ops)
  obtain now op where a: "a = (now, op)" by fastforce
  with Cons.prems have "pinned_set P (store_step now op s) \<and> same_records P s (store_step now op s)"
    by (intro pinned_step) auto
  with Cons.IH [of "store_step now op s"] Cons.prems(2) a show ?case
    using same_records_trans by (auto simp: store_run_def)
qed

text \<open>\<open>pin_chain\<close> pins exactly the chain, which is closed under the parent link.\<close>

lemma pin_count_pin_one:
  "pin_count (st_pins (pin_one now x s)) y = pin_count (st_pins s) y + (if y = x then 1 else 0)"
  by (simp add: pin_one_def pin_count_def dict_simps)

lemma pin_count_fold_pin:
  "distinct xs \<Longrightarrow> pin_count (st_pins (fold (pin_one now) xs s)) y
     = pin_count (st_pins s) y + (if y \<in> set xs then 1 else 0)"
  by (induction xs arbitrary: s) (auto simp: pin_count_pin_one)

lemma look_pin_one [simp]: "st_look (pin_one now x s) = st_look s"
  by (simp add: pin_one_def) (simp add: st_look_def fun_eq_iff)

lemma look_fold_pin: "st_look (fold (pin_one now) xs s) = st_look s"
  by (induction xs arbitrary: s) auto

lemma pin_chain_result:
  assumes inv: "store_inv s0" and rid: "\<not> blank rid"
  shows "store_pin_chain now rid s0 =
    (let s = purge_expired_locked now s0
     in if rid \<in> st_ids s
        then (let xs = (THE xs. chain_path (st_look s) (Some rid) xs)
              in (Inr (Some xs), fold (pin_one now) xs s))
        else (Inr None, s))"
proof (cases "rid \<in> st_ids (purge_expired_locked now s0)")
  case True
  let ?s = "purge_expired_locked now s0"
  have s: "store_inv ?s" using inv by (rule inv_purge)
  obtain xs where xs: "chain_path (st_look ?s) (Some rid) xs" using has_chain [OF s True] by blast
  then have the: "(THE xs. chain_path (st_look ?s) (Some rid) xs) = xs"
    by (rule the_equality) (rule chain_path_unique [OF _ xs])
  obtain st where st: "map_of (st_records ?s) rid = Some st" using True by (auto simp: in_keys_iff)
  have "\<forall>x\<in>set xs. st_model ?s x = Some (rec_model (sr_record st))"
    using chain_models [OF _ xs] s st by (simp add: store_inv_def st_model_def)
  from pin_chain_loop_path [OF xs _ this, of "[]" "[]"] True rid st the show ?thesis
    by (simp add: store_pin_chain_def Let_def)
qed (use rid in \<open>auto simp: store_pin_chain_def Let_def not_in_keys_iff\<close>)

lemma pin_chain_pins:
  assumes inv: "store_inv s0" and pin: "store_pin_chain now rid s0 = (Inr (Some chain), s1)"
    and nn: "\<forall>y. 0 \<le> pin_count (st_pins s0) y"
  shows "pinned_set (set chain) s1" and "rid \<in> set chain"
proof -
  let ?s = "purge_expired_locked now s0"
  have nb: "\<not> blank rid" using pin by (auto simp: store_pin_chain_def validate_response_id_def)
  have s: "store_inv ?s" using inv by (rule inv_purge)
  have ids: "rid \<in> st_ids ?s" and ch: "chain = (THE xs. chain_path (st_look ?s) (Some rid) xs)"
    and s1: "s1 = fold (pin_one now) chain ?s"
    using pin pin_chain_result [OF inv nb, of now] by (auto simp: Let_def split: if_splits)
  obtain xs where xs: "chain_path (st_look ?s) (Some rid) xs" using has_chain [OF s ids] by blast
  then have the: "chain = xs" unfolding ch
    by (rule the_equality) (rule chain_path_unique [OF _ xs])
  have path: "chain_path (st_look s1) (Some rid) chain"
    using xs the s1 by (simp add: look_fold_pin)
  show "rid \<in> set chain" using path by (cases chain) auto
  have "store_inv s1" unfolding s1
    by (rule fold_ok [where P = store_inv]) (use s in \<open>auto simp: pin_one_def inv_pins intro: inv_touch\<close>)
  moreover have "set chain \<subseteq> st_ids s1" using chain_path_present [OF path] st_look_None by blast
  moreover have "q \<in> set chain" if "y \<in> set chain" "st_parent s1 y = Some q" for y q
    using chain_path_closed [OF path that(1)] that(2) by (simp add: st_parent_look)
  moreover have "0 \<le> pin_count (st_pins ?s) y" for y
  proof -
    have "\<forall>y. 0 \<le> pin_count (st_pins ?s) y"
      by (rule purge_induct) (use nn in \<open>auto simp: pins_remove_subtree\<close>)
    then show ?thesis by blast
  qed
  then have "\<forall>y\<in>set chain. 1 \<le> pin_count (st_pins s1) y"
    using chain_path_distinct [OF path] by (simp add: s1 pin_count_fold_pin)
  ultimately show "pinned_set (set chain) s1" by (auto simp: pinned_set_def parent_closed_in_def)
qed

end
