(* ===== verification/Json.thy ===== *)
theory Json
  imports Prelude
begin

text \<open>
  JSON values as Python's \<open>json\<close> module builds them, and the compact encoder
  \<open>json.dumps(v, ensure_ascii=False, separators=(",", ":"), sort_keys=...)\<close>. A Python dict is
  an association list in insertion order. A float is kept as the text \<open>float.__repr__\<close> gives
  for it, since the code never computes with one.
\<close>

datatype json =
    JNull
  | JBool bool
  | JInt int
  | JFloat string
  | JStr string
  | JArr "json list"
  | JObj "(string \<times> json) list"

type_synonym json_dict = "(string \<times> json) list"

text \<open>\<open>d.get(key)\<close>: a missing key and a null value are both Python's \<open>None\<close>.\<close>

definition json_get :: "json_dict \<Rightarrow> string \<Rightarrow> json" where
  "json_get d k = (case map_of d k of None \<Rightarrow> JNull | Some v \<Rightarrow> v)"

lemma json_get_update [simp]:
  "json_get (AList.update k v d) j = (if j = k then v else json_get d j)"
  by (simp add: json_get_def dict_simps)

section \<open>The compact encoder\<close>

fun dec_digits :: "nat \<Rightarrow> string" where
  "dec_digits n = (if n < 10 then [char_of (n + 48)] else dec_digits (n div 10) @ [char_of (n mod 10 + 48)])"

declare dec_digits.simps [simp del]

definition show_int :: "int \<Rightarrow> string" where
  "show_int i = (if i < 0 then CHR ''-'' # dec_digits (nat (- i)) else dec_digits (nat i))"

definition hex_digit :: "nat \<Rightarrow> char" where
  "hex_digit n = char_of (if n < 10 then n + 48 else n + 87)"

text \<open>\<open>ESCAPE_DCT\<close> of the json module: the short escapes, and \<open>\\u00XX\<close> for the other control
  characters.\<close>

definition escape_char :: "char \<Rightarrow> string" where
  "escape_char c =
     (if c = CHR 0x22 then [CHR 0x5C, CHR 0x22]
      else if c = CHR 0x5C then [CHR 0x5C, CHR 0x5C]
      else if c = CHR 0x0A then [CHR 0x5C, CHR ''n'']
      else if c = CHR 0x0D then [CHR 0x5C, CHR ''r'']
      else if c = CHR 0x09 then [CHR 0x5C, CHR ''t'']
      else if c = CHR 0x0C then [CHR 0x5C, CHR ''f'']
      else if c = CHR 0x08 then [CHR 0x5C, CHR ''b'']
      else if (of_char c :: nat) < 32
      then [CHR 0x5C, CHR ''u'', CHR ''0'', CHR ''0'', hex_digit (of_char c div 16), hex_digit (of_char c mod 16)]
      else [c])"

definition show_string :: "string \<Rightarrow> string" where
  "show_string s = CHR 0x22 # concat (map escape_char s) @ [CHR 0x22]"

fun intersperse_concat :: "string \<Rightarrow> string list \<Rightarrow> string" where
  "intersperse_concat sep [] = []"
| "intersperse_concat sep [x] = x"
| "intersperse_concat sep (x # y # xs) = x @ sep @ intersperse_concat sep (y # xs)"

definition sort_members :: "bool \<Rightarrow> (string \<times> 'a) list \<Rightarrow> (string \<times> 'a) list" where
  "sort_members sort_keys kvs = (if sort_keys then sort_key fst kvs else kvs)"

lemma set_sort_members [simp]: "set (sort_members b kvs) = set kvs"
  by (simp add: sort_members_def)

fun dumps :: "bool \<Rightarrow> json \<Rightarrow> string" where
  "dumps sk JNull = ''null''"
| "dumps sk (JBool b) = (if b then ''true'' else ''false'')"
| "dumps sk (JInt i) = show_int i"
| "dumps sk (JFloat t) = t"
| "dumps sk (JStr s) = show_string s"
| "dumps sk (JArr vs) = ''['' @ intersperse_concat '','' (map (dumps sk) vs) @ '']''"
| "dumps sk (JObj kvs) = ''{'' @ intersperse_concat '',''
     (map (\<lambda>(k, v). show_string k @ '':'' @ v)
       (sort_members sk (map (\<lambda>(k, v). (k, dumps sk v)) kvs))) @ ''}''"

end
