(* ===== verification/Lifecycle.thy ===== *)
theory Lifecycle
  imports Forest Json Core_Types
begin

text \<open>
  The registry of Response resources, \<open>src/exqserve/state/response_lifecycle.py\<close>
  (\<open>InMemoryResponseLifecycleStore\<close>): active responses on one side, bounded retained wire
  resources on the other. Every coroutine runs its body under \<open>self._lock\<close>, so each is one
  function on the state with the clock reading as an argument.

  \<open>_ActiveResponse\<close> objects are shared between the registry and a prepared cancellation, which
  compares them by identity, so they live in a heap \<open>lc_heap\<close> and are named by their index.
  A session is an opaque name: only its \<open>cancel()\<close> is called, by \<open>cancel_prepared_session\<close>.
  Values are copied with \<open>copy.deepcopy\<close> at every boundary, so they are plain values here.
\<close>

section \<open>State\<close>

type_synonym response = json_dict
type_synonym session_ref = nat

record active_response =
  ac_response :: response
  ac_session :: session_ref
  ac_retain :: bool
  ac_terminal_response :: "response option"

record prepared_cancellation =
  pc_response_id :: string
  pc_active :: nat
  pc_cancelled :: response

record retained_response =
  rt_response :: response
  rt_estimated_bytes :: int
  rt_expires_at :: seconds

record lifecycle_stats =
  ls_active :: nat
  ls_retained :: nat
  ls_estimated_bytes :: int

record lifecycle =
  lc_max_records :: int
  lc_ttl_seconds :: seconds
  lc_max_total_bytes :: int
  lc_heap :: "active_response list"
  lc_active :: "(string \<times> nat) list"
  lc_retained :: "(string \<times> retained_response) list"
  lc_children :: "string kids"
  lc_pins :: "(string \<times> int) list"
  lc_estimated_bytes :: int

definition new_lifecycle :: "int \<Rightarrow> seconds \<Rightarrow> int \<Rightarrow> lifecycle res" where
  "new_lifecycle max_records ttl max_bytes =
     raise_if (max_records \<le> 0) (ValueError ''max_records must be positive'')
    (raise_if (ttl \<le> 0) (ValueError ''ttl_seconds must be positive and finite'')
    (raise_if (max_bytes \<le> 0) (ValueError ''max_total_bytes must be positive'')
    (Inr \<lparr>lc_max_records = max_records, lc_ttl_seconds = ttl, lc_max_total_bytes = max_bytes,
          lc_heap = [], lc_active = [], lc_retained = [], lc_children = [], lc_pins = [],
          lc_estimated_bytes = 0\<rparr>)))"

text \<open>\<open>_response_id\<close> raises when the resource has no non-blank string id.\<close>

definition resource_id :: "response \<Rightarrow> string res" where
  "resource_id r = (case json_get r ''id'' of
       JStr s \<Rightarrow> raise_if (blank s) (ValueError ''response resource must contain a non-empty id'') (Inr s)
     | _ \<Rightarrow> Inl (ValueError ''response resource must contain a non-empty id''))"

definition estimate_wire_bytes :: "response \<Rightarrow> int" where
  "estimate_wire_bytes r = utf8_len (dumps True (JObj r))"

abbreviation lc_ids :: "lifecycle \<Rightarrow> string set" where
  "lc_ids s \<equiv> fst ` set (lc_retained s)"

text \<open>\<open>response.get("previous_response_id")\<close> when it is a string.\<close>

definition previous_id :: "response \<Rightarrow> string option" where
  "previous_id r = (case json_get r ''previous_response_id'' of JStr p \<Rightarrow> Some p | _ \<Rightarrow> None)"

definition lc_pin_count :: "lifecycle \<Rightarrow> string \<Rightarrow> int" where
  "lc_pin_count s rid = (case map_of (lc_pins s) rid of None \<Rightarrow> 0 | Some n \<Rightarrow> n)"

section \<open>Removal and purge\<close>

definition remove_retained_one_locked :: "string \<Rightarrow> lifecycle \<Rightarrow> lifecycle" where
  "remove_retained_one_locked rid s =
     (let s1 = s\<lparr>lc_retained := AList.delete rid (lc_retained s),
                 lc_pins := AList.delete rid (lc_pins s)\<rparr>
      in case map_of (lc_retained s) rid of
           None \<Rightarrow> s1\<lparr>lc_children := AList.delete rid (lc_children s1)\<rparr>
         | Some retained \<Rightarrow>
             s1\<lparr>lc_estimated_bytes := lc_estimated_bytes s1 - rt_estimated_bytes retained,
                lc_children := AList.delete rid
                  (unlink (previous_id (rt_response retained)) rid (lc_children s1))\<rparr>)"

definition subtree_ids_locked :: "lifecycle \<Rightarrow> string \<Rightarrow> string list" where
  "subtree_ids_locked s rid =
     subtree_ids (\<lambda>x. map_of (lc_retained s) x \<noteq> None) (lc_children s) rid"

definition remove_retained_subtree_locked :: "string \<Rightarrow> lifecycle \<Rightarrow> string list \<times> lifecycle" where
  "remove_retained_subtree_locked rid s =
     (let subtree = subtree_ids_locked s rid
      in (subtree, fold remove_retained_one_locked (rev subtree) s))"

definition replace_retained_locked :: "string \<Rightarrow> retained_response \<Rightarrow> lifecycle \<Rightarrow> lifecycle" where
  "replace_retained_locked rid retained s =
     (let s1 = (case map_of (lc_retained s) rid of
                  None \<Rightarrow> s
                | Some existing \<Rightarrow>
                    s\<lparr>lc_retained := AList.delete rid (lc_retained s),
                      lc_estimated_bytes := lc_estimated_bytes s - rt_estimated_bytes existing,
                      lc_children := unlink (previous_id (rt_response existing)) rid (lc_children s)\<rparr>);
          s2 = s1\<lparr>lc_retained := AList.update rid retained (lc_retained s1),
                  lc_estimated_bytes := lc_estimated_bytes s1 + rt_estimated_bytes retained,
                  lc_children := link (previous_id (rt_response retained)) rid (lc_children s1)\<rparr>
      in s2\<lparr>lc_retained := move_to_end rid (lc_retained s2)\<rparr>)"

definition purge_one_expired :: "string \<Rightarrow> lifecycle \<Rightarrow> lifecycle" where
  "purge_one_expired rid s =
     (if map_of (lc_retained s) rid = None then s
      else if \<exists>current\<in>set (subtree_ids_locked s rid). 0 < lc_pin_count s current then s
      else snd (remove_retained_subtree_locked rid s))"

definition purge_expired_retained_locked :: "seconds \<Rightarrow> lifecycle \<Rightarrow> lifecycle" where
  "purge_expired_retained_locked now s =
     fold purge_one_expired [rid. (rid, retained) \<leftarrow> lc_retained s, rt_expires_at retained \<le> now] s"

section \<open>Retention\<close>

text \<open>\<open>_retained_ancestor_ids_locked\<close>: \<open>None\<close> when the walk meets a repeated, an absent or a
  malformed parent. The result lists the protected identifiers.\<close>

function ancestor_loop :: "lifecycle \<Rightarrow> json \<Rightarrow> string list \<Rightarrow> string list \<Rightarrow> string list option" where
  "ancestor_loop s current seen protected =
     (case current of
        JNull \<Rightarrow> Some protected
      | JStr c \<Rightarrow>
          (if c = [] \<or> c \<in> set seen then None
           else (case map_of (lc_retained s) c of
                   None \<Rightarrow> None
                 | Some parent \<Rightarrow>
                     ancestor_loop s (json_get (rt_response parent) ''previous_response_id'')
                       (c # seen) (c # protected)))
      | _ \<Rightarrow> None)"
  by pat_completeness auto
termination
  by (relation "measures [\<lambda>(s, _, seen, _). card (lc_ids s - set seen)]")
    (auto intro: keys_minus_decreases)

definition retained_ancestor_ids_locked :: "lifecycle \<Rightarrow> response \<Rightarrow> string list option res" where
  "retained_ancestor_ids_locked s r = (case resource_id r of Inl e \<Rightarrow> Inl e
     | Inr rid \<Rightarrow> Inr (ancestor_loop s (json_get r ''previous_response_id'') [] [rid]))"

text \<open>The victims' loop: \<open>(victims, victim_ids, projected_records, projected_bytes)\<close>.\<close>

type_synonym projection = "string list \<times> string list \<times> int \<times> int"

definition count_victim :: "lifecycle \<Rightarrow> string \<Rightarrow> projection \<Rightarrow> projection" where
  "count_victim s current p = (case p of (victims, victim_ids, recs, bytes) \<Rightarrow>
     (if current \<in> set victim_ids then p
      else (case map_of (lc_retained s) current of
              None \<Rightarrow> p
            | Some retained \<Rightarrow>
                (victims, victim_ids @ [current], recs - 1, bytes - rt_estimated_bytes retained))))"

fun victims_loop :: "lifecycle \<Rightarrow> string list \<Rightarrow> string list \<Rightarrow> projection \<Rightarrow> projection" where
  "victims_loop s protected [] p = p"
| "victims_loop s protected (candidate # rest) (victims, victim_ids, recs, bytes) =
     (if recs \<le> lc_max_records s \<and> bytes \<le> lc_max_total_bytes s then (victims, victim_ids, recs, bytes)
      else if candidate \<in> set victim_ids
      then victims_loop s protected rest (victims, victim_ids, recs, bytes)
      else (let subtree = subtree_ids_locked s candidate
            in if \<exists>current\<in>set subtree. current \<in> set protected \<or> 0 < lc_pin_count s current
               then victims_loop s protected rest (victims, victim_ids, recs, bytes)
               else victims_loop s protected rest
                      (fold (count_victim s) subtree (victims @ [candidate], victim_ids, recs, bytes))))"

definition initial_projection :: "lifecycle \<Rightarrow> string \<Rightarrow> int \<Rightarrow> projection" where
  "initial_projection s rid estimated =
     (case map_of (lc_retained s) rid of
        None \<Rightarrow> ([], [], int (length (lc_retained s)) + 1, lc_estimated_bytes s + estimated)
      | Some existing \<Rightarrow> ([], [], int (length (lc_retained s)),
          lc_estimated_bytes s + estimated - rt_estimated_bytes existing))"

definition retention_victims_locked :: "lifecycle \<Rightarrow> response \<Rightarrow> int \<Rightarrow> string list option res" where
  "retention_victims_locked s r estimated =
     (if estimated > lc_max_total_bytes s then Inr None
      else (case resource_id r of
              Inl e \<Rightarrow> Inl e
            | Inr rid \<Rightarrow>
                (case retained_ancestor_ids_locked s r of
                   Inl e \<Rightarrow> Inl e
                 | Inr None \<Rightarrow> Inr None
                 | Inr (Some protected) \<Rightarrow>
                     (case victims_loop s protected (dict_keys (lc_retained s)) (initial_projection s rid estimated) of
                        (victims, _, recs, bytes) \<Rightarrow>
                          (if recs > lc_max_records s \<or> bytes > lc_max_total_bytes s then Inr None
                           else Inr (Some victims))))))"

definition evict_victim :: "string \<Rightarrow> string list \<times> lifecycle \<Rightarrow> string list \<times> lifecycle" where
  "evict_victim victim acc = (case acc of (evicted, s) \<Rightarrow>
     (case remove_retained_subtree_locked victim s of (ids, s') \<Rightarrow> (evicted @ ids, s')))"

text \<open>\<open>_retain_locked\<close>. \<open>tuple(sorted(evicted))\<close> sorts a set: duplicates are dropped first.\<close>

definition retain_locked :: "response \<Rightarrow> seconds \<Rightarrow> lifecycle \<Rightarrow> string list option res \<times> lifecycle" where
  "retain_locked r now s =
     (case resource_id r of
        Inl e \<Rightarrow> (Inl e, s)
      | Inr rid \<Rightarrow>
          (case retention_victims_locked s r (estimate_wire_bytes r) of
             Inl e \<Rightarrow> (Inl e, s)
           | Inr None \<Rightarrow> (Inr None, s)
           | Inr (Some victims) \<Rightarrow>
               (case fold evict_victim victims ([], s) of
                  (evicted, s') \<Rightarrow>
                    (Inr (Some (sort (remdups evicted))),
                     replace_retained_locked rid
                       \<lparr>rt_response = r, rt_estimated_bytes = estimate_wire_bytes r,
                        rt_expires_at = now + lc_ttl_seconds s'\<rparr> s'))))"

section \<open>Operations\<close>

definition refresh_retained :: "seconds \<Rightarrow> string \<Rightarrow> lifecycle \<Rightarrow> lifecycle" where
  "refresh_retained now rid s =
     (case map_of (lc_retained s) rid of
        None \<Rightarrow> s
      | Some retained \<Rightarrow> s\<lparr>lc_retained := move_to_end rid (AList.update rid
          (retained\<lparr>rt_expires_at := now + lc_ttl_seconds s\<rparr>) (lc_retained s))\<rparr>)"

definition lc_pin_one :: "seconds \<Rightarrow> string \<Rightarrow> lifecycle \<Rightarrow> lifecycle" where
  "lc_pin_one now rid s = refresh_retained now rid
     (s\<lparr>lc_pins := AList.update rid (lc_pin_count s rid + 1) (lc_pins s)\<rparr>)"

function lc_chain_loop :: "lifecycle \<Rightarrow> string option \<Rightarrow> string list \<Rightarrow> string list \<Rightarrow> string list option" where
  "lc_chain_loop s None seen chain = Some chain"
| "lc_chain_loop s (Some current) seen chain =
     (if current \<in> set seen then None
      else (case map_of (lc_retained s) current of
              None \<Rightarrow> None
            | Some retained \<Rightarrow>
                (case json_get (rt_response retained) ''previous_response_id'' of
                   JNull \<Rightarrow> lc_chain_loop s None (current # seen) (chain @ [current])
                 | JStr p \<Rightarrow> (if p = [] then None
                             else lc_chain_loop s (Some p) (current # seen) (chain @ [current]))
                 | _ \<Rightarrow> None)))"
  by pat_completeness auto
termination
  by (relation "measures [\<lambda>(s, _, seen, _). card (lc_ids s - set seen), \<lambda>(_, c, _, _). if c = None then 0 else 1]")
    (auto intro: keys_minus_decreases)

abbreviation id_error :: exn where
  "id_error \<equiv> ValueError ''response_id must be a non-empty string''"

definition lc_pin_chain :: "seconds \<Rightarrow> string \<Rightarrow> lifecycle \<Rightarrow> string list option res \<times> lifecycle" where
  "lc_pin_chain now rid s =
     (if blank rid then (Inl id_error, s)
      else (let s = purge_expired_retained_locked now s
            in case lc_chain_loop s (Some rid) [] [] of
                 None \<Rightarrow> (Inr None, s)
               | Some chain \<Rightarrow> (Inr (Some chain), fold (lc_pin_one now) chain s)))"

definition lc_unpin_one :: "string \<Rightarrow> lifecycle \<Rightarrow> lifecycle" where
  "lc_unpin_one rid s =
     (let count = lc_pin_count s rid
      in if count \<le> 1 then s\<lparr>lc_pins := AList.delete rid (lc_pins s)\<rparr>
         else s\<lparr>lc_pins := AList.update rid (count - 1) (lc_pins s)\<rparr>)"

definition lc_unpin_chain :: "string list \<Rightarrow> lifecycle \<Rightarrow> lifecycle" where
  "lc_unpin_chain rids s = fold lc_unpin_one rids s"

definition can_retain :: "seconds \<Rightarrow> response \<Rightarrow> lifecycle \<Rightarrow> bool res \<times> lifecycle" where
  "can_retain now r s =
     (let s = purge_expired_retained_locked now s
      in (map_sum id (\<lambda>v. v \<noteq> None) (retention_victims_locked s r (estimate_wire_bytes r)), s))"

definition lc_register_active ::
  "seconds \<Rightarrow> response \<Rightarrow> session_ref \<Rightarrow> bool \<Rightarrow> lifecycle \<Rightarrow> unit res \<times> lifecycle" where
  "lc_register_active now r session retain s =
     (case resource_id r of
        Inl e \<Rightarrow> (Inl e, s)
      | Inr rid \<Rightarrow>
          (let s = purge_expired_retained_locked now s
           in if map_of (lc_active s) rid \<noteq> None
              then (Inl (RuntimeError ''response id is already active''), s)
              else (Inr (), s\<lparr>lc_heap := lc_heap s @ [\<lparr>ac_response = r, ac_session = session,
                                ac_retain = retain, ac_terminal_response = None\<rparr>],
                              lc_active := AList.update rid (length (lc_heap s)) (lc_active s)\<rparr>)))"

definition update_object :: "nat \<Rightarrow> (active_response \<Rightarrow> active_response) \<Rightarrow> lifecycle \<Rightarrow> lifecycle" where
  "update_object a f s = s\<lparr>lc_heap := (lc_heap s)[a := f (lc_heap s ! a)]\<rparr>"

definition lc_update_active :: "string \<Rightarrow> response \<Rightarrow> lifecycle \<Rightarrow> lifecycle" where
  "lc_update_active rid r s =
     (case map_of (lc_active s) rid of
        None \<Rightarrow> s
      | Some a \<Rightarrow> update_object a (ac_response_update (\<lambda>_. r)) s)"

text \<open>\<open>self._active.pop(id, None); active.terminal_response = response\<close>.\<close>

definition settle_active :: "string \<Rightarrow> nat \<Rightarrow> response \<Rightarrow> lifecycle \<Rightarrow> lifecycle" where
  "settle_active rid a r s =
     update_object a (ac_terminal_response_update (\<lambda>_. Some r))
       (s\<lparr>lc_active := AList.delete rid (lc_active s)\<rparr>)"

definition finish_with_evictions ::
  "seconds \<Rightarrow> string \<Rightarrow> response \<Rightarrow> lifecycle \<Rightarrow> (bool \<times> string list) res \<times> lifecycle" where
  "finish_with_evictions now rid r s0 =
     (let s = purge_expired_retained_locked now s0
      in case map_of (lc_active s) rid of
           Some a \<Rightarrow>
             (if ac_retain (lc_heap s ! a)
              then (case retain_locked r now s of
                      (Inl e, s') \<Rightarrow> (Inl e, s')
                    | (Inr None, s') \<Rightarrow> (Inr (False, []), settle_active rid a r s')
                    | (Inr (Some evicted), s') \<Rightarrow> (Inr (True, evicted), settle_active rid a r s'))
              else (Inr (True, []), settle_active rid a r s))
         | None \<Rightarrow>
             (if (case map_of (lc_retained s) rid of
                    None \<Rightarrow> False
                  | Some retained \<Rightarrow> json_get (rt_response retained) ''status'' = JStr ''cancelled''
                      \<and> json_get r ''status'' = JStr ''cancelled'')
              then (case retain_locked r now s of
                      (Inl e, s') \<Rightarrow> (Inl e, s')
                    | (Inr None, s') \<Rightarrow> (Inr (False, []), s')
                    | (Inr (Some evicted), s') \<Rightarrow> (Inr (True, evicted), s'))
              else (Inr (True, []), s)))"

definition lc_finish :: "seconds \<Rightarrow> string \<Rightarrow> response \<Rightarrow> lifecycle \<Rightarrow> bool res \<times> lifecycle" where
  "lc_finish now rid r s = (case finish_with_evictions now rid r s of (res, s') \<Rightarrow> (map_sum id fst res, s'))"

definition lc_abandon :: "string \<Rightarrow> lifecycle \<Rightarrow> lifecycle" where
  "lc_abandon rid s = s\<lparr>lc_active := AList.delete rid (lc_active s)\<rparr>"

definition lc_discard :: "string \<Rightarrow> lifecycle \<Rightarrow> unit res \<times> lifecycle" where
  "lc_discard rid s =
     (if blank rid then (Inl id_error, s)
      else (Inr (), snd (remove_retained_subtree_locked rid (lc_abandon rid s))))"

definition lc_retrieve :: "seconds \<Rightarrow> string \<Rightarrow> lifecycle \<Rightarrow> response option res \<times> lifecycle" where
  "lc_retrieve now rid s =
     (if blank rid then (Inl id_error, s)
      else (let s = purge_expired_retained_locked now s
            in case map_of (lc_active s) rid of
                 Some a \<Rightarrow>
                   (if ac_retain (lc_heap s ! a) then (Inr (Some (ac_response (lc_heap s ! a))), s)
                    else (Inr (map_option rt_response (map_of (lc_retained s) rid)), refresh_retained now rid s))
               | None \<Rightarrow> (Inr (map_option rt_response (map_of (lc_retained s) rid)), refresh_retained now rid s)))"

definition cancelled_wire :: "response \<Rightarrow> response" where
  "cancelled_wire r = AList.update ''incomplete_details'' JNull
     (AList.update ''error'' JNull (AList.update ''status'' (JStr ''cancelled'') r))"

definition prepare_cancel ::
  "seconds \<Rightarrow> string \<Rightarrow> lifecycle \<Rightarrow> (prepared_cancellation \<times> bool) res \<times> lifecycle" where
  "prepare_cancel now rid s =
     (if blank rid then (Inl id_error, s)
      else (let s = purge_expired_retained_locked now s
            in case map_of (lc_active s) rid of
                 None \<Rightarrow> (Inl (if map_of (lc_retained s) rid \<noteq> None then ResponseLifecycleNotCancellable rid
                              else ResponseLifecycleNotFound rid), s)
               | Some a \<Rightarrow>
                   (Inr (\<lparr>pc_response_id = rid, pc_active = a,
                          pc_cancelled = cancelled_wire (ac_response (lc_heap s ! a))\<rparr>,
                         ac_retain (lc_heap s ! a)), s)))"

text \<open>The session that \<open>cancel_prepared_session\<close> cancels. The clock is read only on the retained
  path; \<open>now\<close> is that reading.\<close>

definition prepared_session :: "prepared_cancellation \<Rightarrow> lifecycle \<Rightarrow> session_ref" where
  "prepared_session p s = ac_session (lc_heap s ! pc_active p)"

definition commit_prepared_cancel_with_evictions ::
  "seconds \<Rightarrow> prepared_cancellation \<Rightarrow> lifecycle \<Rightarrow> (response \<times> string list) res \<times> lifecycle" where
  "commit_prepared_cancel_with_evictions now p s =
     (let rid = pc_response_id p; a = pc_active p; cancelled = pc_cancelled p;
          retain = ac_retain (lc_heap s ! a)
      in if map_of (lc_active s) rid = Some a
         then (let s1 = s\<lparr>lc_active := AList.delete rid (lc_active s)\<rparr>
               in if retain
                  then (case retain_locked cancelled now s1 of
                          (Inl e, s') \<Rightarrow> (Inl e, s')
                        | (Inr None, s') \<Rightarrow>
                            (Inl (ResponseLifecycleRetentionRefused rid),
                             update_object a (ac_terminal_response_update (\<lambda>_. Some cancelled)) s')
                        | (Inr (Some evicted), s') \<Rightarrow> (Inr (cancelled, evicted), s'))
                  else (Inr (cancelled, []), s1))
         else (case ac_terminal_response (lc_heap s ! a) of
                 Some terminal \<Rightarrow> (Inr (terminal, []), s)
               | None \<Rightarrow> (Inr (cancelled, []), s)))"

text \<open>\<open>cancel_with_evictions\<close> awaits the session's \<open>cancel()\<close> between its two locked sections:
  \<open>during\<close> stands for everything that happens to the registry meanwhile, and the result of the
  awaited call.\<close>

definition cancel_with_evictions ::
  "seconds \<Rightarrow> seconds \<Rightarrow> (session_ref \<Rightarrow> lifecycle \<Rightarrow> unit res \<times> lifecycle) \<Rightarrow> string \<Rightarrow> lifecycle
     \<Rightarrow> (response \<times> string list) res \<times> lifecycle" where
  "cancel_with_evictions now later during rid s =
     (case prepare_cancel now rid s of
        (Inl e, s') \<Rightarrow> (Inl e, s')
      | (Inr (p, _), s') \<Rightarrow>
          (case during (prepared_session p s') s' of
             (Inl e, s'') \<Rightarrow> (Inl e, s'')
           | (Inr _, s'') \<Rightarrow> commit_prepared_cancel_with_evictions later p s''))"

definition lc_cancel ::
  "seconds \<Rightarrow> seconds \<Rightarrow> (session_ref \<Rightarrow> lifecycle \<Rightarrow> unit res \<times> lifecycle) \<Rightarrow> string \<Rightarrow> lifecycle
     \<Rightarrow> response res \<times> lifecycle" where
  "lc_cancel now later during rid s =
     (case cancel_with_evictions now later during rid s of (res, s') \<Rightarrow> (map_sum id fst res, s'))"

definition lc_stats :: "seconds \<Rightarrow> lifecycle \<Rightarrow> lifecycle_stats \<times> lifecycle" where
  "lc_stats now s =
     (let s = purge_expired_retained_locked now s
      in (\<lparr>ls_active = length (lc_active s), ls_retained = length (lc_retained s),
           ls_estimated_bytes = lc_estimated_bytes s\<rparr>, s))"

end
