(* ===== verification/Authority.thy ===== *)
theory Authority
  imports Store Lifecycle
begin

text \<open>
  The single identity authority over both stores, \<open>src/exqserve/state/response_authority.py\<close>
  (\<open>ResponseStateAuthority\<close>). Every method is a program over the two stores and the authority's
  three tables, in the result-and-state style of \<open>and_then\<close>.

  The methods hold \<open>_transition(id)\<close>, one lock per response identifier, across several awaits, so
  methods on other identifiers run in between. A \<open>schedule\<close> makes this explicit: at each call of
  a store, \<open>sc_env\<close> is what the other tasks did to the shared state since the last call, and
  \<open>sc_clock\<close> the reading of the stores' clock; \<open>au_tick\<close> counts the calls. A schedule whose
  environment does nothing is \<open>quiet\<close>. What an environment may do follows from the locks and is a
  hypothesis of the theorems that need it (\<open>env_spares\<close>).

  The state store is \<open>InMemoryResponseStore\<close>, so \<open>put_with_evictions\<close> is always callable.
  A \<open>\<dots>_cancellation_safe\<close> method runs its task to the end even when the caller is cancelled
  and raises \<open>CancelledError\<close> afterwards: the flag \<open>interrupted\<close> says that this happens.
  Cancellation at the other awaits is not modelled. Locks themselves, and the table of lock
  users, are not part of the state.
\<close>

section \<open>State and schedule\<close>

record authority =
  au_state :: store
  au_life :: lifecycle
  au_pending :: "(string \<times> response_record) list"
  au_winners :: "(string \<times> response) list"
  au_pins :: "(string \<times> string list \<times> string list) list"
  au_tick :: nat

record schedule =
  sc_clock :: "nat \<Rightarrow> seconds"
  sc_env :: "nat \<Rightarrow> authority \<Rightarrow> authority"
  sc_cancel :: "nat \<Rightarrow> session_ref \<Rightarrow> exn option"

type_synonym 'a program = "authority \<Rightarrow> 'a res \<times> authority"

definition interfere :: "schedule \<Rightarrow> authority \<Rightarrow> authority" where
  "interfere w a = (sc_env w (au_tick a) a)\<lparr>au_tick := au_tick a + 1\<rparr>"

definition call_state :: "schedule \<Rightarrow> (seconds \<Rightarrow> store \<Rightarrow> 'a res \<times> store) \<Rightarrow> 'a program" where
  "call_state w f a =
     (let a1 = interfere w a
      in case f (sc_clock w (au_tick a)) (au_state a1) of (r, s) \<Rightarrow> (r, a1\<lparr>au_state := s\<rparr>))"

definition call_life :: "schedule \<Rightarrow> (seconds \<Rightarrow> lifecycle \<Rightarrow> 'a res \<times> lifecycle) \<Rightarrow> 'a program" where
  "call_life w f a =
     (let a1 = interfere w a
      in case f (sc_clock w (au_tick a)) (au_life a1) of (r, s) \<Rightarrow> (r, a1\<lparr>au_life := s\<rparr>))"

definition modify :: "(authority \<Rightarrow> authority) \<Rightarrow> unit program" where
  "modify f a = (Inr (), f a)"

definition with_state :: "(authority \<Rightarrow> 'a program) \<Rightarrow> 'a program" where
  "with_state f a = f a a"

definition drop_pending :: "string \<Rightarrow> authority \<Rightarrow> authority" where
  "drop_pending rid a = a\<lparr>au_pending := AList.delete rid (au_pending a)\<rparr>"

definition drop_winner :: "string \<Rightarrow> authority \<Rightarrow> authority" where
  "drop_winner rid a = a\<lparr>au_winners := AList.delete rid (au_winners a)\<rparr>"

definition set_winner :: "string \<Rightarrow> response \<Rightarrow> authority \<Rightarrow> authority" where
  "set_winner rid r a = a\<lparr>au_winners := AList.update rid r (au_winners a)\<rparr>"

abbreviation discard_state :: "schedule \<Rightarrow> string \<Rightarrow> unit program" where
  "discard_state w rid \<equiv> call_state w (\<lambda>now. store_discard now rid)"

abbreviation discard_life :: "schedule \<Rightarrow> string \<Rightarrow> unit program" where
  "discard_life w rid \<equiv> call_life w (\<lambda>_. lc_discard rid)"

section \<open>Continuation pins\<close>

definition unpin_chains :: "schedule \<Rightarrow> string list \<Rightarrow> string list \<Rightarrow> unit program" where
  "unpin_chains w state_ids life_ids =
     and_then (if state_ids = [] then returns () else call_state w (\<lambda>_ s. (Inr (), store_unpin_chain state_ids s)))
       (\<lambda>_. if life_ids = [] then returns () else call_life w (\<lambda>_ s. (Inr (), lc_unpin_chain life_ids s)))"

definition release_continuation :: "schedule \<Rightarrow> string \<Rightarrow> unit program" where
  "release_continuation w owner = with_state (\<lambda>a.
     and_then (modify (\<lambda>a. a\<lparr>au_pins := AList.delete owner (au_pins a)\<rparr>))
       (\<lambda>_. case map_of (au_pins a) owner of
          None \<Rightarrow> returns ()
        | Some (state_ids, life_ids) \<Rightarrow> unpin_chains w state_ids life_ids))"

definition pin_continuation :: "schedule \<Rightarrow> string \<Rightarrow> string \<Rightarrow> bool program" where
  "pin_continuation w owner rid = with_state (\<lambda>a.
     if map_of (au_pins a) owner \<noteq> None
     then raises (RuntimeError ''continuation owner already holds a parent-chain pin'')
     else and_then (call_life w (\<lambda>now. lc_pin_chain now rid))
       (\<lambda>life. case life of
          None \<Rightarrow> returns False
        | Some life_ids \<Rightarrow> (\<lambda>a. (case call_state w (\<lambda>now. store_pin_chain now rid) a of
             (Inl e, a') \<Rightarrow> and_then (unpin_chains w [] life_ids) (\<lambda>_. raises e) a'
           | (Inr None, a') \<Rightarrow> and_then (unpin_chains w [] life_ids) (\<lambda>_. returns False) a'
           | (Inr (Some state_ids), a') \<Rightarrow>
               (Inr True, a'\<lparr>au_pins := AList.update owner (state_ids, life_ids) (au_pins a')\<rparr>)))))"

section \<open>Consistency of a retained chain\<close>

definition committed_resource :: "string \<Rightarrow> response \<Rightarrow> bool" where
  "committed_resource model r \<longleftrightarrow> json_get r ''status'' = JStr ''completed''
     \<and> json_get r ''store'' = JBool True \<and> json_get r ''model'' = JStr model"

text \<open>The loop of \<open>_retained_chain_is_consistent\<close>: \<open>descendants\<close> in order, \<open>seen\<close> as a list.
  Other tasks may extend the chain while it is walked, so the loop has fuel.\<close>

primrec chain_loop ::
  "nat \<Rightarrow> schedule \<Rightarrow> string \<Rightarrow> string \<Rightarrow> string option \<Rightarrow> string list \<Rightarrow> string list \<Rightarrow> bool program" where
  "chain_loop 0 w rid model current seen descendants =
     (case current of None \<Rightarrow> returns True | Some _ \<Rightarrow> raises Unfinished)"
| "chain_loop (Suc fuel) w rid model current seen descendants =
     (case current of
        None \<Rightarrow> returns True
      | Some c \<Rightarrow>
          (let give_up = (\<lambda>root. and_then (discard_state w root)
                 (\<lambda>_. and_then (for_each (discard_life w) descendants) (\<lambda>_. returns False)))
           in if c \<in> set seen then give_up rid
              else and_then (call_state w (\<lambda>now. store_get now c)) (\<lambda>record.
                case record of
                  None \<Rightarrow> give_up rid
                | Some record \<Rightarrow>
                    if rec_model record \<noteq> model then give_up rid
                    else and_then (call_life w (\<lambda>now. lc_retrieve now c)) (\<lambda>response.
                      if (case response of None \<Rightarrow> True | Some r \<Rightarrow> \<not> committed_resource model r)
                      then and_then (discard_state w c)
                        (\<lambda>_. and_then (discard_life w c)
                        (\<lambda>_. and_then (for_each (discard_life w) descendants) (\<lambda>_. returns False)))
                      else chain_loop fuel w rid model (parent_response_id record)
                             (c # seen) (descendants @ [c])))))"

definition chain_fuel :: "authority \<Rightarrow> nat" where
  "chain_fuel a = Suc (length (st_records (au_state a)))"

definition retained_chain_is_consistent :: "schedule \<Rightarrow> string \<Rightarrow> string \<Rightarrow> bool program" where
  "retained_chain_is_consistent w rid model =
     with_state (\<lambda>a. chain_loop (chain_fuel a) w rid model (Some rid) [] [])"

definition discard_locked :: "schedule \<Rightarrow> string \<Rightarrow> unit program" where
  "discard_locked w rid =
     and_then (modify (\<lambda>a. drop_winner rid (drop_pending rid a)))
       (\<lambda>_. and_then (discard_state w rid) (\<lambda>_. discard_life w rid))"

definition synchronize_evictions :: "schedule \<Rightarrow> string list \<Rightarrow> string list \<Rightarrow> unit program" where
  "synchronize_evictions w state_evicted life_evicted =
     and_then (for_each (discard_life w) state_evicted)
       (\<lambda>_. for_each (discard_state w) life_evicted)"

section \<open>Committing a terminal\<close>

definition give_up_life :: "schedule \<Rightarrow> string \<Rightarrow> bool program" where
  "give_up_life w rid = and_then (discard_life w rid) (\<lambda>_. returns False)"

text \<open>The record that a completed, retained terminal commits: the staged one after a put, or the
  one that is already in the state store; \<open>None\<close> when the commit is given up.\<close>

definition commit_record ::
  "schedule \<Rightarrow> string \<Rightarrow> response_record option \<Rightarrow> (response_record \<times> string list) option program" where
  "commit_record w rid pending =
     (case pending of
        None \<Rightarrow> and_then (call_state w (\<lambda>now. store_get now rid)) (\<lambda>record.
          case record of
            None \<Rightarrow> and_then (discard_life w rid) (\<lambda>_. returns None)
          | Some record \<Rightarrow> returns (Some (record, [])))
      | Some record \<Rightarrow> and_then (call_state w (\<lambda>now. put_with_evictions now record)) (\<lambda>(d, evicted).
          if d \<noteq> STORED then and_then (discard_life w rid) (\<lambda>_. returns None)
          else returns (Some (record, evicted))))"

definition commit_completed ::
  "schedule \<Rightarrow> string \<Rightarrow> response \<Rightarrow> response_record option \<Rightarrow> bool program" where
  "commit_completed w rid r pending =
     and_then (commit_record w rid pending) (\<lambda>got.
       case got of
         None \<Rightarrow> returns False
       | Some (record, state_evicted) \<Rightarrow>
           (if json_get r ''model'' \<noteq> JStr (rec_model record)
            then and_then (discard_locked w rid) (\<lambda>_. returns False)
            else and_then (call_life w (\<lambda>now. finish_with_evictions now rid r)) (\<lambda>(finished, life_evicted).
              if \<not> finished then and_then (discard_state w rid) (\<lambda>_. returns False)
              else and_then (synchronize_evictions w state_evicted life_evicted)
                (\<lambda>_. and_then (retained_chain_is_consistent w rid (rec_model record)) (\<lambda>ok.
                  if ok then returns True
                  else and_then (discard_locked w rid) (\<lambda>_. returns False))))))"

definition commit_uncompleted :: "schedule \<Rightarrow> string \<Rightarrow> response \<Rightarrow> bool program" where
  "commit_uncompleted w rid r =
     and_then (discard_state w rid)
       (\<lambda>_. and_then (call_life w (\<lambda>now. finish_with_evictions now rid r)) (\<lambda>(finished, life_evicted).
         if \<not> finished then returns False
         else and_then (synchronize_evictions w [] life_evicted) (\<lambda>_. returns True)))"

definition commit_retained_terminal ::
  "schedule \<Rightarrow> string \<Rightarrow> response \<Rightarrow> response_record option \<Rightarrow> bool program" where
  "commit_retained_terminal w rid r pending =
     and_then (call_life w (\<lambda>now. can_retain now r)) (\<lambda>can.
       if \<not> can
       then and_then (discard_state w rid) (\<lambda>_. and_then (discard_life w rid) (\<lambda>_. returns False))
       else and_then (if json_get r ''status'' = JStr ''completed'' then commit_completed w rid r pending
                      else commit_uncompleted w rid r) (\<lambda>done.
         if done then and_then (modify (set_winner rid r)) (\<lambda>_. returns True) else returns False))"

definition then_cancelled :: "bool \<Rightarrow> 'a program \<Rightarrow> 'a program" where
  "then_cancelled interrupted m = and_then m (\<lambda>x. if interrupted then raises CancelledError else returns x)"

text \<open>\<open>status in {...}\<close> hashes the value, so a list or a dict raises.\<close>

definition terminal_status :: "response \<Rightarrow> bool res" where
  "terminal_status r = (case json_get r ''status'' of
       JStr s \<Rightarrow> Inr (s \<in> set [''completed'', ''incomplete'', ''failed'', ''cancelled''])
     | JArr _ \<Rightarrow> Inl (TypeError ''unhashable type'') | JObj _ \<Rightarrow> Inl (TypeError ''unhashable type'')
     | _ \<Rightarrow> Inr False)"

definition commit_prepared_cancel ::
  "schedule \<Rightarrow> string \<Rightarrow> prepared_cancellation \<Rightarrow> response program" where
  "commit_prepared_cancel w rid p a =
     (case call_life w (\<lambda>now. commit_prepared_cancel_with_evictions now p) a of
        (Inl (ResponseLifecycleRetentionRefused x), a') \<Rightarrow>
          and_then (modify (drop_pending rid)) (\<lambda>_. and_then (discard_state w rid)
            (\<lambda>_. raises (ResponseLifecycleRetentionRefused x))) a'
      | (Inl e, a') \<Rightarrow> (Inl e, a')
      | (Inr (r, life_evicted), a') \<Rightarrow>
          and_then (if json_get r ''status'' = JStr ''cancelled''
                    then and_then (modify (drop_pending rid)) (\<lambda>_. discard_state w rid)
                    else returns ())
            (\<lambda>_. and_then (synchronize_evictions w [] life_evicted)
            (\<lambda>_. and_then (\<lambda>a. (terminal_status r, a))
            (\<lambda>terminal. and_then (modify (if terminal then set_winner rid r else id))
            (\<lambda>_. returns r)))) a')"

text \<open>The prepared session is cancelled between the two calls of the lifecycle store; it may raise.\<close>

definition cancel_prepared :: "schedule \<Rightarrow> prepared_cancellation \<Rightarrow> unit program" where
  "cancel_prepared w p = with_state (\<lambda>a.
     case sc_cancel w (au_tick a) (prepared_session p (au_life a)) of
       None \<Rightarrow> returns () | Some e \<Rightarrow> raises e)"

definition cancel_terminal :: "schedule \<Rightarrow> string \<Rightarrow> response program" where
  "cancel_terminal w rid =
     and_then (call_life w (\<lambda>now. prepare_cancel now rid)) (\<lambda>(p, retain).
       and_then (cancel_prepared w p) (\<lambda>_. commit_prepared_cancel w rid p))"

section \<open>Public operations\<close>

definition au_get :: "schedule \<Rightarrow> string \<Rightarrow> response_record option program" where
  "au_get w rid = call_state w (\<lambda>now. store_get now rid)"

definition au_materialize :: "schedule \<Rightarrow> string \<Rightarrow> canonical_item list option program" where
  "au_materialize w rid = call_state w (\<lambda>now. store_materialize now rid)"

definition au_pin_chain :: "schedule \<Rightarrow> string \<Rightarrow> string list option program" where
  "au_pin_chain w rid = call_state w (\<lambda>now. store_pin_chain now rid)"

definition au_unpin_chain :: "schedule \<Rightarrow> string list \<Rightarrow> unit program" where
  "au_unpin_chain w rids = call_state w (\<lambda>_ s. (Inr (), store_unpin_chain rids s))"

definition au_put :: "response_record \<Rightarrow> disposition program" where
  "au_put r = and_then (modify (\<lambda>a. a\<lparr>au_pending := AList.update (response_id r) r (au_pending a)\<rparr>))
     (\<lambda>_. returns STORED)"

definition au_discard :: "schedule \<Rightarrow> string \<Rightarrow> unit program" where
  "au_discard w rid = discard_locked w rid"

definition au_register_active :: "schedule \<Rightarrow> response \<Rightarrow> session_ref \<Rightarrow> bool \<Rightarrow> unit program" where
  "au_register_active w r session retain =
     (case resource_id r of
        Inl e \<Rightarrow> raises e
      | Inr rid \<Rightarrow> and_then (modify (drop_winner rid))
          (\<lambda>_. call_life w (\<lambda>now. lc_register_active now r session retain)))"

definition au_update_active :: "schedule \<Rightarrow> string \<Rightarrow> response \<Rightarrow> unit program" where
  "au_update_active w rid r = call_life w (\<lambda>_ s. (Inr (), lc_update_active rid r s))"

text \<open>\<open>finish\<close> also writes the winner into the dictionary it was given: that dictionary is the
  second component of the result.\<close>

definition finish_body :: "schedule \<Rightarrow> bool \<Rightarrow> string \<Rightarrow> response \<Rightarrow> (bool \<times> response) program" where
  "finish_body w interrupted rid r = with_state (\<lambda>a.
     and_then (modify (drop_pending rid)) (\<lambda>_.
       case map_of (au_winners a) rid of
         Some winner \<Rightarrow> returns (True, winner)
       | None \<Rightarrow>
           (if json_get r ''store'' = JBool True
            then and_then (then_cancelled interrupted
                   (commit_retained_terminal w rid r (map_of (au_pending a) rid)))
                   (\<lambda>done. returns (done, r))
            else and_then (discard_state w rid)
              (\<lambda>_. and_then (call_life w (\<lambda>now. lc_finish now rid r)) (\<lambda>finished.
                if \<not> finished then returns (False, r)
                else and_then (modify (set_winner rid r)) (\<lambda>_. returns (True, r)))))))"

definition au_finish :: "schedule \<Rightarrow> bool \<Rightarrow> string \<Rightarrow> response \<Rightarrow> (bool \<times> response) program" where
  "au_finish w interrupted rid r = finally_do (finish_body w interrupted rid r) (release_continuation w rid)"

definition au_is_terminal :: "string \<Rightarrow> bool program" where
  "au_is_terminal rid a = (Inr (map_of (au_winners a) rid \<noteq> None), a)"

definition au_abandon :: "schedule \<Rightarrow> string \<Rightarrow> unit program" where
  "au_abandon w rid = finally_do (with_state (\<lambda>a.
       if map_of (au_winners a) rid \<noteq> None
       then modify (\<lambda>a. drop_pending rid (drop_winner rid a))
       else discard_locked w rid))
     (release_continuation w rid)"

definition au_retrieve :: "schedule \<Rightarrow> string \<Rightarrow> response option program" where
  "au_retrieve w rid =
     and_then (call_life w (\<lambda>now. lc_retrieve now rid)) (\<lambda>response.
       case response of
         None \<Rightarrow> and_then (modify (drop_pending rid))
           (\<lambda>_. and_then (discard_state w rid) (\<lambda>_. returns None))
       | Some r \<Rightarrow>
           (if json_get r ''status'' = JStr ''completed'' \<and> json_get r ''store'' = JBool True
            then (case json_get r ''model'' of
                    JStr model \<Rightarrow> and_then (retained_chain_is_consistent w rid model) (\<lambda>ok.
                      if ok then returns (Some r)
                      else and_then (discard_locked w rid) (\<lambda>_. returns None))
                  | _ \<Rightarrow> and_then (discard_locked w rid) (\<lambda>_. returns None))
            else returns (Some r)))"

definition au_cancel :: "schedule \<Rightarrow> bool \<Rightarrow> string \<Rightarrow> response program" where
  "au_cancel w interrupted rid = finally_do (with_state (\<lambda>a.
       case map_of (au_winners a) rid of
         Some winner \<Rightarrow> returns winner
       | None \<Rightarrow> then_cancelled interrupted (cancel_terminal w rid)))
     (release_continuation w rid)"

definition resolve_body :: "schedule \<Rightarrow> string \<Rightarrow> string \<Rightarrow> canonical_item list program" where
  "resolve_body w rid model =
     and_then (call_life w (\<lambda>now. lc_retrieve now rid)) (\<lambda>response.
       case response of
         None \<Rightarrow> and_then (modify (drop_pending rid))
           (\<lambda>_. and_then (discard_state w rid) (\<lambda>_. raises (ResponseStateNotFound rid)))
       | Some r \<Rightarrow>
           (if json_get r ''status'' \<noteq> JStr ''completed'' \<or> json_get r ''store'' \<noteq> JBool True
            then raises (ResponseStateNotFound rid)
            else if (case json_get r ''model'' of JStr m \<Rightarrow> m \<noteq> model | _ \<Rightarrow> False)
            then raises (ResponseStateModelMismatch rid)
            else and_then (call_state w (\<lambda>now. store_get now rid)) (\<lambda>record.
              case record of
                None \<Rightarrow> and_then (discard_life w rid) (\<lambda>_. raises (ResponseStateNotFound rid))
              | Some record \<Rightarrow>
                  (if rec_model record \<noteq> model then raises (ResponseStateModelMismatch rid)
                   else and_then (retained_chain_is_consistent w rid model) (\<lambda>ok.
                     if \<not> ok then raises (ResponseStateNotFound rid)
                     else and_then (call_state w (\<lambda>now. store_materialize now rid)) (\<lambda>items.
                       case items of
                         None \<Rightarrow> and_then (discard_life w rid) (\<lambda>_. raises (ResponseStateNotFound rid))
                       | Some items \<Rightarrow> returns items))))))"

definition resolve_previous ::
  "schedule \<Rightarrow> string option \<Rightarrow> string \<Rightarrow> string option \<Rightarrow> canonical_item list program" where
  "resolve_previous w rid model pin_owner =
     (case rid of
        None \<Rightarrow> returns []
      | Some rid \<Rightarrow>
          (case pin_owner of
             None \<Rightarrow> resolve_body w rid model
           | Some owner \<Rightarrow>
               (if blank owner then raises (ValueError ''pin_owner must be None or a non-empty string'')
                else and_then (pin_continuation w owner rid) (\<lambda>pinned.
                  if \<not> pinned then raises (ResponseStateNotFound rid)
                  else (\<lambda>a. (case resolve_body w rid model a of
                         (Inl e, a') \<Rightarrow> and_then (release_continuation w owner) (\<lambda>_. raises e) a'
                       | (Inr items, a') \<Rightarrow> (Inr items, a')))))))"

end
