(* ===== verification/Store_Properties.thy ===== *)
theory Store_Properties
  imports Store
begin

text \<open>
  The properties of the response store, over the operations of \<open>Store\<close>, each with a run of
  the model on a concrete store where its hypotheses hold. \<open>ex_rec\<close> and \<open>ex_store\<close> are the
  example data of these runs.
\<close>

definition ex_rec :: "string \<Rightarrow> string option \<Rightarrow> string \<Rightarrow> response_record" where
  "ex_rec rid parent t = \<lparr>response_id = rid, rec_model = ''m'', parent_response_id = parent,
     delta_items = [MessageItem \<lparr>mi_role = USER, mi_text = t\<rparr>]\<rparr>"

definition ex_store :: "int \<Rightarrow> int \<Rightarrow> store" where
  "ex_store n b = \<lparr>st_max_records = n, st_ttl_seconds = 10, st_max_total_bytes = b,
     st_records = [], st_children = [], st_pins = [], st_estimated_bytes = 0\<rparr>"

definition ex_family :: store where
  "ex_family = store_run [(0, OpPut (ex_rec ''a'' None ''x'')), (1, OpPut (ex_rec ''b'' (Some ''a'') ''y'')),
     (2, OpPut (ex_rec ''c'' None ''z''))] (ex_store 3 10000)"

lemma ex_store_new: "0 < n \<Longrightarrow> 0 < b \<Longrightarrow> new_store n 10 b = Inr (ex_store n b)"
  by (simp add: new_store_def ex_store_def raise_if_def)

lemma ex_family_inv: "store_inv ex_family"
  unfolding ex_family_def
  using store_run_ok new_store_inv [OF ex_store_new [of 3 10000]] by simp

text \<open>C1. However a store is used - any sequence of gets, materializations, puts, pins, unpins,
  discards and size queries at any clock readings - its identifiers, children index, parent links
  and byte count stay consistent, every retained record has its whole acyclic ancestor chain
  retained under one model, and the record and byte budgets hold after every operation.\<close>
theorem store_history_invariant:
  assumes "new_store max_records ttl max_bytes = Inr s"
  shows "store_inv (store_run ops s) \<and> within_budget (store_run ops s)"
  using store_run_ok new_store_inv [OF assms] by blast

theorem store_history_invariant_witness:
  "store_inv (store_run [(0, OpPut (ex_rec ''a'' None ''x'')), (20, OpSize)] (ex_store 5 450))
    \<and> within_budget (store_run [(0, OpPut (ex_rec ''a'' None ''x'')), (20, OpSize)] (ex_store 5 450))"
  using store_history_invariant [of 5 10 450 "ex_store 5 450"] ex_store_new [of 5 450] by simp

lemma chain_items_Cons:
  "map_of (st_records s) x = Some st \<Longrightarrow> chain_items s (x # xs) = chain_items s xs @ delta_items (sr_record st)"
  by (simp add: chain_items_def)

lemma materialize_path:
  assumes inv: "store_inv s0" and rid: "\<not> blank rid"
    and path: "chain_path (st_look (purge_expired_locked now s0)) (Some rid) xs"
  shows "fst (store_materialize now rid s0) = Inr (Some (chain_items (purge_expired_locked now s0) xs))"
proof -
  have "rid \<in> set xs" using path by (cases xs) auto
  then have "rid \<in> st_ids (purge_expired_locked now s0)"
    using chain_path_present [OF path] st_look_None by blast
  moreover have "(THE xs. chain_path (st_look (purge_expired_locked now s0)) (Some rid) xs) = xs"
    using path by (rule the_equality) (rule chain_path_unique [OF _ path])
  ultimately show ?thesis using materialize_result [OF inv rid, of now] by simp
qed

lemma stored_reads:
  assumes inv: "store_inv s0" and valid: "mk_response_record rid m parent items = Inr r"
    and put: "put_with_evictions now r s0 = (Inr (STORED, evicted), s1)"
  shows "case parent of
      None \<Rightarrow> fst (store_materialize now rid s1) = Inr (Some items)
    | Some p \<Rightarrow> \<exists>before. fst (store_materialize now p s0) = Inr (Some before)
        \<and> fst (store_materialize now rid s1) = Inr (Some (before @ items))"
proof -
  have r: "response_id r = rid" "parent_response_id r = parent" "delta_items r = items"
    and nb: "\<not> blank rid" and np: "\<And>p. parent = Some p \<Longrightarrow> \<not> blank p"
    using valid by (auto simp: mk_response_record_def raise_if_def split: if_splits)
  let ?s = "purge_expired_locked now s0"
  from put_stored [OF inv put] obtain xs where inv1: "store_inv s1"
    and new: "map_of (st_records s1) rid = Some (new_entry now r ?s)"
    and acc: "parent_accepted r ?s xs" and keep: "keeps (set xs) ?s s1"
    and path: "chain_path (st_look s1) (Some rid) (rid # xs)" using r by auto
  have "fst (store_materialize now rid s1) = Inr (Some (chain_items ?s xs @ items))"
    using materialize_items [OF inv1 put_stored_fresh [OF inv put] nb path]
      chain_items_Cons [OF new] chain_items_cong [OF keep] r by simp
  moreover have ps: "chain_path (st_look ?s) parent xs" using acc r by (simp add: parent_accepted_def)
  moreover have "fst (store_materialize now p s0) = Inr (Some (chain_items ?s xs))" if "parent = Some p" for p
    using materialize_path [OF inv np [OF that]] ps that by simp
  ultimately show ?thesis by (cases parent) (auto simp: chain_items_def)
qed

text \<open>C2. After a put that reports \<open>STORED\<close>, materializing the new response returns the
  conversation of its parent as it was before the put, followed by the new record's own items;
  a record without parent materializes to its own items. The evictions the put made never
  touch that conversation.\<close>
theorem put_then_materialize:
  assumes inv: "store_inv s0" and valid: "mk_response_record rid m parent items = Inr r"
    and put: "put_with_evictions now r s0 = (Inr (STORED, evicted), s1)"
  shows "case parent of
      None \<Rightarrow> fst (store_materialize now rid s1) = Inr (Some items)
    | Some p \<Rightarrow> \<exists>before. fst (store_materialize now p s0) = Inr (Some before)
        \<and> fst (store_materialize now rid s1) = Inr (Some (before @ items))"
  using stored_reads [OF assms] .

theorem put_then_materialize_witness:
  "\<exists>before. fst (store_materialize 3 ''b'' ex_family) = Inr (Some before)
    \<and> fst (store_materialize 3 ''d'' (snd (put_with_evictions 3 (ex_rec ''d'' (Some ''b'') ''w'') ex_family)))
      = Inr (Some (before @ delta_items (ex_rec ''d'' (Some ''b'') ''w'')))"
proof -
  have "put_with_evictions 3 (ex_rec ''d'' (Some ''b'') ''w'') ex_family
      = (Inr (STORED, [''c'']), snd (put_with_evictions 3 (ex_rec ''d'' (Some ''b'') ''w'') ex_family))"
    by (rule pair_of_fst) code_simp
  moreover have "mk_response_record ''d'' ''m'' (Some ''b'') (delta_items (ex_rec ''d'' (Some ''b'') ''w''))
      = Inr (ex_rec ''d'' (Some ''b'') ''w'')" by code_simp
  ultimately show ?thesis
    using put_then_materialize [OF ex_family_inv, of "''d''" "''m''" "Some ''b''"] by fastforce
qed

text \<open>A put that does not store leaves the store as it was after the purge of expired
  records: the same records in the same order, the same children index and the same byte count,
  whatever the eviction loop removed before it gave up. The pin table is not part of this
  statement, see \<open>refused_put_can_drop_pins\<close>.\<close>
theorem put_refused_restores:
  assumes inv: "store_inv s0" and put: "put_with_evictions now r s0 = (Inr (d, evicted), s1)"
    and refused: "d \<noteq> STORED"
  shows "evicted = [] \<and> st_records s1 = st_records (purge_expired_locked now s0)
    \<and> st_children s1 = st_children (purge_expired_locked now s0)
    \<and> st_estimated_bytes s1 = st_estimated_bytes (purge_expired_locked now s0)"
  using put_outcome [OF inv put] refused by auto

definition ex_entry :: "string \<Rightarrow> string \<times> stored_record" where
  "ex_entry x = (x, \<lparr>sr_record = ex_rec x None ''x'', sr_bytes = 141, sr_expires_at = 11\<rparr>)"

definition ex_pinned :: store where
  "ex_pinned = \<lparr>st_max_records = 5, st_ttl_seconds = 10, st_max_total_bytes = 290,
     st_records = [ex_entry ''a'', ex_entry ''c''], st_children = [],
     st_pins = [(''a'', 1), (''c'', 1)], st_estimated_bytes = 282\<rparr>"

definition ex_large :: response_record where
  "ex_large = ex_rec ''a'' None ''a much longer message''"

lemma ex_pinned_run: "ex_pinned = store_run [(0, OpPut (ex_rec ''a'' None ''x'')),
     (1, OpPut (ex_rec ''c'' None ''x'')), (1, OpPinChain ''a''), (1, OpPinChain ''c'')] (ex_store 5 290)"
  by code_simp

lemma ex_pinned_inv: "store_inv ex_pinned"
  unfolding ex_pinned_run using store_run_ok new_store_inv [OF ex_store_new [of 5 290]] by simp

lemma ex_large_refused:
  "put_with_evictions 2 ex_large ex_pinned
    = (Inr (REFUSED_BUDGET, []), snd (put_with_evictions 2 ex_large ex_pinned))"
  by (rule pair_of_fst) code_simp

theorem put_refused_restores_witness:
  "st_records (snd (put_with_evictions 2 ex_large ex_pinned))
    = st_records (purge_expired_locked 2 ex_pinned)"
  using put_refused_restores [OF ex_pinned_inv ex_large_refused] by simp

text \<open>A put that is refused for lack of room forgets pins: \<open>put_with_evictions\<close> first
  removes the record it replaces, which drops the pin count of that identifier, and the rollback
  restores the records, the children index and the byte count but not the pin table. In the run
  below response \<open>a\<close> is retained and pinned before the refused put, and retained without its pin
  after it, so it can be evicted or expire while a continuation still holds it.\<close>
theorem refused_put_can_drop_pins:
  "fst (put_with_evictions 2 ex_large ex_pinned) = Inr (REFUSED_BUDGET, [])
    \<and> pin_count (st_pins ex_pinned) ''a'' = 1
    \<and> map_option sr_record (map_of (st_records (snd (put_with_evictions 2 ex_large ex_pinned))) ''a'')
        = map_option sr_record (map_of (st_records ex_pinned) ''a'')
    \<and> map_of (st_records ex_pinned) ''a'' \<noteq> None
    \<and> pin_count (st_pins (snd (put_with_evictions 2 ex_large ex_pinned))) ''a'' = 0"
proof -
  have "put_with_evictions 2 ex_large ex_pinned
      = (Inr (REFUSED_BUDGET, []), ex_pinned\<lparr>st_pins := [(''c'', 1)]\<rparr>)" by code_simp
  moreover have "map_of (st_records ex_pinned) ''a'' \<noteq> None" by code_simp
  moreover have "pin_count (st_pins ex_pinned) ''a'' = 1" by code_simp
  ultimately show ?thesis by (simp add: pin_count_def)
qed

lemma same_records_look: "same_records P s t \<Longrightarrow> y \<in> P \<Longrightarrow> st_look t y = st_look s y"
proof -
  have look: "st_look u y = map_option parent_response_id (map_option sr_record (map_of (st_records u) y))" for u
    by (simp add: st_look_def option.map_comp comp_def)
  assume "same_records P s t" and "y \<in> P"
  then have "map_option sr_record (map_of (st_records t) y) = map_option sr_record (map_of (st_records s) y)"
    by (simp only: same_records_def)
  then show ?thesis by (simp only: look)
qed

lemma same_records_items:
  "same_records (set xs) s t \<Longrightarrow> set xs \<subseteq> st_ids s \<Longrightarrow> chain_items t xs = chain_items s xs"
proof -
  assume same: "same_records (set xs) s t" and ids: "set xs \<subseteq> st_ids s"
  have "delta_items (sr_record (the (map_of (st_records t) x)))
      = delta_items (sr_record (the (map_of (st_records s) x)))" if "x \<in> set xs" for x
  proof -
    have "x \<in> st_ids s" using ids that by (rule subsetD)
    then obtain st where st: "map_of (st_records s) x = Some st" unfolding in_keys_iff by (elim exE)
    have "map_option sr_record (map_of (st_records t) x) = Some (sr_record st)"
      using same that st by (simp only: same_records_def option.map)
    then have "sr_record (the (map_of (st_records t) x)) = sr_record st"
      by (cases "map_of (st_records t) x") (simp_all only: option.map option.inject option.sel option.distinct)
    then show ?thesis by (simp only: st option.sel)
  qed
  then show ?thesis by (auto simp: chain_items_def intro!: arg_cong [where f = concat])
qed

lemma same_records_fold_pin: "same_records P s (fold (pin_one now) xs s)"
proof (induction xs arbitrary: s)
  case (Cons x xs)
  have "same_records P s (pin_one now x s)"
    by (auto simp: same_records_def pin_one_def map_of_touch option.map_comp comp_def simp del: image_eqI)
  with Cons show ?case using same_records_trans by auto
qed (simp add: same_records_def)

text \<open>C5. A conversation that \<open>pin_chain\<close> pinned stays readable and unchanged: whatever
  operations follow at whatever clock readings - expiry, evictions by other puts, discards of
  other responses - materializing it returns the items it had when it was pinned, as long as no
  operation replaces, discards or unpins a response of the pinned chain itself.\<close>
theorem pinned_chain_survives:
  assumes inv: "store_inv s0" and nn: "\<forall>y. 0 \<le> pin_count (st_pins s0) y"
    and pin: "store_pin_chain now rid s0 = (Inr (Some chain), s1)"
    and spare: "\<forall>(t, op)\<in>set ops. op_spares (set chain) op"
  shows "\<exists>items. fst (store_materialize now rid s0) = Inr (Some items)
    \<and> fst (store_materialize later rid (store_run ops s1)) = Inr (Some items)"
proof -
  let ?s = "purge_expired_locked now s0" and ?t = "purge_expired_locked later (store_run ops s1)"
  have nb: "\<not> blank rid" using pin by (auto simp: store_pin_chain_def validate_response_id_def)
  have s: "store_inv ?s" using inv by (rule inv_purge)
  have ids: "rid \<in> st_ids ?s" and ch: "chain = (THE xs. chain_path (st_look ?s) (Some rid) xs)"
    and s1: "s1 = fold (pin_one now) chain ?s"
    using pin pin_chain_result [OF inv nb, of now] by (auto simp: Let_def split: if_splits)
  obtain xs where xs: "chain_path (st_look ?s) (Some rid) xs" using has_chain [OF s ids] by blast
  then have path: "chain_path (st_look ?s) (Some rid) chain" unfolding ch
    by (rule the_equality [THEN ssubst]) (rule chain_path_unique [OF _ xs], simp_all add: xs)
  have path1: "chain_path (st_look s1) (Some rid) chain" using path s1 by (simp add: look_fold_pin)
  note p1 = pin_chain_pins(1) [OF inv pin nn]
  have p2: "pinned_set (set chain) (store_run ops s1)" "same_records (set chain) s1 (store_run ops s1)"
    using pinned_run [OF p1 spare] by auto
  have same: "same_records (set chain) s1 ?t"
    using pinned_purge [OF p2(1)] same_records_trans [OF p2(2)] by auto
  have ids1: "set chain \<subseteq> st_ids s1" using p1 by (simp add: pinned_set_def parent_closed_in_def)
  have "chain_path (st_look ?t) (Some rid) chain"
    using path1 by (rule chain_path_cong) (rule same_records_look [OF same])
  moreover have "store_inv (store_run ops s1)" using p2 by (simp add: pinned_set_def)
  ultimately have "fst (store_materialize later rid (store_run ops s1)) = Inr (Some (chain_items ?t chain))"
    using materialize_path nb by blast
  moreover have "chain_items ?t chain = chain_items s1 chain"
    using same_records_items [OF same ids1] .
  moreover have "same_records (set chain) ?s s1" unfolding s1
    by (rule same_records_fold_pin)
  then have "chain_items s1 chain = chain_items ?s chain"
    by (rule same_records_items) (use chain_path_present [OF path] st_look_None in blast)
  ultimately show ?thesis using materialize_path [OF inv nb path] by simp
qed

lemma ex_family_pin:
  "store_pin_chain 3 ''b'' ex_family = (Inr (Some [''b'', ''a'']), snd (store_pin_chain 3 ''b'' ex_family))"
  by (rule pair_of_fst) code_simp

lemma ex_family_pins: "st_pins ex_family = []"
  by code_simp

theorem pinned_chain_survives_witness:
  "\<exists>items. fst (store_materialize 3 ''b'' ex_family) = Inr (Some items)
    \<and> fst (store_materialize 200 ''b'' (store_run [(4, OpPut (ex_rec ''d'' None ''w'')), (100, OpSize)]
          (snd (store_pin_chain 3 ''b'' ex_family)))) = Inr (Some items)"
  by (rule pinned_chain_survives [OF ex_family_inv _ ex_family_pin])
    (simp_all add: ex_family_pins pin_count_def op_spares_def ex_rec_def)

lemma store_bytes_nonneg: "store_inv s \<Longrightarrow> 0 \<le> st_estimated_bytes s"
proof -
  assume inv: "store_inv s"
  have "0 \<le> sr_bytes (snd p)" if "p \<in> set (st_records s)" for p
  proof -
    have "map_of (st_records s) (fst p) = Some (snd p)"
      using inv that by (cases p) (simp add: store_inv_def store_local_inv_def)
    then have "entry_ok (fst p) (snd p)" using inv by (simp only: store_inv_def store_local_inv_def)
    then show ?thesis by (simp add: entry_ok_def estimate_response_record_bytes_pos less_imp_le)
  qed
  then have "0 \<le> dict_sum sr_bytes (st_records s)"
    by (auto simp: dict_sum_def intro!: sum_list_nonneg)
  then show ?thesis using inv by (simp add: store_inv_def store_local_inv_def)
qed

lemma insert_room:
  assumes "store_inv s" and "response_id r \<notin> st_ids s"
  shows "length (st_records (insert_record_locked now r s)) = Suc (length (st_records s))"
    and "st_estimated_bytes (insert_record_locked now r s)
      = st_estimated_bytes s + estimate_response_record_bytes r"
proof -
  have "distinct (dict_keys (AList.update (response_id r) v (st_records s)))" for v
    using assms(1) by (simp add: store_inv_def store_local_inv_def)
  then show "length (st_records (insert_record_locked now r s)) = Suc (length (st_records s))"
    using assms(2) by (simp add: insert_record_locked_def clear_record_def Let_def length_move_to_end length_update)
  show "st_estimated_bytes (insert_record_locked now r s)
      = st_estimated_bytes s + estimate_response_record_bytes r"
    using assms(2) by (simp add: insert_record_locked_def clear_record_def Let_def)
qed

text \<open>A put is not refused, and evicts nothing, while there is room: a record with a new
  identifier whose parent is retained under the same model (or that has none), and whose bytes
  and place fit beside the records left by the purge, is stored, the list of evicted identifiers
  is empty, and every other retained record is unchanged.\<close>
theorem put_with_room_stores:
  assumes inv: "store_inv s0"
    and fresh_id: "response_id r \<notin> st_ids (purge_expired_locked now s0)"
    and parent: "put_parent_refusal r (purge_expired_locked now s0) = None"
    and records: "int (length (st_records (purge_expired_locked now s0))) < st_max_records s0"
    and bytes: "st_estimated_bytes (purge_expired_locked now s0) + estimate_response_record_bytes r
      \<le> st_max_total_bytes s0"
  shows "fst (put_with_evictions now r s0) = Inr (STORED, [])
    \<and> map_of (st_records (snd (put_with_evictions now r s0)))
      = (map_of (st_records (purge_expired_locked now s0)))
          (response_id r \<mapsto> \<lparr>sr_record = r, sr_bytes = estimate_response_record_bytes r,
             sr_expires_at = now + st_ttl_seconds s0\<rparr>)"
proof -
  let ?s = "purge_expired_locked now s0" and ?i = "insert_record_locked now r (purge_expired_locked now s0)"
  have inv1: "store_inv ?s" using inv by (rule inv_purge)
  obtain xs where xs: "parent_accepted r ?s xs" using put_parent_refusal_None [OF parent] ..
  have clear: "clear_record r ?s = ?s" using fresh_id by (simp add: clear_record_def)
  have "0 \<le> st_estimated_bytes ?s"
    using store_bytes_nonneg [OF inv1] .
  then have small: "\<not> estimate_response_record_bytes r > st_max_total_bytes ?s" using bytes by simp
  have new: "store_inv ?i" using inv1 xs by (rule inv_insert)
  have "int (length (st_records ?i)) \<le> st_max_records s0" "st_estimated_bytes ?i \<le> st_max_total_bytes s0"
    using insert_room [OF inv1 fresh_id] records bytes by simp_all
  then have "\<not> over_budget ?i" by (simp add: over_budget_def)
  then have ev: "evict_to_budget_locked (response_id r # xs) ?i = (True, ?i)"
    by (simp add: evict_to_budget_locked.simps)
  have mp: "map_of (st_records ?i) = (map_of (st_records ?s))(response_id r \<mapsto> new_entry now r ?s)"
    using clear by (simp add: insert_map_of)
  have "st_ids ?s \<subseteq> st_ids ?i" using clear by (auto simp: insert_ids)
  then have "filter (\<lambda>rid. rid \<noteq> response_id r \<and> rid \<notin> st_ids ?i) (dict_keys (st_records ?s)) = []"
    by (auto simp: filter_empty_conv)
  then show ?thesis
    using small parent protected_of_accepted [OF xs] ev mp
    by (simp add: put_with_evictions_def Let_def)
qed

theorem put_with_room_stores_witness:
  "fst (put_with_evictions 4 (ex_rec ''d'' (Some ''a'') ''w'')
      (store_run [(0, OpPut (ex_rec ''a'' None ''x''))] (ex_store 3 10000))) = Inr (STORED, [])"
proof -
  let ?s = "store_run [(0, OpPut (ex_rec ''a'' None ''x''))] (ex_store 3 10000)"
  have inv: "store_inv ?s" using store_run_ok new_store_inv [OF ex_store_new [of 3 10000]] by simp
  show ?thesis
    by (rule put_with_room_stores [OF inv, of "ex_rec ''d'' (Some ''a'') ''w''" 4, THEN conjunct1]; code_simp)
qed

end
