(* ===== verification/Lifecycle_Invariant.thy ===== *)
theory Lifecycle_Invariant
  imports Lifecycle
begin

text \<open>
  The invariant of the Response registry and its preservation: identifiers, children index,
  parent links and byte count agree, budgets hold, active objects are not shared between
  identifiers. The removal step is a second instance of \<open>forest_state\<close>.
\<close>

section \<open>Invariant\<close>

definition lc_parent :: "lifecycle \<Rightarrow> string \<Rightarrow> string option" where
  "lc_parent s rid = (case map_of (lc_retained s) rid of None \<Rightarrow> None
     | Some r \<Rightarrow> previous_id (rt_response r))"

definition parent_field_ok :: "response \<Rightarrow> bool" where
  "parent_field_ok r = (case json_get r ''previous_response_id'' of
     JNull \<Rightarrow> True | JStr p \<Rightarrow> p \<noteq> [] | _ \<Rightarrow> False)"

definition retained_ok :: "string \<Rightarrow> retained_response \<Rightarrow> bool" where
  "retained_ok rid r \<longleftrightarrow> resource_id (rt_response r) = Inr rid \<and> parent_field_ok (rt_response r)
     \<and> rt_estimated_bytes r = estimate_wire_bytes (rt_response r)"

definition lc_local_inv :: "lifecycle \<Rightarrow> bool" where
  "lc_local_inv s \<longleftrightarrow> distinct (dict_keys (lc_retained s))
     \<and> (\<forall>rid r. map_of (lc_retained s) rid = Some r \<longrightarrow> retained_ok rid r)
     \<and> lc_estimated_bytes s = dict_sum rt_estimated_bytes (lc_retained s)
     \<and> 0 < lc_max_records s \<and> 0 < lc_ttl_seconds s \<and> 0 < lc_max_total_bytes s"

definition active_refs :: "lifecycle \<Rightarrow> nat set" where
  "active_refs s = snd ` set (lc_active s)"

definition live_object :: "active_response list \<Rightarrow> nat \<Rightarrow> bool" where
  "live_object heap a \<longleftrightarrow> a < length heap \<and> ac_terminal_response (heap ! a) = None"

definition lc_active_inv :: "lifecycle \<Rightarrow> bool" where
  "lc_active_inv s \<longleftrightarrow> distinct (dict_keys (lc_active s)) \<and> distinct (map snd (lc_active s))
     \<and> (\<forall>a\<in>active_refs s. live_object (lc_heap s) a)"

definition lc_linked :: "lifecycle \<Rightarrow> bool" where
  "lc_linked s \<longleftrightarrow> linked (lc_ids s) (lc_parent s) (lc_children s)"

definition lc_inv :: "lifecycle \<Rightarrow> bool" where
  "lc_inv s \<longleftrightarrow> lc_local_inv s \<and> lc_linked s \<and> lc_active_inv s"

definition lc_within_budget :: "lifecycle \<Rightarrow> bool" where
  "lc_within_budget s \<longleftrightarrow> int (length (lc_retained s)) \<le> lc_max_records s
     \<and> lc_estimated_bytes s \<le> lc_max_total_bytes s"

lemma new_lifecycle_inv: "new_lifecycle m t b = Inr s \<Longrightarrow> lc_inv s \<and> lc_within_budget s"
  by (auto simp: new_lifecycle_def lc_inv_def lc_local_inv_def lc_linked_def lc_active_inv_def
      lc_within_budget_def active_refs_def linked_def kids_sound_def kids_complete_def parent_closed_def kids_of_def)

section \<open>Removal\<close>

text \<open>What the retained side of the registry never touches.\<close>

definition same_frame :: "lifecycle \<Rightarrow> lifecycle \<Rightarrow> bool" where
  "same_frame s t \<longleftrightarrow> lc_max_records t = lc_max_records s \<and> lc_ttl_seconds t = lc_ttl_seconds s
     \<and> lc_max_total_bytes t = lc_max_total_bytes s \<and> lc_heap t = lc_heap s \<and> lc_active t = lc_active s"

lemma same_frame_refl [simp]: "same_frame s s"
  by (simp add: same_frame_def)

lemma same_frame_trans: "same_frame s t \<Longrightarrow> same_frame t u \<Longrightarrow> same_frame s u"
  by (simp add: same_frame_def)

lemma same_frameD:
  assumes "same_frame s t"
  shows "lc_max_records t = lc_max_records s" "lc_ttl_seconds t = lc_ttl_seconds s"
    "lc_max_total_bytes t = lc_max_total_bytes s" "lc_heap t = lc_heap s" "lc_active t = lc_active s"
  using assms by (simp_all add: same_frame_def)

lemma active_inv_frame: "same_frame s t \<Longrightarrow> lc_active_inv t = lc_active_inv s"
  by (simp add: same_frame_def lc_active_inv_def active_refs_def)

lemma frame_remove_one: "same_frame s (remove_retained_one_locked x s)"
  by (simp add: same_frame_def remove_retained_one_locked_def Let_def split: option.splits)

lemma retained_remove_one [simp]:
  "lc_retained (remove_retained_one_locked x s) = AList.delete x (lc_retained s)"
  "lc_pins (remove_retained_one_locked x s) = AList.delete x (lc_pins s)"
  by (simp_all add: remove_retained_one_locked_def Let_def split: option.splits)

interpretation lifecycle_forest:
  forest_state "\<lambda>s. lc_ids s" lc_parent lc_children remove_retained_one_locked
proof (unfold_locales, goal_cases)
  case (1 x s)
  show ?case by (simp add: dict_simps)
next
  case (2 y x s)
  then show ?case by (simp add: lc_parent_def dict_simps)
next
  case (3 x s)
  show ?case
    by (cases "map_of (lc_retained s) x")
      (auto simp: remove_retained_one_locked_def Let_def lc_parent_def in_keys_iff)
qed

lemma local_remove_retained_one: "lc_local_inv s \<Longrightarrow> lc_local_inv (remove_retained_one_locked x s)"
proof -
  assume inv: "lc_local_inv s"
  then have "lc_estimated_bytes (remove_retained_one_locked x s)
      = dict_sum rt_estimated_bytes (AList.delete x (lc_retained s))"
    by (auto simp: remove_retained_one_locked_def lc_local_inv_def Let_def dict_sum_delete delete_absent
        not_in_keys_iff split: option.splits)
  then show ?thesis
    using inv same_frameD [OF frame_remove_one [of s x]]
    by (simp add: lc_local_inv_def dict_simps del: map_of_eq_Some_iff)
qed

lemma fold_remove_retained:
  "lc_retained (fold remove_retained_one_locked xs s) = filter (\<lambda>p. fst p \<notin> set xs) (lc_retained s)"
proof (induction xs arbitrary: s)
  case (Cons x xs)
  then show ?case by (auto simp: AList.delete_eq intro: filter_cong)
qed simp

lemma fold_remove_pins:
  "lc_pin_count (fold remove_retained_one_locked xs s) y = (if y \<in> set xs then 0 else lc_pin_count s y)"
  by (induction xs arbitrary: s) (auto simp: lc_pin_count_def dict_simps)

lemma fold_remove_frame: "same_frame s (fold remove_retained_one_locked xs s)"
  by (induction xs arbitrary: s) (auto intro: same_frame_trans frame_remove_one)

lemma fold_remove_local: "lc_local_inv s \<Longrightarrow> lc_local_inv (fold remove_retained_one_locked xs s)"
  by (induction xs arbitrary: s) (auto intro: local_remove_retained_one)

abbreviation drop_subtree :: "string \<Rightarrow> lifecycle \<Rightarrow> lifecycle" where
  "drop_subtree rid s \<equiv> snd (remove_retained_subtree_locked rid s)"

definition lc_subtree :: "lifecycle \<Rightarrow> string \<Rightarrow> string set" where
  "lc_subtree s rid = set (subtree_ids_locked s rid)"

lemma fst_remove_subtree [simp]: "fst (remove_retained_subtree_locked rid s) = subtree_ids_locked s rid"
  by (simp add: remove_retained_subtree_locked_def Let_def)

lemma lc_subtree_subset: "lc_subtree s rid \<subseteq> lc_ids s"
proof
  fix y
  assume "y \<in> lc_subtree s rid"
  then have "map_of (lc_retained s) y \<noteq> None"
    using subtree_ids_admit [of y "\<lambda>x. map_of (lc_retained s) x \<noteq> None"]
    by (simp add: lc_subtree_def subtree_ids_locked_def)
  then show "y \<in> lc_ids s" by (auto simp: in_keys_iff)
qed

lemma lc_subtree_root: "rid \<in> lc_ids s \<Longrightarrow> rid \<in> lc_subtree s rid"
  using subtree_ids_root [of "\<lambda>x. map_of (lc_retained s) x \<noteq> None" rid "lc_children s"]
  by (auto simp: lc_subtree_def subtree_ids_locked_def in_keys_iff)

lemma lc_subtree_eq:
  assumes "lc_linked s"
  shows "lc_subtree s rid = (if rid \<in> lc_ids s then {y. (rid, y) \<in> (kid_edges (lc_children s))\<^sup>*} else {})"
proof (cases "rid \<in> lc_ids s")
  case True
  then have r: "map_of (lc_retained s) rid \<noteq> None" by (auto simp: in_keys_iff)
  have "map_of (lc_retained s) c \<noteq> None" if "c \<in> set (kids_of (lc_children s) p)" for p c
    using linked_sound that assms by (metis lc_linked_def map_of_eq_None_iff)
  then show ?thesis
    using True subtree_ids_eq [of "\<lambda>x. map_of (lc_retained s) x \<noteq> None", OF r]
    unfolding lc_subtree_def subtree_ids_locked_def by auto
next
  case False
  then have "map_of (lc_retained s) rid = None" by (simp only: not_in_keys_iff)
  then have "lc_subtree s rid = {}" by (simp add: lc_subtree_def subtree_ids_locked_def subtree_ids_def)
  then show ?thesis using False by simp
qed

lemma drop_subtree_facts:
  shows drop_retained: "lc_retained (drop_subtree rid s) = filter (\<lambda>p. fst p \<notin> lc_subtree s rid) (lc_retained s)"
    and drop_pins: "lc_pin_count (drop_subtree rid s) y = (if y \<in> lc_subtree s rid then 0 else lc_pin_count s y)"
    and drop_frame: "same_frame s (drop_subtree rid s)"
    and drop_ids: "lc_ids (drop_subtree rid s) = lc_ids s - lc_subtree s rid"
proof -
  show r: "lc_retained (drop_subtree rid s) = filter (\<lambda>p. fst p \<notin> lc_subtree s rid) (lc_retained s)"
    by (simp add: remove_retained_subtree_locked_def Let_def fold_remove_retained lc_subtree_def)
  show "lc_pin_count (drop_subtree rid s) y = (if y \<in> lc_subtree s rid then 0 else lc_pin_count s y)"
    by (simp add: remove_retained_subtree_locked_def Let_def fold_remove_pins lc_subtree_def)
  show "same_frame s (drop_subtree rid s)"
    by (simp add: remove_retained_subtree_locked_def Let_def fold_remove_frame)
  show "lc_ids (drop_subtree rid s) = lc_ids s - lc_subtree s rid" by (auto simp: r)
qed

lemma drop_inv: "lc_inv s \<Longrightarrow> lc_inv (drop_subtree rid s)"
proof -
  assume inv: "lc_inv s"
  then have "lc_linked (drop_subtree rid s)"
    unfolding lc_linked_def remove_retained_subtree_locked_def subtree_ids_locked_def Let_def snd_conv
    by (intro lifecycle_forest.linked_remove_subtree) (auto simp: lc_inv_def lc_linked_def in_keys_iff)
  moreover have "lc_local_inv (drop_subtree rid s)"
    using inv by (simp add: remove_retained_subtree_locked_def Let_def fold_remove_local lc_inv_def)
  ultimately show ?thesis using inv active_inv_frame [OF drop_frame] by (simp add: lc_inv_def)
qed

lemma rt_bytes_nonneg: "lc_local_inv s \<Longrightarrow> p \<in> set (lc_retained s) \<Longrightarrow> 0 \<le> rt_estimated_bytes (snd p)"
proof -
  assume inv: "lc_local_inv s" and p: "p \<in> set (lc_retained s)"
  have "map_of (lc_retained s) (fst p) = Some (snd p)"
    using inv p by (cases p) (simp add: lc_local_inv_def)
  then have "retained_ok (fst p) (snd p)" using inv by (simp only: lc_local_inv_def)
  then show ?thesis by (simp add: retained_ok_def estimate_wire_bytes_def)
qed

lemma dict_sum_filter_le:
  "(\<And>p. p \<in> set d \<Longrightarrow> 0 \<le> w (snd p)) \<Longrightarrow> dict_sum w (filter Q d) \<le> dict_sum w d"
  by (induction d) (auto simp: add_increasing)

lemma drop_budget: "lc_inv s \<Longrightarrow> lc_within_budget s \<Longrightarrow> lc_within_budget (drop_subtree rid s)"
proof -
  assume inv: "lc_inv s" and b: "lc_within_budget s"
  have e: "lc_estimated_bytes t = dict_sum rt_estimated_bytes (lc_retained t)" if "lc_inv t" for t
    using that by (simp add: lc_inv_def lc_local_inv_def)
  have "lc_estimated_bytes (drop_subtree rid s) \<le> lc_estimated_bytes s"
    unfolding e [OF inv] e [OF drop_inv [OF inv]] drop_retained
    by (rule dict_sum_filter_le) (use inv rt_bytes_nonneg in \<open>auto simp: lc_inv_def\<close>)
  moreover have "length (lc_retained (drop_subtree rid s)) \<le> length (lc_retained s)"
    by (simp add: drop_retained)
  ultimately show ?thesis
    using b same_frameD [OF drop_frame [of s rid]] by (simp add: lc_within_budget_def)
qed

section \<open>Purge\<close>

lemma purge_retained_induct:
  assumes "P s"
    and "\<And>rid t. \<forall>y\<in>lc_subtree t rid. lc_pin_count t y \<le> 0 \<Longrightarrow> P t \<Longrightarrow> P (drop_subtree rid t)"
  shows "P (purge_expired_retained_locked now s)"
proof -
  have "P (fold purge_one_expired xs t)" if "P t" for xs t
    using that
  proof (induction xs arbitrary: t)
    case (Cons rid xs)
    have "P (purge_one_expired rid t)"
      using Cons.prems assms(2) [of t rid] by (auto simp: purge_one_expired_def lc_subtree_def not_less)
    then show ?case using Cons.IH by simp
  qed simp
  then show ?thesis using assms(1) by (simp add: purge_expired_retained_locked_def)
qed

lemma purge_retained_inv: "lc_inv s \<Longrightarrow> lc_inv (purge_expired_retained_locked now s)"
  by (rule purge_retained_induct) (auto intro: drop_inv)

lemma purge_retained_ok:
  "lc_inv s \<and> lc_within_budget s \<Longrightarrow>
    lc_inv (purge_expired_retained_locked now s) \<and> lc_within_budget (purge_expired_retained_locked now s)"
  by (rule purge_retained_induct) (auto intro: drop_inv drop_budget)

lemma purge_retained_frame: "same_frame s (purge_expired_retained_locked now s)"
  by (rule purge_retained_induct) (auto intro: same_frame_trans drop_frame)

lemma map_of_filter_keys:
  "map_of (filter (\<lambda>p. fst p \<notin> A) d) y = (if y \<in> A then None else map_of d y)"
  by (induction d) auto

section \<open>Choosing and evicting the victims\<close>

text \<open>A subtree computed after some removals is the original one without what was removed.\<close>

definition reduced :: "string set \<Rightarrow> lifecycle \<Rightarrow> lifecycle \<Rightarrow> bool" where
  "reduced V s t \<longleftrightarrow> lc_inv t \<and> same_frame s t
     \<and> lc_retained t = filter (\<lambda>p. fst p \<notin> V) (lc_retained s)
     \<and> (\<forall>y. lc_pin_count t y = (if y \<in> V then 0 else lc_pin_count s y))"

lemma reduced_parent:
  assumes "reduced V s t" and "y \<in> lc_ids t"
  shows "lc_parent t y = lc_parent s y"
proof -
  have "y \<notin> V" using assms by (auto simp: reduced_def)
  then have "map_of (lc_retained t) y = map_of (lc_retained s) y"
    using assms(1) by (simp add: reduced_def map_of_filter_keys)
  then show ?thesis by (simp add: lc_parent_def)
qed

lemma reduced_ids: "reduced V s t \<Longrightarrow> lc_ids t = lc_ids s - V"
  by (auto simp: reduced_def)

lemma reduced_subtree:
  assumes inv: "lc_inv s" and red: "reduced V s t"
  shows "lc_subtree t rid = lc_subtree s rid - V"
proof -
  have ls: "lc_linked s" and lt: "lc_linked t" using inv red by (auto simp: lc_inv_def reduced_def)
  have sub: "lc_ids t \<subseteq> lc_ids s" using reduced_ids [OF red] by blast
  have paths: "(rid, y) \<in> (kid_edges (lc_children t))\<^sup>* \<longleftrightarrow> (rid, y) \<in> (kid_edges (lc_children s))\<^sup>*"
    "(rid, y) \<in> (kid_edges (lc_children s))\<^sup>* \<Longrightarrow> rid \<in> lc_ids t"
    if y: "y \<in> lc_ids t" for y
    using linked_shrink_paths [OF ls [unfolded lc_linked_def] lt [unfolded lc_linked_def] sub
        reduced_parent [OF red] y, of rid] by auto
  show ?thesis
  proof (rule set_eqI)
    fix y
    show "y \<in> lc_subtree t rid \<longleftrightarrow> y \<in> lc_subtree s rid - V"
    proof (cases "y \<in> lc_ids t")
      case True
      then have "y \<notin> V" using reduced_ids [OF red] by blast
      then show ?thesis
        using paths [OF True] sub by (auto simp: lc_subtree_eq [OF ls] lc_subtree_eq [OF lt])
    next
      case False
      then show ?thesis
        using lc_subtree_subset reduced_ids [OF red] by blast
    qed
  qed
qed

lemma reduced_refl: "lc_inv s \<Longrightarrow> reduced {} s s"
  by (simp add: reduced_def)

lemma reduced_drop:
  assumes "lc_inv s" and "reduced V s t"
  shows "reduced (V \<union> lc_subtree s rid) s (drop_subtree rid t)"
proof -
  have "lc_inv (drop_subtree rid t)" using assms(2) by (auto simp: reduced_def intro: drop_inv)
  moreover have "same_frame s (drop_subtree rid t)"
    using assms(2) drop_frame same_frame_trans by (auto simp: reduced_def)
  moreover have "lc_retained (drop_subtree rid t)
      = filter (\<lambda>p. fst p \<notin> V \<union> lc_subtree s rid) (lc_retained s)"
    using assms(2) reduced_subtree [OF assms]
    by (auto simp: drop_retained reduced_def intro!: filter_cong)
  moreover have "lc_pin_count (drop_subtree rid t) y
      = (if y \<in> V \<union> lc_subtree s rid then 0 else lc_pin_count s y)" for y
    using assms(2) reduced_subtree [OF assms] by (auto simp: drop_pins reduced_def)
  ultimately show ?thesis by (simp add: reduced_def)
qed

definition doomed :: "lifecycle \<Rightarrow> string list \<Rightarrow> string set" where
  "doomed s victims = (\<Union>v\<in>set victims. lc_subtree s v)"

lemma doomed_simps [simp]:
  "doomed s [] = {}" "doomed s (vs @ [v]) = doomed s vs \<union> lc_subtree s v"
  "doomed s (v # vs) = lc_subtree s v \<union> doomed s vs"
  by (auto simp: doomed_def)

lemma evict_victims:
  assumes inv: "lc_inv s" and red: "reduced V s t"
  shows "reduced (V \<union> doomed s vs) s (snd (fold evict_victim vs (ev, t)))
    \<and> set (fst (fold evict_victim vs (ev, t))) = set ev \<union> (doomed s vs - V)"
  using red
proof (induction vs arbitrary: V ev t)
  case (Cons v vs)
  have step: "evict_victim v (ev, t) = (ev @ subtree_ids_locked t v, drop_subtree v t)"
    by (simp add: evict_victim_def split_beta)
  have "set (subtree_ids_locked t v) = lc_subtree s v - V"
    using reduced_subtree [OF inv Cons.prems] by (simp add: lc_subtree_def)
  with Cons.IH [OF reduced_drop [OF inv Cons.prems, of v], where ev = "ev @ subtree_ids_locked t v"]
  show ?case by (auto simp: step Un_assoc)
qed simp

text \<open>The projected counts of the victims' loop are the counts of what would stay.\<close>

definition kept :: "string set \<Rightarrow> lifecycle \<Rightarrow> (string \<times> retained_response) list" where
  "kept V s = filter (\<lambda>p. fst p \<notin> V) (lc_retained s)"

lemma kept_insert:
  assumes "lc_local_inv s" and "k \<notin> V" and "map_of (lc_retained s) k = Some v"
  shows "dict_sum w (kept (insert k V) s) = dict_sum w (kept V s) - w v"
proof -
  have "kept (insert k V) s = AList.delete k (kept V s)"
    by (auto simp: kept_def AList.delete_eq intro: filter_cong)
  moreover have "map_of (kept V s) k = Some v"
    using assms(2,3) by (simp add: kept_def map_of_filter_keys)
  moreover have "distinct (map fst (kept V s))"
    using assms(1) by (simp add: kept_def lc_local_inv_def distinct_map_filter)
  ultimately show ?thesis by (simp add: dict_sum_delete)
qed

definition projected :: "lifecycle \<Rightarrow> int \<Rightarrow> int \<Rightarrow> string list \<Rightarrow> int \<Rightarrow> int \<Rightarrow> bool" where
  "projected s r0 b0 vids recs bytes \<longleftrightarrow> recs = r0 + dict_sum (\<lambda>_. 1) (kept (set vids) s)
     \<and> bytes = b0 + dict_sum rt_estimated_bytes (kept (set vids) s)"

lemma count_victim_projected:
  assumes "lc_local_inv s" and "projected s r0 b0 vids recs bytes"
  shows "\<exists>vids' recs' bytes'. fold (count_victim s) xs (vs, vids, recs, bytes) = (vs, vids', recs', bytes')
    \<and> set vids' = set vids \<union> (set xs \<inter> lc_ids s) \<and> projected s r0 b0 vids' recs' bytes'"
  using assms(2)
proof (induction xs arbitrary: vids recs bytes)
  case (Cons x xs)
  show ?case
  proof (cases "x \<in> set vids \<or> map_of (lc_retained s) x = None")
    case True
    then have "count_victim s x (vs, vids, recs, bytes) = (vs, vids, recs, bytes)"
      by (auto simp: count_victim_def split: option.splits)
    moreover have "x \<in> set vids \<or> x \<notin> lc_ids s" using True by (auto simp: in_keys_iff)
    ultimately show ?thesis using Cons.IH [OF Cons.prems] by auto
  next
    case False
    then obtain v where v: "map_of (lc_retained s) x = Some v" and x: "x \<notin> set vids" by auto
    then have step: "count_victim s x (vs, vids, recs, bytes)
        = (vs, vids @ [x], recs - 1, bytes - rt_estimated_bytes v)"
      by (simp add: count_victim_def)
    have "projected s r0 b0 (vids @ [x]) (recs - 1) (bytes - rt_estimated_bytes v)"
      using Cons.prems kept_insert [OF assms(1) x v] by (simp add: projected_def)
    from Cons.IH [OF this] obtain vids' recs' bytes'
      where f: "fold (count_victim s) xs (vs, vids @ [x], recs - 1, bytes - rt_estimated_bytes v)
          = (vs, vids', recs', bytes')"
        and v': "set vids' = set (vids @ [x]) \<union> (set xs \<inter> lc_ids s)"
        and p: "projected s r0 b0 vids' recs' bytes'" by blast
    have "x \<in> lc_ids s" unfolding in_keys_iff using v by blast
    then have "set vids' = set vids \<union> (set (x # xs) \<inter> lc_ids s)" using v' by auto
    with f p show ?thesis by (simp add: step)
  qed
qed simp

definition victims_ok :: "lifecycle \<Rightarrow> string list \<Rightarrow> string list \<Rightarrow> bool" where
  "victims_ok s protected vs \<longleftrightarrow> doomed s vs \<inter> set protected = {}
     \<and> (\<forall>y\<in>doomed s vs. lc_pin_count s y \<le> 0)"

lemma victims_loop_projected:
  assumes inv: "lc_local_inv s"
    and "projected s r0 b0 vids recs bytes" and "set vids = doomed s vs" and "victims_ok s protected vs"
    and "victims_loop s protected cands (vs, vids, recs, bytes) = (vs', vids', recs', bytes')"
  shows "projected s r0 b0 vids' recs' bytes' \<and> set vids' = doomed s vs' \<and> victims_ok s protected vs'"
  using assms(2-)
proof (induction cands arbitrary: vs vids recs bytes)
  case (Cons c cands)
  show ?case
  proof (cases "(recs \<le> lc_max_records s \<and> bytes \<le> lc_max_total_bytes s) \<or> c \<in> set vids
      \<or> (\<exists>y\<in>set (subtree_ids_locked s c). y \<in> set protected \<or> 0 < lc_pin_count s y)")
    case True
    then show ?thesis using Cons by (auto split: if_splits)
  next
    case False
    obtain vids2 recs2 bytes2
      where f: "fold (count_victim s) (subtree_ids_locked s c) (vs @ [c], vids, recs, bytes)
          = (vs @ [c], vids2, recs2, bytes2)"
        and v2: "set vids2 = set vids \<union> (set (subtree_ids_locked s c) \<inter> lc_ids s)"
        and p2: "projected s r0 b0 vids2 recs2 bytes2"
      using count_victim_projected [OF inv Cons.prems(1), of "subtree_ids_locked s c" "vs @ [c]"] by blast
    have sub: "set (subtree_ids_locked s c) \<subseteq> lc_ids s"
      using lc_subtree_subset by (simp add: lc_subtree_def)
    have "victims_loop s protected cands (vs @ [c], vids2, recs2, bytes2) = (vs', vids', recs', bytes')"
      using Cons.prems(4) False f by (auto simp: Let_def split: if_splits)
    moreover have "set vids2 = doomed s (vs @ [c])"
      using v2 sub Cons.prems(2) by (auto simp: lc_subtree_def)
    moreover have "victims_ok s protected (vs @ [c])"
      using False Cons.prems(3) by (fastforce simp: victims_ok_def lc_subtree_def)
    ultimately show ?thesis using Cons.IH p2 by blast
  qed
qed auto

lemma ancestor_loop_Some:
  "ancestor_loop s cur seen prot = Some P \<Longrightarrow> set prot \<subseteq> set P
    \<and> (cur = JNull \<or> (\<exists>c. cur = JStr c \<and> c \<noteq> [] \<and> c \<in> set P \<and> c \<in> lc_ids s))"
proof (induction s cur seen prot rule: ancestor_loop.induct [case_names step])
  case (step s cur seen prot)
  show ?case
  proof (cases cur)
    case (JStr c)
    with step.prems obtain parent where c: "c \<noteq> []" "c \<notin> set seen" and m: "map_of (lc_retained s) c = Some parent"
      and rec: "ancestor_loop s (json_get (rt_response parent) ''previous_response_id'') (c # seen) (c # prot) = Some P"
      by (auto simp: ancestor_loop.simps [of s cur] split: if_splits option.splits)
    have "set (c # prot) \<subseteq> set P" using step.IH [OF JStr _ m rec] c by auto
    moreover have "c \<in> lc_ids s" using m by (auto simp: in_keys_iff)
    ultimately show ?thesis using JStr c by auto
  qed (use step.prems in \<open>auto simp: ancestor_loop.simps [of s cur]\<close>)
qed

text \<open>A retention that succeeds: a set of unpinned, unprotected identifiers was dropped.\<close>

definition fits_after :: "lifecycle \<Rightarrow> response \<Rightarrow> string \<Rightarrow> string set \<Rightarrow> bool" where
  "fits_after s r rid V \<longleftrightarrow>
     (if rid \<in> lc_ids s then 0 else 1) + dict_sum (\<lambda>_. 1) (kept V s) \<le> lc_max_records s
   \<and> estimate_wire_bytes r - (case map_of (lc_retained s) rid of None \<Rightarrow> 0 | Some e \<Rightarrow> rt_estimated_bytes e)
       + dict_sum rt_estimated_bytes (kept V s) \<le> lc_max_total_bytes s"

definition retain_plan :: "lifecycle \<Rightarrow> response \<Rightarrow> string \<Rightarrow> string set \<Rightarrow> bool" where
  "retain_plan s r rid V \<longleftrightarrow> resource_id r = Inr rid \<and> parent_field_ok r \<and> rid \<notin> V
     \<and> (\<forall>q. previous_id r = Some q \<longrightarrow> q \<in> lc_ids s - V) \<and> (\<forall>y\<in>V. lc_pin_count s y \<le> 0)
     \<and> V \<subseteq> lc_ids s \<and> fits_after s r rid V"

lemma doomed_subset: "doomed s vs \<subseteq> lc_ids s"
  using lc_subtree_subset by (auto simp: doomed_def)

lemma retention_victims_Some:
  assumes inv: "lc_inv s" and v: "retention_victims_locked s r (estimate_wire_bytes r) = Inr (Some vs)"
  shows "\<exists>rid. retain_plan s r rid (doomed s vs)"
proof -
  have loc: "lc_local_inv s" and sum: "lc_estimated_bytes s = dict_sum rt_estimated_bytes (lc_retained s)"
    using inv by (simp_all add: lc_inv_def lc_local_inv_def)
  obtain rid where rid: "resource_id r = Inr rid"
    using v by (cases "resource_id r") (auto simp: retention_victims_locked_def split: if_splits)
  obtain P where P: "ancestor_loop s (json_get r ''previous_response_id'') [] [rid] = Some P"
    using v rid by (cases "ancestor_loop s (json_get r ''previous_response_id'') [] [rid]")
      (auto simp: retention_victims_locked_def retained_ancestor_ids_locked_def split: if_splits)
  define e where "e = (case map_of (lc_retained s) rid of None \<Rightarrow> 0 | Some x \<Rightarrow> rt_estimated_bytes x)"
  define r0 :: int where "r0 = (if rid \<in> lc_ids s then 0 else 1)"
  obtain recs0 bytes0 where init: "initial_projection s rid (estimate_wire_bytes r) = ([], [], recs0, bytes0)"
    and p0: "projected s r0 (estimate_wire_bytes r - e) [] recs0 bytes0"
  proof (cases "map_of (lc_retained s) rid")
    case None
    then have "rid \<notin> lc_ids s" by (simp only: not_in_keys_iff)
    then show ?thesis using None that sum
      by (simp add: initial_projection_def projected_def kept_def r0_def e_def dict_sum_def comp_def sum_list_triv)
  next
    case (Some x)
    then have "rid \<in> lc_ids s" unfolding in_keys_iff by blast
    then show ?thesis using Some that sum
      by (simp add: initial_projection_def projected_def kept_def r0_def e_def dict_sum_def comp_def sum_list_triv)
  qed
  obtain vs' vids recs bytes
    where loop: "victims_loop s P (dict_keys (lc_retained s)) ([], [], recs0, bytes0) = (vs', vids, recs, bytes)"
    using prod_cases4 by blast
  have "projected s r0 (estimate_wire_bytes r - e) vids recs bytes \<and> set vids = doomed s vs' \<and> victims_ok s P vs'"
    by (rule victims_loop_projected [OF loc p0 _ _ loop]) (simp_all add: victims_ok_def)
  then have pr: "recs = r0 + dict_sum (\<lambda>_. 1) (kept (doomed s vs') s)"
      "bytes = estimate_wire_bytes r - e + dict_sum rt_estimated_bytes (kept (doomed s vs') s)"
    and vok: "victims_ok s P vs'" by (simp_all add: projected_def)
  have vs: "vs' = vs" and fit: "recs \<le> lc_max_records s" "bytes \<le> lc_max_total_bytes s"
    using v rid P init loop
    by (auto simp: retention_victims_locked_def retained_ancestor_ids_locked_def split: if_splits)
  note anc = ancestor_loop_Some [OF P]
  have q: "q \<in> lc_ids s - doomed s vs" if "previous_id r = Some q" for q
  proof -
    have "json_get r ''previous_response_id'' = JStr q"
      using that by (auto simp: previous_id_def split: json.splits)
    then have "q \<in> set P" "q \<in> lc_ids s" using anc by auto
    then show ?thesis using vok vs by (auto simp: victims_ok_def)
  qed
  have "parent_field_ok r" using anc by (auto simp: parent_field_ok_def)
  moreover have "rid \<notin> doomed s vs" using anc vok vs by (auto simp: victims_ok_def)
  moreover have "fits_after s r rid (doomed s vs)"
    using fit pr vs by (simp add: fits_after_def r0_def e_def)
  ultimately show ?thesis
    using rid q vok vs doomed_subset [of s vs] by (auto simp: retain_plan_def victims_ok_def)
qed

definition new_retained :: "seconds \<Rightarrow> response \<Rightarrow> lifecycle \<Rightarrow> retained_response" where
  "new_retained now r s = \<lparr>rt_response = r, rt_estimated_bytes = estimate_wire_bytes r,
     rt_expires_at = now + lc_ttl_seconds s\<rparr>"

lemma retain_outcome:
  assumes inv: "lc_inv s" and ret: "retain_locked r now s = (res, s')"
  shows "(\<exists>e. res = Inl e \<and> s' = s \<and> resource_id r = Inl e) \<or> (res = Inr None \<and> s' = s)
    \<or> (\<exists>rid V t ev. retain_plan s r rid V \<and> reduced V s t \<and> set ev = V \<and> res = Inr (Some ev)
         \<and> s' = replace_retained_locked rid (new_retained now r s) t)"
proof (cases "resource_id r")
  case (Inr rid)
  show ?thesis
  proof (cases "retention_victims_locked s r (estimate_wire_bytes r)")
    case (Inl e)
    then show ?thesis using ret Inr
      by (auto simp: retain_locked_def retention_victims_locked_def retained_ancestor_ids_locked_def
          split: if_splits option.splits prod.splits)
  next
    case (Inr v)
    show ?thesis
    proof (cases v)
      case None
      then show ?thesis using ret Inr \<open>resource_id r = Inr rid\<close> by (simp add: retain_locked_def)
    next
      case (Some vs)
      obtain ev t where f: "fold evict_victim vs ([], s) = (ev, t)" by fastforce
      have red: "reduced (doomed s vs) s t" and ev: "set ev = doomed s vs"
        using evict_victims [OF inv reduced_refl [OF inv], where vs = vs and ev = "[]"] f by auto
      obtain rid' where plan: "retain_plan s r rid' (doomed s vs)"
        using retention_victims_Some [OF inv] Inr Some by blast
      then have "rid' = rid" using \<open>resource_id r = Inr rid\<close> by (simp add: retain_plan_def)
      moreover have "lc_ttl_seconds t = lc_ttl_seconds s" using red by (simp add: reduced_def same_frame_def)
      then have "res = Inr (Some (sort (remdups ev)))" "s' = replace_retained_locked rid (new_retained now r s) t"
        using ret Inr Some f \<open>resource_id r = Inr rid\<close> by (simp_all add: retain_locked_def new_retained_def)
      ultimately show ?thesis using plan red ev by fastforce
    qed
  qed
qed (use ret in \<open>simp add: retain_locked_def\<close>)

section \<open>Retaining a resource\<close>

lemma replace_facts:
  shows replace_map: "map_of (lc_retained (replace_retained_locked rid x s)) = (map_of (lc_retained s))(rid \<mapsto> x)"
    and replace_pins: "lc_pins (replace_retained_locked rid x s) = lc_pins s"
    and replace_frame: "same_frame s (replace_retained_locked rid x s)"
    and replace_children: "lc_children (replace_retained_locked rid x s) = link (previous_id (rt_response x)) rid
        (if rid \<in> lc_ids s then unlink (lc_parent s rid) rid (lc_children s) else lc_children s)"
proof -
  have m: "map_of (lc_retained s) rid = None \<longleftrightarrow> rid \<notin> lc_ids s" by (simp only: not_in_keys_iff)
  show "map_of (lc_retained (replace_retained_locked rid x s)) = (map_of (lc_retained s))(rid \<mapsto> x)"
    by (auto simp: replace_retained_locked_def Let_def dict_simps split: option.splits)
  show "lc_pins (replace_retained_locked rid x s) = lc_pins s"
    by (simp add: replace_retained_locked_def Let_def split: option.splits)
  show "same_frame s (replace_retained_locked rid x s)"
    by (simp add: replace_retained_locked_def Let_def same_frame_def split: option.splits)
  show "lc_children (replace_retained_locked rid x s) = link (previous_id (rt_response x)) rid
        (if rid \<in> lc_ids s then unlink (lc_parent s rid) rid (lc_children s) else lc_children s)"
    by (cases "map_of (lc_retained s) rid")
      (use m in \<open>auto simp: replace_retained_locked_def Let_def lc_parent_def\<close>)
qed

lemma replace_ids: "lc_ids (replace_retained_locked rid x s) = insert rid (lc_ids s)"
  by (auto simp: in_keys_iff set_eq_iff replace_map)

lemma replace_parent: "lc_parent (replace_retained_locked rid x s) = (lc_parent s)(rid := previous_id (rt_response x))"
  by (auto simp: lc_parent_def replace_map fun_eq_iff)

lemma replace_linked:
  assumes "lc_linked s" and "\<And>q. previous_id (rt_response x) = Some q \<Longrightarrow> q \<in> insert rid (lc_ids s)"
  shows "lc_linked (replace_retained_locked rid x s)"
  using linked_relink [of "lc_ids s" "lc_parent s" "lc_children s" "previous_id (rt_response x)" rid] assms
  unfolding lc_linked_def replace_ids replace_parent replace_children by blast

lemma dict_sum_replace:
  assumes "distinct (map fst d)"
  shows "dict_sum w (AList.update k v (AList.delete k d))
    = dict_sum w d - (case map_of d k of None \<Rightarrow> 0 | Some u \<Rightarrow> w u) + w v"
proof (cases "map_of d k")
  case None
  then have "k \<notin> fst ` set d" by (simp only: not_in_keys_iff)
  then show ?thesis using None by (simp add: delete_absent dict_sum_update_absent)
next
  case (Some u)
  have "k \<notin> fst ` set (AList.delete k d)" by (simp add: dict_simps)
  then show ?thesis using Some dict_sum_delete [OF assms Some, of w] by (simp add: dict_sum_update_absent)
qed

lemma replace_retained_list:
  "lc_retained (replace_retained_locked rid x s)
    = move_to_end rid (AList.update rid x (AList.delete rid (lc_retained s)))"
  "lc_estimated_bytes (replace_retained_locked rid x s) = lc_estimated_bytes s
     - (case map_of (lc_retained s) rid of None \<Rightarrow> 0 | Some u \<Rightarrow> rt_estimated_bytes u) + rt_estimated_bytes x"
proof -
  show "lc_retained (replace_retained_locked rid x s)
    = move_to_end rid (AList.update rid x (AList.delete rid (lc_retained s)))"
  proof (cases "map_of (lc_retained s) rid")
    case None
    then have "rid \<notin> lc_ids s" by (simp only: not_in_keys_iff)
    then show ?thesis using None by (simp add: replace_retained_locked_def Let_def delete_absent)
  qed (simp add: replace_retained_locked_def Let_def)
  show "lc_estimated_bytes (replace_retained_locked rid x s) = lc_estimated_bytes s
     - (case map_of (lc_retained s) rid of None \<Rightarrow> 0 | Some u \<Rightarrow> rt_estimated_bytes u) + rt_estimated_bytes x"
    by (simp add: replace_retained_locked_def Let_def split: option.splits)
qed

lemma replace_sum:
  assumes "distinct (dict_keys (lc_retained s))"
  shows "dict_sum w (lc_retained (replace_retained_locked rid x s)) = dict_sum w (lc_retained s)
      - (case map_of (lc_retained s) rid of None \<Rightarrow> 0 | Some u \<Rightarrow> w u) + w x"
    and "distinct (dict_keys (lc_retained (replace_retained_locked rid x s)))"
proof -
  have d: "distinct (dict_keys (AList.update rid x (AList.delete rid (lc_retained s))))"
    using assms by simp
  then show "distinct (dict_keys (lc_retained (replace_retained_locked rid x s)))"
    by (simp only: replace_retained_list distinct_move_to_end)
  show "dict_sum w (lc_retained (replace_retained_locked rid x s)) = dict_sum w (lc_retained s)
      - (case map_of (lc_retained s) rid of None \<Rightarrow> 0 | Some u \<Rightarrow> w u) + w x"
    by (simp only: replace_retained_list dict_sum_move_to_end [OF d] dict_sum_replace [OF assms])
qed

lemma length_as_sum: "int (length d) = dict_sum (\<lambda>_. 1) d"
  by (simp add: dict_sum_def comp_def sum_list_triv)

lemma replace_ok:
  assumes inv: "lc_inv s" and plan: "retain_plan s r rid V" and red: "reduced V s t"
  shows "lc_inv (replace_retained_locked rid (new_retained now r s) t)
    \<and> lc_within_budget (replace_retained_locked rid (new_retained now r s) t)"
proof -
  let ?x = "new_retained now r s" and ?u = "replace_retained_locked rid (new_retained now r s) t"
  have t: "lc_inv t" and fr: "same_frame s t" and rt: "lc_retained t = kept V s"
    using red by (simp_all add: reduced_def kept_def)
  have mt: "map_of (lc_retained t) rid = map_of (lc_retained s) rid"
    using plan by (simp add: rt kept_def map_of_filter_keys retain_plan_def)
  have d: "distinct (dict_keys (lc_retained t))" and loc: "lc_local_inv t"
    using t by (simp_all add: lc_inv_def lc_local_inv_def)
  have ok: "retained_ok rid ?x" using plan by (simp add: retained_ok_def new_retained_def retain_plan_def)
  have "lc_local_inv ?u"
    using loc ok replace_sum(2) [OF d, of rid ?x] replace_sum(1) [OF d, of rt_estimated_bytes rid ?x]
      same_frameD [OF replace_frame [of t rid ?x]]
    by (simp add: lc_local_inv_def replace_map replace_retained_list(2) del: map_of_eq_Some_iff)
  moreover have "lc_linked ?u"
  proof (rule replace_linked)
    show "lc_linked t" using t by (simp add: lc_inv_def)
    show "q \<in> insert rid (lc_ids t)" if "previous_id (rt_response ?x) = Some q" for q
      using plan that reduced_ids [OF red] by (auto simp: new_retained_def retain_plan_def)
  qed
  moreover have "lc_active_inv ?u"
    using t active_inv_frame [OF replace_frame] by (simp add: lc_inv_def)
  moreover have "lc_within_budget ?u"
  proof -
    have fit: "fits_after s r rid V" using plan by (simp add: retain_plan_def)
    have "lc_estimated_bytes t = dict_sum rt_estimated_bytes (lc_retained t)"
      using loc by (simp add: lc_local_inv_def)
    then have "lc_estimated_bytes ?u \<le> lc_max_total_bytes s"
      using fit by (simp add: replace_retained_list(2) rt mt [unfolded rt] fits_after_def new_retained_def)
    moreover have "int (length (lc_retained ?u)) \<le> lc_max_records s"
    proof (cases "map_of (lc_retained s) rid")
      case None
      then have "rid \<notin> lc_ids s" by (simp only: not_in_keys_iff)
      then show ?thesis using fit None
        by (simp add: length_as_sum replace_sum(1) [OF d] mt rt [symmetric] fits_after_def)
    next
      case (Some y)
      then have "rid \<in> lc_ids s" unfolding in_keys_iff by blast
      then show ?thesis using fit Some
        by (simp add: length_as_sum replace_sum(1) [OF d] mt rt [symmetric] fits_after_def)
    qed
    ultimately show ?thesis
      using same_frameD [OF same_frame_trans [OF fr replace_frame]] by (simp add: lc_within_budget_def)
  qed
  ultimately show ?thesis by (simp add: lc_inv_def)
qed

lemma retain_ok:
  assumes "lc_inv s \<and> lc_within_budget s"
  shows "lc_inv (snd (retain_locked r now s)) \<and> lc_within_budget (snd (retain_locked r now s))"
  using retain_outcome [of s r now "fst (retain_locked r now s)" "snd (retain_locked r now s)"]
    replace_ok assms by auto

lemma retain_frame:
  assumes "lc_inv s"
  shows "same_frame s (snd (retain_locked r now s))"
  using retain_outcome [of s r now "fst (retain_locked r now s)" "snd (retain_locked r now s)"]
    same_frame_trans [OF _ replace_frame] assms by (auto simp: reduced_def)

section \<open>Histories\<close>

datatype lc_op =
    LPinChain string | LUnpinChain "string list" | LCanRetain response
  | LRegister response session_ref bool | LUpdate string response | LFinish string response
  | LAbandon string | LDiscard string | LRetrieve string | LPrepare string
  | LCommit prepared_cancellation | LStats

primrec lc_step :: "seconds \<Rightarrow> lc_op \<Rightarrow> lifecycle \<Rightarrow> lifecycle" where
  "lc_step now (LPinChain rid) s = snd (lc_pin_chain now rid s)"
| "lc_step now (LUnpinChain rids) s = lc_unpin_chain rids s"
| "lc_step now (LCanRetain r) s = snd (can_retain now r s)"
| "lc_step now (LRegister r session retain) s = snd (lc_register_active now r session retain s)"
| "lc_step now (LUpdate rid r) s = lc_update_active rid r s"
| "lc_step now (LFinish rid r) s = snd (finish_with_evictions now rid r s)"
| "lc_step now (LAbandon rid) s = lc_abandon rid s"
| "lc_step now (LDiscard rid) s = snd (lc_discard rid s)"
| "lc_step now (LRetrieve rid) s = snd (lc_retrieve now rid s)"
| "lc_step now (LPrepare rid) s = snd (prepare_cancel now rid s)"
| "lc_step now (LCommit p) s = snd (commit_prepared_cancel_with_evictions now p s)"
| "lc_step now LStats s = snd (lc_stats now s)"

definition lc_run :: "(seconds \<times> lc_op) list \<Rightarrow> lifecycle \<Rightarrow> lifecycle" where
  "lc_run ops s = fold (\<lambda>(now, op). lc_step now op) ops s"

abbreviation lc_ok :: "lifecycle \<Rightarrow> bool" where
  "lc_ok s \<equiv> lc_inv s \<and> lc_within_budget s"

text \<open>Changes of the active side leave the retained side alone, and conversely.\<close>

definition same_retained :: "lifecycle \<Rightarrow> lifecycle \<Rightarrow> bool" where
  "same_retained s t \<longleftrightarrow> lc_max_records t = lc_max_records s \<and> lc_ttl_seconds t = lc_ttl_seconds s
     \<and> lc_max_total_bytes t = lc_max_total_bytes s \<and> lc_retained t = lc_retained s
     \<and> lc_children t = lc_children s \<and> lc_estimated_bytes t = lc_estimated_bytes s"

lemma same_retained_ok: "same_retained s t \<Longrightarrow> lc_active_inv t \<Longrightarrow> lc_ok s \<Longrightarrow> lc_ok t"
proof -
  assume e: "same_retained s t" and act: "lc_active_inv t" and ok: "lc_ok s"
  have "lc_parent t = lc_parent s" using e by (simp add: fun_eq_iff lc_parent_def same_retained_def)
  then show ?thesis using e act ok
    by (simp add: same_retained_def lc_inv_def lc_local_inv_def lc_linked_def lc_within_budget_def)
qed

lemma same_retained_inv: "same_retained s t \<Longrightarrow> lc_active_inv t \<Longrightarrow> lc_inv s \<Longrightarrow> lc_inv t"
proof -
  assume e: "same_retained s t" and act: "lc_active_inv t" and ok: "lc_inv s"
  have "lc_parent t = lc_parent s" using e by (simp add: fun_eq_iff lc_parent_def same_retained_def)
  then show ?thesis using e act ok
    by (simp add: same_retained_def lc_inv_def lc_local_inv_def lc_linked_def)
qed

lemma same_retained_simps [simp]:
  "same_retained s s"
  "same_retained s (s\<lparr>lc_active := act\<rparr>)" "same_retained s (s\<lparr>lc_pins := pins\<rparr>)"
  "same_retained s (s\<lparr>lc_heap := h, lc_active := act\<rparr>)"
  "same_retained s (update_object a f s)" "same_retained s (settle_active rid a r s)"
  by (simp_all add: same_retained_def update_object_def settle_active_def)

lemma active_ref_in: "map_of (lc_active s) rid = Some a \<Longrightarrow> a \<in> active_refs s"
  by (force simp: active_refs_def dest: map_of_SomeD)

lemma active_ref: "lc_active_inv s \<Longrightarrow> map_of (lc_active s) rid = Some a \<Longrightarrow> live_object (lc_heap s) a"
  using active_ref_in by (simp add: lc_active_inv_def)

lemma active_refs_delete:
  "active_refs (s\<lparr>lc_active := AList.delete rid (lc_active s)\<rparr>) \<subseteq> active_refs s"
  by (auto simp: active_refs_def set_delete)

lemma active_inv_delete: "lc_active_inv s \<Longrightarrow> lc_active_inv (s\<lparr>lc_active := AList.delete rid (lc_active s)\<rparr>)"
  using active_refs_delete [of rid s]
  by (auto simp: lc_active_inv_def AList.delete_eq intro: distinct_map_filter)

lemma delete_drops_value:
  assumes "distinct (map snd d)" and "map_of d k = Some v"
  shows "v \<notin> snd ` set (AList.delete k d)"
proof
  assume "v \<in> snd ` set (AList.delete k d)"
  then obtain j where j: "(j, v) \<in> set d" "j \<noteq> k" by (auto simp: set_delete)
  have "(k, v) \<in> set d" using assms(2) by (rule map_of_SomeD)
  moreover have "inj_on snd (set d)" using assms(1) by (simp add: distinct_map)
  ultimately show False using j inj_onD [of snd "set d" "(j, v)" "(k, v)"] by simp
qed

text \<open>An object that no identifier names any more may be changed freely.\<close>

lemma active_inv_update:
  assumes inv: "lc_active_inv s"
    and keep: "a \<in> active_refs s \<Longrightarrow> ac_terminal_response (f (lc_heap s ! a)) = ac_terminal_response (lc_heap s ! a)"
  shows "lc_active_inv (update_object a f s)"
proof -
  have refs: "active_refs (update_object a f s) = active_refs s"
    by (simp add: active_refs_def update_object_def)
  have "live_object ((lc_heap s)[a := f (lc_heap s ! a)]) b" if "b \<in> active_refs s" for b
  proof -
    have "live_object (lc_heap s) b" using inv that by (simp add: lc_active_inv_def)
    then show ?thesis using keep that by (cases "b = a") (simp_all add: live_object_def)
  qed
  then show ?thesis using inv refs by (simp add: lc_active_inv_def update_object_def)
qed

lemma active_inv_response:
  "lc_active_inv s \<Longrightarrow> lc_active_inv (update_object a (ac_response_update (\<lambda>_. r)) s)"
  by (rule active_inv_update) simp_all

lemma popped_not_active:
  "lc_active_inv s \<Longrightarrow> map_of (lc_active s) rid = Some a \<Longrightarrow>
    a \<notin> active_refs (s\<lparr>lc_active := AList.delete rid (lc_active s)\<rparr>)"
  using delete_drops_value [of "lc_active s" rid a] by (simp add: lc_active_inv_def active_refs_def)

lemma active_inv_settle:
  assumes "lc_active_inv s" and "map_of (lc_active s) rid = Some a"
  shows "lc_active_inv (settle_active rid a r s)"
  unfolding settle_active_def
  by (rule active_inv_update [OF active_inv_delete [OF assms(1)]])
    (use popped_not_active [OF assms] in simp)

lemma active_inv_register:
  assumes inv: "lc_active_inv s" and new: "map_of (lc_active s) rid = None"
    and obj: "ac_terminal_response obj = None"
  shows "lc_active_inv (s\<lparr>lc_heap := lc_heap s @ [obj],
    lc_active := AList.update rid (length (lc_heap s)) (lc_active s)\<rparr>)"
proof -
  have out: "rid \<notin> fst ` set (lc_active s)" using new by (simp only: not_in_keys_iff)
  have live: "live_object (lc_heap s) a" if "a \<in> active_refs s" for a
    using inv that by (simp add: lc_active_inv_def)
  then have "length (lc_heap s) \<notin> active_refs s" by (auto simp: live_object_def)
  moreover have "live_object (lc_heap s @ [obj]) a" if "a \<in> insert (length (lc_heap s)) (active_refs s)" for a
    using live that obj by (auto simp: live_object_def nth_append)
  ultimately show ?thesis using inv out by (simp add: lc_active_inv_def update_absent active_refs_def)
qed

section \<open>Every operation keeps the invariant\<close>

lemma refresh_facts:
  shows refresh_map: "map_of (lc_retained (refresh_retained now rid s)) y =
      (if y = rid then map_option (rt_expires_at_update (\<lambda>_. now + lc_ttl_seconds s)) (map_of (lc_retained s) y)
       else map_of (lc_retained s) y)"
    and refresh_frame: "same_frame s (refresh_retained now rid s)"
    and refresh_rest: "lc_pins (refresh_retained now rid s) = lc_pins s"
      "lc_children (refresh_retained now rid s) = lc_children s"
      "lc_estimated_bytes (refresh_retained now rid s) = lc_estimated_bytes s"
proof -
  show "map_of (lc_retained (refresh_retained now rid s)) y =
      (if y = rid then map_option (rt_expires_at_update (\<lambda>_. now + lc_ttl_seconds s)) (map_of (lc_retained s) y)
       else map_of (lc_retained s) y)"
    by (cases "map_of (lc_retained s) rid") (simp_all add: refresh_retained_def dict_simps del: map_of_eq_Some_iff)
  show "same_frame s (refresh_retained now rid s)" "lc_pins (refresh_retained now rid s) = lc_pins s"
    "lc_children (refresh_retained now rid s) = lc_children s"
    "lc_estimated_bytes (refresh_retained now rid s) = lc_estimated_bytes s"
    by (simp_all add: refresh_retained_def same_frame_def split: option.splits)
qed

lemma refresh_look: "map_option rt_response (map_of (lc_retained (refresh_retained now rid s)) y)
    = map_option rt_response (map_of (lc_retained s) y)"
  by (simp add: refresh_map option.map_comp comp_def)

lemma refresh_ids [simp]: "lc_ids (refresh_retained now rid s) = lc_ids s"
  by (auto simp: set_eq_iff in_keys_iff refresh_map)

lemma lc_parent_look: "lc_parent s y = (case map_option rt_response (map_of (lc_retained s) y) of
    None \<Rightarrow> None | Some r \<Rightarrow> previous_id r)"
  by (simp add: lc_parent_def split: option.splits)

lemma refresh_parent [simp]: "lc_parent (refresh_retained now rid s) = lc_parent s"
  by (simp only: fun_eq_iff lc_parent_look refresh_look simp_thms)

lemma refresh_list:
  assumes d: "distinct (dict_keys (lc_retained s))"
  shows "distinct (dict_keys (lc_retained (refresh_retained now rid s)))"
    and "length (lc_retained (refresh_retained now rid s)) = length (lc_retained s)"
    and "dict_sum rt_estimated_bytes (lc_retained (refresh_retained now rid s))
      = dict_sum rt_estimated_bytes (lc_retained s)"
proof -
  show "distinct (dict_keys (lc_retained (refresh_retained now rid s)))"
    using d by (simp add: refresh_retained_def split: option.splits)
  have in_ids: "rid \<in> lc_ids s" if "map_of (lc_retained s) rid = Some x" for x
    unfolding in_keys_iff using that by blast
  show "length (lc_retained (refresh_retained now rid s)) = length (lc_retained s)"
    using d in_ids by (simp add: refresh_retained_def length_move_to_end length_update split: option.split)
  show "dict_sum rt_estimated_bytes (lc_retained (refresh_retained now rid s))
      = dict_sum rt_estimated_bytes (lc_retained s)"
    using d by (simp add: refresh_retained_def dict_sum_move_to_end dict_sum_update_same split: option.split)
qed

lemma refresh_ok: "lc_ok s \<Longrightarrow> lc_ok (refresh_retained now rid s)"
proof -
  assume ok: "lc_ok s"
  then have d: "distinct (dict_keys (lc_retained s))" and loc: "lc_local_inv s"
    by (simp_all add: lc_inv_def lc_local_inv_def)
  note fr = same_frameD [OF refresh_frame [of s now rid]]
  have "retained_ok y x" if m: "map_of (lc_retained (refresh_retained now rid s)) y = Some x" for y x
  proof -
    obtain x' where x': "map_of (lc_retained s) y = Some x'"
        "rt_response x = rt_response x'" "rt_estimated_bytes x = rt_estimated_bytes x'"
      using m by (auto simp: refresh_map split: if_splits simp del: map_of_eq_Some_iff)
    then have "retained_ok y x'" using loc by (simp only: lc_local_inv_def)
    then show ?thesis using x' by (simp add: retained_ok_def)
  qed
  then have "lc_local_inv (refresh_retained now rid s)"
    using loc refresh_list [OF d] fr by (simp add: lc_local_inv_def refresh_rest)
  moreover have "lc_linked (refresh_retained now rid s)"
    using ok by (simp add: lc_inv_def lc_linked_def refresh_rest)
  moreover have "lc_active_inv (refresh_retained now rid s)"
    using ok active_inv_frame [OF refresh_frame] by (simp add: lc_inv_def)
  ultimately show ?thesis
    using ok refresh_list(2) [OF d] fr by (simp add: lc_inv_def lc_within_budget_def refresh_rest)
qed

lemma fold_lc_ok: "(\<And>x t. lc_ok t \<Longrightarrow> lc_ok (f x t)) \<Longrightarrow> lc_ok s \<Longrightarrow> lc_ok (fold f xs s)"
  by (induction xs arbitrary: s) auto

lemma pins_ok: "lc_ok s \<Longrightarrow> lc_ok (s\<lparr>lc_pins := pins\<rparr>)"
  by (rule same_retained_ok [of s]) (simp_all add: lc_inv_def lc_active_inv_def active_refs_def)

lemma pin_ok: "lc_ok s \<Longrightarrow> lc_ok (lc_pin_one now rid s)"
  unfolding lc_pin_one_def by (intro refresh_ok pins_ok)

lemma unpin_ok: "lc_ok s \<Longrightarrow> lc_ok (lc_unpin_one rid s)"
  by (simp add: lc_unpin_one_def Let_def pins_ok)

lemma abandon_ok: "lc_ok s \<Longrightarrow> lc_ok (lc_abandon rid s)"
  unfolding lc_abandon_def
  by (rule same_retained_ok [of s]) (simp_all add: lc_inv_def active_inv_delete)

lemma settle_ok:
  "lc_ok s \<Longrightarrow> map_of (lc_active s) rid = Some a \<Longrightarrow> lc_ok (settle_active rid a r s)"
  by (rule same_retained_ok [of s]) (simp_all add: lc_inv_def active_inv_settle)

lemma register_ok:
  "lc_ok s \<Longrightarrow> map_of (lc_active s) rid = None \<Longrightarrow> ac_terminal_response obj = None \<Longrightarrow>
   lc_ok (s\<lparr>lc_heap := lc_heap s @ [obj], lc_active := AList.update rid (length (lc_heap s)) (lc_active s)\<rparr>)"
  by (rule same_retained_ok [of s]) (simp_all only: lc_inv_def active_inv_register same_retained_simps)

lemma update_response_ok: "lc_ok s \<Longrightarrow> lc_ok (update_object a (ac_response_update (\<lambda>_. r)) s)"
  by (rule same_retained_ok [of s]) (simp_all add: lc_inv_def active_inv_response)

lemma finish_ok: "lc_ok s \<Longrightarrow> lc_ok (snd (finish_with_evictions now rid r s))"
proof -
  assume ok: "lc_ok s"
  let ?s = "purge_expired_retained_locked now s"
  have p: "lc_ok ?s" using purge_retained_ok [OF ok] .
  obtain res t where ret: "retain_locked r now ?s = (res, t)" by fastforce
  have t: "lc_ok t" "lc_active t = lc_active ?s"
    using retain_ok [OF p, of r now] retain_frame [of ?s r now] p ret by (simp_all add: same_frame_def)
  show ?thesis
    using p t settle_ok ret by (auto simp: finish_with_evictions_def Let_def split: option.split sum.split)
qed

lemma commit_ok: "lc_ok s \<Longrightarrow> lc_ok (snd (commit_prepared_cancel_with_evictions now p s))"
proof -
  assume ok: "lc_ok s"
  define s1 where "s1 = s\<lparr>lc_active := AList.delete (pc_response_id p) (lc_active s)\<rparr>"
  obtain res t where ret: "retain_locked (pc_cancelled p) now s1 = (res, t)" by fastforce
  show ?thesis
  proof (cases "map_of (lc_active s) (pc_response_id p) = Some (pc_active p)")
    case True
    have s1: "lc_ok s1" using abandon_ok [OF ok] by (simp add: s1_def lc_abandon_def)
    then have t: "lc_ok t" and act: "active_refs t = active_refs s1"
      using retain_ok [OF s1, of "pc_cancelled p" now] retain_frame [of s1 "pc_cancelled p" now] ret
      by (simp_all add: same_frame_def active_refs_def)
    have out: "pc_active p \<notin> active_refs t"
      using popped_not_active [OF _ True] ok act by (simp add: lc_inv_def s1_def)
    have "lc_active_inv (update_object (pc_active p) f t)" for f
      by (rule active_inv_update) (use t out in \<open>simp_all add: lc_inv_def\<close>)
    then have upd: "lc_ok (update_object (pc_active p) f t)" for f
      using same_retained_ok [OF same_retained_simps(5)] t by blast
    have "snd (commit_prepared_cancel_with_evictions now p s) \<in>
        {s1, t, update_object (pc_active p) (ac_terminal_response_update (\<lambda>_. Some (pc_cancelled p))) t}"
      using True ret by (simp add: commit_prepared_cancel_with_evictions_def Let_def s1_def [symmetric]
          split: option.split sum.split)
    then show ?thesis using s1 t upd by auto
  next
    case False
    then show ?thesis using ok
      by (auto simp: commit_prepared_cancel_with_evictions_def Let_def split: option.split)
  qed
qed

lemma lc_step_ok: "lc_ok s \<Longrightarrow> lc_ok (lc_step now op s)"
proof -
  assume ok: "lc_ok s"
  have p: "lc_ok (purge_expired_retained_locked now s)" using purge_retained_ok [OF ok] .
  show ?thesis
  proof (cases op)
    case (LPinChain rid)
    have "lc_ok (fold (lc_pin_one now) xs (purge_expired_retained_locked now s))" for xs
      by (rule fold_lc_ok) (use p pin_ok in auto)
    then show ?thesis using LPinChain ok p by (auto simp: lc_pin_chain_def Let_def split: option.split)
  next
    case (LUnpinChain rids)
    have "lc_ok (fold lc_unpin_one rids s)" by (rule fold_lc_ok) (use ok unpin_ok in auto)
    then show ?thesis using LUnpinChain by (simp add: lc_unpin_chain_def)
  next
    case (LRegister r session retain)
    have "lc_ok (snd (lc_register_active now r session retain s))"
    proof (cases "resource_id r")
      case (Inr rid)
      show ?thesis
      proof (cases "map_of (lc_active (purge_expired_retained_locked now s)) rid")
        case None
        then show ?thesis using Inr register_ok [OF p None] by (simp add: lc_register_active_def Let_def)
      qed (use Inr p in \<open>simp add: lc_register_active_def Let_def\<close>)
    qed (use ok in \<open>simp add: lc_register_active_def\<close>)
    then show ?thesis using LRegister by simp
  next
    case (LUpdate rid r)
    then show ?thesis using ok update_response_ok by (simp add: lc_update_active_def split: option.split)
  next
    case (LDiscard rid)
    have "lc_ok (drop_subtree rid (lc_abandon rid s))"
      using abandon_ok [OF ok] drop_inv drop_budget by blast
    then show ?thesis using LDiscard ok by (simp add: lc_discard_def)
  next
    case (LRetrieve rid)
    then show ?thesis using ok p refresh_ok by (simp add: lc_retrieve_def Let_def split: option.split)
  next
    case (LPrepare rid)
    then show ?thesis using ok p by (simp add: prepare_cancel_def Let_def split: option.split)
  qed (use ok p finish_ok commit_ok abandon_ok in \<open>auto simp: can_retain_def lc_stats_def Let_def\<close>)
qed

lemma lc_run_ok: "lc_ok s \<Longrightarrow> lc_ok (lc_run ops s)"
  unfolding lc_run_def by (rule fold_lc_ok) (simp only: split_beta lc_step_ok simp_thms, simp)

end
