(* ===== verification/Lifecycle_Properties.thy ===== *)
theory Lifecycle_Properties
  imports Lifecycle_Invariant
begin

text \<open>
  The properties of the Response registry, with runs of the model on small resources
  (\<open>ex_resource\<close>) where their hypotheses hold.
\<close>

definition ex_resource :: "string \<Rightarrow> json \<Rightarrow> string \<Rightarrow> response" where
  "ex_resource rid parent status = [(''id'', JStr rid), (''previous_response_id'', parent),
     (''status'', JStr status)]"

definition ex_lifecycle :: "int \<Rightarrow> lifecycle" where
  "ex_lifecycle n = \<lparr>lc_max_records = n, lc_ttl_seconds = 10, lc_max_total_bytes = 1000,
     lc_heap = [], lc_active = [], lc_retained = [], lc_children = [], lc_pins = [],
     lc_estimated_bytes = 0\<rparr>"

lemma ex_lifecycle_new: "0 < n \<Longrightarrow> new_lifecycle n 10 1000 = Inr (ex_lifecycle n)"
  by (simp add: new_lifecycle_def ex_lifecycle_def)

definition ex_two :: lifecycle where
  "ex_two = \<lparr>lc_max_records = 2, lc_ttl_seconds = 10, lc_max_total_bytes = 1000,
     lc_heap = [\<lparr>ac_response = ex_resource ''a'' JNull ''queued'', ac_session = 7, ac_retain = True,
        ac_terminal_response = Some (ex_resource ''a'' JNull ''completed'')\<rparr>,
       \<lparr>ac_response = ex_resource ''b'' (JStr ''a'') ''queued'', ac_session = 8, ac_retain = True,
        ac_terminal_response = None\<rparr>],
     lc_active = [(''b'', 1)],
     lc_retained = [(''a'', \<lparr>rt_response = ex_resource ''a'' JNull ''completed'',
        rt_estimated_bytes = 59, rt_expires_at = 11\<rparr>)],
     lc_children = [], lc_pins = [], lc_estimated_bytes = 59\<rparr>"

lemma ex_two_run: "ex_two = lc_run [(0, LRegister (ex_resource ''a'' JNull ''queued'') 7 True),
     (1, LFinish ''a'' (ex_resource ''a'' JNull ''completed'')),
     (2, LRegister (ex_resource ''b'' (JStr ''a'') ''queued'') 8 True)] (ex_lifecycle 2)"
  by code_simp

lemma ex_two_inv: "lc_inv ex_two"
  unfolding ex_two_run using lc_run_ok new_lifecycle_inv [OF ex_lifecycle_new [of 2]] by simp

text \<open>C4. However the registry is used, its retained identifiers, children index, parent links
  and byte count stay consistent, every retained resource has its parent retained, the record and
  byte budgets hold, and no two identifiers share an active object.\<close>
theorem lc_history_invariant:
  assumes "new_lifecycle max_records ttl max_bytes = Inr s"
  shows "lc_inv (lc_run ops s) \<and> lc_within_budget (lc_run ops s)"
  using lc_run_ok new_lifecycle_inv [OF assms] by blast

theorem lc_history_invariant_witness: "lc_inv ex_two \<and> lc_within_budget ex_two"
  unfolding ex_two_run by (rule lc_history_invariant [OF ex_lifecycle_new]) simp

text \<open>C5. When finishing an active retained response succeeds, the registry holds exactly its
  final resource under its identifier, with a full time to live, the identifier is no longer
  active, its parent is retained, and the reported evictions are exactly the retained identifiers
  that disappeared - none of them pinned.\<close>
theorem finish_retains:
  assumes inv: "lc_inv s0" and active: "map_of (lc_active s0) rid = Some a" "ac_retain (lc_heap s0 ! a)"
    and id: "resource_id r = Inr rid"
    and fin: "finish_with_evictions now rid r s0 = (Inr (True, evicted), s')"
  shows "map_of (lc_retained s') rid = Some \<lparr>rt_response = r, rt_estimated_bytes = estimate_wire_bytes r,
      rt_expires_at = now + lc_ttl_seconds s0\<rparr>
    \<and> map_of (lc_active s') rid = None
    \<and> (\<forall>p. previous_id r = Some p \<longrightarrow> p \<in> lc_ids s')
    \<and> set evicted = lc_ids (purge_expired_retained_locked now s0) - lc_ids s'
    \<and> (\<forall>y\<in>set evicted. lc_pin_count (purge_expired_retained_locked now s0) y \<le> 0)"
proof -
  let ?s = "purge_expired_retained_locked now s0"
  have inv1: "lc_inv ?s" using inv by (rule purge_retained_inv)
  note fr = same_frameD [OF purge_retained_frame [of s0 now]]
  obtain res t where ret: "retain_locked r now ?s = (res, t)" by fastforce
  then have res: "res = Inr (Some evicted)" and s': "s' = settle_active rid a r t"
    using fin active fr
    by (auto simp: finish_with_evictions_def Let_def split: sum.splits option.splits prod.splits)
  from retain_outcome [OF inv1 ret] obtain V u ev where plan: "retain_plan ?s r rid V"
    and red: "reduced V ?s u" and ev: "set evicted = V"
    and t: "t = replace_retained_locked rid (new_retained now r ?s) u"
    using res id by (auto simp: retain_plan_def)
  have same: "lc_retained s' = lc_retained t" "lc_active s' = AList.delete rid (lc_active t)"
    by (simp_all add: s' settle_active_def update_object_def)
  have V: "V \<subseteq> lc_ids ?s" "rid \<notin> V" "\<forall>p. previous_id r = Some p \<longrightarrow> p \<in> lc_ids ?s - V"
    "\<forall>y\<in>V. lc_pin_count ?s y \<le> 0" using plan by (simp_all add: retain_plan_def)
  have ids: "lc_ids s' = insert rid (lc_ids ?s - V)"
    using reduced_ids [OF red] by (simp add: same t replace_ids)
  have "map_of (lc_retained s') rid = Some (new_retained now r ?s)"
    by (simp add: same t replace_map)
  moreover have "map_of (lc_active s') rid = None" by (simp add: same dict_simps)
  moreover have "V = lc_ids ?s - lc_ids s'" using V(1,2) ids by auto
  ultimately show ?thesis using V ids ev fr(2) by (auto simp: new_retained_def)
qed

theorem finish_retains_witness:
  "map_of (lc_retained (snd (finish_with_evictions 3 ''b'' (ex_resource ''b'' (JStr ''a'') ''completed'') ex_two))) ''b''
    = Some \<lparr>rt_response = ex_resource ''b'' (JStr ''a'') ''completed'',
        rt_estimated_bytes = 58, rt_expires_at = 13\<rparr>"
proof -
  let ?r = "ex_resource ''b'' (JStr ''a'') ''completed''"
  have f: "finish_with_evictions 3 ''b'' ?r ex_two = (Inr (True, []), snd (finish_with_evictions 3 ''b'' ?r ex_two))"
    by (rule pair_of_fst) code_simp
  have "map_of (lc_active ex_two) ''b'' = Some 1" "ac_retain (lc_heap ex_two ! 1)"
    "resource_id ?r = Inr ''b''" "estimate_wire_bytes ?r = 58" "lc_ttl_seconds ex_two = 10"
    by code_simp+
  then show ?thesis using finish_retains [OF ex_two_inv _ _ _ f] by simp
qed

text \<open>The heap of active objects: an object that no identifier names is never written again.\<close>

lemma retain_heap: "lc_inv s \<Longrightarrow> lc_heap (snd (retain_locked r now s)) = lc_heap s"
  by (rule same_frameD [OF retain_frame])

lemma retain_active: "lc_inv s \<Longrightarrow> lc_active (snd (retain_locked r now s)) = lc_active s"
  by (rule same_frameD [OF retain_frame])

lemma purge_heap: "lc_heap (purge_expired_retained_locked now s) = lc_heap s"
  by (rule same_frameD [OF purge_retained_frame])

lemma purge_active: "lc_active (purge_expired_retained_locked now s) = lc_active s"
  by (rule same_frameD [OF purge_retained_frame])

definition heap_keeps :: "lifecycle \<Rightarrow> lifecycle \<Rightarrow> bool" where
  "heap_keeps s t \<longleftrightarrow> (\<forall>b. b < length (lc_heap s) \<and> b \<notin> active_refs s \<longrightarrow>
     b < length (lc_heap t) \<and> lc_heap t ! b = lc_heap s ! b)"

lemma heap_keeps_same: "lc_heap t = lc_heap s \<Longrightarrow> heap_keeps s t"
  by (simp add: heap_keeps_def)

lemma heap_keeps_update:
  "lc_heap t = (lc_heap s)[a := x] \<Longrightarrow> a \<in> active_refs s \<Longrightarrow> heap_keeps s t"
  by (auto simp: heap_keeps_def) (metis nth_list_update_neq)

lemma finish_heap:
  assumes "lc_inv s"
  shows "heap_keeps s (snd (finish_with_evictions now rid r s))"
proof -
  let ?s = "purge_expired_retained_locked now s"
  have inv: "lc_inv ?s" using assms by (rule purge_retained_inv)
  obtain res t where ret: "retain_locked r now ?s = (res, t)" by fastforce
  then have t: "lc_heap t = lc_heap s" using retain_heap [OF inv, of r now] purge_heap by simp
  show ?thesis
  proof (cases "map_of (lc_active s) rid")
    case None
    then show ?thesis using ret t
      by (intro heap_keeps_same)
        (simp add: finish_with_evictions_def Let_def purge_heap purge_active split: option.split sum.split)
  next
    case (Some a)
    have u: "lc_heap u = (lc_heap s)[a := f (lc_heap s ! a)] \<Longrightarrow> heap_keeps s u" for f u
      using heap_keeps_update active_ref_in [OF Some] by blast
    have same: "lc_heap u = lc_heap s \<Longrightarrow> heap_keeps s u" for u by (rule heap_keeps_same)
    show ?thesis
    proof (cases "ac_retain (lc_heap s ! a)")
      case True
      then have "snd (finish_with_evictions now rid r s) \<in> {t, settle_active rid a r t}"
        using Some ret
        by (simp add: finish_with_evictions_def Let_def purge_heap purge_active split: option.split sum.split)
      then show ?thesis using u [of "settle_active rid a r t"] same [of t] t
        by (auto simp: settle_active_def update_object_def)
    next
      case False
      then have "snd (finish_with_evictions now rid r s) = settle_active rid a r ?s"
        using Some by (simp add: finish_with_evictions_def Let_def purge_heap purge_active)
      then show ?thesis using u [of "settle_active rid a r ?s"]
        by (simp add: settle_active_def update_object_def purge_heap)
    qed
  qed
qed

lemma commit_heap:
  assumes "lc_inv s"
  shows "heap_keeps s (snd (commit_prepared_cancel_with_evictions now p s))"
proof (cases "map_of (lc_active s) (pc_response_id p) = Some (pc_active p)")
  case True
  define s1 where "s1 = s\<lparr>lc_active := AList.delete (pc_response_id p) (lc_active s)\<rparr>"
  obtain res t where ret: "retain_locked (pc_cancelled p) now s1 = (res, t)" by fastforce
  have "lc_inv s1" unfolding s1_def using assms
    using same_retained_inv [OF same_retained_simps(2) active_inv_delete] by (simp add: lc_inv_def)
  from retain_heap [OF this, of "pc_cancelled p" now] have t: "lc_heap t = lc_heap s"
    using ret by (simp add: s1_def)
  have "snd (commit_prepared_cancel_with_evictions now p s) \<in>
      {s1, t, update_object (pc_active p) (ac_terminal_response_update (\<lambda>_. Some (pc_cancelled p))) t}"
    using True ret by (simp add: commit_prepared_cancel_with_evictions_def Let_def s1_def [symmetric]
        split: option.split sum.split)
  moreover have "heap_keeps s s1" "heap_keeps s t" using t by (simp_all add: heap_keeps_same s1_def)
  moreover have "heap_keeps s (update_object (pc_active p) f t)" for f
    by (rule heap_keeps_update [OF _ active_ref_in [OF True]]) (simp add: update_object_def t)
  ultimately show ?thesis by auto
next
  case False
  then show ?thesis
    by (intro heap_keeps_same)
      (simp add: commit_prepared_cancel_with_evictions_def Let_def split: option.split)
qed

lemma fold_heap: "(\<And>x t. lc_heap (f x t) = lc_heap t) \<Longrightarrow> lc_heap (fold f xs s) = lc_heap s"
  by (induction xs arbitrary: s) auto

lemma refresh_heap: "lc_heap (refresh_retained now rid s) = lc_heap s"
  by (rule same_frameD [OF refresh_frame])

lemma drop_heap: "lc_heap (drop_subtree rid s) = lc_heap s"
  by (rule same_frameD [OF drop_frame])

lemma step_heap:
  assumes "lc_inv s"
  shows "heap_keeps s (lc_step now op s)"
proof (cases op)
  case (LPinChain rid)
  have "lc_heap (fold (lc_pin_one now) xs t) = lc_heap t" for xs t
    by (rule fold_heap) (simp add: lc_pin_one_def refresh_heap)
  then show ?thesis using LPinChain
    by (intro heap_keeps_same) (simp add: lc_pin_chain_def Let_def purge_heap split: option.split)
next
  case (LUnpinChain rids)
  have "lc_heap (fold lc_unpin_one xs t) = lc_heap t" for xs t
    by (rule fold_heap) (simp add: lc_unpin_one_def Let_def)
  then show ?thesis using LUnpinChain by (intro heap_keeps_same) (simp add: lc_unpin_chain_def)
next
  case (LRegister r session retain)
  then show ?thesis
    by (auto simp: heap_keeps_def lc_register_active_def Let_def purge_heap nth_append split: sum.splits)
next
  case (LUpdate rid r)
  show ?thesis
  proof (cases "map_of (lc_active s) rid")
    case None
    then show ?thesis using LUpdate by (intro heap_keeps_same) (simp add: lc_update_active_def)
  next
    case (Some a)
    then show ?thesis using LUpdate
      by (intro heap_keeps_update [OF _ active_ref_in [OF Some]])
        (simp add: lc_update_active_def update_object_def)
  qed
next
  case (LPrepare rid)
  then show ?thesis
    by (intro heap_keeps_same) (simp add: prepare_cancel_def Let_def purge_heap split: option.split)
next
  case (LRetrieve rid)
  then show ?thesis
    by (intro heap_keeps_same)
      (simp add: lc_retrieve_def Let_def purge_heap refresh_heap split: option.split)
qed (use finish_heap [OF assms] commit_heap [OF assms] in
    \<open>auto intro!: heap_keeps_same simp: can_retain_def lc_stats_def lc_abandon_def lc_discard_def Let_def
      purge_heap drop_heap\<close>)

definition settled :: "nat \<Rightarrow> response \<Rightarrow> lifecycle \<Rightarrow> bool" where
  "settled a r s \<longleftrightarrow> a < length (lc_heap s) \<and> ac_terminal_response (lc_heap s ! a) = Some r"

lemma settled_inactive: "lc_inv s \<Longrightarrow> settled a r s \<Longrightarrow> a \<notin> active_refs s"
  by (auto simp: lc_inv_def lc_active_inv_def live_object_def settled_def)

lemma settled_run: "lc_ok s \<Longrightarrow> settled a r s \<Longrightarrow> settled a r (lc_run ops s)"
proof (induction ops arbitrary: s)
  case Nil
  then show ?case by (simp add: lc_run_def)
next
  case (Cons x ops)
  obtain now op where x: "x = (now, op)" by fastforce
  have ok: "lc_ok (lc_step now op s)" using lc_step_ok [OF Cons.prems(1)] .
  have "heap_keeps s (lc_step now op s)" using Cons.prems(1) by (intro step_heap) simp
  then have "settled a r (lc_step now op s)"
    using Cons.prems settled_inactive [of s a r] by (simp add: heap_keeps_def settled_def)
  with Cons.IH [OF ok] show ?case by (simp add: x lc_run_def)
qed

text \<open>A cancellation that loses the race returns the winner: when an active response was
  prepared for cancellation and was then finished (or refused retention) before the cancellation
  commits, then whatever else happens to the registry in between, the commit changes nothing and
  returns the resource the finish recorded, without evictions.\<close>
theorem cancel_after_finish:
  assumes ok: "lc_inv s0 \<and> lc_within_budget s0"
    and prep: "prepare_cancel now rid s0 = (Inr (p, retain), s1)"
    and still: "map_of (lc_active (lc_run ops s1)) rid = Some (pc_active p)"
    and fin: "finish_with_evictions later rid r (lc_run ops s1) = (Inr res, s2)"
  shows "commit_prepared_cancel_with_evictions latest p (lc_run ops' s2) = (Inr (r, []), lc_run ops' s2)"
proof -
  have ok1: "lc_ok s1" using lc_step_ok [OF ok, of now "LPrepare rid"] prep by simp
  have rid: "pc_response_id p = rid"
    using prep by (auto simp: prepare_cancel_def Let_def split: if_splits option.splits)
  let ?t = "lc_run ops s1" and ?u = "purge_expired_retained_locked later (lc_run ops s1)"
  have t: "lc_ok ?t" using ok1 by (rule lc_run_ok)
  have inv: "lc_inv ?u" using t by (blast intro: purge_retained_inv)
  obtain q v where ret: "retain_locked r later ?u = (q, v)" by fastforce
  have "s2 \<in> {settle_active rid (pc_active p) r v, settle_active rid (pc_active p) r ?u}"
    using fin still ret
    by (auto simp: finish_with_evictions_def Let_def purge_heap purge_active
        split: if_splits sum.splits option.splits)
  moreover have "lc_heap v = lc_heap ?t"
    using retain_heap [OF inv, of r later] ret by (simp add: purge_heap)
  moreover have "pc_active p < length (lc_heap ?t)"
    using active_ref [OF _ still] t by (simp add: lc_inv_def live_object_def)
  ultimately have set2: "settled (pc_active p) r s2"
    by (auto simp: settled_def settle_active_def update_object_def purge_heap)
  have "lc_ok s2" using lc_step_ok [OF t, of later "LFinish rid r"] fin by simp
  then have u: "lc_ok (lc_run ops' s2)" and set3: "settled (pc_active p) r (lc_run ops' s2)"
    using lc_run_ok settled_run [OF _ set2] by simp_all
  have "map_of (lc_active (lc_run ops' s2)) rid \<noteq> Some (pc_active p)"
    using settled_inactive [OF _ set3] u active_ref_in by blast
  then show ?thesis using set3 rid
    by (simp add: commit_prepared_cancel_with_evictions_def Let_def settled_def)
qed

theorem cancel_after_finish_witness:
  "\<exists>p s1 s2. prepare_cancel 3 ''b'' ex_two = (Inr (p, True), s1)
    \<and> commit_prepared_cancel_with_evictions 5 p (lc_run [(4, LDiscard ''a'')] s2)
      = (Inr (ex_resource ''b'' (JStr ''a'') ''completed'', []), lc_run [(4, LDiscard ''a'')] s2)"
proof -
  let ?p = "\<lparr>pc_response_id = ''b'', pc_active = 1,
      pc_cancelled = cancelled_wire (ex_resource ''b'' (JStr ''a'') ''queued'')\<rparr>"
  let ?r = "ex_resource ''b'' (JStr ''a'') ''completed''"
  have ok: "lc_inv ex_two \<and> lc_within_budget ex_two"
    unfolding ex_two_run using lc_run_ok new_lifecycle_inv [OF ex_lifecycle_new [of 2]] by simp
  have prep: "prepare_cancel 3 ''b'' ex_two = (Inr (?p, True), ex_two)" by code_simp
  have still: "map_of (lc_active (lc_run [] ex_two)) ''b'' = Some (pc_active ?p)" by code_simp
  have "finish_with_evictions 3 ''b'' ?r ex_two = (Inr (True, []), snd (finish_with_evictions 3 ''b'' ?r ex_two))"
    by (rule pair_of_fst) code_simp
  then have fin: "finish_with_evictions 3 ''b'' ?r (lc_run [] ex_two)
      = (Inr (True, []), snd (finish_with_evictions 3 ''b'' ?r ex_two))" by (simp add: lc_run_def)
  show ?thesis using cancel_after_finish [OF ok prep still fin] prep by blast
qed

text \<open>What is pinned is neither purged nor evicted.\<close>

definition pinned_retained :: "string \<Rightarrow> lifecycle \<Rightarrow> bool" where
  "pinned_retained y s \<longleftrightarrow> y \<in> lc_ids s \<and> 0 < lc_pin_count s y"

lemma pinned_retained_purge: "pinned_retained y s \<Longrightarrow> pinned_retained y (purge_expired_retained_locked now s)"
  by (rule purge_retained_induct) (auto simp: pinned_retained_def drop_ids drop_pins)

lemma pinned_retained_refresh: "pinned_retained y s \<Longrightarrow> pinned_retained y (refresh_retained now rid s)"
  by (simp add: pinned_retained_def lc_pin_count_def refresh_rest)

lemma pinned_retained_retain:
  assumes inv: "lc_inv s" and p: "pinned_retained y s"
  shows "pinned_retained y (snd (retain_locked r now s))"
proof -
  have "pinned_retained y (replace_retained_locked rid x t)" if "retain_plan s r rid V" "reduced V s t" for rid V t x
  proof -
    have "y \<notin> V" using that(1) p by (auto simp: retain_plan_def pinned_retained_def)
    then have "pinned_retained y t"
      using p that(2) reduced_ids [OF that(2)] by (simp add: pinned_retained_def reduced_def)
    then show ?thesis by (simp add: pinned_retained_def replace_ids replace_pins lc_pin_count_def)
  qed
  then show ?thesis
    using retain_outcome [OF inv, of r now "fst (retain_locked r now s)" "snd (retain_locked r now s)"] p by auto
qed

definition lc_op_spares :: "string \<Rightarrow> lc_op \<Rightarrow> bool" where
  "lc_op_spares y op = (case op of LDiscard _ \<Rightarrow> False | LUnpinChain rids \<Rightarrow> y \<notin> set rids | _ \<Rightarrow> True)"

lemma pinned_retained_active:
  "lc_retained t = lc_retained s \<Longrightarrow> lc_pins t = lc_pins s \<Longrightarrow> pinned_retained y s \<Longrightarrow> pinned_retained y t"
  by (simp add: pinned_retained_def lc_pin_count_def)

lemma settle_retained [simp]:
  "lc_retained (settle_active rid a r s) = lc_retained s" "lc_pins (settle_active rid a r s) = lc_pins s"
  "lc_retained (update_object a f s) = lc_retained s" "lc_pins (update_object a f s) = lc_pins s"
  by (simp_all add: settle_active_def update_object_def)

lemma pinned_retained_pin_one: "pinned_retained y s \<Longrightarrow> pinned_retained y (lc_pin_one now rid s)"
  unfolding lc_pin_one_def
  by (rule pinned_retained_refresh) (auto simp: pinned_retained_def lc_pin_count_def dict_simps)

lemma fold_keeps: "(\<And>x t. x \<in> set xs \<Longrightarrow> P t \<Longrightarrow> P (f x t)) \<Longrightarrow> P s \<Longrightarrow> P (fold f xs s)"
  by (induction xs arbitrary: s) auto

lemma pinned_retained_finish:
  assumes "lc_inv s" and "pinned_retained y s"
  shows "pinned_retained y (snd (finish_with_evictions now rid r s))"
proof -
  let ?s = "purge_expired_retained_locked now s"
  have inv: "lc_inv ?s" using assms(1) by (rule purge_retained_inv)
  have p: "pinned_retained y ?s" using assms(2) by (rule pinned_retained_purge)
  obtain q t where ret: "retain_locked r now ?s = (q, t)" by fastforce
  have t: "pinned_retained y t" using pinned_retained_retain [OF inv p, of r now] ret by simp
  have "\<exists>a. snd (finish_with_evictions now rid r s) \<in> {?s, t, settle_active rid a r t, settle_active rid a r ?s}"
    using ret by (auto simp: finish_with_evictions_def Let_def split: option.split sum.split)
  then show ?thesis using p t pinned_retained_active by (metis insertE empty_iff settle_retained(1,2))
qed

lemma pinned_retained_commit:
  assumes "lc_inv s" and "pinned_retained y s"
  shows "pinned_retained y (snd (commit_prepared_cancel_with_evictions now p s))"
proof -
  define s1 where "s1 = s\<lparr>lc_active := AList.delete (pc_response_id p) (lc_active s)\<rparr>"
  obtain q t where ret: "retain_locked (pc_cancelled p) now s1 = (q, t)" by fastforce
  have inv: "lc_inv s1" unfolding s1_def
    using same_retained_inv [OF same_retained_simps(2) active_inv_delete] assms(1) by (simp add: lc_inv_def)
  have p1: "pinned_retained y s1" using assms(2) by (rule pinned_retained_active [rotated 2]) (simp_all add: s1_def)
  have t: "pinned_retained y t" using pinned_retained_retain [OF inv p1, of "pc_cancelled p" now] ret by simp
  have "\<exists>f. snd (commit_prepared_cancel_with_evictions now p s) \<in> {s, s1, t, update_object (pc_active p) f t}"
    using ret by (auto simp: commit_prepared_cancel_with_evictions_def Let_def s1_def [symmetric]
        split: option.split sum.split)
  then show ?thesis using assms(2) p1 t pinned_retained_active by (metis insertE empty_iff settle_retained(3,4))
qed

lemma pinned_retained_step:
  assumes "lc_inv s" and p: "pinned_retained y s" and "lc_op_spares y op"
  shows "pinned_retained y (lc_step now op s)"
proof -
  let ?s = "purge_expired_retained_locked now s"
  have pp: "pinned_retained y ?s" using p by (rule pinned_retained_purge)
  show ?thesis
  proof (cases op)
    case (LPinChain rid)
    have "pinned_retained y (fold (lc_pin_one now) xs ?s)" for xs
      by (rule fold_keeps) (use pp pinned_retained_pin_one in auto)
    then show ?thesis using LPinChain p pp by (simp add: lc_pin_chain_def Let_def split: option.split)
  next
    case (LUnpinChain rids)
    have "pinned_retained y (lc_unpin_one x t)" if "x \<in> set rids" "pinned_retained y t" for x t
      using that assms(3) LUnpinChain
      by (auto simp: lc_unpin_one_def Let_def pinned_retained_def lc_pin_count_def lc_op_spares_def dict_simps)
    then have "pinned_retained y (fold lc_unpin_one rids s)" by (rule fold_keeps) (use p in auto)
    then show ?thesis using LUnpinChain by (simp add: lc_unpin_chain_def)
  next
    case (LRegister r session retain)
    have "pinned_retained y (?s\<lparr>lc_heap := h, lc_active := a\<rparr>)" for h a
      using pp by (rule pinned_retained_active [rotated 2]) simp_all
    then show ?thesis using LRegister p pp
      by (simp add: lc_register_active_def Let_def split: sum.split)
  next
    case (LUpdate rid r)
    have "pinned_retained y (update_object a f s)" for a f
      using p by (rule pinned_retained_active [rotated 2]) simp_all
    then show ?thesis using LUpdate p by (simp add: lc_update_active_def split: option.split)
  next
    case (LAbandon rid)
    have "pinned_retained y (lc_abandon rid s)"
      using p by (rule pinned_retained_active [rotated 2]) (simp_all add: lc_abandon_def)
    then show ?thesis using LAbandon by simp
  next
    case (LRetrieve rid)
    then show ?thesis using p pp pinned_retained_refresh
      by (simp add: lc_retrieve_def Let_def split: option.split)
  next
    case (LPrepare rid)
    then show ?thesis using p pp by (simp add: prepare_cancel_def Let_def split: option.split)
  qed (use assms pp pinned_retained_finish pinned_retained_commit in
      \<open>auto simp: can_retain_def lc_stats_def lc_op_spares_def Let_def\<close>)
qed

text \<open>C6. A pin protects a retained resource: whatever happens to the registry - expiry at any
  clock reading, retention of other resources under pressure - a pinned identifier stays retained
  and pinned until it is unpinned or something is discarded explicitly.\<close>
theorem pinned_resource_survives:
  assumes "lc_inv s \<and> lc_within_budget s" and "rid \<in> lc_ids s" and "0 < lc_pin_count s rid"
    and "\<forall>(t, op)\<in>set ops. lc_op_spares rid op"
  shows "rid \<in> lc_ids (lc_run ops s) \<and> 0 < lc_pin_count (lc_run ops s) rid"
proof -
  have "pinned_retained rid (lc_run ops s)" if "lc_ok s" "pinned_retained rid s" for s
    using that assms(4)
  proof (induction ops arbitrary: s)
    case (Cons x ops)
    obtain now op where x: "x = (now, op)" by fastforce
    have "lc_ok (lc_step now op s)" using lc_step_ok Cons.prems(1) by blast
    moreover have "pinned_retained rid (lc_step now op s)"
      using pinned_retained_step Cons.prems x by auto
    ultimately show ?case using Cons.IH Cons.prems(3) by (simp add: x lc_run_def)
  qed (simp add: lc_run_def)
  then show ?thesis using assms by (simp add: pinned_retained_def)
qed

theorem pinned_resource_survives_witness:
  "''a'' \<in> lc_ids (lc_run [(50, LStats), (60, LRetrieve ''b'')] (snd (lc_pin_chain 3 ''a'' ex_two)))"
proof -
  have ok: "lc_ok (snd (lc_pin_chain 3 ''a'' ex_two))"
    using lc_run_ok [of "ex_lifecycle 2"] new_lifecycle_inv [OF ex_lifecycle_new [of 2]]
      lc_step_ok [of ex_two 3 "LPinChain ''a''"] by (simp add: ex_two_run)
  have "''a'' \<in> lc_ids (snd (lc_pin_chain 3 ''a'' ex_two))"
    "0 < lc_pin_count (snd (lc_pin_chain 3 ''a'' ex_two)) ''a''" by code_simp+
  then show ?thesis
    using pinned_resource_survives [OF ok, of "''a''" "[(50, LStats), (60, LRetrieve ''b'')]"]
    by (simp add: lc_op_spares_def)
qed

end
