(* ===== verification/Authority_Properties.thy ===== *)
theory Authority_Properties
  imports Authority Store_Properties Lifecycle_Properties
begin

text \<open>
  The properties of the response authority. What the locks forbid the other tasks is stated on
  the schedule: \<open>env_spares rid w\<close> says that the tasks that run in between leave the winner and the
  staged record of \<open>rid\<close> alone (both are only touched under \<open>_transition(rid)\<close>), \<open>quiet w\<close> that
  there is no other task at all.
\<close>

definition quiet :: "schedule \<Rightarrow> bool" where
  "quiet w \<longleftrightarrow> (\<forall>i a. sc_env w i a = a)"

definition env_spares :: "string \<Rightarrow> schedule \<Rightarrow> bool" where
  "env_spares rid w \<longleftrightarrow> (\<forall>i a. map_of (au_winners (sc_env w i a)) rid = map_of (au_winners a) rid
     \<and> map_of (au_pending (sc_env w i a)) rid = map_of (au_pending a) rid)"

definition ex_authority :: authority where
  "ex_authority = \<lparr>au_state = ex_store 5 10000, au_life = ex_lifecycle 5, au_pending = [],
     au_winners = [], au_pins = [], au_tick = 0\<rparr>"

definition ex_schedule :: schedule where
  "ex_schedule = \<lparr>sc_clock = (\<lambda>i. 1), sc_env = (\<lambda>i a. a), sc_cancel = (\<lambda>i s. None)\<rparr>"

lemma ex_schedule_quiet [simp]: "quiet ex_schedule" "env_spares rid ex_schedule"
  by (simp_all add: ex_schedule_def quiet_def env_spares_def)

section \<open>Calls\<close>

lemma call_state_fields:
  "au_pending (snd (call_state w f a)) = au_pending (interfere w a)"
  "au_winners (snd (call_state w f a)) = au_winners (interfere w a)"
  "au_pins (snd (call_state w f a)) = au_pins (interfere w a)"
  "au_life (snd (call_state w f a)) = au_life (interfere w a)"
  "au_state (snd (call_state w f a)) = snd (f (sc_clock w (au_tick a)) (au_state (interfere w a)))"
  "fst (call_state w f a) = fst (f (sc_clock w (au_tick a)) (au_state (interfere w a)))"
  by (simp_all add: call_state_def Let_def split: prod.split)

lemma call_life_fields:
  "au_pending (snd (call_life w f a)) = au_pending (interfere w a)"
  "au_winners (snd (call_life w f a)) = au_winners (interfere w a)"
  "au_pins (snd (call_life w f a)) = au_pins (interfere w a)"
  "au_state (snd (call_life w f a)) = au_state (interfere w a)"
  "au_life (snd (call_life w f a)) = snd (f (sc_clock w (au_tick a)) (au_life (interfere w a)))"
  "fst (call_life w f a) = fst (f (sc_clock w (au_tick a)) (au_life (interfere w a)))"
  by (simp_all add: call_life_def Let_def split: prod.split)

lemma interfere_fields:
  "au_pending (interfere w a) = au_pending (sc_env w (au_tick a) a)"
  "au_winners (interfere w a) = au_winners (sc_env w (au_tick a) a)"
  "au_pins (interfere w a) = au_pins (sc_env w (au_tick a) a)"
  "au_state (interfere w a) = au_state (sc_env w (au_tick a) a)"
  "au_life (interfere w a) = au_life (sc_env w (au_tick a) a)"
  by (simp_all add: interfere_def)

lemmas call_simps = call_state_fields call_life_fields interfere_fields

section \<open>The first terminal wins\<close>

definition has_winner :: "string \<Rightarrow> response \<Rightarrow> authority \<Rightarrow> bool" where
  "has_winner rid r a \<longleftrightarrow> map_of (au_winners a) rid = Some r"

named_theorems keeping \<open>programs that keep the winner of an identifier\<close>

lemma keeps_call_state [keeping]: "env_spares rid w \<Longrightarrow> keeps_state (has_winner rid r) (call_state w f)"
  by (rule keeps_stateI) (simp add: has_winner_def call_simps env_spares_def)

lemma keeps_call_life [keeping]: "env_spares rid w \<Longrightarrow> keeps_state (has_winner rid r) (call_life w f)"
  by (rule keeps_stateI) (simp add: has_winner_def call_simps env_spares_def)

lemma keeps_modify: "(\<And>a. P a \<Longrightarrow> P (f a)) \<Longrightarrow> keeps_state P (modify f)"
  by (simp add: keeps_state_def modify_def)

lemma keeps_with_state: "(\<And>a. P a \<Longrightarrow> P (snd (f a a))) \<Longrightarrow> keeps_state P (with_state f)"
  by (simp add: keeps_state_def with_state_def)

lemma keeps_unpin [keeping]: "env_spares rid w \<Longrightarrow> keeps_state (has_winner rid r) (unpin_chains w xs ys)"
  unfolding unpin_chains_def by (auto intro: keeping)

lemma keeps_release [keeping]:
  assumes "env_spares rid w"
  shows "keeps_state (has_winner rid r) (release_continuation w owner)"
proof -
  have "keeps_state (has_winner rid r) (and_then (modify (\<lambda>a. a\<lparr>au_pins := AList.delete owner (au_pins a)\<rparr>))
       (\<lambda>_. case x of None \<Rightarrow> returns () | Some (xs, ys) \<Rightarrow> unpin_chains w xs ys))" for x
    by (rule keeps_and_then)
      (auto intro!: keeps_modify keeps_unpin [OF assms] simp: has_winner_def split: option.split prod.split)
  then show ?thesis
    unfolding release_continuation_def by (intro keeps_with_state) (blast dest: keeps_stateD)
qed

lemma release_frame:
  assumes "map_of (au_pins a) owner = None"
  shows "release_continuation w owner a = (Inr (), a\<lparr>au_pins := AList.delete owner (au_pins a)\<rparr>)"
  using assms by (simp add: release_continuation_def with_state_def modify_def)

lemma release_Inr: "fst (release_continuation w owner a) = Inr ()"
proof -
  have u: "fst (unpin_chains w xs ys b) = Inr ()" for xs ys b
  proof -
    have s: "call_state w (\<lambda>_ s. (Inr (), g s)) b = (Inr (), snd (call_state w (\<lambda>_ s. (Inr (), g s)) b))" for g b
      by (rule pair_of_fst) (simp add: call_simps)
    have l: "call_life w (\<lambda>_ s. (Inr (), g s)) b = (Inr (), snd (call_life w (\<lambda>_ s. (Inr (), g s)) b))" for g b
      by (rule pair_of_fst) (simp add: call_simps)
    show ?thesis
      by (cases "xs = []"; cases "ys = []")
        (simp_all add: unpin_chains_def and_then_Inr [OF s] call_life_fields)
  qed
  show ?thesis
    by (auto simp: release_continuation_def with_state_def modify_def u split: option.split)
qed

lemma finally_release:
  assumes "m a = (res, b)"
  shows "finally_do m (release_continuation w owner) a = (res, snd (release_continuation w owner b))"
  using release_Inr [of w owner b] assms
  by (cases "release_continuation w owner b") (simp add: finally_do_def)

lemma and_then_result:
  "fst (and_then m k a) = (case fst (m a) of Inl e \<Rightarrow> Inl e | Inr x \<Rightarrow> fst (k x (snd (m a))))"
  "snd (and_then m k a) = (case fst (m a) of Inl e \<Rightarrow> snd (m a) | Inr x \<Rightarrow> snd (k x (snd (m a))))"
  by (auto simp: and_then_def split: prod.split sum.split)

lemma commit_sets_winner:
  "fst (commit_retained_terminal w rid r p a) = Inr True \<Longrightarrow>
    map_of (au_winners (snd (commit_retained_terminal w rid r p a))) rid = Some r"
  by (auto simp: commit_retained_terminal_def and_then_result modify_def set_winner_def dict_simps
      split: sum.splits if_splits)

lemma finish_body_winner:
  assumes "finish_body w interrupted rid r a = (Inr (True, r'), b)"
  shows "has_winner rid r' b"
proof (cases "map_of (au_winners a) rid")
  case None
  let ?a = "drop_pending rid a"
  have step: "and_then (modify (drop_pending rid)) k a = k () ?a" for k :: "unit \<Rightarrow> (bool \<times> response) program"
    by (simp add: modify_def)
  show ?thesis
  proof (cases "json_get r ''store'' = JBool True")
    case True
    let ?c = "commit_retained_terminal w rid r (map_of (au_pending a) rid)"
    have eq: "finish_body w interrupted rid r a
        = and_then (then_cancelled interrupted ?c) (\<lambda>done. returns (done, r)) ?a"
      using None True by (simp add: finish_body_def with_state_def step)
    then have f: "fst (?c ?a) = Inr True" "\<not> interrupted" "r' = r" "b = snd (?c ?a)"
      using assms by (auto simp: then_cancelled_def and_then_def split: prod.splits sum.splits if_splits)
    then show ?thesis using commit_sets_winner [OF f(1)] by (simp add: has_winner_def)
  next
    case False
    then show ?thesis using assms None
      by (auto simp: finish_body_def with_state_def and_then_def modify_def set_winner_def
          has_winner_def dict_simps split: prod.splits sum.splits if_splits)
  qed
qed (use assms in \<open>auto simp: finish_body_def with_state_def modify_def has_winner_def drop_pending_def\<close>)


definition ex_failed :: response where
  "ex_failed = [(''id'', JStr ''x''), (''status'', JStr ''failed''), (''store'', JBool False)]"

lemma ex_finish_failed: "au_finish ex_schedule False ''x'' ex_failed ex_authority
    = (Inr (True, ex_failed), snd (au_finish ex_schedule False ''x'' ex_failed ex_authority))"
  by (rule pair_of_fst) code_simp


section \<open>What becomes a continuation\<close>

text \<open>No other task adds a continuation record of \<open>rid\<close>: only \<open>finish rid\<close> does.\<close>

definition env_adds_none :: "string \<Rightarrow> schedule \<Rightarrow> bool" where
  "env_adds_none rid w \<longleftrightarrow> (\<forall>i a. rid \<notin> st_ids (au_state a) \<longrightarrow> rid \<notin> st_ids (au_state (sc_env w i a)))"

definition unstored :: "string \<Rightarrow> authority \<Rightarrow> bool" where
  "unstored rid a \<longleftrightarrow> rid \<notin> st_ids (au_state a)"

lemma subtree_of_root: "rid \<in> subtree_of s rid"
  by (simp add: subtree_of_def)

lemma ids_remove_subtree: "st_ids (remove_subtree_locked rid s) = st_ids s - subtree_of s rid"
  by (auto simp: in_keys_iff set_eq_iff map_of_remove_subtree)

lemma purge_ids_subset: "st_ids (purge_expired_locked now s) \<subseteq> st_ids s"
  by (rule purge_induct) (auto simp: ids_remove_subtree)

lemma discard_ids_subset: "st_ids (snd (store_discard now y s)) \<subseteq> st_ids s"
  using purge_ids_subset [of now s] by (auto simp: store_discard_def ids_remove_subtree)

lemma discard_removes: "\<not> blank rid \<Longrightarrow> rid \<notin> st_ids (snd (store_discard now rid s))"
  by (simp add: store_discard_def ids_remove_subtree subtree_of_root)

lemma unstored_interfere: "env_adds_none rid w \<Longrightarrow> unstored rid a \<Longrightarrow> unstored rid (interfere w a)"
  by (simp add: env_adds_none_def unstored_def interfere_fields)

lemma unstored_call_life: "env_adds_none rid w \<Longrightarrow> keeps_state (unstored rid) (call_life w f)"
  using unstored_interfere
  by (auto intro!: keeps_stateI simp: unstored_def call_life_fields)

lemma unstored_discard_state: "env_adds_none rid w \<Longrightarrow> keeps_state (unstored rid) (discard_state w y)"
proof (rule keeps_stateI)
  fix a
  assume "env_adds_none rid w" and "unstored rid a"
  then have "rid \<notin> st_ids (au_state (interfere w a))" using unstored_interfere by (simp add: unstored_def)
  then show "unstored rid (snd (discard_state w y a))"
    unfolding unstored_def call_state_fields using discard_ids_subset by blast
qed

lemma discard_state_unstored: "\<not> blank rid \<Longrightarrow> unstored rid (snd (discard_state w rid a))"
  by (simp add: unstored_def call_state_fields discard_removes)

lemma unstored_unpin: "env_adds_none rid w \<Longrightarrow> keeps_state (unstored rid) (unpin_chains w xs ys)"
proof -
  assume e: "env_adds_none rid w"
  have "keeps_state (unstored rid) (call_state w (\<lambda>_ s. (Inr (), store_unpin_chain xs s)))"
    using unstored_interfere [OF e]
    by (auto intro!: keeps_stateI simp: unstored_def call_state_fields store_unpin_chain_def)
  then show ?thesis unfolding unpin_chains_def using unstored_call_life [OF e] by auto
qed

lemma unstored_release: "env_adds_none rid w \<Longrightarrow> keeps_state (unstored rid) (release_continuation w owner)"
  unfolding release_continuation_def
proof (rule keeps_with_state)
  fix a
  assume e: "env_adds_none rid w" and a: "unstored rid a"
  have "keeps_state (unstored rid) (and_then (modify (\<lambda>a. a\<lparr>au_pins := AList.delete owner (au_pins a)\<rparr>))
       (\<lambda>_. case map_of (au_pins a) owner of None \<Rightarrow> returns () | Some (xs, ys) \<Rightarrow> unpin_chains w xs ys))"
    by (rule keeps_and_then)
      (auto intro!: keeps_modify unstored_unpin [OF e] simp: unstored_def split: option.split prod.split)
  then show "unstored rid (snd (and_then (modify (\<lambda>a. a\<lparr>au_pins := AList.delete owner (au_pins a)\<rparr>))
       (\<lambda>_. case map_of (au_pins a) owner of None \<Rightarrow> returns () | Some (xs, ys) \<Rightarrow> unpin_chains w xs ys) a))"
    using a by (rule keeps_stateD)
qed

lemma after_first:
  assumes "\<And>a. P (snd (m a))" and "\<And>x. keeps_state P (k x)"
  shows "P (snd (and_then m k a))"
  using assms by (auto simp: and_then_result keeps_state_def split: sum.split)

lemma uncompleted_unstored:
  assumes e: "env_adds_none rid w" and nb: "\<not> blank rid" and status: "json_get r ''status'' \<noteq> JStr ''completed''"
    and res: "fst (commit_retained_terminal w rid r p a) = Inr x"
  shows "unstored rid (snd (commit_retained_terminal w rid r p a))"
proof -
  note keep = unstored_call_life [OF e] unstored_discard_state [OF e]
  have d: "unstored rid (snd (and_then (discard_state w rid) (\<lambda>_. and_then (discard_life w rid) (\<lambda>_. returns False)) b))" for b
    by (rule after_first) (use discard_state_unstored [OF nb] keep in auto)
  have s: "keeps_state (unstored rid) (synchronize_evictions w [] ys)" for ys
    unfolding synchronize_evictions_def using keep by auto
  have c: "unstored rid (snd (commit_uncompleted w rid r b))" for b
    unfolding commit_uncompleted_def
    by (rule after_first) (rule discard_state_unstored [OF nb], intro keeps_intros keep s)
  have m: "keeps_state (unstored rid) (and_then (modify (set_winner rid r)) (\<lambda>_. returns True))"
    by (rule keeps_and_then) (auto intro!: keeps_modify simp: unstored_def set_winner_def)
  have "unstored rid (snd (and_then (commit_uncompleted w rid r) (\<lambda>done.
         if done then and_then (modify (set_winner rid r)) (\<lambda>_. returns True) else returns False) b))" for b
    by (rule after_first) (use c m in auto)
  then show ?thesis
    using d status res by (auto simp: commit_retained_terminal_def and_then_result split: sum.splits if_splits)
qed

text \<open>C12. Only a completed and stored response can be continued: when \<open>finish\<close> settles a response
  whose final resource is not completed, or is not to be stored, no continuation record of it is
  left in the state store, whatever was staged or stored under its identifier before.\<close>
theorem no_continuation_from_incomplete:
  assumes fin: "au_finish w interrupted rid r a = (Inr (ok, r1), b)"
    and first: "map_of (au_winners a) rid = None" and nb: "\<not> blank rid" and e: "env_adds_none rid w"
    and kind: "json_get r ''status'' \<noteq> JStr ''completed'' \<or> json_get r ''store'' \<noteq> JBool True"
  shows "rid \<notin> st_ids (au_state b)"
proof -
  obtain res c where body: "finish_body w interrupted rid r a = (res, c)" by fastforce
  have res: "res = Inr (ok, r1)" and b: "b = snd (release_continuation w rid c)"
    using fin finally_release [of "finish_body w interrupted rid r" a res c w rid, OF body]
    by (simp_all add: au_finish_def)
  note keep = unstored_call_life [OF e] unstored_discard_state [OF e]
  let ?a = "drop_pending rid a"
  have step: "and_then (modify (drop_pending rid)) k a = k () ?a" for k :: "unit \<Rightarrow> (bool \<times> response) program"
    by (simp add: modify_def)
  have "unstored rid c"
  proof (cases "json_get r ''store'' = JBool True")
    case True
    let ?c = "commit_retained_terminal w rid r (map_of (au_pending a) rid)"
    have "finish_body w interrupted rid r a = and_then (then_cancelled interrupted ?c) (\<lambda>done. returns (done, r)) ?a"
      using first True by (simp add: finish_body_def with_state_def step)
    then have "fst (?c ?a) = Inr ok" "c = snd (?c ?a)"
      using body res by (auto simp: then_cancelled_def and_then_def split: prod.splits sum.splits if_splits)
    then show ?thesis using uncompleted_unstored [OF e nb] kind True by metis
  next
    case False
    have m: "keeps_state (unstored rid) (and_then (modify (set_winner rid r)) (\<lambda>_. returns (True, r)))"
      by (rule keeps_and_then) (auto intro!: keeps_modify simp: unstored_def set_winner_def)
    have "finish_body w interrupted rid r a = and_then (discard_state w rid)
        (\<lambda>_. and_then (call_life w (\<lambda>now. lc_finish now rid r)) (\<lambda>finished.
          if \<not> finished then returns (False, r)
          else and_then (modify (set_winner rid r)) (\<lambda>_. returns (True, r)))) ?a" (is "_ = and_then _ ?k _")
      using first False by (simp add: finish_body_def with_state_def step)
    moreover have "unstored rid (snd (and_then (discard_state w rid) ?k ?a))"
      by (rule after_first) (rule discard_state_unstored [OF nb], intro keeps_intros keep m)
    ultimately show ?thesis using body by (metis snd_conv)
  qed
  then show ?thesis using keeps_stateD [OF unstored_release [OF e]] b by (simp add: unstored_def)
qed

theorem no_continuation_from_incomplete_witness:
  "''x'' \<notin> st_ids (au_state (snd (au_finish ex_schedule False ''x'' ex_failed ex_authority)))"
proof -
  have "map_of (au_winners ex_authority) ''x'' = None" "\<not> blank ''x''" "json_get ex_failed ''status'' \<noteq> JStr ''completed''"
    by code_simp+
  moreover have "env_adds_none ''x'' ex_schedule" by (simp add: env_adds_none_def ex_schedule_def)
  ultimately show ?thesis using no_continuation_from_incomplete [OF ex_finish_failed] by blast
qed

text \<open>C13. Cancelling the caller of \<open>finish\<close> cannot tear a commit: the state it leaves is the one
  an uncancelled \<open>finish\<close> leaves, and the cancellation is reported only when that commit did not
  itself raise.\<close>
theorem interrupted_finish_commits:
  "snd (au_finish w True rid r a) = snd (au_finish w False rid r a)
    \<and> (fst (au_finish w True rid r a) = fst (au_finish w False rid r a)
       \<or> fst (au_finish w True rid r a) = Inl CancelledError)"
proof -
  have t: "snd (then_cancelled True m b) = snd (then_cancelled False m b)"
    "fst (then_cancelled True m b) = fst (then_cancelled False m b) \<or> fst (then_cancelled True m b) = Inl CancelledError"
    for m :: "bool program" and b
    by (auto simp: then_cancelled_def and_then_result split: sum.splits)
  have k: "and_then (then_cancelled i m) (\<lambda>done. returns (done, r)) b
      = (map_sum id (\<lambda>done. (done, r)) (fst (then_cancelled i m b)), snd (then_cancelled i m b))" for i m b
    by (cases "then_cancelled i m b") (auto simp: and_then_def split: sum.splits)
  have body: "snd (finish_body w True rid r a) = snd (finish_body w False rid r a)
      \<and> (fst (finish_body w True rid r a) = fst (finish_body w False rid r a)
         \<or> fst (finish_body w True rid r a) = Inl CancelledError)"
  proof (cases "map_of (au_winners a) rid = None \<and> json_get r ''store'' = JBool True")
    case True
    then show ?thesis
      using t(1) [of "commit_retained_terminal w rid r (map_of (au_pending a) rid)" "drop_pending rid a"]
        t(2) [of "commit_retained_terminal w rid r (map_of (au_pending a) rid)" "drop_pending rid a"]
      by (simp add: finish_body_def with_state_def modify_def k) (metis (no_types) map_sum.simps(1) id_apply)
  qed (auto simp: finish_body_def with_state_def split: option.split)
  show ?thesis
    using body finally_release [of "finish_body w i rid r" a "fst (finish_body w i rid r a)" "snd (finish_body w i rid r a)" w rid for i]
    by (simp add: au_finish_def)
qed

section \<open>What a continuation reads\<close>

text \<open>What \<open>retrieve\<close> shows of an identifier: the active resource when it is retained, else the
  retained one.\<close>

definition visible :: "lifecycle \<Rightarrow> string \<Rightarrow> response option" where
  "visible s rid = (case map_of (lc_active s) rid of
       Some a \<Rightarrow> (if ac_retain (lc_heap s ! a) then Some (ac_response (lc_heap s ! a))
                 else map_option rt_response (map_of (lc_retained s) rid))
     | None \<Rightarrow> map_option rt_response (map_of (lc_retained s) rid))"

text \<open>Reading may expire or refresh records, but never invents one.\<close>

definition records_within :: "store \<Rightarrow> store \<Rightarrow> bool" where
  "records_within s t \<longleftrightarrow> (\<forall>y st. map_of (st_records t) y = Some st \<longrightarrow>
     map_option sr_record (map_of (st_records s) y) = Some (sr_record st))"

definition visible_within :: "lifecycle \<Rightarrow> lifecycle \<Rightarrow> bool" where
  "visible_within s t \<longleftrightarrow> (\<forall>y r. visible t y = Some r \<longrightarrow> visible s y = Some r)"

definition reads_within :: "authority \<Rightarrow> authority \<Rightarrow> bool" where
  "reads_within a c \<longleftrightarrow> records_within (au_state a) (au_state c) \<and> visible_within (au_life a) (au_life c)"

lemma records_within_refl [simp]: "records_within s s"
  by (simp add: records_within_def)

lemma visible_within_refl [simp]: "visible_within s s"
  by (simp add: visible_within_def)

lemma records_within_trans: "records_within s t \<Longrightarrow> records_within t u \<Longrightarrow> records_within s u"
  unfolding records_within_def by (metis option.map_sel option.sel option.distinct(1) option.map_disc_iff option.exhaust_sel)

lemma visible_within_trans: "visible_within s t \<Longrightarrow> visible_within t u \<Longrightarrow> visible_within s u"
  by (simp add: visible_within_def)

lemma reads_within_trans: "reads_within a c \<Longrightarrow> reads_within c d \<Longrightarrow> reads_within a d"
  unfolding reads_within_def using records_within_trans visible_within_trans by blast

lemma records_within_look: "records_within s t \<Longrightarrow> st_look t y \<noteq> None \<Longrightarrow> st_look s y = st_look t y"
proof -
  assume w: "records_within s t" and "st_look t y \<noteq> None"
  then obtain st where st: "map_of (st_records t) y = Some st" by (auto simp: st_look_def)
  then obtain st0 where "map_of (st_records s) y = Some st0" "sr_record st0 = sr_record st"
    using w unfolding records_within_def by fastforce
  then show ?thesis using st by (simp add: st_look_def)
qed

lemma purge_within: "records_within s (purge_expired_locked now s)"
  by (rule purge_induct) (auto simp: records_within_def map_of_remove_subtree)

lemma touch_within: "records_within s (touch_record now rid s)"
  unfolding records_within_def map_of_touch by auto

lemma pins_within: "records_within s (s\<lparr>st_pins := pins\<rparr>)"
  by (simp add: records_within_def)

lemma store_get_within: "records_within s (snd (store_get now rid s))"
  using records_within_trans [OF purge_within touch_within] purge_within
  by (auto simp: store_get_def Let_def split: option.split)

lemma store_get_Some:
  assumes "fst (store_get now rid s) = Inr (Some r)"
  shows "map_option sr_record (map_of (st_records s) rid) = Some r"
proof -
  obtain st where "map_of (st_records (purge_expired_locked now s)) rid = Some st" "sr_record st = r"
    using assms by (auto simp: store_get_def validate_response_id_def Let_def split: if_splits option.splits)
  then show ?thesis using purge_within [of s now] unfolding records_within_def by blast
qed

lemma fold_within: "(\<And>x t. records_within t (f x t)) \<Longrightarrow> records_within s (fold f xs s)"
proof (induction xs arbitrary: s)
  case (Cons x xs)
  then show ?case using records_within_trans by fastforce
qed simp

lemma pin_one_within: "records_within s (pin_one now rid s)"
  unfolding pin_one_def using records_within_trans [OF pins_within touch_within] .

lemma store_pin_within: "records_within s (snd (store_pin_chain now rid s))"
proof -
  have "records_within s (fold (pin_one now) xs (purge_expired_locked now s))" for xs
    using records_within_trans [OF purge_within fold_within [OF pin_one_within]] .
  then show ?thesis using purge_within
    by (auto simp: store_pin_chain_def Let_def split: option.split)
qed

lemma visible_drop: "visible_within s (drop_subtree rid s)"
  using same_frameD [OF drop_frame [of s rid]]
  by (auto simp: visible_within_def visible_def drop_retained map_of_filter_keys split: option.splits if_splits)

lemma visible_purge: "visible_within s (purge_expired_retained_locked now s)"
  by (rule purge_retained_induct) (auto intro: visible_within_trans visible_drop)

lemma visible_refresh: "visible (refresh_retained now rid s) y = visible s y"
  using same_frameD [OF refresh_frame [of s now rid]] by (simp add: visible_def refresh_look split: option.split)

lemma visible_retrieve: "visible_within s (snd (lc_retrieve now rid s))"
proof -
  let ?s = "purge_expired_retained_locked now s"
  have "snd (lc_retrieve now rid s) \<in> {s, ?s, refresh_retained now rid ?s}"
    by (cases "blank rid"; cases "map_of (lc_active ?s) rid")
      (simp_all only: lc_retrieve_def Let_def option.case if_True if_False snd_conv if_distrib [where f = snd], auto)
  moreover have "visible_within s (refresh_retained now rid ?s)"
    using visible_purge [of s now] by (simp add: visible_within_def visible_refresh)
  ultimately show ?thesis using visible_purge [of s now] by auto
qed

lemma lc_retrieve_Some:
  assumes "fst (lc_retrieve now rid s) = Inr (Some r)"
  shows "visible s rid = Some r"
proof -
  have "visible (purge_expired_retained_locked now s) rid = Some r"
    using assms
    by (cases "blank rid"; cases "map_of (lc_active (purge_expired_retained_locked now s)) rid")
      (simp_all only: lc_retrieve_def Let_def visible_def option.case if_True if_False fst_conv
        if_distrib [where f = fst], auto split: if_splits)
  then show ?thesis using visible_purge [of s now] by (simp add: visible_within_def)
qed

lemma visible_pin: "visible_within s (snd (lc_pin_chain now rid s))"
proof -
  have one: "visible (lc_pin_one now x t) y = visible t y" for x t y
  proof -
    have "visible (t\<lparr>lc_pins := pins\<rparr>) y = visible t y" for pins
      unfolding visible_def by (simp split: option.split)
    then show ?thesis by (simp add: lc_pin_one_def visible_refresh)
  qed
  have "visible (fold (lc_pin_one now) xs t) y = visible t y" for xs t y
    by (induction xs arbitrary: t) (simp_all add: one)
  then show ?thesis using visible_purge [of s now]
    by (auto simp: lc_pin_chain_def Let_def visible_within_def split: option.split)
qed

lemma quiet_interfere: "quiet w \<Longrightarrow> interfere w a = a\<lparr>au_tick := au_tick a + 1\<rparr>"
  by (simp add: quiet_def interfere_def)

lemma quiet_state_within:
  "quiet w \<Longrightarrow> (\<And>now s. records_within s (snd (f now s))) \<Longrightarrow> reads_within a (snd (call_state w f a))"
  by (simp add: reads_within_def call_state_fields quiet_interfere)

lemma quiet_life_within:
  "quiet w \<Longrightarrow> (\<And>now s. visible_within s (snd (f now s))) \<Longrightarrow> reads_within a (snd (call_life w f a))"
  by (simp add: reads_within_def call_life_fields quiet_interfere)

lemma quiet_call_state: "quiet w \<Longrightarrow> call_state w f a = (r, b) \<Longrightarrow>
    f (sc_clock w (au_tick a)) (au_state a) = (r, au_state b) \<and> au_life b = au_life a \<and> au_pins b = au_pins a"
  by (auto simp: call_state_def Let_def quiet_interfere split: prod.splits)

lemma quiet_call_life: "quiet w \<Longrightarrow> call_life w f a = (r, b) \<Longrightarrow>
    f (sc_clock w (au_tick a)) (au_life a) = (r, au_life b) \<and> au_state b = au_state a \<and> au_pins b = au_pins a"
  by (auto simp: call_life_def Let_def quiet_interfere split: prod.splits)

text \<open>A chain of committed resources, as the two stores show it.\<close>

definition committed_chain :: "authority \<Rightarrow> string \<Rightarrow> string option \<Rightarrow> string list \<Rightarrow> bool" where
  "committed_chain a model cur xs \<longleftrightarrow> chain_path (st_look (au_state a)) cur xs
     \<and> (\<forall>x\<in>set xs. st_model (au_state a) x = Some model
          \<and> (\<exists>r. visible (au_life a) x = Some r \<and> committed_resource model r))"

lemma committed_chain_back:
  assumes "reads_within a c" and "committed_chain c model cur xs"
  shows "committed_chain a model cur xs"
proof -
  have p: "chain_path (st_look (au_state c)) cur xs" using assms(2) by (simp add: committed_chain_def)
  have w: "records_within (au_state a) (au_state c)" "visible_within (au_life a) (au_life c)"
    using assms(1) by (simp_all add: reads_within_def)
  have "chain_path (st_look (au_state a)) cur xs"
    using p records_within_look [OF w(1)] chain_path_present [OF p] by (blast intro: chain_path_cong)
  moreover have "st_model (au_state a) x = Some model" if "x \<in> set xs" for x
  proof -
    have "st_model (au_state c) x = Some model" using assms(2) that by (simp add: committed_chain_def)
    then obtain st where "map_of (st_records (au_state c)) x = Some st" "rec_model (sr_record st) = model"
      by (auto simp: st_model_def)
    then show ?thesis using w(1) unfolding records_within_def st_model_def by fastforce
  qed
  ultimately show ?thesis
    using assms(2) w(2) unfolding committed_chain_def visible_within_def by blast
qed

lemma chain_loop_True:
  assumes q: "quiet w"
  shows "chain_loop fuel w rid model cur seen descs c = (Inr True, d) \<Longrightarrow>
    reads_within c d \<and> (\<exists>xs. committed_chain c model cur xs)"
proof (induction fuel arbitrary: cur seen descs c)
  case 0
  then show ?case
    by (cases cur) (auto simp: reads_within_def committed_chain_def intro: exI [of _ "[]"])
next
  case (Suc fuel)
  show ?case
  proof (cases cur)
    case None
    then show ?thesis using Suc.prems
      by (auto simp: reads_within_def committed_chain_def intro: exI [of _ "[]"])
  next
    case (Some x)
    have False if "and_then m (\<lambda>_. and_then n (\<lambda>_. returns False)) e = (Inr True, d)"
      for m n :: "unit program" and e using that by (simp add: and_then_Inr_iff)
    note never = this
    have seen: "x \<notin> set seen" using Suc.prems Some never by (auto simp: Let_def)
    obtain v c1 where get: "call_state w (\<lambda>now. store_get now x) c = (Inr v, c1)"
      and k: "(case v of None \<Rightarrow> and_then (discard_state w rid)
            (\<lambda>_. and_then (for_each (discard_life w) descs) (\<lambda>_. returns False))
        | Some record \<Rightarrow> if rec_model record \<noteq> model then and_then (discard_state w rid)
            (\<lambda>_. and_then (for_each (discard_life w) descs) (\<lambda>_. returns False))
          else and_then (call_life w (\<lambda>now. lc_retrieve now x)) (\<lambda>response.
            if (case response of None \<Rightarrow> True | Some r \<Rightarrow> \<not> committed_resource model r)
            then and_then (discard_state w x) (\<lambda>_. and_then (discard_life w x)
              (\<lambda>_. and_then (for_each (discard_life w) descs) (\<lambda>_. returns False)))
            else chain_loop fuel w rid model (parent_response_id record) (x # seen) (descs @ [x]))) c1 = (Inr True, d)"
      using Suc.prems Some seen by (auto simp only: chain_loop.simps Let_def option.case if_False and_then_Inr_iff)
    obtain rec where rec: "v = Some rec" and m: "rec_model rec = model"
      using k never by (cases v) (auto split: if_splits)
    obtain u c2 where ret: "call_life w (\<lambda>now. lc_retrieve now x) c1 = (Inr u, c2)"
      and k2: "(if (case u of None \<Rightarrow> True | Some r \<Rightarrow> \<not> committed_resource model r)
            then and_then (discard_state w x) (\<lambda>_. and_then (discard_life w x)
              (\<lambda>_. and_then (for_each (discard_life w) descs) (\<lambda>_. returns False)))
            else chain_loop fuel w rid model (parent_response_id rec) (x # seen) (descs @ [x])) c2 = (Inr True, d)"
      using k rec m by (auto simp only: option.case simp_thms if_False and_then_Inr_iff)
    have never3: False if "and_then m (\<lambda>_. and_then n (\<lambda>_. and_then p (\<lambda>_. returns False))) e = (Inr True, d)"
      for m n p :: "unit program" and e using that by (simp add: and_then_Inr_iff)
    obtain r where u: "u = Some r" and com: "committed_resource model r"
      and loop: "chain_loop fuel w rid model (parent_response_id rec) (x # seen) (descs @ [x]) c2 = (Inr True, d)"
      using k2 never3 by (cases u) (auto split: if_splits)
    note get = get [unfolded rec] and ret = ret [unfolded u]
    have w1: "reads_within c c1" using quiet_state_within [OF q, of "\<lambda>now. store_get now x" c] store_get_within get by simp
    have w2: "reads_within c1 c2" using quiet_life_within [OF q, of "\<lambda>now. lc_retrieve now x" c1] visible_retrieve ret by simp
    from Suc.IH [OF loop] obtain xs where d: "reads_within c2 d"
      and xs: "committed_chain c2 model (parent_response_id rec) xs" by blast
    have "committed_chain c model (parent_response_id rec) xs"
      using committed_chain_back [OF reads_within_trans [OF w1 w2] xs] .
    moreover have "map_option sr_record (map_of (st_records (au_state c)) x) = Some rec"
      using quiet_call_state [OF q get] store_get_Some by (metis fst_conv)
    moreover have "visible (au_life c) x = Some r"
    proof -
      have "visible (au_life c1) x = Some r"
        using quiet_call_life [OF q ret] lc_retrieve_Some by (metis fst_conv)
      then show ?thesis using w1 by (simp add: reads_within_def visible_within_def)
    qed
    ultimately have "committed_chain c model cur (x # xs)"
      using Some com m by (auto simp: committed_chain_def st_look_def st_model_def)
    then show ?thesis using reads_within_trans [OF reads_within_trans [OF w1 w2] d] by blast
  qed
qed

lemma materialize_loop_Chain:
  "materialize_loop s m cur seen chain = Chain ch \<Longrightarrow>
    \<exists>xs. chain_path (st_look s) cur xs \<and> ch = chain @ map (\<lambda>x. the (map_of (st_records s) x)) xs"
proof (induction s m cur seen chain rule: materialize_loop.induct)
  case (1 s m seen chain)
  then show ?case by (auto intro: exI [of _ "[]"])
next
  case (2 s m c seen chain)
  obtain st where st: "map_of (st_records s) c = Some st" and nin: "c \<notin> set seen"
    and rest: "materialize_loop s (Some (rec_model (sr_record st))) (parent_response_id (sr_record st))
        (c # seen) (chain @ [st]) = Chain ch"
    and m: "\<not> (m \<noteq> None \<and> m \<noteq> Some (rec_model (sr_record st)))"
    using 2(2) by (auto split: if_splits option.splits simp del: map_of_eq_Some_iff)
  from 2(1) [OF nin st m rest] obtain xs where
    "chain_path (st_look s) (parent_response_id (sr_record st)) xs"
    "ch = (chain @ [st]) @ map (\<lambda>x. the (map_of (st_records s) x)) xs" by blast
  moreover have "st_look s c = Some (parent_response_id (sr_record st))" using st by (simp add: st_look_def)
  ultimately show ?case using st by (intro exI [of _ "c # xs"]) simp
qed

lemma materialize_Some:
  assumes "fst (store_materialize now rid s) = Inr (Some items)"
  shows "\<exists>xs. chain_path (st_look (purge_expired_locked now s)) (Some rid) xs
    \<and> items = chain_items (purge_expired_locked now s) xs"
proof -
  let ?s = "purge_expired_locked now s"
  obtain ch where ch: "materialize_loop ?s None (Some rid) [] [] = Chain ch"
    and items: "items = concat (map (\<lambda>st. delta_items (sr_record st)) (rev ch))"
    using assms
    by (cases "materialize_loop ?s None (Some rid) [] []")
      (auto simp: store_materialize_def validate_response_id_def Let_def split: if_splits)
  from materialize_loop_Chain [OF ch] obtain xs where
    "chain_path (st_look ?s) (Some rid) xs" "ch = map (\<lambda>x. the (map_of (st_records ?s) x)) xs" by auto
  then show ?thesis using items by (auto simp: chain_items_def rev_map comp_def)
qed

lemma within_items:
  assumes "records_within s t" and p: "chain_path (st_look t) cur xs"
  shows "chain_path (st_look s) cur xs \<and> chain_items t xs = chain_items s xs"
proof
  show "chain_path (st_look s) cur xs"
    using p records_within_look [OF assms(1)] chain_path_present [OF p] by (blast intro: chain_path_cong)
  have "delta_items (sr_record (the (map_of (st_records t) x)))
      = delta_items (sr_record (the (map_of (st_records s) x)))" if x: "x \<in> set xs" for x
  proof -
    obtain st where st: "map_of (st_records t) x = Some st"
      using chain_path_present [OF p x] by (auto simp: st_look_def)
    then obtain st0 where "map_of (st_records s) x = Some st0" "sr_record st0 = sr_record st"
      using assms(1) unfolding records_within_def by fastforce
    then show ?thesis using st by simp
  qed
  then show "chain_items t xs = chain_items s xs"
    by (auto simp: chain_items_def intro!: arg_cong [where f = concat])
qed

lemma resolve_body_Inr:
  assumes q: "quiet w" and res: "resolve_body w rid model a = (Inr items, b)"
  shows "\<exists>xs. committed_chain a model (Some rid) xs \<and> items = chain_items (au_state a) xs"
proof -
  obtain v a1 where ret: "call_life w (\<lambda>now. lc_retrieve now rid) a = (Inr v, a1)"
    using res by (auto simp: resolve_body_def and_then_Inr_iff)
  obtain u a2 where get: "call_state w (\<lambda>now. store_get now rid) a1 = (Inr u, a2)"
    and k2: "(case u of None \<Rightarrow> and_then (discard_life w rid) (\<lambda>_. raises (ResponseStateNotFound rid))
              | Some record \<Rightarrow>
                  (if rec_model record \<noteq> model then raises (ResponseStateModelMismatch rid)
                   else and_then (retained_chain_is_consistent w rid model) (\<lambda>ok.
                     if \<not> ok then raises (ResponseStateNotFound rid)
                     else and_then (call_state w (\<lambda>now. store_materialize now rid)) (\<lambda>items.
                       case items of
                         None \<Rightarrow> and_then (discard_life w rid) (\<lambda>_. raises (ResponseStateNotFound rid))
                       | Some items \<Rightarrow> returns items)))) a2 = (Inr items, b)"
    using res ret by (cases v) (auto simp: resolve_body_def and_then_Inr_iff split: if_splits)
  obtain a3 where chk: "retained_chain_is_consistent w rid model a2 = (Inr True, a3)"
    and k3: "and_then (call_state w (\<lambda>now. store_materialize now rid)) (\<lambda>items.
        case items of None \<Rightarrow> and_then (discard_life w rid) (\<lambda>_. raises (ResponseStateNotFound rid))
        | Some items \<Rightarrow> returns items) a3 = (Inr items, b)"
    using k2 by (cases u) (auto simp: and_then_Inr_iff split: if_splits)
  obtain y a4 where mat: "call_state w (\<lambda>now. store_materialize now rid) a3 = (Inr y, a4)"
    and k4: "(case y of None \<Rightarrow> and_then (discard_life w rid) (\<lambda>_. raises (ResponseStateNotFound rid))
        | Some items \<Rightarrow> returns items) a4 = (Inr items, b)"
    using k3 by (auto simp: and_then_Inr_iff)
  have y: "y = Some items" using k4 by (cases y) (auto simp: and_then_Inr_iff)
  have "reads_within a a1" using quiet_life_within [OF q, of "\<lambda>now. lc_retrieve now rid" a] visible_retrieve ret by simp
  moreover have "reads_within a1 a2"
    using quiet_state_within [OF q, of "\<lambda>now. store_get now rid" a1] store_get_within get by simp
  ultimately have w2: "reads_within a a2" by (rule reads_within_trans)
  from chain_loop_True [OF q] chk obtain xs where w3: "reads_within a2 a3"
    and xs: "committed_chain a2 model (Some rid) xs"
    unfolding retained_chain_is_consistent_def with_state_def by blast
  have w: "records_within (au_state a) (au_state a3)"
    using reads_within_trans [OF w2 w3] by (simp add: reads_within_def)
  obtain now where "fst (store_materialize now rid (au_state a3)) = Inr (Some items)"
    using quiet_call_state [OF q mat] y by (metis fst_conv)
  from materialize_Some [OF this] obtain ys where
    ys: "chain_path (st_look (purge_expired_locked now (au_state a3))) (Some rid) ys"
      "items = chain_items (purge_expired_locked now (au_state a3)) ys" by blast
  have c: "committed_chain a model (Some rid) xs" using committed_chain_back [OF w2 xs] .
  have "chain_path (st_look (au_state a)) (Some rid) ys \<and> items = chain_items (au_state a) ys"
    using within_items [OF records_within_trans [OF w purge_within] ys(1)] ys(2) by simp
  moreover have "xs = ys"
    using c calculation chain_path_unique by (fastforce simp: committed_chain_def)
  ultimately show ?thesis using c by blast
qed

lemma pin_continuation_within:
  assumes q: "quiet w" and pin: "pin_continuation w owner rid a = (Inr True, b)"
  shows "reads_within a b"
proof -
  obtain v a1 where life: "call_life w (\<lambda>now. lc_pin_chain now rid) a = (Inr v, a1)"
    using pin by (auto simp: pin_continuation_def with_state_def and_then_Inr_iff split: if_splits)
  then obtain ids where v: "v = Some ids"
    using pin by (cases v) (auto simp: pin_continuation_def with_state_def split: if_splits)
  obtain x a2 where st: "call_state w (\<lambda>now. store_pin_chain now rid) a1 = (x, a2)" by fastforce
  have k: "(case call_state w (\<lambda>now. store_pin_chain now rid) a1 of
             (Inl e, a') \<Rightarrow> and_then (unpin_chains w [] ids) (\<lambda>_. raises e) a'
           | (Inr None, a') \<Rightarrow> and_then (unpin_chains w [] ids) (\<lambda>_. returns False) a'
           | (Inr (Some state_ids), a') \<Rightarrow>
               (Inr True, a'\<lparr>au_pins := AList.update owner (state_ids, ids) (au_pins a')\<rparr>)) = (Inr True, b)"
    using pin life v by (auto simp: pin_continuation_def with_state_def split: if_splits)
  obtain sids where "x = Inr (Some sids)"
    using k st by (cases x) (auto simp: and_then_Inr_iff split: option.splits)
  then have b: "b = a2\<lparr>au_pins := AList.update owner (sids, ids) (au_pins a2)\<rparr>" using k st by simp
  have "reads_within a a1" using quiet_life_within [OF q, of "\<lambda>now. lc_pin_chain now rid" a] visible_pin life by simp
  moreover have "reads_within a1 a2"
    using quiet_state_within [OF q, of "\<lambda>now. store_pin_chain now rid" a1] store_pin_within st by simp
  ultimately have "reads_within a a2" by (rule reads_within_trans)
  then show ?thesis by (simp add: b reads_within_def)
qed


definition ex_completed :: response where
  "ex_completed = [(''id'', JStr ''a''), (''model'', JStr ''m''), (''store'', JBool True),
     (''status'', JStr ''completed'')]"

definition ex_committed :: authority where
  "ex_committed = ex_authority\<lparr>
     au_state := (ex_store 5 10000)\<lparr>st_records := [ex_entry ''a''], st_estimated_bytes := 141\<rparr>,
     au_life := (ex_lifecycle 5)\<lparr>lc_retained := [(''a'', \<lparr>rt_response = ex_completed,
       rt_estimated_bytes = 58, rt_expires_at = 11\<rparr>)], lc_estimated_bytes := 58\<rparr>\<rparr>"


section \<open>The consistency check ends\<close>

definition finishes :: "'a program \<Rightarrow> bool" where
  "finishes m \<longleftrightarrow> (\<forall>c. fst (m c) \<noteq> Inl Unfinished)"

lemma finishes_and_then: "finishes m \<Longrightarrow> (\<And>x. finishes (k x)) \<Longrightarrow> finishes (and_then m k)"
  by (auto simp: finishes_def and_then_result split: sum.split)

lemma finishes_returns: "finishes (returns x)"
  by (simp add: finishes_def)

lemma finishes_discard: "finishes (discard_state w y)" "finishes (discard_life w y)"
  by (auto simp: finishes_def call_simps store_discard_def lc_discard_def validate_response_id_def raise_if_def)

lemma finishes_for_each: "(\<And>x. finishes (f x)) \<Longrightarrow> finishes (for_each f xs)"
  by (induction xs) (auto intro: finishes_and_then finishes_returns)

lemma store_get_error: "fst (store_get now y s) \<noteq> Inl Unfinished"
  by (auto simp: store_get_def validate_response_id_def raise_if_def Let_def split: option.split)

lemma lc_retrieve_error: "fst (lc_retrieve now y s) \<noteq> Inl Unfinished"
  by (cases "blank y"; cases "map_of (lc_active (purge_expired_retained_locked now s)) y")
    (simp_all add: lc_retrieve_def Let_def)

lemma store_get_ids: "st_ids (snd (store_get now y s)) \<subseteq> st_ids s"
proof
  fix x
  assume "x \<in> st_ids (snd (store_get now y s))"
  then obtain st where "map_of (st_records (snd (store_get now y s))) x = Some st"
    unfolding in_keys_iff by (elim exE)
  then have "map_option sr_record (map_of (st_records s) x) = Some (sr_record st)"
    using store_get_within [of s now y] unfolding records_within_def by blast
  then show "x \<in> st_ids s" unfolding in_keys_iff by auto
qed

lemma chain_loop_finishes:
  assumes q: "quiet w"
  shows "card (st_ids (au_state c) - set seen) < fuel \<Longrightarrow>
    fst (chain_loop fuel w rid model cur seen descs c) \<noteq> Inl Unfinished"
proof (induction fuel arbitrary: cur seen descs c)
  case (Suc fuel)
  have "finishes (and_then (discard_state w y) (\<lambda>_. and_then (for_each (discard_life w) descs) (\<lambda>_. returns False)))" for y
    by (intro finishes_and_then finishes_discard finishes_for_each finishes_returns)
  then have up: "fst (and_then (discard_state w y) (\<lambda>_. and_then (for_each (discard_life w) descs) (\<lambda>_. returns False)) e)
      \<noteq> Inl Unfinished" for y e unfolding finishes_def by blast
  have "finishes (and_then (discard_state w y) (\<lambda>_. and_then (discard_life w y)
      (\<lambda>_. and_then (for_each (discard_life w) descs) (\<lambda>_. returns False))))" for y
    by (intro finishes_and_then finishes_discard finishes_for_each finishes_returns)
  then have up3: "fst (and_then (discard_state w y) (\<lambda>_. and_then (discard_life w y)
      (\<lambda>_. and_then (for_each (discard_life w) descs) (\<lambda>_. returns False))) e) \<noteq> Inl Unfinished" for y e
    unfolding finishes_def by blast
  show ?case
  proof (cases cur)
    case (Some x)
    show ?thesis
    proof (cases "x \<in> set seen")
      case False
      obtain v c1 where get: "call_state w (\<lambda>now. store_get now x) c = (v, c1)" by fastforce
      note g = quiet_call_state [OF q get]
      have v: "v \<noteq> Inl Unfinished" using g store_get_error by (metis fst_conv)
      show ?thesis
      proof (cases "\<exists>rec. v = Inr (Some rec) \<and> rec_model rec = model")
        case True
        then obtain rec where rec: "v = Inr (Some rec)" "rec_model rec = model" by blast
        obtain u c2 where ret: "call_life w (\<lambda>now. lc_retrieve now x) c1 = (u, c2)" by fastforce
        note r = quiet_call_life [OF q ret]
        have u: "u \<noteq> Inl Unfinished" using r lc_retrieve_error by (metis fst_conv)
        have "x \<in> st_ids (au_state c)"
        proof -
          have "map_option sr_record (map_of (st_records (au_state c)) x) = Some rec"
            using g rec store_get_Some by (metis fst_conv)
          then show ?thesis unfolding in_keys_iff by auto
        qed
        moreover have "st_ids (au_state c2) \<subseteq> st_ids (au_state c)"
          using g r store_get_ids by (metis snd_conv)
        ultimately have "st_ids (au_state c2) - set (x # seen) \<subset> st_ids (au_state c) - set seen"
          using False by auto
        then have "card (st_ids (au_state c2) - set (x # seen)) < card (st_ids (au_state c) - set seen)"
          by (rule psubset_card_mono [rotated]) simp
        then have "fst (chain_loop fuel w rid model p (x # seen) ds c2) \<noteq> Inl Unfinished" for p ds
          using Suc.prems by (intro Suc.IH) simp
        then show ?thesis
          using Some False rec u up3 get ret by (auto simp: Let_def and_then_result split: sum.split option.split)
      next
        case False
        then show ?thesis using Some \<open>x \<notin> set seen\<close> v up get
          by (auto simp: Let_def and_then_result split: sum.split option.split)
      qed
    qed (use Some up in \<open>simp add: Let_def\<close>)
  qed simp
qed simp



section \<open>The life of continuation pins\<close>

text \<open>Only tasks of the owner itself touch its entry of the pin table.\<close>

definition env_keeps_pins :: "string \<Rightarrow> schedule \<Rightarrow> bool" where
  "env_keeps_pins owner w \<longleftrightarrow> (\<forall>i a. map_of (au_pins (sc_env w i a)) owner = map_of (au_pins a) owner)"

definition holds_pins :: "string \<Rightarrow> (string list \<times> string list) option \<Rightarrow> authority \<Rightarrow> bool" where
  "holds_pins owner v a \<longleftrightarrow> map_of (au_pins a) owner = v"

lemma pins_call:
  assumes "env_keeps_pins owner w"
  shows "keeps_state (holds_pins owner v) (call_state w f)" "keeps_state (holds_pins owner v) (call_life w g)"
  using assms by (auto intro!: keeps_stateI simp: holds_pins_def call_simps env_keeps_pins_def)

lemma pins_modify:
  "(\<And>a. au_pins (f a) = au_pins a) \<Longrightarrow> keeps_state (holds_pins owner v) (modify f)"
  by (rule keeps_modify) (simp add: holds_pins_def)

lemma pins_unpin:
  "env_keeps_pins owner w \<Longrightarrow> keeps_state (holds_pins owner v) (unpin_chains w xs ys)"
  unfolding unpin_chains_def by (intro keeps_intros pins_call)

lemma pins_chain_loop:
  "env_keeps_pins owner w \<Longrightarrow> keeps_state (holds_pins owner v) (chain_loop fuel w rid model cur seen descs)"
proof (induction fuel arbitrary: cur seen descs)
  case 0
  show ?case by (simp split: option.split add: keeps_returns keeps_raises)
next
  case (Suc fuel)
  show ?case
    unfolding chain_loop.simps Let_def
    by (intro keeps_intros keeps_for_each pins_call Suc.IH Suc.prems)
qed

lemma pins_resolve_body:
  assumes "env_keeps_pins owner w"
  shows "keeps_state (holds_pins owner v) (resolve_body w rid model)"
proof -
  have "keeps_state (holds_pins owner v) (retained_chain_is_consistent w rid model)"
    unfolding retained_chain_is_consistent_def
    by (rule keeps_with_state) (rule keeps_stateD [OF pins_chain_loop [OF assms]])
  then show ?thesis
    unfolding resolve_body_def
    by (intro keeps_intros pins_call [OF assms] pins_modify) (simp_all add: drop_pending_def)
qed

lemma release_clears:
  assumes "env_keeps_pins owner w"
  shows "map_of (au_pins (snd (release_continuation w owner a))) owner = None"
proof -
  let ?a = "a\<lparr>au_pins := AList.delete owner (au_pins a)\<rparr>"
  have "holds_pins owner None ?a" by (simp add: holds_pins_def dict_simps)
  then have "holds_pins owner None (snd (unpin_chains w xs ys ?a))" for xs ys
    by (rule keeps_stateD [OF pins_unpin [OF assms]])
  then show ?thesis
    by (auto simp: release_continuation_def with_state_def modify_def holds_pins_def dict_simps
        split: option.split)
qed

lemma finally_clears:
  "env_keeps_pins owner w \<Longrightarrow>
    map_of (au_pins (snd (finally_do m (release_continuation w owner) c))) owner = None"
  using finally_release [of m c "fst (m c)" "snd (m c)" w owner] release_clears by simp

lemma pin_continuation_table:
  assumes env: "env_keeps_pins owner w" and free: "map_of (au_pins a) owner = None"
  shows "map_of (au_pins (snd (pin_continuation w owner rid a))) owner
    = None \<longleftrightarrow> fst (pin_continuation w owner rid a) \<noteq> Inr True"
proof -
  obtain v a1 where life: "call_life w (\<lambda>now. lc_pin_chain now rid) a = (v, a1)" by fastforce
  have h1: "holds_pins owner None a1"
    using keeps_stateD [OF pins_call(2) [OF env], of None a "\<lambda>now. lc_pin_chain now rid"] free life
    by (simp add: holds_pins_def)
  obtain x a2 where st: "call_state w (\<lambda>now. store_pin_chain now rid) a1 = (x, a2)" by fastforce
  have h2: "holds_pins owner None a2"
    using keeps_stateD [OF pins_call(1) [OF env] h1, of "\<lambda>now. store_pin_chain now rid"] st by simp
  have u: "holds_pins owner None (snd (and_then (unpin_chains w [] ids) (\<lambda>_. raises e) a2))" for ids e
    by (rule keeps_stateD [where P = "holds_pins owner None"], intro keeps_intros pins_unpin env, rule h2)
  have u': "holds_pins owner None (snd (and_then (unpin_chains w [] ids) (\<lambda>_. returns False) a2))" for ids
    by (rule keeps_stateD [where P = "holds_pins owner None"], intro keeps_intros pins_unpin env, rule h2)
  show ?thesis
  proof (cases v)
    case (Inr y)
    show ?thesis
    proof (cases y)
      case (Some ids)
      have "fst (and_then (unpin_chains w [] ids) (\<lambda>_. raises e) a2) \<noteq> Inr True"
        "fst (and_then (unpin_chains w [] ids) (\<lambda>_. returns False) a2) \<noteq> Inr True" for e
        by (auto simp: and_then_result split: sum.split)
      note fails = this
      have eq: "pin_continuation w owner rid a = (case (x, a2) of
             (Inl e, a') \<Rightarrow> and_then (unpin_chains w [] ids) (\<lambda>_. raises e) a'
           | (Inr None, a') \<Rightarrow> and_then (unpin_chains w [] ids) (\<lambda>_. returns False) a'
           | (Inr (Some state_ids), a') \<Rightarrow>
               (Inr True, a'\<lparr>au_pins := AList.update owner (state_ids, ids) (au_pins a')\<rparr>))"
        using free life st Inr Some by (simp add: pin_continuation_def with_state_def)
      show ?thesis
      proof (cases x)
        case (Inl e)
        then show ?thesis using eq fails(1) u [of ids e] by (simp add: holds_pins_def)
      next
        case (Inr z)
        then show ?thesis using eq fails(2) u' [of ids]
          by (cases z) (simp_all add: holds_pins_def dict_simps)
      qed
    qed (use free life Inr h1 in \<open>simp add: pin_continuation_def with_state_def holds_pins_def\<close>)
  qed (use free life h1 in \<open>simp add: pin_continuation_def with_state_def holds_pins_def\<close>)
qed



end
