(* ===== verification/Session.thy ===== *)
theory Session
  imports Store_Properties
begin

text \<open>
  The stateful serving session, \<open>src/exqserve/state/session.py\<close>: it forwards the events of an
  inner session and stores the response when the generation completes. The inner session is a
  list of what its iterator still yields (an event or an exception; the end of the list is
  \<open>StopAsyncIteration\<close>). The store is used through its protocol \<open>ResponseStore\<close>: \<open>put\<close> is an
  argument of the model, and the locale \<open>response_store\<close> states what the session relies on.
\<close>

section \<open>The session\<close>

record serving_session =
  ss_inner :: "generation_event res list"
  ss_response_id :: string
  ss_model :: string
  ss_parent :: "string option"
  ss_input :: "canonical_item list"
  ss_store_response :: bool
  ss_outputs :: "canonical_item list"
  ss_terminal :: bool
  ss_cancelled :: bool

definition new_session ::
  "generation_event res list \<Rightarrow> string \<Rightarrow> string \<Rightarrow> canonical_item list \<Rightarrow> bool \<Rightarrow> string option \<Rightarrow>
    serving_session res" where
  "new_session inner rid model input store_response parent =
     raise_if (blank rid) (ValueError ''response_id must not be empty'')
    (raise_if (blank model) (ValueError ''model must not be empty'')
    (Inr \<lparr>ss_inner = inner, ss_response_id = rid, ss_model = model, ss_parent = parent,
          ss_input = input, ss_store_response = store_response, ss_outputs = [],
          ss_terminal = False, ss_cancelled = False\<rparr>))"

primrec disposition_value :: "disposition \<Rightarrow> string" where
  "disposition_value STORED = ''stored''"
| "disposition_value REFUSED_TOO_LARGE = ''refused_too_large''"
| "disposition_value REFUSED_MISSING_PARENT = ''refused_missing_parent''"
| "disposition_value REFUSED_MODEL_MISMATCH = ''refused_model_mismatch''"
| "disposition_value REFUSED_INVALID_GRAPH = ''refused_invalid_graph''"
| "disposition_value REFUSED_BUDGET = ''refused_budget''"

definition store_refused :: "string \<Rightarrow> disposition \<Rightarrow> generation_event" where
  "store_refused rid d = GenerationFailed rid (canonical_error4 INTERNAL ''response_store_refused''
     (''Response state could not be stored ('' @ disposition_value d @ '').'') False)"

text \<open>The item an event contributes to the stored output.\<close>

definition output_of :: "generation_event \<Rightarrow> canonical_item list" where
  "output_of e = (case e of
       ReasoningCompleted _ t \<Rightarrow> [ReasoningItem \<lparr>ri_text = t, starts_new_assistant_segment = False\<rparr>]
     | TextCompleted _ t \<Rightarrow> [MessageItem \<lparr>mi_role = ASSISTANT, mi_text = t\<rparr>]
     | ToolCallCompleted _ c \<Rightarrow> [ToolCallItem c]
     | _ \<Rightarrow> [])"

definition finish_session :: "serving_session \<Rightarrow> serving_session" where
  "finish_session s = s\<lparr>ss_terminal := True\<rparr>"

definition session_next ::
  "(response_record \<Rightarrow> 't \<Rightarrow> disposition res \<times> 't) \<Rightarrow> serving_session \<times> 't \<Rightarrow>
    generation_event res \<times> serving_session \<times> 't" where
  "session_next put st = (case st of (s, t) \<Rightarrow>
     (case ss_inner s of
        [] \<Rightarrow> (Inl StopAsyncIteration, s, t)
      | Inl x # rest \<Rightarrow> (Inl x, s\<lparr>ss_inner := rest\<rparr>, t)
      | Inr e # rest \<Rightarrow>
          (let s = s\<lparr>ss_inner := rest, ss_outputs := ss_outputs s @ output_of e\<rparr>
           in case e of
                GenerationCompleted _ _ _ _ \<Rightarrow>
                  (if ss_store_response s
                   then (case mk_response_record (ss_response_id s) (ss_model s) (ss_parent s)
                                (ss_input s @ ss_outputs s) of
                           Inl x \<Rightarrow> (Inl x, s, t)
                         | Inr r \<Rightarrow>
                             (case put r t of
                                (Inl x, t') \<Rightarrow> (Inl x, s, t')
                              | (Inr d, t') \<Rightarrow>
                                  (Inr (if d = STORED then e else store_refused (ss_response_id s) d),
                                   finish_session s, t')))
                   else (Inr e, finish_session s, t))
              | GenerationFailed _ _ \<Rightarrow> (Inr e, finish_session s, t)
              | GenerationCancelled _ \<Rightarrow> (Inr e, finish_session s, t)
              | _ \<Rightarrow> (Inr e, s, t))))"

text \<open>\<open>cancel\<close>: the result says whether the inner session is cancelled. \<open>__aexit__\<close> does the same.\<close>

definition session_cancel :: "serving_session \<Rightarrow> bool \<times> serving_session" where
  "session_cancel s = (if ss_terminal s \<or> ss_cancelled s then (False, s)
     else (True, s\<lparr>ss_cancelled := True\<rparr>))"

definition session_exit :: "serving_session \<Rightarrow> bool \<times> serving_session" where
  "session_exit s = (if ss_terminal s then (False, s) else session_cancel s)"

text \<open>Consuming the session until it raises or its inner session ends.\<close>

fun session_drain ::
  "nat \<Rightarrow> (response_record \<Rightarrow> 't \<Rightarrow> disposition res \<times> 't) \<Rightarrow> serving_session \<times> 't \<Rightarrow>
    generation_event list \<times> exn \<times> serving_session \<times> 't" where
  "session_drain 0 put st = ([], Unfinished, st)"
| "session_drain (Suc n) put st = (case session_next put st of
     (Inl x, st') \<Rightarrow> ([], x, st')
   | (Inr e, st') \<Rightarrow> (case session_drain n put st' of (es, x, st'') \<Rightarrow> (e # es, x, st'')))"

section \<open>What the session relies on\<close>

text \<open>\<open>reads rid t\<close> is the conversation that \<open>t\<close> returns for \<open>rid\<close>; \<open>valid\<close> is the store's own
  invariant. A stored record reads as its parent's conversation followed by its own items.\<close>

locale response_store =
  fixes put :: "response_record \<Rightarrow> 't \<Rightarrow> disposition res \<times> 't"
    and reads :: "string \<Rightarrow> 't \<Rightarrow> canonical_item list option"
    and valid :: "'t \<Rightarrow> bool"
  assumes put_valid: "valid t \<Longrightarrow> valid (snd (put r t))"
    and put_reads: "valid t \<Longrightarrow> mk_response_record rid m parent items = Inr r \<Longrightarrow>
        put r t = (Inr STORED, t') \<Longrightarrow>
        reads rid t' = map_option (\<lambda>before. before @ items)
          (case parent of None \<Rightarrow> Some [] | Some p \<Rightarrow> reads p t)"
begin

text \<open>The forwarded prefix that does not end the session.\<close>

definition plain :: "generation_event \<Rightarrow> bool" where
  "plain e \<longleftrightarrow> \<not> is_terminal_event e"

lemma next_plain:
  assumes "ss_inner s = Inr e # rest" and "plain e"
  shows "session_next put (s, t)
    = (Inr e, s\<lparr>ss_inner := rest, ss_outputs := ss_outputs s @ output_of e\<rparr>, t)"
  using assms by (cases e) (simp_all add: session_next_def Let_def plain_def)

lemma drain_plain:
  assumes "\<forall>e\<in>set es. plain e" and "ss_inner s = map Inr es @ rest"
  shows "session_drain (length es + n) put (s, t)
    = (case session_drain n put
         (s\<lparr>ss_inner := rest, ss_outputs := ss_outputs s @ concat (map output_of es)\<rparr>, t) of
       (fs, x, st) \<Rightarrow> (es @ fs, x, st))"
  using assms
proof (induction es arbitrary: s)
  case Nil
  then show ?case by (cases s) simp
next
  case (Cons e es)
  let ?s = "s\<lparr>ss_inner := map Inr es @ rest, ss_outputs := ss_outputs s @ output_of e\<rparr>"
  have "session_next put (s, t) = (Inr e, ?s, t)" using Cons.prems by (intro next_plain) simp_all
  moreover have "session_drain (length es + n) put (?s, t)
      = (case session_drain n put (?s\<lparr>ss_inner := rest, ss_outputs := ss_outputs ?s @ concat (map output_of es)\<rparr>, t) of
         (fs, x, st) \<Rightarrow> (es @ fs, x, st))"
    using Cons.prems by (intro Cons.IH) simp_all
  ultimately show ?case by (simp split: prod.split)
qed

text \<open>A session whose inner generation completes after \<open>es\<close>.\<close>

lemma drain_completed:
  assumes valid: "valid t" and new: "new_session inner rid model input True parent = Inr s"
    and inner: "inner = map Inr es @ [Inr (GenerationCompleted q c u stop)]"
    and es: "\<forall>e\<in>set es. plain e"
    and rec: "mk_response_record rid model parent (input @ concat (map output_of es)) = Inr r"
    and put: "put r t = (Inr d, t')"
  shows "fst (session_drain (length es + 2) put (s, t))
      = es @ [if d = STORED then GenerationCompleted q c u stop else store_refused rid d]"
    and "snd (snd (snd (session_drain (length es + 2) put (s, t)))) = t'"
    and "d = STORED \<Longrightarrow> reads rid t' = map_option (\<lambda>before. before @ input @ concat (map output_of es))
          (case parent of None \<Rightarrow> Some [] | Some p \<Rightarrow> reads p t)"
proof -
  have s: "s = \<lparr>ss_inner = inner, ss_response_id = rid, ss_model = model, ss_parent = parent,
      ss_input = input, ss_store_response = True, ss_outputs = [], ss_terminal = False, ss_cancelled = False\<rparr>"
    using new by (simp add: new_session_def)
  let ?s = "s\<lparr>ss_inner := [Inr (GenerationCompleted q c u stop)], ss_outputs := ss_outputs s @ concat (map output_of es)\<rparr>"
  have two: "session_drain 2 put (?s, t)
      = ([if d = STORED then GenerationCompleted q c u stop else store_refused rid d], StopAsyncIteration,
         finish_session (?s\<lparr>ss_inner := []\<rparr>), t')"
    using rec put
    by (simp add: numeral_2_eq_2 session_next_def Let_def s output_of_def finish_session_def)
  have "session_drain (length es + 2) put (s, t) = (case session_drain 2 put (?s, t) of
       (fs, x, st) \<Rightarrow> (es @ fs, x, st))"
    by (rule drain_plain [OF es]) (simp add: s inner)
  then show "fst (session_drain (length es + 2) put (s, t))
      = es @ [if d = STORED then GenerationCompleted q c u stop else store_refused rid d]"
    and "snd (snd (snd (session_drain (length es + 2) put (s, t)))) = t'"
    by (simp_all add: two)
  show "reads rid t' = map_option (\<lambda>before. before @ input @ concat (map output_of es))
          (case parent of None \<Rightarrow> Some [] | Some p \<Rightarrow> reads p t)" if "d = STORED"
    using put_reads [OF valid rec] put that by simp
qed

end

section \<open>The in-memory store provides the protocol\<close>

definition store_reads :: "seconds \<Rightarrow> string \<Rightarrow> store \<Rightarrow> canonical_item list option" where
  "store_reads now rid s = (case fst (store_materialize now rid s) of Inl _ \<Rightarrow> None | Inr v \<Rightarrow> v)"

interpretation memory_store: response_store "store_put now" "store_reads now" "\<lambda>s. store_inv s \<and> within_budget s"
  for now :: seconds
proof (unfold_locales, goal_cases)
  case (1 t r)
  then show ?case using put_ok by (simp add: snd_store_put)
next
  case (2 t rid m parent items r t')
  obtain ev where put: "put_with_evictions now r t = (Inr (STORED, ev), t')"
    using 2(3) by (cases "put_with_evictions now r t"; cases "fst (put_with_evictions now r t)")
      (auto simp: store_put_def)
  have inv: "store_inv t" using 2(1) by simp
  show ?case
    using stored_reads [OF inv 2(2) put] by (cases parent) (auto simp: store_reads_def)
qed



end
