(* ===== verification/Json_Parse.thy ===== *)
theory Json_Parse
  imports Json
begin

text \<open>
  Strict JSON, \<open>src/exqserve/agent/_json.py\<close>: \<open>json.loads\<close> with the hooks that reject duplicate
  keys, non-finite constants and over-long integers, and the canonical encoder. The grammar is the
  one of Python's \<open>json.decoder\<close>: whitespace is blank, tab, newline, carriage return; strings are
  strict; numbers are \<open>-?(0|[1-9][0-9]*)(\.[0-9]+)?([eE][+-]?[0-9]+)?\<close>.

  Reading and printing a binary floating point number is a parameter: \<open>fr t\<close> is the text
  \<open>float.__repr__\<close> gives for \<open>float(t)\<close>, or None when that is not finite. The model's strings hold
  code points below 256; an escape for a larger one is the value \<open>NotRepresentable\<close>. The parser has
  fuel, and \<open>OutOfFuel\<close> is shown never to be its answer. Not modelled: the wording of the error
  messages, and the decoder's recursion limit.
\<close>

datatype json_error = InvalidJson | DuplicateJsonKey string | NotRepresentable | OutOfFuel

type_synonym 'a parsed = "json_error + ('a \<times> string)"

section \<open>Lexical parts\<close>

definition json_ws :: "char \<Rightarrow> bool" where
  "json_ws c \<longleftrightarrow> c = CHR 0x20 \<or> c = CHR 0x09 \<or> c = CHR 0x0A \<or> c = CHR 0x0D"

abbreviation skip_ws :: "string \<Rightarrow> string" where
  "skip_ws s \<equiv> dropWhile json_ws s"

definition is_digit :: "char \<Rightarrow> bool" where
  "is_digit c \<longleftrightarrow> 48 \<le> (of_char c :: nat) \<and> (of_char c :: nat) \<le> 57"

definition digit_value :: "char \<Rightarrow> nat" where
  "digit_value c = of_char c - 48"

definition digits_value :: "string \<Rightarrow> nat" where
  "digits_value ds = foldl (\<lambda>a c. 10 * a + digit_value c) 0 ds"

definition hex_value :: "char \<Rightarrow> nat option" where
  "hex_value c = (let n = of_char c :: nat in
     if 48 \<le> n \<and> n \<le> 57 then Some (n - 48)
     else if 97 \<le> n \<and> n \<le> 102 then Some (n - 87)
     else if 65 \<le> n \<and> n \<le> 70 then Some (n - 55) else None)"

text \<open>The character after a backslash, other than \<open>u\<close>.\<close>

definition short_escape :: "char \<Rightarrow> char option" where
  "short_escape c =
     (if c = CHR 0x22 then Some (CHR 0x22) else if c = CHR 0x5C then Some (CHR 0x5C)
      else if c = CHR ''/'' then Some (CHR ''/'') else if c = CHR ''b'' then Some (CHR 0x08)
      else if c = CHR ''f'' then Some (CHR 0x0C) else if c = CHR ''n'' then Some (CHR 0x0A)
      else if c = CHR ''r'' then Some (CHR 0x0D) else if c = CHR ''t'' then Some (CHR 0x09) else None)"

definition four_hex :: "char \<Rightarrow> char \<Rightarrow> char \<Rightarrow> char \<Rightarrow> nat option" where
  "four_hex a b c d = (case (hex_value a, hex_value b, hex_value c, hex_value d) of
     (Some w, Some x, Some y, Some z) \<Rightarrow> Some (((w * 16 + x) * 16 + y) * 16 + z) | _ \<Rightarrow> None)"

definition push_char :: "char \<Rightarrow> string parsed \<Rightarrow> string parsed" where
  "push_char c r = map_sum id (\<lambda>(s, rest). (c # s, rest)) r"

definition read_escape :: "string \<Rightarrow> json_error + (char \<times> string)" where
  "read_escape s = (case s of [] \<Rightarrow> Inl InvalidJson
     | e # ds \<Rightarrow>
        if e = CHR ''u'' then (case ds of
            h1 # h2 # h3 # h4 # rest \<Rightarrow> (case four_hex h1 h2 h3 h4 of
                None \<Rightarrow> Inl InvalidJson
              | Some n \<Rightarrow> if n < 256 then Inr (char_of n, rest) else Inl NotRepresentable)
          | _ \<Rightarrow> Inl InvalidJson)
        else (case short_escape e of None \<Rightarrow> Inl InvalidJson | Some d \<Rightarrow> Inr (d, ds)))"

lemma read_escape_shorter: "read_escape s = Inr (d, r) \<Longrightarrow> length r < length s"
  by (auto simp: read_escape_def split: list.splits if_splits option.splits)

function scan_string :: "string \<Rightarrow> string parsed" where
  "scan_string [] = Inl InvalidJson"
| "scan_string (c # cs) =
     (if c = CHR 0x22 then Inr ([], cs)
      else if c = CHR 0x5C then (case read_escape cs of Inl e \<Rightarrow> Inl e
        | Inr (d, rest) \<Rightarrow> push_char d (scan_string rest))
      else if (of_char c :: nat) < 32 then Inl InvalidJson
      else push_char c (scan_string cs))"
  by pat_completeness auto

termination
  by (relation "measure length") (auto dest!: sym [of "Inr _"] read_escape_shorter)

text \<open>The next character is \<open>c\<close>; what follows it.\<close>

definition expect :: "char \<Rightarrow> string \<Rightarrow> string option" where
  "expect c s = (case s of [] \<Rightarrow> None | x # t \<Rightarrow> if x = c then Some t else None)"

text \<open>\<open>NUMBER_RE\<close>: the integer part, the fraction and exponent, and the rest.\<close>

definition lex_fraction :: "string \<Rightarrow> string \<times> string" where
  "lex_fraction s = (case expect (CHR ''.'') s of None \<Rightarrow> ([], s)
     | Some t \<Rightarrow> if takeWhile is_digit t = [] then ([], s)
         else (CHR ''.'' # takeWhile is_digit t, dropWhile is_digit t))"

definition lex_exponent :: "string \<Rightarrow> string \<times> string" where
  "lex_exponent s = (case s of [] \<Rightarrow> ([], s) | e # t \<Rightarrow>
     if e = CHR ''e'' \<or> e = CHR ''E'' then
       (let (sign, u) = (case t of x # u \<Rightarrow> if x = CHR ''+'' \<or> x = CHR ''-'' then ([x], u) else ([], t) | [] \<Rightarrow> ([], t)) in
        if takeWhile is_digit u = [] then ([], s)
        else (e # sign @ takeWhile is_digit u, dropWhile is_digit u))
     else ([], s))"

definition lex_natural :: "string \<Rightarrow> (string \<times> string) option" where
  "lex_natural s = (case s of [] \<Rightarrow> None | c # t \<Rightarrow>
     if c = CHR ''0'' then Some ([c], t)
     else if is_digit c then Some (takeWhile is_digit s, dropWhile is_digit s) else None)"

definition lex_number :: "string \<Rightarrow> (bool \<times> string \<times> string \<times> string) option" where
  "lex_number s = (let (neg, t) = (case expect (CHR ''-'') s of Some t \<Rightarrow> (True, t) | None \<Rightarrow> (False, s)) in
     case lex_natural t of None \<Rightarrow> None
     | Some (ds, u) \<Rightarrow> (let (f, v) = lex_fraction u; (e, w) = lex_exponent v in Some (neg, ds, f @ e, w)))"

text \<open>\<open>_parse_bounded_int\<close> (the interpreter refuses more than 4300 digits) and
  \<open>_parse_finite_float\<close>.\<close>

definition parse_bounded_int :: "bool \<Rightarrow> string \<Rightarrow> json_error + json" where
  "parse_bounded_int neg ds = (if 4300 < length ds then Inl InvalidJson
     else Inr (JInt (if neg then - int (digits_value ds) else int (digits_value ds))))"

definition parse_finite_float :: "(string \<Rightarrow> string option) \<Rightarrow> string \<Rightarrow> json_error + json" where
  "parse_finite_float fr t = (case fr t of None \<Rightarrow> Inl InvalidJson | Some r \<Rightarrow> Inr (JFloat r))"

definition parse_number :: "(string \<Rightarrow> string option) \<Rightarrow> string \<Rightarrow> json parsed" where
  "parse_number fr s = (case lex_number s of None \<Rightarrow> Inl InvalidJson
     | Some (neg, ds, fe, rest) \<Rightarrow>
        map_sum id (\<lambda>v. (v, rest))
          (if fe = [] then parse_bounded_int neg ds
           else parse_finite_float fr ((if neg then ''-'' else []) @ ds @ fe)))"

text \<open>\<open>_object_from_pairs\<close>: the first key that repeats an earlier one.\<close>

fun object_from_pairs :: "(string \<times> json) list \<Rightarrow> (string \<times> json) list \<Rightarrow> json_error + json" where
  "object_from_pairs acc [] = Inr (JObj (rev acc))"
| "object_from_pairs acc ((k, v) # kvs) =
     (if k \<in> fst ` set acc then Inl (DuplicateJsonKey k) else object_from_pairs ((k, v) # acc) kvs)"

section \<open>The parser\<close>

definition strip_prefix :: "string \<Rightarrow> string \<Rightarrow> string option" where
  "strip_prefix p s = (if take (length p) s = p then Some (drop (length p) s) else None)"

definition parse_word :: "string \<Rightarrow> json \<Rightarrow> string \<Rightarrow> json parsed" where
  "parse_word w v s = (case strip_prefix w s of Some rest \<Rightarrow> Inr (v, rest) | None \<Rightarrow> Inl InvalidJson)"

fun parse_value :: "(string \<Rightarrow> string option) \<Rightarrow> nat \<Rightarrow> string \<Rightarrow> json parsed"
  and parse_elements :: "(string \<Rightarrow> string option) \<Rightarrow> nat \<Rightarrow> string \<Rightarrow> json list parsed"
  and parse_members :: "(string \<Rightarrow> string option) \<Rightarrow> nat \<Rightarrow> string \<Rightarrow> (string \<times> json) list parsed"
where
  "parse_value fr 0 s = Inl OutOfFuel"
| "parse_value fr (Suc n) s = (case s of [] \<Rightarrow> Inl InvalidJson
    | c # cs \<Rightarrow>
      if c = CHR 0x22 then map_sum id (\<lambda>(t, rest). (JStr t, rest)) (scan_string cs)
      else if c = CHR ''{'' then
        (case expect (CHR ''}'') (skip_ws cs) of Some rest \<Rightarrow> Inr (JObj [], rest)
         | None \<Rightarrow> (case parse_members fr n (skip_ws cs) of Inl e \<Rightarrow> Inl e
            | Inr (kvs, rest) \<Rightarrow> map_sum id (\<lambda>v. (v, rest)) (object_from_pairs [] kvs)))
      else if c = CHR ''['' then
        (case expect (CHR '']'') (skip_ws cs) of Some rest \<Rightarrow> Inr (JArr [], rest)
         | None \<Rightarrow> (case parse_elements fr n (skip_ws cs) of Inl e \<Rightarrow> Inl e
            | Inr (vs, rest) \<Rightarrow> Inr (JArr vs, rest)))
      else if c = CHR ''n'' then parse_word ''null'' JNull s
      else if c = CHR ''t'' then parse_word ''true'' (JBool True) s
      else if c = CHR ''f'' then parse_word ''false'' (JBool False) s
      else parse_number fr s)"
| "parse_elements fr 0 s = Inl OutOfFuel"
| "parse_elements fr (Suc n) s = (case parse_value fr n s of Inl e \<Rightarrow> Inl e
    | Inr (v, rest) \<Rightarrow> (case expect (CHR '']'') (skip_ws rest) of Some t \<Rightarrow> Inr ([v], t)
      | None \<Rightarrow> (case expect (CHR '','') (skip_ws rest) of None \<Rightarrow> Inl InvalidJson
        | Some t \<Rightarrow> (case parse_elements fr n (skip_ws t) of Inl e \<Rightarrow> Inl e
            | Inr (vs, u) \<Rightarrow> Inr (v # vs, u)))))"
| "parse_members fr 0 s = Inl OutOfFuel"
| "parse_members fr (Suc n) s = (case expect (CHR 0x22) s of None \<Rightarrow> Inl InvalidJson
    | Some cs \<Rightarrow> (case scan_string cs of Inl e \<Rightarrow> Inl e
      | Inr (k, rest) \<Rightarrow> (case expect (CHR '':'') (skip_ws rest) of None \<Rightarrow> Inl InvalidJson
        | Some t \<Rightarrow> (case parse_value fr n (skip_ws t) of Inl e \<Rightarrow> Inl e
          | Inr (v, u) \<Rightarrow> (case expect (CHR ''}'') (skip_ws u) of Some w \<Rightarrow> Inr ([(k, v)], w)
            | None \<Rightarrow> (case expect (CHR '','') (skip_ws u) of None \<Rightarrow> Inl InvalidJson
              | Some w \<Rightarrow> (case parse_members fr n (skip_ws w) of Inl e \<Rightarrow> Inl e
                  | Inr (kvs, x) \<Rightarrow> Inr ((k, v) # kvs, x))))))))"

definition parse_json_strict :: "(string \<Rightarrow> string option) \<Rightarrow> string \<Rightarrow> json_error + json" where
  "parse_json_strict fr text = (case parse_value fr (2 * length text + 2) (skip_ws text) of Inl e \<Rightarrow> Inl e
     | Inr (v, rest) \<Rightarrow> if skip_ws rest = [] then Inr v else Inl InvalidJson)"

definition canonical_json_dumps :: "json \<Rightarrow> string" where
  "canonical_json_dumps v = dumps True v"

section \<open>The fuel is enough\<close>

lemma expect_Some: "expect c s = Some t \<longleftrightarrow> s = c # t"
  by (auto simp: expect_def split: list.split)

lemma expect_Cons [simp]: "expect c (x # t) = (if x = c then Some t else None)"
  by (simp add: expect_def)

lemma expect_Nil [simp]: "expect c [] = None"
  by (simp add: expect_def)

lemma skip_ws_le: "length (skip_ws s) \<le> length s"
  by (rule length_dropWhile_le)

lemma push_char_Inr: "push_char c r = Inr (s, t) \<longleftrightarrow> (\<exists>s'. s = c # s' \<and> r = Inr (s', t))"
  by (cases r) (auto simp: push_char_def)

lemma push_char_Inl [simp]: "push_char c r = Inl e \<longleftrightarrow> r = Inl e"
  by (cases r) (auto simp: push_char_def)

lemma scan_string_shorter: "scan_string s = Inr (t, r) \<Longrightarrow> length r < length s"
proof (induction s arbitrary: t rule: scan_string.induct)
  case (2 c cs)
  then show ?case
    by (auto simp: push_char_Inr less_Suc_eq split: if_splits sum.splits prod.splits
        dest!: read_escape_shorter)
      (meson less_trans)
qed simp

lemma scan_string_fuel [simp]: "scan_string s \<noteq> Inl OutOfFuel"
proof (induction s rule: scan_string.induct)
  case (2 c cs)
  have "read_escape cs \<noteq> Inl OutOfFuel"
    by (auto simp: read_escape_def split: list.splits if_splits option.splits)
  with 2 show ?case by (auto split: sum.split prod.split)
qed simp

lemma object_from_pairs_fuel [simp]: "object_from_pairs acc kvs \<noteq> Inl OutOfFuel"
  by (induction acc kvs rule: object_from_pairs.induct) auto

lemma lex_natural_shorter: "lex_natural s = Some (ds, r) \<Longrightarrow> length r < length s"
  by (auto simp: lex_natural_def less_Suc_eq_le length_dropWhile_le split: list.splits if_splits)

lemma lex_fraction_le: "lex_fraction s = (f, r) \<Longrightarrow> length r \<le> length s"
  by (auto simp: lex_fraction_def expect_Some le_SucI length_dropWhile_le split: option.splits if_splits)

lemma lex_exponent_le: "lex_exponent s = (f, r) \<Longrightarrow> length r \<le> length s"
  by (auto simp: lex_exponent_def Let_def le_SucI length_dropWhile_le split: list.splits if_splits)

lemma lex_number_shorter: "lex_number s = Some (neg, ds, f, r) \<Longrightarrow> length r < length s"
  by (auto simp: lex_number_def Let_def expect_Some split: option.splits prod.splits
      dest!: lex_natural_shorter lex_fraction_le lex_exponent_le)

lemma parse_number_shorter: "parse_number fr s = Inr (v, r) \<Longrightarrow> length r < length s"
  using lex_number_shorter by (auto simp: parse_number_def split: option.splits)

lemma parse_number_fuel [simp]: "parse_number fr s \<noteq> Inl OutOfFuel"
  by (auto simp: parse_number_def parse_bounded_int_def parse_finite_float_def
      split: option.splits prod.splits if_splits)

lemma parse_word_shorter: "w \<noteq> [] \<Longrightarrow> parse_word w v s = Inr (u, r) \<Longrightarrow> length r < length s"
  unfolding parse_word_def strip_prefix_def
  by (cases "take (length w) s = w"; cases s; cases w) auto

lemma parse_word_fuel [simp]: "parse_word w v s \<noteq> Inl OutOfFuel"
  by (simp add: parse_word_def split: option.split)


lemma parse_shorter:
  "parse_value fr n s = Inr (v, r) \<Longrightarrow> length r < length s"
  "parse_elements fr n s = Inr (vs, r) \<Longrightarrow> length r < length s"
  "parse_members fr n s = Inr (kvs, r) \<Longrightarrow> length r < length s"
proof (induction fr n s and fr n s and fr n s arbitrary: v r and vs r and kvs r
    rule: parse_value_parse_elements_parse_members.induct)
  case (2 fr n s)
  show ?case
  proof (cases s)
    case (Cons c cs)
    consider "c = CHR 0x22" | "c = CHR ''{''" | "c = CHR ''[''" | "c \<notin> {CHR 0x22, CHR ''{'', CHR ''[''}" by blast
    then show ?thesis
    proof cases
      case 1
      then show ?thesis using "2.prems" Cons by (auto dest!: scan_string_shorter)
    next
      case c: 2
      show ?thesis
      proof (cases "expect (CHR ''}'') (skip_ws cs)")
        case None
        then show ?thesis using "2.prems" "2.IH"(1) Cons c skip_ws_le [of cs]
          by (auto split: sum.splits) (metis less_SucI less_le_trans)
      next
        case (Some t)
        then show ?thesis using "2.prems" Cons c skip_ws_le [of cs] by (auto simp: expect_Some)
      qed
    next
      case c: 3
      show ?thesis
      proof (cases "expect (CHR '']'') (skip_ws cs)")
        case None
        then show ?thesis using "2.prems" "2.IH"(2) Cons c skip_ws_le [of cs]
          by (auto split: sum.splits) (metis less_SucI less_le_trans)
      next
        case (Some t)
        then show ?thesis using "2.prems" Cons c skip_ws_le [of cs] by (auto simp: expect_Some)
      qed
    next
      case 4
      then show ?thesis using "2.prems" Cons parse_word_shorter [of _ _ s] parse_number_shorter [of fr s]
        by (auto split: if_splits)
    qed
  qed (use "2.prems" in simp)
next
  case (4 fr n s)
  then obtain u rest where u: "parse_value fr n s = Inr (u, rest)" by (auto split: sum.splits)
  then have l: "length rest < length s" using "4.IH"(1) by blast
  show ?case
  proof (cases "expect (CHR '']'') (skip_ws rest)")
    case (Some t)
    then show ?thesis using "4.prems" u l skip_ws_le [of rest] by (auto simp: expect_Some)
  next
    case None
    then obtain t us w where t: "skip_ws rest = CHR '','' # t" "parse_elements fr n (skip_ws t) = Inr (us, w)" "r = w"
      using "4.prems" u by (auto simp: expect_Some split: option.splits sum.splits)
    then have "length w < length (skip_ws t)" using "4.IH"(2) u None by (force simp: expect_Some)
    then show ?thesis using t l skip_ws_le [of rest] skip_ws_le [of t] by simp
  qed
next
  case (6 fr n s)
  then obtain cs k rest t u w where s: "s = CHR 0x22 # cs" "scan_string cs = Inr (k, rest)"
      "skip_ws rest = CHR '':'' # t" "parse_value fr n (skip_ws t) = Inr (u, w)"
    by (auto simp: expect_Some split: option.splits sum.splits)
  then have "length w < length (skip_ws t)" using "6.IH"(1) by (force simp: expect_Some)
  then have l: "length w < length s"
    using s scan_string_shorter [OF s(2)] skip_ws_le [of rest] skip_ws_le [of t] by simp
  show ?case
  proof (cases "expect (CHR ''}'') (skip_ws w)")
    case (Some x)
    then show ?thesis using "6.prems" s l skip_ws_le [of w] by (auto simp: expect_Some)
  next
    case None
    then obtain x us y where x: "skip_ws w = CHR '','' # x" "parse_members fr n (skip_ws x) = Inr (us, y)" "r = y"
      using "6.prems" s by (auto simp: expect_Some split: option.splits sum.splits)
    then have "length y < length (skip_ws x)" using "6.IH"(2) s None by (force simp: expect_Some)
    then show ?thesis using x l skip_ws_le [of w] skip_ws_le [of x] by simp
  qed
qed simp_all


lemma parse_fuel:
  "2 * length s + 1 \<le> n \<Longrightarrow> parse_value fr n s \<noteq> Inl OutOfFuel"
  "2 * length s + 2 \<le> n \<Longrightarrow> parse_elements fr n s \<noteq> Inl OutOfFuel"
  "2 * length s + 2 \<le> n \<Longrightarrow> parse_members fr n s \<noteq> Inl OutOfFuel"
proof (induction fr n s and fr n s and fr n s rule: parse_value_parse_elements_parse_members.induct)
  case (2 fr n s)
  show ?case
  proof (cases s)
    case (Cons c cs)
    then have "2 * length (skip_ws cs) + 2 \<le> n" using "2.prems" skip_ws_le [of cs] by simp
    then have ih: "c = CHR ''{'' \<Longrightarrow> expect (CHR ''}'') (skip_ws cs) = None \<Longrightarrow> parse_members fr n (skip_ws cs) \<noteq> Inl OutOfFuel"
      and ih': "c = CHR ''['' \<Longrightarrow> expect (CHR '']'') (skip_ws cs) = None \<Longrightarrow> parse_elements fr n (skip_ws cs) \<noteq> Inl OutOfFuel"
      using "2.IH"(1) [of c cs] "2.IH"(2) [of c cs] Cons by simp_all
    consider "c = CHR 0x22" | "c = CHR ''{''" | "c = CHR ''[''" | "c \<notin> {CHR 0x22, CHR ''{'', CHR ''[''}" by blast
    then show ?thesis
    proof cases
      case c: 2
      then show ?thesis using ih Cons
        by (cases "expect (CHR ''}'') (skip_ws cs)"; cases "parse_members fr n (skip_ws cs)") auto
    next
      case c: 3
      then show ?thesis using ih' Cons
        by (cases "expect (CHR '']'') (skip_ws cs)"; cases "parse_elements fr n (skip_ws cs)") auto
    next
      case 4
      then show ?thesis using Cons by simp
    qed (simp add: Cons)
  qed simp
next
  case (4 fr n s)
  have v: "parse_value fr n s \<noteq> Inl OutOfFuel" using 4 by simp
  have "parse_elements fr n (skip_ws t) \<noteq> Inl OutOfFuel"
    if "parse_value fr n s = Inr (u, rest)" "skip_ws rest = CHR '','' # t" for u rest t
  proof -
    have "2 * length (skip_ws t) + 2 \<le> n"
      using parse_shorter(1) [OF that(1)] that(2) skip_ws_le [of rest] skip_ws_le [of t] "4.prems" by simp
    then show ?thesis using "4.IH"(2) that by (force simp: expect_Some)
  qed
  with v show ?case by (auto simp: expect_Some split: option.split sum.split)
next
  case (6 fr n s)
  have v: "parse_value fr n (skip_ws t) \<noteq> Inl OutOfFuel"
      "parse_value fr n (skip_ws t) = Inr (u, w) \<Longrightarrow> skip_ws w = CHR '','' # x \<Longrightarrow>
        parse_members fr n (skip_ws x) \<noteq> Inl OutOfFuel"
    if "s = CHR 0x22 # cs" "scan_string cs = Inr (k, rest)" "skip_ws rest = CHR '':'' # t" for cs k rest t u w x
  proof -
    have l: "2 * length (skip_ws t) + 4 \<le> n"
      using scan_string_shorter [OF that(2)] that skip_ws_le [of rest] skip_ws_le [of t] "6.prems" by simp
    then show 1: "parse_value fr n (skip_ws t) \<noteq> Inl OutOfFuel"
      using "6.IH"(1) that by (force simp: expect_Some)
    assume w: "parse_value fr n (skip_ws t) = Inr (u, w)" "skip_ws w = CHR '','' # x"
    then have "2 * length (skip_ws x) + 2 \<le> n"
      using parse_shorter(1) [OF w(1)] w(2) skip_ws_le [of w] skip_ws_le [of x] l by simp
    then show "parse_members fr n (skip_ws x) \<noteq> Inl OutOfFuel"
      using "6.IH"(2) that w by (force simp: expect_Some)
  qed
  then show ?case by (auto simp: expect_Some split: option.split sum.split)
qed simp_all

lemma parse_json_strict_fuel: "parse_json_strict fr text \<noteq> Inl OutOfFuel"
  using parse_fuel(1) [of "skip_ws text" "2 * length text + 2" fr] skip_ws_le [of "text"]
  by (auto simp: parse_json_strict_def split: sum.split)

end
