(* ===== verification/Agent.thy ===== *)
theory Agent
  imports Core_Types Json_Parse "HOL-Library.Product_Lexorder"
begin

text \<open>
  Agent semantics, \<open>src/exqserve/agent\<close>: tool declarations and policy (\<open>tools.py\<close>), reasoning
  policy (\<open>reasoning.py\<close>), the JSON Schema boundary (\<open>schema.py\<close>), validation of tool calls and of
  tool history (\<open>validation.py\<close>) and of structured output (\<open>structured_output.py\<close>).

  The JSON Schema validator is third-party (\<open>jsonschema\<close>): \<open>check_schema\<close> and \<open>iter_errors\<close> are
  arguments of the definitions that use them, collected in \<open>validator\<close> with the parameter \<open>fr\<close> of the JSON
  parser. The messages of issues are not modelled: an issue is its code and its path.
\<close>

section \<open>Tools and policies\<close>

record function_tool =
  ft_name :: string
  ft_description :: "string option"
  ft_parameters :: string
  ft_strict :: bool

definition mk_function_tool :: "function_tool \<Rightarrow> function_tool res" where
  "mk_function_tool t = raise_if (blank (ft_name t)) (ValueError ''name must not be empty'') (Inr t)"

datatype tool_choice_mode = MODE_NONE | MODE_AUTO | MODE_REQUIRED | MODE_NAMED

record tool_choice =
  tc_mode :: tool_choice_mode
  tc_name :: "string option"

definition mk_tool_choice :: "tool_choice \<Rightarrow> tool_choice res" where
  "mk_tool_choice c =
     (if tc_mode c = MODE_NAMED
      then raise_if (case tc_name c of None \<Rightarrow> True | Some n \<Rightarrow> blank n)
             (ValueError ''named tool choice requires a non-empty name'') (Inr c)
      else raise_if (tc_name c \<noteq> None) (ValueError ''tool choice name is only valid for NAMED mode'') (Inr c))"

text \<open>The schema of a tool is its canonical text. \<open>_tool_index\<close> is computed from \<open>tools\<close>.\<close>

record tool_policy =
  tp_tools :: "function_tool list"
  tp_choice :: tool_choice
  tp_parallel :: bool

definition tool_index :: "tool_policy \<Rightarrow> (string \<times> function_tool) list" where
  "tool_index p = fold (\<lambda>t. AList.update (ft_name t) t) (tp_tools p) []"

definition has_strict :: "tool_policy \<Rightarrow> bool" where
  "has_strict p = list_ex ft_strict (tp_tools p)"

definition mk_tool_policy :: "tool_policy \<Rightarrow> tool_policy res" where
  "mk_tool_policy p =
     raise_if (length (tool_index p) \<noteq> length (tp_tools p)) (ValueError ''tool names must be unique'')
    (raise_if (tc_mode (tp_choice p) = MODE_REQUIRED \<and> tp_tools p = [])
       (ValueError ''REQUIRED tool choice requires at least one declared tool'')
    (raise_if (tc_mode (tp_choice p) = MODE_NAMED \<and> tc_name (tp_choice p) \<notin> Some ` set (map fst (tool_index p)))
       (ValueError ''named tool choice must reference a declared tool'')
    (Inr p)))"

definition get_tool :: "tool_policy \<Rightarrow> string \<Rightarrow> function_tool option" where
  "get_tool p n = map_of (tool_index p) n"

lemma tool_index_keys: "fst ` set (fold (\<lambda>t. AList.update (ft_name t) t) ts d) = fst ` set d \<union> ft_name ` set ts"
  by (induction ts arbitrary: d) (auto simp: dict_simps)

lemma tool_index_distinct: "distinct (map fst d) \<Longrightarrow> distinct (map fst (fold (\<lambda>t. AList.update (ft_name t) t) ts d))"
  by (induction ts arbitrary: d) auto

lemma mk_tool_policy_Inr:
  "mk_tool_policy p = Inr p' \<Longrightarrow> p' = p \<and> distinct (map ft_name (tp_tools p))"
proof -
  assume m: "mk_tool_policy p = Inr p'"
  then have "length (tool_index p) = length (tp_tools p)" by (auto simp: mk_tool_policy_def)
  moreover have "length (tool_index p) = card (ft_name ` set (tp_tools p))"
  proof -
    have "distinct (map fst (tool_index p))" by (simp add: tool_index_def tool_index_distinct)
    then have "length (tool_index p) = card (fst ` set (tool_index p))"
      by (metis distinct_card length_map set_map)
    then show ?thesis by (simp add: tool_index_def tool_index_keys)
  qed
  ultimately have "card (set (map ft_name (tp_tools p))) = length (map ft_name (tp_tools p))" by simp
  then have "distinct (map ft_name (tp_tools p))" by (rule card_distinct)
  then show ?thesis using m by (auto simp: mk_tool_policy_def)
qed

section \<open>Reasoning policy\<close>

datatype reasoning_mode = REASONING_DEFAULT | REASONING_ENABLED | REASONING_DISABLED

datatype reasoning_effort = EFFORT_LOW | EFFORT_MEDIUM | EFFORT_HIGH | EFFORT_XHIGH | EFFORT_MAXIMUM

record reasoning_policy =
  rp_mode :: reasoning_mode
  rp_effort :: "reasoning_effort option"

datatype budget_mode = BUDGET_INHERIT | BUDGET_DISABLE | BUDGET_EXPLICIT

record reasoning_budget_override =
  rb_mode :: budget_mode
  rb_max_tokens :: "int option"
  rb_message :: "string option"

definition mk_reasoning_budget_override :: "reasoning_budget_override \<Rightarrow> reasoning_budget_override res" where
  "mk_reasoning_budget_override b =
     (if rb_mode b = BUDGET_EXPLICIT
      then raise_if (rb_max_tokens b = None) (TypeError ''explicit reasoning budget max_tokens must be an integer'')
          (raise_if (negative (rb_max_tokens b)) (ValueError ''explicit reasoning budget max_tokens must be non-negative'')
          (Inr b))
      else raise_if (rb_max_tokens b \<noteq> None) (ValueError ''non-explicit reasoning budget must not carry max_tokens'')
          (raise_if (rb_message b \<noteq> None) (ValueError ''non-explicit reasoning budget must not carry a message'')
          (Inr b)))"

record reasoning_budget_default =
  rbd_max_tokens :: "int option"
  rbd_message :: string

definition mk_reasoning_budget_default :: "reasoning_budget_default \<Rightarrow> reasoning_budget_default res" where
  "mk_reasoning_budget_default b =
     raise_if (negative (rbd_max_tokens b)) (ValueError ''max_tokens must be non-negative or None'') (Inr b)"

section \<open>Schemas\<close>

datatype path_part = PName string | PIndex int

record schema_violation =
  sv_path :: "path_part list"
  sv_validator :: string
  sv_message :: string

record validator =
  float_repr :: "string \<Rightarrow> string option"
  check_schema :: "json \<Rightarrow> bool"
  iter_errors :: "json \<Rightarrow> json \<Rightarrow> schema_violation list"

definition draft_2020_12 :: string where
  "draft_2020_12 = ''https://json-schema.org/draft/2020-12/schema''"

text \<open>\<open>_reject_external_references\<close> raises exactly when this holds.\<close>

fun external_reference :: "json \<Rightarrow> bool" where
  "external_reference (JObj kvs) = (\<exists>kv\<in>set kvs.
     (fst kv = ''$ref'' \<or> fst kv = ''$dynamicRef'')
       \<and> (case snd kv of JStr s \<Rightarrow> take 1 s \<noteq> ''#'' | _ \<Rightarrow> False)
     \<or> external_reference (snd kv))"
| "external_reference (JArr vs) = (\<exists>v\<in>set vs. external_reference v)"
| "external_reference _ = False"

definition json_error_exn :: "json_error \<Rightarrow> exn" where
  "json_error_exn e = ValueError ''invalid JSON''"

definition mk_json_schema :: "validator \<Rightarrow> string \<Rightarrow> string res" where
  "mk_json_schema V schema_json = (case parse_json_strict (float_repr V) schema_json of
       Inl e \<Rightarrow> Inl (json_error_exn e)
     | Inr v \<Rightarrow> (case v of JObj kvs \<Rightarrow>
          raise_if (json_get kvs ''$schema'' \<noteq> JNull \<and> json_get kvs ''$schema'' \<noteq> JStr draft_2020_12)
            (ValueError ''V1 schemas must use JSON Schema Draft 2020-12'')
         (raise_if (external_reference v) (ValueError ''external schema references are not supported in V1'')
         (raise_if (\<not> check_schema V v) (ValueError ''invalid Draft 2020-12 schema'')
         (Inr (canonical_json_dumps v))))
       | _ \<Rightarrow> Inl (TypeError ''schema document must be a JSON object'')))"

text \<open>\<open>f"{part:020d}"\<close>\<close>

definition pad20 :: "int \<Rightarrow> string" where
  "pad20 i = (let ds = dec_digits (nat \<bar>i\<bar>); width = (if i < 0 then 19 else 20) in
     (if i < 0 then ''-'' else []) @ replicate (width - length ds) (CHR ''0'') @ ds)"

definition path_key :: "path_part \<Rightarrow> nat \<times> string" where
  "path_key p = (case p of PIndex i \<Rightarrow> (0, pad20 i) | PName s \<Rightarrow> (1, s))"

definition violation_sort_key :: "schema_violation \<Rightarrow> (nat \<times> string) list \<times> string \<times> string" where
  "violation_sort_key v = (map path_key (sv_path v), sv_validator v, sv_message v)"

text \<open>\<open>_schema_violations\<close> parses the stored canonical text again; that it is an object is asserted.\<close>

definition schema_violations :: "validator \<Rightarrow> string \<Rightarrow> json \<Rightarrow> schema_violation list res" where
  "schema_violations V schema v = (case parse_json_strict (float_repr V) schema of
       Inl e \<Rightarrow> Inl (json_error_exn e)
     | Inr sv \<Rightarrow> (case sv of JObj kvs \<Rightarrow> Inr (sort_key violation_sort_key (iter_errors V sv v))
        | _ \<Rightarrow> Inl AssertionError))"

subsection \<open>Strict function schemas\<close>

text \<open>\<open>_strict_schema_children\<close>, in its order: named, single and sequence subschemas.\<close>

definition named_children :: "json_dict \<Rightarrow> string \<Rightarrow> json list" where
  "named_children kvs keyword = (case json_get kvs keyword of
     JObj m \<Rightarrow> filter (\<lambda>v. case v of JObj _ \<Rightarrow> True | _ \<Rightarrow> False) (map snd m) | _ \<Rightarrow> [])"

definition single_child :: "json_dict \<Rightarrow> string \<Rightarrow> json list" where
  "single_child kvs keyword = (case json_get kvs keyword of JObj m \<Rightarrow> [JObj m] | _ \<Rightarrow> [])"

definition sequence_children :: "json_dict \<Rightarrow> string \<Rightarrow> json list" where
  "sequence_children kvs keyword = (case json_get kvs keyword of
     JArr vs \<Rightarrow> filter (\<lambda>v. case v of JObj _ \<Rightarrow> True | _ \<Rightarrow> False) vs | _ \<Rightarrow> [])"

definition strict_schema_children :: "json_dict \<Rightarrow> json list" where
  "strict_schema_children kvs =
     concat (map (named_children kvs) [''properties'', ''patternProperties'', ''$defs'', ''dependentSchemas''])
     @ concat (map (single_child kvs) [''items'', ''contains'', ''not'', ''if'', ''then'', ''else'', ''propertyNames'',
         ''additionalProperties'', ''unevaluatedItems'', ''unevaluatedProperties'', ''contentSchema''])
     @ concat (map (sequence_children kvs) [''prefixItems'', ''allOf'', ''anyOf'', ''oneOf''])"

definition is_object_schema :: "json_dict \<Rightarrow> bool" where
  "is_object_schema kvs \<longleftrightarrow> json_get kvs ''type'' = JStr ''object''
     \<or> (case json_get kvs ''type'' of JArr ts \<Rightarrow> JStr ''object'' \<in> set ts | _ \<Rightarrow> False)
     \<or> ''properties'' \<in> fst ` set kvs"

text \<open>\<open>d.get(key, default)\<close> for a container default.\<close>

definition get_default :: "json_dict \<Rightarrow> string \<Rightarrow> json \<Rightarrow> json" where
  "get_default kvs k d = (case map_of kvs k of None \<Rightarrow> d | Some v \<Rightarrow> v)"

definition missing_names :: "json_dict \<Rightarrow> json list \<Rightarrow> string list" where
  "missing_names properties required = filter (\<lambda>n. JStr n \<notin> set required) (map fst properties)"

definition check_object_schema :: "json_dict \<Rightarrow> exn option" where
  "check_object_schema kvs =
     (if \<not> is_object_schema kvs then None
      else if map_of kvs ''additionalProperties'' \<noteq> Some (JBool False)
      then Some (ValueError ''object schema must set additionalProperties to false'')
      else case get_default kvs ''properties'' (JObj []) of
        JObj properties \<Rightarrow> (case get_default kvs ''required'' (JArr []) of
            JArr required \<Rightarrow> if missing_names properties required \<noteq> []
              then Some (ValueError ''object schema must require every property'') else None
          | _ \<Rightarrow> Some AssertionError)
      | _ \<Rightarrow> Some AssertionError)"

lemma size_child: "(k, v) \<in> set kvs \<Longrightarrow> size v < size (JObj kvs)"
  by (induction kvs) auto

lemma size_element: "v \<in> set vs \<Longrightarrow> size v < size (JArr vs)"
  by (induction vs) auto

lemma size_json_get: "json_get kvs k = v \<Longrightarrow> v \<noteq> JNull \<Longrightarrow> size v < size (JObj kvs)"
  using size_child [OF map_of_SomeD, of kvs k v] by (simp add: json_get_def split: option.splits del: json.size)

lemma size_named: "v \<in> set (named_children kvs k) \<Longrightarrow> size v < size (JObj kvs)"
proof -
  assume v: "v \<in> set (named_children kvs k)"
  then obtain m n where "json_get kvs k = JObj m" "(n, v) \<in> set m"
    by (cases "json_get kvs k") (auto simp: named_children_def)
  then have "size (JObj m) < size (JObj kvs)" "size v < size (JObj m)"
    using size_json_get [of kvs k "JObj m"] size_child [of n v m] by (simp_all del: json.size)
  then show ?thesis by (rule order.strict_trans [rotated])
qed

lemma size_single: "v \<in> set (single_child kvs k) \<Longrightarrow> size v < size (JObj kvs)"
  using size_json_get [of kvs k v] by (cases "json_get kvs k") (simp_all add: single_child_def del: json.size)

lemma size_sequence: "v \<in> set (sequence_children kvs k) \<Longrightarrow> size v < size (JObj kvs)"
proof -
  assume v: "v \<in> set (sequence_children kvs k)"
  then obtain vs where "json_get kvs k = JArr vs" "v \<in> set vs"
    by (cases "json_get kvs k") (auto simp: sequence_children_def)
  then have "size (JArr vs) < size (JObj kvs)" "size v < size (JArr vs)"
    using size_json_get [of kvs k "JArr vs"] size_element [of v vs] by (simp_all del: json.size)
  then show ?thesis by (rule order.strict_trans [rotated])
qed

lemma size_strict_child: "v \<in> set (strict_schema_children kvs) \<Longrightarrow> size v < size (JObj kvs)"
  by (auto simp: strict_schema_children_def simp del: json.size intro: size_named size_single size_sequence)

text \<open>\<open>_validate_strict_schema_node\<close>: depth first, the first exception.\<close>

function strict_schema_node :: "json \<Rightarrow> exn option" where
  "strict_schema_node (JObj kvs) = (case check_object_schema kvs of Some e \<Rightarrow> Some e
     | None \<Rightarrow> first_some (\<lambda>v. if v \<in> set (strict_schema_children kvs) then strict_schema_node v else None)
         (strict_schema_children kvs))"
| "strict_schema_node JNull = None"
| "strict_schema_node (JBool b) = None"
| "strict_schema_node (JInt i) = None"
| "strict_schema_node (JFloat t) = None"
| "strict_schema_node (JStr s) = None"
| "strict_schema_node (JArr vs) = None"
  by pat_completeness auto

termination
  by (relation "measure size") (auto dest: size_strict_child simp del: json.size)

definition validate_strict_function_schema :: "validator \<Rightarrow> string \<Rightarrow> unit res" where
  "validate_strict_function_schema V schema = (case parse_json_strict (float_repr V) schema of
       Inl e \<Rightarrow> Inl (json_error_exn e)
     | Inr v \<Rightarrow> (case v of JObj kvs \<Rightarrow>
          raise_if (json_get kvs ''type'' \<noteq> JStr ''object'')
            (ValueError ''strict function parameters must declare root type object'')
         (case strict_schema_node v of None \<Rightarrow> Inr () | Some e \<Rightarrow> Inl e)
       | _ \<Rightarrow> Inl AssertionError))"

end
