(* ===== verification/Json_Roundtrip.thy ===== *)
theory Json_Roundtrip
  imports Json_Parse
begin

text \<open>
  The strict parser reads back what the compact encoder prints.
\<close>

section \<open>Parsing what the encoder printed\<close>

text \<open>Digits.\<close>

lemma char_of_digit: "d < 10 \<Longrightarrow> (of_char (char_of (d + 48) :: char) :: nat) = d + 48" for d :: nat
  by simp

lemma is_digit_char: "d < 10 \<Longrightarrow> is_digit (char_of (d + 48 :: nat))"
  by (simp add: is_digit_def)

lemma digit_value_char: "d < 10 \<Longrightarrow> digit_value (char_of (d + 48 :: nat)) = d"
  by (simp add: digit_value_def)

lemma digits_value_snoc: "digits_value (ds @ [c]) = 10 * digits_value ds + digit_value c"
  by (simp add: digits_value_def)

lemma dec_digits_digits: "\<forall>c\<in>set (dec_digits n). is_digit c"
proof (induction n rule: dec_digits.induct)
  case (1 n)
  then show ?case by (subst dec_digits.simps) (auto simp: is_digit_char)
qed

lemma dec_digits_value: "digits_value (dec_digits n) = n"
proof (induction n rule: dec_digits.induct)
  case (1 n)
  show ?case
  proof (cases "n < 10")
    case True
    then show ?thesis by (simp add: dec_digits.simps [of n] digits_value_def digit_value_char)
  next
    case False
    then show ?thesis using 1
      by (simp add: dec_digits.simps [of n] digits_value_snoc digit_value_char)
  qed
qed

lemma dec_digits_hd: "0 < n \<Longrightarrow> \<exists>c t. dec_digits n = c # t \<and> is_digit c \<and> c \<noteq> CHR ''0''"
proof (induction n rule: dec_digits.induct)
  case (1 n)
  show ?case
  proof (cases "n < 10")
    case True
    have "char_of (n + 48) \<noteq> CHR ''0''"
    proof
      assume "char_of (n + 48) = CHR ''0''"
      then have "(of_char (char_of (n + 48) :: char) :: nat) = of_char (CHR ''0'')" by (rule arg_cong)
      then show False using True 1 by simp
    qed
    then show ?thesis using True by (simp add: dec_digits.simps [of n] is_digit_char)
  next
    case False
    then have "0 < n div 10" by simp
    then obtain c t where "dec_digits (n div 10) = c # t" "is_digit c" "c \<noteq> CHR ''0''" using 1 False by blast
    then show ?thesis using False by (simp add: dec_digits.simps [of n])
  qed
qed

lemma dec_digits_0: "dec_digits 0 = [CHR ''0'']"
  by code_simp

text \<open>What can follow a value in the printed text.\<close>

definition delim :: "string \<Rightarrow> bool" where
  "delim rest \<longleftrightarrow> rest = [] \<or> hd rest \<in> {CHR '','', CHR '']'', CHR ''}''}"

lemma delim_Cons [simp]: "delim (c # t) \<longleftrightarrow> c \<in> {CHR '','', CHR '']'', CHR ''}''}"
  by (simp add: delim_def)

lemma delim_Nil [simp]: "delim []"
  by (simp add: delim_def)

lemma delim_not_digit: "delim rest \<Longrightarrow> rest = [] \<or> \<not> is_digit (hd rest)"
  by (auto simp: delim_def is_digit_def)

lemma while_append:
  assumes "rest = [] \<or> \<not> P (hd rest)"
  shows "takeWhile P (t @ rest) = takeWhile P t" "dropWhile P (t @ rest) = dropWhile P t @ rest"
  using assms by (induction t) (cases rest; auto)+

lemma digits_append:
  assumes "delim rest"
  shows "takeWhile is_digit (t @ rest) = takeWhile is_digit t"
    "dropWhile is_digit (t @ rest) = dropWhile is_digit t @ rest"
  using while_append [of rest is_digit t] delim_not_digit [OF assms] by blast+

lemma expect_append: "s \<noteq> [] \<Longrightarrow> expect c (s @ t) = map_option (\<lambda>r. r @ t) (expect c s)"
  by (cases s) (auto simp: expect_def)

subsection \<open>Numbers\<close>

lemma lex_natural_append:
  "delim rest \<Longrightarrow> lex_natural s = Some (ds, u) \<Longrightarrow> lex_natural (s @ rest) = Some (ds, u @ rest)"
  by (cases s) (auto simp: lex_natural_def digits_append split: if_splits)

lemma lex_natural_text: "lex_natural s = Some (ds, u) \<Longrightarrow> s = ds @ u"
  by (cases s) (auto simp: lex_natural_def split: if_splits)

lemma lex_fraction_append:
  "delim rest \<Longrightarrow> lex_fraction s = (f, u) \<Longrightarrow> lex_fraction (s @ rest) = (f, u @ rest)"
  by (cases s; cases rest) (auto simp: lex_fraction_def digits_append split: if_splits)

lemma lex_fraction_text: "lex_fraction s = (f, u) \<Longrightarrow> s = f @ u"
  by (auto simp: lex_fraction_def expect_Some split: option.splits if_splits)

lemma lex_exponent_append:
  assumes "delim rest" and "lex_exponent s = (f, u)"
  shows "lex_exponent (s @ rest) = (f, u @ rest)"
proof (cases s)
  case Nil
  then show ?thesis using assms by (cases rest) (auto simp: lex_exponent_def)
next
  case (Cons e t)
  then show ?thesis using assms
    by (cases t; cases rest) (auto simp: lex_exponent_def Let_def digits_append is_digit_def split: if_splits)
qed

lemma lex_exponent_text: "lex_exponent s = (f, u) \<Longrightarrow> s = f @ u"
  by (auto simp: lex_exponent_def Let_def split: list.splits if_splits)

lemma lex_number_append:
  assumes d: "delim rest" and l: "lex_number s = Some (neg, ds, fe, [])"
  shows "lex_number (s @ rest) = Some (neg, ds, fe, rest)"
proof -
  define t where "t = (case expect (CHR ''-'') s of Some t \<Rightarrow> t | None \<Rightarrow> s)"
  obtain u f v e where p: "lex_natural t = Some (ds, u)" "lex_fraction u = (f, v)" "lex_exponent v = (e, [])"
      "fe = f @ e" "neg = (expect (CHR ''-'') s \<noteq> None)"
    using l by (auto simp: lex_number_def Let_def t_def split: option.splits prod.splits)
  have "s \<noteq> []" using l by (auto simp: lex_number_def lex_natural_def)
  then have "lex_number (s @ rest) = (case lex_natural (t @ rest) of None \<Rightarrow> None
      | Some (ds, u) \<Rightarrow> (let (f, v) = lex_fraction u; (e, w) = lex_exponent v in Some (neg, ds, f @ e, w)))"
    using p(5) by (cases "expect (CHR ''-'') s")
      (auto simp: lex_number_def expect_append t_def Let_def split: option.split prod.split)
  then show ?thesis
    using lex_natural_append [OF d p(1)] lex_fraction_append [OF d p(2)] lex_exponent_append [OF d p(3)] p(4)
    by simp
qed

lemma lex_number_text:
  "lex_number s = Some (neg, ds, fe, rest) \<Longrightarrow> s = (if neg then ''-'' else []) @ ds @ fe @ rest"
  by (auto simp: lex_number_def Let_def expect_Some split: option.splits prod.splits
      dest!: lex_natural_text lex_fraction_text lex_exponent_text)

lemma lex_number_hd:
  "lex_number s = Some (neg, ds, fe, rest) \<Longrightarrow> \<exists>c t. s = c # t \<and> (c = CHR ''-'' \<or> is_digit c)"
  by (cases s) (auto simp: lex_number_def Let_def expect_def lex_natural_def is_digit_def split: if_splits)

lemma lex_natural_dec: "lex_natural (dec_digits n) = Some (dec_digits n, [])"
proof (cases "n = 0")
  case True
  then show ?thesis by (simp add: dec_digits_0 lex_natural_def)
next
  case False
  then obtain c t where c: "dec_digits n = c # t" "is_digit c" "c \<noteq> CHR ''0''" using dec_digits_hd by blast
  moreover have "\<forall>x\<in>set (c # t). is_digit x" using dec_digits_digits [of n] c by simp
  ultimately show ?thesis
    by (auto simp: lex_natural_def takeWhile_eq_all_conv [THEN iffD2] dropWhile_eq_Nil_conv)
qed

lemma dec_digits_not_minus: "expect (CHR ''-'') (dec_digits n) = None"
proof (cases "dec_digits n")
  case (Cons c t)
  then have "is_digit c" using dec_digits_digits [of n] by simp
  then show ?thesis using Cons by (auto simp: is_digit_def)
qed simp

lemma lex_number_int: "lex_number (show_int i) = Some (i < 0, dec_digits (nat \<bar>i\<bar>), [], [])"
  by (simp add: lex_number_def show_int_def dec_digits_not_minus lex_natural_dec lex_fraction_def lex_exponent_def)

lemma parse_number_int:
  "delim rest \<Longrightarrow> length (dec_digits (nat \<bar>i\<bar>)) \<le> 4300 \<Longrightarrow>
    parse_number fr (show_int i @ rest) = Inr (JInt i, rest)"
  by (simp add: parse_number_def lex_number_append [OF _ lex_number_int] parse_bounded_int_def dec_digits_value)

definition float_text :: "(string \<Rightarrow> string option) \<Rightarrow> string \<Rightarrow> bool" where
  "float_text fr t \<longleftrightarrow> fr t = Some t
     \<and> (case lex_number t of Some (neg, ds, fe, rest) \<Rightarrow> fe \<noteq> [] \<and> rest = [] | None \<Rightarrow> False)"

lemma parse_number_float:
  assumes "delim rest" and "float_text fr t"
  shows "parse_number fr (t @ rest) = Inr (JFloat t, rest)"
proof -
  obtain neg ds fe where l: "lex_number t = Some (neg, ds, fe, [])" "fe \<noteq> []" "fr t = Some t"
    using assms(2) by (auto simp: float_text_def split: option.splits)
  then have "(if neg then ''-'' else []) @ ds @ fe = t" using lex_number_text [OF l(1)] by simp
  then show ?thesis using l assms(1)
    by (simp add: parse_number_def lex_number_append parse_finite_float_def)
qed

subsection \<open>Strings\<close>

lemma hex_value_digit:
  assumes "d < 16"
  shows "hex_value (hex_digit d) = Some d"
proof (cases "d < 10")
  case True
  then show ?thesis by (simp add: hex_value_def hex_digit_def Let_def)
next
  case False
  then show ?thesis using assms by (simp add: hex_value_def hex_digit_def Let_def)
qed

lemma scan_control_escape:
  assumes "(of_char c :: nat) < 32"
  shows "scan_string ([CHR 0x5C, CHR ''u'', CHR ''0'', CHR ''0'',
      hex_digit (of_char c div 16), hex_digit (of_char c mod 16)] @ t) = push_char c (scan_string t)"
proof -
  have "of_char c div 16 < (16::nat)" using assms by simp
  moreover have "hex_value (CHR ''0'') = Some 0" by (simp add: hex_value_def)
  moreover have "(of_char c div 16 * 16 + of_char c mod 16 :: nat) = of_char c" by simp
  ultimately have "read_escape (CHR ''u'' # CHR ''0'' # CHR ''0''
      # hex_digit (of_char c div 16) # hex_digit (of_char c mod 16) # t) = Inr (c, t)"
    using assms by (simp add: read_escape_def four_hex_def hex_value_digit)
  then show ?thesis by simp
qed

lemma scan_escaped_char: "scan_string (escape_char c @ t) = push_char c (scan_string t)"
proof -
  consider "c = CHR 0x22" | "c = CHR 0x5C" | "c = CHR 0x0A" | "c = CHR 0x0D" | "c = CHR 0x09" | "c = CHR 0x0C"
    | "c = CHR 0x08"
    | "c \<noteq> CHR 0x22" "c \<noteq> CHR 0x5C" "c \<noteq> CHR 0x0A" "c \<noteq> CHR 0x0D" "c \<noteq> CHR 0x09" "c \<noteq> CHR 0x0C" "c \<noteq> CHR 0x08"
    by blast
  then show ?thesis
  proof cases
    case 8
    note e = escape_char_def [of c, unfolded if_not_P [OF 8(1)] if_not_P [OF 8(2)] if_not_P [OF 8(3)]
        if_not_P [OF 8(4)] if_not_P [OF 8(5)] if_not_P [OF 8(6)] if_not_P [OF 8(7)]]
    show ?thesis
    proof (cases "(of_char c :: nat) < 32")
      case True
      then show ?thesis using scan_control_escape [OF True, of t] e by (simp only: if_True)
    next
      case False
      then show ?thesis using 8(1,2) e by simp
    qed
  qed (simp_all add: escape_char_def read_escape_def short_escape_def)
qed

lemma scan_escaped: "scan_string (concat (map escape_char s) @ CHR 0x22 # rest) = Inr (s, rest)"
  by (induction s) (simp_all add: scan_escaped_char push_char_def)

subsection \<open>Values\<close>

text \<open>The values the strict parser can produce: distinct member names, integers within the digit
  limit, and float texts that are their own \<open>repr\<close>.\<close>

fun wf_json :: "(string \<Rightarrow> string option) \<Rightarrow> json \<Rightarrow> bool" where
  "wf_json fr (JInt i) = (length (dec_digits (nat \<bar>i\<bar>)) \<le> 4300)"
| "wf_json fr (JFloat t) = float_text fr t"
| "wf_json fr (JArr vs) = (\<forall>v\<in>set vs. wf_json fr v)"
| "wf_json fr (JObj kvs) = (distinct (map fst kvs) \<and> (\<forall>kv\<in>set kvs. wf_json fr (snd kv)))"
| "wf_json fr _ = True"

text \<open>The value with the members of every object sorted by name, or as it is.\<close>

fun canon :: "bool \<Rightarrow> json \<Rightarrow> json" where
  "canon sk (JArr vs) = JArr (map (canon sk) vs)"
| "canon sk (JObj kvs) = JObj (sort_members sk (map (\<lambda>(k, v). (k, canon sk v)) kvs))"
| "canon sk v = v"

lemma insort_key_map_snd:
  "insort_key fst (fst p, f (snd p)) (map (\<lambda>(k, v). (k, f v)) xs) = map (\<lambda>(k, v). (k, f v)) (insort_key fst p xs)"
  by (cases p; induction xs) auto

lemma sort_members_map:
  "sort_members sk (map (\<lambda>(k, v). (k, f v)) kvs) = map (\<lambda>(k, v). (k, f v)) (sort_members sk kvs)"
proof -
  have "sort_key fst (map (\<lambda>(k, v). (k, f v)) kvs) = map (\<lambda>(k, v). (k, f v)) (sort_key fst kvs)"
  proof (induction kvs)
    case (Cons p kvs)
    then show ?case using insort_key_map_snd [of p f "sort_key fst kvs"] by (cases p) simp
  qed simp
  then show ?thesis by (simp add: sort_members_def)
qed

lemma distinct_sort_members [simp]: "distinct (map fst (sort_members sk kvs)) = distinct (map fst kvs)"
  by (simp add: sort_members_def distinct_map)

lemma sort_members_idem: "sort_members sk (sort_members sk kvs) = sort_members sk kvs"
  by (simp add: sort_members_def sort_key_id_if_sorted)

lemma sort_members_Nil [simp]: "sort_members sk [] = []"
  by (simp add: sort_members_def)

lemma sort_members_eq_Nil [simp]: "sort_members sk kvs = [] \<longleftrightarrow> kvs = []"
  by (metis set_sort_members set_empty)

lemma dumps_hd:
  assumes "wf_json fr v"
  shows "\<exists>c t. dumps sk v = c # t \<and> \<not> json_ws c \<and> c \<noteq> CHR '']''"
proof -
  have num: "\<exists>c t. s = c # t \<and> \<not> json_ws c \<and> c \<noteq> CHR '']''" if l: "lex_number s = Some p" for s p
  proof -
    obtain neg ds fe rest where "p = (neg, ds, fe, rest)" by (cases p)
    then obtain c t where "s = c # t" "c = CHR ''-'' \<or> is_digit c"
      using l lex_number_hd by blast
    then show ?thesis by (auto simp: json_ws_def is_digit_def)
  qed
  show ?thesis
    using assms
  proof (cases v)
    case (JInt i)
    then show ?thesis using num [OF lex_number_int [of i]] by simp
  next
    case (JFloat t)
    then show ?thesis using num assms by (auto simp: float_text_def split: option.splits)
  qed (auto simp: json_ws_def show_string_def)
qed

lemma skip_ws_dumps: "wf_json fr v \<Longrightarrow> skip_ws (dumps sk v @ rest) = dumps sk v @ rest"
  using dumps_hd [of fr v sk] by auto

lemma json_ws_punct [simp]: "\<not> json_ws (CHR '','')" "\<not> json_ws (CHR '']'')" "\<not> json_ws (CHR ''}'')"
  "\<not> json_ws (CHR '':'')" "\<not> json_ws (CHR 0x22)"
  by (simp_all add: json_ws_def)

text \<open>The statement of the induction: with enough fuel, a printed value followed by a delimiter is read back.\<close>

definition reads_back :: "(string \<Rightarrow> string option) \<Rightarrow> bool \<Rightarrow> json \<Rightarrow> bool" where
  "reads_back fr sk v \<longleftrightarrow> (\<forall>rest n. delim rest \<longrightarrow> 2 * length (dumps sk v @ rest) + 1 \<le> n \<longrightarrow>
     parse_value fr n (dumps sk v @ rest) = Inr (canon sk v, rest))"

lemma reads_backD:
  "reads_back fr sk v \<Longrightarrow> delim rest \<Longrightarrow> 2 * length (dumps sk v @ rest) + 1 \<le> n \<Longrightarrow>
    parse_value fr n (dumps sk v @ rest) = Inr (canon sk v, rest)"
  by (simp add: reads_back_def)

lemma reads_backI:
  assumes "\<And>rest m. delim rest \<Longrightarrow> 2 * length (dumps sk v @ rest) \<le> m \<Longrightarrow>
    parse_value fr (Suc m) (dumps sk v @ rest) = Inr (canon sk v, rest)"
  shows "reads_back fr sk v"
  unfolding reads_back_def
proof (intro allI impI)
  fix rest n
  assume "delim rest" "2 * length (dumps sk v @ rest) + 1 \<le> n"
  then show "parse_value fr n (dumps sk v @ rest) = Inr (canon sk v, rest)"
    using assms [of rest "n - 1"] by (cases n) simp_all
qed

lemma elements_read_back:
  assumes "vs \<noteq> []" and "\<forall>v\<in>set vs. reads_back fr sk v \<and> wf_json fr v"
    and "2 * length (intersperse_concat '','' (map (dumps sk) vs) @ CHR '']'' # rest) + 2 \<le> n"
  shows "parse_elements fr n (intersperse_concat '','' (map (dumps sk) vs) @ CHR '']'' # rest)
    = Inr (map (canon sk) vs, rest)"
  using assms
proof (induction vs arbitrary: n)
  case (Cons v vs)
  obtain m where n: "n = Suc m" using Cons.prems(3) by (cases n) auto
  show ?case
  proof (cases "vs = []")
    case True
    then have "parse_value fr m (dumps sk v @ CHR '']'' # rest) = Inr (canon sk v, CHR '']'' # rest)"
      using Cons.prems n by (intro reads_backD) auto
    then show ?thesis using True n by simp
  next
    case False
    then obtain w ws where vs: "vs = w # ws" by (cases vs) auto
    let ?more = "intersperse_concat '','' (map (dumps sk) vs) @ CHR '']'' # rest"
    have "parse_value fr m (dumps sk v @ CHR '','' # ?more) = Inr (canon sk v, CHR '','' # ?more)"
      using Cons.prems n vs by (intro reads_backD) auto
    moreover have "skip_ws ?more = ?more"
      using skip_ws_dumps [of fr w sk] Cons.prems(2) vs by (cases ws) simp_all
    moreover have "parse_elements fr m ?more = Inr (map (canon sk) vs, rest)"
      using Cons.IH [of m] Cons.prems False n vs by simp
    ultimately show ?thesis using n vs by simp
  qed
qed simp

definition show_member :: "bool \<Rightarrow> string \<times> json \<Rightarrow> string" where
  "show_member sk kv = show_string (fst kv) @ '':'' @ dumps sk (snd kv)"

lemma members_read_back:
  assumes "kvs \<noteq> []" and "\<forall>kv\<in>set kvs. reads_back fr sk (snd kv) \<and> wf_json fr (snd kv)"
    and "2 * length (intersperse_concat '','' (map (show_member sk) kvs) @ CHR ''}'' # rest) + 2 \<le> n"
  shows "parse_members fr n (intersperse_concat '','' (map (show_member sk) kvs) @ CHR ''}'' # rest)
    = Inr (map (\<lambda>(k, v). (k, canon sk v)) kvs, rest)"
  using assms
proof (induction kvs arbitrary: n)
  case (Cons kv kvs)
  obtain k v where kv: "kv = (k, v)" by (cases kv)
  obtain m where n: "n = Suc m" using Cons.prems(3) by (cases n) auto
  have s: "show_member sk (k, v) @ t = CHR 0x22 # concat (map escape_char k) @ CHR 0x22 # CHR '':'' # dumps sk v @ t" for t
    by (simp add: show_member_def show_string_def)
  have w: "skip_ws (dumps sk v @ t) = dumps sk v @ t" for t
    using skip_ws_dumps [of fr v sk t] Cons.prems(2) kv by simp
  show ?case
  proof (cases "kvs = []")
    case True
    then have "parse_value fr m (dumps sk v @ CHR ''}'' # rest) = Inr (canon sk v, CHR ''}'' # rest)"
      using Cons.prems n kv by (intro reads_backD) (auto simp: show_member_def)
    then show ?thesis using True n w by (simp add: s scan_escaped kv)
  next
    case False
    then obtain p ps where kvs: "kvs = p # ps" by (cases kvs) auto
    let ?more = "intersperse_concat '','' (map (show_member sk) kvs) @ CHR ''}'' # rest"
    have t: "intersperse_concat '','' (map (show_member sk) (kv # kvs)) @ CHR ''}'' # rest
        = show_member sk (k, v) @ CHR '','' # ?more"
      using kvs kv by simp
    have "2 * length (dumps sk v @ CHR '','' # ?more) + 1 \<le> m"
      using Cons.prems(3) n unfolding t s by simp
    then have "parse_value fr m (dumps sk v @ CHR '','' # ?more) = Inr (canon sk v, CHR '','' # ?more)"
      using Cons.prems(2) kv by (intro reads_backD) auto
    moreover have "skip_ws ?more = ?more"
      using kvs by (cases ps) (simp_all add: show_member_def show_string_def)
    moreover have "parse_members fr m ?more = Inr (map (\<lambda>(k, v). (k, canon sk v)) kvs, rest)"
      using Cons.IH [of m] Cons.prems False n kvs by simp
    ultimately show ?thesis unfolding t s using n w by (simp add: scan_escaped kv)
  qed
qed simp

lemma object_from_distinct:
  "distinct (map fst (rev acc @ kvs)) \<Longrightarrow> object_from_pairs acc kvs = Inr (JObj (rev acc @ kvs))"
proof (induction acc kvs rule: object_from_pairs.induct)
  case (2 acc k v kvs)
  then show ?case by (auto simp: rev_map [symmetric])
qed simp

lemma dumps_object:
  "dumps sk (JObj kvs) = ''{'' @ intersperse_concat '','' (map (show_member sk) (sort_members sk kvs)) @ ''}''"
proof -
  have "map (\<lambda>(k, v). show_string k @ '':'' @ v) (sort_members sk (map (\<lambda>(k, v). (k, dumps sk v)) kvs))
      = map (show_member sk) (sort_members sk kvs)"
    unfolding sort_members_map by (auto simp: show_member_def)
  then show ?thesis by simp
qed

lemma json_reads_back: "wf_json fr v \<Longrightarrow> reads_back fr sk v"
proof (induction v)
  case (JArr vs)
  show ?case unfolding reads_back_def
  proof (intro allI impI)
    fix rest n
    assume d: "delim rest" and n: "2 * length (dumps sk (JArr vs) @ rest) + 1 \<le> n"
    then obtain m where m: "n = Suc m" by (cases n) auto
    show "parse_value fr n (dumps sk (JArr vs) @ rest) = Inr (canon sk (JArr vs), rest)"
    proof (cases vs)
      case Nil
      then show ?thesis by (simp add: m)
    next
      case (Cons w ws)
      let ?t = "intersperse_concat '','' (map (dumps sk) vs) @ CHR '']'' # rest"
      have w: "wf_json fr w" using JArr.prems Cons by simp
      obtain c t where c: "dumps sk w = c # t" "\<not> json_ws c" "c \<noteq> CHR '']''" using dumps_hd [OF w] by blast
      then have "skip_ws ?t = ?t \<and> expect (CHR '']'') ?t = None" using Cons by (cases ws) simp_all
      moreover have "parse_elements fr m ?t = Inr (map (canon sk) vs, rest)"
        using JArr n m Cons by (intro elements_read_back) auto
      ultimately show ?thesis by (simp add: m)
    qed
  qed
next
  case (JObj kvs)
  let ?s = "sort_members sk kvs"
  have s: "distinct (map fst ?s)" "\<forall>kv\<in>set ?s. wf_json fr (snd kv) \<and> reads_back fr sk (snd kv)"
    using JObj by (auto intro: snds.intros)
  show ?case unfolding reads_back_def
  proof (intro allI impI)
    fix rest n
    assume d: "delim rest" and n: "2 * length (dumps sk (JObj kvs) @ rest) + 1 \<le> n"
    then obtain m where m: "n = Suc m" by (cases n) auto
    show "parse_value fr n (dumps sk (JObj kvs) @ rest) = Inr (canon sk (JObj kvs), rest)"
    proof (cases ?s)
      case Nil
      then have "kvs = []" by simp
      then show ?thesis by (simp add: m)
    next
      case (Cons p ps)
      let ?t = "intersperse_concat '','' (map (show_member sk) ?s) @ CHR ''}'' # rest"
      have "skip_ws ?t = ?t \<and> expect (CHR ''}'') ?t = None"
        using Cons by (cases ps) (simp_all add: show_member_def show_string_def)
      moreover have "parse_members fr m ?t = Inr (map (\<lambda>(k, v). (k, canon sk v)) ?s, rest)"
        using s n m Cons by (intro members_read_back) (auto simp: dumps_object simp del: dumps.simps)
      moreover have "object_from_pairs [] (map (\<lambda>(k, v). (k, canon sk v)) ?s) = Inr (canon sk (JObj kvs))"
        unfolding canon.simps sort_members_map
        using s object_from_distinct [of "[]" "map (\<lambda>(k, v). (k, canon sk v)) ?s"]
        by (simp add: comp_def split_def)
      ultimately show ?thesis by (simp add: m dumps_object del: dumps.simps)
    qed
  qed
next
  case (JInt i)
  obtain c t where c: "show_int i = c # t" "c = CHR ''-'' \<or> is_digit c"
    using lex_number_hd [OF lex_number_int] by blast
  then have "c \<notin> {CHR 0x22, CHR ''{'', CHR ''['', CHR ''n'', CHR ''t'', CHR ''f''}" by (auto simp: is_digit_def)
  then have "parse_value fr (Suc m) (show_int i @ rest) = parse_number fr (show_int i @ rest)" for m rest
    using c by simp
  then show ?case using JInt parse_number_int by (intro reads_backI) simp
next
  case (JFloat x)
  then obtain c t where c: "x = c # t" "c = CHR ''-'' \<or> is_digit c"
    by (auto simp: float_text_def split: option.splits dest!: lex_number_hd)
  then have "c \<notin> {CHR 0x22, CHR ''{'', CHR ''['', CHR ''n'', CHR ''t'', CHR ''f''}" by (auto simp: is_digit_def)
  then have "parse_value fr (Suc m) (x @ rest) = parse_number fr (x @ rest)" for m rest
    using c by simp
  then show ?case using JFloat parse_number_float by (intro reads_backI) simp
next
  case (JStr x)
  show ?case by (intro reads_backI) (simp add: show_string_def scan_escaped)
next
  case (JBool b)
  show ?case by (intro reads_backI) (simp add: parse_word_def strip_prefix_def)
next
  case JNull
  show ?case by (intro reads_backI) (simp add: parse_word_def strip_prefix_def)
qed

lemma canon_False: "canon False v = v"
  by (induction v) (auto simp: sort_members_def intro!: map_idI intro: snds.intros)

lemma dumps_canon: "dumps sk (canon sk v) = dumps sk v"
proof (induction v)
  case (JObj kvs)
  let ?s = "sort_members sk kvs"
  have "map (show_member sk) (map (\<lambda>(k, v). (k, canon sk v)) ?s) = map (show_member sk) ?s"
    using JObj by (auto simp: show_member_def intro: snds.intros)
  moreover have "sort_members sk (sort_members sk (map (\<lambda>(k, v). (k, canon sk v)) kvs))
      = map (\<lambda>(k, v). (k, canon sk v)) ?s"
    by (simp only: sort_members_idem sort_members_map)
  ultimately show ?case by (simp only: canon.simps dumps_object)
next
  case (JArr vs)
  then show ?case by (simp add: comp_def cong: map_cong)
qed simp_all

lemma parse_dumps:
  assumes "wf_json fr v"
  shows "parse_json_strict fr (dumps sk v) = Inr (canon sk v)"
proof -
  have "skip_ws (dumps sk v) = dumps sk v" using skip_ws_dumps [OF assms, of sk "[]"] by simp
  then show ?thesis
    using reads_backD [OF json_reads_back [OF assms], of "[]" sk "2 * length (dumps sk v) + 2"]
    by (simp add: parse_json_strict_def)
qed

text \<open>C16. The strict parser reads back exactly what the encoder printed: from the encoding in
  insertion order the value itself, and from the canonical encoding (sorted names) the value with
  sorted members, which has the same canonical encoding. This is for every value the parser can
  produce (distinct names, integers within the interpreter's digit limit, finite floats).\<close>

theorem json_roundtrip:
  assumes "wf_json fr v"
  shows "parse_json_strict fr (dumps False v) = Inr v
    \<and> (\<exists>w. parse_json_strict fr (canonical_json_dumps v) = Inr w \<and> w = canon True v
         \<and> canonical_json_dumps w = canonical_json_dumps v)"
  using parse_dumps [OF assms] by (simp add: canon_False canonical_json_dumps_def dumps_canon)

definition ex_json :: json where
  "ex_json = JObj [(''b'', JArr [JInt (- 17), JFloat ''1.5e+300'', JNull]), (''a'', JStr [CHR 0x22, CHR 0x0A, CHR ''x''])]"

definition ex_repr :: "string \<Rightarrow> string option" where
  "ex_repr t = (if t = ''1.5e+300'' then Some t else None)"

theorem json_roundtrip_witness:
  "parse_json_strict ex_repr (dumps False ex_json) = Inr ex_json
    \<and> parse_json_strict ex_repr (canonical_json_dumps ex_json) = Inr (canon True ex_json)
    \<and> canon True ex_json \<noteq> ex_json"
proof -
  have "wf_json ex_repr ex_json" by code_simp
  then show ?thesis using json_roundtrip [of ex_repr ex_json]
    by (auto simp: ex_json_def sort_members_def)
qed

end
