(* ===== verification/Validation.thy ===== *)
theory Validation
  imports Agent Json_Roundtrip
begin

text \<open>
  Validation of tool calls against a policy, of the tool history of a conversation
  (\<open>src/exqserve/agent/validation.py\<close>) and of structured output
  (\<open>src/exqserve/agent/structured_output.py\<close>). Loops over positions and seen identifiers are
  recursions over the list with the position and the seen identifiers as arguments.
\<close>

section \<open>Issues\<close>

datatype validation_code =
    INVALID_JSON | DUPLICATE_JSON_KEY | JSON_VALUE_NOT_OBJECT | SCHEMA_VALIDATION_FAILED
  | UNDECLARED_TOOL | TOOL_CALL_FORBIDDEN | TOOL_CALL_REQUIRED | WRONG_NAMED_TOOL
  | PARALLEL_TOOL_CALLS_FORBIDDEN | DUPLICATE_TOOL_CALL_ID | INVALID_TOOL_CALL_ORDER
  | UNKNOWN_TOOL_RESULT | DUPLICATE_TOOL_RESULT

record validation_issue =
  vi_code :: validation_code
  vi_path :: "path_part list"

definition issue :: "validation_code \<Rightarrow> path_part list \<Rightarrow> validation_issue" where
  "issue c p = \<lparr>vi_code = c, vi_path = p\<rparr>"

lemma issue_code [simp]: "vi_code (issue c p) = c"
  by (simp add: issue_def)

definition is_valid :: "validation_issue list \<Rightarrow> bool" where
  "is_valid issues \<longleftrightarrow> issues = []"

text \<open>\<open>ToolCallsValidation\<close>: the issues and the canonical arguments of each call. A failing
  assertion inside the schema check is an exception.\<close>

type_synonym calls_validation = "validation_issue list \<times> string option list"

section \<open>Tool calls\<close>

definition json_issue_code :: "json_error \<Rightarrow> validation_code" where
  "json_issue_code e = (case e of DuplicateJsonKey _ \<Rightarrow> DUPLICATE_JSON_KEY | _ \<Rightarrow> INVALID_JSON)"

text \<open>The arguments of a call to a declared tool: the issues and the canonical text.\<close>

definition check_arguments ::
  "validator \<Rightarrow> path_part list \<Rightarrow> string \<Rightarrow> string \<Rightarrow> (validation_issue list \<times> string option) res" where
  "check_arguments V base schema args = (case parse_json_strict (float_repr V) args of
       Inl e \<Rightarrow> Inr ([issue (json_issue_code e) (base @ [PName ''arguments''])], None)
     | Inr v \<Rightarrow> (case v of JObj kvs \<Rightarrow>
         (case schema_violations V schema v of Inl e \<Rightarrow> Inl e
          | Inr vs \<Rightarrow> Inr (map (\<lambda>x. issue SCHEMA_VALIDATION_FAILED (base @ [PName ''arguments''] @ sv_path x)) vs,
                         if vs \<noteq> [] then None else Some (canonical_json_dumps v)))
       | _ \<Rightarrow> Inr ([issue JSON_VALUE_NOT_OBJECT (base @ [PName ''arguments''])], None)))"

definition declared_tool :: "tool_policy \<Rightarrow> string \<Rightarrow> function_tool option" where
  "declared_tool p n = get_tool p n"

definition call_issues :: "string list \<Rightarrow> int \<Rightarrow> tool_call_item \<Rightarrow> validation_issue list" where
  "call_issues seen position call =
     (if call_id call \<in> set seen
      then [issue DUPLICATE_TOOL_CALL_ID [PName ''calls'', PIndex position, PName ''call_id'']] else [])
     @ (if call_index call \<noteq> position
        then [issue INVALID_TOOL_CALL_ORDER [PName ''calls'', PIndex position, PName ''index'']] else [])"

definition named_issues :: "tool_policy \<Rightarrow> int \<Rightarrow> tool_call_item \<Rightarrow> validation_issue list" where
  "named_issues p position call =
     (if tc_mode (tp_choice p) = MODE_NAMED \<and> Some (tool_name call) \<noteq> tc_name (tp_choice p)
      then [issue WRONG_NAMED_TOOL [PName ''calls'', PIndex position, PName ''name'']] else [])"

text \<open>The body of the loop for one call.\<close>

definition check_call ::
  "validator \<Rightarrow> tool_policy \<Rightarrow> string list \<Rightarrow> int \<Rightarrow> tool_call_item
     \<Rightarrow> (validation_issue list \<times> string option) res" where
  "check_call V p seen position call =
     (let base = [PName ''calls'', PIndex position]; first = call_issues seen position call in
      case declared_tool p (tool_name call) of
        None \<Rightarrow> Inr (first @ [issue UNDECLARED_TOOL (base @ [PName ''name''])], None)
      | Some tool \<Rightarrow> map_sum id (\<lambda>(issues, canonical). (first @ named_issues p position call @ issues, canonical))
          (check_arguments V base (ft_parameters tool) (arguments_json call)))"

fun calls_loop ::
  "validator \<Rightarrow> tool_policy \<Rightarrow> string list \<Rightarrow> int \<Rightarrow> tool_call_item list \<Rightarrow> calls_validation res" where
  "calls_loop V p seen position [] = Inr ([], [])"
| "calls_loop V p seen position (call # calls) = (case check_call V p seen position call of Inl e \<Rightarrow> Inl e
     | Inr (issues, canonical) \<Rightarrow>
        map_sum id (\<lambda>(issues', cs). (issues @ issues', canonical # cs))
          (calls_loop V p (call_id call # seen) (position + 1) calls))"

definition policy_issues :: "tool_policy \<Rightarrow> tool_call_item list \<Rightarrow> validation_issue list" where
  "policy_issues p calls =
     (if (tc_mode (tp_choice p) = MODE_REQUIRED \<or> tc_mode (tp_choice p) = MODE_NAMED) \<and> calls = []
      then [issue TOOL_CALL_REQUIRED [PName ''calls'']] else [])
     @ (if \<not> tp_parallel p \<and> 1 < length calls
        then [issue PARALLEL_TOOL_CALLS_FORBIDDEN [PName ''calls'']] else [])"

definition validate_calls_canonical ::
  "validator \<Rightarrow> tool_call_item list \<Rightarrow> tool_policy \<Rightarrow> calls_validation res" where
  "validate_calls_canonical V calls p =
     (if tc_mode (tp_choice p) = MODE_NONE \<and> calls \<noteq> []
      then Inr ([issue TOOL_CALL_FORBIDDEN [PName ''calls'']], map (\<lambda>_. None) calls)
      else map_sum id (\<lambda>(issues, cs). (policy_issues p calls @ issues, cs)) (calls_loop V p [] 0 calls))"

definition validate_tool_calls :: "validator \<Rightarrow> tool_call_item list \<Rightarrow> tool_policy \<Rightarrow> validation_issue list res" where
  "validate_tool_calls V calls p = map_sum id fst (validate_calls_canonical V calls p)"

section \<open>Tool history\<close>

definition result_call_id :: "canonical_item \<Rightarrow> string option" where
  "result_call_id it = (case it of ToolResultItem r \<Rightarrow> Some (tr_call_id r)
     | MultimodalToolResultItem r \<Rightarrow> Some (mr_call_id r) | _ \<Rightarrow> None)"

definition item_call_id :: "canonical_item \<Rightarrow> string option" where
  "item_call_id it = (case it of ToolCallItem c \<Rightarrow> Some (call_id c) | _ \<Rightarrow> None)"

fun history_loop :: "string set \<Rightarrow> string set \<Rightarrow> int \<Rightarrow> canonical_item list \<Rightarrow> validation_issue list" where
  "history_loop seen resolved i [] = []"
| "history_loop seen resolved i (it # items) =
     (case item_call_id it of
        Some c \<Rightarrow> if c \<in> seen
          then issue DUPLICATE_TOOL_CALL_ID [PName ''items'', PIndex i, PName ''call_id''] # history_loop seen resolved (i + 1) items
          else history_loop (insert c seen) resolved (i + 1) items
      | None \<Rightarrow> (case result_call_id it of
          None \<Rightarrow> history_loop seen resolved (i + 1) items
        | Some c \<Rightarrow>
            if c \<notin> seen
            then issue UNKNOWN_TOOL_RESULT [PName ''items'', PIndex i, PName ''call_id''] # history_loop seen resolved (i + 1) items
            else if c \<in> resolved
            then issue DUPLICATE_TOOL_RESULT [PName ''items'', PIndex i, PName ''call_id''] # history_loop seen resolved (i + 1) items
            else history_loop seen (insert c resolved) (i + 1) items))"

definition validate_tool_history :: "canonical_item list \<Rightarrow> validation_issue list" where
  "validate_tool_history items = history_loop {} {} 0 items"

section \<open>Structured output\<close>

record structured_spec =
  so_schema :: string
  so_requested :: generation_guarantee
  so_fallback :: constraint_fallback_policy

definition mk_structured_spec :: "structured_spec \<Rightarrow> structured_spec res" where
  "mk_structured_spec s =
     raise_if (so_requested s = GUnknown) (ValueError ''requested_guarantee cannot be UNKNOWN'')
    (if so_requested s = GNone
     then raise_if (so_fallback s \<noteq> ALLOW_VALIDATION_ONLY)
            (ValueError ''NONE requested guarantee requires validation-only fallback'') (Inr s)
     else raise_if (so_fallback s \<noteq> FAIL_CLOSED)
            (ValueError ''FORMAT/SCHEMA requested guarantees require fail-closed fallback'') (Inr s))"

definition violates_structured_guarantee :: "validation_issue list \<Rightarrow> generation_guarantee \<Rightarrow> bool" where
  "violates_structured_guarantee issues g =
     (if is_valid issues then False
      else if g = GSchema then vi_code ` set issues \<noteq> {}
      else if g = GFormat then vi_code ` set issues \<inter> {INVALID_JSON, DUPLICATE_JSON_KEY} \<noteq> {}
      else False)"

definition validate_structured_output :: "validator \<Rightarrow> string \<Rightarrow> structured_spec \<Rightarrow> validation_issue list res" where
  "validate_structured_output V t spec = (case parse_json_strict (float_repr V) t of
       Inl e \<Rightarrow> Inr [issue (json_issue_code e) []]
     | Inr v \<Rightarrow> map_sum id (map (\<lambda>x. issue SCHEMA_VALIDATION_FAILED (sv_path x)))
         (schema_violations V (so_schema spec) v))"

section \<open>Valid calls are exactly the acceptable ones\<close>

text \<open>The specification: what a policy asks of the calls of one assistant turn.\<close>

definition acceptable_arguments :: "validator \<Rightarrow> string \<Rightarrow> string \<Rightarrow> string \<Rightarrow> bool" where
  "acceptable_arguments V schema args canonical \<longleftrightarrow>
     (\<exists>kvs. parse_json_strict (float_repr V) args = Inr (JObj kvs)
        \<and> schema_violations V schema (JObj kvs) = Inr [] \<and> canonical = canonical_json_dumps (JObj kvs))"

definition acceptable_call :: "validator \<Rightarrow> tool_policy \<Rightarrow> tool_call_item \<Rightarrow> string \<Rightarrow> bool" where
  "acceptable_call V p call canonical \<longleftrightarrow>
     (\<exists>tool. get_tool p (tool_name call) = Some tool
        \<and> (tc_mode (tp_choice p) = MODE_NAMED \<longrightarrow> tc_name (tp_choice p) = Some (tool_name call))
        \<and> acceptable_arguments V (ft_parameters tool) (arguments_json call) canonical)"

definition acceptable_calls :: "validator \<Rightarrow> tool_policy \<Rightarrow> tool_call_item list \<Rightarrow> string list \<Rightarrow> bool" where
  "acceptable_calls V p calls canonical \<longleftrightarrow>
     (tc_mode (tp_choice p) = MODE_NONE \<longrightarrow> calls = [])
     \<and> (tc_mode (tp_choice p) \<in> {MODE_REQUIRED, MODE_NAMED} \<longrightarrow> calls \<noteq> [])
     \<and> (\<not> tp_parallel p \<longrightarrow> length calls \<le> 1)
     \<and> distinct (map call_id calls) \<and> map call_index calls = map int [0..<length calls]
     \<and> list_all2 (acceptable_call V p) calls canonical"

lemma check_arguments_ok:
  "check_arguments V base schema args = Inr ([], c) \<longleftrightarrow> (\<exists>k. c = Some k \<and> acceptable_arguments V schema args k)"
proof (cases "parse_json_strict (float_repr V) args")
  case (Inr v)
  then show ?thesis
    by (cases v; cases "schema_violations V schema v")
      (auto simp: check_arguments_def acceptable_arguments_def)
qed (simp add: check_arguments_def acceptable_arguments_def)

lemma check_call_ok:
  "check_call V p seen position call = Inr ([], c) \<longleftrightarrow>
     (\<exists>k. c = Some k \<and> acceptable_call V p call k) \<and> call_id call \<notin> set seen \<and> call_index call = position"
proof (cases "declared_tool p (tool_name call)")
  case None
  then show ?thesis by (auto simp: check_call_def acceptable_call_def declared_tool_def)
next
  case (Some tool)
  then have "check_call V p seen position call = Inr ([], c) \<longleftrightarrow>
      check_arguments V [PName ''calls'', PIndex position] (ft_parameters tool) (arguments_json call) = Inr ([], c)
      \<and> call_issues seen position call = [] \<and> named_issues p position call = []"
    by (auto simp: check_call_def Let_def)
  then show ?thesis using Some
    by (auto simp: check_arguments_ok acceptable_call_def declared_tool_def call_issues_def named_issues_def)
qed

lemma calls_loop_ok:
  "calls_loop V p seen position calls = Inr ([], cs) \<longleftrightarrow>
     (\<exists>ks. cs = map Some ks \<and> list_all2 (acceptable_call V p) calls ks)
     \<and> distinct (map call_id calls) \<and> set (map call_id calls) \<inter> set seen = {}
     \<and> map call_index calls = map (\<lambda>i. position + int i) [0..<length calls]"
proof (induction calls arbitrary: seen position cs)
  case (Cons call calls)
  have "calls_loop V p seen position (call # calls) = Inr ([], cs) \<longleftrightarrow>
      (\<exists>c cs'. cs = c # cs' \<and> check_call V p seen position call = Inr ([], c)
        \<and> calls_loop V p (call_id call # seen) (position + 1) calls = Inr ([], cs'))"
    by (cases "check_call V p seen position call"; cases "calls_loop V p (call_id call # seen) (position + 1) calls")
      auto
  moreover have "map (\<lambda>i. position + int i) [0..<length (call # calls)]
      = position # map (\<lambda>i. position + 1 + int i) [0..<length calls]"
    by (simp add: upt_rec [of 0 "Suc _"] map_Suc_upt [symmetric] del: upt_Suc)
  moreover have "(\<exists>ks. c # cs' = map Some ks \<and> list_all2 (acceptable_call V p) (call # calls) ks) \<longleftrightarrow>
      (\<exists>k. c = Some k \<and> acceptable_call V p call k)
      \<and> (\<exists>ks. cs' = map Some ks \<and> list_all2 (acceptable_call V p) calls ks)" for c cs'
    by (auto simp: list_all2_Cons1 Cons_eq_map_conv)
  ultimately show ?case
    by (cases cs) (auto simp: Cons.IH check_call_ok list_all2_Cons1 simp del: calls_loop.simps)
qed auto

lemma validate_calls_ok:
  "validate_calls_canonical V calls p = Inr ([], cs) \<longleftrightarrow>
     (\<exists>ks. cs = map Some ks \<and> acceptable_calls V p calls ks)"
proof (cases "tc_mode (tp_choice p) = MODE_NONE \<and> calls \<noteq> []")
  case True
  then show ?thesis by (auto simp: validate_calls_canonical_def acceptable_calls_def)
next
  case False
  then have "validate_calls_canonical V calls p = Inr ([], cs) \<longleftrightarrow>
      policy_issues p calls = [] \<and> calls_loop V p [] 0 calls = Inr ([], cs)"
    by (auto simp: validate_calls_canonical_def)
  then show ?thesis using False
    by (auto simp: calls_loop_ok policy_issues_def acceptable_calls_def not_less)
qed

text \<open>C17. Tool calls are reported valid exactly when they are acceptable under the policy: none
  under NONE, at least one under REQUIRED and NAMED, no two when parallel calls are off, distinct
  identifiers, indices in order, only declared tools (the named one under NAMED), and arguments
  that parse strictly to an object the tool's schema accepts. The canonical arguments returned are
  then the canonical encodings of those objects.\<close>

theorem tool_calls_valid_iff:
  "validate_calls_canonical V calls p = Inr ([], cs) \<longleftrightarrow>
     (\<exists>ks. cs = map Some ks \<and> acceptable_calls V p calls ks)"
  by (rule validate_calls_ok)

section \<open>Valid histories\<close>

definition history_calls :: "canonical_item list \<Rightarrow> string list" where
  "history_calls items = List.map_filter item_call_id items"

definition history_results :: "canonical_item list \<Rightarrow> string list" where
  "history_results items = List.map_filter result_call_id items"

lemma history_calls_simps [simp]:
  "history_calls [] = []"
  "history_calls (it # items) = (case item_call_id it of None \<Rightarrow> history_calls items | Some c \<Rightarrow> c # history_calls items)"
  "history_results [] = []"
  "history_results (it # items) = (case result_call_id it of None \<Rightarrow> history_results items | Some c \<Rightarrow> c # history_results items)"
  by (simp_all add: history_calls_def history_results_def map_filter_simps split: option.split)

lemma set_history_calls: "set (history_calls items) = {c. Some c \<in> item_call_id ` set items}"
proof (induction items)
  case (Cons it items)
  then show ?case by (cases "item_call_id it") (auto simp: image_iff)
qed simp

text \<open>Every result names a call that comes before it (\<open>seen\<close> are the calls before the list).\<close>

fun answered :: "string set \<Rightarrow> canonical_item list \<Rightarrow> bool" where
  "answered seen [] = True"
| "answered seen (it # items) = ((case result_call_id it of None \<Rightarrow> True | Some c \<Rightarrow> c \<in> seen)
     \<and> answered (seen \<union> set_option (item_call_id it)) items)"

lemma result_not_call: "item_call_id it = Some c \<Longrightarrow> result_call_id it = None"
  by (auto simp: item_call_id_def result_call_id_def split: canonical_item.splits)

lemma answered_nth:
  "answered seen items \<longleftrightarrow> (\<forall>i<length items. \<forall>c. result_call_id (items ! i) = Some c \<longrightarrow>
     c \<in> seen \<or> Some c \<in> item_call_id ` set (take i items))"
proof (induction items arbitrary: seen)
  case (Cons it items)
  then show ?case
    by (auto simp: All_less_Suc2 split: option.splits)
qed simp

lemma history_loop_ok:
  "history_loop seen resolved i items = [] \<longleftrightarrow>
     distinct (history_calls items) \<and> set (history_calls items) \<inter> seen = {}
     \<and> distinct (history_results items) \<and> set (history_results items) \<inter> resolved = {} \<and> answered seen items"
proof (induction seen resolved i items rule: history_loop.induct)
  case (2 seen resolved i it items)
  show ?case
  proof (cases "item_call_id it")
    case (Some c)
    then show ?thesis using "2.IH" result_not_call [OF Some] by auto
  next
    case None
    then show ?thesis using "2.IH"
      by (cases "result_call_id it") auto
  qed
qed simp

text \<open>C18. A conversation history is reported valid exactly when no two tool calls share an
  identifier, no two results share one, and every result comes after the call it names.\<close>

theorem tool_history_valid_iff:
  "is_valid (validate_tool_history items) \<longleftrightarrow>
     distinct (history_calls items) \<and> distinct (history_results items)
     \<and> (\<forall>i<length items. \<forall>c. result_call_id (items ! i) = Some c \<longrightarrow> c \<in> set (history_calls (take i items)))"
  by (simp add: is_valid_def validate_tool_history_def history_loop_ok answered_nth set_history_calls)

definition ex_history :: "canonical_item list" where
  "ex_history = [MessageItem \<lparr>mi_role = USER, mi_text = ''hi''\<rparr>,
     ToolCallItem \<lparr>call_id = ''c'', tool_name = ''f'', arguments_json = ''{}'', call_index = 0\<rparr>,
     ToolResultItem \<lparr>tr_call_id = ''c'', tr_text = ''ok'', tr_is_error = False\<rparr>]"

theorem tool_history_valid_iff_witness:
  "is_valid (validate_tool_history ex_history) \<and> \<not> is_valid (validate_tool_history (rev ex_history))"
proof -
  have v: "history_calls ex_history = [''c'']" "history_results ex_history = [''c'']"
    "history_calls (rev ex_history) = [''c'']"
    by (simp_all add: ex_history_def item_call_id_def result_call_id_def)
  have "\<forall>i<length ex_history. \<forall>c. result_call_id (ex_history ! i) = Some c \<longrightarrow>
      c \<in> set (history_calls (take i ex_history))"
    by (simp add: ex_history_def item_call_id_def result_call_id_def All_less_Suc2 numeral_3_eq_3)
  moreover have "\<not> (\<forall>i<length (rev ex_history). \<forall>c. result_call_id (rev ex_history ! i) = Some c \<longrightarrow>
      c \<in> set (history_calls (take i (rev ex_history))))"
    by (simp add: ex_history_def item_call_id_def result_call_id_def All_less_Suc2 numeral_3_eq_3)
  ultimately show ?thesis
    using tool_history_valid_iff [of ex_history] tool_history_valid_iff [of "rev ex_history"] v by auto
qed

section \<open>Strict function schemas\<close>

text \<open>A subschema of a schema, along the children the code visits.\<close>

inductive subschema :: "json \<Rightarrow> json \<Rightarrow> bool" for root where
  root: "subschema root root"
| child: "subschema root (JObj kvs) \<Longrightarrow> v \<in> set (strict_schema_children kvs) \<Longrightarrow> subschema root v"

lemma strict_node_child:
  "strict_schema_node (JObj kvs) = None \<Longrightarrow> v \<in> set (strict_schema_children kvs) \<Longrightarrow> strict_schema_node v = None"
  by (auto simp: first_some_None split: option.splits)


definition ex_validator :: validator where
  "ex_validator = \<lparr>float_repr = (\<lambda>_. None), check_schema = (\<lambda>_. True),
     iter_errors = (\<lambda>s v. if v = JObj [] then [\<lparr>sv_path = [], sv_validator = ''required'', sv_message = ''m''\<rparr>] else [])\<rparr>"

definition ex_schema :: json where
  "ex_schema = JObj [(''additionalProperties'', JBool False),
     (''properties'', JObj [(''a'', JObj [(''type'', JStr ''integer'')])]),
     (''required'', JArr [JStr ''a'']), (''type'', JStr ''object'')]"


end
