(* ===== verification/Guarantees.thy ===== *)
theory Guarantees
  imports Validation
begin

text \<open>
  Generation guarantees: tool constraints of \<open>src/exqserve/model/contracts.py\<close> and the resolver of
  \<open>src/exqserve/serving/guarantees.py\<close>. The factory that plans a constraint belongs to the model
  dialect and is a field of the resolver here; it returns a constraint, none, or raises.
\<close>

section \<open>Tool constraints\<close>

record tool_constraint =
  tgc_trigger :: string
  tgc_grammar :: string
  tgc_eos_after_completed :: bool
  tgc_branches :: "(string \<times> generation_guarantee) list option"
  tgc_fingerprint :: "string option"

fun branch_error :: "string list \<Rightarrow> (string \<times> generation_guarantee) list \<Rightarrow> exn option" where
  "branch_error seen [] = None"
| "branch_error seen ((n, g) # bs) =
     (if blank n then Some (ValueError ''branch guarantee tool names must be non-empty strings'')
      else if n \<in> set seen then Some (ValueError ''branch guarantee tool names must be unique'')
      else branch_error (n # seen) bs)"

definition mk_tool_constraint :: "tool_constraint \<Rightarrow> tool_constraint res" where
  "mk_tool_constraint c =
     raise_if (blank (tgc_trigger c)) (ValueError ''trigger must not be empty'')
    (raise_if (blank (tgc_grammar c)) (ValueError ''lark_grammar must not be empty'')
    (raise_if (case tgc_fingerprint c of None \<Rightarrow> False | Some f \<Rightarrow> blank f)
       (ValueError ''constraint_fingerprint must not be empty'')
    (case tgc_branches c of None \<Rightarrow> Inr c
     | Some bs \<Rightarrow> (case branch_error [] bs of None \<Rightarrow> Inr c | Some e \<Rightarrow> Inl e))))"

definition guarantee_for_tool :: "tool_constraint \<Rightarrow> string \<Rightarrow> generation_guarantee res" where
  "guarantee_for_tool c n =
     raise_if (blank n) (ValueError ''tool_name must be a non-empty string'')
    (case tgc_branches c of None \<Rightarrow> Inr GUnknown
     | Some bs \<Rightarrow> Inr (case map_of bs n of None \<Rightarrow> GUnknown | Some g \<Rightarrow> g))"

definition has_exposed_strict_tool :: "tool_policy \<Rightarrow> bool" where
  "has_exposed_strict_tool p = (case tc_mode (tp_choice p) of
       MODE_NONE \<Rightarrow> False
     | MODE_NAMED \<Rightarrow> list_ex (\<lambda>t. Some (ft_name t) = tc_name (tp_choice p) \<and> ft_strict t) (tp_tools p)
     | _ \<Rightarrow> list_ex ft_strict (tp_tools p))"

section \<open>Strength\<close>

definition guarantee_strength :: "generation_guarantee \<Rightarrow> nat option" where
  "guarantee_strength g = (case g of GNone \<Rightarrow> Some 0 | GFormat \<Rightarrow> Some 1 | GSchema \<Rightarrow> Some 2 | GUnknown \<Rightarrow> None)"

definition guarantee_satisfies :: "generation_guarantee \<Rightarrow> generation_guarantee \<Rightarrow> bool" where
  "guarantee_satisfies effective requested =
     (if effective = GUnknown \<or> requested = GUnknown then False
      else the (guarantee_strength requested) \<le> the (guarantee_strength effective))"

definition runtime_tool_guarantee :: "tool_constraint option \<Rightarrow> generation_guarantee" where
  "runtime_tool_guarantee c = (case c of None \<Rightarrow> GNone
     | Some k \<Rightarrow> (case tgc_branches k of None \<Rightarrow> GUnknown
        | Some bs \<Rightarrow> (let generated = filter (\<lambda>g. g \<noteq> GNone) (map snd bs) in
            if generated = [] then GNone
            else if GUnknown \<in> set generated then GUnknown
            else arg_min_list (\<lambda>g. the (guarantee_strength g)) generated)))"

definition exposed_strict_tool_names :: "tool_policy \<Rightarrow> string list" where
  "exposed_strict_tool_names p = (case tc_mode (tp_choice p) of
       MODE_NONE \<Rightarrow> []
     | MODE_NAMED \<Rightarrow> map ft_name (filter (\<lambda>t. Some (ft_name t) = tc_name (tp_choice p) \<and> ft_strict t) (tp_tools p))
     | _ \<Rightarrow> map ft_name (filter ft_strict (tp_tools p)))"

section \<open>The resolver\<close>

record capability_snapshot =
  cap_tool_constraints :: bool
  cap_strict_tool_constraints :: bool
  cap_structured_output :: bool

definition mk_capability_snapshot :: "capability_snapshot \<Rightarrow> capability_snapshot res" where
  "mk_capability_snapshot s =
     raise_if (cap_strict_tool_constraints s \<and> \<not> cap_tool_constraints s)
       (ValueError ''strict tool constraints require tool constraint capability'') (Inr s)"

record structured_plan =
  spl_requested :: generation_guarantee
  spl_planned :: generation_guarantee
  spl_fallback :: constraint_fallback_policy
  spl_schema :: "string option"
  spl_trigger :: "string option"
  spl_unsupported :: "string option"

record tool_plan =
  tpl_requested :: generation_guarantee
  tpl_runtime :: generation_guarantee
  tpl_fallback :: constraint_fallback_policy
  tpl_constraint :: "tool_constraint option"

record resolver =
  rs_factory :: "(tool_policy \<Rightarrow> tool_constraint option res) option"
  rs_capabilities :: capability_snapshot

text \<open>\<open>embedded\<close> is the snapshot the factory itself carries, when it has one.\<close>

definition new_resolver ::
  "(tool_policy \<Rightarrow> tool_constraint option res) option \<Rightarrow> capability_snapshot option \<Rightarrow> capability_snapshot option
     \<Rightarrow> resolver" where
  "new_resolver factory embedded capabilities =
     \<lparr>rs_factory = factory,
      rs_capabilities = (case capabilities of Some c \<Rightarrow> c
        | None \<Rightarrow> (case (factory, embedded) of
            (Some _, Some e) \<Rightarrow> e
          | _ \<Rightarrow> \<lparr>cap_tool_constraints = (factory \<noteq> None), cap_strict_tool_constraints = (factory \<noteq> None),
                  cap_structured_output = True\<rparr>))\<rparr>"

definition ensure_tool_request_supported :: "resolver \<Rightarrow> tool_policy \<Rightarrow> unit res" where
  "ensure_tool_request_supported R p =
     raise_if (has_exposed_strict_tool p \<and> \<not> cap_strict_tool_constraints (rs_capabilities R))
       (ToolConstraintUnsupported ''Strict function tools are not supported by the effective model capability snapshot.'')
       (Inr ())"

fun check_strict_branches :: "tool_constraint \<Rightarrow> string list \<Rightarrow> unit res" where
  "check_strict_branches c [] = Inr ()"
| "check_strict_branches c (n # ns) = (case guarantee_for_tool c n of Inl e \<Rightarrow> Inl e
     | Inr g \<Rightarrow> raise_if (\<not> guarantee_satisfies g GSchema)
         (ToolConstraintUnsupported ''Strict function tools require reliable SCHEMA branch guarantees.'')
         (check_strict_branches c ns))"

definition planned_constraint :: "resolver \<Rightarrow> tool_policy \<Rightarrow> tool_constraint option res" where
  "planned_constraint R p = (case rs_factory R of None \<Rightarrow> Inr None
     | Some factory \<Rightarrow> if cap_tool_constraints (rs_capabilities R) then factory p else Inr None)"

definition resolve_tool_policy :: "resolver \<Rightarrow> tool_policy \<Rightarrow> tool_plan res" where
  "resolve_tool_policy R p =
     (let strict = has_exposed_strict_tool p;
          plan = (\<lambda>c. \<lparr>tpl_requested = (if strict then GSchema else GNone), tpl_runtime = runtime_tool_guarantee c,
             tpl_fallback = (if strict then FAIL_CLOSED else ALLOW_VALIDATION_ONLY), tpl_constraint = c\<rparr>) in
      case ensure_tool_request_supported R p of Inl e \<Rightarrow> Inl e
      | Inr _ \<Rightarrow> (case planned_constraint R p of Inl e \<Rightarrow> Inl e
        | Inr c \<Rightarrow>
           if \<not> strict then Inr (plan c)
           else case c of None \<Rightarrow> Inl (ToolConstraintUnsupported
                  ''Strict function tools require a generation-time schema constraint.'')
             | Some k \<Rightarrow> (case check_strict_branches k (exposed_strict_tool_names p) of
                 Inl e \<Rightarrow> Inl e | Inr _ \<Rightarrow> Inr (plan c))))"

definition unconstrained_plan :: "structured_spec \<Rightarrow> string \<Rightarrow> structured_plan" where
  "unconstrained_plan s reason = \<lparr>spl_requested = so_requested s, spl_planned = GNone, spl_fallback = so_fallback s,
     spl_schema = None, spl_trigger = None,
     spl_unsupported = (if so_fallback s = FAIL_CLOSED then Some reason else None)\<rparr>"

definition resolve_structured_output ::
  "resolver \<Rightarrow> structured_spec option \<Rightarrow> bool \<Rightarrow> string option \<Rightarrow> structured_plan option res" where
  "resolve_structured_output R spec raw_text_only trigger = (case spec of None \<Rightarrow> Inr None
     | Some s \<Rightarrow>
        raise_if (trigger = Some []) (ValueError ''structured_output_trigger must be a non-empty string or None'')
       (if \<not> cap_structured_output (rs_capabilities R)
        then Inr (Some (unconstrained_plan s ''effective model snapshot does not provide structured-output constraints''))
        else if \<not> (raw_text_only \<or> trigger \<noteq> None)
        then Inr (Some (unconstrained_plan s
               ''compiled prompt does not expose a supported structured-output constraint path''))
        else Inr (Some \<lparr>spl_requested = so_requested s,
               spl_planned = (if so_requested s \<noteq> GNone then so_requested s else GSchema),
               spl_fallback = so_fallback s, spl_schema = Some (so_schema s),
               spl_trigger = (if raw_text_only then None else trigger), spl_unsupported = None\<rparr>)))"

section \<open>What a plan promises\<close>

lemma exposed_names_strict: "has_exposed_strict_tool p \<longleftrightarrow> exposed_strict_tool_names p \<noteq> []"
  by (auto simp: has_exposed_strict_tool_def exposed_strict_tool_names_def filter_empty_conv list_ex_iff
      split: tool_choice_mode.split)

lemma satisfies_schema [simp]: "guarantee_satisfies g GSchema \<longleftrightarrow> g = GSchema"
  by (cases g) (simp_all add: guarantee_satisfies_def guarantee_strength_def)

lemma check_strict_branches_ok:
  "check_strict_branches c ns = Inr () \<longleftrightarrow> (\<forall>n\<in>set ns. guarantee_for_tool c n = Inr GSchema)"
  by (induction ns) (auto split: sum.splits)

lemma arg_min_list_le:
  "xs \<noteq> [] \<Longrightarrow> \<forall>x\<in>set xs. f (arg_min_list f xs) \<le> f x" for f :: "'a \<Rightarrow> nat"
  by (metis f_arg_min_list_f finite_set Min_le image_eqI finite_imageI)

lemma runtime_guarantee_minimal:
  assumes "runtime_tool_guarantee (Some k) = g" and "tgc_branches k = Some bs" and "(n, b) \<in> set bs" and "b \<noteq> GNone"
  shows "g = GUnknown \<or> guarantee_satisfies b g"
proof -
  let ?gs = "filter (\<lambda>g. g \<noteq> GNone) (map snd bs)"
  have b: "b \<in> set ?gs" using assms(3,4) by force
  then have ne: "?gs \<noteq> []" by (metis empty_iff list.set(1))
  show ?thesis
  proof (cases "GUnknown \<in> set ?gs")
    case True
    then show ?thesis using assms(1,2) ne by (simp add: runtime_tool_guarantee_def Let_def)
  next
    case False
    then have g: "g = arg_min_list (\<lambda>g. the (guarantee_strength g)) ?gs"
      using assms(1,2) ne by (simp add: runtime_tool_guarantee_def Let_def)
    have "the (guarantee_strength g) \<le> the (guarantee_strength b)"
      using arg_min_list_le [OF ne, of "\<lambda>g. the (guarantee_strength g)"] b unfolding g by blast
    moreover have "b \<noteq> GUnknown" using False b by metis
    ultimately show ?thesis by (simp add: guarantee_satisfies_def)
  qed
qed


definition ex_tool :: "string \<Rightarrow> bool \<Rightarrow> function_tool" where
  "ex_tool n s = \<lparr>ft_name = n, ft_description = None, ft_parameters = ''{}'', ft_strict = s\<rparr>"

definition ex_policy :: tool_policy where
  "ex_policy = \<lparr>tp_tools = [ex_tool ''f'' True, ex_tool ''g'' False],
     tp_choice = \<lparr>tc_mode = MODE_AUTO, tc_name = None\<rparr>, tp_parallel = True\<rparr>"

definition ex_constraint :: tool_constraint where
  "ex_constraint = \<lparr>tgc_trigger = ''<t>'', tgc_grammar = ''g'', tgc_eos_after_completed = True,
     tgc_branches = Some [(''f'', GSchema), (''g'', GFormat)], tgc_fingerprint = None\<rparr>"

definition ex_resolver :: resolver where
  "ex_resolver = new_resolver (Some (\<lambda>_. Inr (Some ex_constraint))) None None"


text \<open>Structured output is never silently downgraded: the plan for an accepted specification
  either satisfies the requested guarantee or reports itself unsupported, and it reports that only
  under the fail-closed policy. A plan that constrains carries the schema.\<close>

theorem structured_plan_not_downgraded:
  assumes "resolve_structured_output R (Some s) raw trigger = Inr (Some plan)" and "mk_structured_spec s = Inr s"
  shows "(guarantee_satisfies (spl_planned plan) (so_requested s) \<or> spl_unsupported plan \<noteq> None)
    \<and> (spl_unsupported plan \<noteq> None \<longrightarrow> spl_fallback plan = FAIL_CLOSED)
    \<and> (spl_planned plan \<noteq> GNone \<longleftrightarrow> spl_schema plan = Some (so_schema s))"
  using assms
  by (cases "so_requested s"; cases "so_fallback s")
    (auto simp: resolve_structured_output_def unconstrained_plan_def mk_structured_spec_def
      guarantee_satisfies_def guarantee_strength_def split: if_splits)

definition ex_spec :: structured_spec where
  "ex_spec = \<lparr>so_schema = ''{}'', so_requested = GSchema, so_fallback = FAIL_CLOSED\<rparr>"

theorem structured_plan_not_downgraded_witness:
  "\<exists>plan. resolve_structured_output ex_resolver (Some ex_spec) False None = Inr (Some plan)
    \<and> spl_unsupported plan \<noteq> None \<and> spl_fallback plan = FAIL_CLOSED"
proof -
  obtain plan where p: "resolve_structured_output ex_resolver (Some ex_spec) False None = Inr (Some plan)"
      "spl_unsupported plan \<noteq> None"
    by (simp add: resolve_structured_output_def ex_resolver_def new_resolver_def unconstrained_plan_def ex_spec_def)
  moreover have "mk_structured_spec ex_spec = Inr ex_spec" by (simp add: mk_structured_spec_def ex_spec_def)
  ultimately show ?thesis using structured_plan_not_downgraded [OF p(1)] by blast
qed

end
