(* ===== verification/Tool_Batch.thy ===== *)
theory Tool_Batch
  imports Validation
begin

text \<open>
  The publication transaction of one assistant turn's tool calls,
  \<open>src/exqserve/serving/tool_batch.py\<close>: \<open>ToolCallBatchGate\<close> as a record, its handlers as
  functions returning the decision and the gate, and the classification of failures. The validator
  is a parameter of the gate's policy check, as in \<open>Validation\<close>.
\<close>

section \<open>Failures\<close>

definition model_tool_output_invalid_codes :: "validation_code set" where
  "model_tool_output_invalid_codes =
     {INVALID_JSON, DUPLICATE_JSON_KEY, JSON_VALUE_NOT_OBJECT, SCHEMA_VALIDATION_FAILED}"

definition tool_call_invalid_codes :: "validation_code set" where
  "tool_call_invalid_codes = model_tool_output_invalid_codes \<union> {DUPLICATE_TOOL_CALL_ID, INVALID_TOOL_CALL_ORDER}"

definition format_guaranteed_invalid_codes :: "validation_code set" where
  "format_guaranteed_invalid_codes = {INVALID_JSON, DUPLICATE_JSON_KEY, JSON_VALUE_NOT_OBJECT}"

definition tool_validation_failure :: "validation_issue list \<Rightarrow> (string \<times> string) res" where
  "tool_validation_failure issues =
     raise_if (is_valid issues) (ValueError ''tool validation result must contain at least one issue'')
    (Inr (if list_ex (\<lambda>i. vi_code i \<in> tool_call_invalid_codes) issues
          then (''tool_call_invalid'', ''Model produced an invalid tool call.'')
          else (''tool_policy_violation'', ''Model output violated the requested tool policy.'')))"

record batch_failure =
  bf_code :: string
  bf_message :: string
  bf_issues :: "validation_issue list"

record batch_decision =
  bd_events :: "generation_event list"
  bd_failure :: "batch_failure option"

definition accepts :: "generation_event list \<Rightarrow> batch_decision" where
  "accepts es = \<lparr>bd_events = es, bd_failure = None\<rparr>"

definition fails :: "string \<Rightarrow> string \<Rightarrow> validation_issue list \<Rightarrow> batch_decision" where
  "fails c m issues = \<lparr>bd_events = [], bd_failure = Some \<lparr>bf_code = c, bf_message = m, bf_issues = issues\<rparr>\<rparr>"

lemma decision_sel [simp]:
  "bd_events (accepts es) = es" "bd_failure (accepts es) = None"
  "bd_events (fails c m is) = []" "bd_failure (fails c m is) = Some \<lparr>bf_code = c, bf_message = m, bf_issues = is\<rparr>"
  by (simp_all add: accepts_def fails_def)

definition is_model_tool_output_invalid :: "batch_failure \<Rightarrow> generation_guarantee \<Rightarrow> bool" where
  "is_model_tool_output_invalid f g =
     (if bf_code f \<noteq> ''tool_call_invalid'' \<or> bf_issues f = [] then False
      else if list_ex (\<lambda>i. vi_code i \<notin> model_tool_output_invalid_codes) (bf_issues f) then False
      else if g = GSchema \<or> g = GUnknown then False
      else if g = GFormat then list_all (\<lambda>i. vi_code i \<notin> format_guaranteed_invalid_codes) (bf_issues f)
      else g = GNone)"

definition violates_tool_constraint_guarantee :: "batch_failure \<Rightarrow> generation_guarantee \<Rightarrow> bool" where
  "violates_tool_constraint_guarantee f g =
     (if bf_code f \<noteq> ''tool_call_invalid'' \<or> bf_issues f = [] then False
      else if list_ex (\<lambda>i. vi_code i \<notin> model_tool_output_invalid_codes) (bf_issues f) then False
      else if g = GSchema then True
      else if g = GFormat then list_ex (\<lambda>i. vi_code i \<in> format_guaranteed_invalid_codes) (bf_issues f)
      else False)"

section \<open>The gate\<close>

datatype batch_lifecycle = BATCH_OPEN | COMMITTED | ABORTED

record gate =
  g_policy :: tool_policy
  g_atomic :: bool
  g_limit :: int
  g_accepted :: "string set"
  g_completed :: "tool_call_item list"
  g_buffered :: "generation_event list"
  g_lifecycle :: batch_lifecycle

definition new_gate :: "tool_policy \<Rightarrow> int \<Rightarrow> bool \<Rightarrow> int \<Rightarrow> gate res" where
  "new_gate policy fanout atomic constrained =
     raise_if (fanout \<le> 0) (ValueError ''tool_call_fanout_limit must be positive'')
    (raise_if (constrained \<le> 0) (ValueError ''constrained_parallel_tool_call_limit must be positive'')
    (Inr \<lparr>g_policy = policy, g_atomic = atomic, g_limit = (if atomic then min fanout constrained else fanout),
          g_accepted = {}, g_completed = [], g_buffered = [], g_lifecycle = BATCH_OPEN\<rparr>))"

definition finalized_failure :: batch_decision where
  "finalized_failure = fails ''tool_call_stream_invalid''
     ''Model produced Tool Call events after the Tool Call batch was finalized.'' []"

definition accept_event :: "generation_event \<Rightarrow> gate \<Rightarrow> batch_decision \<times> gate" where
  "accept_event e g =
     (if g_atomic g \<or> g_buffered g \<noteq> [] then (accepts [], g\<lparr>g_buffered := g_buffered g @ [e]\<rparr>)
      else (accepts [e], g))"

definition on_started :: "string \<Rightarrow> generation_event \<Rightarrow> gate \<Rightarrow> batch_decision \<times> gate" where
  "on_started cid e g =
     (if g_lifecycle g \<noteq> BATCH_OPEN then (finalized_failure, g)
      else if cid \<in> g_accepted g
      then (fails ''tool_call_stream_invalid'' ''Model produced a duplicate tool-call start event.'' [], g)
      else if g_limit g \<le> int (card (g_accepted g))
      then (fails ''tool_policy_violation'' ''Model output exceeded the server tool-call policy.'' [], g)
      else accept_event e (g\<lparr>g_accepted := insert cid (g_accepted g)\<rparr>))"

definition on_arguments_delta :: "string \<Rightarrow> generation_event \<Rightarrow> gate \<Rightarrow> batch_decision \<times> gate" where
  "on_arguments_delta cid e g =
     (if g_lifecycle g \<noteq> BATCH_OPEN then (finalized_failure, g)
      else if cid \<notin> g_accepted g
      then (fails ''tool_call_stream_invalid'' ''Model produced tool arguments before an accepted tool call start.'' [], g)
      else accept_event e g)"

definition on_completed ::
  "validator \<Rightarrow> tool_call_item \<Rightarrow> generation_event \<Rightarrow> gate \<Rightarrow> batch_decision res \<times> gate" where
  "on_completed V call e g =
     (if g_lifecycle g \<noteq> BATCH_OPEN then (Inr finalized_failure, g)
      else if call_id call \<notin> g_accepted g
      then (Inr (fails ''tool_call_stream_invalid'' ''Model completed a tool call that was not accepted.'' []), g)
      else case validate_calls_canonical V (g_completed g @ [call]) (g_policy g) of
        Inl ex \<Rightarrow> (Inl ex, g)
      | Inr (issues, _) \<Rightarrow>
          if \<not> is_valid issues
          then (map_sum id (\<lambda>(c, m). fails c m issues) (tool_validation_failure issues), g)
          else (Inr (accepts []), g\<lparr>g_completed := g_completed g @ [call], g_buffered := g_buffered g @ [e]\<rparr>))"

definition on_passthrough :: "generation_event \<Rightarrow> gate \<Rightarrow> batch_decision \<times> gate" where
  "on_passthrough e g =
     (if g_lifecycle g \<noteq> BATCH_OPEN then (finalized_failure, g)
      else if g_buffered g \<noteq> [] then (accepts [], g\<lparr>g_buffered := g_buffered g @ [e]\<rparr>)
      else (accepts [e], g))"

definition commit_events :: "gate \<Rightarrow> generation_event list \<times> gate" where
  "commit_events g =
     (if g_lifecycle g \<noteq> BATCH_OPEN then ([], g)
      else (g_buffered g, g\<lparr>g_lifecycle := COMMITTED, g_buffered := []\<rparr>))"

definition abort :: "gate \<Rightarrow> gate" where
  "abort g = (if g_lifecycle g = COMMITTED then g else g\<lparr>g_lifecycle := ABORTED, g_buffered := []\<rparr>)"

section \<open>Histories of one gate\<close>

text \<open>The gate as the serving engine drives it: each event goes to the handler of its class.\<close>

datatype gate_op = Event generation_event | Commit | Abort

definition gate_event :: "validator \<Rightarrow> generation_event \<Rightarrow> gate \<Rightarrow> batch_decision res \<times> gate" where
  "gate_event V e g = (case e of
       ToolCallStarted r c n i \<Rightarrow> apfst Inr (on_started c e g)
     | ToolCallArgumentsDelta r c d i \<Rightarrow> apfst Inr (on_arguments_delta c e g)
     | ToolCallCompleted r call \<Rightarrow> on_completed V call e g
     | _ \<Rightarrow> apfst Inr (on_passthrough e g))"

text \<open>What a step publishes, and whether it accepted an event.\<close>

definition gate_step :: "validator \<Rightarrow> gate_op \<Rightarrow> gate \<Rightarrow> generation_event list \<times> bool \<times> gate" where
  "gate_step V op g = (case op of
       Event e \<Rightarrow> (case gate_event V e g of
           (Inr d, g') \<Rightarrow> (bd_events d, bd_failure d = None, g') | (Inl _, g') \<Rightarrow> ([], False, g'))
     | Commit \<Rightarrow> (case commit_events g of (es, g') \<Rightarrow> (es, False, g'))
     | Abort \<Rightarrow> ([], False, abort g))"

text \<open>A run: the events published, the events accepted, the gate.\<close>

fun gate_run :: "validator \<Rightarrow> gate_op list \<Rightarrow> gate \<Rightarrow> generation_event list \<times> generation_event list \<times> gate" where
  "gate_run V [] g = ([], [], g)"
| "gate_run V (op # ops) g = (case gate_step V op g of (es, ok, g') \<Rightarrow>
     (case gate_run V ops g' of (pub, acc, g'') \<Rightarrow>
        (es @ pub, (case op of Event e \<Rightarrow> if ok then [e] else [] | _ \<Rightarrow> []) @ acc, g'')))"

definition completion_of :: "generation_event \<Rightarrow> tool_call_item option" where
  "completion_of e = (case e of ToolCallCompleted r c \<Rightarrow> Some c | _ \<Rightarrow> None)"

section \<open>Invariant\<close>

definition gate_ok :: "validator \<Rightarrow> gate \<Rightarrow> bool" where
  "gate_ok V g \<longleftrightarrow> finite (g_accepted g) \<and> int (card (g_accepted g)) \<le> max 0 (g_limit g)
     \<and> (g_completed g = [] \<or> (\<exists>cs. validate_calls_canonical V (g_completed g) (g_policy g) = Inr ([], cs)))
     \<and> call_id ` set (g_completed g) \<subseteq> g_accepted g
     \<and> (g_lifecycle g \<noteq> BATCH_OPEN \<longrightarrow> g_buffered g = [])
     \<and> (g_lifecycle g = BATCH_OPEN \<longrightarrow> List.map_filter completion_of (g_buffered g) = g_completed g)"

lemma new_gate_ok: "new_gate p f a c = Inr g \<Longrightarrow> gate_ok V g \<and> g_lifecycle g = BATCH_OPEN \<and> g_buffered g = []
    \<and> 0 < g_limit g \<and> g_limit g \<le> f"
  by (auto simp: new_gate_def gate_ok_def map_filter_simps)

lemmas gate_defs = gate_step_def gate_event_def on_started_def on_arguments_delta_def on_completed_def
  on_passthrough_def accept_event_def finalized_failure_def

lemma map_filter_append: "List.map_filter f (xs @ ys) = List.map_filter f xs @ List.map_filter f ys"
  by (simp add: List.map_filter_def)

lemma accept_event_ok:
  "gate_ok V g \<Longrightarrow> completion_of e = None \<Longrightarrow> g_lifecycle g = BATCH_OPEN \<Longrightarrow> gate_ok V (snd (accept_event e g))"
  by (auto simp: accept_event_def gate_ok_def map_filter_append map_filter_simps)

lemma on_started_ok:
  assumes "gate_ok V g" "completion_of e = None"
  shows "gate_ok V (snd (on_started c e g))"
proof (cases "g_lifecycle g \<noteq> BATCH_OPEN \<or> c \<in> g_accepted g \<or> g_limit g \<le> int (card (g_accepted g))")
  case True
  then show ?thesis using assms(1) by (auto simp: on_started_def)
next
  case False
  moreover from False have "gate_ok V (g\<lparr>g_accepted := insert c (g_accepted g)\<rparr>)"
    using assms(1) by (auto simp: gate_ok_def)
  ultimately show ?thesis using accept_event_ok [OF _ assms(2)] by (auto simp: on_started_def)
qed

lemma on_completed_ok:
  assumes "gate_ok V g"
  shows "gate_ok V (snd (on_completed V call (ToolCallCompleted r call) g))"
  using assms
  by (auto simp: on_completed_def gate_ok_def is_valid_def map_filter_append map_filter_simps completion_of_def
      split: sum.split prod.split)

lemma on_arguments_delta_ok:
  "gate_ok V g \<Longrightarrow> completion_of e = None \<Longrightarrow> gate_ok V (snd (on_arguments_delta c e g))"
  using accept_event_ok [of V g e] by (simp add: on_arguments_delta_def)

lemma on_passthrough_ok:
  "gate_ok V g \<Longrightarrow> completion_of e = None \<Longrightarrow> gate_ok V (snd (on_passthrough e g))"
  by (simp add: on_passthrough_def) (auto simp: gate_ok_def map_filter_append map_filter_simps)

lemma gate_event_ok:
  assumes "gate_ok V g"
  shows "gate_ok V (snd (gate_event V e g))"
proof (cases "completion_of e")
  case None
  then show ?thesis
    using on_started_ok [OF assms None] on_arguments_delta_ok [OF assms None] on_passthrough_ok [OF assms None]
    by (cases e) (simp_all add: gate_event_def completion_of_def)
next
  case (Some call)
  then show ?thesis using on_completed_ok [OF assms]
    by (cases e) (simp_all add: gate_event_def completion_of_def)
qed

lemma gate_step_ok:
  assumes "gate_ok V g"
  shows "gate_ok V (snd (snd (gate_step V op g)))"
proof (cases op)
  case (Event e)
  then show ?thesis using gate_event_ok [OF assms, of e]
    by (auto simp: gate_step_def split: prod.split sum.split)
next
  case Commit
  then show ?thesis using assms by (auto simp: gate_step_def commit_events_def gate_ok_def)
next
  case Abort
  then show ?thesis using assms by (auto simp: gate_step_def abort_def gate_ok_def)
qed

lemma gate_run_ok: "gate_ok V g \<Longrightarrow> gate_ok V (snd (snd (gate_run V ops g)))"
proof (induction ops arbitrary: g)
  case (Cons op ops)
  obtain es ok g' where g': "gate_step V op g = (es, ok, g')" by (cases "gate_step V op g") auto
  then have "gate_ok V g'" using gate_step_ok [OF Cons.prems, of op] by simp
  then show ?case using Cons.IH [of g'] g' by (simp add: split_def)
qed simp

section \<open>Publication order\<close>

text \<open>One accepted event is either published at once, when nothing is held back, or appended to the buffer.\<close>

lemma gate_event_accepts:
  assumes "gate_event V e g = (Inr d, g')"
  shows "g_lifecycle g' = g_lifecycle g \<and> g_policy g' = g_policy g \<and> g_limit g' = g_limit g"
    and "bd_failure d \<noteq> None \<Longrightarrow> g' = g \<and> bd_events d = []"
    and "bd_failure d = None \<Longrightarrow> g_lifecycle g = BATCH_OPEN
      \<and> (bd_events d = [e] \<and> g_buffered g = [] \<and> g_buffered g' = [] \<and> completion_of e = None
         \<or> bd_events d = [] \<and> g_buffered g' = g_buffered g @ [e])"
proof -
  have ac: "accept_event e g0 = (d, g') \<Longrightarrow> bd_failure d = None \<and> g_lifecycle g' = g_lifecycle g0
      \<and> g_policy g' = g_policy g0 \<and> g_limit g' = g_limit g0
      \<and> (bd_events d = [e] \<and> g_buffered g0 = [] \<and> g_buffered g' = []
         \<or> bd_events d = [] \<and> g_buffered g' = g_buffered g0 @ [e])" for g0
    by (auto simp: accept_event_def split: if_splits)
  have st: "on_started c e g = (d, g') \<Longrightarrow> bd_failure d \<noteq> None \<and> g' = g \<and> bd_events d = []
      \<or> g_lifecycle g = BATCH_OPEN \<and> accept_event e (g\<lparr>g_accepted := insert c (g_accepted g)\<rparr>) = (d, g')" for c
    by (auto simp: on_started_def finalized_failure_def split: if_splits)
  have ad: "on_arguments_delta c e g = (d, g') \<Longrightarrow> bd_failure d \<noteq> None \<and> g' = g \<and> bd_events d = []
      \<or> g_lifecycle g = BATCH_OPEN \<and> accept_event e g = (d, g')" for c
    by (auto simp: on_arguments_delta_def finalized_failure_def split: if_splits)
  have pt: "on_passthrough e g = (d, g') \<Longrightarrow> bd_failure d \<noteq> None \<and> g' = g \<and> bd_events d = []
      \<or> bd_failure d = None \<and> g_lifecycle g = BATCH_OPEN \<and> g_lifecycle g' = g_lifecycle g
        \<and> g_policy g' = g_policy g \<and> g_limit g' = g_limit g
        \<and> (bd_events d = [e] \<and> g_buffered g = [] \<and> g_buffered g' = []
           \<or> bd_events d = [] \<and> g_buffered g' = g_buffered g @ [e])"
    by (auto simp: on_passthrough_def finalized_failure_def split: if_splits)
  have co: "on_completed V call e g = (Inr d, g') \<Longrightarrow> bd_failure d \<noteq> None \<and> g' = g \<and> bd_events d = []
      \<or> bd_failure d = None \<and> g_lifecycle g = BATCH_OPEN \<and> g_lifecycle g' = g_lifecycle g
        \<and> g_policy g' = g_policy g \<and> g_limit g' = g_limit g
        \<and> bd_events d = [] \<and> g_buffered g' = g_buffered g @ [e]" for call
  proof -
    assume c: "on_completed V call e g = (Inr d, g')"
    show ?thesis
    proof (cases "g_lifecycle g \<noteq> BATCH_OPEN \<or> call_id call \<notin> g_accepted g")
      case True
      then show ?thesis using c by (auto simp: on_completed_def finalized_failure_def split: if_splits)
    next
      case False
      then obtain issues cs where "validate_calls_canonical V (g_completed g @ [call]) (g_policy g) = Inr (issues, cs)"
        using c by (cases "validate_calls_canonical V (g_completed g @ [call]) (g_policy g)")
          (auto simp: on_completed_def)
      then show ?thesis using c False
        by (cases "is_valid issues") (auto simp: on_completed_def)
    qed
  qed
  have all: "bd_failure d \<noteq> None \<and> g' = g \<and> bd_events d = []
      \<or> bd_failure d = None \<and> g_lifecycle g = BATCH_OPEN \<and> g_lifecycle g' = g_lifecycle g
        \<and> g_policy g' = g_policy g \<and> g_limit g' = g_limit g
        \<and> (bd_events d = [e] \<and> g_buffered g = [] \<and> g_buffered g' = [] \<and> completion_of e = None
           \<or> bd_events d = [] \<and> g_buffered g' = g_buffered g @ [e])"
  proof (cases "completion_of e")
    case (Some call)
    then have "on_completed V call e g = (Inr d, g')"
      using assms by (cases e) (simp_all add: gate_event_def completion_of_def)
    then show ?thesis using co by blast
  next
    case None
    consider c where "on_started c e g = (d, g')" | c where "on_arguments_delta c e g = (d, g')"
      | "on_passthrough e g = (d, g')"
      using assms None by (cases e) (auto simp: gate_event_def completion_of_def apfst_def map_prod_def split: prod.splits)
    then show ?thesis
    proof cases
      case 1
      then show ?thesis using st [of c] ac [of "g\<lparr>g_accepted := insert c (g_accepted g)\<rparr>"] None by auto
    next
      case 2
      then show ?thesis using ad [of c] ac [of g] None by auto
    next
      case 3
      then show ?thesis using pt None by auto
    qed
  qed
  then show "g_lifecycle g' = g_lifecycle g \<and> g_policy g' = g_policy g \<and> g_limit g' = g_limit g" by auto
  show "bd_failure d \<noteq> None \<Longrightarrow> g' = g \<and> bd_events d = []" using all by auto
  show "bd_failure d = None \<Longrightarrow> g_lifecycle g = BATCH_OPEN
      \<and> (bd_events d = [e] \<and> g_buffered g = [] \<and> g_buffered g' = [] \<and> completion_of e = None
         \<or> bd_events d = [] \<and> g_buffered g' = g_buffered g @ [e])" using all by auto
qed

lemma gate_event_raises: "gate_event V e g = (Inl ex, g') \<Longrightarrow> g' = g"
  by (cases e) (auto simp: gate_event_def on_completed_def apfst_def map_prod_def
      split: prod.splits if_splits sum.splits)

lemma gate_step_cases:
  assumes "gate_step V op g = (es, ok, g')"
  obtains
    (accepted) e where "op = Event e" "ok" "g_lifecycle g = BATCH_OPEN" "g_lifecycle g' = BATCH_OPEN"
      "es = [e] \<and> g_buffered g = [] \<and> g_buffered g' = [] \<and> completion_of e = None
        \<or> es = [] \<and> g_buffered g' = g_buffered g @ [e]" "g_policy g' = g_policy g" "g_limit g' = g_limit g"
  | (rejected) e where "op = Event e" "\<not> ok" "es = []" "g' = g"
  | (commit) "op = Commit" "\<not> ok" "commit_events g = (es, g')"
  | (abort) "op = Abort" "\<not> ok" "es = []" "g' = abort g"
proof (cases op)
  case (Event e)
  show ?thesis
  proof (cases "gate_event V e g")
    case (Pair r h)
    show ?thesis
    proof (cases r)
      case (Inl ex)
      then show ?thesis using rejected [OF Event] assms Event Pair gate_event_raises [of V e g ex h]
        by (simp add: gate_step_def)
    next
      case (Inr d)
      note g = gate_event_accepts [OF Pair [unfolded Inr]]
      have eq: "es = bd_events d" "ok \<longleftrightarrow> bd_failure d = None" "g' = h"
        using assms Event Pair Inr by (auto simp: gate_step_def)
      show ?thesis
      proof (cases "bd_failure d = None")
        case True
        then show ?thesis using accepted [OF Event] g eq by simp
      next
        case False
        then show ?thesis using rejected [OF Event] g(2) eq by simp
      qed
    qed
  qed
next
  case Commit
  then show ?thesis using commit assms by (auto simp: gate_step_def split: prod.splits)
next
  case Abort
  then show ?thesis using abort assms by (auto simp: gate_step_def)
qed

lemma gate_run_Cons:
  "gate_step V op g = (es, ok, g') \<Longrightarrow> gate_run V ops g' = (pub, acc, g'') \<Longrightarrow>
    gate_run V (op # ops) g = (es @ pub, (case op of Event e \<Rightarrow> if ok then [e] else [] | _ \<Rightarrow> []) @ acc, g'')"
  by simp

lemma gate_closed:
  "gate_run V ops g = (pub, acc, g') \<Longrightarrow> g_lifecycle g \<noteq> BATCH_OPEN \<Longrightarrow> g_buffered g = [] \<Longrightarrow>
    pub = [] \<and> acc = [] \<and> g_lifecycle g' = g_lifecycle g \<and> g_completed g' = g_completed g \<and> g_buffered g' = []"
proof (induction ops arbitrary: g pub acc)
  case (Cons op ops)
  obtain es ok h where h: "gate_step V op g = (es, ok, h)" by (cases "gate_step V op g") auto
  obtain pub' acc' where r: "gate_run V ops h = (pub', acc', g')" "pub = es @ pub'"
      "acc = (case op of Event e \<Rightarrow> if ok then [e] else [] | _ \<Rightarrow> []) @ acc'"
    using Cons.prems(1) h by (cases "gate_run V ops h") auto
  have h2: "es = [] \<and> \<not> ok \<and> g_lifecycle h = g_lifecycle g \<and> g_completed h = g_completed g \<and> g_buffered h = []"
    using h Cons.prems(2,3)
    by (cases rule: gate_step_cases) (cases "g_lifecycle g"; auto simp: commit_events_def abort_def)+
  then show ?case using Cons.IH [OF r(1)] Cons.prems(2) r by (auto split: gate_op.split)
qed simp

lemma gate_run_order:
  assumes "gate_ok V g" "gate_run V ops g = (pub, acc, g')"
  shows "(Abort \<notin> set ops \<longrightarrow> pub @ g_buffered g' = g_buffered g @ acc)
    \<and> (\<exists>rest. g_buffered g @ acc = pub @ rest)"
  using assms
proof (induction ops arbitrary: g pub acc)
  case (Cons op ops)
  obtain es ok h where h: "gate_step V op g = (es, ok, h)" by (cases "gate_step V op g") auto
  obtain pub' acc' where r: "gate_run V ops h = (pub', acc', g')" "pub = es @ pub'"
      "acc = (case op of Event e \<Rightarrow> if ok then [e] else [] | _ \<Rightarrow> []) @ acc'"
    using Cons.prems(2) h by (cases "gate_run V ops h") auto
  have "gate_ok V h" using gate_step_ok [OF Cons.prems(1), of op] h by simp
  note ih = Cons.IH [OF this r(1)]
  show ?case
    using h
  proof (cases rule: gate_step_cases)
    case (accepted e)
    then show ?thesis using ih r by auto
  next
    case (rejected e)
    then show ?thesis using ih r by auto
  next
    case commit
    then show ?thesis using ih r Cons.prems(1)
      by (auto simp: commit_events_def gate_ok_def split: if_splits)
  next
    case abort
    then have "g_lifecycle h \<noteq> BATCH_OPEN \<and> g_buffered h = []"
      using Cons.prems(1) by (auto simp: abort_def gate_ok_def)
    then show ?thesis using gate_closed [OF r(1)] r abort by simp
  qed
qed simp

lemma gate_run_completions:
  assumes "gate_ok V g" "g_lifecycle g = BATCH_OPEN" "gate_run V ops g = (pub, acc, g')"
  shows "List.map_filter completion_of pub = (if g_lifecycle g' = COMMITTED then g_completed g' else [])"
  using assms
proof (induction ops arbitrary: g pub acc)
  case (Cons op ops)
  obtain es ok h where h: "gate_step V op g = (es, ok, h)" by (cases "gate_step V op g") auto
  obtain pub' acc' where r: "gate_run V ops h = (pub', acc', g')" "pub = es @ pub'"
    using Cons.prems(3) h by (cases "gate_run V ops h") auto
  have ok: "gate_ok V h" using gate_step_ok [OF Cons.prems(1), of op] h by simp
  show ?case
    using h
  proof (cases rule: gate_step_cases)
    case (accepted e)
    then show ?thesis using Cons.IH [OF ok _ r(1)] r by (auto simp: map_filter_simps)
  next
    case (rejected e)
    then show ?thesis using Cons.IH [OF ok _ r(1)] Cons.prems(2) r by simp
  next
    case commit
    then have "es = g_buffered g" "g_lifecycle h = COMMITTED" "g_buffered h = []" "g_completed h = g_completed g"
      using Cons.prems(2) by (auto simp: commit_events_def)
    then show ?thesis using gate_closed [OF r(1)] r Cons.prems(1,2) by (simp add: gate_ok_def)
  next
    case abort
    then have "g_lifecycle h = ABORTED" "g_buffered h = []"
      using Cons.prems(2) by (auto simp: abort_def)
    then show ?thesis using gate_closed [OF r(1)] r abort by (simp add: map_filter_simps)
  qed
qed (simp add: map_filter_simps)

lemma gate_step_policy:
  assumes "gate_step V op g = (es, ok, g')"
  shows "g_policy g' = g_policy g \<and> g_limit g' = g_limit g"
  using assms
proof (cases rule: gate_step_cases)
  case commit
  then show ?thesis by (simp add: commit_events_def split: if_splits) auto
next
  case abort
  then show ?thesis by (simp add: abort_def)
qed simp_all

lemma gate_run_policy: "gate_run V ops g = (pub, acc, g') \<Longrightarrow> g_policy g' = g_policy g \<and> g_limit g' = g_limit g"
proof (induction ops arbitrary: g pub acc)
  case (Cons op ops)
  obtain es ok h where h: "gate_step V op g = (es, ok, h)" by (cases "gate_step V op g") auto
  obtain pub' acc' where r: "gate_run V ops h = (pub', acc', g')"
    using Cons.prems h by (cases "gate_run V ops h") auto
  show ?case using Cons.IH [OF r] gate_step_policy [OF h] by simp
qed simp

text \<open>C21. The gate publishes what it accepted, in the order it accepted it: whatever mixture of
  events, commits and aborts it is driven with, the events published so far followed by those
  still held back are exactly the accepted ones; after an abort the published ones are a prefix.\<close>

theorem published_in_order:
  assumes "new_gate p fanout atomic k = Inr g0" and "gate_run V ops g0 = (pub, acc, g)"
  shows "(Abort \<notin> set ops \<longrightarrow> pub @ g_buffered g = acc) \<and> (\<exists>rest. acc = pub @ rest)"
  using gate_run_order [OF _ assms(2)] new_gate_ok [OF assms(1)] by auto


definition ex_batch_policy :: tool_policy where
  "ex_batch_policy = \<lparr>tp_tools = [\<lparr>ft_name = ''f'', ft_description = None, ft_parameters = dumps True (JObj []), ft_strict = False\<rparr>],
     tp_choice = \<lparr>tc_mode = MODE_AUTO, tc_name = None\<rparr>, tp_parallel = True\<rparr>"

definition ex_call :: tool_call_item where
  "ex_call = \<lparr>call_id = ''c'', tool_name = ''f'', arguments_json = dumps True (JObj [(''a'', JInt 1)]), call_index = 0\<rparr>"

definition ex_batch_gate :: gate where
  "ex_batch_gate = \<lparr>g_policy = ex_batch_policy, g_atomic = False, g_limit = 2, g_accepted = {}, g_completed = [],
     g_buffered = [], g_lifecycle = BATCH_OPEN\<rparr>"

definition ex_batch_events :: "generation_event list" where
  "ex_batch_events = [TextDelta ''r'' ''x'', ToolCallStarted ''r'' ''c'' ''f'' 0, ToolCallCompleted ''r'' ex_call,
     TextDelta ''r'' ''y'']"

lemma ex_call_valid:
  "validate_calls_canonical ex_validator [ex_call] ex_batch_policy = Inr ([], [Some (arguments_json ex_call)])"
proof -
  have "wf_json (\<lambda>_. None) (JObj [(''a'', JInt 1)])" by (simp add: dec_digits.simps)
  then have p: "parse_json_strict (\<lambda>_. None) (dumps True (JObj [(''a'', JInt 1)])) = Inr (JObj [(''a'', JInt 1)])"
    using parse_dumps [of "\<lambda>_. None" "JObj [(''a'', JInt 1)]" True] by (simp add: sort_members_def)
  have q: "parse_json_strict (\<lambda>_. None) (dumps True (JObj [])) = Inr (JObj [])"
    using parse_dumps [of "\<lambda>_. None" "JObj []" True] by simp
  show ?thesis
    unfolding validate_calls_ok acceptable_calls_def acceptable_call_def acceptable_arguments_def
    by (rule exI [of _ "[arguments_json ex_call]"])
      (simp add: ex_batch_policy_def ex_call_def get_tool_def tool_index_def ex_validator_def p q
        schema_violations_def canonical_json_dumps_def del: dumps.simps)
qed

lemma ex_batch_run:
  "gate_run ex_validator (map Event ex_batch_events @ [Commit]) ex_batch_gate
     = (ex_batch_events, ex_batch_events,
        ex_batch_gate\<lparr>g_accepted := {''c''}, g_completed := [ex_call], g_lifecycle := COMMITTED\<rparr>)"
proof -
  have "call_id ex_call = ''c''" by (simp add: ex_call_def)
  moreover have "on_completed ex_validator ex_call e (ex_batch_gate\<lparr>g_accepted := {''c''}\<rparr>)
      = (Inr (accepts []), ex_batch_gate\<lparr>g_accepted := {''c''}, g_completed := [ex_call], g_buffered := [e]\<rparr>)" for e
    using ex_call_valid \<open>call_id ex_call = ''c''\<close> by (simp add: on_completed_def ex_batch_gate_def is_valid_def)
  ultimately show ?thesis
    by (simp add: ex_batch_events_def gate_step_def gate_event_def on_passthrough_def on_started_def
        accept_event_def commit_events_def ex_batch_gate_def)
qed

theorem published_in_order_witness:
  "\<exists>pub acc g. gate_run ex_validator (map Event ex_batch_events @ [Commit]) ex_batch_gate = (pub, acc, g)
    \<and> pub @ g_buffered g = acc \<and> length acc = 4"
proof -
  have "new_gate ex_batch_policy 2 False 1 = Inr ex_batch_gate" by (simp add: new_gate_def ex_batch_gate_def)
  then show ?thesis
    using published_in_order [OF _ ex_batch_run] ex_batch_run by (simp add: ex_batch_events_def ex_batch_gate_def)
qed


text \<open>The classification of a failed batch is exclusive: a failure is never both the model's
  fault and a broken guarantee. When every issue is about the arguments, it is exactly one of the
  two under NONE, FORMAT and SCHEMA, and neither when the guarantee is unknown.\<close>

theorem blame_is_exclusive:
  "\<not> (is_model_tool_output_invalid f g \<and> violates_tool_constraint_guarantee f g)
    \<and> (bf_code f = ''tool_call_invalid'' \<and> bf_issues f \<noteq> [] \<and> vi_code ` set (bf_issues f) \<subseteq> model_tool_output_invalid_codes
       \<longrightarrow> (is_model_tool_output_invalid f g \<or> violates_tool_constraint_guarantee f g) = (g \<noteq> GUnknown))"
  by (cases g) (auto simp: is_model_tool_output_invalid_def violates_tool_constraint_guarantee_def
      list_ex_iff list_all_iff)

theorem blame_is_exclusive_witness:
  "let f = \<lparr>bf_code = ''tool_call_invalid'', bf_message = ''m'', bf_issues = [issue SCHEMA_VALIDATION_FAILED []]\<rparr> in
    is_model_tool_output_invalid f GFormat \<and> \<not> violates_tool_constraint_guarantee f GFormat
    \<and> violates_tool_constraint_guarantee f GSchema"
proof -
  let ?f = "\<lparr>bf_code = ''tool_call_invalid'', bf_message = ''m'', bf_issues = [issue SCHEMA_VALIDATION_FAILED []]\<rparr>"
  have "is_model_tool_output_invalid ?f GFormat \<and> violates_tool_constraint_guarantee ?f GSchema"
    by (simp add: is_model_tool_output_invalid_def violates_tool_constraint_guarantee_def
        model_tool_output_invalid_codes_def format_guaranteed_invalid_codes_def)
  then show ?thesis using blame_is_exclusive [of ?f GFormat] by (auto simp: Let_def)
qed

end
