(* ===== verification/Runtime_Contracts.thy ===== *)
theory Runtime_Contracts
  imports Core_Types
begin

text \<open>
  The contracts between serving and an inference backend, \<open>src/exqserve/runtime/contracts.py\<close>.
  A frozen dataclass is a record of its fields, and \<open>mk_\<dots>\<close> is its \<open>__post_init__\<close>: from the
  raw fields, the first exception or the (normalized) value. \<open>isinstance\<close> checks are the types;
  floats are rationals, so \<open>math.isfinite\<close> holds. The order of the checks is the source's order.
\<close>

section \<open>Checks\<close>

fun first_error :: "(bool \<times> exn) list \<Rightarrow> exn option" where
  "first_error [] = None"
| "first_error ((b, e) # cs) = (if b then Some e else first_error cs)"

definition checked :: "(bool \<times> exn) list \<Rightarrow> 'a \<Rightarrow> 'a res" where
  "checked cs x = (case first_error cs of Some e \<Rightarrow> Inl e | None \<Rightarrow> Inr x)"

lemma first_error_None: "first_error cs = None \<longleftrightarrow> (\<forall>c\<in>set cs. \<not> fst c)"
  by (induction cs rule: first_error.induct) auto

lemma checked_Inr: "checked cs x = Inr y \<longleftrightarrow> y = x \<and> (\<forall>c\<in>set cs. \<not> fst c)"
proof (cases "first_error cs")
  case None
  then show ?thesis using first_error_None [of cs] by (auto simp: checked_def)
next
  case (Some e)
  then have "\<not> (\<forall>c\<in>set cs. \<not> fst c)" using first_error_None [of cs] by auto
  then show ?thesis using Some by (simp add: checked_def)
qed

text \<open>\<open>s.strip()\<close>\<close>

definition strip :: "string \<Rightarrow> string" where
  "strip s = rev (dropWhile py_space (rev (dropWhile py_space s)))"

lemma dropWhile_last: "dropWhile P xs \<noteq> [] \<Longrightarrow> last (dropWhile P xs) = last xs"
  by (induction xs) auto

lemma dropWhile_hd: "xs = [] \<or> \<not> P (hd xs) \<Longrightarrow> dropWhile P xs = xs"
  by (cases xs) auto

lemma strip_strip [simp]: "strip (strip s) = strip s"
proof -
  let ?a = "dropWhile py_space s"
  let ?b = "dropWhile py_space (rev ?a)"
  have a: "?a = [] \<or> \<not> py_space (hd ?a)" by (metis hd_dropWhile)
  have b: "?b = [] \<or> \<not> py_space (hd ?b)" by (metis hd_dropWhile)
  have "rev ?b = [] \<or> \<not> py_space (hd (rev ?b))"
  proof (cases "?b = []")
    case False
    then have "hd (rev ?b) = hd ?a" by (simp add: hd_rev dropWhile_last [OF False] last_rev)
    moreover have "?a \<noteq> []" using False by (metis dropWhile.simps(1) rev.simps(1))
    ultimately show ?thesis using a by metis
  qed simp
  then have "dropWhile py_space (rev ?b) = rev ?b" by (rule dropWhile_hd)
  then show ?thesis using dropWhile_hd [of ?b py_space] b by (simp add: strip_def)
qed

lemma strip_empty: "strip s = [] \<longleftrightarrow> blank s"
proof
  assume "blank s"
  then have "dropWhile py_space s = []" by (simp only: dropWhile_eq_Nil_conv blank_def list_all_iff)
  then show "strip s = []" by (simp only: strip_def rev.simps dropWhile.simps)
next
  assume "strip s = []"
  then have "\<forall>c\<in>set (dropWhile py_space s). py_space c"
    by (simp add: strip_def dropWhile_eq_Nil_conv)
  then have "dropWhile py_space s = []"
    by (metis hd_dropWhile hd_in_set)
  then have "\<forall>c\<in>set s. py_space c" by (simp only: dropWhile_eq_Nil_conv)
  then show "blank s" by (simp add: blank_def list_all_iff)
qed

section \<open>Capabilities and metadata\<close>

datatype runtime_readiness = READY | READINESS_FAILED | READINESS_DEADLINE | READINESS_CLOSED

record runtime_capabilities =
  cap_cancellation :: bool
  cap_template_rendering :: bool
  cap_tokenization :: bool
  cap_seed :: bool
  cap_cache_usage :: bool
  cap_quantized_kv_cache :: bool
  cap_vision :: bool
  cap_generation_constraints :: bool
  cap_structural_token_provenance :: bool
  cap_fresh_attempt_replay :: bool
  cap_recovery_readiness :: bool
  cap_prompt_attachment_replay :: bool

record model_metadata =
  md_max_context_tokens :: "int option"
  md_architecture :: "string option"
  md_backend_context_tokens :: "int option"
  md_generation_headroom_tokens :: "int option"
  md_cache_capacity_tokens :: "int option"

definition not_positive :: "int option \<Rightarrow> bool" where
  "not_positive v = (case v of None \<Rightarrow> False | Some n \<Rightarrow> n \<le> 0)"

definition blank_opt :: "string option \<Rightarrow> bool" where
  "blank_opt v = (case v of None \<Rightarrow> False | Some s \<Rightarrow> blank s)"

definition mk_model_metadata :: "model_metadata \<Rightarrow> model_metadata res" where
  "mk_model_metadata m = checked
    [(not_positive (md_max_context_tokens m), ValueError ''max_context_tokens must be positive''),
     (not_positive (md_backend_context_tokens m), ValueError ''backend_context_tokens must be positive''),
     (not_positive (md_generation_headroom_tokens m), ValueError ''generation_headroom_tokens must be positive''),
     (not_positive (md_cache_capacity_tokens m), ValueError ''cache_capacity_tokens must be positive''),
     (blank_opt (md_architecture m), ValueError ''architecture must not be empty'')]
    (m\<lparr>md_architecture := map_option strip (md_architecture m)\<rparr>)"

section \<open>The load configuration\<close>

record lora_adapter =
  la_directory :: string
  la_scaling :: rat

definition mk_lora_adapter :: "lora_adapter \<Rightarrow> lora_adapter res" where
  "mk_lora_adapter a = checked
    [(blank (la_directory a), ValueError ''directory must not be empty''),
     (la_scaling a < 0, ValueError ''scaling must be non-negative'')]
    (a\<lparr>la_directory := strip (la_directory a)\<rparr>)"

record load_config =
  model_directory :: string
  cache_tokens :: "int option"
  cache_key_bits :: "int option"
  cache_value_bits :: "int option"
  max_batch_size :: int
  max_chunk_size :: int
  reserve_per_device_gb :: "rat list option"
  mtp_enabled :: bool
  mtp_draft_tokens :: int
  mtp_cache_bits :: "int option"
  autosplit_no_forward :: bool
  cuda_malloc_async :: bool
  qc_staging :: "int option"
  max_requeue_tokens :: "int option"
  vision_enabled :: bool
  vision_offload :: bool
  allow_remote_images :: bool
  max_image_bytes :: int
  dynamic_draft_tokens :: bool
  draft_confidence :: rat
  draft_model_directory :: "string option"
  draft_tokens :: int
  draft_cache_bits :: "int option"
  lora_adapters :: "lora_adapter list"
  tensor_parallel :: bool
  tp_backend :: string
  tp_output_device :: "int option"
  device_ids :: "int list option"
  chat_template :: "string option"
  vision_cache_mb :: int
  sysmem_kv_cache_mb :: int
  sysmem_recurrent_cache_mb :: int
  ngram_match_min :: int
  ngram_draft_size :: int
  moe_cpu_offload_layers :: int
  moe_cpu_split_experts :: int
  draft_moe_cpu_offload_layers :: int
  moe_pinned_arena :: bool
  moe_cpu_threads :: "int option"

definition outside :: "int \<Rightarrow> int \<Rightarrow> int option \<Rightarrow> bool" where
  "outside lo hi v = (case v of None \<Rightarrow> False | Some n \<Rightarrow> n < lo \<or> hi < n)"

text \<open>Each selected device is checked in turn; \<open>negative_reserve\<close> reads the reserve of a device
  only when the list is long enough.\<close>

definition negative_reserve :: "rat list option \<Rightarrow> int \<Rightarrow> bool" where
  "negative_reserve reserves d = (case reserves of None \<Rightarrow> False
     | Some rs \<Rightarrow> d < int (length rs) \<and> rs ! nat d < 0)"

fun device_checks :: "rat list option \<Rightarrow> int list \<Rightarrow> int list \<Rightarrow> (bool \<times> exn) list" where
  "device_checks reserves seen [] = []"
| "device_checks reserves seen (d # ds) =
     [(d < 0, ValueError ''device_ids must contain non-negative integers''),
      (d \<in> set seen, ValueError ''device_ids must not contain duplicates''),
      (0 \<le> d \<and> negative_reserve reserves d, ValueError ''selected device_ids cannot have a negative reserve'')]
     @ device_checks reserves (d # seen) ds"

definition load_size_checks :: "load_config \<Rightarrow> (bool \<times> exn) list" where
  "load_size_checks c =
    [(blank (model_directory c), ValueError ''model_directory must not be empty''),
     (case cache_tokens c of None \<Rightarrow> False | Some n \<Rightarrow> n \<le> 0 \<or> n mod 256 \<noteq> 0,
       ValueError ''cache_tokens must be positive and a multiple of 256''),
     ((cache_key_bits c = None) \<noteq> (cache_value_bits c = None),
       ValueError ''cache_key_bits and cache_value_bits must both be set or both be None''),
     (outside 2 8 (cache_key_bits c), ValueError ''cache_key_bits must be in the range 2..8''),
     (outside 2 8 (cache_value_bits c), ValueError ''cache_value_bits must be in the range 2..8''),
     (max_batch_size c \<le> 0, ValueError ''max_batch_size must be positive''),
     (max_chunk_size c \<le> 0, ValueError ''max_chunk_size must be positive'')]
    @ (case device_ids c of None \<Rightarrow> []
       | Some ds \<Rightarrow> (ds = [], ValueError ''device_ids must not be empty'')
           # device_checks (reserve_per_device_gb c) [] ds)"

definition load_mode_checks :: "load_config \<Rightarrow> (bool \<times> exn) list" where
  "load_mode_checks c =
    [(blank_opt (chat_template c), ValueError ''chat_template must not be empty''),
     (\<not> (0 < draft_confidence c \<and> draft_confidence c < 1), ValueError ''draft_confidence must be in the range (0, 1)''),
     (tp_backend c \<notin> set [''native'', ''nccl''], ValueError ''tp_backend must be native or nccl''),
     (negative (tp_output_device c), ValueError ''tp_output_device must be non-negative''),
     (case tp_output_device c of None \<Rightarrow> False
      | Some d \<Rightarrow> (case device_ids c of None \<Rightarrow> False | Some ds \<Rightarrow> d \<notin> set ds),
       ValueError ''tp_output_device must be included in device_ids''),
     (max_image_bytes c \<le> 0, ValueError ''max_image_bytes must be positive''),
     (vision_cache_mb c < 0, ValueError ''vision_cache_mb must be non-negative''),
     (vision_offload c \<and> \<not> vision_enabled c, ValueError ''vision_offload requires vision_enabled''),
     (sysmem_kv_cache_mb c < 0, ValueError ''sysmem_kv_cache_mb must be non-negative''),
     (sysmem_recurrent_cache_mb c \<le> 0, ValueError ''sysmem_recurrent_cache_mb must be positive''),
     (ngram_match_min c < 0, ValueError ''ngram_match_min must be non-negative''),
     (ngram_draft_size c \<le> 0, ValueError ''ngram_draft_size must be positive''),
     (moe_cpu_offload_layers c < 0, ValueError ''moe_cpu_offload_layers must be non-negative''),
     (moe_cpu_split_experts c < 0, ValueError ''moe_cpu_split_experts must be non-negative''),
     (draft_moe_cpu_offload_layers c < 0, ValueError ''draft_moe_cpu_offload_layers must be non-negative''),
     (not_positive (moe_cpu_threads c), ValueError ''moe_cpu_threads must be positive or None''),
     (moe_pinned_arena c \<and> \<not> (moe_cpu_offload_layers c \<noteq> 0 \<or> moe_cpu_split_experts c \<noteq> 0
        \<or> draft_moe_cpu_offload_layers c \<noteq> 0),
       ValueError ''moe_pinned_arena requires MoE CPU offload or expert splitting''),
     (blank_opt (draft_model_directory c), ValueError ''draft_model_directory must not be empty'')]"

definition load_combination_checks :: "load_config \<Rightarrow> (bool \<times> exn) list" where
  "load_combination_checks c =
    [(mtp_enabled c \<and> draft_model_directory c \<noteq> None,
       ValueError ''mtp_enabled and draft_model_directory are mutually exclusive''),
     (ngram_match_min c \<noteq> 0 \<and> (mtp_enabled c \<or> draft_model_directory c \<noteq> None),
       ValueError ''n-gram drafting cannot be combined with MTP or an external draft model''),
     (ngram_match_min c \<noteq> 0 \<and> dynamic_draft_tokens c,
       ValueError ''dynamic_draft_tokens is not supported with n-gram drafting''),
     (dynamic_draft_tokens c \<and> \<not> (mtp_enabled c \<or> draft_model_directory c \<noteq> None),
       ValueError ''dynamic_draft_tokens requires MTP or an external draft model''),
     (moe_cpu_offload_layers c \<noteq> 0 \<and> tensor_parallel c,
       ValueError ''moe_cpu_offload_layers requires layer-split mode, not tensor parallel''),
     (moe_cpu_split_experts c \<noteq> 0 \<and> moe_cpu_offload_layers c \<noteq> 0,
       ValueError ''moe_cpu_split_experts cannot be combined with moe_cpu_offload_layers''),
     (moe_cpu_split_experts c \<noteq> 0 \<and> draft_moe_cpu_offload_layers c \<noteq> 0 \<and> mtp_enabled c,
       ValueError ''moe_cpu_split_experts cannot be combined with draft_moe_cpu_offload_layers''),
     (moe_cpu_split_experts c \<noteq> 0 \<and> tensor_parallel c,
       ValueError ''moe_cpu_split_experts requires layer-split mode, not tensor parallel''),
     (draft_moe_cpu_offload_layers c \<noteq> 0 \<and> \<not> (mtp_enabled c \<or> draft_model_directory c \<noteq> None),
       ValueError ''draft_moe_cpu_offload_layers requires MTP or an external draft model''),
     (draft_moe_cpu_offload_layers c \<noteq> 0 \<and> tensor_parallel c,
       ValueError ''draft_moe_cpu_offload_layers requires layer-split mode, not tensor parallel''),
     (draft_tokens c \<le> 0, ValueError ''draft_tokens must be positive''),
     (outside 2 8 (draft_cache_bits c), ValueError ''draft_cache_bits must be in the range 2..8 or None''),
     (outside 0 2 (qc_staging c), ValueError ''qc_staging must be 0, 1, 2, or None''),
     (not_positive (max_requeue_tokens c), ValueError ''max_requeue_tokens must be positive or None''),
     (mtp_draft_tokens c \<le> 0, ValueError ''mtp_draft_tokens must be positive''),
     (outside 2 8 (mtp_cache_bits c), ValueError ''mtp_cache_bits must be in the range 2..8 or None'')]"

definition mk_load_config :: "load_config \<Rightarrow> load_config res" where
  "mk_load_config c = checked (load_size_checks c @ load_mode_checks c @ load_combination_checks c)
     (c\<lparr>draft_model_directory := map_option strip (draft_model_directory c)\<rparr>)"

section \<open>Sampling\<close>

record sampling_config =
  sp_temperature :: rat
  sp_min_p :: rat
  sp_top_k :: int
  sp_top_p :: rat
  sp_repetition_penalty :: rat
  sp_frequency_penalty :: rat
  sp_presence_penalty :: rat
  sp_temperature_last :: bool
  sp_repetition_penalty_range :: int
  sp_repetition_decay :: int
  sp_adaptive_target :: rat
  sp_adaptive_decay :: rat
  sp_logit_bias :: "(int \<times> rat) list"
  sp_dry_multiplier :: rat
  sp_dry_base :: rat
  sp_dry_allowed_length :: int
  sp_dry_range :: int
  sp_dry_sequence_breaker_ids :: "int list option"
  sp_blocked_ids :: "int list"
  sp_banned_strings :: "string list"
  sp_token_healing :: bool
  sp_sampler_requested :: bool

definition bad_ids :: "int list \<Rightarrow> bool" where
  "bad_ids ids \<longleftrightarrow> \<not> distinct ids \<or> (\<exists>i\<in>set ids. i < 0)"

fun banned_checks :: "string list \<Rightarrow> string list \<Rightarrow> (bool \<times> exn) list" where
  "banned_checks seen [] = []"
| "banned_checks seen (s # ss) =
     [(s = [], ValueError ''banned_strings entries must not be empty''),
      (s \<in> set seen, ValueError ''banned_strings entries must be unique'')] @ banned_checks (s # seen) ss"

definition mk_sampling_config :: "sampling_config \<Rightarrow> sampling_config res" where
  "mk_sampling_config c = checked
    ([(sp_temperature c < 0, ValueError ''temperature must be non-negative''),
      (\<not> (0 \<le> sp_min_p c \<and> sp_min_p c \<le> 1), ValueError ''min_p must be between 0 and 1''),
      (\<not> (0 \<le> sp_top_p c \<and> sp_top_p c \<le> 1), ValueError ''top_p must be between 0 and 1''),
      (sp_repetition_penalty c \<le> 0, ValueError ''repetition_penalty must be positive''),
      (sp_top_k c < 0, ValueError ''top_k must be non-negative''),
      (sp_repetition_penalty_range c < 0, ValueError ''repetition_penalty_range must be non-negative''),
      (sp_repetition_decay c < 0, ValueError ''repetition_decay must be non-negative''),
      (\<not> (0 \<le> sp_adaptive_target c \<and> sp_adaptive_target c \<le> 1), ValueError ''adaptive_target must be between 0 and 1''),
      (\<not> (0 \<le> sp_adaptive_decay c \<and> sp_adaptive_decay c < 1),
        ValueError ''adaptive_decay must be between 0 (inclusive) and 1 (exclusive)''),
      (sp_dry_multiplier c < 0, ValueError ''dry_multiplier must be non-negative''),
      (sp_dry_base c < 0, ValueError ''dry_base must be non-negative''),
      (sp_dry_allowed_length c < 0, ValueError ''dry_allowed_length must be non-negative''),
      (sp_dry_range c < 0, ValueError ''dry_range must be non-negative''),
      (bad_ids (map fst (sp_logit_bias c)), ValueError ''logit_bias token ids must be unique and non-negative''),
      (case sp_dry_sequence_breaker_ids c of None \<Rightarrow> False | Some ids \<Rightarrow> bad_ids ids,
        ValueError ''dry_sequence_breaker_ids entries must be unique and non-negative''),
      (bad_ids (sp_blocked_ids c), ValueError ''blocked_ids entries must be unique and non-negative'')]
     @ banned_checks [] (sp_banned_strings c)) c"

section \<open>Constraints and requests\<close>

record generation_constraint =
  gc_trigger :: string
  gc_lark_grammar :: string
  gc_eos_after_completed :: bool
  gc_fingerprint :: "string option"

definition mk_generation_constraint :: "generation_constraint \<Rightarrow> generation_constraint res" where
  "mk_generation_constraint c = checked
    [(blank (gc_trigger c), ValueError ''trigger must not be empty''),
     (blank (gc_lark_grammar c), ValueError ''lark_grammar must not be empty''),
     (blank_opt (gc_fingerprint c), ValueError ''constraint_fingerprint must not be empty'')] c"

record constraint_installation =
  ci_installed :: bool
  ci_fingerprint :: "string option"
  ci_trigger_token_ids :: "int list"
  ci_guarantee :: generation_guarantee

definition mk_constraint_installation :: "constraint_installation \<Rightarrow> constraint_installation res" where
  "mk_constraint_installation c = checked
    ([(\<exists>i\<in>set (ci_trigger_token_ids c). i < 0, TypeError ''trigger_token_ids must contain non-negative integers''),
      (\<not> distinct (ci_trigger_token_ids c), ValueError ''trigger_token_ids must not contain duplicates''),
      (blank_opt (ci_fingerprint c), ValueError ''constraint_fingerprint must not be empty'')]
     @ (if ci_installed c
        then [(ci_fingerprint c = None, ValueError ''installed constraints require a constraint_fingerprint''),
              (ci_guarantee c = GNone, ValueError ''installed constraints require a non-NONE guarantee'')]
        else [(ci_trigger_token_ids c \<noteq> [], ValueError ''uninstalled constraints must not expose trigger_token_ids''),
              (ci_fingerprint c \<noteq> None, ValueError ''uninstalled constraints must not expose a constraint_fingerprint''),
              (ci_guarantee c \<noteq> GNone, ValueError ''uninstalled constraints must have NONE guarantee'')])) c"

datatype stop_condition = StopText string | StopToken int

record runtime_request =
  rq_request_id :: string
  rq_input_ids :: "int list"
  rq_max_new_tokens :: int
  rq_seed :: "int option"
  rq_stop_conditions :: "stop_condition list"
  rq_sampling :: "sampling_config option"
  rq_prompt_attachments :: "nat list"
  rq_output_json_schema :: "string option"
  rq_output_json_trigger :: "string option"
  rq_generation_constraint :: "generation_constraint option"
  rq_generation_guarantee :: generation_guarantee
  rq_constraint_fallback_policy :: constraint_fallback_policy
  rq_use_native_eos :: bool

definition token_id_checks :: "int list \<Rightarrow> (bool \<times> exn) list" where
  "token_id_checks ids = [(ids = [], ValueError ''input_ids must not be empty''),
     (\<exists>i\<in>set ids. i < 0, ValueError ''input_ids must be non-negative'')]"

definition stop_check :: "stop_condition \<Rightarrow> bool \<times> exn" where
  "stop_check s = (case s of
       StopText t \<Rightarrow> (t = [], ValueError ''string stop conditions must not be empty'')
     | StopToken i \<Rightarrow> (i < 0, ValueError ''integer stop conditions must be non-negative''))"

definition mk_runtime_request :: "runtime_request \<Rightarrow> runtime_request res" where
  "mk_runtime_request r = checked
    ([(blank (rq_request_id r), ValueError ''request_id must not be empty'')]
     @ token_id_checks (rq_input_ids r)
     @ [(rq_max_new_tokens r \<le> 0, ValueError ''max_new_tokens must be positive'')]
     @ map stop_check (rq_stop_conditions r)
     @ [(blank_opt (rq_output_json_schema r), ValueError ''output_json_schema must not be empty''),
        (rq_output_json_trigger r \<noteq> None \<and> rq_output_json_schema r = None,
          ValueError ''output_json_trigger requires output_json_schema''),
        (blank_opt (rq_output_json_trigger r), ValueError ''output_json_trigger must not be empty''),
        (rq_generation_constraint r \<noteq> None \<and> rq_output_json_schema r \<noteq> None,
          ValueError ''generation_constraint cannot be combined with output_json_schema'')]) r"

text \<open>How the answer is delivered (\<open>ServingVisibilityMode\<close> of \<open>serving/contracts.py\<close>), part of the request to the runtime's clients.\<close>

datatype visibility_mode = VISIBILITY_UNKNOWN_MODE | STREAMING | BUFFERED

record rendered_prompt =
  rdp_text :: string
  rdp_input_ids :: "int list"
  rdp_attachments :: "nat list"

definition mk_rendered_prompt :: "rendered_prompt \<Rightarrow> rendered_prompt res" where
  "mk_rendered_prompt p = checked (token_id_checks (rdp_input_ids p)) p"

section \<open>Runtime events\<close>

datatype runtime_stop_reason = REOS | RSTOP_STRING | RLENGTH | RFILTER | RLOOP | ROTHER

record runtime_timing =
  rtm_queue :: "seconds option"
  rtm_prefill :: "seconds option"
  rtm_generation :: "seconds option"

definition mk_runtime_timing :: "runtime_timing \<Rightarrow> runtime_timing res" where
  "mk_runtime_timing t = checked
    [(negative (rtm_queue t), ValueError ''queue_seconds must be non-negative''),
     (negative (rtm_prefill t), ValueError ''prefill_seconds must be non-negative''),
     (negative (rtm_generation t), ValueError ''generation_seconds must be non-negative'')] t"

record runtime_text_delta =
  td_request_id :: string
  td_text :: string
  td_token_ids :: "int list"
  td_spans :: "native_token_span list option"
  td_provenance :: bool

definition slice :: "int \<Rightarrow> int \<Rightarrow> string \<Rightarrow> string" where
  "slice a b s = take (nat (b - a)) (drop (nat a) s)"

fun span_checks :: "string \<Rightarrow> int \<Rightarrow> native_token_span list \<Rightarrow> (bool \<times> exn) list" where
  "span_checks text previous_end [] = []"
| "span_checks text previous_end (s # ss) =
     [(span_start s < previous_end, ValueError ''native_token_spans must be sorted and non-overlapping''),
      (int (length text) < span_end s, ValueError ''native token span exceeds text bounds''),
      (slice (span_start s) (span_end s) text \<noteq> span_text s,
        ValueError ''native token span text does not match RuntimeTextDelta.text'')]
     @ span_checks text (span_end s) ss"

definition mk_runtime_text_delta :: "runtime_text_delta \<Rightarrow> runtime_text_delta res" where
  "mk_runtime_text_delta d = checked
    ([(blank (td_request_id d), ValueError ''request_id must not be empty''),
      (td_text d = [], ValueError ''text delta must not be empty''),
      (\<exists>i\<in>set (td_token_ids d). i < 0, ValueError ''token_ids must be non-negative'')]
     @ (case td_spans d of None \<Rightarrow> []
        | Some spans \<Rightarrow> (\<not> td_provenance d, ValueError ''native_token_spans require native_token_provenance=True'')
            # span_checks (td_text d) 0 spans)) d"

record runtime_finished =
  rf_request_id :: string
  rf_reason :: runtime_stop_reason
  rf_usage :: token_usage
  rf_timing :: runtime_timing
  rf_stop_sequence :: "string option"
  rf_backend_reason :: "string option"
  rf_eos_token_id :: "int option"
  rf_eos_token_text :: "string option"
  rf_hard_constraint_installed :: bool
  rf_hard_constraint_activated :: bool
  rf_effective_guarantee :: generation_guarantee

definition mk_runtime_finished :: "runtime_finished \<Rightarrow> runtime_finished res" where
  "mk_runtime_finished f = checked
    [(blank (rf_request_id f), ValueError ''request_id must not be empty''),
     (rf_stop_sequence f = Some [], ValueError ''stop_sequence must not be empty''),
     (rf_stop_sequence f \<noteq> None \<and> rf_reason f \<noteq> RSTOP_STRING,
       ValueError ''stop_sequence is valid only for stop-string completions''),
     (rf_backend_reason f = Some [], ValueError ''backend_reason must not be empty''),
     (negative (rf_eos_token_id f), ValueError ''eos_token_id must be non-negative''),
     (rf_eos_token_text f = Some [], ValueError ''eos_token_text must not be empty''),
     (rf_hard_constraint_activated f \<and> \<not> rf_hard_constraint_installed f,
       ValueError ''hard_constraint_activated requires hard_constraint_installed=True''),
     (\<not> rf_hard_constraint_activated f \<and> rf_effective_guarantee f \<noteq> GNone,
       ValueError ''effective_generation_guarantee requires an activated hard constraint'')] f"

datatype runtime_event =
    RuntimeStarted string
  | RuntimeTextDelta runtime_text_delta
  | RuntimeFinished runtime_finished
  | RuntimeCancelled string
  | RuntimeFailed string canonical_error

definition mk_runtime_event :: "runtime_event \<Rightarrow> runtime_event res" where
  "mk_runtime_event e = (case e of
       RuntimeStarted r \<Rightarrow> checked [(blank r, ValueError ''request_id must not be empty'')] e
     | RuntimeTextDelta d \<Rightarrow> map_sum id RuntimeTextDelta (mk_runtime_text_delta d)
     | RuntimeFinished f \<Rightarrow> map_sum id RuntimeFinished (mk_runtime_finished f)
     | RuntimeCancelled r \<Rightarrow> checked [(blank r, ValueError ''request_id must not be empty'')] e
     | RuntimeFailed r _ \<Rightarrow> checked [(blank r, ValueError ''request_id must not be empty'')] e)"

section \<open>What a constructed value guarantees\<close>

lemma span_checks_ok:
  assumes "\<forall>c\<in>set (span_checks t p ss). \<not> fst c" and "\<forall>s\<in>set ss. span_start s < span_end s"
  shows "(\<forall>s\<in>set ss. p \<le> span_start s \<and> span_end s \<le> int (length t)
           \<and> slice (span_start s) (span_end s) t = span_text s)
       \<and> sorted_wrt (\<lambda>s s'. span_end s \<le> span_start s') ss"
  using assms
proof (induction t p ss rule: span_checks.induct)
  case (2 t p s ss)
  then have "\<forall>s'\<in>set ss. span_end s \<le> span_start s' \<and> span_end s' \<le> int (length t)
      \<and> slice (span_start s') (span_end s') t = span_text s'"
    and "sorted_wrt (\<lambda>s s'. span_end s \<le> span_start s') ss"
    by auto
  then show ?case using "2.prems" by fastforce
qed simp

lemma slice_length: "0 \<le> a \<Longrightarrow> a \<le> b \<Longrightarrow> b \<le> int (length s) \<Longrightarrow> int (length (slice a b s)) = b - a"
  by (auto simp: slice_def)

text \<open>The native token spans of a delta that the constructor accepts lie inside its text, in
  order and without overlap, and each carries exactly the characters it covers; a span can only be
  there under native provenance.\<close>

theorem text_delta_spans:
  assumes "mk_runtime_text_delta d = Inr d'" and "td_spans d = Some ss"
    and "\<forall>s\<in>set ss. mk_native_token_span (span_start s) (span_end s) (span_token_id s) (span_text s) = Inr s"
  shows "d' = d \<and> td_provenance d \<and> sorted_wrt (\<lambda>s s'. span_end s \<le> span_start s') ss
    \<and> (\<forall>s\<in>set ss. 0 \<le> span_start s \<and> span_end s \<le> int (length (td_text d))
         \<and> slice (span_start s) (span_end s) (td_text d) = span_text s
         \<and> int (length (span_text s)) = span_end s - span_start s)"
proof -
  have lt: "\<forall>s\<in>set ss. span_start s < span_end s"
    using assms(3) by (auto simp: mk_native_token_span_def)
  have "d' = d \<and> td_provenance d \<and> (\<forall>c\<in>set (span_checks (td_text d) 0 ss). \<not> fst c)"
    using assms(1,2) by (auto simp: mk_runtime_text_delta_def checked_Inr)
  then show ?thesis using span_checks_ok [of "td_text d" 0 ss] lt
    by (metis slice_length less_imp_le)
qed

definition ex_delta :: runtime_text_delta where
  "ex_delta = \<lparr>td_request_id = ''r'', td_text = ''abcd'', td_token_ids = [7, 8],
     td_spans = Some [\<lparr>span_start = 0, span_end = 2, span_token_id = 7, span_text = ''ab''\<rparr>,
       \<lparr>span_start = 3, span_end = 4, span_token_id = 8, span_text = ''d''\<rparr>], td_provenance = True\<rparr>"

theorem text_delta_spans_witness:
  "mk_runtime_text_delta ex_delta = Inr ex_delta \<and>
    (\<exists>ss. td_spans ex_delta = Some ss \<and> length ss = 2 \<and> sorted_wrt (\<lambda>s s'. span_end s \<le> span_start s') ss)"
proof -
  have m: "mk_runtime_text_delta ex_delta = Inr ex_delta"
    by (simp add: mk_runtime_text_delta_def ex_delta_def checked_def slice_def blank_def py_space_def)
  then show ?thesis
    using text_delta_spans [of ex_delta ex_delta "the (td_spans ex_delta)"]
    by (simp add: ex_delta_def mk_native_token_span_def)
qed

lemma blank_opt_strip [simp]: "blank_opt (map_option strip v) \<longleftrightarrow> blank_opt v"
proof (cases v)
  case (Some s)
  then show ?thesis by (simp add: blank_opt_def) (metis strip_empty strip_strip)
qed simp

text \<open>C13. A load configuration that validation accepts is a fixed point of it, names at most one
  source of draft tokens, keeps the memory of the caches well-formed, and never combines the
  CPU-offload modes with tensor parallelism.\<close>

theorem load_config_normalized:
  assumes "mk_load_config c = Inr c'"
  shows "mk_load_config c' = Inr c'
    \<and> length (filter id [mtp_enabled c', draft_model_directory c' \<noteq> None, ngram_match_min c' \<noteq> 0]) \<le> 1
    \<and> (dynamic_draft_tokens c' \<longrightarrow> mtp_enabled c' \<or> draft_model_directory c' \<noteq> None)
    \<and> (tensor_parallel c' \<longrightarrow> moe_cpu_offload_layers c' = 0 \<and> moe_cpu_split_experts c' = 0
         \<and> draft_moe_cpu_offload_layers c' = 0)
    \<and> ((cache_key_bits c' = None) = (cache_value_bits c' = None))
    \<and> (\<forall>n. cache_tokens c' = Some n \<longrightarrow> 0 < n \<and> n mod 256 = 0)"
proof -
  have c': "c' = c\<lparr>draft_model_directory := map_option strip (draft_model_directory c)\<rparr>"
    and ok: "\<forall>k\<in>set (load_size_checks c @ load_mode_checks c @ load_combination_checks c). \<not> fst k"
    using assms by (auto simp: mk_load_config_def checked_Inr)
  have same: "load_size_checks c' = load_size_checks c" "load_mode_checks c' = load_mode_checks c"
    "load_combination_checks c' = load_combination_checks c"
    by (simp_all add: c' load_size_checks_def load_mode_checks_def load_combination_checks_def
        split: option.split)
  have "c'\<lparr>draft_model_directory := map_option strip (draft_model_directory c')\<rparr> = c'"
    by (simp add: c' option.map_comp comp_def)
  then have 1: "mk_load_config c' = Inr c'"
    using ok same by (simp add: mk_load_config_def checked_Inr)
  have comb: "\<forall>k\<in>set (load_combination_checks c'). \<not> fst k"
    and size: "\<forall>k\<in>set (load_size_checks c'). \<not> fst k"
    using ok same by (simp_all add: ball_Un)
  have excl: "\<not> (mtp_enabled c' \<and> draft_model_directory c' \<noteq> None)"
    "\<not> (ngram_match_min c' \<noteq> 0 \<and> (mtp_enabled c' \<or> draft_model_directory c' \<noteq> None))"
    and 3: "(dynamic_draft_tokens c' \<longrightarrow> mtp_enabled c' \<or> draft_model_directory c' \<noteq> None)"
      "(tensor_parallel c' \<longrightarrow> moe_cpu_offload_layers c' = 0)"
      "(tensor_parallel c' \<longrightarrow> moe_cpu_split_experts c' = 0)"
      "(tensor_parallel c' \<longrightarrow> draft_moe_cpu_offload_layers c' = 0)"
    using comb unfolding load_combination_checks_def by (simp_all only: list.set ball_simps fst_conv) argo+
  have 2: "length (filter id [mtp_enabled c', draft_model_directory c' \<noteq> None, ngram_match_min c' \<noteq> 0]) \<le> 1"
    using excl by (cases "mtp_enabled c'"; cases "draft_model_directory c' \<noteq> None") simp_all
  have 4: "((cache_key_bits c' = None) = (cache_value_bits c' = None))
    \<and> (\<forall>n. cache_tokens c' = Some n \<longrightarrow> 0 < n \<and> n mod 256 = 0)"
    using size by (auto simp: load_size_checks_def)
  show ?thesis using 1 2 3 4 by blast
qed

definition ex_load :: load_config where
  "ex_load = \<lparr>model_directory = ''m'', cache_tokens = Some 512, cache_key_bits = Some 8,
     cache_value_bits = Some 8, max_batch_size = 16, max_chunk_size = 1024,
     reserve_per_device_gb = Some [0, -1], mtp_enabled = False, mtp_draft_tokens = 4,
     mtp_cache_bits = Some 4, autosplit_no_forward = False, cuda_malloc_async = False,
     qc_staging = None, max_requeue_tokens = None, vision_enabled = False, vision_offload = False,
     allow_remote_images = False, max_image_bytes = 20971520, dynamic_draft_tokens = True,
     draft_confidence = 2 / 5, draft_model_directory = Some '' d '', draft_tokens = 4,
     draft_cache_bits = Some 4, lora_adapters = [], tensor_parallel = False,
     tp_backend = ''native'', tp_output_device = None, device_ids = Some [0, 2],
     chat_template = None, vision_cache_mb = 1024, sysmem_kv_cache_mb = 0,
     sysmem_recurrent_cache_mb = 4096, ngram_match_min = 0, ngram_draft_size = 4,
     moe_cpu_offload_layers = 0, moe_cpu_split_experts = 0, draft_moe_cpu_offload_layers = 0,
     moe_pinned_arena = False, moe_cpu_threads = None\<rparr>"

theorem load_config_normalized_witness:
  "mk_load_config ex_load = Inr (ex_load\<lparr>draft_model_directory := Some ''d''\<rparr>)
    \<and> mk_load_config (ex_load\<lparr>draft_model_directory := Some ''d''\<rparr>)
        = Inr (ex_load\<lparr>draft_model_directory := Some ''d''\<rparr>)"
proof -
  have "mk_load_config ex_load = Inr (ex_load\<lparr>draft_model_directory := Some ''d''\<rparr>)"
    by (simp add: mk_load_config_def load_size_checks_def load_mode_checks_def
        load_combination_checks_def checked_def ex_load_def blank_def py_space_def strip_def
        negative_def not_positive_def blank_opt_def outside_def negative_reserve_def)
  then show ?thesis using load_config_normalized [of ex_load] by simp
qed

end
