(* ===== verification/Request_Limits.thy ===== *)
theory Request_Limits
  imports Runtime_Contracts
begin

text \<open>
  The stateless part of \<open>src/exqserve/control/request.py\<close>: the limits a server runs under, the
  rejection they lead to, the automatic output limit, and the reasons a request ends for.
  \<open>control_exn\<close> is what the control layer raises: a typed rejection, or another exception.
\<close>

datatype terminal_reason =
    RT_COMPLETED | RT_RUNTIME_FAILED | RT_RUNTIME_CANCELLED | CLIENT_CANCELLED
  | APPLICATION_CANCELLED | RT_TIMEOUT | SERVER_SHUTDOWN | MODEL_SWITCH

datatype control_exn =
    RequestRejected canonical_error bool
  | RequestInjectionNotFound string
  | RequestInjectionConflict
  | RequestInjectionTerminating
  | Raised exn

type_synonym 'a outcome = "control_exn + 'a"

record control_config =
  max_in_flight :: int
  max_prompt_tokens :: "int option"
  max_output_tokens :: "int option"
  max_total_tokens :: "int option"
  timeout_seconds :: "seconds option"

definition mk_control_config :: "control_config \<Rightarrow> control_config res" where
  "mk_control_config c = checked
    [(max_in_flight c \<le> 0, ValueError ''max_in_flight must be positive''),
     (not_positive (max_prompt_tokens c), ValueError ''max_prompt_tokens must be positive''),
     (not_positive (max_output_tokens c), ValueError ''max_output_tokens must be positive''),
     (not_positive (max_total_tokens c), ValueError ''max_total_tokens must be positive''),
     (case timeout_seconds c of None \<Rightarrow> False | Some t \<Rightarrow> t \<le> 0, ValueError ''timeout_seconds must be positive'')] c"

definition rejection :: "error_category \<Rightarrow> string \<Rightarrow> string \<Rightarrow> bool \<Rightarrow> control_exn" where
  "rejection cat code msg retry = RequestRejected (canonical_error4 cat code msg retry) False"

definition context_exhausted :: control_exn where
  "context_exhausted = rejection CONTEXT_LENGTH ''total_context_limit_exceeded''
     ''Prompt leaves no room for model output within the served context.'' False"

text \<open>The list of candidates has at most two elements; \<open>min\<close> of it is \<open>Min (set \<dots>)\<close>.\<close>

definition output_candidates :: "control_config \<Rightarrow> int \<Rightarrow> int list" where
  "output_candidates c prompt =
     (case max_total_tokens c of None \<Rightarrow> [] | Some t \<Rightarrow> [t - prompt])
     @ (case max_output_tokens c of None \<Rightarrow> [] | Some m \<Rightarrow> [m])"

definition resolve_output_limit :: "control_config \<Rightarrow> int \<Rightarrow> int option \<Rightarrow> int outcome" where
  "resolve_output_limit c prompt requested =
     (if prompt < 0 then Inl (Raised (ValueError ''prompt_tokens must be non-negative''))
      else case requested of
        Some n \<Rightarrow> if n \<le> 0 then Inl (Raised (ValueError ''requested must be positive or None'')) else Inr n
      | None \<Rightarrow> (case output_candidates c prompt of
          [] \<Rightarrow> Inl (Raised (ValueError ''automatic output token resolution requires max_total_tokens or max_output_tokens''))
        | n # ns \<Rightarrow> (let resolved = foldl min n ns in
            if resolved \<le> 0 then Inl context_exhausted else Inr resolved)))"

definition above :: "int \<Rightarrow> int option \<Rightarrow> bool" where
  "above n limit = (case limit of None \<Rightarrow> False | Some m \<Rightarrow> m < n)"

definition validate_limits :: "control_config \<Rightarrow> runtime_request \<Rightarrow> control_exn option" where
  "validate_limits c r =
     (let prompt_count = int (length (rq_input_ids r)); output_count = rq_max_new_tokens r in
      if above prompt_count (max_prompt_tokens c)
      then Some (rejection CONTEXT_LENGTH ''prompt_limit_exceeded'' ''Prompt token limit exceeded.'' False)
      else if above output_count (max_output_tokens c)
      then Some (rejection INVALID_REQUEST ''output_limit_exceeded'' ''Requested output token limit exceeded.'' False)
      else if above (prompt_count + output_count) (max_total_tokens c)
      then Some (rejection CONTEXT_LENGTH ''total_context_limit_exceeded'' ''Total requested context limit exceeded.'' False)
      else None)"

section \<open>The automatic limit fits\<close>

text \<open>An automatically resolved output limit is positive and is the largest one the served
  context allows: a request whose prompt is within its own limit and that asks for exactly this
  many tokens passes the admission check, and one token more does not.\<close>

theorem resolved_limit_fits:
  assumes "resolve_output_limit c (int (length (rq_input_ids r))) None = Inr n"
    and "\<not> above (int (length (rq_input_ids r))) (max_prompt_tokens c)"
  shows "0 < n \<and> validate_limits c (r\<lparr>rq_max_new_tokens := n\<rparr>) = None
    \<and> validate_limits c (r\<lparr>rq_max_new_tokens := n + 1\<rparr>) \<noteq> None"
  using assms
  by (auto simp: resolve_output_limit_def output_candidates_def validate_limits_def above_def Let_def
      min_def split: option.splits if_splits list.splits)

definition ex_limits :: control_config where
  "ex_limits = \<lparr>max_in_flight = 2, max_prompt_tokens = Some 8, max_output_tokens = Some 5,
     max_total_tokens = Some 7, timeout_seconds = None\<rparr>"

definition ex_request :: runtime_request where
  "ex_request = \<lparr>rq_request_id = ''r'', rq_input_ids = [1, 2, 3], rq_max_new_tokens = 1, rq_seed = None,
     rq_stop_conditions = [], rq_sampling = None, rq_prompt_attachments = [], rq_output_json_schema = None,
     rq_output_json_trigger = None, rq_generation_constraint = None, rq_generation_guarantee = GNone,
     rq_constraint_fallback_policy = ALLOW_VALIDATION_ONLY, rq_use_native_eos = False\<rparr>"

theorem resolved_limit_fits_witness:
  "resolve_output_limit ex_limits 3 None = Inr 4
    \<and> validate_limits ex_limits (ex_request\<lparr>rq_max_new_tokens := 4\<rparr>) = None
    \<and> validate_limits ex_limits (ex_request\<lparr>rq_max_new_tokens := 5\<rparr>) \<noteq> None"
proof -
  have "resolve_output_limit ex_limits (int (length (rq_input_ids ex_request))) None = Inr 4"
    by (simp add: resolve_output_limit_def output_candidates_def ex_limits_def ex_request_def)
  moreover have "\<not> above (int (length (rq_input_ids ex_request))) (max_prompt_tokens ex_limits)"
    by (simp add: above_def ex_limits_def ex_request_def)
  ultimately show ?thesis
    using resolved_limit_fits [of ex_limits ex_request 4] by (simp add: ex_request_def)
qed

end
