(* ===== verification/Terminal.thy ===== *)
theory Terminal
  imports Request_Limits
begin

text \<open>
  The terminal decision of one request: \<open>src/exqserve/serving/terminal.py\<close> (class
  \<open>TerminalEvidence\<close>) and \<open>src/exqserve/serving/runtime_events.py\<close>. The recorder is a record of
  its fields, each \<open>record_\<dots>\<close> method a function on it, and \<open>resolve\<close> the decision.
\<close>

section \<open>Decisions\<close>

datatype disposition_kind = SUCCESS | FAILURE | CANCELLATION

datatype primary_owner =
    REQUEST_REJECTION | LIFECYCLE_TERMINATION | RUNTIME_OWNERSHIP | CONSTRAINT_INTEGRITY
  | PARSER_INTEGRITY | SEMANTIC_CONTRACT | NORMAL_RUNTIME_TERMINAL | UNKNOWN_INTERNAL

datatype lifecycle_origin = ORIGIN_USER | ORIGIN_DEADLINE | ORIGIN_SHUTDOWN | ORIGIN_MODEL_SWITCH

record constraint_evidence =
  ce_installed :: bool
  ce_activated :: bool
  ce_guarantee :: generation_guarantee

definition from_runtime_finished :: "runtime_finished \<Rightarrow> constraint_evidence" where
  "from_runtime_finished f = \<lparr>ce_installed = rf_hard_constraint_installed f,
     ce_activated = rf_hard_constraint_activated f, ce_guarantee = rf_effective_guarantee f\<rparr>"

record terminal_decision =
  d_disposition :: disposition_kind
  d_owner :: primary_owner
  d_error :: "canonical_error option"
  d_completion :: "completion_reason option"
  d_stop_reason :: "runtime_stop_reason option"
  d_runtime_failure :: "canonical_error option"
  d_semantic_failure :: "canonical_error option"
  d_parser_issue :: "string option"
  d_constraint :: "constraint_evidence option"
  d_origin :: "lifecycle_origin option"

definition mk_terminal_decision :: "terminal_decision \<Rightarrow> terminal_decision res" where
  "mk_terminal_decision d = (case d_disposition d of
       SUCCESS \<Rightarrow> raise_if (d_completion d = None \<or> d_error d \<noteq> None)
         (ValueError ''successful terminal decisions require completion and no error'') (Inr d)
     | FAILURE \<Rightarrow> raise_if (d_error d = None \<or> d_completion d \<noteq> None)
         (ValueError ''failed terminal decisions require an error and no completion'') (Inr d)
     | CANCELLATION \<Rightarrow> raise_if (d_completion d \<noteq> None)
         (ValueError ''cancellation terminal decisions cannot have a completion reason'') (Inr d))"

definition lifecycle_origin_of :: "terminal_reason \<Rightarrow> lifecycle_origin option" where
  "lifecycle_origin_of r = (case r of CLIENT_CANCELLED \<Rightarrow> Some ORIGIN_USER
     | RT_TIMEOUT \<Rightarrow> Some ORIGIN_DEADLINE | SERVER_SHUTDOWN \<Rightarrow> Some ORIGIN_SHUTDOWN
     | MODEL_SWITCH \<Rightarrow> Some ORIGIN_MODEL_SWITCH | _ \<Rightarrow> None)"

definition timeout_error :: canonical_error where
  "timeout_error = canonical_error4 RUNTIME_FAILURE ''request_timeout''
     ''Inference request exceeded its serving deadline.'' True"

definition runtime_loop_error :: canonical_error where
  "runtime_loop_error = canonical_error4 RUNTIME_FAILURE ''runtime_loop_detected''
     ''Inference runtime terminated after detecting a generation loop.'' False"

definition unknown_runtime_terminal_error :: canonical_error where
  "unknown_runtime_terminal_error = canonical_error4 INTERNAL ''runtime_terminal_unknown''
     ''Inference runtime ended with an unsupported terminal reason.'' False"

definition unresolved_terminal_error :: canonical_error where
  "unresolved_terminal_error = canonical_error4 INTERNAL ''terminal_state_unresolved''
     ''Inference ended without an authoritative terminal disposition.'' False"

definition bare_decision :: "disposition_kind \<Rightarrow> primary_owner \<Rightarrow> terminal_decision" where
  "bare_decision k owner = \<lparr>d_disposition = k, d_owner = owner, d_error = None, d_completion = None,
     d_stop_reason = None, d_runtime_failure = None, d_semantic_failure = None, d_parser_issue = None,
     d_constraint = None, d_origin = None\<rparr>"

definition request_rejection_decision :: "canonical_error \<Rightarrow> terminal_decision res" where
  "request_rejection_decision e =
     mk_terminal_decision ((bare_decision FAILURE REQUEST_REJECTION)\<lparr>d_error := Some e\<rparr>)"

section \<open>The evidence recorder\<close>

record terminal_evidence =
  ev_causal_owner :: "primary_owner option"
  ev_origin :: "lifecycle_origin option"
  ev_runtime_failure :: "canonical_error option"
  ev_runtime_cancelled :: bool
  ev_stop_reason :: "runtime_stop_reason option"
  ev_constraint :: "constraint_evidence option"
  ev_constraint_failure :: "canonical_error option"
  ev_parser_failure :: "canonical_error option"
  ev_semantic_failure :: "canonical_error option"
  ev_parser_issue :: "string option"
  ev_unknown_failure :: "canonical_error option"
  ev_decision :: "terminal_decision option"

definition new_evidence :: terminal_evidence where
  "new_evidence = \<lparr>ev_causal_owner = None, ev_origin = None, ev_runtime_failure = None,
     ev_runtime_cancelled = False, ev_stop_reason = None, ev_constraint = None,
     ev_constraint_failure = None, ev_parser_failure = None, ev_semantic_failure = None,
     ev_parser_issue = None, ev_unknown_failure = None, ev_decision = None\<rparr>"

text \<open>\<open>if self._x is None: self._x = x\<close>\<close>

definition first_write :: "'a option \<Rightarrow> 'a \<Rightarrow> 'a option" where
  "first_write old x = (case old of None \<Rightarrow> Some x | Some y \<Rightarrow> Some y)"

lemma first_write_simps [simp]: "first_write None x = Some x" "first_write (Some y) x = Some y"
  by (simp_all add: first_write_def)

lemma first_write_not_None [simp]: "first_write old x \<noteq> None"
  by (cases old) simp_all

definition commit_decision :: "terminal_decision \<Rightarrow> terminal_evidence \<Rightarrow> terminal_decision res \<times> terminal_evidence" where
  "commit_decision d ev = (case ev_decision ev of
       None \<Rightarrow> (Inr d, ev\<lparr>ev_decision := Some d\<rparr>)
     | Some d' \<Rightarrow> if d' \<noteq> d
         then (Inl (RuntimeError ''terminal decision is already committed with different evidence''), ev)
         else (Inr d', ev))"

definition claim_causal_owner :: "primary_owner \<Rightarrow> terminal_evidence \<Rightarrow> terminal_evidence" where
  "claim_causal_owner owner ev = ev\<lparr>ev_causal_owner := first_write (ev_causal_owner ev) owner\<rparr>"

definition record_controlled_reason :: "terminal_reason option \<Rightarrow> terminal_evidence \<Rightarrow> terminal_evidence" where
  "record_controlled_reason r ev = (case r of None \<Rightarrow> ev
     | Some reason \<Rightarrow> (case lifecycle_origin_of reason of None \<Rightarrow> ev
        | Some origin \<Rightarrow> claim_causal_owner LIFECYCLE_TERMINATION
            (ev\<lparr>ev_origin := first_write (ev_origin ev) origin\<rparr>)))"

definition record_runtime_finished :: "runtime_finished \<Rightarrow> terminal_evidence \<Rightarrow> terminal_evidence" where
  "record_runtime_finished f ev =
     ev\<lparr>ev_stop_reason := Some (rf_reason f), ev_constraint := Some (from_runtime_finished f)\<rparr>"

definition record_runtime_failure :: "canonical_error \<Rightarrow> terminal_evidence \<Rightarrow> terminal_evidence" where
  "record_runtime_failure e ev = claim_causal_owner RUNTIME_OWNERSHIP
     (ev\<lparr>ev_runtime_failure := first_write (ev_runtime_failure ev) e\<rparr>)"

definition record_runtime_cancelled :: "terminal_evidence \<Rightarrow> terminal_evidence" where
  "record_runtime_cancelled ev = claim_causal_owner RUNTIME_OWNERSHIP (ev\<lparr>ev_runtime_cancelled := True\<rparr>)"

definition record_parser_issue :: "string \<Rightarrow> terminal_evidence \<Rightarrow> unit res \<times> terminal_evidence" where
  "record_parser_issue issue ev =
     (if blank issue then (Inl (ValueError ''parser issue must be a non-empty string''), ev)
      else (Inr (), ev\<lparr>ev_parser_issue := first_write (ev_parser_issue ev) issue\<rparr>))"

definition record_parser_integrity_failure :: "canonical_error \<Rightarrow> terminal_evidence \<Rightarrow> terminal_evidence" where
  "record_parser_integrity_failure e ev = ev\<lparr>ev_parser_failure := first_write (ev_parser_failure ev) e\<rparr>"

definition record_constraint_failure :: "canonical_error \<Rightarrow> terminal_evidence \<Rightarrow> terminal_evidence" where
  "record_constraint_failure e ev = ev\<lparr>ev_constraint_failure := first_write (ev_constraint_failure ev) e\<rparr>"

definition record_semantic_failure :: "canonical_error \<Rightarrow> terminal_evidence \<Rightarrow> terminal_evidence" where
  "record_semantic_failure e ev = ev\<lparr>ev_semantic_failure := first_write (ev_semantic_failure ev) e\<rparr>"

definition record_unknown_failure :: "canonical_error \<Rightarrow> terminal_evidence \<Rightarrow> terminal_evidence" where
  "record_unknown_failure e ev = ev\<lparr>ev_unknown_failure := first_write (ev_unknown_failure ev) e\<rparr>"

definition evidence_decision :: "disposition_kind \<Rightarrow> primary_owner \<Rightarrow> terminal_evidence \<Rightarrow> terminal_decision" where
  "evidence_decision k owner ev = \<lparr>d_disposition = k, d_owner = owner, d_error = None, d_completion = None,
     d_stop_reason = ev_stop_reason ev, d_runtime_failure = ev_runtime_failure ev,
     d_semantic_failure = ev_semantic_failure ev, d_parser_issue = ev_parser_issue ev,
     d_constraint = ev_constraint ev, d_origin = ev_origin ev\<rparr>"

definition decision_for_failure ::
  "primary_owner \<Rightarrow> canonical_error \<Rightarrow> (canonical_error \<Rightarrow> canonical_error) option \<Rightarrow> terminal_evidence
     \<Rightarrow> terminal_decision res" where
  "decision_for_failure owner e tr ev = mk_terminal_decision
     ((evidence_decision FAILURE owner ev)\<lparr>d_error := Some (case tr of None \<Rightarrow> e | Some f \<Rightarrow> f e)\<rparr>)"

text \<open>The reason of a success, when the caller names none.\<close>

definition default_success_reason :: "runtime_stop_reason \<Rightarrow> completion_reason" where
  "default_success_reason r = (if r = RLENGTH then LENGTH_LIMIT else if r = RFILTER then FILTERED else STOP)"

definition resolve_lifecycle ::
  "(canonical_error \<Rightarrow> canonical_error) option \<Rightarrow> terminal_evidence \<Rightarrow> terminal_decision res" where
  "resolve_lifecycle tr ev =
     (if ev_origin ev = Some ORIGIN_DEADLINE
      then decision_for_failure LIFECYCLE_TERMINATION timeout_error tr ev
      else mk_terminal_decision (evidence_decision CANCELLATION LIFECYCLE_TERMINATION ev))"

definition resolve_runtime :: "terminal_evidence \<Rightarrow> terminal_decision res" where
  "resolve_runtime ev = (case ev_runtime_failure ev of
       Some e \<Rightarrow> decision_for_failure RUNTIME_OWNERSHIP e None ev
     | None \<Rightarrow> if ev_runtime_cancelled ev
         then mk_terminal_decision ((evidence_decision CANCELLATION RUNTIME_OWNERSHIP ev)
                \<lparr>d_runtime_failure := None, d_origin := None\<rparr>)
         else decision_for_failure UNKNOWN_INTERNAL unresolved_terminal_error None ev)"

text \<open>The decision when neither the lifecycle nor the runtime claimed the end of the request.\<close>

definition resolve_content ::
  "completion_reason option \<Rightarrow> terminal_evidence \<Rightarrow> terminal_decision res" where
  "resolve_content success_reason ev =
     (if ev_stop_reason ev = Some RLOOP
      then decision_for_failure RUNTIME_OWNERSHIP runtime_loop_error None ev
      else if ev_stop_reason ev = Some ROTHER
      then decision_for_failure UNKNOWN_INTERNAL unknown_runtime_terminal_error None ev
      else case ev_constraint_failure ev of
        Some e \<Rightarrow> decision_for_failure CONSTRAINT_INTEGRITY e None ev
      | None \<Rightarrow> (case ev_parser_failure ev of
        Some e \<Rightarrow> decision_for_failure PARSER_INTEGRITY e None ev
      | None \<Rightarrow> (case ev_semantic_failure ev of
        Some e \<Rightarrow> decision_for_failure SEMANTIC_CONTRACT e None ev
      | None \<Rightarrow> (case ev_unknown_failure ev of
        Some e \<Rightarrow> decision_for_failure UNKNOWN_INTERNAL e None ev
      | None \<Rightarrow> (case ev_stop_reason ev of
        None \<Rightarrow> decision_for_failure UNKNOWN_INTERNAL unresolved_terminal_error None ev
      | Some r \<Rightarrow> mk_terminal_decision ((evidence_decision SUCCESS NORMAL_RUNTIME_TERMINAL ev)
          \<lparr>d_completion := Some (case success_reason of Some s \<Rightarrow> s | None \<Rightarrow> default_success_reason r)\<rparr>))))))"

definition resolve ::
  "completion_reason option \<Rightarrow> (canonical_error \<Rightarrow> canonical_error) option \<Rightarrow> terminal_evidence
     \<Rightarrow> terminal_decision res" where
  "resolve success_reason tr ev = (case ev_decision ev of
       Some d \<Rightarrow> Inr d
     | None \<Rightarrow>
        if ev_causal_owner ev = Some LIFECYCLE_TERMINATION then resolve_lifecycle tr ev
        else if ev_causal_owner ev = Some RUNTIME_OWNERSHIP then resolve_runtime ev
        else resolve_content success_reason ev)"

section \<open>Translation of runtime metadata\<close>

definition completion_reason_from_runtime :: "runtime_stop_reason \<Rightarrow> completion_reason res" where
  "completion_reason_from_runtime r = (case r of
       RLENGTH \<Rightarrow> Inr LENGTH_LIMIT | RFILTER \<Rightarrow> Inr FILTERED
     | REOS \<Rightarrow> Inr STOP | RSTOP_STRING \<Rightarrow> Inr STOP
     | _ \<Rightarrow> Inl (ValueError ''runtime stop reason is not success-compatible''))"

definition timing_event_from_runtime :: "string \<Rightarrow> runtime_timing \<Rightarrow> generation_event option res" where
  "timing_event_from_runtime r t =
     (if rtm_queue t = None \<and> rtm_prefill t = None \<and> rtm_generation t = None then Inr None
      else case mk_generation_timing (rtm_queue t) (rtm_prefill t) (rtm_generation t) of
        Inl e \<Rightarrow> Inl e
      | Inr g \<Rightarrow> (case mk_event (TimingUpdated r g) of Inl e \<Rightarrow> Inl e | Inr ev \<Rightarrow> Inr (Some ev)))"

section \<open>Histories\<close>

datatype evidence_op =
    ControlledReason "terminal_reason option"
  | Finished runtime_finished
  | RuntimeFailure canonical_error
  | Cancelled
  | ParserIssue string
  | ParserFailure canonical_error
  | ConstraintFailure canonical_error
  | SemanticFailure canonical_error
  | UnknownFailure canonical_error

fun record_op :: "evidence_op \<Rightarrow> terminal_evidence \<Rightarrow> terminal_evidence" where
  "record_op (ControlledReason r) = record_controlled_reason r"
| "record_op (Finished f) = record_runtime_finished f"
| "record_op (RuntimeFailure e) = record_runtime_failure e"
| "record_op Cancelled = record_runtime_cancelled"
| "record_op (ParserIssue s) = snd \<circ> record_parser_issue s"
| "record_op (ParserFailure e) = record_parser_integrity_failure e"
| "record_op (ConstraintFailure e) = record_constraint_failure e"
| "record_op (SemanticFailure e) = record_semantic_failure e"
| "record_op (UnknownFailure e) = record_unknown_failure e"

definition history :: "evidence_op list \<Rightarrow> terminal_evidence \<Rightarrow> terminal_evidence" where
  "history ops ev = fold record_op ops ev"

text \<open>What an operation writes to each first-write field.\<close>

fun op_owner :: "evidence_op \<Rightarrow> primary_owner option" where
  "op_owner (ControlledReason (Some r)) = map_option (\<lambda>_. LIFECYCLE_TERMINATION) (lifecycle_origin_of r)"
| "op_owner (RuntimeFailure e) = Some RUNTIME_OWNERSHIP"
| "op_owner Cancelled = Some RUNTIME_OWNERSHIP"
| "op_owner _ = None"

fun op_origin :: "evidence_op \<Rightarrow> lifecycle_origin option" where
  "op_origin (ControlledReason (Some r)) = lifecycle_origin_of r"
| "op_origin _ = None"

fun op_runtime_failure :: "evidence_op \<Rightarrow> canonical_error option" where
  "op_runtime_failure (RuntimeFailure e) = Some e"
| "op_runtime_failure _ = None"

fun op_constraint_failure :: "evidence_op \<Rightarrow> canonical_error option" where
  "op_constraint_failure (ConstraintFailure e) = Some e"
| "op_constraint_failure _ = None"

fun op_parser_failure :: "evidence_op \<Rightarrow> canonical_error option" where
  "op_parser_failure (ParserFailure e) = Some e"
| "op_parser_failure _ = None"

fun op_semantic_failure :: "evidence_op \<Rightarrow> canonical_error option" where
  "op_semantic_failure (SemanticFailure e) = Some e"
| "op_semantic_failure _ = None"

fun op_unknown_failure :: "evidence_op \<Rightarrow> canonical_error option" where
  "op_unknown_failure (UnknownFailure e) = Some e"
| "op_unknown_failure _ = None"

fun op_finished :: "evidence_op \<Rightarrow> runtime_stop_reason option" where
  "op_finished (Finished f) = Some (rf_reason f)"
| "op_finished _ = None"

lemmas recording = record_controlled_reason_def record_runtime_finished_def record_runtime_failure_def
  record_runtime_cancelled_def record_parser_issue_def record_parser_integrity_failure_def
  record_constraint_failure_def record_semantic_failure_def record_unknown_failure_def
  claim_causal_owner_def first_write_def

lemma record_op_owner:
  "ev_causal_owner (record_op p ev) = (case ev_causal_owner ev of Some y \<Rightarrow> Some y | None \<Rightarrow> op_owner p)"
  by (cases p rule: record_op.cases) (auto simp: recording split: option.split)

interpretation owner_field: first_write_field ev_causal_owner op_owner record_op
  by unfold_locales (rule record_op_owner)

interpretation origin_field: first_write_field ev_origin op_origin record_op
proof
  show "ev_origin (record_op p ev) = (case ev_origin ev of Some y \<Rightarrow> Some y | None \<Rightarrow> op_origin p)" for p ev
    by (cases p rule: record_op.cases) (auto simp: recording split: option.split)
qed

interpretation runtime_field: first_write_field ev_runtime_failure op_runtime_failure record_op
proof
  show "ev_runtime_failure (record_op p ev)
    = (case ev_runtime_failure ev of Some y \<Rightarrow> Some y | None \<Rightarrow> op_runtime_failure p)" for p ev
    by (cases p rule: record_op.cases) (auto simp: recording split: option.split)
qed

interpretation constraint_field: first_write_field ev_constraint_failure op_constraint_failure record_op
proof
  show "ev_constraint_failure (record_op p ev)
    = (case ev_constraint_failure ev of Some y \<Rightarrow> Some y | None \<Rightarrow> op_constraint_failure p)" for p ev
    by (cases p rule: record_op.cases) (auto simp: recording split: option.split)
qed

interpretation parser_field: first_write_field ev_parser_failure op_parser_failure record_op
proof
  show "ev_parser_failure (record_op p ev)
    = (case ev_parser_failure ev of Some y \<Rightarrow> Some y | None \<Rightarrow> op_parser_failure p)" for p ev
    by (cases p rule: record_op.cases) (auto simp: recording split: option.split)
qed

interpretation semantic_field: first_write_field ev_semantic_failure op_semantic_failure record_op
proof
  show "ev_semantic_failure (record_op p ev)
    = (case ev_semantic_failure ev of Some y \<Rightarrow> Some y | None \<Rightarrow> op_semantic_failure p)" for p ev
    by (cases p rule: record_op.cases) (auto simp: recording split: option.split)
qed

interpretation unknown_field: first_write_field ev_unknown_failure op_unknown_failure record_op
proof
  show "ev_unknown_failure (record_op p ev)
    = (case ev_unknown_failure ev of Some y \<Rightarrow> Some y | None \<Rightarrow> op_unknown_failure p)" for p ev
    by (cases p rule: record_op.cases) (auto simp: recording split: option.split)
qed

lemma record_op_decision [simp]: "ev_decision (record_op p ev) = ev_decision ev"
  by (cases p rule: record_op.cases) (auto simp: recording split: option.split)

lemma history_decision [simp]: "ev_decision (history ops ev) = ev_decision ev"
  unfolding history_def by (induction ops arbitrary: ev) simp_all

lemma record_op_stop:
  "ev_stop_reason (record_op p ev) = (case op_finished p of Some r \<Rightarrow> Some r | None \<Rightarrow> ev_stop_reason ev)"
  by (cases p rule: record_op.cases) (auto simp: recording split: option.split)

lemma history_stop:
  "ev_stop_reason (history ops new_evidence) = first_some op_finished (rev ops)"
proof (induction ops rule: rev_induct)
  case (snoc p ops)
  then show ?case by (simp add: history_def record_op_stop split: option.split)
qed (simp add: history_def new_evidence_def)

lemma record_op_cancelled: "ev_runtime_cancelled (record_op p ev) \<longleftrightarrow> ev_runtime_cancelled ev \<or> p = Cancelled"
  by (cases p rule: record_op.cases) (auto simp: recording split: option.split)

lemma history_cancelled: "ev_runtime_cancelled (history ops new_evidence) \<longleftrightarrow> Cancelled \<in> set ops"
proof (induction ops rule: rev_induct)
  case (snoc p ops)
  then show ?case by (auto simp: history_def record_op_cancelled)
qed (simp add: history_def new_evidence_def)

lemma new_evidence_sel [simp]:
  "ev_causal_owner new_evidence = None" "ev_origin new_evidence = None"
  "ev_runtime_failure new_evidence = None" "ev_constraint_failure new_evidence = None"
  "ev_parser_failure new_evidence = None" "ev_semantic_failure new_evidence = None"
  "ev_unknown_failure new_evidence = None" "ev_decision new_evidence = None"
  by (simp_all add: new_evidence_def)

lemma history_first:
  "ev_causal_owner (history ops new_evidence) = first_some op_owner ops"
  "ev_origin (history ops new_evidence) = first_some op_origin ops"
  "ev_runtime_failure (history ops new_evidence) = first_some op_runtime_failure ops"
  "ev_constraint_failure (history ops new_evidence) = first_some op_constraint_failure ops"
  "ev_parser_failure (history ops new_evidence) = first_some op_parser_failure ops"
  "ev_semantic_failure (history ops new_evidence) = first_some op_semantic_failure ops"
  "ev_unknown_failure (history ops new_evidence) = first_some op_unknown_failure ops"
  by (simp_all add: history_def owner_field.get_fold origin_field.get_fold runtime_field.get_fold
      constraint_field.get_fold parser_field.get_fold semantic_field.get_fold unknown_field.get_fold)

section \<open>The decision is a function of the history\<close>

lemma op_owner_lifecycle: "op_owner p = Some LIFECYCLE_TERMINATION \<longleftrightarrow> op_origin p \<noteq> None"
  by (cases p rule: op_owner.cases) auto

lemma op_owner_runtime: "op_owner p = Some RUNTIME_OWNERSHIP \<longleftrightarrow> op_runtime_failure p \<noteq> None \<or> p = Cancelled"
  by (cases p rule: op_owner.cases) auto

lemma first_owner_cases:
  obtains "first_some op_owner ops = None" | "first_some op_owner ops = Some LIFECYCLE_TERMINATION"
    | "first_some op_owner ops = Some RUNTIME_OWNERSHIP"
proof (cases "first_some op_owner ops")
  case (Some y)
  then obtain p where "op_owner p = Some y" using first_some_Some by metis
  then have "y = LIFECYCLE_TERMINATION \<or> y = RUNTIME_OWNERSHIP"
    by (cases p rule: op_owner.cases) auto
  then show ?thesis using Some that by blast
qed (use that in blast)

lemma first_lifecycle_origin:
  "first_some op_owner ops = Some LIFECYCLE_TERMINATION \<Longrightarrow> first_some op_origin ops \<noteq> None"
  by (metis first_some_None first_some_Some op_owner_lifecycle)

lemma first_runtime_known:
  "first_some op_owner ops = Some RUNTIME_OWNERSHIP \<Longrightarrow> first_some op_runtime_failure ops = None \<Longrightarrow>
    Cancelled \<in> set ops"
  by (metis first_some_None first_some_Some op_owner_runtime)

lemmas resolving = resolve_def resolve_lifecycle_def resolve_runtime_def resolve_content_def
  decision_for_failure_def evidence_decision_def mk_terminal_decision_def

lemma resolve_content_disposition:
  "\<exists>d. resolve_content sr ev = Inr d \<and> d_disposition d =
     (if ev_stop_reason ev \<in> Some ` {REOS, RSTOP_STRING, RLENGTH, RFILTER}
         \<and> ev_constraint_failure ev = None \<and> ev_parser_failure ev = None
         \<and> ev_semantic_failure ev = None \<and> ev_unknown_failure ev = None
      then SUCCESS else FAILURE)"
proof (cases "ev_stop_reason ev")
  case None
  then show ?thesis by (auto simp: resolving split: option.split)
next
  case (Some r)
  then show ?thesis by (cases r) (auto simp: resolving split: option.split)
qed

text \<open>C14. Whatever is recorded and in whatever order, the terminal decision exists (no recorded
  evidence makes the resolution raise). It is a success exactly when neither the lifecycle nor the
  runtime claimed the end, the last runtime end was an EOS, a stop string, the length limit or the
  filter, and no constraint, parser, semantic or internal failure was recorded. It is a
  cancellation exactly when the first claim was a lifecycle termination other than the deadline,
  or a runtime cancellation with no runtime failure recorded at any time.\<close>

theorem resolve_by_history:
  "\<exists>d. resolve sr tr (history ops new_evidence) = Inr d
    \<and> (d_disposition d = SUCCESS) =
        (first_some op_owner ops = None
         \<and> first_some op_finished (rev ops) \<in> Some ` {REOS, RSTOP_STRING, RLENGTH, RFILTER}
         \<and> first_some op_constraint_failure ops = None \<and> first_some op_parser_failure ops = None
         \<and> first_some op_semantic_failure ops = None \<and> first_some op_unknown_failure ops = None)
    \<and> (d_disposition d = CANCELLATION) =
        (first_some op_owner ops = Some LIFECYCLE_TERMINATION
           \<and> first_some op_origin ops \<noteq> Some ORIGIN_DEADLINE
         \<or> first_some op_owner ops = Some RUNTIME_OWNERSHIP \<and> first_some op_runtime_failure ops = None)"
proof (cases rule: first_owner_cases [of ops])
  case 1
  then have "resolve sr tr (history ops new_evidence) = resolve_content sr (history ops new_evidence)"
    by (simp add: resolve_def history_first)
  then show ?thesis
    using resolve_content_disposition [of sr "history ops new_evidence"] 1
    by (fastforce simp: history_first history_stop)
next
  case 2
  then show ?thesis by (auto simp: resolving history_first)
next
  case 3
  then show ?thesis
    using first_runtime_known [OF 3]
    by (auto simp: resolving history_first history_cancelled split: option.split)
qed

text \<open>C15. The first cause wins: once a lifecycle termination, or a runtime failure with the runtime
  as the owner, is on record, nothing recorded later (and no success reason of the caller) changes
  the disposition, the owner or the error of the decision.\<close>

theorem first_cause_wins:
  assumes "first_some op_owner ops = Some LIFECYCLE_TERMINATION
      \<or> first_some op_owner ops = Some RUNTIME_OWNERSHIP \<and> first_some op_runtime_failure ops \<noteq> None"
    and "resolve sr tr (history ops new_evidence) = Inr d"
    and "resolve sr' tr (history (ops @ later) new_evidence) = Inr d'"
  shows "d_disposition d' = d_disposition d \<and> d_owner d' = d_owner d \<and> d_error d' = d_error d"
  using assms(1)
proof
  assume l: "first_some op_owner ops = Some LIFECYCLE_TERMINATION"
  then obtain origin where "first_some op_origin ops = Some origin"
    using first_lifecycle_origin by blast
  with l show ?thesis using assms(2,3)
    by (auto simp: resolving history_first first_some_append split: if_splits)
next
  assume "first_some op_owner ops = Some RUNTIME_OWNERSHIP \<and> first_some op_runtime_failure ops \<noteq> None"
  then show ?thesis using assms(2,3)
    by (auto simp: resolving history_first first_some_append)
qed

definition ex_ops :: "evidence_op list" where
  "ex_ops = [SemanticFailure timeout_error, ControlledReason (Some CLIENT_CANCELLED)]"

theorem first_cause_wins_witness:
  "\<exists>d d'. resolve None None (history ex_ops new_evidence) = Inr d
    \<and> resolve (Some STOP) None (history (ex_ops @ [RuntimeFailure runtime_loop_error]) new_evidence) = Inr d'
    \<and> d_disposition d' = CANCELLATION \<and> d_disposition d = CANCELLATION \<and> d_owner d' = LIFECYCLE_TERMINATION"
proof -
  have o: "first_some op_owner ex_ops = Some LIFECYCLE_TERMINATION"
    and g: "first_some op_origin ex_ops = Some ORIGIN_USER"
    by (simp_all add: ex_ops_def lifecycle_origin_of_def)
  obtain d where d: "resolve None None (history ex_ops new_evidence) = Inr d"
      "d_disposition d = CANCELLATION" "d_owner d = LIFECYCLE_TERMINATION"
    using o g by (auto simp: resolving history_first)
  obtain d' where d': "resolve (Some STOP) None
      (history (ex_ops @ [RuntimeFailure runtime_loop_error]) new_evidence) = Inr d'"
    using resolve_by_history by metis
  show ?thesis using first_cause_wins [OF disjI1 [OF o] d(1) d'] d d' by metis
qed

end
