(* ===== verification/Recovery.thy ===== *)
theory Recovery
  imports Terminal "HOL-Library.Sublist"
begin

text \<open>
  Attempt recovery, \<open>src/exqserve/serving/recovery.py\<close>: the classification of a failed attempt and
  \<open>RecoveringServingSession\<close>, which may discard one failed attempt and start another as long as
  nothing of it was published.

  An attempt is the list of events its iterator yields and the exception it raises after them, if
  any. The session's generator \<open>_run\<close> is the function \<open>run_session\<close> from the session to the events it
  yields to a consumer that drains it, the exception it ends with and the session afterwards. What
  other tasks do (cancel the session, end the lease, make the request unsafe to replay) happens at
  the awaits: \<open>env_act\<close> says what happens at the \<open>n\<close>-th one. The factory of attempts and the readiness
  waiter belong to the serving engine and the runtime; they are fields of the environment.
\<close>

section \<open>Classification\<close>

datatype recovery_kind = RECOVERY_NONE | REGENERATE_MODEL_OUTPUT | WAIT_RUNTIME_AND_RETRY

datatype publication_state = UNPUBLISHED | PUBLISHED

datatype skip_reason =
    DISABLED | ATTEMPT_BUDGET_EXHAUSTED | VISIBILITY_UNKNOWN | SEMANTIC_ALREADY_PUBLISHED
  | DETERMINISTIC_MODEL_OUTPUT | RUNTIME_REPLAY_UNSUPPORTED | RUNTIME_READINESS_UNSUPPORTED
  | RUNTIME_NOT_READY | ATTACHMENT_REPLAY_UNSUPPORTED | FAILURE_NOT_ALLOWLISTED
  | INJECTION_REPLAY_UNSUPPORTED

record recovery_evidence =
  re_error :: canonical_error
  re_visibility :: visibility_mode
  re_publication :: publication_state
  re_ordinal :: int
  re_max_extra :: int
  re_seed :: "int option"
  re_sampling :: "sampling_config option"
  re_fresh_replay :: bool
  re_readiness :: bool
  re_has_attachments :: bool
  re_attachment_replay :: bool
  re_replay_safe :: bool

definition mk_recovery_evidence :: "recovery_evidence \<Rightarrow> recovery_evidence res" where
  "mk_recovery_evidence ev =
     raise_if (re_ordinal ev < 1) (ValueError ''attempt_ordinal must be positive'')
    (raise_if (re_max_extra ev \<notin> set [0, 1]) (ValueError ''max_extra_attempts must be 0 or 1'') (Inr ev))"

record recovery_decision =
  rd_kind :: recovery_kind
  rd_skip :: "skip_reason option"

definition mk_recovery_decision :: "recovery_decision \<Rightarrow> recovery_decision res" where
  "mk_recovery_decision d =
     raise_if (rd_kind d = RECOVERY_NONE \<and> rd_skip d = None) (ValueError ''NONE recovery decisions require a skip_reason'')
    (raise_if (rd_kind d \<noteq> RECOVERY_NONE \<and> rd_skip d \<noteq> None)
       (ValueError ''active recovery decisions must not expose a skip_reason'') (Inr d))"

definition skip :: "skip_reason \<Rightarrow> recovery_decision" where
  "skip r = \<lparr>rd_kind = RECOVERY_NONE, rd_skip = Some r\<rparr>"

definition retry :: "recovery_kind \<Rightarrow> recovery_decision" where
  "retry k = \<lparr>rd_kind = k, rd_skip = None\<rparr>"

lemma decision_kinds [simp]:
  "rd_kind (skip r) = RECOVERY_NONE" "rd_skip (skip r) = Some r" "rd_kind (retry k) = k" "rd_skip (retry k) = None"
  by (simp_all add: skip_def retry_def)

definition model_reroll_is_deterministic :: "recovery_evidence \<Rightarrow> bool" where
  "model_reroll_is_deterministic ev = (if re_seed ev \<noteq> None then True
     else case re_sampling ev of None \<Rightarrow> False | Some c \<Rightarrow> sp_temperature c = 0)"

definition model_output_allowlisted :: "canonical_error \<Rightarrow> bool" where
  "model_output_allowlisted e \<longleftrightarrow>
     err_cause e = Some OUTPUT_EOS \<and> err_code e \<in> set [''tool_call_incomplete'', ''protocol_ambiguity'']
     \<or> err_cause e = Some PARSER_AMBIGUITY_LIMIT \<and> err_code e = ''protocol_ambiguity''
     \<or> err_cause e = Some MODEL_TOOL_OUTPUT_INVALID \<and> err_code e = ''tool_call_invalid''"

definition classify_attempt_recovery :: "recovery_evidence \<Rightarrow> recovery_decision" where
  "classify_attempt_recovery ev =
     (if re_max_extra ev = 0 then skip DISABLED
      else if re_max_extra ev < re_ordinal ev then skip ATTEMPT_BUDGET_EXHAUSTED
      else if re_visibility ev = VISIBILITY_UNKNOWN_MODE then skip VISIBILITY_UNKNOWN
      else if re_publication ev = PUBLISHED then skip SEMANTIC_ALREADY_PUBLISHED
      else if re_has_attachments ev \<and> \<not> re_attachment_replay ev then skip ATTACHMENT_REPLAY_UNSUPPORTED
      else if \<not> re_replay_safe ev then skip INJECTION_REPLAY_UNSUPPORTED
      else if err_cause (re_error ev) = Some RUNTIME_RECOVERING then
        (if \<not> re_fresh_replay ev then skip RUNTIME_REPLAY_UNSUPPORTED
         else if \<not> re_readiness ev then skip RUNTIME_READINESS_UNSUPPORTED
         else retry WAIT_RUNTIME_AND_RETRY)
      else if \<not> re_fresh_replay ev then skip RUNTIME_REPLAY_UNSUPPORTED
      else if model_reroll_is_deterministic ev then skip DETERMINISTIC_MODEL_OUTPUT
      else if model_output_allowlisted (re_error ev) then retry REGENERATE_MODEL_OUTPUT
      else skip FAILURE_NOT_ALLOWLISTED)"

section \<open>Attempts and their records\<close>

datatype attempt_status = SUBMISSION_FAILED | ATTEMPT_COMPLETED | ATTEMPT_FAILED | ATTEMPT_CANCELLED

record attempt_record =
  ar_ordinal :: int
  ar_status :: attempt_status
  ar_error_code :: "string option"
  ar_cause :: "failure_cause option"
  ar_usage :: "token_usage option"
  ar_timing :: "generation_timing option"
  ar_discarded :: bool

definition mk_attempt_record :: "attempt_record \<Rightarrow> attempt_record res" where
  "mk_attempt_record r = raise_if (ar_ordinal r < 1) (ValueError ''ordinal must be positive'') (Inr r)"

record attempt =
  at_events :: "generation_event list"
  at_raises :: "exn option"
  at_usage :: "token_usage option"
  at_timing :: "generation_timing option"
  at_guarantee :: "generation_guarantee option"

text \<open>\<open>_attempt_record\<close>\<close>

definition attempt_record_of ::
  "int \<Rightarrow> generation_event \<Rightarrow> token_usage option \<Rightarrow> generation_timing option \<Rightarrow> bool \<Rightarrow> attempt_record option" where
  "attempt_record_of n terminal u t discarded =
     (let r = \<lparr>ar_ordinal = n, ar_status = ATTEMPT_COMPLETED, ar_error_code = None, ar_cause = None,
               ar_usage = u, ar_timing = t, ar_discarded = discarded\<rparr> in
      case terminal of
        GenerationCompleted _ _ cu _ \<Rightarrow> Some (r\<lparr>ar_usage := (case cu of Some x \<Rightarrow> Some x | None \<Rightarrow> u)\<rparr>)
      | GenerationFailed _ e \<Rightarrow> Some (r\<lparr>ar_status := ATTEMPT_FAILED, ar_error_code := Some (err_code e), ar_cause := err_cause e\<rparr>)
      | GenerationCancelled _ \<Rightarrow> Some (r\<lparr>ar_status := ATTEMPT_CANCELLED\<rparr>)
      | _ \<Rightarrow> None)"

fun is_public_semantic_event :: "generation_event \<Rightarrow> bool" where
  "is_public_semantic_event (TextStarted _) = True"
| "is_public_semantic_event (TextDelta _ _) = True"
| "is_public_semantic_event (TextCompleted _ _) = True"
| "is_public_semantic_event (ReasoningStarted _) = True"
| "is_public_semantic_event (ReasoningDelta _ _) = True"
| "is_public_semantic_event (ReasoningCompleted _ _) = True"
| "is_public_semantic_event (ToolCallCompleted _ _) = True"
| "is_public_semantic_event _ = False"

fun is_staged_tool_event :: "generation_event \<Rightarrow> bool" where
  "is_staged_tool_event (ToolCallStarted _ _ _ _) = True"
| "is_staged_tool_event (ToolCallArgumentsDelta _ _ _ _) = True"
| "is_staged_tool_event _ = False"

fun is_attempt_diagnostic_event :: "generation_event \<Rightarrow> bool" where
  "is_attempt_diagnostic_event (TimingUpdated _ _) = True"
| "is_attempt_diagnostic_event (UsageUpdated _ _) = True"
| "is_attempt_diagnostic_event _ = False"

fun is_tool_completed :: "generation_event \<Rightarrow> bool" where
  "is_tool_completed (ToolCallCompleted _ _) = True"
| "is_tool_completed _ = False"

fun is_started_event :: "generation_event \<Rightarrow> bool" where
  "is_started_event (GenerationStarted _) = True"
| "is_started_event _ = False"

fun is_completed_event :: "generation_event \<Rightarrow> bool" where
  "is_completed_event (GenerationCompleted _ _ _ _) = True"
| "is_completed_event _ = False"

type_synonym measurements = "token_usage option \<times> generation_timing option"

fun observe_attempt_measurements :: "generation_event \<Rightarrow> measurements \<Rightarrow> measurements" where
  "observe_attempt_measurements (UsageUpdated _ x) (u, t) = (Some x, t)"
| "observe_attempt_measurements (TimingUpdated _ x) (u, t) = (u, Some x)"
| "observe_attempt_measurements (GenerationCompleted _ _ (Some x) _) (u, t) = (Some x, t)"
| "observe_attempt_measurements _ m = m"

definition drain_staged :: "generation_event list \<Rightarrow> bool \<Rightarrow> generation_event list" where
  "drain_staged staged tool_validated = filter (\<lambda>e. \<not> (is_staged_tool_event e \<and> \<not> tool_validated)) staged"

section \<open>The session\<close>

record recovery_session =
  rc_current :: attempt
  rc_visibility :: visibility_mode
  rc_max_extra :: int
  rc_seed :: "int option"
  rc_sampling :: "sampling_config option"
  rc_capabilities :: "runtime_capabilities option"
  rc_attachments :: bool
  rc_ordinal :: int
  rc_started :: int
  rc_recoveries :: int
  rc_records :: "attempt_record list"
  rc_recovered :: bool
  rc_skip :: "skip_reason option"
  rc_last_kind :: recovery_kind
  rc_decision :: string
  rc_runtime_state :: string
  rc_released :: bool
  rc_terminal :: bool
  rc_cancelled :: bool
  rc_published :: bool
  rc_external_started :: bool
  rc_lease_active :: bool
  rc_replay_safe :: bool
  rc_releases :: nat
  rc_tick :: nat
  rc_factory_calls :: nat

text \<open>The last five fields belong to the lease (whether it is active, whether the request can be
  replayed, how often \<open>lease.release\<close> was called) and to the environment (how many awaits have
  happened, how often the factory was called). \<open>_trace_enabled\<close> is not modelled.\<close>

record interference =
  i_cancel :: bool
  i_lease_ends :: bool
  i_unsafe :: bool

datatype factory_result = NewAttempt attempt | SubmitRejected canonical_error bool | FactoryRaises exn

record environment =
  env_act :: "nat \<Rightarrow> interference"
  env_ready :: "nat \<Rightarrow> runtime_readiness"
  env_factory :: "nat \<Rightarrow> factory_result"

record session_start =
  ss_ordinal :: int
  ss_started :: int
  ss_recoveries :: int
  ss_records :: "attempt_record list"

definition new_recovery_session ::
  "attempt \<Rightarrow> visibility_mode \<Rightarrow> int \<Rightarrow> int option \<Rightarrow> sampling_config option \<Rightarrow> runtime_capabilities option
     \<Rightarrow> bool \<Rightarrow> session_start \<Rightarrow> recovery_session res" where
  "new_recovery_session first mode max_extra seed sampling caps attachments st =
     raise_if (max_extra \<notin> set [0, 1]) (ValueError ''max_extra_attempts must be 0 or 1'')
    (raise_if (ss_ordinal st < 0 \<or> ss_started st < 0 \<or> ss_recoveries st < 0)
       (ValueError ''initial attempt values must be non-negative'')
    (raise_if (ss_ordinal st < 1 \<or> ss_started st < 1) (ValueError ''initial attempt ordinal/count must be positive'')
    (raise_if (max_extra < ss_recoveries st) (ValueError ''initial recovery attempts exceed max_extra_attempts'')
    (Inr \<lparr>rc_current = first, rc_visibility = mode, rc_max_extra = max_extra, rc_seed = seed, rc_sampling = sampling,
       rc_capabilities = caps, rc_attachments = attachments, rc_ordinal = ss_ordinal st, rc_started = ss_started st,
       rc_recoveries = ss_recoveries st, rc_records = ss_records st, rc_recovered = False, rc_skip = None,
       rc_last_kind = (if 0 < ss_recoveries st then WAIT_RUNTIME_AND_RETRY else RECOVERY_NONE),
       rc_decision = (if 0 < ss_recoveries st then ''retried'' else ''not_evaluated''),
       rc_runtime_state = ''ready'', rc_released = False, rc_terminal = False, rc_cancelled = False,
       rc_published = False, rc_external_started = False, rc_lease_active = True, rc_replay_safe = True,
       rc_releases = 0, rc_tick = 0, rc_factory_calls = 0\<rparr>))))"

text \<open>\<open>_release_once\<close> and \<open>cancel\<close>. Releasing the lease makes it inactive.\<close>

definition release_once :: "recovery_session \<Rightarrow> recovery_session" where
  "release_once s = (if rc_released s then s
     else s\<lparr>rc_released := True, rc_lease_active := False, rc_releases := rc_releases s + 1\<rparr>)"

definition recovery_cancel :: "recovery_session \<Rightarrow> recovery_session" where
  "recovery_cancel s = (if rc_terminal s \<or> rc_cancelled s then s else release_once (s\<lparr>rc_cancelled := True\<rparr>))"

definition recovery_exit :: "recovery_session \<Rightarrow> recovery_session" where
  "recovery_exit s = (if \<not> rc_terminal s then recovery_cancel s else s)"

text \<open>An await: the other tasks act.\<close>

definition await_point :: "environment \<Rightarrow> recovery_session \<Rightarrow> recovery_session" where
  "await_point env s =
     (let i = env_act env (rc_tick s); s1 = (if i_cancel i then recovery_cancel s else s) in
      s1\<lparr>rc_tick := rc_tick s + 1, rc_lease_active := rc_lease_active s1 \<and> \<not> i_lease_ends i,
         rc_replay_safe := rc_replay_safe s1 \<and> \<not> i_unsafe i\<rparr>)"

definition gone :: "recovery_session \<Rightarrow> bool" where
  "gone s \<longleftrightarrow> rc_cancelled s \<or> \<not> rc_lease_active s"

definition recovery_evidence_of :: "canonical_error \<Rightarrow> recovery_session \<Rightarrow> recovery_evidence" where
  "recovery_evidence_of e s = \<lparr>re_error = e, re_visibility = rc_visibility s,
     re_publication = (if rc_published s then PUBLISHED else UNPUBLISHED), re_ordinal = rc_ordinal s,
     re_max_extra = rc_max_extra s, re_seed = rc_seed s, re_sampling = rc_sampling s,
     re_fresh_replay = (case rc_capabilities s of None \<Rightarrow> False | Some c \<Rightarrow> cap_fresh_attempt_replay c),
     re_readiness = (case rc_capabilities s of None \<Rightarrow> False | Some c \<Rightarrow> cap_recovery_readiness c),
     re_has_attachments = rc_attachments s,
     re_attachment_replay = (case rc_capabilities s of None \<Rightarrow> False | Some c \<Rightarrow> cap_prompt_attachment_replay c),
     re_replay_safe = rc_replay_safe s\<rparr>"

definition record_terminal_attempt ::
  "generation_event \<Rightarrow> measurements \<Rightarrow> bool \<Rightarrow> recovery_session \<Rightarrow> recovery_session" where
  "record_terminal_attempt terminal m discarded s =
     (let u = (case fst m of Some x \<Rightarrow> Some x | None \<Rightarrow> at_usage (rc_current s));
          t = (case snd m of Some x \<Rightarrow> Some x | None \<Rightarrow> at_timing (rc_current s)) in
      case attempt_record_of (rc_ordinal s) terminal u t discarded of
        None \<Rightarrow> s | Some r \<Rightarrow> s\<lparr>rc_records := rc_records s @ [r]\<rparr>)"

definition request_timeout_error :: canonical_error where
  "request_timeout_error = canonical_error4 RUNTIME_FAILURE ''request_timeout''
     ''Inference request exceeded its serving deadline.'' True"

definition recovery_unavailable_error :: canonical_error where
  "recovery_unavailable_error = \<lparr>err_category = RUNTIME_FAILURE, err_code = ''runtime_recovery_unavailable'',
     err_message = ''Inference runtime did not become ready before request recovery ended.'',
     err_retryable = False, err_cause = Some RESTART_REQUIRED\<rparr>"

definition readiness_value :: "runtime_readiness \<Rightarrow> string" where
  "readiness_value r = (case r of READY \<Rightarrow> ''ready'' | READINESS_FAILED \<Rightarrow> ''failed''
     | READINESS_DEADLINE \<Rightarrow> ''deadline'' | READINESS_CLOSED \<Rightarrow> ''closed'')"

text \<open>Waiting for the runtime: the terminal event the session ends with, or none.\<close>

definition wait_for_runtime :: "environment \<Rightarrow> string \<Rightarrow> recovery_session \<Rightarrow> generation_event option \<times> recovery_session" where
  "wait_for_runtime env rid s =
     (let readiness = env_ready env (rc_tick s); s1 = await_point env s;
          not_ready = (\<lambda>v. v\<lparr>rc_skip := Some RUNTIME_NOT_READY\<rparr>) in
      if gone s1 then (Some (GenerationCancelled rid), not_ready s1)
      else let s2 = s1\<lparr>rc_runtime_state := readiness_value readiness\<rparr> in
      case readiness of
        READINESS_CLOSED \<Rightarrow> (Some (GenerationCancelled rid), not_ready (s2\<lparr>rc_decision := ''runtime_closed''\<rparr>))
      | READINESS_DEADLINE \<Rightarrow>
          (Some (GenerationFailed rid request_timeout_error), not_ready (s2\<lparr>rc_decision := ''deadline''\<rparr>))
      | READINESS_FAILED \<Rightarrow>
          (Some (GenerationFailed rid recovery_unavailable_error), not_ready (s2\<lparr>rc_decision := ''runtime_not_ready''\<rparr>))
      | READY \<Rightarrow> (None, s2))"

definition submission_failed_record :: "int \<Rightarrow> canonical_error \<Rightarrow> attempt_record" where
  "submission_failed_record n e = \<lparr>ar_ordinal = n, ar_status = SUBMISSION_FAILED, ar_error_code = Some (err_code e),
     ar_cause = err_cause e, ar_usage = None, ar_timing = None, ar_discarded = False\<rparr>"

text \<open>Calling the factory. The result is \<open>Inr None\<close> when the next attempt has started.\<close>

definition start_next_attempt ::
  "environment \<Rightarrow> string \<Rightarrow> recovery_session \<Rightarrow> generation_event option res \<times> recovery_session" where
  "start_next_attempt env rid s =
     (let next = rc_ordinal s + 1; made = env_factory env (rc_factory_calls s);
          s1 = await_point env (s\<lparr>rc_factory_calls := rc_factory_calls s + 1\<rparr>) in
      case made of
        FactoryRaises ex \<Rightarrow> (Inl ex, s1)
      | SubmitRejected e started \<Rightarrow>
          if gone s1 then (Inr (Some (GenerationCancelled rid)), s1\<lparr>rc_decision := ''cancelled''\<rparr>)
          else if started then (Inr (Some (GenerationFailed rid e)),
            s1\<lparr>rc_decision := ''retry_submission_failed'', rc_recoveries := rc_recoveries s1 + 1, rc_ordinal := next,
               rc_started := rc_started s1 + 1, rc_records := rc_records s1 @ [submission_failed_record next e]\<rparr>)
          else (Inr (Some (GenerationFailed rid e)), s1\<lparr>rc_decision := ''retry_blocked_before_submit''\<rparr>)
      | NewAttempt a \<Rightarrow>
          (let s2 = s1\<lparr>rc_decision := ''retried'', rc_recoveries := rc_recoveries s1 + 1, rc_ordinal := next,
             rc_started := rc_started s1 + 1, rc_current := a\<rparr> in
           if gone s2 then (Inr (Some (GenerationCancelled rid)), s2) else (Inr None, s2)))"

definition start_retry_or_failure ::
  "environment \<Rightarrow> recovery_decision \<Rightarrow> string \<Rightarrow> recovery_session \<Rightarrow> generation_event option res \<times> recovery_session" where
  "start_retry_or_failure env d rid s =
     (if rd_kind d = RECOVERY_NONE
      then (Inr None, s\<lparr>rc_last_kind := (if rc_recoveries s = 0 then RECOVERY_NONE else rc_last_kind s),
              rc_decision := ''skipped'', rc_skip := rd_skip d\<rparr>)
      else
       (let s1 = s\<lparr>rc_last_kind := rd_kind d, rc_decision := ''retry_planned''\<rparr>;
            (waited, s2) = (if rd_kind d = WAIT_RUNTIME_AND_RETRY then wait_for_runtime env rid s1 else (None, s1)) in
        case waited of
          Some e \<Rightarrow> (Inr (Some e), s2)
        | None \<Rightarrow>
            if gone s2 then (Inr (Some (GenerationCancelled rid)), s2\<lparr>rc_skip := Some RUNTIME_NOT_READY\<rparr>)
            else start_next_attempt env rid s2))"

section \<open>The event loop of the session\<close>

definition recovery_unavailable :: "recovery_session \<Rightarrow> bool" where
  "recovery_unavailable s \<longleftrightarrow> rc_max_extra s = 0 \<or> rc_visibility s = VISIBILITY_UNKNOWN_MODE
     \<or> (case rc_capabilities s of None \<Rightarrow> True
        | Some c \<Rightarrow> \<not> cap_fresh_attempt_replay c \<or> rc_attachments s \<and> \<not> cap_prompt_attachment_replay c)"

type_synonym run_result = "generation_event list \<times> exn option \<times> recovery_session"

text \<open>Every event pulled from an attempt and every event yielded to the consumer is an await. An
  iterator that is exhausted is pulled once more, and then ends or raises.\<close>

definition yields :: "environment \<Rightarrow> generation_event list \<Rightarrow> recovery_session \<Rightarrow> recovery_session" where
  "yields env evs s = fold (\<lambda>_. await_point env) evs s"

definition end_of_session :: "recovery_session \<Rightarrow> recovery_session" where
  "end_of_session s = s\<lparr>rc_terminal := True\<rparr>"

definition mark_recovered :: "generation_event \<Rightarrow> recovery_session \<Rightarrow> recovery_session" where
  "mark_recovered e s = (if is_completed_event e \<and> 0 < rc_recoveries s then s\<lparr>rc_recovered := True\<rparr> else s)"

definition exhausted :: "environment \<Rightarrow> recovery_session \<Rightarrow> run_result" where
  "exhausted env s = (let s1 = await_point env s in
     case at_raises (rc_current s1) of
       Some ex \<Rightarrow> ([], Some ex, s1) | None \<Rightarrow> ([], None, end_of_session s1))"

definition unavailable_update :: "generation_event \<Rightarrow> measurements \<Rightarrow> recovery_session \<Rightarrow> recovery_session" where
  "unavailable_update e m s =
     (let s1 = (case e of
          GenerationFailed _ err \<Rightarrow> (if 0 < rc_max_extra s
            then s\<lparr>rc_skip := rd_skip (classify_attempt_recovery (recovery_evidence_of err s))\<rparr> else s)
        | _ \<Rightarrow> mark_recovered e s) in
      if is_terminal_event e then record_terminal_attempt e m False s1 else s1)"

fun run_unavailable :: "environment \<Rightarrow> generation_event list \<Rightarrow> measurements \<Rightarrow> recovery_session \<Rightarrow> run_result" where
  "run_unavailable env [] m s = exhausted env s"
| "run_unavailable env (e # es) m s =
     (let m1 = observe_attempt_measurements e m;
          s1 = unavailable_update e m1 (await_point env s);
          (out, ex, s2) = run_unavailable env es m1 (await_point env s1) in
      (e # out, ex, s2))"

text \<open>How the loop over one attempt ends: another attempt started, the session is over, or it raised.\<close>

datatype attempt_end = NextAttempt | SessionOver | SessionRaises exn

type_synonym attempt_result = "generation_event list \<times> attempt_end \<times> recovery_session"

text \<open>A failed attempt, in both modes. \<open>staged\<close> holds the events the streaming mode has kept back.\<close>

definition failed_attempt ::
  "environment \<Rightarrow> generation_event list \<Rightarrow> string \<Rightarrow> canonical_error \<Rightarrow> measurements \<Rightarrow> recovery_session \<Rightarrow> attempt_result" where
  "failed_attempt env staged rid err m s =
     (let d = classify_attempt_recovery (recovery_evidence_of err s);
          s1 = record_terminal_attempt (GenerationFailed rid err) m (rd_kind d \<noteq> RECOVERY_NONE) s;
          (r, s2) = start_retry_or_failure env d rid s1 in
      case r of
        Inl ex \<Rightarrow> ([], SessionRaises ex, s2)
      | Inr failure \<Rightarrow>
          if rd_kind d \<noteq> RECOVERY_NONE \<and> failure = None then ([], NextAttempt, s2)
          else let out = drain_staged staged False
                   @ [case failure of Some f \<Rightarrow> f | None \<Rightarrow> GenerationFailed rid err]
               in (out, SessionOver, end_of_session (yields env out s2)))"

definition finished_attempt ::
  "environment \<Rightarrow> generation_event list \<Rightarrow> generation_event \<Rightarrow> measurements \<Rightarrow> recovery_session \<Rightarrow> attempt_result" where
  "finished_attempt env staged e m s =
     (let s1 = yields env (drain_staged staged False) (record_terminal_attempt e m False s) in
      (drain_staged staged False @ [e], SessionOver, end_of_session (await_point env (mark_recovered e s1))))"

definition pull_all :: "environment \<Rightarrow> generation_event list \<Rightarrow> recovery_session \<Rightarrow> recovery_session" where
  "pull_all env evs s = await_point env (yields env evs s)"

definition buffered_attempt :: "environment \<Rightarrow> recovery_session \<Rightarrow> attempt_result" where
  "buffered_attempt env s =
     (let evs = at_events (rc_current s); s1 = pull_all env evs s;
          m = fold observe_attempt_measurements evs (None, None) in
      case at_raises (rc_current s) of
        Some ex \<Rightarrow> ([], SessionRaises ex, s1)
      | None \<Rightarrow>
          if evs = [] then ([], SessionOver, end_of_session s1)
          else (case last evs of
              GenerationFailed rid err \<Rightarrow> failed_attempt env [] rid err m s1
            | GenerationCancelled rid \<Rightarrow> finished_attempt env [] (last evs) m s1
            | GenerationCompleted _ _ _ _ \<Rightarrow> (evs, SessionOver, end_of_session (yields env evs
                (mark_recovered (last evs) (record_terminal_attempt (last evs) m False s1))))
            | _ \<Rightarrow> (evs, SessionOver, end_of_session (yields env evs s1))))"

text \<open>The loop over the events of one attempt in streaming mode, with its branches in the code's order.\<close>

definition after_output :: "generation_event list \<Rightarrow> attempt_result \<Rightarrow> attempt_result" where
  "after_output out r = (case r of (out', x, s) \<Rightarrow> (out @ out', x, s))"

definition publish :: "environment \<Rightarrow> generation_event list \<Rightarrow> generation_event \<Rightarrow> recovery_session \<Rightarrow> recovery_session" where
  "publish env drained e s = await_point env ((yields env drained s)\<lparr>rc_published := True\<rparr>)"

fun streaming_attempt ::
  "environment \<Rightarrow> generation_event list \<Rightarrow> generation_event list \<Rightarrow> measurements \<Rightarrow> recovery_session \<Rightarrow> attempt_result" where
  "streaming_attempt env [] staged m s = (case exhausted env s of
     (out, ex, s1) \<Rightarrow> (out, (case ex of None \<Rightarrow> SessionOver | Some x \<Rightarrow> SessionRaises x), s1))"
| "streaming_attempt env (e # es) staged m s =
     (let m1 = observe_attempt_measurements e m; s1 = await_point env s in
      if is_started_event e then
        (if \<not> rc_external_started s1
         then after_output [e] (streaming_attempt env es staged m1 (await_point env (s1\<lparr>rc_external_started := True\<rparr>)))
         else streaming_attempt env es staged m1 s1)
      else if (is_staged_tool_event e \<or> is_attempt_diagnostic_event e) \<and> \<not> rc_published s1 then
        streaming_attempt env es (staged @ [e]) m1 s1
      else if is_public_semantic_event e then
        (let drained = drain_staged staged (is_tool_completed e) in
         after_output (drained @ [e]) (streaming_attempt env es [] m1 (publish env drained e s1)))
      else case e of
        GenerationFailed rid err \<Rightarrow> failed_attempt env staged rid err m1 s1
      | _ \<Rightarrow> if is_terminal_event e then finished_attempt env staged e m1 s1
             else after_output [e] (streaming_attempt env es staged m1 (await_point env s1)))"

definition one_attempt :: "environment \<Rightarrow> recovery_session \<Rightarrow> attempt_result" where
  "one_attempt env s = (if rc_visibility s = BUFFERED then buffered_attempt env s
     else streaming_attempt env (at_events (rc_current s)) [] (None, None) s)"

section \<open>What the steps leave alone\<close>

lemma release_once_frame [simp]:
  "rc_ordinal (release_once s) = rc_ordinal s" "rc_max_extra (release_once s) = rc_max_extra s"
  "rc_visibility (release_once s) = rc_visibility s" "rc_current (release_once s) = rc_current s"
  "rc_recoveries (release_once s) = rc_recoveries s" "rc_started (release_once s) = rc_started s"
  "rc_published (release_once s) = rc_published s" "rc_records (release_once s) = rc_records s"
  "rc_external_started (release_once s) = rc_external_started s"
  by (simp_all add: release_once_def)

lemma recovery_cancel_frame [simp]:
  "rc_ordinal (recovery_cancel s) = rc_ordinal s" "rc_max_extra (recovery_cancel s) = rc_max_extra s"
  "rc_visibility (recovery_cancel s) = rc_visibility s" "rc_current (recovery_cancel s) = rc_current s"
  "rc_recoveries (recovery_cancel s) = rc_recoveries s" "rc_started (recovery_cancel s) = rc_started s"
  "rc_published (recovery_cancel s) = rc_published s" "rc_records (recovery_cancel s) = rc_records s"
  "rc_external_started (recovery_cancel s) = rc_external_started s"
  by (simp_all add: recovery_cancel_def)

lemma await_point_frame [simp]:
  "rc_ordinal (await_point env s) = rc_ordinal s" "rc_max_extra (await_point env s) = rc_max_extra s"
  "rc_visibility (await_point env s) = rc_visibility s" "rc_current (await_point env s) = rc_current s"
  "rc_recoveries (await_point env s) = rc_recoveries s" "rc_started (await_point env s) = rc_started s"
  "rc_published (await_point env s) = rc_published s" "rc_records (await_point env s) = rc_records s"
  "rc_external_started (await_point env s) = rc_external_started s"
  by (simp_all add: await_point_def Let_def)

lemma yields_nil [simp]: "yields env [] s = s"
  by (simp add: yields_def)

lemma yields_cons [simp]: "yields env (e # es) s = yields env es (await_point env s)"
  by (simp add: yields_def)

lemma yields_frame [simp]:
  "rc_ordinal (yields env es s) = rc_ordinal s" "rc_max_extra (yields env es s) = rc_max_extra s"
  "rc_visibility (yields env es s) = rc_visibility s" "rc_current (yields env es s) = rc_current s"
  "rc_recoveries (yields env es s) = rc_recoveries s" "rc_started (yields env es s) = rc_started s"
  "rc_published (yields env es s) = rc_published s" "rc_records (yields env es s) = rc_records s"
  "rc_external_started (yields env es s) = rc_external_started s"
  by (induction es arbitrary: s) simp_all

lemma record_terminal_attempt_frame [simp]:
  "rc_ordinal (record_terminal_attempt e m d s) = rc_ordinal s"
  "rc_max_extra (record_terminal_attempt e m d s) = rc_max_extra s"
  "rc_visibility (record_terminal_attempt e m d s) = rc_visibility s"
  "rc_current (record_terminal_attempt e m d s) = rc_current s"
  "rc_recoveries (record_terminal_attempt e m d s) = rc_recoveries s"
  "rc_started (record_terminal_attempt e m d s) = rc_started s"
  "rc_published (record_terminal_attempt e m d s) = rc_published s"
  "rc_external_started (record_terminal_attempt e m d s) = rc_external_started s"
  by (simp_all add: record_terminal_attempt_def Let_def split: option.split)

lemma mark_recovered_frame [simp]:
  "rc_ordinal (mark_recovered e s) = rc_ordinal s" "rc_max_extra (mark_recovered e s) = rc_max_extra s"
  "rc_visibility (mark_recovered e s) = rc_visibility s" "rc_current (mark_recovered e s) = rc_current s"
  "rc_recoveries (mark_recovered e s) = rc_recoveries s" "rc_started (mark_recovered e s) = rc_started s"
  "rc_published (mark_recovered e s) = rc_published s" "rc_records (mark_recovered e s) = rc_records s"
  "rc_external_started (mark_recovered e s) = rc_external_started s"
  by (simp_all add: mark_recovered_def)

section \<open>Progress: a further attempt uses up the budget\<close>

text \<open>\<open>advanced n s s'\<close>: from \<open>s\<close> to \<open>s'\<close> the session has counted \<open>n\<close> further attempts.\<close>

definition advanced :: "int \<Rightarrow> recovery_session \<Rightarrow> recovery_session \<Rightarrow> bool" where
  "advanced n s s' \<longleftrightarrow> rc_ordinal s' = rc_ordinal s + n \<and> rc_started s' = rc_started s + n
     \<and> rc_recoveries s' = rc_recoveries s + n \<and> rc_max_extra s' = rc_max_extra s
     \<and> rc_visibility s' = rc_visibility s \<and> rc_published s' = rc_published s
     \<and> rc_external_started s' = rc_external_started s"

lemma wait_for_runtime_frame:
  assumes "wait_for_runtime env rid s = (r, s')"
  shows "advanced 0 s s'" and "rc_current s' = rc_current s"
    and "\<And>e. r = Some e \<Longrightarrow> is_terminal_event e"
  using assms unfolding wait_for_runtime_def
  by (auto simp: Let_def advanced_def split: if_splits runtime_readiness.splits)

lemma start_next_attempt_frame:
  assumes "start_next_attempt env rid s = (r, s')"
  shows "\<exists>n\<in>{0, 1}. advanced n s s'"
    and "r = Inr None \<Longrightarrow> advanced 1 s s' \<and> (\<exists>k. env_factory env k = NewAttempt (rc_current s'))"
    and "\<And>e. r = Inr (Some e) \<Longrightarrow> is_terminal_event e"
  using assms unfolding start_next_attempt_def
  by (auto simp: Let_def advanced_def split: if_splits factory_result.splits)

lemma advanced_trans: "advanced m s s' \<Longrightarrow> advanced n s' s'' \<Longrightarrow> advanced (m + n) s s''"
  by (simp add: advanced_def)

lemma start_retry_or_failure_frame:
  assumes "start_retry_or_failure env d rid s = (r, s')"
  shows "\<exists>n\<in>{0, 1}. advanced n s s'"
    and "rd_kind d = RECOVERY_NONE \<Longrightarrow> r = Inr None \<and> advanced 0 s s' \<and> rc_current s' = rc_current s"
    and "rd_kind d \<noteq> RECOVERY_NONE \<Longrightarrow> r = Inr None \<Longrightarrow>
           advanced 1 s s' \<and> (\<exists>k. env_factory env k = NewAttempt (rc_current s'))"
    and "\<And>e. r = Inr (Some e) \<Longrightarrow> is_terminal_event e"
proof -
  let ?s1 = "s\<lparr>rc_last_kind := rd_kind d, rc_decision := ''retry_planned''\<rparr>"
  obtain w s2 where w: "(if rd_kind d = WAIT_RUNTIME_AND_RETRY then wait_for_runtime env rid ?s1 else (None, ?s1)) = (w, s2)"
    by fastforce
  have s2: "advanced 0 s s2" "\<And>e. w = Some e \<Longrightarrow> is_terminal_event e"
    using w wait_for_runtime_frame [of env rid ?s1 w s2] by (auto simp: advanced_def split: if_splits)
  have none: "rd_kind d = RECOVERY_NONE \<Longrightarrow> r = Inr None \<and> advanced 0 s s' \<and> rc_current s' = rc_current s"
    using assms by (auto simp: start_retry_or_failure_def advanced_def)
  have some: "(\<exists>n\<in>{0, 1}. advanced n s s') \<and> (r = Inr None \<longrightarrow> advanced 1 s s' \<and> (\<exists>k. env_factory env k = NewAttempt (rc_current s')))
      \<and> (\<forall>e. r = Inr (Some e) \<longrightarrow> is_terminal_event e)" if k: "rd_kind d \<noteq> RECOVERY_NONE"
  proof (cases w)
    case (Some e)
    then show ?thesis using assms k w s2 by (auto simp: start_retry_or_failure_def)
  next
    case None
    show ?thesis
    proof (cases "gone s2")
      case True
      then have "r = Inr (Some (GenerationCancelled rid))" "s' = s2\<lparr>rc_skip := Some RUNTIME_NOT_READY\<rparr>"
        using assms k w None by (simp_all add: start_retry_or_failure_def)
      then show ?thesis using s2 by (simp add: advanced_def)
    next
      case False
      then have n: "start_next_attempt env rid s2 = (r, s')"
        using assms k w None by (simp add: start_retry_or_failure_def)
      then show ?thesis using start_next_attempt_frame [OF n] advanced_trans [OF s2(1)] by fastforce
    qed
  qed
  show "\<exists>n\<in>{0, 1}. advanced n s s'" using none some by (cases "rd_kind d = RECOVERY_NONE") auto
  show "rd_kind d = RECOVERY_NONE \<Longrightarrow> r = Inr None \<and> advanced 0 s s' \<and> rc_current s' = rc_current s" by (rule none)
  show "rd_kind d \<noteq> RECOVERY_NONE \<Longrightarrow> r = Inr None \<Longrightarrow>
      advanced 1 s s' \<and> (\<exists>k. env_factory env k = NewAttempt (rc_current s'))" using some by simp
  show "\<And>e. r = Inr (Some e) \<Longrightarrow> is_terminal_event e"
    using none some by (cases "rd_kind d = RECOVERY_NONE") auto
qed

lemma retry_within_budget:
  "rd_kind (classify_attempt_recovery ev) \<noteq> RECOVERY_NONE \<Longrightarrow> re_ordinal ev \<le> re_max_extra ev \<and> re_publication ev = UNPUBLISHED"
  by (cases "re_publication ev") (auto simp: classify_attempt_recovery_def split: if_splits)

text \<open>\<open>stays_in_budget\<close>: attempts are added only within the budget, and another attempt is started only
  when nothing has been published.\<close>

definition stays_in_budget :: "environment \<Rightarrow> recovery_session \<Rightarrow> attempt_end \<Rightarrow> recovery_session \<Rightarrow> bool" where
  "stays_in_budget env s x s' \<longleftrightarrow> rc_max_extra s' = rc_max_extra s \<and> rc_visibility s' = rc_visibility s
     \<and> (\<exists>n. (n = 0 \<or> n = 1 \<and> rc_ordinal s \<le> rc_max_extra s) \<and> rc_ordinal s' = rc_ordinal s + n
          \<and> rc_started s' = rc_started s + n \<and> rc_recoveries s' = rc_recoveries s + n
          \<and> (x = NextAttempt \<longrightarrow> n = 1 \<and> \<not> rc_published s'
               \<and> (\<exists>k. env_factory env k = NewAttempt (rc_current s'))))"

lemma failed_attempt_budget:
  assumes "failed_attempt env staged rid err m s = (out, x, s')"
  shows "stays_in_budget env s x s'"
proof -
  let ?d = "classify_attempt_recovery (recovery_evidence_of err s)"
  let ?s1 = "record_terminal_attempt (GenerationFailed rid err) m (rd_kind ?d \<noteq> RECOVERY_NONE) s"
  obtain r s2 where r: "start_retry_or_failure env ?d rid ?s1 = (r, s2)" by fastforce
  note f = start_retry_or_failure_frame [OF r]
  have b: "rd_kind ?d \<noteq> RECOVERY_NONE \<Longrightarrow> rc_ordinal s \<le> rc_max_extra s \<and> \<not> rc_published s"
    using retry_within_budget [of "recovery_evidence_of err s"] by (auto simp: recovery_evidence_of_def split: if_splits)
  obtain n where n: "n \<in> {0, 1}" "advanced n ?s1 s2" "rd_kind ?d = RECOVERY_NONE \<Longrightarrow> n = 0"
    using f(1,2) by (metis insertCI)
  have s': "advanced n ?s1 s'" "x = NextAttempt \<Longrightarrow> rd_kind ?d \<noteq> RECOVERY_NONE \<and> r = Inr None \<and> s' = s2"
    using assms r n(2) unfolding failed_attempt_def
    by (auto simp: Let_def advanced_def end_of_session_def split: sum.splits if_splits)
  have "x = NextAttempt \<Longrightarrow> n = 1 \<and> (\<exists>k. env_factory env k = NewAttempt (rc_current s'))"
    using s' f(3) n(2) by (fastforce simp: advanced_def)
  then show ?thesis using s' n b unfolding stays_in_budget_def advanced_def by auto
qed

lemma finished_attempt_budget:
  "finished_attempt env staged e m s = (out, x, s') \<Longrightarrow> stays_in_budget env s x s'"
  by (auto simp: finished_attempt_def Let_def stays_in_budget_def end_of_session_def)

lemma exhausted_frame:
  "exhausted env s = (out, ex, s') \<Longrightarrow> out = [] \<and> advanced 0 s s' \<and> rc_current s' = rc_current s"
  by (auto simp: exhausted_def Let_def advanced_def end_of_session_def split: option.splits)

lemma stays_in_budget_from:
  "stays_in_budget env s1 x s' \<Longrightarrow> rc_max_extra s1 = rc_max_extra s \<Longrightarrow> rc_visibility s1 = rc_visibility s
     \<Longrightarrow> rc_ordinal s1 = rc_ordinal s \<Longrightarrow> rc_started s1 = rc_started s \<Longrightarrow> rc_recoveries s1 = rc_recoveries s
     \<Longrightarrow> stays_in_budget env s x s'"
  by (simp add: stays_in_budget_def)

lemma buffered_attempt_budget:
  assumes "buffered_attempt env s = (out, x, s')"
  shows "stays_in_budget env s x s'"
proof -
  let ?s1 = "pull_all env (at_events (rc_current s)) s"
  let ?evs = "at_events (rc_current s)"
  let ?m = "fold observe_attempt_measurements ?evs (None, None)"
  have "stays_in_budget env ?s1 x s'"
  proof -
    consider (plain) "x \<noteq> NextAttempt" "\<exists>f. s' = f ?s1 \<and> (\<forall>v. advanced 0 v (f v))"
      | (failed) rid err where "failed_attempt env [] rid err ?m ?s1 = (out, x, s')"
      | (finished) "finished_attempt env [] (last ?evs) ?m ?s1 = (out, x, s')"
    proof -
      show thesis
      proof (cases "at_raises (rc_current s) = None \<and> ?evs \<noteq> []")
        case False
        then have "x \<noteq> NextAttempt" "s' = ?s1 \<or> s' = end_of_session ?s1"
          using assms by (auto simp: buffered_attempt_def Let_def split: option.splits)
        moreover have "\<forall>v. advanced 0 v v" "\<forall>v. advanced 0 v (end_of_session v)"
          by (simp_all add: advanced_def end_of_session_def)
        ultimately show thesis using plain [OF \<open>x \<noteq> NextAttempt\<close>] by (metis id_apply)
      next
        case True
        define fin where "fin = (\<lambda>v. end_of_session (yields env ?evs v))"
        define rec where "rec = (\<lambda>v. end_of_session (yields env ?evs (mark_recovered (last ?evs)
          (record_terminal_attempt (last ?evs) ?m False v))))"
        have fr: "\<forall>v. advanced 0 v (fin v)" "\<forall>v. advanced 0 v (rec v)"
          by (simp_all add: advanced_def end_of_session_def fin_def rec_def)
        show thesis
        proof (cases "last ?evs")
          case (GenerationFailed rid err)
          then show thesis using assms True by (intro failed [of rid err]) (simp add: buffered_attempt_def Let_def)
        next
          case (GenerationCancelled rid)
          then show thesis using assms True by (intro finished) (simp add: buffered_attempt_def Let_def)
        next
          case (GenerationCompleted r c u t)
          then have "x = SessionOver" "s' = rec ?s1"
            using assms True by (auto simp: buffered_attempt_def Let_def rec_def)
          then show thesis using fr by (intro plain) auto
        qed (use assms True fr in \<open>auto intro!: plain exI [of _ fin] simp: buffered_attempt_def Let_def fin_def\<close>)
      qed
    qed
    then show ?thesis
    proof cases
      case plain
      then show ?thesis by (fastforce simp: stays_in_budget_def advanced_def)
    qed (auto intro: failed_attempt_budget finished_attempt_budget)
  qed
  then show ?thesis by (rule stays_in_budget_from) (simp_all add: pull_all_def)
qed

lemma streaming_attempt_budget:
  "streaming_attempt env evs staged m s = (out, x, s') \<Longrightarrow> stays_in_budget env s x s'"
proof (induction evs arbitrary: staged m s out)
  case Nil
  then show ?case
    by (auto dest!: exhausted_frame simp: advanced_def stays_in_budget_def split: prod.splits option.splits)
next
  case (Cons e es)
  let ?m = "observe_attempt_measurements e m" and ?s = "await_point env s"
  have goal: "stays_in_budget env v x s' \<Longrightarrow> advanced 0 s (v\<lparr>rc_published := rc_published s,
      rc_external_started := rc_external_started s\<rparr>) \<Longrightarrow> stays_in_budget env s x s'" for v
    by (simp add: stays_in_budget_def advanced_def)
  have more: "after_output o1 (streaming_attempt env es st ?m v) = (out, x, s') \<Longrightarrow> stays_in_budget env v x s'" for o1 st v
    using Cons.IH [of st ?m v] by (auto simp: after_output_def split: prod.splits)
  consider (started) "is_started_event e"
    | (staged) "\<not> is_started_event e" "(is_staged_tool_event e \<or> is_attempt_diagnostic_event e) \<and> \<not> rc_published ?s"
    | (public) "\<not> is_started_event e" "\<not> ((is_staged_tool_event e \<or> is_attempt_diagnostic_event e) \<and> \<not> rc_published ?s)"
        "is_public_semantic_event e"
    | (other) "\<not> is_started_event e" "\<not> ((is_staged_tool_event e \<or> is_attempt_diagnostic_event e) \<and> \<not> rc_published ?s)"
        "\<not> is_public_semantic_event e" by blast
  then show ?case
  proof cases
    case started
    show ?thesis
    proof (cases "rc_external_started ?s")
      case True
      then have "streaming_attempt env es staged ?m ?s = (out, x, s')" using Cons.prems started by (simp add: Let_def)
      then show ?thesis by (intro goal [of ?s] Cons.IH) (auto simp: advanced_def)
    next
      case False
      let ?v = "await_point env (?s\<lparr>rc_external_started := True\<rparr>)"
      have "after_output [e] (streaming_attempt env es staged ?m ?v) = (out, x, s')"
        using Cons.prems started False by (simp add: Let_def)
      then show ?thesis by (intro goal [of ?v] more) (auto simp: advanced_def)
    qed
  next
    case staged
    then have "streaming_attempt env es (staged @ [e]) ?m ?s = (out, x, s')" using Cons.prems by (simp add: Let_def)
    then show ?thesis by (intro goal [of ?s] Cons.IH) (auto simp: advanced_def)
  next
    case public
    let ?d = "drain_staged staged (is_tool_completed e)"
    have "after_output (?d @ [e]) (streaming_attempt env es [] ?m (publish env ?d e ?s)) = (out, x, s')"
      using Cons.prems public by (auto simp: Let_def)
    then show ?thesis by (intro goal [of "publish env ?d e ?s"] more) (auto simp: advanced_def publish_def)
  next
    case other
    have f: "stays_in_budget env ?s x s'" if "failed_attempt env staged rid err ?m ?s = (out, x, s')" for rid err
      using that by (rule failed_attempt_budget)
    have g: "stays_in_budget env ?s x s'" if "finished_attempt env staged e ?m ?s = (out, x, s')"
      using that by (rule finished_attempt_budget)
    have a: "advanced 0 s (?s\<lparr>rc_published := rc_published s, rc_external_started := rc_external_started s\<rparr>)"
      by (simp add: advanced_def)
    have h: "stays_in_budget env ?s x s'" if "after_output [e] (streaming_attempt env es staged ?m (await_point env ?s)) = (out, x, s')"
      using more [OF that] by (simp add: stays_in_budget_def)
    show ?thesis
      by (rule goal [OF _ a], cases e) (use Cons.prems other f g h in \<open>simp_all add: Let_def del: await_point_frame\<close>)
  qed
qed

lemma one_attempt_budget: "one_attempt env s = (out, x, s') \<Longrightarrow> stays_in_budget env s x s'"
  by (auto simp: one_attempt_def split: if_splits intro: buffered_attempt_budget streaming_attempt_budget)

section \<open>The session\<close>

function run_attempts :: "environment \<Rightarrow> recovery_session \<Rightarrow> run_result" where
  "run_attempts env s = (case one_attempt env s of
       (out, NextAttempt, s1) \<Rightarrow> (case run_attempts env s1 of (out', ex, s2) \<Rightarrow> (out @ out', ex, s2))
     | (out, SessionOver, s1) \<Rightarrow> (out, None, s1)
     | (out, SessionRaises ex, s1) \<Rightarrow> (out, Some ex, s1))"
  by pat_completeness auto

termination
proof (relation "measure (\<lambda>(env, s). nat (rc_max_extra s + 1 - rc_ordinal s))")
  fix env :: environment and s out x s1 y
  assume "(out, y) = one_attempt env s" "(x, s1) = y" "x = NextAttempt"
  then have "one_attempt env s = (out, NextAttempt, s1)" by auto
  from one_attempt_budget [OF this]
  show "((env, s1), env, s) \<in> measure (\<lambda>(env, s). nat (rc_max_extra s + 1 - rc_ordinal s))"
    by (auto simp: stays_in_budget_def)
qed simp

declare run_attempts.simps [simp del]

definition run_session :: "environment \<Rightarrow> recovery_session \<Rightarrow> run_result" where
  "run_session env s =
     (let (out, ex, s1) = (if recovery_unavailable s
          then run_unavailable env (at_events (rc_current s)) (None, None) s else run_attempts env s)
      in (out, ex, release_once s1))"

section \<open>What is published\<close>

text \<open>The streaming mode as a relation between the events of an attempt and the events published, with
  the flags (something was published, a start event was published) before and after.\<close>

inductive publishes ::
  "bool \<times> bool \<Rightarrow> generation_event list \<Rightarrow> generation_event list \<Rightarrow> generation_event list \<Rightarrow> attempt_end \<Rightarrow> bool \<times> bool \<Rightarrow> bool"
where
  iterator_ends: "x \<noteq> NextAttempt \<Longrightarrow> publishes f staged [] [] x f"
| first_start: "is_started_event e \<Longrightarrow> publishes (p, True) staged es out x f
    \<Longrightarrow> publishes (p, False) staged (e # es) (e # out) x f"
| later_start: "is_started_event e \<Longrightarrow> publishes (p, True) staged es out x f
    \<Longrightarrow> publishes (p, True) staged (e # es) out x f"
| held_back: "is_staged_tool_event e \<or> is_attempt_diagnostic_event e \<Longrightarrow> publishes (False, b) (staged @ [e]) es out x f
    \<Longrightarrow> publishes (False, b) staged (e # es) out x f"
| passed_on: "is_staged_tool_event e \<or> is_attempt_diagnostic_event e \<Longrightarrow> publishes (True, b) staged es out x f
    \<Longrightarrow> publishes (True, b) staged (e # es) (e # out) x f"
| semantic: "is_public_semantic_event e \<Longrightarrow> publishes (True, b) [] es out x f
    \<Longrightarrow> publishes (p, b) staged (e # es) (drain_staged staged (is_tool_completed e) @ e # out) x f"
| session_ends: "is_terminal_event e \<Longrightarrow> is_terminal_event t
    \<Longrightarrow> publishes f staged (e # es) (drain_staged staged False @ [t]) SessionOver f"
| given_up: "is_terminal_event e \<Longrightarrow> x \<noteq> SessionOver \<Longrightarrow> (x = NextAttempt \<Longrightarrow> \<not> p)
    \<Longrightarrow> publishes (p, b) staged (e # es) [] x (p, b)"

inductive_cases publishes_next: "publishes f staged evs out NextAttempt f'"

definition flags :: "recovery_session \<Rightarrow> bool \<times> bool" where
  "flags s = (rc_published s, rc_external_started s)"

lemma flags_simps [simp]:
  "flags (await_point env s) = flags s" "flags (yields env es s) = flags s" "flags (mark_recovered e s) = flags s"
  "flags (record_terminal_attempt e m d s) = flags s" "flags (end_of_session s) = flags s"
  "flags (publish env dr e s) = (True, rc_external_started s)"
  by (simp_all add: flags_def end_of_session_def publish_def)

lemma event_kinds:
  "is_started_event e \<or> is_staged_tool_event e \<or> is_attempt_diagnostic_event e \<or> is_public_semantic_event e \<or> is_terminal_event e"
  by (cases e) simp_all

lemma event_kinds_exclusive:
  "is_started_event e \<Longrightarrow> \<not> is_staged_tool_event e \<and> \<not> is_attempt_diagnostic_event e \<and> \<not> is_public_semantic_event e \<and> \<not> is_terminal_event e"
  "is_staged_tool_event e \<Longrightarrow> \<not> is_attempt_diagnostic_event e \<and> \<not> is_public_semantic_event e \<and> \<not> is_terminal_event e"
  "is_attempt_diagnostic_event e \<Longrightarrow> \<not> is_public_semantic_event e \<and> \<not> is_terminal_event e"
  "is_public_semantic_event e \<Longrightarrow> \<not> is_terminal_event e"
  by (cases e; simp)+

lemma failed_attempt_publishes:
  assumes "failed_attempt env staged rid err m s = (out, x, s')"
  shows "publishes (flags s) staged (GenerationFailed rid err # es) out x (flags s')"
proof -
  let ?d = "classify_attempt_recovery (recovery_evidence_of err s)"
  let ?s1 = "record_terminal_attempt (GenerationFailed rid err) m (rd_kind ?d \<noteq> RECOVERY_NONE) s"
  obtain r s2 where r: "start_retry_or_failure env ?d rid ?s1 = (r, s2)" by fastforce
  note f = start_retry_or_failure_frame [OF r]
  have fl: "flags s2 = flags s" using f(1) by (auto simp: advanced_def flags_def)
  have b: "rd_kind ?d \<noteq> RECOVERY_NONE \<Longrightarrow> \<not> rc_published s"
    using retry_within_budget [of "recovery_evidence_of err s"] by (auto simp: recovery_evidence_of_def split: if_splits)
  show ?thesis
  proof (cases r)
    case (Inl ex)
    then have "out = []" "x = SessionRaises ex" "s' = s2" using assms r by (auto simp: failed_attempt_def Let_def)
    then show ?thesis using fl by (auto simp: flags_def intro!: given_up)
  next
    case (Inr failure)
    show ?thesis
    proof (cases "rd_kind ?d \<noteq> RECOVERY_NONE \<and> failure = None")
      case True
      then have "out = []" "x = NextAttempt" "s' = s2" using assms r Inr by (auto simp: failed_attempt_def Let_def)
      then show ?thesis using fl True b by (auto simp: flags_def intro!: given_up)
    next
      case False
      define t where "t = (case failure of Some e \<Rightarrow> e | None \<Rightarrow> GenerationFailed rid err)"
      have "is_terminal_event t" using f(4) Inr by (simp add: t_def split: option.split)
      moreover have "out = drain_staged staged False @ [t]" "x = SessionOver" "flags s' = flags s"
        using assms r Inr False fl by (auto simp: failed_attempt_def Let_def t_def)
      ultimately show ?thesis using session_ends by simp
    qed
  qed
qed

lemma finished_attempt_publishes:
  "finished_attempt env staged e m s = (out, x, s') \<Longrightarrow> is_terminal_event e
     \<Longrightarrow> publishes (flags s) staged (e # es) out x (flags s')"
  by (auto simp: finished_attempt_def Let_def intro: session_ends)

lemma streaming_attempt_publishes:
  "streaming_attempt env evs staged m s = (out, x, s') \<Longrightarrow> publishes (flags s) staged evs out x (flags s')"
proof (induction evs arbitrary: staged m s out)
  case Nil
  then show ?case
    by (auto dest!: exhausted_frame simp: advanced_def flags_def intro!: iterator_ends split: prod.splits option.splits)
next
  case (Cons e es)
  let ?m = "observe_attempt_measurements e m" and ?s = "await_point env s"
  have more: "\<exists>o2. out = o1 @ o2 \<and> publishes (flags v) st es o2 x (flags s')"
    if "after_output o1 (streaming_attempt env es st ?m v) = (out, x, s')" for o1 st v
    using Cons.IH [of st ?m v] that by (auto simp: after_output_def split: prod.splits)
  consider (started) "is_started_event e"
    | (tool) "is_staged_tool_event e \<or> is_attempt_diagnostic_event e" "\<not> is_started_event e"
        "\<not> is_public_semantic_event e" "\<not> is_terminal_event e"
    | (public) "is_public_semantic_event e" "\<not> is_started_event e" "\<not> is_staged_tool_event e" "\<not> is_attempt_diagnostic_event e"
    | (terminal) "is_terminal_event e" "\<not> is_started_event e" "\<not> is_staged_tool_event e"
        "\<not> is_attempt_diagnostic_event e" "\<not> is_public_semantic_event e"
    using event_kinds [of e] event_kinds_exclusive [of e] by blast
  then show ?case
  proof cases
    case started
    show ?thesis
    proof (cases "rc_external_started ?s")
      case True
      then have "streaming_attempt env es staged ?m ?s = (out, x, s')" using Cons.prems started by (simp add: Let_def)
      then show ?thesis using Cons.IH [of staged ?m ?s] True started later_start by (simp add: flags_def)
    next
      case False
      then have "after_output [e] (streaming_attempt env es staged ?m (await_point env (?s\<lparr>rc_external_started := True\<rparr>)))
          = (out, x, s')" using Cons.prems started by (simp add: Let_def)
      from more [OF this] show ?thesis using False started by (auto simp: flags_def intro: first_start)
    qed
  next
    case tool
    show ?thesis
    proof (cases "rc_published ?s")
      case True
      then have "after_output [e] (streaming_attempt env es staged ?m (await_point env ?s)) = (out, x, s')"
        using Cons.prems tool by (cases e) (simp_all add: Let_def)
      from more [OF this] show ?thesis using True tool by (auto simp: flags_def intro: passed_on)
    next
      case False
      then have "streaming_attempt env es (staged @ [e]) ?m ?s = (out, x, s')" using Cons.prems tool by (auto simp: Let_def)
      then show ?thesis using Cons.IH [of "staged @ [e]" ?m ?s] False tool held_back by (simp add: flags_def)
    qed
  next
    case public
    let ?d = "drain_staged staged (is_tool_completed e)"
    have "after_output (?d @ [e]) (streaming_attempt env es [] ?m (publish env ?d e ?s)) = (out, x, s')"
      using Cons.prems public by (simp add: Let_def)
    from more [OF this] show ?thesis using public by (auto simp: flags_def publish_def intro: semantic)
  next
    case terminal
    show ?thesis
    proof (cases "\<exists>rid err. e = GenerationFailed rid err")
      case True
      then obtain rid err where e: "e = GenerationFailed rid err" by blast
      have "failed_attempt env staged rid err ?m ?s = (out, x, s')" using Cons.prems by (simp add: e Let_def)
      from failed_attempt_publishes [OF this] show ?thesis by (simp add: e)
    next
      case False
      then have "finished_attempt env staged e ?m ?s = (out, x, s')"
        using Cons.prems terminal by (cases e) (simp_all add: Let_def)
      from finished_attempt_publishes [OF this terminal(1)] show ?thesis by simp
    qed
  qed
qed

definition is_ordinary_event :: "generation_event \<Rightarrow> bool" where
  "is_ordinary_event e \<longleftrightarrow> \<not> is_started_event e \<and> \<not> is_terminal_event e"

definition before_terminal :: "generation_event list \<Rightarrow> generation_event list" where
  "before_terminal evs = takeWhile (\<lambda>e. \<not> is_terminal_event e) evs"

definition held :: "generation_event list \<Rightarrow> bool" where
  "held staged \<longleftrightarrow> (\<forall>e\<in>set staged. is_staged_tool_event e \<or> is_attempt_diagnostic_event e)"

lemma held_drained:
  assumes "held staged"
  shows "filter is_public_semantic_event (drain_staged staged v) = []"
    and "filter is_started_event (drain_staged staged v) = []"
    and "\<forall>e\<in>set (drain_staged staged v). \<not> is_terminal_event e"
    and "filter is_ordinary_event (drain_staged staged v) = drain_staged staged v"
    and "subseq (drain_staged staged v) staged"
  using assms event_kinds_exclusive
  by (auto simp: held_def drain_staged_def is_ordinary_event_def filter_empty_conv intro!: filter_cong)

lemma held_simps [simp]: "held []" "held (staged @ [e]) \<longleftrightarrow> held staged \<and> (is_staged_tool_event e \<or> is_attempt_diagnostic_event e)"
  by (auto simp: held_def)

lemma before_terminal_simps [simp]:
  "before_terminal [] = []"
  "is_terminal_event e \<Longrightarrow> before_terminal (e # es) = []"
  "\<not> is_terminal_event e \<Longrightarrow> before_terminal (e # es) = e # before_terminal es"
  by (simp_all add: before_terminal_def)

lemma publishes_semantic:
  "publishes f staged evs out x f' \<Longrightarrow> held staged
     \<Longrightarrow> filter is_public_semantic_event out = filter is_public_semantic_event (before_terminal evs)"
  by (induction rule: publishes.induct) (use event_kinds_exclusive in \<open>auto simp: held_drained\<close>)

lemma publishes_started:
  "publishes f staged evs out x f' \<Longrightarrow> held staged
     \<Longrightarrow> length (filter is_started_event out) \<le> (if snd f then 0 else 1)
         \<and> (snd f \<or> filter is_started_event out \<noteq> [] \<longrightarrow> snd f')"
  by (induction rule: publishes.induct) (use event_kinds_exclusive in \<open>auto simp: held_drained split: if_splits\<close>)

lemma publishes_keeps_published: "publishes f staged evs out x f' \<Longrightarrow> fst f \<Longrightarrow> fst f'"
  by (induction rule: publishes.induct) auto

lemma publishes_next_attempt:
  "publishes f staged evs out x f' \<Longrightarrow> x = NextAttempt \<Longrightarrow> \<not> fst f' \<and> (\<forall>e\<in>set out. is_started_event e)"
  by (induction rule: publishes.induct) (auto dest: publishes_keeps_published)

lemma publishes_terminal:
  "publishes f staged evs out x f' \<Longrightarrow> held staged \<Longrightarrow>
     (\<forall>e\<in>set (butlast out). \<not> is_terminal_event e) \<and> (x \<noteq> SessionOver \<longrightarrow> (\<forall>e\<in>set out. \<not> is_terminal_event e))
     \<and> (x = SessionOver \<and> (\<exists>e\<in>set evs. is_terminal_event e) \<longrightarrow> out \<noteq> [] \<and> is_terminal_event (last out))"
  by (induction rule: publishes.induct) (use event_kinds_exclusive in \<open>auto simp: held_drained butlast_append\<close>)

lemma ordinary_kinds [simp]:
  "is_started_event e \<Longrightarrow> \<not> is_ordinary_event e" "is_terminal_event e \<Longrightarrow> \<not> is_ordinary_event e"
  "is_public_semantic_event e \<Longrightarrow> is_ordinary_event e"
  "is_staged_tool_event e \<Longrightarrow> is_ordinary_event e" "is_attempt_diagnostic_event e \<Longrightarrow> is_ordinary_event e"
  using event_kinds_exclusive [of e] by (auto simp: is_ordinary_event_def)

lemma subseq_insert_mid: "subseq xs (a @ b) \<Longrightarrow> subseq xs (a @ e # b)"
  by (rule subseq_order.order_trans [of xs "a @ b"]) (auto intro!: list_emb_append_mono)

lemma publishes_subseq:
  "publishes f staged evs out x f' \<Longrightarrow> held staged \<Longrightarrow> (fst f \<longrightarrow> staged = [])
     \<Longrightarrow> subseq (filter is_ordinary_event out) (staged @ before_terminal evs)"
proof (induction rule: publishes.induct)
  case (semantic e b es out x f p staged)
  have "subseq (drain_staged staged (is_tool_completed e) @ e # filter is_ordinary_event out) (staged @ e # before_terminal es)"
    using semantic held_drained(5) [of staged] by (intro list_emb_append_mono) auto
  then show ?case
    using semantic event_kinds_exclusive [of e] by (simp add: held_drained)
next
  case (passed_on e b staged es out x f)
  then show ?case using event_kinds_exclusive [of e] by auto
next
  case (session_ends e t f staged es)
  then show ?case using held_drained(4,5) by simp
qed (use event_kinds_exclusive in \<open>auto intro: subseq_insert_mid\<close>)

definition one_of_the_attempts :: "environment \<Rightarrow> recovery_session \<Rightarrow> attempt \<Rightarrow> bool" where
  "one_of_the_attempts env s a \<longleftrightarrow> a = rc_current s \<or> (\<exists>k. env_factory env k = NewAttempt a)"

definition published_from :: "bool \<Rightarrow> generation_event list \<Rightarrow> attempt \<Rightarrow> bool" where
  "published_from ext out a \<longleftrightarrow> subseq (filter is_ordinary_event out) (before_terminal (at_events a))
     \<and> filter is_public_semantic_event out = filter is_public_semantic_event (before_terminal (at_events a))
     \<and> length (filter is_started_event out) \<le> (if ext then 0 else 1)
     \<and> (\<forall>e\<in>set (butlast out). \<not> is_terminal_event e)"

lemma streaming_published_from:
  assumes "streaming_attempt env evs [] m s = (out, x, s')" "evs = at_events a"
  shows "published_from (rc_external_started s) out a"
    and "x = NextAttempt \<Longrightarrow> \<not> rc_published s' \<and> (\<forall>e\<in>set out. is_started_event e)
           \<and> (out \<noteq> [] \<or> rc_external_started s \<longrightarrow> rc_external_started s')"
proof -
  note p = streaming_attempt_publishes [OF assms(1)]
  show "published_from (rc_external_started s) out a"
    using publishes_subseq [OF p] publishes_semantic [OF p] publishes_started [OF p] publishes_terminal [OF p] assms(2)
    by (simp add: published_from_def flags_def)
  show "\<not> rc_published s' \<and> (\<forall>e\<in>set out. is_started_event e) \<and> (out \<noteq> [] \<or> rc_external_started s \<longrightarrow> rc_external_started s')"
    if "x = NextAttempt"
    using publishes_next_attempt [OF p that] publishes_started [OF p]
    by (auto simp: flags_def filter_empty_conv neq_Nil_conv)
qed

lemma published_from_append:
  assumes "published_from ext2 out a" "\<forall>e\<in>set pre. is_started_event e" "length pre \<le> (if ext then 0 else 1)"
    and "pre \<noteq> [] \<or> ext \<Longrightarrow> ext2"
  shows "published_from ext (pre @ out) a"
proof -
  have "filter is_ordinary_event pre = []" "filter is_public_semantic_event pre = []" "filter is_started_event pre = pre"
    using assms(2) event_kinds_exclusive by (auto simp: filter_empty_conv)
  moreover have "\<forall>e\<in>set (butlast (pre @ out)). \<not> is_terminal_event e"
    using assms(1,2) event_kinds_exclusive(1) by (auto simp: published_from_def butlast_append dest: in_set_butlastD)
  moreover have "pre = [] \<or> length (filter is_started_event out) = 0"
    using assms(1,4) by (cases "pre = []") (auto simp: published_from_def)
  ultimately show ?thesis using assms by (auto simp: published_from_def split: if_splits)
qed

lemma run_attempts_streaming:
  "run_attempts env s = (out, ex, s') \<Longrightarrow> rc_visibility s \<noteq> BUFFERED
     \<Longrightarrow> \<exists>a. one_of_the_attempts env s a \<and> published_from (rc_external_started s) out a"
proof (induction env s arbitrary: out rule: run_attempts.induct)
  case (1 env s)
  obtain o1 x s1 where one: "one_attempt env s = (o1, x, s1)" by (cases "one_attempt env s") auto
  then have st: "streaming_attempt env (at_events (rc_current s)) [] (None, None) s = (o1, x, s1)"
    using "1.prems" by (simp add: one_attempt_def)
  note p = streaming_published_from [OF st refl]
  show ?case
  proof (cases "x = NextAttempt")
    case False
    then have "out = o1" using "1.prems" one by (cases x) (auto simp: run_attempts.simps [of env s])
    then show ?thesis using p(1) by (auto simp: one_of_the_attempts_def)
  next
    case True
    obtain o2 where o2: "run_attempts env s1 = (o2, ex, s')" "out = o1 @ o2"
      using "1.prems" one True by (auto simp: run_attempts.simps [of env s] split: prod.splits)
    have b: "rc_visibility s1 = rc_visibility s" "\<exists>k. env_factory env k = NewAttempt (rc_current s1)"
      using one_attempt_budget [OF one] True by (auto simp: stays_in_budget_def)
    obtain a where a: "one_of_the_attempts env s1 a" "published_from (rc_external_started s1) o2 a"
      using "1.IH" [OF one [symmetric] refl True o2(1)] b "1.prems" by auto
    have "filter is_started_event o1 = o1" using p(2) [OF True] by simp
    then have "published_from (rc_external_started s) (o1 @ o2) a"
      using p True by (intro published_from_append [OF a(2)]) (auto simp: published_from_def)
    then show ?thesis using a(1) b(2) o2(2) by (auto simp: one_of_the_attempts_def)
  qed
qed

text \<open>In buffered mode an attempt is published whole, or only its outcome is.\<close>

lemma buffered_attempt_output:
  assumes "buffered_attempt env s = (out, x, s')"
  shows "(x = NextAttempt \<longrightarrow> out = [])
    \<and> (out = [] \<or> out = at_events (rc_current s) \<or> (\<exists>e. is_terminal_event e \<and> out = [e]))"
proof -
  have "\<exists>es. publishes (flags v) [] (GenerationFailed rid err # es) out x (flags s')"
    if "failed_attempt env [] rid err m v = (out, x, s')" for rid err m v
    using failed_attempt_publishes [OF that] by blast
  moreover have "out = [] \<or> x = SessionOver \<and> (\<exists>e. is_terminal_event e \<and> out = [e])"
    if "publishes f [] (GenerationFailed rid err # es) out x f'" for f f' rid err es
    using that by (cases rule: publishes.cases) (auto simp: drain_staged_def)
  ultimately have f: "out = [] \<or> x = SessionOver \<and> (\<exists>e. is_terminal_event e \<and> out = [e])"
    if "failed_attempt env [] rid err m v = (out, x, s')" for rid err m v
    using that by blast
  have g: "x = SessionOver \<and> out = [e]" if "finished_attempt env [] e m v = (out, x, s')" for e m v
    using that by (auto simp: finished_attempt_def Let_def drain_staged_def)
  consider "at_raises (rc_current s) \<noteq> None" | "at_raises (rc_current s) = None" "at_events (rc_current s) = []"
    | "at_raises (rc_current s) = None" "at_events (rc_current s) \<noteq> []" by blast
  then show ?thesis
  proof cases
    case 3
    show ?thesis
    proof (cases "last (at_events (rc_current s))")
      case (GenerationFailed rid err)
      then show ?thesis using assms 3 f by (fastforce simp: buffered_attempt_def Let_def)
    next
      case (GenerationCancelled rid)
      then show ?thesis using assms 3 g by (fastforce simp: buffered_attempt_def Let_def)
    qed (use assms 3 in \<open>auto simp: buffered_attempt_def Let_def\<close>)
  qed (use assms in \<open>auto simp: buffered_attempt_def Let_def\<close>)
qed

lemma run_attempts_buffered:
  "run_attempts env s = (out, ex, s') \<Longrightarrow> rc_visibility s = BUFFERED
     \<Longrightarrow> out = [] \<or> (\<exists>e. is_terminal_event e \<and> out = [e]) \<or> (\<exists>a. one_of_the_attempts env s a \<and> out = at_events a)"
proof (induction env s arbitrary: out rule: run_attempts.induct)
  case (1 env s)
  obtain o1 x s1 where one: "one_attempt env s = (o1, x, s1)" by (cases "one_attempt env s") auto
  then have "buffered_attempt env s = (o1, x, s1)" using "1.prems" by (simp add: one_attempt_def)
  note p = buffered_attempt_output [OF this]
  show ?case
  proof (cases "x = NextAttempt")
    case False
    then have "out = o1" using "1.prems" one by (cases x) (auto simp: run_attempts.simps [of env s])
    then show ?thesis using p by (auto simp: one_of_the_attempts_def)
  next
    case True
    then have o2: "run_attempts env s1 = (out, ex, s')"
      using "1.prems" one p by (auto simp: run_attempts.simps [of env s] split: prod.splits)
    have b: "rc_visibility s1 = rc_visibility s" "\<exists>k. env_factory env k = NewAttempt (rc_current s1)"
      using one_attempt_budget [OF one] True by (auto simp: stays_in_budget_def)
    then show ?thesis
      using "1.IH" [OF one [symmetric] refl True o2] "1.prems" by (auto simp: one_of_the_attempts_def)
  qed
qed

section \<open>The lease and the budget\<close>

definition lease_ok :: "recovery_session \<Rightarrow> bool" where
  "lease_ok s \<longleftrightarrow> rc_releases s = (if rc_released s then 1 else 0) \<and> (rc_released s \<longrightarrow> \<not> rc_lease_active s)"

lemma lease_ok_basic:
  "lease_ok s \<Longrightarrow> lease_ok (release_once s)" "lease_ok s \<Longrightarrow> lease_ok (recovery_cancel s)"
  "lease_ok s \<Longrightarrow> lease_ok (await_point env s)"
  by (auto simp: lease_ok_def release_once_def recovery_cancel_def await_point_def Let_def)

lemma lease_ok_updates [simp]:
  "lease_ok (s\<lparr>rc_terminal := b\<rparr>) = lease_ok s" "lease_ok (s\<lparr>rc_recovered := b\<rparr>) = lease_ok s"
  "lease_ok (s\<lparr>rc_published := b\<rparr>) = lease_ok s" "lease_ok (s\<lparr>rc_external_started := b\<rparr>) = lease_ok s"
  "lease_ok (s\<lparr>rc_records := r\<rparr>) = lease_ok s" "lease_ok (s\<lparr>rc_skip := k\<rparr>) = lease_ok s"
  "lease_ok (s\<lparr>rc_decision := d\<rparr>) = lease_ok s" "lease_ok (s\<lparr>rc_last_kind := q\<rparr>) = lease_ok s"
  "lease_ok (s\<lparr>rc_runtime_state := d\<rparr>) = lease_ok s" "lease_ok (s\<lparr>rc_recoveries := i\<rparr>) = lease_ok s"
  "lease_ok (s\<lparr>rc_ordinal := i\<rparr>) = lease_ok s" "lease_ok (s\<lparr>rc_started := i\<rparr>) = lease_ok s"
  "lease_ok (s\<lparr>rc_current := a\<rparr>) = lease_ok s" "lease_ok (s\<lparr>rc_factory_calls := n\<rparr>) = lease_ok s"
  by (simp_all add: lease_ok_def)

lemma lease_ok_yields: "lease_ok s \<Longrightarrow> lease_ok (yields env es s)"
  by (induction es arbitrary: s) (auto intro: lease_ok_basic)

lemma lease_ok_small:
  "lease_ok s \<Longrightarrow> lease_ok (end_of_session s)" "lease_ok s \<Longrightarrow> lease_ok (mark_recovered e s)"
  "lease_ok s \<Longrightarrow> lease_ok (record_terminal_attempt e m d s)" "lease_ok s \<Longrightarrow> lease_ok (publish env dr e s)"
  "lease_ok s \<Longrightarrow> lease_ok (pull_all env es s)"
  by (auto simp: end_of_session_def mark_recovered_def record_terminal_attempt_def Let_def publish_def pull_all_def
      intro!: lease_ok_basic lease_ok_yields split: option.split)

lemmas lease_intros = lease_ok_basic lease_ok_yields lease_ok_small

lemma lease_ok_start_retry:
  assumes "lease_ok s" shows "lease_ok (snd (start_retry_or_failure env d rid s))"
proof -
  have w: "lease_ok v \<Longrightarrow> lease_ok (snd (wait_for_runtime env rid v))" for v
    by (auto simp: wait_for_runtime_def Let_def intro!: lease_intros split: runtime_readiness.split)
  have n: "lease_ok v \<Longrightarrow> lease_ok (snd (start_next_attempt env rid v))" for v
    by (auto simp: start_next_attempt_def Let_def intro!: lease_intros split: factory_result.split)
  show ?thesis
    using assms w [of "s\<lparr>rc_last_kind := rd_kind d, rc_decision := ''retry_planned''\<rparr>"]
    by (auto simp: start_retry_or_failure_def Let_def intro!: n split: prod.split option.split)
qed

lemma lease_ok_failed:
  assumes "lease_ok s" shows "lease_ok (snd (snd (failed_attempt env staged rid err m s)))"
proof -
  let ?d = "classify_attempt_recovery (recovery_evidence_of err s)"
  obtain r s2 where r: "start_retry_or_failure env ?d rid
      (record_terminal_attempt (GenerationFailed rid err) m (rd_kind ?d \<noteq> RECOVERY_NONE) s) = (r, s2)" by fastforce
  have "lease_ok s2" using lease_ok_start_retry [OF lease_ok_small(3) [OF assms], of env ?d rid] r by (metis snd_conv)
  then show ?thesis using r by (auto simp: failed_attempt_def Let_def intro!: lease_intros split: sum.split)
qed

lemma lease_ok_finished: "lease_ok s \<Longrightarrow> lease_ok (snd (snd (finished_attempt env staged e m s)))"
  by (auto simp: finished_attempt_def Let_def intro!: lease_intros)

lemma lease_ok_exhausted: "lease_ok s \<Longrightarrow> lease_ok (snd (snd (exhausted env s)))"
  by (auto simp: exhausted_def Let_def intro!: lease_intros split: option.split)

lemma snd_after_output [simp]: "snd (snd (after_output out r)) = snd (snd r)"
  by (cases r) (simp add: after_output_def)

lemma lease_ok_streaming: "lease_ok s \<Longrightarrow> lease_ok (snd (snd (streaming_attempt env evs staged m s)))"
proof (induction evs arbitrary: staged m s)
  case Nil
  then show ?case using lease_ok_exhausted [of s env] by (auto split: prod.split)
next
  case (Cons e es)
  then show ?case
    by (cases e) (auto simp: Let_def intro!: Cons.IH lease_intros lease_ok_failed lease_ok_finished)
qed

lemma lease_ok_buffered: "lease_ok s \<Longrightarrow> lease_ok (snd (snd (buffered_attempt env s)))"
  by (auto simp: buffered_attempt_def Let_def intro!: lease_intros lease_ok_failed lease_ok_finished
      split: option.split generation_event.split)

lemma lease_ok_unavailable_update: "lease_ok s \<Longrightarrow> lease_ok (unavailable_update e m s)"
  by (auto simp: unavailable_update_def Let_def intro!: lease_intros split: generation_event.split)

lemma lease_ok_unavailable: "lease_ok s \<Longrightarrow> lease_ok (snd (snd (run_unavailable env evs m s)))"
proof (induction evs arbitrary: m s)
  case (Cons e es)
  then show ?case by (auto simp: Let_def split_def intro!: Cons.IH lease_intros lease_ok_unavailable_update)
qed (simp add: lease_ok_exhausted)

lemma lease_ok_run_attempts: "lease_ok s \<Longrightarrow> lease_ok (snd (snd (run_attempts env s)))"
proof (induction env s rule: run_attempts.induct)
  case (1 env s)
  obtain o1 x s1 where one: "one_attempt env s = (o1, x, s1)" by (cases "one_attempt env s") auto
  then have "lease_ok s1" using "1.prems" lease_ok_buffered [of s env] lease_ok_streaming [of s env]
    by (metis one_attempt_def snd_conv)
  then show ?case using "1.IH" [OF one [symmetric] refl] one
    by (cases x) (auto simp: run_attempts.simps [of env s] split: prod.split)
qed

lemma unavailable_counts:
  "run_unavailable env evs m s = (out, ex, s') \<Longrightarrow> rc_ordinal s' = rc_ordinal s \<and> rc_started s' = rc_started s
     \<and> rc_recoveries s' = rc_recoveries s \<and> rc_max_extra s' = rc_max_extra s"
proof (induction evs arbitrary: m s out)
  case Nil
  then show ?case by (auto dest!: exhausted_frame simp: advanced_def)
next
  case (Cons e es)
  have u: "advanced 0 v ((unavailable_update e m' v)\<lparr>rc_published := rc_published v, rc_external_started := rc_external_started v\<rparr>)" for m' v
    by (auto simp: unavailable_update_def Let_def advanced_def split: generation_event.split)
  let ?m = "observe_attempt_measurements e m"
  obtain o2 where "run_unavailable env es ?m (await_point env (unavailable_update e ?m (await_point env s))) = (o2, ex, s')"
    using Cons.prems by (auto simp: Let_def split: prod.splits)
  from Cons.IH [OF this] u [of "await_point env s" ?m] show ?case by (simp add: advanced_def)
qed

lemma run_attempts_counts:
  "run_attempts env s = (out, ex, s') \<Longrightarrow> \<exists>n. 0 \<le> n \<and> n \<le> max 0 (rc_max_extra s + 1 - rc_ordinal s)
     \<and> rc_ordinal s' = rc_ordinal s + n \<and> rc_started s' = rc_started s + n \<and> rc_recoveries s' = rc_recoveries s + n"
proof (induction env s arbitrary: out rule: run_attempts.induct)
  case (1 env s)
  obtain o1 x s1 where one: "one_attempt env s = (o1, x, s1)" by (cases "one_attempt env s") auto
  obtain n1 where n1: "n1 = 0 \<or> n1 = 1 \<and> rc_ordinal s \<le> rc_max_extra s" "rc_ordinal s1 = rc_ordinal s + n1"
      "rc_started s1 = rc_started s + n1" "rc_recoveries s1 = rc_recoveries s + n1" "rc_max_extra s1 = rc_max_extra s"
      "x = NextAttempt \<longrightarrow> n1 = 1"
    using one_attempt_budget [OF one] by (auto simp: stays_in_budget_def)
  show ?case
  proof (cases "x = NextAttempt")
    case False
    then have "s' = s1" using "1.prems" one by (cases x) (auto simp: run_attempts.simps [of env s])
    then show ?thesis using n1 by (intro exI [of _ n1]) auto
  next
    case True
    obtain o2 where "run_attempts env s1 = (o2, ex, s')"
      using "1.prems" one True by (auto simp: run_attempts.simps [of env s] split: prod.splits)
    from "1.IH" [OF one [symmetric] refl True this] obtain n2 where
      "0 \<le> n2" "n2 \<le> max 0 (rc_max_extra s1 + 1 - rc_ordinal s1)" "rc_ordinal s' = rc_ordinal s1 + n2"
      "rc_started s' = rc_started s1 + n2" "rc_recoveries s' = rc_recoveries s1 + n2" by blast
    then show ?thesis using n1 True by (intro exI [of _ "1 + n2"]) auto
  qed
qed

section \<open>Properties\<close>

definition publication_of :: "visibility_mode \<Rightarrow> generation_event list \<Rightarrow> attempt \<Rightarrow> bool" where
  "publication_of mode out a \<longleftrightarrow> (if mode = BUFFERED
     then out = [] \<or> (\<exists>e. is_terminal_event e \<and> out = [e]) \<or> out = at_events a
     else published_from False out a)"


text \<open>C24. The budget and the lease: a session adds at most as many attempts as are left of its budget, the
  counters agree, recoveries stay within the configured number, and when the session is drained the lease
  has been released exactly once and is inactive, whatever the attempts, the factory and other tasks do.\<close>

theorem recovery_is_bounded_and_releases:
  assumes "new_recovery_session first mode max_extra seed sampling caps attachments st = Inr s"
    and "ss_recoveries st < ss_ordinal st" and "run_session env s = (out, ex, s')"
  shows "rc_recoveries s' \<le> max_extra \<and> rc_recoveries s' \<le> ss_recoveries st + 1
    \<and> rc_started s' - ss_started st = rc_recoveries s' - ss_recoveries st
    \<and> rc_ordinal s' - ss_ordinal st = rc_recoveries s' - ss_recoveries st
    \<and> rc_releases s' = 1 \<and> rc_released s' \<and> \<not> rc_lease_active s'"
proof -
  have s: "rc_ordinal s = ss_ordinal st" "rc_started s = ss_started st" "rc_recoveries s = ss_recoveries st"
      "rc_max_extra s = max_extra" "max_extra \<in> {0, 1}" "ss_recoveries st \<le> max_extra" "1 \<le> ss_ordinal st" "lease_ok s"
    using assms(1) by (auto simp: new_recovery_session_def raise_if_def lease_ok_def split: if_splits)
  obtain s1 where r: "(if recovery_unavailable s then run_unavailable env (at_events (rc_current s)) (None, None) s
      else run_attempts env s) = (out, ex, s1)" and s': "s' = release_once s1"
    using assms(3) by (auto simp: run_session_def Let_def split: prod.splits if_splits)
  have "\<exists>n. 0 \<le> n \<and> n \<le> max 0 (rc_max_extra s + 1 - rc_ordinal s) \<and> rc_ordinal s1 = rc_ordinal s + n
      \<and> rc_started s1 = rc_started s + n \<and> rc_recoveries s1 = rc_recoveries s + n"
    using r unavailable_counts run_attempts_counts by (cases "recovery_unavailable s") (fastforce split: if_splits)+
  moreover have "lease_ok s1"
    using r lease_ok_unavailable [OF s(8)] lease_ok_run_attempts [OF s(8)] by (metis snd_conv)
  then have "rc_releases s' = 1 \<and> rc_released s' \<and> \<not> rc_lease_active s'"
    by (auto simp: s' lease_ok_def release_once_def)
  ultimately show ?thesis using s s' assms(2) by auto
qed

section \<open>A run with one discarded attempt\<close>

definition ex_first :: attempt where
  "ex_first = \<lparr>at_events = [GenerationStarted ''r'', ToolCallStarted ''r'' ''c1'' ''f'' 0, ToolCallArgumentsDelta ''r'' ''c1'' ''{'' 0,
       GenerationFailed ''r'' \<lparr>err_category = MODEL_FAILURE, err_code = ''tool_call_incomplete'', err_message = ''m'',
         err_retryable = False, err_cause = Some OUTPUT_EOS\<rparr>],
     at_raises = None, at_usage = None, at_timing = None, at_guarantee = None\<rparr>"

definition ex_second :: attempt where
  "ex_second = \<lparr>at_events = [GenerationStarted ''r'', TextStarted ''r'', TextDelta ''r'' ''hi'', TextCompleted ''r'' ''hi'',
       GenerationCompleted ''r'' STOP None None],
     at_raises = None, at_usage = None, at_timing = None, at_guarantee = None\<rparr>"

definition ex_environment :: environment where
  "ex_environment = \<lparr>env_act = (\<lambda>_. \<lparr>i_cancel = False, i_lease_ends = False, i_unsafe = False\<rparr>),
     env_ready = (\<lambda>_. READY), env_factory = (\<lambda>_. NewAttempt ex_second)\<rparr>"

definition ex_capabilities :: runtime_capabilities where
  "ex_capabilities = \<lparr>cap_cancellation = True, cap_template_rendering = True, cap_tokenization = True, cap_seed = True,
     cap_cache_usage = True, cap_quantized_kv_cache = False, cap_vision = False, cap_generation_constraints = False,
     cap_structural_token_provenance = False, cap_fresh_attempt_replay = True, cap_recovery_readiness = True,
     cap_prompt_attachment_replay = False\<rparr>"

definition ex_start :: session_start where
  "ex_start = \<lparr>ss_ordinal = 1, ss_started = 1, ss_recoveries = 0, ss_records = []\<rparr>"

definition ex_session :: recovery_session where
  "ex_session = projr (new_recovery_session ex_first STREAMING 1 None None (Some ex_capabilities) False ex_start)"

lemma ex_session_new:
  "new_recovery_session ex_first STREAMING 1 None None (Some ex_capabilities) False ex_start = Inr ex_session"
  by (simp add: ex_session_def new_recovery_session_def raise_if_def ex_start_def)

lemma ex_session_available: "\<not> recovery_unavailable ex_session"
  by (simp add: ex_session_def new_recovery_session_def raise_if_def ex_start_def recovery_unavailable_def ex_capabilities_def)

lemma ex_run_output:
  "fst (run_session ex_environment ex_session) = [GenerationStarted ''r'', TextStarted ''r'', TextDelta ''r'' ''hi'',
     TextCompleted ''r'' ''hi'', GenerationCompleted ''r'' STOP None None]"
  by code_simp


lemma recovery_is_bounded_and_releases_witness:
  "rc_recoveries (snd (snd (run_session ex_environment ex_session))) \<le> 1
   \<and> rc_releases (snd (snd (run_session ex_environment ex_session))) = 1"
  using recovery_is_bounded_and_releases [OF ex_session_new, of ex_environment "fst (run_session ex_environment ex_session)"
      "fst (snd (run_session ex_environment ex_session))" "snd (snd (run_session ex_environment ex_session))"]
  by (simp add: ex_start_def)

end
