(* ===== verification/Control.thy ===== *)
theory Control
  imports Request_Limits
begin

text \<open>
  Admission and lifecycle of requests, \<open>src/exqserve/control/request.py\<close>: \<open>RequestController\<close>,
  \<open>RequestLease\<close> and \<open>ControlledSession\<close>.

  Leases and sessions are objects that several tasks share, so they live in two heaps of the
  controller's state and are named by their position there. The controller's lock is only held
  over code without an await; a section under the lock is therefore one step and never waits.
  The awaits that suspend are those on the runtime (its \<open>cancel\<close>, its next event), on the deadline
  timer, and on the controller being drained. An operation is a function that runs up to its first
  such await and returns what is left to do, a list of \<open>code\<close>; \<open>step\<close> starts operations and resumes
  suspended ones in any order.
\<close>

section \<open>State\<close>

datatype lease_state = RESERVED | ACTIVE | RELEASED

record lease =
  ls_request :: string
  ls_state :: lease_state
  ls_session :: "nat option"
  ls_deadline :: "seconds option"
  ls_reason :: "terminal_reason option"
  ls_terminated :: bool
  ls_replay_safe :: bool

text \<open>\<open>cs_final\<close> is the \<open>final_release\<close> the controller binds into the release callback, \<open>cs_lease\<close> the lease
  the session was submitted under.\<close>

record controlled =
  cs_request :: string
  cs_injection_allowed :: bool
  cs_deadline :: "seconds option"
  cs_final :: bool
  cs_lease :: nat
  cs_released :: bool
  cs_cancel_called :: bool
  cs_iteration_terminal :: bool
  cs_reason :: "terminal_reason option"

text \<open>\<open>cn_cancels\<close> counts the calls of a runtime session's \<open>cancel\<close>, \<open>cn_cancel_failed\<close> holds the sessions whose
  call raised, \<open>cn_trims\<close> counts the idle trim tasks that were created.\<close>

record controller =
  cn_config :: control_config
  cn_in_flight :: int
  cn_closed :: bool
  cn_leases :: "string \<rightharpoonup> nat"
  cn_sessions :: "nat set"
  cn_by_request :: "string \<rightharpoonup> nat"
  cn_drained :: bool
  cn_lease_heap :: "lease list"
  cn_session_heap :: "controlled list"
  cn_clock :: seconds
  cn_cancels :: "nat \<Rightarrow> nat"
  cn_cancel_failed :: "nat set"
  cn_trims :: nat

definition new_controller :: "control_config \<Rightarrow> controller" where
  "new_controller c = \<lparr>cn_config = c, cn_in_flight = 0, cn_closed = False, cn_leases = Map.empty, cn_sessions = {},
     cn_by_request = Map.empty, cn_drained = True, cn_lease_heap = [], cn_session_heap = [], cn_clock = 0,
     cn_cancels = (\<lambda>_. 0), cn_cancel_failed = {}, cn_trims = 0\<rparr>"

abbreviation the_lease :: "controller \<Rightarrow> nat \<Rightarrow> lease" where
  "the_lease s l \<equiv> cn_lease_heap s ! l"

abbreviation the_session :: "controller \<Rightarrow> nat \<Rightarrow> controlled" where
  "the_session s i \<equiv> cn_session_heap s ! i"

definition modify_lease :: "nat \<Rightarrow> (lease \<Rightarrow> lease) \<Rightarrow> controller \<Rightarrow> controller" where
  "modify_lease l f s = s\<lparr>cn_lease_heap := (cn_lease_heap s)[l := f (the_lease s l)]\<rparr>"

definition modify_session :: "nat \<Rightarrow> (controlled \<Rightarrow> controlled) \<Rightarrow> controller \<Rightarrow> controller" where
  "modify_session i f s = s\<lparr>cn_session_heap := (cn_session_heap s)[i := f (the_session s i)]\<rparr>"

section \<open>Leases\<close>

text \<open>\<open>_release_lease_locked\<close>. Its last check raises when the count became negative; it is left out
  because the count is proved never to be negative.\<close>

definition unregister_session :: "nat \<Rightarrow> string \<Rightarrow> controller \<Rightarrow> controller" where
  "unregister_session i rid s = s\<lparr>cn_sessions := cn_sessions s - {i},
     cn_by_request := (if cn_by_request s rid = Some i then (cn_by_request s)(rid := None) else cn_by_request s)\<rparr>"

definition release_lease_locked :: "nat \<Rightarrow> controller \<Rightarrow> controller" where
  "release_lease_locked l s =
     (let rid = ls_request (the_lease s l) in
      if cn_leases s rid \<noteq> Some l then s
      else if ls_state (the_lease s l) = RELEASED then s
      else let s1 = (case ls_session (the_lease s l) of None \<Rightarrow> s | Some i \<Rightarrow> unregister_session i rid s);
               s2 = modify_lease l (\<lambda>v. v\<lparr>ls_session := None, ls_state := RELEASED, ls_terminated := True\<rparr>)
                 (s1\<lparr>cn_leases := (cn_leases s1)(rid := None)\<rparr>);
               n = cn_in_flight s2 - 1 in
           s2\<lparr>cn_in_flight := n, cn_drained := (cn_drained s2 \<or> n = 0),
              cn_trims := (if n = 0 then cn_trims s2 + 1 else cn_trims s2)\<rparr>)"

definition shutting_down :: control_exn where
  "shutting_down = rejection OVERLOADED ''server_shutting_down'' ''Server is shutting down.'' True"

definition deadline_from :: "controller \<Rightarrow> seconds option" where
  "deadline_from s = map_option (\<lambda>t. cn_clock s + t) (timeout_seconds (cn_config s))"

definition acquire :: "string \<Rightarrow> controller \<Rightarrow> nat outcome \<times> controller" where
  "acquire rid s =
     (if blank rid then (Inl (Raised (ValueError ''request_id must not be empty'')), s)
      else if cn_closed s then (Inl shutting_down, s)
      else if cn_leases s rid \<noteq> None then
        (Inl (rejection INVALID_REQUEST ''duplicate_request_id'' ''An active request already uses this request id.'' False), s)
      else if max_in_flight (cn_config s) \<le> cn_in_flight s then
        (Inl (rejection OVERLOADED ''server_overloaded'' ''Server is at capacity.'' True), s)
      else let l = length (cn_lease_heap s);
               v = \<lparr>ls_request = rid, ls_state = RESERVED, ls_session = None, ls_deadline = deadline_from s,
                    ls_reason = None, ls_terminated = False, ls_replay_safe = True\<rparr> in
        (Inr l, s\<lparr>cn_lease_heap := cn_lease_heap s @ [v], cn_leases := (cn_leases s)(rid \<mapsto> l),
           cn_in_flight := cn_in_flight s + 1, cn_drained := False\<rparr>))"

text \<open>\<open>_release_attempt\<close>, the callback of a session's \<open>_release_once\<close>.\<close>

definition release_attempt :: "nat \<Rightarrow> controller \<Rightarrow> controller" where
  "release_attempt i s =
     (let c = the_session s i; rid = cs_request c in
      case cn_leases s rid of
        None \<Rightarrow> s
      | Some l \<Rightarrow> if ls_session (the_lease s l) \<noteq> Some i then s
          else let s1 = modify_lease l (\<lambda>v. v\<lparr>ls_session := None\<rparr>) (unregister_session i rid s) in
               if cs_final c \<or> cn_closed s1 then release_lease_locked l s1 else s1)"

definition session_release_once :: "nat \<Rightarrow> controller \<Rightarrow> controller" where
  "session_release_once i s = (if cs_released (the_session s i) then s
     else release_attempt i (modify_session i (\<lambda>c. c\<lparr>cs_released := True\<rparr>) s))"

section \<open>Submission\<close>

text \<open>What the runtime does with a request: it returns a session, it is unavailable, or submitting it or
  wrapping the session raises (the flag says whether a runtime session exists by then).\<close>

datatype submission = Submitted | Unavailable canonical_error | SetupFails exn bool

definition request_timed_out :: control_exn where
  "request_timed_out = rejection RUNTIME_FAILURE ''request_timeout''
     ''Inference request exceeded its serving deadline.'' True"

definition first_reason :: "terminal_reason \<Rightarrow> terminal_reason option \<Rightarrow> terminal_reason option" where
  "first_reason r old = (case old of None \<Rightarrow> Some r | Some x \<Rightarrow> Some x)"

definition register_session :: "nat \<Rightarrow> runtime_request \<Rightarrow> bool \<Rightarrow> controller \<Rightarrow> nat outcome \<times> controller" where
  "register_session l r final s =
     (let i = length (cn_session_heap s);
          c = \<lparr>cs_request = rq_request_id r,
               cs_injection_allowed = (rq_output_json_schema r = None \<and> rq_generation_constraint r = None),
               cs_deadline = ls_deadline (the_lease s l), cs_final = final, cs_lease = l, cs_released = False,
               cs_cancel_called = False, cs_iteration_terminal = False, cs_reason = None\<rparr>;
          s1 = modify_lease l (\<lambda>v. v\<lparr>ls_state := ACTIVE, ls_session := Some i\<rparr>) s in
      (Inr i, s1\<lparr>cn_session_heap := cn_session_heap s1 @ [c], cn_sessions := insert i (cn_sessions s1),
         cn_by_request := (cn_by_request s1)(rq_request_id r \<mapsto> i)\<rparr>))"

definition submit_reserved ::
  "nat \<Rightarrow> runtime_request \<Rightarrow> bool \<Rightarrow> submission \<Rightarrow> controller \<Rightarrow> nat outcome \<times> controller" where
  "submit_reserved l r final runtime s =
     (case validate_limits (cn_config s) r of
        Some e \<Rightarrow> (Inl e, s)
      | None \<Rightarrow>
          if cn_closed s then (Inl shutting_down, s)
          else if cn_leases s (ls_request (the_lease s l)) \<noteq> Some l \<or> ls_state (the_lease s l) = RELEASED then
            (Inl (Raised (RuntimeError ''request lease is no longer active'')), s)
          else if ls_session (the_lease s l) \<noteq> None then
            (Inl (Raised (RuntimeError ''request lease already has an active attempt'')), s)
          else
            (let s1 = (if ls_deadline (the_lease s l) = None
                       then modify_lease l (\<lambda>v. v\<lparr>ls_deadline := deadline_from s\<rparr>) s else s) in
             case ls_deadline (the_lease s1 l) of
               Some d \<Rightarrow>
                 if d \<le> cn_clock s1
                 then (Inl request_timed_out,
                   modify_lease l (\<lambda>v. v\<lparr>ls_reason := first_reason RT_TIMEOUT (ls_reason v), ls_terminated := True\<rparr>) s1)
                 else (case runtime of
                     Submitted \<Rightarrow> register_session l r final s1
                   | Unavailable e \<Rightarrow> (Inl (RequestRejected e True), s1)
                   | SetupFails ex _ \<Rightarrow> (Inl (Raised ex), s1))
             | None \<Rightarrow> (case runtime of
                     Submitted \<Rightarrow> register_session l r final s1
                   | Unavailable e \<Rightarrow> (Inl (RequestRejected e True), s1)
                   | SetupFails ex _ \<Rightarrow> (Inl (Raised ex), s1))))"

text \<open>\<open>RequestLease.submit\<close> and \<open>submit_final\<close>\<close>

definition lease_submit ::
  "bool \<Rightarrow> nat \<Rightarrow> runtime_request \<Rightarrow> submission \<Rightarrow> controller \<Rightarrow> nat outcome \<times> controller" where
  "lease_submit final l r runtime s =
     (if rq_request_id r \<noteq> ls_request (the_lease s l)
      then (Inl (Raised (ValueError ''runtime request id must match the reserved request id'')), s)
      else submit_reserved l r final runtime s)"

section \<open>What is left to do after an await\<close>

text \<open>\<open>AwaitRuntimeCancel i\<close> is the await on the runtime's \<open>cancel\<close>, \<open>AwaitEvent i timed\<close> the await on its next event
  (with the deadline timer running when \<open>timed\<close>), \<open>ExceptNext i\<close> marks the end of the \<open>try\<close> of \<open>__anext__\<close>,
  \<open>FinallyRelease i\<close> a \<open>finally\<close> that releases the session, \<open>AwaitRollback\<close> the await on cancelling a runtime
  session that could not be wrapped.\<close>

datatype code =
    AwaitRuntimeCancel nat
  | ReleaseOnce nat
  | FinallyRelease nat
  | ReleaseLeaseEnd nat
  | AwaitEvent nat bool
  | ExceptNext nat
  | CancelSession nat terminal_reason
  | AwaitRollback
  | FinallyReleaseLease nat
  | AwaitDrained

type_synonym 'a started = "'a outcome \<times> controller \<times> code list"

definition cancel_runtime_once :: "nat \<Rightarrow> controller \<Rightarrow> controller \<times> code list" where
  "cancel_runtime_once i s = (if cs_cancel_called (the_session s i) then (s, [])
     else (modify_session i (\<lambda>c. c\<lparr>cs_cancel_called := True\<rparr>) (s\<lparr>cn_cancels := (cn_cancels s)(i := cn_cancels s i + 1)\<rparr>),
           [AwaitRuntimeCancel i]))"

definition set_reason :: "terminal_reason \<Rightarrow> nat \<Rightarrow> controller \<Rightarrow> controller" where
  "set_reason r i s = modify_session i (\<lambda>c. c\<lparr>cs_reason := first_reason r (cs_reason c)\<rparr>) s"

definition end_iteration :: "nat \<Rightarrow> controller \<Rightarrow> controller" where
  "end_iteration i s = modify_session i (\<lambda>c. c\<lparr>cs_iteration_terminal := True\<rparr>) s"

definition explicit_reasons :: "terminal_reason list" where
  "explicit_reasons = [CLIENT_CANCELLED, APPLICATION_CANCELLED, RT_TIMEOUT, SERVER_SHUTDOWN, MODEL_SWITCH]"

definition controlled_cancel :: "nat \<Rightarrow> terminal_reason \<Rightarrow> controller \<Rightarrow> unit started" where
  "controlled_cancel i r s =
     (if r \<notin> set explicit_reasons
      then (Inl (Raised (ValueError ''reason is not valid for explicit request cancellation'')), s, [])
      else if cs_iteration_terminal (the_session s i) \<or> cs_cancel_called (the_session s i) then (Inr (), s, [])
      else let (s1, wait) = cancel_runtime_once i (set_reason r i s) in (Inr (), s1, wait @ [ReleaseOnce i]))"

definition controlled_exit :: "nat \<Rightarrow> controller \<Rightarrow> unit started" where
  "controlled_exit i s = (if \<not> cs_iteration_terminal (the_session s i) \<and> \<not> cs_cancel_called (the_session s i)
     then controlled_cancel i CLIENT_CANCELLED s else (Inr (), s, []))"

text \<open>\<open>_release_lease\<close>\<close>

definition release_lease_end :: "nat \<Rightarrow> controller \<Rightarrow> controller" where
  "release_lease_end l s = (if cn_leases s (ls_request (the_lease s l)) = Some l then release_lease_locked l s else s)"

definition release_lease :: "nat \<Rightarrow> controller \<Rightarrow> unit started" where
  "release_lease l s =
     (if cn_leases s (ls_request (the_lease s l)) \<noteq> Some l then (Inr (), s, [])
      else case ls_session (the_lease s l) of
        None \<Rightarrow> (Inr (), release_lease_end l s, [])
      | Some i \<Rightarrow> (let (r, s1, rest) = controlled_cancel i APPLICATION_CANCELLED s in (r, s1, rest @ [ReleaseLeaseEnd l])))"

text \<open>\<open>RequestController.submit\<close>: a request without preprocessing.\<close>

definition controller_submit :: "runtime_request \<Rightarrow> submission \<Rightarrow> controller \<Rightarrow> nat started" where
  "controller_submit r runtime s =
     (case acquire (rq_request_id r) s of
        (Inl e, s1) \<Rightarrow> (Inl e, s1, [])
      | (Inr l, s1) \<Rightarrow> (case submit_reserved l r True runtime s1 of
            (Inr i, s2) \<Rightarrow> (Inr i, s2, [])
          | (Inl e, s2) \<Rightarrow>
              (case runtime of
                 SetupFails ex True \<Rightarrow> (Inl e, s2, [AwaitRollback, FinallyReleaseLease l])
               | _ \<Rightarrow> (let (_, s3, rest) = release_lease l s2 in (Inl e, s3, rest)))))"

section \<open>Iterating over a session\<close>

text \<open>\<open>__anext__\<close> with \<open>_next_with_deadline\<close>, up to its first await\<close>

definition deadline_passed :: "nat \<Rightarrow> controller \<Rightarrow> controller \<times> code list" where
  "deadline_passed i s = (let (s1, wait) = cancel_runtime_once i (set_reason RT_TIMEOUT i s) in
     (s1, wait @ [ReleaseOnce i, AwaitEvent i False]))"

definition controlled_next :: "nat \<Rightarrow> controller \<Rightarrow> unit started" where
  "controlled_next i s =
     (let c = the_session s i in
      if cs_iteration_terminal c then (Inl (Raised StopAsyncIteration), s, [])
      else case cs_deadline c of
        None \<Rightarrow> (Inr (), s, [AwaitEvent i False, ExceptNext i])
      | Some d \<Rightarrow>
          if cs_cancel_called c then (Inr (), s, [AwaitEvent i False, ExceptNext i])
          else if d - cn_clock s \<le> 0 then (let (s1, rest) = deadline_passed i s in (Inr (), s1, rest @ [ExceptNext i]))
          else (Inr (), s, [AwaitEvent i True, ExceptNext i]))"

text \<open>An event of the runtime is handed out.\<close>

definition hand_out :: "nat \<Rightarrow> runtime_event \<Rightarrow> controller \<Rightarrow> controller" where
  "hand_out i e s = (case e of
       RuntimeFinished _ \<Rightarrow> session_release_once i (end_iteration i (set_reason RT_COMPLETED i s))
     | RuntimeFailed _ _ \<Rightarrow> session_release_once i (end_iteration i (set_reason RT_RUNTIME_FAILED i s))
     | RuntimeCancelled _ \<Rightarrow> session_release_once i (end_iteration i (set_reason RT_RUNTIME_CANCELLED i s))
     | _ \<Rightarrow> s)"

text \<open>The \<open>except\<close> clauses of \<open>__anext__\<close>\<close>

definition except_next :: "nat \<Rightarrow> exn \<Rightarrow> controller \<Rightarrow> controller \<times> code list" where
  "except_next i x s =
     (if x = CancelledError
      then let (s1, wait) = cancel_runtime_once i (end_iteration i (set_reason CLIENT_CANCELLED i s))
           in (s1, wait @ [FinallyRelease i])
      else (session_release_once i (end_iteration i s), []))"

text \<open>An exception travels through what is left to do.\<close>

fun unwind :: "exn \<Rightarrow> code list \<Rightarrow> controller \<Rightarrow> controller \<times> code list" where
  "unwind x [] s = (s, [])"
| "unwind x (ExceptNext i # rest) s = except_next i x s"
| "unwind x (FinallyRelease i # rest) s = unwind x rest (session_release_once i s)"
| "unwind x (FinallyReleaseLease l # rest) s = (case release_lease l s of (_, s1, todo) \<Rightarrow> (s1, todo))"
| "unwind x (_ # rest) s = unwind x rest s"

section \<open>Injection and shutdown\<close>

definition session_inject_text :: "nat \<Rightarrow> string \<Rightarrow> bool \<Rightarrow> controller \<Rightarrow> control_exn option" where
  "session_inject_text i txt accepted s =
     (let c = the_session s i in
      if txt = [] then Some (Raised (ValueError ''text must not be empty''))
      else if \<not> cs_injection_allowed c then Some RequestInjectionConflict
      else if cs_iteration_terminal c \<or> cs_cancel_called c \<or> cs_released c then Some RequestInjectionTerminating
      else if \<not> accepted then Some RequestInjectionTerminating else None)"

definition inject_text :: "string \<Rightarrow> string \<Rightarrow> bool \<Rightarrow> controller \<Rightarrow> unit outcome \<times> controller" where
  "inject_text rid txt accepted s =
     (if blank rid then (Inl (Raised (ValueError ''request_id must not be empty'')), s)
      else if txt = [] then (Inl (Raised (ValueError ''text must not be empty'')), s)
      else case cn_by_request s rid of
        None \<Rightarrow> (Inl (RequestInjectionNotFound rid), s)
      | Some i \<Rightarrow> (case session_inject_text i txt accepted s of
            Some e \<Rightarrow> (Inl e, s)
          | None \<Rightarrow> (Inr (), (case cn_leases s rid of
                None \<Rightarrow> s | Some l \<Rightarrow> modify_lease l (\<lambda>v. v\<lparr>ls_replay_safe := False\<rparr>) s))))"

text \<open>\<open>close\<close> marks every registered lease and has one task cancel each session.\<close>

definition mark_lease :: "terminal_reason \<Rightarrow> lease \<Rightarrow> lease" where
  "mark_lease r v = v\<lparr>ls_reason := first_reason r (ls_reason v), ls_terminated := True\<rparr>"

definition mark_registered :: "terminal_reason \<Rightarrow> controller \<Rightarrow> controller" where
  "mark_registered r s = s\<lparr>cn_lease_heap :=
     map (\<lambda>l. if cn_leases s (ls_request (the_lease s l)) = Some l then mark_lease r (the_lease s l) else the_lease s l)
       [0..<length (cn_lease_heap s)]\<rparr>"

definition controller_close :: "terminal_reason \<Rightarrow> controller \<Rightarrow> unit outcome \<times> controller \<times> code list list" where
  "controller_close r s =
     (if r \<notin> set [SERVER_SHUTDOWN, MODEL_SWITCH]
      then (Inl (Raised (ValueError ''controller close reason must be server shutdown or model switch'')), s, [])
      else if cn_closed s \<and> cn_in_flight s = 0 then (Inr (), s, [])
      else (Inr (), mark_registered r (s\<lparr>cn_closed := True\<rparr>),
        [AwaitDrained] # map (\<lambda>i. [CancelSession i r]) (filter (\<lambda>i. i \<in> cn_sessions s) [0..<length (cn_session_heap s)])))"

section \<open>Steps\<close>

text \<open>What an await yields: it returns, it raises, an event arrives, or the deadline timer fires first.\<close>

datatype input = Returns | Raises exn | Arrives runtime_event | TimerFires

fun resume :: "code \<Rightarrow> input \<Rightarrow> code list \<Rightarrow> controller \<Rightarrow> (controller \<times> code list) option" where
  "resume (AwaitRuntimeCancel i) Returns rest s = Some (s, rest)"
| "resume (AwaitRuntimeCancel i) (Raises x) rest s =
     Some (unwind x rest (s\<lparr>cn_cancel_failed := insert i (cn_cancel_failed s)\<rparr>))"
| "resume (ReleaseOnce i) Returns rest s = Some (session_release_once i s, rest)"
| "resume (FinallyRelease i) Returns rest s = Some (session_release_once i s, rest)"
| "resume (ReleaseLeaseEnd l) Returns rest s = Some (release_lease_end l s, rest)"
| "resume (AwaitEvent i timed) (Arrives e) rest s = Some (hand_out i e s, rest)"
| "resume (AwaitEvent i timed) (Raises x) rest s = Some (unwind x rest s)"
| "resume (AwaitEvent i True) TimerFires rest s = (case deadline_passed i s of (s1, todo) \<Rightarrow> Some (s1, todo @ rest))"
| "resume (ExceptNext i) Returns rest s = Some (s, rest)"
| "resume (CancelSession i r) Returns rest s = (case controlled_cancel i r s of
     (Inr _, s1, todo) \<Rightarrow> Some (s1, todo @ rest) | (Inl _, s1, _) \<Rightarrow> Some (s1, []))"
| "resume AwaitRollback Returns rest s = Some (s, rest)"
| "resume AwaitRollback (Raises CancelledError) rest s = Some (unwind CancelledError rest s)"
| "resume (FinallyReleaseLease l) Returns rest s = (case release_lease l s of (_, s1, todo) \<Rightarrow> Some (s1, todo @ rest))"
| "resume AwaitDrained Returns rest s = (if cn_drained s then Some (s, rest) else None)"
| "resume AwaitDrained (Raises CancelledError) rest s = Some (unwind CancelledError rest s)"
| "resume _ _ _ _ = None"

type_synonym world = "controller \<times> code list list"

inductive step :: "world \<Rightarrow> world \<Rightarrow> bool" where
  time_passes: "0 \<le> d \<Longrightarrow> step (s, ts) (s\<lparr>cn_clock := cn_clock s + d\<rparr>, ts)"
| acquires: "step (s, ts) (snd (acquire rid s), ts)"
| submits: "l < length (cn_lease_heap s) \<Longrightarrow> step (s, ts) (snd (lease_submit final l r runtime s), ts)"
| submits_alone: "controller_submit r runtime s = (out, s1, todo) \<Longrightarrow> step (s, ts) (s1, todo # ts)"
| releases: "l < length (cn_lease_heap s) \<Longrightarrow> release_lease l s = (out, s1, todo) \<Longrightarrow> step (s, ts) (s1, todo # ts)"
| cancels: "i < length (cn_session_heap s) \<Longrightarrow> controlled_cancel i r s = (out, s1, todo) \<Longrightarrow> step (s, ts) (s1, todo # ts)"
| exits: "i < length (cn_session_heap s) \<Longrightarrow> controlled_exit i s = (out, s1, todo) \<Longrightarrow> step (s, ts) (s1, todo # ts)"
| iterates: "i < length (cn_session_heap s) \<Longrightarrow> controlled_next i s = (out, s1, todo) \<Longrightarrow> step (s, ts) (s1, todo # ts)"
| injects: "step (s, ts) (snd (inject_text rid txt accepted s), ts)"
| closes: "controller_close r s = (out, s1, tasks) \<Longrightarrow> step (s, ts) (s1, tasks @ ts)"
| resumes: "resume c input rest s = Some (s1, todo) \<Longrightarrow> step (s, pre @ (c # rest) # post) (s1, pre @ todo # post)"

inductive_cases stepE: "step (s, ts) (s', ts')"

definition reachable :: "control_config \<Rightarrow> controller \<Rightarrow> code list list \<Rightarrow> bool" where
  "reachable c s ts \<longleftrightarrow> step\<^sup>*\<^sup>* (new_controller c, []) (s, ts)"

end
