(* ===== verification/Control_Invariant.thy ===== *)
theory Control_Invariant
  imports Control
begin

text \<open>
  The invariant of the request controller and that every step of \<^theory_text>\<open>Control\<close> keeps it: leases and the index
  of them by request id agree, the in-flight count is their number and within the configured maximum,
  the registered sessions are the attempts of the leases, and the calls of the runtime's cancel are
  counted right.
\<close>

section \<open>The invariant\<close>

definition leases_ok :: "controller \<Rightarrow> bool" where
  "leases_ok s \<longleftrightarrow>
     (\<forall>id l. cn_leases s id = Some l \<longrightarrow> l < length (cn_lease_heap s) \<and> ls_request (the_lease s l) = id
        \<and> ls_state (the_lease s l) \<noteq> RELEASED)
   \<and> (\<forall>l < length (cn_lease_heap s). ls_state (the_lease s l) \<noteq> RELEASED \<longrightarrow> cn_leases s (ls_request (the_lease s l)) = Some l)
   \<and> (\<forall>l < length (cn_lease_heap s). ls_state (the_lease s l) = RELEASED \<longrightarrow> ls_session (the_lease s l) = None)"

definition count_ok :: "controller \<Rightarrow> bool" where
  "count_ok s \<longleftrightarrow> finite (dom (cn_leases s)) \<and> cn_in_flight s = int (card (dom (cn_leases s)))
     \<and> (cn_drained s \<longleftrightarrow> cn_in_flight s = 0) \<and> cn_in_flight s \<le> max 0 (max_in_flight (cn_config s))"

definition attempts_ok :: "controller \<Rightarrow> bool" where
  "attempts_ok s \<longleftrightarrow>
     (\<forall>l < length (cn_lease_heap s). \<forall>i. ls_session (the_lease s l) = Some i \<longrightarrow>
        i < length (cn_session_heap s) \<and> cs_lease (the_session s i) = l \<and> \<not> cs_released (the_session s i)
        \<and> i \<in> cn_sessions s \<and> cn_by_request s (ls_request (the_lease s l)) = Some i)
   \<and> (\<forall>i\<in>cn_sessions s. i < length (cn_session_heap s) \<and> ls_session (the_lease s (cs_lease (the_session s i))) = Some i)
   \<and> (\<forall>id i. cn_by_request s id = Some i \<longrightarrow> i \<in> cn_sessions s \<and> cs_request (the_session s i) = id)
   \<and> (\<forall>i < length (cn_session_heap s). cs_lease (the_session s i) < length (cn_lease_heap s)
        \<and> ls_request (the_lease s (cs_lease (the_session s i))) = cs_request (the_session s i))
   \<and> (\<forall>i < length (cn_session_heap s). cs_final (the_session s i) \<and> i \<notin> cn_sessions s
        \<longrightarrow> ls_state (the_lease s (cs_lease (the_session s i))) = RELEASED)"

definition cancels_ok :: "controller \<Rightarrow> bool" where
  "cancels_ok s \<longleftrightarrow> (\<forall>i. cn_cancels s i = (if i < length (cn_session_heap s) \<and> cs_cancel_called (the_session s i) then 1 else 0))"

definition control_ok :: "controller \<Rightarrow> bool" where
  "control_ok s \<longleftrightarrow> leases_ok s \<and> count_ok s \<and> attempts_ok s \<and> cancels_ok s"

lemma new_controller_ok: "control_ok (new_controller c)"
  by (simp add: control_ok_def leases_ok_def count_ok_def attempts_ok_def cancels_ok_def new_controller_def)

lemma modify_lease_simps [simp]:
  "length (cn_lease_heap (modify_lease l f s)) = length (cn_lease_heap s)"
  "cn_session_heap (modify_lease l f s) = cn_session_heap s" "cn_leases (modify_lease l f s) = cn_leases s"
  "cn_sessions (modify_lease l f s) = cn_sessions s" "cn_by_request (modify_lease l f s) = cn_by_request s"
  "cn_in_flight (modify_lease l f s) = cn_in_flight s" "cn_drained (modify_lease l f s) = cn_drained s"
  "cn_cancels (modify_lease l f s) = cn_cancels s" "cn_closed (modify_lease l f s) = cn_closed s"
  "cn_config (modify_lease l f s) = cn_config s" "cn_clock (modify_lease l f s) = cn_clock s"
  "cn_trims (modify_lease l f s) = cn_trims s" "cn_cancel_failed (modify_lease l f s) = cn_cancel_failed s"
  "k < length (cn_lease_heap s) \<Longrightarrow> the_lease (modify_lease l f s) k = (if k = l then f (the_lease s k) else the_lease s k)"
  by (auto simp: modify_lease_def)

lemma modify_session_simps [simp]:
  "length (cn_session_heap (modify_session i g s)) = length (cn_session_heap s)"
  "cn_lease_heap (modify_session i g s) = cn_lease_heap s" "cn_leases (modify_session i g s) = cn_leases s"
  "cn_sessions (modify_session i g s) = cn_sessions s" "cn_by_request (modify_session i g s) = cn_by_request s"
  "cn_in_flight (modify_session i g s) = cn_in_flight s" "cn_drained (modify_session i g s) = cn_drained s"
  "cn_cancels (modify_session i g s) = cn_cancels s" "cn_closed (modify_session i g s) = cn_closed s"
  "cn_config (modify_session i g s) = cn_config s" "cn_clock (modify_session i g s) = cn_clock s"
  "cn_trims (modify_session i g s) = cn_trims s" "cn_cancel_failed (modify_session i g s) = cn_cancel_failed s"
  "j < length (cn_session_heap s) \<Longrightarrow> the_session (modify_session i g s) j = (if j = i then g (the_session s j) else the_session s j)"
  by (auto simp: modify_session_def)

lemma attempt_of_lease:
  assumes "attempts_ok s" "l < length (cn_lease_heap s)" "ls_session (the_lease s l) = Some i"
  shows "i < length (cn_session_heap s)" "cs_lease (the_session s i) = l" "\<not> cs_released (the_session s i)"
    "i \<in> cn_sessions s" "cn_by_request s (ls_request (the_lease s l)) = Some i"
  using assms unfolding attempts_ok_def by blast+

lemma registered_session:
  assumes "attempts_ok s" "i \<in> cn_sessions s"
  shows "i < length (cn_session_heap s)" "ls_session (the_lease s (cs_lease (the_session s i))) = Some i"
    "cs_lease (the_session s i) < length (cn_lease_heap s)"
  using assms unfolding attempts_ok_def by blast+

lemma session_by_request:
  assumes "attempts_ok s" "cn_by_request s rid = Some i"
  shows "i \<in> cn_sessions s" "cs_request (the_session s i) = rid"
  using assms unfolding attempts_ok_def by blast+

lemma lease_of_session:
  assumes "attempts_ok s" "i < length (cn_session_heap s)"
  shows "cs_lease (the_session s i) < length (cn_lease_heap s)"
    "ls_request (the_lease s (cs_lease (the_session s i))) = cs_request (the_session s i)"
    "cs_final (the_session s i) \<Longrightarrow> i \<notin> cn_sessions s \<Longrightarrow> ls_state (the_lease s (cs_lease (the_session s i))) = RELEASED"
  using assms unfolding attempts_ok_def by blast+

lemma registered_lease:
  assumes "leases_ok s" "cn_leases s rid = Some l"
  shows "l < length (cn_lease_heap s)" "ls_request (the_lease s l) = rid" "ls_state (the_lease s l) \<noteq> RELEASED"
  using assms unfolding leases_ok_def by blast+

lemma attached_lease:
  assumes "leases_ok s" "l < length (cn_lease_heap s)" "ls_session (the_lease s l) = Some i"
  shows "ls_state (the_lease s l) \<noteq> RELEASED" "cn_leases s (ls_request (the_lease s l)) = Some l"
proof -
  have "ls_state (the_lease s l) = RELEASED \<Longrightarrow> ls_session (the_lease s l) = None"
    using assms(1,2) unfolding leases_ok_def by blast
  then show st: "ls_state (the_lease s l) \<noteq> RELEASED" using assms(3) by fastforce
  then show "cn_leases s (ls_request (the_lease s l)) = Some l"
    using assms(1,2) unfolding leases_ok_def by blast
qed

text \<open>Changes outside the fields the invariant reads\<close>

lemma control_ok_cong:
  assumes "control_ok s"
    and "length (cn_lease_heap t) = length (cn_lease_heap s)" "length (cn_session_heap t) = length (cn_session_heap s)"
    and "\<And>l. l < length (cn_lease_heap s) \<Longrightarrow> ls_request (the_lease t l) = ls_request (the_lease s l)
        \<and> ls_state (the_lease t l) = ls_state (the_lease s l) \<and> ls_session (the_lease t l) = ls_session (the_lease s l)"
    and "\<And>i. i < length (cn_session_heap s) \<Longrightarrow> cs_request (the_session t i) = cs_request (the_session s i)
        \<and> cs_lease (the_session t i) = cs_lease (the_session s i) \<and> cs_final (the_session t i) = cs_final (the_session s i)
        \<and> cs_released (the_session t i) = cs_released (the_session s i)"
    and "cn_leases t = cn_leases s" "cn_sessions t = cn_sessions s" "cn_by_request t = cn_by_request s"
    and "cn_in_flight t = cn_in_flight s" "cn_drained t = cn_drained s" "cancels_ok t" "cn_config t = cn_config s"
  shows "control_ok t"
proof -
  have s: "leases_ok s" "count_ok s" "attempts_ok s" using assms(1) by (simp_all add: control_ok_def)
  have "leases_ok t" using s(1) assms(2-) unfolding leases_ok_def by (simp; blast)
  moreover have "count_ok t" using s(2) assms(2-) by (simp add: count_ok_def)
  moreover have "attempts_ok t" using s(3) assms(2-) unfolding attempts_ok_def by (simp; metis)
  ultimately show ?thesis using assms(11) by (simp add: control_ok_def)
qed

lemma control_ok_cancels: "control_ok s \<Longrightarrow> cancels_ok s"
  by (simp add: control_ok_def)

lemma modify_lease_ok:
  assumes "control_ok s" "\<And>v. ls_request (f v) = ls_request v \<and> ls_state (f v) = ls_state v \<and> ls_session (f v) = ls_session v"
  shows "control_ok (modify_lease l f s)"
  using assms control_ok_cancels [OF assms(1)] by (intro control_ok_cong [OF assms(1)]) (auto simp: cancels_ok_def)

lemma modify_session_ok:
  assumes "control_ok s" "\<And>v. cs_request (g v) = cs_request v \<and> cs_lease (g v) = cs_lease v \<and> cs_final (g v) = cs_final v
      \<and> cs_released (g v) = cs_released v \<and> cs_cancel_called (g v) = cs_cancel_called v"
  shows "control_ok (modify_session i g s)"
  using assms control_ok_cancels [OF assms(1)] by (intro control_ok_cong [OF assms(1)]) (auto simp: cancels_ok_def)

lemma set_reason_ok: "control_ok s \<Longrightarrow> control_ok (set_reason r i s)"
  unfolding set_reason_def by (rule modify_session_ok) auto

lemma end_iteration_ok: "control_ok s \<Longrightarrow> control_ok (end_iteration i s)"
  unfolding end_iteration_def by (rule modify_session_ok) auto

lemma session_heap_length [simp]:
  "length (cn_session_heap (set_reason r i s)) = length (cn_session_heap s)"
  "length (cn_session_heap (end_iteration i s)) = length (cn_session_heap s)"
  by (simp_all add: set_reason_def end_iteration_def)

lemma cancel_runtime_once_ok:
  assumes "control_ok s" "i < length (cn_session_heap s)"
  shows "control_ok (fst (cancel_runtime_once i s))"
  using control_ok_cancels [OF assms(1)] assms
  by (auto simp: cancel_runtime_once_def cancels_ok_def intro!: control_ok_cong [OF assms(1)] split: if_splits)

lemma other_fields_ok:
  "control_ok (s\<lparr>cn_clock := d\<rparr>) = control_ok s" "control_ok (s\<lparr>cn_closed := b\<rparr>) = control_ok s"
  "control_ok (s\<lparr>cn_cancel_failed := F\<rparr>) = control_ok s"
  by (simp_all add: control_ok_def leases_ok_def count_ok_def attempts_ok_def cancels_ok_def)

text \<open>Releasing a lease\<close>

lemma unregister_session_simps [simp]:
  "cn_lease_heap (unregister_session i rid s) = cn_lease_heap s" "cn_session_heap (unregister_session i rid s) = cn_session_heap s"
  "cn_leases (unregister_session i rid s) = cn_leases s" "cn_in_flight (unregister_session i rid s) = cn_in_flight s"
  "cn_drained (unregister_session i rid s) = cn_drained s" "cn_cancels (unregister_session i rid s) = cn_cancels s"
  "cn_closed (unregister_session i rid s) = cn_closed s" "cn_config (unregister_session i rid s) = cn_config s"
  "cn_sessions (unregister_session i rid s) = cn_sessions s - {i}"
  by (simp_all add: unregister_session_def)

lemma detach_ok:
  assumes ok: "control_ok s" and l: "l < length (cn_lease_heap s)" and i: "ls_session (the_lease s l) = Some i"
    and nf: "\<not> cs_final (the_session s i)"
  shows "control_ok (modify_lease l (\<lambda>v. v\<lparr>ls_session := None\<rparr>) (unregister_session i (ls_request (the_lease s l)) s))"
    (is "control_ok ?t")
proof -
  have s: "leases_ok s" "count_ok s" "attempts_ok s" "cancels_ok s" using ok by (simp_all add: control_ok_def)
  have a: "i < length (cn_session_heap s)" "cs_lease (the_session s i) = l" "i \<in> cn_sessions s"
      "cn_by_request s (ls_request (the_lease s l)) = Some i"
    using s(3) l i by (auto simp: attempts_ok_def)
  have "leases_ok ?t" using s(1) l by (auto simp: leases_ok_def)
  moreover have "count_ok ?t" using s(2) by (simp add: count_ok_def)
  moreover have "cancels_ok ?t" using s(4) by (simp add: cancels_ok_def)
  moreover have "attempts_ok ?t"
    unfolding attempts_ok_def
  proof (intro conjI allI impI ballI)
    fix k j assume "k < length (cn_lease_heap ?t)" "ls_session (the_lease ?t k) = Some j"
    then have k: "k < length (cn_lease_heap s)" "k \<noteq> l" "ls_session (the_lease s k) = Some j"
      using l by (auto split: if_splits)
    note j = attempt_of_lease [OF s(3) k(1,3)]
    have "j \<noteq> i" using j(2) a(2) k(2) by auto
    then show "j < length (cn_session_heap ?t)" "cs_lease (the_session ?t j) = k"
      "\<not> cs_released (the_session ?t j)" "j \<in> cn_sessions ?t" "cn_by_request ?t (ls_request (the_lease ?t k)) = Some j"
      using j k by (auto simp: unregister_session_def)
  next
    fix j assume j: "j \<in> cn_sessions ?t"
    then have "j \<in> cn_sessions s" "j \<noteq> i" by auto
    then have j': "j < length (cn_session_heap s)" "ls_session (the_lease s (cs_lease (the_session s j))) = Some j"
      "cs_lease (the_session s j) < length (cn_lease_heap s)" using registered_session [OF s(3)] by auto
    then have "cs_lease (the_session s j) \<noteq> l" using i \<open>j \<noteq> i\<close> by auto
    then show "j < length (cn_session_heap ?t)" "ls_session (the_lease ?t (cs_lease (the_session ?t j))) = Some j"
      using j' by auto
  next
    fix id j assume b: "cn_by_request ?t id = Some j"
    then have "cn_by_request s id = Some j" by (auto simp: unregister_session_def split: if_splits)
    moreover have "j \<noteq> i"
    proof
      assume "j = i"
      with calculation a(4) session_by_request(2) [OF s(3)] have "id = ls_request (the_lease s l)" by metis
      with b a(4) show False by (auto simp: unregister_session_def)
    qed
    ultimately have "cn_by_request s id = Some j" "j \<noteq> i" by auto
    then show "j \<in> cn_sessions ?t" "cs_request (the_session ?t j) = id" using session_by_request [OF s(3)] by auto
  next
    fix j assume "j < length (cn_session_heap ?t)"
    then show "cs_lease (the_session ?t j) < length (cn_lease_heap ?t)"
      "ls_request (the_lease ?t (cs_lease (the_session ?t j))) = cs_request (the_session ?t j)"
      using lease_of_session [OF s(3)] by auto
  next
    fix j assume "j < length (cn_session_heap ?t)" "cs_final (the_session ?t j) \<and> j \<notin> cn_sessions ?t"
    then show "ls_state (the_lease ?t (cs_lease (the_session ?t j))) = RELEASED"
      using lease_of_session [OF s(3)] nf by auto
  qed
  ultimately show ?thesis by (simp add: control_ok_def)
qed

text \<open>Releasing a registered lease, together with its attempt if it has one\<close>

lemma release_lease_locked_ok:
  assumes ok: "control_ok s" and l: "l < length (cn_lease_heap s)"
  shows "control_ok (release_lease_locked l s)"
proof (cases "cn_leases s (ls_request (the_lease s l)) = Some l \<and> ls_state (the_lease s l) \<noteq> RELEASED")
  case False
  then show ?thesis using ok by (auto simp: release_lease_locked_def Let_def)
next
  case True
  let ?rid = "ls_request (the_lease s l)"
  let ?t = "release_lease_locked l s"
  have s: "leases_ok s" "count_ok s" "attempts_ok s" "cancels_ok s" using ok by (simp_all add: control_ok_def)
  have sess: "cn_session_heap ?t = cn_session_heap s" "cn_cancels ?t = cn_cancels s" "cn_config ?t = cn_config s"
    and len: "length (cn_lease_heap ?t) = length (cn_lease_heap s)"
    and leases: "cn_leases ?t = (cn_leases s)(?rid := None)"
    and flight: "cn_in_flight ?t = cn_in_flight s - 1" "cn_drained ?t = (cn_drained s \<or> cn_in_flight s - 1 = 0)"
    and regs: "cn_sessions ?t = cn_sessions s - set_option (ls_session (the_lease s l))"
    and lease: "\<And>k. k < length (cn_lease_heap s) \<Longrightarrow> the_lease ?t k = (if k = l
        then (the_lease s l)\<lparr>ls_session := None, ls_state := RELEASED, ls_terminated := True\<rparr> else the_lease s k)"
    using True l by (simp_all add: release_lease_locked_def Let_def split: option.split)
  have byreq: "cn_by_request ?t = (if ls_session (the_lease s l) = None then cn_by_request s else (cn_by_request s)(?rid := None))"
    using True l attempt_of_lease(5) [OF s(3) l]
    by (auto simp: release_lease_locked_def Let_def unregister_session_def split: option.split)
  have only: "\<And>k. k < length (cn_lease_heap s) \<Longrightarrow> k \<noteq> l \<Longrightarrow> ls_state (the_lease s k) \<noteq> RELEASED \<Longrightarrow> ls_request (the_lease s k) \<noteq> ?rid"
    using s(1) True unfolding leases_ok_def by (metis option.inject)
  have "leases_ok ?t"
    unfolding leases_ok_def
  proof (intro conjI allI impI)
    fix rid k assume "cn_leases ?t rid = Some k"
    then have k: "cn_leases s rid = Some k" "rid \<noteq> ?rid" by (auto simp: leases split: if_splits)
    note registered_lease [OF s(1) k(1)]
    moreover from this k(2) have "k \<noteq> l" by auto
    ultimately show "k < length (cn_lease_heap ?t)" "ls_request (the_lease ?t k) = rid" "ls_state (the_lease ?t k) \<noteq> RELEASED"
      by (simp_all add: lease len)
  next
    fix k assume "k < length (cn_lease_heap ?t)" "ls_state (the_lease ?t k) \<noteq> RELEASED"
    then show "cn_leases ?t (ls_request (the_lease ?t k)) = Some k"
      using only [of k] s(1) by (auto simp: lease len leases leases_ok_def split: if_splits)
  next
    fix k assume "k < length (cn_lease_heap ?t)" "ls_state (the_lease ?t k) = RELEASED"
    then show "ls_session (the_lease ?t k) = None"
      using s(1) by (auto simp: lease len leases_ok_def)
  qed
  moreover have "count_ok ?t"
  proof -
    have "?rid \<in> dom (cn_leases s)" "finite (dom (cn_leases s))" using True s(2) by (auto simp: count_ok_def)
    then have "int (card (dom (cn_leases s) - {?rid})) = int (card (dom (cn_leases s))) - 1"
      by (simp add: card_Diff_singleton) (metis One_nat_def Suc_leI card_gt_0_iff empty_iff of_nat_1 of_nat_diff)
    then show ?thesis using s(2) by (auto simp: count_ok_def leases flight sess)
  qed
  moreover have "cancels_ok ?t" using s(4) by (simp add: cancels_ok_def sess)
  moreover have "attempts_ok ?t"
    unfolding attempts_ok_def
  proof (intro conjI allI impI ballI)
    fix k j assume "k < length (cn_lease_heap ?t)" "ls_session (the_lease ?t k) = Some j"
    then have k: "k < length (cn_lease_heap s)" "k \<noteq> l" "ls_session (the_lease s k) = Some j"
      by (auto simp: lease len split: if_splits)
    note j = attempt_of_lease [OF s(3) k(1,3)]
    have "ls_session (the_lease s l) \<noteq> Some j" using j(2) k(2) attempt_of_lease(2) [OF s(3) l] by auto
    moreover note attached_lease(1) [OF s(1) k(1,3)]
    ultimately show "j < length (cn_session_heap ?t)" "cs_lease (the_session ?t j) = k"
      "\<not> cs_released (the_session ?t j)" "j \<in> cn_sessions ?t" "cn_by_request ?t (ls_request (the_lease ?t k)) = Some j"
      using j k only [OF k(1,2)] by (auto simp: sess regs byreq lease dest: set_mp)
  next
    fix j assume "j \<in> cn_sessions ?t"
    then have j: "j \<in> cn_sessions s" "ls_session (the_lease s l) \<noteq> Some j" by (auto simp: regs)
    then have "cs_lease (the_session s j) \<noteq> l" using registered_session [OF s(3) j(1)] by auto
    then show "j < length (cn_session_heap ?t)" "ls_session (the_lease ?t (cs_lease (the_session ?t j))) = Some j"
      using registered_session [OF s(3) j(1)] by (simp_all add: sess lease)
  next
    fix rid j assume b: "cn_by_request ?t rid = Some j"
    then have "cn_by_request s rid = Some j" by (auto simp: byreq split: if_splits)
    note j = session_by_request [OF s(3) this]
    have "ls_session (the_lease s l) \<noteq> Some j"
      using b j attempt_of_lease(1,2) [OF s(3) l, of j] lease_of_session(2) [OF s(3), of j] by (auto simp: byreq split: if_splits)
    then show "j \<in> cn_sessions ?t" "cs_request (the_session ?t j) = rid" using j by (auto simp: regs sess)
  next
    fix j assume "j < length (cn_session_heap ?t)"
    then show "cs_lease (the_session ?t j) < length (cn_lease_heap ?t)"
      "ls_request (the_lease ?t (cs_lease (the_session ?t j))) = cs_request (the_session ?t j)"
      using lease_of_session [OF s(3)] by (auto simp: sess len lease)
  next
    fix j assume "j < length (cn_session_heap ?t)" "cs_final (the_session ?t j) \<and> j \<notin> cn_sessions ?t"
    then show "ls_state (the_lease ?t (cs_lease (the_session ?t j))) = RELEASED"
      using lease_of_session [OF s(3), of j] attempt_of_lease(2) [OF s(3) l, of j] by (auto simp: sess regs lease)
  qed
  ultimately show ?thesis by (simp add: control_ok_def)
qed

lemma release_lease_end_ok: "control_ok s \<Longrightarrow> l < length (cn_lease_heap s) \<Longrightarrow> control_ok (release_lease_end l s)"
  by (simp add: release_lease_end_def release_lease_locked_ok)

lemma acquire_ok:
  assumes "control_ok s" shows "control_ok (snd (acquire rid s))"
proof (cases "\<exists>l. fst (acquire rid s) = Inr l")
  case False
  then have "snd (acquire rid s) = s" by (auto simp: acquire_def Let_def split: if_splits)
  then show ?thesis using assms by simp
next
  case True
  define t where "t = snd (acquire rid s)"
  have free: "cn_leases s rid = None" using True by (auto simp: acquire_def Let_def split: if_splits)
  define v where "v = \<lparr>ls_request = rid, ls_state = RESERVED, ls_session = None, ls_deadline = deadline_from s,
                    ls_reason = None, ls_terminated = False, ls_replay_safe = True\<rparr>"
  have tt: "cn_lease_heap t = cn_lease_heap s @ [v]" "cn_leases t = (cn_leases s)(rid \<mapsto> length (cn_lease_heap s))"
      "cn_in_flight t = cn_in_flight s + 1" "cn_drained t = False" "cn_session_heap t = cn_session_heap s"
      "cn_sessions t = cn_sessions s" "cn_by_request t = cn_by_request s" "cn_cancels t = cn_cancels s"
      "cn_config t = cn_config s" "cn_in_flight s < max_in_flight (cn_config s)"
    using True by (auto simp: t_def acquire_def Let_def v_def split: if_splits)
  have s: "leases_ok s" "count_ok s" "attempts_ok s" "cancels_ok s" using assms by (simp_all add: control_ok_def)
  have "leases_ok t"
    unfolding leases_ok_def
  proof (intro conjI allI impI)
    fix r k assume "cn_leases t r = Some k"
    then have r: "r = rid \<and> k = length (cn_lease_heap s) \<or> r \<noteq> rid \<and> cn_leases s r = Some k"
      unfolding tt(2) by (cases "r = rid") simp_all
    show "k < length (cn_lease_heap t)" "ls_request (the_lease t k) = r" "ls_state (the_lease t k) \<noteq> RELEASED"
      using r registered_lease [OF s(1), of r k] unfolding tt(1)
      by (cases "r = rid"; simp add: nth_append v_def)+
  next
    fix k assume k: "k < length (cn_lease_heap t)" "ls_state (the_lease t k) \<noteq> RELEASED"
    show "cn_leases t (ls_request (the_lease t k)) = Some k"
    proof (cases "k = length (cn_lease_heap s)")
      case True
      then show ?thesis by (simp add: tt v_def)
    next
      case False
      then have "cn_leases s (ls_request (the_lease s k)) = Some k"
        using k s(1) by (simp add: tt nth_append leases_ok_def)
      then show ?thesis using free False k by (auto simp: tt nth_append)
    qed
  next
    fix k assume "k < length (cn_lease_heap t)" "ls_state (the_lease t k) = RELEASED"
    then show "ls_session (the_lease t k) = None"
      using s(1) by (simp add: tt nth_append v_def leases_ok_def split: if_splits)
  qed
  moreover have "count_ok t"
  proof -
    have "card (dom (cn_leases t)) = Suc (card (dom (cn_leases s)))" "finite (dom (cn_leases t))"
      using s(2) free by (auto simp: count_ok_def tt(2) card_insert_if)
    then show ?thesis using s(2) tt(10) by (simp add: count_ok_def tt(3,4,9))
  qed
  moreover have "cancels_ok t" using s(4) by (simp add: cancels_ok_def tt)
  moreover have "attempts_ok t"
    unfolding attempts_ok_def
  proof (intro conjI allI impI ballI)
    fix k j assume "k < length (cn_lease_heap t)" "ls_session (the_lease t k) = Some j"
    then have k: "k < length (cn_lease_heap s)" "ls_session (the_lease s k) = Some j"
      by (auto simp: tt nth_append v_def less_Suc_eq)
    from attempt_of_lease [OF s(3) k] k(1)
    show "j < length (cn_session_heap t)" "cs_lease (the_session t j) = k" "\<not> cs_released (the_session t j)"
      "j \<in> cn_sessions t" "cn_by_request t (ls_request (the_lease t k)) = Some j"
      by (simp_all add: tt nth_append)
  next
    fix j assume "j \<in> cn_sessions t"
    with registered_session [OF s(3), of j]
    show "j < length (cn_session_heap t)" "ls_session (the_lease t (cs_lease (the_session t j))) = Some j"
      by (simp_all add: tt nth_append)
  next
    fix r j assume "cn_by_request t r = Some j"
    with session_by_request [OF s(3), of r j]
    show "j \<in> cn_sessions t" "cs_request (the_session t j) = r" by (simp_all add: tt)
  next
    fix j assume "j < length (cn_session_heap t)"
    with lease_of_session [OF s(3), of j]
    show "cs_lease (the_session t j) < length (cn_lease_heap t)"
      "ls_request (the_lease t (cs_lease (the_session t j))) = cs_request (the_session t j)"
      by (simp_all add: tt nth_append)
  next
    fix j assume "j < length (cn_session_heap t)" "cs_final (the_session t j) \<and> j \<notin> cn_sessions t"
    with lease_of_session [OF s(3), of j]
    show "ls_state (the_lease t (cs_lease (the_session t j))) = RELEASED" by (simp add: tt nth_append)
  qed
  ultimately show ?thesis by (simp add: control_ok_def flip: t_def)
qed

lemma release_detached:
  assumes "control_ok s" "l < length (cn_lease_heap s)" "ls_session (the_lease s l) = Some i"
    and "cn_leases s (ls_request (the_lease s l)) = Some l" "ls_state (the_lease s l) \<noteq> RELEASED"
  shows "release_lease_locked l
      (modify_lease l (\<lambda>v. v\<lparr>ls_session := None\<rparr>) (unregister_session i (ls_request (the_lease s l)) s))
    = release_lease_locked l s"
  using assms(2-) by (simp add: release_lease_locked_def Let_def modify_lease_def unregister_session_def)

lemma release_attempt_ok:
  assumes ok: "control_ok s" and i: "i < length (cn_session_heap s)"
  shows "control_ok (release_attempt i s) \<and> i \<notin> cn_sessions (release_attempt i s)
    \<and> cn_session_heap (release_attempt i s) = cn_session_heap s"
proof -
  have s: "leases_ok s" "attempts_ok s" using ok by (simp_all add: control_ok_def)
  let ?rid = "cs_request (the_session s i)"
  have out: "i \<notin> cn_sessions s" if "\<And>l. cn_leases s ?rid = Some l \<Longrightarrow> ls_session (the_lease s l) \<noteq> Some i"
  proof
    assume "i \<in> cn_sessions s"
    note r = registered_session [OF s(2) this]
    have "cn_leases s ?rid = Some (cs_lease (the_session s i))"
      using attached_lease(2) [OF s(1) r(3) r(2)] lease_of_session(2) [OF s(2) i] by simp
    then show False using that r(2) by blast
  qed
  show ?thesis
  proof (cases "\<exists>l. cn_leases s ?rid = Some l \<and> ls_session (the_lease s l) = Some i")
    case False
    then have "release_attempt i s = s" by (auto simp: release_attempt_def Let_def split: option.split)
    then show ?thesis using ok out False by auto
  next
    case True
    then obtain l where l: "cn_leases s ?rid = Some l" "ls_session (the_lease s l) = Some i" by blast
    have r: "l < length (cn_lease_heap s)" "ls_request (the_lease s l) = ?rid" "ls_state (the_lease s l) \<noteq> RELEASED"
      using registered_lease [OF s(1) l(1)] by auto
    let ?u = "modify_lease l (\<lambda>v. v\<lparr>ls_session := None\<rparr>) (unregister_session i ?rid s)"
    have e: "release_attempt i s = (if cs_final (the_session s i) \<or> cn_closed s then release_lease_locked l ?u else ?u)"
      using l by (simp add: release_attempt_def Let_def)
    have rel: "release_lease_locked l ?u = release_lease_locked l s"
      using release_detached [OF ok r(1) l(2) _ r(3)] r(2) l(1) by simp
    have "i \<notin> cn_sessions (release_lease_locked l s)" "cn_session_heap (release_lease_locked l s) = cn_session_heap s"
      using l r by (simp_all add: release_lease_locked_def Let_def)
    moreover have "control_ok (release_lease_locked l s)" using release_lease_locked_ok [OF ok r(1)] .
    moreover have "control_ok ?u" if "\<not> cs_final (the_session s i)"
      using detach_ok [OF ok r(1) l(2) that] r(2) by simp
    ultimately show ?thesis by (auto simp: e rel)
  qed
qed

lemma release_attempt_commutes:
  assumes "i < length (cn_session_heap s)"
  shows "release_attempt i (modify_session i (\<lambda>c. c\<lparr>cs_released := True\<rparr>) s)
    = modify_session i (\<lambda>c. c\<lparr>cs_released := True\<rparr>) (release_attempt i s)"
  using assms
  by (simp add: release_attempt_def release_lease_locked_def modify_session_def modify_lease_def unregister_session_def Let_def
      split: option.split)

lemma session_release_once_ok:
  assumes ok: "control_ok s" and i: "i < length (cn_session_heap s)"
  shows "control_ok (session_release_once i s)"
proof (cases "cs_released (the_session s i)")
  case True
  then show ?thesis using ok by (simp add: session_release_once_def)
next
  case False
  let ?s1 = "release_attempt i s"
  have s1: "control_ok ?s1" "i \<notin> cn_sessions ?s1" "cn_session_heap ?s1 = cn_session_heap s"
    using release_attempt_ok [OF ok i] by auto
  let ?t = "modify_session i (\<lambda>c. c\<lparr>cs_released := True\<rparr>) ?s1"
  have p: "leases_ok ?s1" "count_ok ?s1" "attempts_ok ?s1" "cancels_ok ?s1" using s1(1) by (simp_all add: control_ok_def)
  have il: "i < length (cn_session_heap ?s1)" using i s1(3) by simp
  have same: "j < length (cn_session_heap ?s1) \<Longrightarrow> cs_lease (the_session ?t j) = cs_lease (the_session ?s1 j)
      \<and> cs_request (the_session ?t j) = cs_request (the_session ?s1 j) \<and> cs_final (the_session ?t j) = cs_final (the_session ?s1 j)
      \<and> cs_cancel_called (the_session ?t j) = cs_cancel_called (the_session ?s1 j)" for j by simp
  have "leases_ok ?t" "count_ok ?t" "cancels_ok ?t" using p same by (simp_all add: leases_ok_def count_ok_def cancels_ok_def)
  moreover have "attempts_ok ?t"
    unfolding attempts_ok_def
  proof (intro conjI allI impI ballI)
    fix l j assume "l < length (cn_lease_heap ?t)" "ls_session (the_lease ?t l) = Some j"
    then have a: "l < length (cn_lease_heap ?s1)" "ls_session (the_lease ?s1 l) = Some j" by simp_all
    note b = attempt_of_lease [OF p(3) a]
    then have "j \<noteq> i" using s1(2) by auto
    then show "j < length (cn_session_heap ?t)" "cs_lease (the_session ?t j) = l" "\<not> cs_released (the_session ?t j)"
      "j \<in> cn_sessions ?t" "cn_by_request ?t (ls_request (the_lease ?t l)) = Some j"
      using b by simp_all
  next
    fix j assume "j \<in> cn_sessions ?t"
    then show "j < length (cn_session_heap ?t)" "ls_session (the_lease ?t (cs_lease (the_session ?t j))) = Some j"
      using registered_session [OF p(3), of j] same [of j] by simp_all
  next
    fix r j assume "cn_by_request ?t r = Some j"
    then have "cn_by_request ?s1 r = Some j" by simp
    note b = session_by_request [OF p(3) this]
    then show "j \<in> cn_sessions ?t" "cs_request (the_session ?t j) = r"
      using same [of j] registered_session(1) [OF p(3) b(1)] by simp_all
  next
    fix j assume "j < length (cn_session_heap ?t)"
    then show "cs_lease (the_session ?t j) < length (cn_lease_heap ?t)"
      "ls_request (the_lease ?t (cs_lease (the_session ?t j))) = cs_request (the_session ?t j)"
      using lease_of_session [OF p(3), of j] same [of j] by simp_all
  next
    fix j assume "j < length (cn_session_heap ?t)" "cs_final (the_session ?t j) \<and> j \<notin> cn_sessions ?t"
    then show "ls_state (the_lease ?t (cs_lease (the_session ?t j))) = RELEASED"
      using lease_of_session [OF p(3), of j] same [of j] by simp
  qed
  ultimately show ?thesis
    using False release_attempt_commutes [OF i] by (simp add: session_release_once_def control_ok_def)
qed

lemma register_session_ok:
  assumes ok: "control_ok s" and l: "l < length (cn_lease_heap s)"
    and reg: "cn_leases s (ls_request (the_lease s l)) = Some l" and none: "ls_session (the_lease s l) = None"
    and id: "rq_request_id r = ls_request (the_lease s l)"
  shows "control_ok (snd (register_session l r final s))"
proof -
  define t where "t = snd (register_session l r final s)"
  define n where "n = length (cn_session_heap s)"
  define c where "c = \<lparr>cs_request = rq_request_id r,
               cs_injection_allowed = (rq_output_json_schema r = None \<and> rq_generation_constraint r = None),
               cs_deadline = ls_deadline (the_lease s l), cs_final = final, cs_lease = l, cs_released = False,
               cs_cancel_called = False, cs_iteration_terminal = False, cs_reason = None\<rparr>"
  have s: "leases_ok s" "count_ok s" "attempts_ok s" "cancels_ok s" using ok by (simp_all add: control_ok_def)
  have st: "ls_state (the_lease s l) \<noteq> RELEASED" using registered_lease [OF s(1) reg] by simp
  have tt: "cn_session_heap t = cn_session_heap s @ [c]" "cn_sessions t = insert n (cn_sessions s)"
      "cn_by_request t = (cn_by_request s)(ls_request (the_lease s l) \<mapsto> n)" "cn_leases t = cn_leases s"
      "cn_in_flight t = cn_in_flight s" "cn_drained t = cn_drained s" "cn_cancels t = cn_cancels s"
      "length (cn_lease_heap t) = length (cn_lease_heap s)" "cn_config t = cn_config s"
    and lease: "\<And>k. k < length (cn_lease_heap s) \<Longrightarrow> the_lease t k = (if k = l
        then (the_lease s l)\<lparr>ls_state := ACTIVE, ls_session := Some n\<rparr> else the_lease s k)"
    using l id by (simp_all add: t_def register_session_def Let_def c_def n_def)
  have old: "j < n \<Longrightarrow> the_session t j = the_session s j" "the_session t n = c" for j
    by (simp_all add: tt nth_append n_def)
  have nin: "n \<notin> cn_sessions s" using registered_session(1) [OF s(3), of n] by (auto simp: n_def)
  have noreq: "cn_by_request s (ls_request (the_lease s l)) = None"
  proof (rule ccontr)
    assume "cn_by_request s (ls_request (the_lease s l)) \<noteq> None"
    then obtain j where j: "cn_by_request s (ls_request (the_lease s l)) = Some j" by blast
    note b = session_by_request [OF s(3) j]
    note r = registered_session [OF s(3) b(1)]
    have "cn_leases s (cs_request (the_session s j)) = Some (cs_lease (the_session s j))"
      using attached_lease(2) [OF s(1) r(3) r(2)] lease_of_session(2) [OF s(3) r(1)] by simp
    then show False using b(2) reg r(2) none by auto
  qed
  have "leases_ok t"
    unfolding leases_ok_def
  proof (intro conjI allI impI)
    fix q k assume "cn_leases t q = Some k"
    then have "cn_leases s q = Some k" by (simp add: tt)
    from registered_lease [OF s(1) this]
    show "k < length (cn_lease_heap t)" "ls_request (the_lease t k) = q" "ls_state (the_lease t k) \<noteq> RELEASED"
      by (auto simp: lease tt)
  next
    fix k assume k: "k < length (cn_lease_heap t)" "ls_state (the_lease t k) \<noteq> RELEASED"
    show "cn_leases t (ls_request (the_lease t k)) = Some k"
    proof (cases "k = l")
      case True
      then show ?thesis using reg l by (simp add: lease tt(4))
    next
      case False
      then have "cn_leases s (ls_request (the_lease s k)) = Some k"
        using k s(1) unfolding leases_ok_def by (simp add: tt(8) lease)
      then show ?thesis using False k by (simp add: lease tt(4,8))
    qed
  next
    fix k assume "k < length (cn_lease_heap t)" "ls_state (the_lease t k) = RELEASED"
    then show "ls_session (the_lease t k) = None"
      using s(1) by (cases "k = l") (simp_all add: tt lease leases_ok_def)
  qed
  moreover have "count_ok t" using s(2) by (simp add: count_ok_def tt)
  moreover have "cancels_ok t" using s(4) by (auto simp: cancels_ok_def tt nth_append c_def less_Suc_eq)
  moreover have "attempts_ok t"
    unfolding attempts_ok_def
  proof (intro conjI allI impI ballI)
    fix k j assume a: "k < length (cn_lease_heap t)" "ls_session (the_lease t k) = Some j"
    have "j < length (cn_session_heap t) \<and> cs_lease (the_session t j) = k \<and> \<not> cs_released (the_session t j)
        \<and> j \<in> cn_sessions t \<and> cn_by_request t (ls_request (the_lease t k)) = Some j"
    proof (cases "k = l")
      case True
      then have "j = n" using a by (simp add: tt lease)
      then show ?thesis
        using True l by (simp add: old lease) (simp add: tt c_def n_def)
    next
      case False
      then have k: "k < length (cn_lease_heap s)" "ls_session (the_lease s k) = Some j" using a by (simp_all add: tt lease)
      note b = attempt_of_lease [OF s(3) k]
      then have "ls_request (the_lease s k) \<noteq> ls_request (the_lease s l)" using noreq by auto
      then show ?thesis
        using b k False by (simp add: old n_def lease) (simp add: tt)
    qed
    then show "j < length (cn_session_heap t)" "cs_lease (the_session t j) = k" "\<not> cs_released (the_session t j)"
      "j \<in> cn_sessions t" "cn_by_request t (ls_request (the_lease t k)) = Some j" by auto
  next
    fix j assume "j \<in> cn_sessions t"
    then consider "j = n" | "j \<in> cn_sessions s" by (auto simp: tt)
    then have "j < length (cn_session_heap t) \<and> ls_session (the_lease t (cs_lease (the_session t j))) = Some j"
    proof cases
      case 1
      then show ?thesis using l by (simp add: old c_def lease) (simp add: tt n_def)
    next
      case 2
      note b = registered_session [OF s(3) 2]
      then have "cs_lease (the_session s j) \<noteq> l" using none by auto
      then show ?thesis using b by (simp add: old n_def lease) (simp add: tt)
    qed
    then show "j < length (cn_session_heap t)" "ls_session (the_lease t (cs_lease (the_session t j))) = Some j" by auto
  next
    fix q j assume b: "cn_by_request t q = Some j"
    have "j \<in> cn_sessions t \<and> cs_request (the_session t j) = q"
    proof (cases "q = ls_request (the_lease s l)")
      case True
      then have "j = n" using b by (simp add: tt)
      then show ?thesis using True id by (simp add: old c_def) (simp add: tt)
    next
      case False
      then have "cn_by_request s q = Some j" using b by (simp add: tt)
      note d = session_by_request [OF s(3) this]
      then show ?thesis using registered_session(1) [OF s(3) d(1)] by (simp add: old n_def) (simp add: tt)
    qed
    then show "j \<in> cn_sessions t" "cs_request (the_session t j) = q" by auto
  next
    fix j assume j: "j < length (cn_session_heap t)"
    have "cs_lease (the_session t j) < length (cn_lease_heap t)
      \<and> ls_request (the_lease t (cs_lease (the_session t j))) = cs_request (the_session t j)"
      using lease_of_session [OF s(3), of j] l id j
      by (cases "j = n") (simp_all add: old c_def lease tt(8), auto simp: tt nth_append n_def lease)
    then show "cs_lease (the_session t j) < length (cn_lease_heap t)"
      "ls_request (the_lease t (cs_lease (the_session t j))) = cs_request (the_session t j)" by auto
  next
    fix j assume j: "j < length (cn_session_heap t)" "cs_final (the_session t j) \<and> j \<notin> cn_sessions t"
    then have "j < n" "j \<notin> cn_sessions s" by (auto simp: tt n_def)
    then have "ls_state (the_lease s (cs_lease (the_session s j))) = RELEASED" "cs_lease (the_session s j) < length (cn_lease_heap s)"
      using lease_of_session [OF s(3), of j] j by (simp_all add: old n_def)
    then show "ls_state (the_lease t (cs_lease (the_session t j))) = RELEASED"
      using st \<open>j < n\<close> by (auto simp: old lease)
  qed
  ultimately show ?thesis by (simp add: control_ok_def t_def)
qed

section \<open>Every step keeps the invariant\<close>

text \<open>What is left to do only names sessions and leases that exist, and no step removes one.\<close>

fun code_ok :: "controller \<Rightarrow> code \<Rightarrow> bool" where
  "code_ok s (AwaitRuntimeCancel i) = (i < length (cn_session_heap s))"
| "code_ok s (ReleaseOnce i) = (i < length (cn_session_heap s))"
| "code_ok s (FinallyRelease i) = (i < length (cn_session_heap s))"
| "code_ok s (ReleaseLeaseEnd l) = (l < length (cn_lease_heap s))"
| "code_ok s (AwaitEvent i timed) = (i < length (cn_session_heap s))"
| "code_ok s (ExceptNext i) = (i < length (cn_session_heap s))"
| "code_ok s (CancelSession i r) = (i < length (cn_session_heap s))"
| "code_ok s AwaitRollback = True"
| "code_ok s (FinallyReleaseLease l) = (l < length (cn_lease_heap s))"
| "code_ok s AwaitDrained = True"

definition grows :: "controller \<Rightarrow> controller \<Rightarrow> bool" where
  "grows s t \<longleftrightarrow> length (cn_lease_heap s) \<le> length (cn_lease_heap t) \<and> length (cn_session_heap s) \<le> length (cn_session_heap t)
     \<and> cn_config t = cn_config s"

lemma grows_refl [simp]: "grows s s"
  by (simp add: grows_def)

lemma grows_trans: "grows s t \<Longrightarrow> grows t u \<Longrightarrow> grows s u"
  by (simp add: grows_def)

lemma code_ok_grows: "grows s t \<Longrightarrow> code_ok s c \<Longrightarrow> code_ok t c"
  by (cases c) (auto simp: grows_def)

text \<open>\<open>safe s r\<close>: an operation that started in \<open>s\<close> and led to \<open>r\<close> kept the invariant.\<close>

definition safe :: "controller \<Rightarrow> controller \<times> code list \<Rightarrow> bool" where
  "safe s r \<longleftrightarrow> control_ok (fst r) \<and> grows s (fst r) \<and> (\<forall>c\<in>set (snd r). code_ok (fst r) c)"

lemma release_lease_locked_sizes [simp]:
  "length (cn_lease_heap (release_lease_locked l s)) = length (cn_lease_heap s)"
  "length (cn_session_heap (release_lease_locked l s)) = length (cn_session_heap s)"
  "cn_config (release_lease_locked l s) = cn_config s"
  by (simp_all add: release_lease_locked_def Let_def split: option.split)

lemma session_release_once_sizes [simp]:
  "length (cn_lease_heap (session_release_once i s)) = length (cn_lease_heap s)"
  "length (cn_session_heap (session_release_once i s)) = length (cn_session_heap s)"
  "cn_config (session_release_once i s) = cn_config s"
  by (simp_all add: session_release_once_def release_attempt_def Let_def split: option.split)

lemma reason_sizes [simp]:
  "length (cn_lease_heap (set_reason r i s)) = length (cn_lease_heap s)" "cn_config (set_reason r i s) = cn_config s"
  "length (cn_lease_heap (end_iteration i s)) = length (cn_lease_heap s)" "cn_config (end_iteration i s) = cn_config s"
  by (simp_all add: set_reason_def end_iteration_def)

lemma cancel_runtime_once_safe:
  assumes "control_ok s" "i < length (cn_session_heap s)"
  shows "safe s (cancel_runtime_once i s)" "length (cn_session_heap (fst (cancel_runtime_once i s))) = length (cn_session_heap s)"
  using cancel_runtime_once_ok [OF assms] assms(2)
  by (auto simp: safe_def grows_def cancel_runtime_once_def)

lemma safe_then:
  assumes "safe s (t, todo)" "\<And>c. c \<in> set more_todo \<Longrightarrow> code_ok t c"
  shows "safe s (t, todo @ more_todo)"
  using assms by (auto simp: safe_def)

lemma safe_from: "safe t r \<Longrightarrow> grows s t \<Longrightarrow> safe s r"
  by (auto simp: safe_def intro: grows_trans)

lemma cancel_then_release:
  assumes "control_ok s" "i < length (cn_session_heap s)" "cancel_runtime_once i (set_reason r i s) = (t, wait)"
    and "\<And>c. c \<in> set todo \<Longrightarrow> code_ok s c"
  shows "safe s (t, wait @ todo)"
proof -
  have "safe (set_reason r i s) (t, wait)"
    using cancel_runtime_once_safe [OF set_reason_ok [OF assms(1)], of i r i] assms by simp
  moreover have "grows s (set_reason r i s)" by (simp add: grows_def)
  ultimately have "safe s (t, wait)" by (rule safe_from)
  then show ?thesis using assms(4) by (intro safe_then) (auto simp: safe_def intro: code_ok_grows)
qed

lemma controlled_cancel_safe:
  assumes "control_ok s" "i < length (cn_session_heap s)" "controlled_cancel i r s = (out, t, todo)"
  shows "safe s (t, todo)"
  using assms cancel_then_release [OF assms(1,2), of r _ _ "[ReleaseOnce i]"]
  by (auto simp: controlled_cancel_def safe_def split: if_splits prod.splits)

lemma controlled_exit_safe:
  assumes "control_ok s" "i < length (cn_session_heap s)" "controlled_exit i s = (out, t, todo)"
  shows "safe s (t, todo)"
  using assms controlled_cancel_safe [OF assms(1,2), of CLIENT_CANCELLED]
  by (auto simp: controlled_exit_def safe_def split: if_splits)

lemma deadline_passed_safe:
  assumes "control_ok s" "i < length (cn_session_heap s)"
  shows "safe s (deadline_passed i s)"
proof -
  obtain t wait where t: "cancel_runtime_once i (set_reason RT_TIMEOUT i s) = (t, wait)" by fastforce
  have "safe s (t, wait @ [ReleaseOnce i, AwaitEvent i False])"
    using assms(2) by (intro cancel_then_release [OF assms t]) auto
  then show ?thesis by (simp add: deadline_passed_def t)
qed

lemma controlled_next_safe:
  assumes "control_ok s" "i < length (cn_session_heap s)" "controlled_next i s = (out, t, todo)"
  shows "safe s (t, todo)"
proof -
  have d: "safe s (u, rest @ [ExceptNext i])" if "deadline_passed i s = (u, rest)" for u rest
    using deadline_passed_safe [OF assms(1,2)] that assms(2)
    by (intro safe_then) (auto simp: safe_def grows_def)
  show ?thesis
    using assms(1,2,3) d unfolding controlled_next_def
    by (auto simp: Let_def safe_def split: if_splits option.splits prod.splits)
qed

lemma release_lease_safe:
  assumes "control_ok s" "l < length (cn_lease_heap s)" "release_lease l s = (out, t, todo)"
  shows "safe s (t, todo)"
proof -
  have e: "safe s (release_lease_end l s, [])"
    using release_lease_end_ok [OF assms(1,2)] by (simp add: safe_def grows_def release_lease_end_def)
  have c: "safe s (u, rest @ [ReleaseLeaseEnd l])"
    if "ls_session (the_lease s l) = Some i" "controlled_cancel i APPLICATION_CANCELLED s = (q, u, rest)" for i q u rest
  proof -
    have "i < length (cn_session_heap s)"
      using assms(1,2) that(1) attempt_of_lease(1) by (auto simp: control_ok_def)
    from controlled_cancel_safe [OF assms(1) this that(2)] show ?thesis
      using assms(2) by (intro safe_then) (auto simp: safe_def grows_def)
  qed
  show ?thesis
    using assms(1,3) e c unfolding release_lease_def
    by (auto simp: Let_def safe_def split: if_splits option.splits prod.splits)
qed

lemma session_release_once_safe:
  "control_ok s \<Longrightarrow> i < length (cn_session_heap s) \<Longrightarrow> \<forall>c\<in>set rest. code_ok s c \<Longrightarrow> safe s (session_release_once i s, rest)"
  using code_ok_grows [of s "session_release_once i s"] by (auto simp: safe_def grows_def session_release_once_ok)

lemma except_next_safe:
  assumes "control_ok s" "i < length (cn_session_heap s)"
  shows "safe s (except_next i x s)"
proof (cases "x = CancelledError")
  case True
  let ?s = "end_iteration i (set_reason CLIENT_CANCELLED i s)"
  obtain t wait where t: "cancel_runtime_once i ?s = (t, wait)" by fastforce
  have "safe ?s (t, wait)" "length (cn_session_heap t) = length (cn_session_heap s)"
    using cancel_runtime_once_safe [OF end_iteration_ok [OF set_reason_ok [OF assms(1)]], of i i CLIENT_CANCELLED i] assms t by auto
  then have "safe ?s (t, wait @ [FinallyRelease i])" using assms(2) by (intro safe_then) auto
  then show ?thesis using True t by (auto simp: except_next_def intro: safe_from simp: grows_def)
next
  case False
  have "safe (end_iteration i s) (session_release_once i (end_iteration i s), [])"
    using assms end_iteration_ok by (intro session_release_once_safe) auto
  then show ?thesis using False by (auto simp: except_next_def intro: safe_from simp: grows_def)
qed

lemma unwind_safe:
  "control_ok s \<Longrightarrow> \<forall>c\<in>set rest. code_ok s c \<Longrightarrow> safe s (unwind x rest s)"
proof (induction x rest s rule: unwind.induct)
  case (1 x s)
  then show ?case by (simp add: safe_def)
next
  case (2 x i rest s)
  then show ?case by (simp add: except_next_safe)
next
  case (3 x i rest s)
  let ?t = "session_release_once i s"
  have t: "control_ok ?t" "grows s ?t" using "3.prems" by (simp_all add: session_release_once_ok grows_def)
  then have "\<forall>c\<in>set rest. code_ok ?t c" using "3.prems" code_ok_grows [OF t(2)] by auto
  then show ?case using "3.IH" t safe_from by simp
next
  case (4 x l rest s)
  then show ?case using release_lease_safe [of s l] by (auto split: prod.split)
qed auto

lemma submit_reserved_ok:
  assumes ok: "control_ok s" and l: "l < length (cn_lease_heap s)" and id: "rq_request_id r = ls_request (the_lease s l)"
  shows "control_ok (snd (submit_reserved l r final runtime s)) \<and> grows s (snd (submit_reserved l r final runtime s))"
proof -
  define s1 where "s1 = (if ls_deadline (the_lease s l) = None
                       then modify_lease l (\<lambda>v. v\<lparr>ls_deadline := deadline_from s\<rparr>) s else s)"
  have s1: "control_ok s1" "length (cn_lease_heap s1) = length (cn_lease_heap s)" "cn_leases s1 = cn_leases s"
      "ls_request (the_lease s1 l) = ls_request (the_lease s l)" "ls_session (the_lease s1 l) = ls_session (the_lease s l)"
      "cn_config s1 = cn_config s" "cn_session_heap s1 = cn_session_heap s"
    using ok l by (auto simp: s1_def intro!: modify_lease_ok)
  have g: "grows s s1" "grows s (snd (register_session l r final s1))"
    using s1 by (simp_all add: grows_def register_session_def Let_def)
  have reg: "control_ok (snd (register_session l r final s1))"
    if "cn_leases s (ls_request (the_lease s l)) = Some l" "ls_session (the_lease s l) = None"
    using s1 l id that by (intro register_session_ok) auto
  have to: "control_ok (modify_lease l (\<lambda>v. v\<lparr>ls_reason := first_reason RT_TIMEOUT (ls_reason v), ls_terminated := True\<rparr>) s1)"
    using s1(1) by (rule modify_lease_ok) simp
  show ?thesis
    using ok s1(1) g reg to
    unfolding submit_reserved_def s1_def [symmetric] Let_def
    by (simp add: grows_def split: option.split submission.split)
qed

lemma lease_submit_ok:
  "control_ok s \<Longrightarrow> l < length (cn_lease_heap s)
     \<Longrightarrow> control_ok (snd (lease_submit final l r runtime s)) \<and> grows s (snd (lease_submit final l r runtime s))"
  by (auto simp: lease_submit_def submit_reserved_ok)

lemma acquire_new:
  assumes "acquire rid s = (Inr l, t)"
  shows "l < length (cn_lease_heap t)" "ls_request (the_lease t l) = rid"
  using assms by (auto simp: acquire_def Let_def split: if_splits)

lemma acquire_grows: "grows s (snd (acquire rid s))"
  by (simp add: acquire_def Let_def grows_def)

lemma controller_submit_safe:
  assumes "control_ok s" "controller_submit r runtime s = (out, t, todo)"
  shows "safe s (t, todo)"
proof (cases "acquire (rq_request_id r) s")
  case (Pair q s1)
  have s1: "control_ok s1" "grows s s1" using acquire_ok [OF assms(1), of "rq_request_id r"] acquire_grows [of s "rq_request_id r"] Pair by auto
  show ?thesis
  proof (cases q)
    case (Inl e)
    then show ?thesis using assms(2) Pair s1 by (auto simp: controller_submit_def safe_def)
  next
    case (Inr l)
    note l = acquire_new [OF Pair [unfolded Inr]]
    obtain w s2 where w: "submit_reserved l r True runtime s1 = (w, s2)" by fastforce
    have s2: "control_ok s2" "grows s1 s2" using submit_reserved_ok [OF s1(1) l(1) l(2) [symmetric], of True runtime] w by auto
    have l2: "l < length (cn_lease_heap s2)" using l(1) s2(2) by (simp add: grows_def)
    have rl: "safe s2 (u, rest)" if "release_lease l s2 = (z, u, rest)" for z u rest
      using release_lease_safe [OF s2(1) l2 that] .
    have "safe s2 (t, todo)"
      using assms(2) Pair Inr w s2(1) l2 rl unfolding controller_submit_def
      by (cases w; cases runtime) (auto simp: safe_def split: bool.splits prod.splits)
    then show ?thesis using s1(2) s2(2) by (blast intro: safe_from grows_trans)
  qed
qed

lemma hand_out_ok:
  assumes "control_ok s" "i < length (cn_session_heap s)"
  shows "control_ok (hand_out i e s) \<and> grows s (hand_out i e s)"
  using assms
  by (auto simp: hand_out_def grows_def split: runtime_event.split intro!: session_release_once_ok end_iteration_ok set_reason_ok)

lemma inject_text_ok: "control_ok s \<Longrightarrow> control_ok (snd (inject_text rid txt acc s)) \<and> grows s (snd (inject_text rid txt acc s))"
  by (auto simp: inject_text_def grows_def split: option.split intro!: modify_lease_ok)

lemma mark_registered_ok:
  assumes "control_ok s"
  shows "control_ok (mark_registered r s) \<and> grows s (mark_registered r s)"
proof -
  have "control_ok (mark_registered r s)"
    using assms control_ok_cancels [OF assms]
    by (intro control_ok_cong [OF assms]) (auto simp: mark_registered_def mark_lease_def cancels_ok_def)
  then show ?thesis by (simp add: grows_def mark_registered_def)
qed

lemma controller_close_safe:
  assumes "control_ok s" "controller_close r s = (out, t, tasks)"
  shows "control_ok t \<and> grows s t \<and> (\<forall>task\<in>set tasks. \<forall>c\<in>set task. code_ok t c)"
proof -
  let ?c = "s\<lparr>cn_closed := True\<rparr>"
  have c: "control_ok ?c" "grows s ?c" using assms(1) by (simp_all add: other_fields_ok grows_def)
  then have "control_ok (mark_registered r ?c)" "grows s (mark_registered r ?c)"
    using mark_registered_ok [OF c(1)] by (auto intro: grows_trans)
  then show ?thesis using assms unfolding controller_close_def
    by (auto simp: mark_registered_def split: if_splits)
qed

lemma resume_safe:
  assumes ok: "control_ok s" and c: "code_ok s c" and rest: "\<forall>c\<in>set rest. code_ok s c"
    and r: "resume c input rest s = Some (t, todo)"
  shows "safe s (t, todo)"
proof -
  have keeps: "safe s (u, rest)" if "control_ok u" "grows s u" for u
    using that rest code_ok_grows [OF that(2)] by (auto simp: safe_def)
  have app: "safe s (u, more_todo @ rest)" if "safe s (u, more_todo)" for u more_todo
    using that rest by (intro safe_then) (auto simp: safe_def intro: code_ok_grows)
  have unw: "safe s (unwind x rest s)" for x using ok rest by (rule unwind_safe)
  have stop: "safe s (u, [])" if "safe s (u, more_todo)" for u more_todo
    using that by (simp add: safe_def)
  show ?thesis
  proof (cases c)
    case (AwaitRuntimeCancel i)
    let ?f = "s\<lparr>cn_cancel_failed := insert i (cn_cancel_failed s)\<rparr>"
    have "code_ok ?f d = code_ok s d" for d by (cases d) simp_all
    then have "safe ?f (unwind x rest ?f)" for x using ok rest by (intro unwind_safe) (auto simp: other_fields_ok)
    then have "safe s (unwind x rest ?f)" for x by (rule safe_from) (simp add: grows_def)
    then show ?thesis using r AwaitRuntimeCancel keeps [OF ok] by (cases input) (simp_all, metis)
  next
    case (ReleaseOnce i)
    then show ?thesis using r c ok keeps [of "session_release_once i s"] session_release_once_ok
      by (cases input) (auto simp: grows_def)
  next
    case (FinallyRelease i)
    then show ?thesis using r c ok keeps [of "session_release_once i s"] session_release_once_ok
      by (cases input) (auto simp: grows_def)
  next
    case (ReleaseLeaseEnd l)
    then show ?thesis using r c keeps [of "release_lease_end l s"] release_lease_end_ok [OF ok, of l]
      by (cases input) (auto simp: grows_def release_lease_end_def split: if_splits)
  next
    case (AwaitEvent i timed)
    then show ?thesis
    proof (cases input)
      case (Arrives e)
      then show ?thesis using r c AwaitEvent hand_out_ok [OF ok, of i e] keeps [of "hand_out i e s"] by auto
    next
      case TimerFires
      then show ?thesis using r c ok AwaitEvent deadline_passed_safe [OF ok, of i]
        by (cases timed) (auto split: prod.splits intro: app)
    next
      case (Raises x)
      then show ?thesis using r unw [of x] AwaitEvent by simp
    qed (use r AwaitEvent in auto)
  next
    case (ExceptNext i)
    then show ?thesis using r keeps [OF ok] by (cases input) auto
  next
    case (CancelSession i q)
    then show ?thesis using r c controlled_cancel_safe [OF ok, of i q]
      by (cases input) (auto split: prod.splits sum.splits intro: app stop)
  next
    case AwaitRollback
    then show ?thesis using r keeps [OF ok] unw [of CancelledError] by (cases "(c, input, rest, s)" rule: resume.cases) auto
  next
    case (FinallyReleaseLease l)
    then show ?thesis using r c release_lease_safe [OF ok, of l] by (cases input) (auto split: prod.splits intro: app)
  next
    case AwaitDrained
    then show ?thesis using r keeps [OF ok] unw [of CancelledError] by (cases "(c, input, rest, s)" rule: resume.cases) (auto split: if_splits)
  qed
qed

definition world_ok :: "controller \<Rightarrow> code list list \<Rightarrow> bool" where
  "world_ok s ts \<longleftrightarrow> control_ok s \<and> (\<forall>task\<in>set ts. \<forall>c\<in>set task. code_ok s c)"

lemma world_ok_next:
  assumes "world_ok s ts" "control_ok t" "grows s t" "\<And>task c. task \<in> set ts' \<Longrightarrow> c \<in> set task \<Longrightarrow> code_ok t c"
    and "set ts'' \<subseteq> set ts \<union> set ts'"
  shows "world_ok t ts''"
  using assms code_ok_grows [OF assms(3)] unfolding world_ok_def by blast

lemma step_world_ok:
  assumes "step (s, ts) (t, ts')" "world_ok s ts"
  shows "world_ok t ts' \<and> grows s t"
proof -
  have ok: "control_ok s" "\<forall>task\<in>set ts. \<forall>c\<in>set task. code_ok s c" using assms(2) by (simp_all add: world_ok_def)
  have one: "world_ok u (todo # ts) \<and> grows s u" if "safe s (u, todo)" for u todo
    using that ok code_ok_grows by (auto simp: world_ok_def safe_def)
  have none: "world_ok u ts \<and> grows s u" if "control_ok u \<and> grows s u" for u
    using that ok code_ok_grows by (auto simp: world_ok_def)
  have op1: "controller_submit r rt s = (a, u, todo) \<Longrightarrow> world_ok u (todo # ts) \<and> grows s u" for r rt a u todo
    by (rule one, rule controller_submit_safe [OF ok(1)])
  have op2: "l < length (cn_lease_heap s) \<Longrightarrow> release_lease l s = (b, u, todo) \<Longrightarrow> world_ok u (todo # ts) \<and> grows s u" for l b u todo
    by (rule one, rule release_lease_safe [OF ok(1)])
  have op3: "i < length (cn_session_heap s) \<Longrightarrow> controlled_cancel i q s = (b, u, todo) \<Longrightarrow> world_ok u (todo # ts) \<and> grows s u" for i q b u todo
    by (rule one, rule controlled_cancel_safe [OF ok(1)])
  have op4: "i < length (cn_session_heap s) \<Longrightarrow> controlled_next i s = (b, u, todo) \<Longrightarrow> world_ok u (todo # ts) \<and> grows s u" for i b u todo
    by (rule one, rule controlled_next_safe [OF ok(1)])
  have op5: "i < length (cn_session_heap s) \<Longrightarrow> controlled_exit i s = (b, u, todo) \<Longrightarrow> world_ok u (todo # ts) \<and> grows s u" for i b u todo
    by (rule one, rule controlled_exit_safe [OF ok(1)])
  note ops = op1 op2 op3 op4 op5
  have close: "world_ok u (tasks @ ts) \<and> grows s u" if "controller_close r s = (out, u, tasks)" for r out u tasks
    using controller_close_safe [OF ok(1) that] ok code_ok_grows [of s u] by (auto simp: world_ok_def)
  have res: "world_ok u (pre @ todo # post) \<and> grows s u"
    if "ts = pre @ (c # rest) # post" "resume c input rest s = Some (u, todo)" for pre c rest post input u todo
  proof -
    have "safe s (u, todo)" using that ok by (intro resume_safe [of s c rest input]) auto
    then show ?thesis using that ok code_ok_grows [of s u] by (auto simp: world_ok_def safe_def)
  qed
  show ?thesis
    by (rule stepE [OF assms(1)])
      (use ok none ops acquire_ok [OF ok(1)] acquire_grows [of s] lease_submit_ok [OF ok(1)] inject_text_ok [OF ok(1)] close res
       in \<open>simp_all add: other_fields_ok grows_def [of _ "_\<lparr>cn_clock := _\<rparr>"]\<close>)
qed

end
