(* ===== verification/Control_Properties.thy ===== *)
theory Control_Properties
  imports Control_Invariant
begin

text \<open>
  What the request controller promises over time: decisions that are made once, sessions that are
  released when they end, and the properties of every reachable state.
\<close>

section \<open>What is decided once\<close>

definition lease_keeps :: "lease \<Rightarrow> lease \<Rightarrow> bool" where
  "lease_keeps v w \<longleftrightarrow> ls_request w = ls_request v \<and> (ls_reason v \<noteq> None \<longrightarrow> ls_reason w = ls_reason v)
     \<and> (ls_state v = RELEASED \<longrightarrow> ls_state w = RELEASED) \<and> (ls_terminated v \<longrightarrow> ls_terminated w)
     \<and> (\<not> ls_replay_safe v \<longrightarrow> \<not> ls_replay_safe w)"

definition session_keeps :: "controlled \<Rightarrow> controlled \<Rightarrow> bool" where
  "session_keeps c d \<longleftrightarrow> cs_request d = cs_request c \<and> cs_lease d = cs_lease c \<and> cs_final d = cs_final c
     \<and> (cs_reason c \<noteq> None \<longrightarrow> cs_reason d = cs_reason c) \<and> (cs_released c \<longrightarrow> cs_released d)
     \<and> (cs_cancel_called c \<longrightarrow> cs_cancel_called d) \<and> (cs_iteration_terminal c \<longrightarrow> cs_iteration_terminal d)"

definition remembers :: "controller \<Rightarrow> controller \<Rightarrow> bool" where
  "remembers s t \<longleftrightarrow> length (cn_lease_heap s) \<le> length (cn_lease_heap t) \<and> length (cn_session_heap s) \<le> length (cn_session_heap t)
     \<and> (\<forall>l < length (cn_lease_heap s). lease_keeps (the_lease s l) (the_lease t l))
     \<and> (\<forall>i < length (cn_session_heap s). session_keeps (the_session s i) (the_session t i))
     \<and> (cn_closed s \<longrightarrow> cn_closed t)"

lemma heap_keeps_refl [simp]: "lease_keeps v v" "session_keeps c c"
  by (simp_all add: lease_keeps_def session_keeps_def)

lemma lease_keeps_trans: "lease_keeps u v \<Longrightarrow> lease_keeps v w \<Longrightarrow> lease_keeps u w"
  by (auto simp: lease_keeps_def)

lemma session_keeps_trans: "session_keeps u v \<Longrightarrow> session_keeps v w \<Longrightarrow> session_keeps u w"
  by (auto simp: session_keeps_def)

lemma remembers_refl [simp]: "remembers s s"
  by (simp add: remembers_def)

lemma remembers_trans: "remembers s t \<Longrightarrow> remembers t u \<Longrightarrow> remembers s u"
  unfolding remembers_def by (meson lease_keeps_trans session_keeps_trans order.trans order.strict_trans2)

lemma remembers_modify_lease: "(\<And>v. lease_keeps v (f v)) \<Longrightarrow> remembers s (modify_lease l f s)"
  by (simp add: remembers_def)

lemma remembers_modify_session: "(\<And>c. session_keeps c (g c)) \<Longrightarrow> remembers s (modify_session i g s)"
  by (simp add: remembers_def)

lemma remembers_same_heaps:
  "cn_lease_heap t = cn_lease_heap s \<Longrightarrow> cn_session_heap t = cn_session_heap s \<Longrightarrow> (cn_closed s \<Longrightarrow> cn_closed t) \<Longrightarrow> remembers s t"
  by (simp add: remembers_def)

lemma remembers_heaps_cong:
  "remembers s t \<Longrightarrow> cn_lease_heap u = cn_lease_heap t \<Longrightarrow> cn_session_heap u = cn_session_heap t \<Longrightarrow> cn_closed u = cn_closed t
     \<Longrightarrow> remembers s u"
  by (simp add: remembers_def)

lemma remembers_other_fields [simp]:
  "remembers s (t\<lparr>cn_in_flight := n\<rparr>) = remembers s t" "remembers s (t\<lparr>cn_drained := b\<rparr>) = remembers s t"
  "remembers s (t\<lparr>cn_trims := k\<rparr>) = remembers s t" "remembers s (t\<lparr>cn_clock := d\<rparr>) = remembers s t"
  "remembers s (t\<lparr>cn_cancel_failed := F\<rparr>) = remembers s t"
  by (simp_all add: remembers_def)

lemma release_lease_locked_remembers: "remembers s (release_lease_locked l s)"
proof -
  have "remembers s (modify_lease l (\<lambda>v. v\<lparr>ls_session := None, ls_state := RELEASED, ls_terminated := True\<rparr>) u)"
    if "cn_lease_heap u = cn_lease_heap s" "cn_session_heap u = cn_session_heap s" "cn_closed u = cn_closed s" for u
    using remembers_trans [OF remembers_same_heaps [of u s] remembers_modify_lease] that by (simp add: lease_keeps_def)
  then show ?thesis
    by (auto simp: release_lease_locked_def Let_def split: option.split)
qed

lemma set_reason_remembers: "remembers s (set_reason r i s)"
  unfolding set_reason_def by (rule remembers_modify_session) (auto simp: session_keeps_def first_reason_def)

lemma end_iteration_remembers: "remembers s (end_iteration i s)"
  unfolding end_iteration_def by (rule remembers_modify_session) (auto simp: session_keeps_def)

lemma cancel_runtime_once_remembers: "remembers s (fst (cancel_runtime_once i s))"
proof -
  let ?s = "s\<lparr>cn_cancels := (cn_cancels s)(i := cn_cancels s i + 1)\<rparr>"
  have "remembers ?s (modify_session i (\<lambda>c. c\<lparr>cs_cancel_called := True\<rparr>) ?s)"
    by (rule remembers_modify_session) (simp add: session_keeps_def)
  with remembers_same_heaps [of ?s s] have "remembers s (modify_session i (\<lambda>c. c\<lparr>cs_cancel_called := True\<rparr>) ?s)"
    by (simp add: remembers_trans)
  then show ?thesis by (simp add: cancel_runtime_once_def)
qed

lemma release_attempt_remembers: "remembers s (release_attempt i s)"
proof -
  have d: "remembers s (modify_lease l (\<lambda>v. v\<lparr>ls_session := None\<rparr>) (unregister_session i rid s))" for l rid
    using remembers_trans [OF remembers_same_heaps [of "unregister_session i rid s" s]
        remembers_modify_lease [of "\<lambda>v. v\<lparr>ls_session := None\<rparr>"]] by (simp add: lease_keeps_def)
  show ?thesis
    unfolding release_attempt_def Let_def
    by (auto split: option.split intro: d remembers_trans [OF d release_lease_locked_remembers])
qed

lemma session_release_once_remembers: "remembers s (session_release_once i s)"
proof -
  have "remembers s (modify_session i (\<lambda>c. c\<lparr>cs_released := True\<rparr>) s)"
    by (rule remembers_modify_session) (simp add: session_keeps_def)
  then show ?thesis by (auto simp: session_release_once_def intro: remembers_trans release_attempt_remembers)
qed

lemma release_lease_end_remembers: "remembers s (release_lease_end l s)"
  by (simp add: release_lease_end_def release_lease_locked_remembers)

lemma acquire_remembers: "remembers s (snd (acquire rid s))"
  by (auto simp: acquire_def Let_def remembers_def nth_append)

lemma cancel_after_reason_remembers: "remembers s (fst (cancel_runtime_once i (set_reason r i s)))"
  by (rule remembers_trans [OF set_reason_remembers cancel_runtime_once_remembers])

lemma controlled_cancel_remembers: "controlled_cancel i r s = (out, t, todo) \<Longrightarrow> remembers s t"
  using cancel_after_reason_remembers [of s i r] by (auto simp: controlled_cancel_def split: if_splits prod.splits)

lemma controlled_exit_remembers: "controlled_exit i s = (out, t, todo) \<Longrightarrow> remembers s t"
  using controlled_cancel_remembers by (auto simp: controlled_exit_def split: if_splits)

lemma deadline_passed_remembers: "remembers s (fst (deadline_passed i s))"
  using cancel_after_reason_remembers [of s i RT_TIMEOUT] by (simp add: deadline_passed_def split_def Let_def)

lemma controlled_next_remembers: "controlled_next i s = (out, t, todo) \<Longrightarrow> remembers s t"
  using deadline_passed_remembers [of s i]
  by (auto simp: controlled_next_def Let_def split: if_splits option.splits prod.splits)

lemma release_lease_remembers: "release_lease l s = (out, t, todo) \<Longrightarrow> remembers s t"
  using release_lease_end_remembers controlled_cancel_remembers
  by (fastforce simp: release_lease_def Let_def split: if_splits option.splits prod.splits)

lemma except_next_remembers: "remembers s (fst (except_next i x s))"
  using remembers_trans [OF remembers_trans [OF set_reason_remembers end_iteration_remembers] cancel_runtime_once_remembers]
    remembers_trans [OF end_iteration_remembers session_release_once_remembers]
  by (simp add: except_next_def split_def Let_def)

lemma unwind_remembers: "remembers s (fst (unwind x rest s))"
proof (induction x rest s rule: unwind.induct)
  case (3 x i rest s)
  then show ?case using session_release_once_remembers remembers_trans by simp blast
next
  case (4 x l rest s)
  then show ?case using release_lease_remembers by (auto split: prod.split)
qed (simp_all add: except_next_remembers)

lemma register_session_remembers:
  "ls_state (the_lease s l) \<noteq> RELEASED \<Longrightarrow> remembers s (snd (register_session l r final s))"
  by (cases "l < length (cn_lease_heap s)") (auto simp: register_session_def Let_def remembers_def nth_append lease_keeps_def)

lemma submit_reserved_remembers: "remembers s (snd (submit_reserved l r final runtime s))"
proof -
  define s1 where "s1 = (if ls_deadline (the_lease s l) = None
                       then modify_lease l (\<lambda>v. v\<lparr>ls_deadline := deadline_from s\<rparr>) s else s)"
  have s1: "remembers s s1"
    unfolding s1_def using remembers_modify_lease [of "\<lambda>v. v\<lparr>ls_deadline := deadline_from s\<rparr>" s l] by (simp add: lease_keeps_def)
  have st: "ls_state (the_lease s l) \<noteq> RELEASED \<Longrightarrow> ls_state (the_lease s1 l) \<noteq> RELEASED"
    by (cases "l < length (cn_lease_heap s)") (simp_all add: s1_def, simp add: modify_lease_def list_update_beyond)
  have reg: "remembers s (snd (register_session l r final s1))" if "ls_state (the_lease s l) \<noteq> RELEASED"
    using remembers_trans [OF s1 register_session_remembers [OF st [OF that]]] .
  have to: "remembers s (modify_lease l (\<lambda>v. v\<lparr>ls_reason := first_reason RT_TIMEOUT (ls_reason v), ls_terminated := True\<rparr>) s1)"
    by (rule remembers_trans [OF s1 remembers_modify_lease]) (auto simp: lease_keeps_def first_reason_def)
  show ?thesis
    using s1 reg to unfolding submit_reserved_def s1_def [symmetric] Let_def
    by (simp split: option.split submission.split)
qed

lemma lease_submit_remembers: "remembers s (snd (lease_submit final l r runtime s))"
  by (simp add: lease_submit_def submit_reserved_remembers)

lemma controller_submit_remembers: "controller_submit r runtime s = (out, t, todo) \<Longrightarrow> remembers s t"
  using acquire_remembers [of s "rq_request_id r"] submit_reserved_remembers release_lease_remembers
  unfolding controller_submit_def
  by (auto split: prod.splits sum.splits submission.splits bool.splits dest!: release_lease_remembers
      intro: remembers_trans) (metis remembers_trans snd_conv)+

lemma hand_out_remembers: "remembers s (hand_out i e s)"
  by (auto simp: hand_out_def split: runtime_event.split
      intro: remembers_trans [OF remembers_trans [OF set_reason_remembers end_iteration_remembers] session_release_once_remembers])

lemma inject_text_remembers: "remembers s (snd (inject_text rid txt acc s))"
  by (auto simp: inject_text_def split: option.split intro!: remembers_modify_lease simp: lease_keeps_def)

lemma controller_close_remembers: "controller_close r s = (out, t, tasks) \<Longrightarrow> remembers s t"
  by (auto simp: controller_close_def remembers_def mark_registered_def mark_lease_def lease_keeps_def first_reason_def
      split: if_splits)

lemma unwind_result: "unwind x rest s = (t, todo) \<Longrightarrow> remembers s t"
  using unwind_remembers [of s x rest] by simp

lemma unwind_failed_result: "unwind x rest (s\<lparr>cn_cancel_failed := F\<rparr>) = (t, todo) \<Longrightarrow> remembers s t"
  using unwind_remembers [of "s\<lparr>cn_cancel_failed := F\<rparr>" x rest] by (simp add: remembers_def)

lemma resume_remembers: "resume c input rest s = Some (t, todo) \<Longrightarrow> remembers s t"
  using deadline_passed_remembers
  by (cases "(c, input, rest, s)" rule: resume.cases)
    (auto simp: hand_out_remembers session_release_once_remembers release_lease_end_remembers
      split: prod.splits sum.splits if_splits
      dest: unwind_result unwind_failed_result controlled_cancel_remembers release_lease_remembers, metis fst_conv)

lemma step_remembers:
  assumes "step (s, ts) (t, ts')" shows "remembers s t"
  by (rule stepE [OF assms])
    (simp_all add: acquire_remembers lease_submit_remembers inject_text_remembers controller_submit_remembers
      release_lease_remembers controlled_cancel_remembers controlled_exit_remembers controlled_next_remembers
      controller_close_remembers resume_remembers)

section \<open>Ended sessions are released\<close>

text \<open>\<open>releases i task\<close>: the task is going to release session \<open>i\<close>. \<open>ordered task\<close>: what an interrupted await
  would skip is at most the release of the session whose runtime was being cancelled.\<close>

definition releases :: "nat \<Rightarrow> code list \<Rightarrow> bool" where
  "releases i task \<longleftrightarrow> ReleaseOnce i \<in> set task \<or> FinallyRelease i \<in> set task"

fun ordered :: "code list \<Rightarrow> bool" where
  "ordered [] = True"
| "ordered (AwaitRuntimeCancel i # rest) = ((\<forall>j. releases j rest \<longrightarrow> j = i) \<and> ordered rest)"
| "ordered (ReleaseOnce i # rest) = ordered rest"
| "ordered (FinallyRelease i # rest) = ordered rest"
| "ordered (c # rest) = ((\<forall>j. \<not> releases j rest) \<and> ordered rest)"

definition ended :: "controlled \<Rightarrow> bool" where
  "ended c \<longleftrightarrow> cs_iteration_terminal c \<or> cs_cancel_called c"

definition pending_release :: "controller \<Rightarrow> code list list \<Rightarrow> nat \<Rightarrow> bool" where
  "pending_release s ts i \<longleftrightarrow> cs_released (the_session s i) \<or> i \<in> cn_cancel_failed s \<or> (\<exists>task\<in>set ts. releases i task)"

definition ends_ok :: "controller \<Rightarrow> code list list \<Rightarrow> bool" where
  "ends_ok s ts \<longleftrightarrow> (\<forall>i < length (cn_session_heap s). ended (the_session s i) \<longrightarrow> pending_release s ts i)
     \<and> (\<forall>task\<in>set ts. ordered task)"

lemma releases_simps [simp]:
  "\<not> releases i []" "releases i (ReleaseOnce j # rest) \<longleftrightarrow> i = j \<or> releases i rest"
  "releases i (FinallyRelease j # rest) \<longleftrightarrow> i = j \<or> releases i rest"
  "releases i (a @ b) \<longleftrightarrow> releases i a \<or> releases i b"
  "releases i (AwaitRuntimeCancel k # rest) = releases i rest" "releases i (ReleaseLeaseEnd l # rest) = releases i rest"
  "releases i (AwaitEvent k timed # rest) = releases i rest" "releases i (ExceptNext k # rest) = releases i rest"
  "releases i (CancelSession k r # rest) = releases i rest" "releases i (AwaitRollback # rest) = releases i rest"
  "releases i (FinallyReleaseLease l # rest) = releases i rest" "releases i (AwaitDrained # rest) = releases i rest"
  by (auto simp: releases_def)

lemma ordered_append: "ordered a \<Longrightarrow> ordered b \<Longrightarrow> \<forall>j. \<not> releases j b \<Longrightarrow> ordered (a @ b)"
  by (induction a rule: ordered.induct) auto

lemma ordered_Cons: "ordered (c # rest) \<Longrightarrow> ordered rest"
  by (cases c) auto

text \<open>\<open>accounts s t todo\<close>: whatever session an operation ended is released, or its release is left to do.\<close>

definition accounts :: "controller \<Rightarrow> controller \<Rightarrow> code list \<Rightarrow> bool" where
  "accounts s t todo \<longleftrightarrow> (\<forall>i < length (cn_session_heap t). ended (the_session t i) \<longrightarrow>
        i < length (cn_session_heap s) \<and> ended (the_session s i) \<or> cs_released (the_session t i) \<or> releases i todo)
     \<and> cn_cancel_failed s \<subseteq> cn_cancel_failed t \<and> ordered todo"

lemma accounts_quiet:
  "cn_session_heap t = cn_session_heap s \<Longrightarrow> cn_cancel_failed t = cn_cancel_failed s \<Longrightarrow> ordered todo \<Longrightarrow> accounts s t todo"
  by (simp add: accounts_def)

lemma release_lease_locked_quiet [simp]:
  "cn_session_heap (release_lease_locked l s) = cn_session_heap s"
  "cn_cancel_failed (release_lease_locked l s) = cn_cancel_failed s"
  by (simp_all add: release_lease_locked_def Let_def unregister_session_def split: option.split)

lemma release_lease_end_quiet [simp]:
  "cn_session_heap (release_lease_end l s) = cn_session_heap s" "cn_cancel_failed (release_lease_end l s) = cn_cancel_failed s"
  by (simp_all add: release_lease_end_def)

lemma release_attempt_quiet [simp]:
  "cn_session_heap (release_attempt i s) = cn_session_heap s" "cn_cancel_failed (release_attempt i s) = cn_cancel_failed s"
  by (simp_all add: release_attempt_def Let_def unregister_session_def split: option.split)

lemma session_release_once_effect [simp]:
  "j < length (cn_session_heap s) \<Longrightarrow> the_session (session_release_once i s) j
     = (if j = i then (the_session s j)\<lparr>cs_released := True\<rparr> else the_session s j)"
  "cn_cancel_failed (session_release_once i s) = cn_cancel_failed s"
  by (simp_all add: session_release_once_def)

lemma reason_effect [simp]:
  "j < length (cn_session_heap s) \<Longrightarrow> ended (the_session (set_reason r i s) j) = ended (the_session s j)"
  "cn_cancel_failed (set_reason r i s) = cn_cancel_failed s" "cn_cancel_failed (end_iteration i s) = cn_cancel_failed s"
  "j < length (cn_session_heap s) \<Longrightarrow> ended (the_session (end_iteration i s) j) = (j = i \<or> ended (the_session s j))"
  by (auto simp: set_reason_def end_iteration_def ended_def)

lemma ended_released [simp]: "ended (c\<lparr>cs_released := b\<rparr>) = ended c"
  by (simp add: ended_def)

lemma cancel_runtime_once_effect:
  assumes "cancel_runtime_once i s = (t, wait)"
  shows "wait = [] \<or> wait = [AwaitRuntimeCancel i]" "cn_cancel_failed t = cn_cancel_failed s"
    "length (cn_session_heap t) = length (cn_session_heap s)"
    "\<And>j. j < length (cn_session_heap s) \<Longrightarrow> ended (the_session t j) \<Longrightarrow> j = i \<or> ended (the_session s j)"
  using assms by (auto simp: cancel_runtime_once_def ended_def split: if_splits)

lemma cancel_accounts:
  assumes "cancel_runtime_once i u = (t, wait)" "cn_cancel_failed u = cn_cancel_failed s"
    and "length (cn_session_heap u) = length (cn_session_heap s)"
    and "\<And>j. j < length (cn_session_heap s) \<Longrightarrow> ended (the_session u j) \<Longrightarrow> j = i \<or> ended (the_session s j)"
    and "c = ReleaseOnce i \<or> c = FinallyRelease i" "ordered todo" "\<forall>j. \<not> releases j todo"
  shows "accounts s t (wait @ c # todo)"
proof -
  note e = cancel_runtime_once_effect [OF assms(1)]
  have "\<forall>j < length (cn_session_heap s). ended (the_session t j) \<longrightarrow> j = i \<or> ended (the_session s j)"
    using e(4) assms(3,4) by fastforce
  moreover have "ordered (wait @ c # todo)" using e(1) assms(5-7) by auto
  ultimately show ?thesis using e(2,3) assms(2,3,5) by (auto simp: accounts_def)
qed

lemma controlled_cancel_accounts:
  assumes "controlled_cancel i r s = (out, t, todo)" shows "accounts s t todo"
proof (cases "r \<in> set explicit_reasons \<and> \<not> cs_iteration_terminal (the_session s i) \<and> \<not> cs_cancel_called (the_session s i)")
  case True
  then obtain wait where "cancel_runtime_once i (set_reason r i s) = (t, wait)" "todo = wait @ [ReleaseOnce i]"
    using assms by (auto simp: controlled_cancel_def split: prod.splits)
  then show ?thesis by (auto intro: cancel_accounts)
next
  case False
  then have "t = s" "todo = []" using assms by (auto simp: controlled_cancel_def split: if_splits)
  then show ?thesis by (simp add: accounts_quiet)
qed

lemma controlled_exit_accounts: "controlled_exit i s = (out, t, todo) \<Longrightarrow> accounts s t todo"
  using controlled_cancel_accounts by (auto simp: controlled_exit_def accounts_quiet split: if_splits)

lemma deadline_passed_accounts: "deadline_passed i s = (t, todo) \<Longrightarrow> accounts s t todo"
  by (auto simp: deadline_passed_def split: prod.splits intro!: cancel_accounts)

lemma accounts_append:
  "accounts s t todo \<Longrightarrow> ordered rest \<Longrightarrow> \<forall>j. \<not> releases j rest \<Longrightarrow> accounts s t (todo @ rest)"
  by (auto simp: accounts_def ordered_append)

lemma controlled_next_accounts: "controlled_next i s = (out, t, todo) \<Longrightarrow> accounts s t todo"
  by (auto simp: controlled_next_def Let_def accounts_quiet split: if_splits option.splits prod.splits
      dest!: deadline_passed_accounts intro: accounts_append)

lemma release_lease_accounts: "release_lease l s = (out, t, todo) \<Longrightarrow> accounts s t todo"
  by (auto simp: release_lease_def Let_def accounts_quiet split: if_splits option.splits prod.splits
      dest!: controlled_cancel_accounts intro: accounts_append)

lemma except_next_accounts: "except_next i x s = (t, todo) \<Longrightarrow> accounts s t todo"
  by (auto simp: except_next_def split: if_splits prod.splits intro!: cancel_accounts) (auto simp: accounts_def)

lemma accounts_trans:
  "accounts s t [] \<Longrightarrow> remembers t u \<Longrightarrow> accounts t u todo \<Longrightarrow> accounts s u todo"
  unfolding accounts_def remembers_def session_keeps_def by (auto dest: spec) (metis subsetD)+

lemma unwind_accounts: "unwind x rest s = (t, todo) \<Longrightarrow> accounts s t todo"
proof (induction x rest s arbitrary: t todo rule: unwind.induct)
  case (2 x i rest s)
  then show ?case by (simp add: except_next_accounts)
next
  case (3 x i rest s)
  have "accounts s (session_release_once i s) []" by (auto simp: accounts_def)
  moreover have "remembers (session_release_once i s) t" using "3.prems" unwind_result by simp
  ultimately show ?case using 3 accounts_trans by simp
next
  case (4 x l rest s)
  then show ?case using release_lease_accounts by (auto split: prod.splits)
qed (auto simp: accounts_quiet)

text \<open>A resumed task: the releases it had left are done, still left, or lost to a failed cancellation.\<close>

definition hands_over :: "controller \<Rightarrow> code list \<Rightarrow> code list \<Rightarrow> bool" where
  "hands_over t before todo \<longleftrightarrow> (\<forall>i < length (cn_session_heap t). releases i before \<longrightarrow>
     cs_released (the_session t i) \<or> i \<in> cn_cancel_failed t \<or> releases i todo)"

lemma ends_ok_call:
  assumes "ends_ok s ts" "accounts s t todo" "remembers s t"
  shows "ends_ok t (todo # ts)"
  unfolding ends_ok_def
proof (intro conjI allI impI)
  fix i assume i: "i < length (cn_session_heap t)" "ended (the_session t i)"
  then consider "i < length (cn_session_heap s)" "ended (the_session s i)" | "cs_released (the_session t i)" | "releases i todo"
    using assms(2) unfolding accounts_def by blast
  then show "pending_release t (todo # ts) i"
  proof cases
    case 1
    then have "pending_release s ts i" using assms(1) by (simp add: ends_ok_def)
    then show ?thesis using 1 assms(2,3) by (auto simp: pending_release_def remembers_def session_keeps_def accounts_def)
  qed (simp_all add: pending_release_def)
next
  show "\<forall>task\<in>set (todo # ts). ordered task" using assms by (simp add: ends_ok_def accounts_def)
qed

lemma ends_ok_resume:
  assumes "ends_ok s (pre @ task # post)" "accounts s t todo" "remembers s t" "hands_over t task todo"
  shows "ends_ok t (pre @ todo # post)"
  unfolding ends_ok_def
proof (intro conjI allI impI)
  fix i assume i: "i < length (cn_session_heap t)" "ended (the_session t i)"
  have "ends_ok t (todo # pre @ task # post)" using assms(1-3) by (rule ends_ok_call)
  then have "pending_release t (todo # pre @ task # post) i" using i by (simp add: ends_ok_def)
  then show "pending_release t (pre @ todo # post) i"
    using assms(4) i by (auto simp: pending_release_def hands_over_def)
next
  show "\<forall>task\<in>set (pre @ todo # post). ordered task" using assms by (auto simp: ends_ok_def accounts_def)
qed

lemma unwind_failed_accounts:
  "unwind x rest (s\<lparr>cn_cancel_failed := insert i (cn_cancel_failed s)\<rparr>) = (t, todo)
     \<Longrightarrow> accounts s t todo \<and> i \<in> cn_cancel_failed t"
  by (drule unwind_accounts) (auto simp: accounts_def)

lemma hand_out_accounts: "accounts s (hand_out i e s) [] \<and> cn_cancel_failed (hand_out i e s) = cn_cancel_failed s"
  by (cases e) (auto simp: hand_out_def accounts_def)

lemma resume_accounts:
  assumes "ordered (c # rest)" "resume c input rest s = Some (t, todo)"
  shows "accounts s t todo \<and> hands_over t (c # rest) todo"
proof -
  have rest: "ordered rest" using assms(1) by (rule ordered_Cons)
  have keep: "accounts s t rest \<and> hands_over t rest rest" if "accounts s t []"
    using that rest by (auto simp: accounts_def hands_over_def)
  have none: "hands_over t (c # rest) w" if "\<forall>j. \<not> releases j (c # rest)" for w
    using that by (simp add: hands_over_def)
  have rel: "accounts s (session_release_once i s) []" for i by (auto simp: accounts_def)
  show ?thesis
  proof (cases c)
    case (AwaitRuntimeCancel i)
    show ?thesis
    proof (cases input)
      case Returns
      then show ?thesis using assms AwaitRuntimeCancel rest by (auto simp: accounts_quiet hands_over_def)
    next
      case (Raises x)
      then have "unwind x rest (s\<lparr>cn_cancel_failed := insert i (cn_cancel_failed s)\<rparr>) = (t, todo)"
        using assms AwaitRuntimeCancel by simp
      from unwind_failed_accounts [OF this] show ?thesis
        using assms(1) AwaitRuntimeCancel by (auto simp: hands_over_def)
    qed (use assms AwaitRuntimeCancel in auto)
  next
    case (ReleaseOnce i)
    then show ?thesis using assms(2) keep rel [of i] by (cases input) (auto simp: hands_over_def)
  next
    case (FinallyRelease i)
    then show ?thesis using assms(2) keep rel [of i] by (cases input) (auto simp: hands_over_def)
  next
    case (ReleaseLeaseEnd l)
    then show ?thesis using assms rest none by (cases input) (auto simp: accounts_quiet)
  next
    case (AwaitEvent i timed)
    have nr: "\<forall>j. \<not> releases j (c # rest)" using assms(1) AwaitEvent by simp
    show ?thesis
    proof (cases input)
      case (Arrives e)
      then show ?thesis using assms AwaitEvent keep nr none hand_out_accounts by auto
    next
      case (Raises x)
      then show ?thesis using assms AwaitEvent nr none unwind_accounts by auto
    next
      case TimerFires
      then show ?thesis using assms AwaitEvent nr none rest
        by (cases timed) (auto split: prod.splits dest!: deadline_passed_accounts intro!: accounts_append)
    qed (use assms AwaitEvent in auto)
  next
    case (ExceptNext i)
    then show ?thesis using assms rest none by (cases input) (auto simp: accounts_quiet)
  next
    case (CancelSession i r)
    have nr: "\<forall>j. \<not> releases j (c # rest)" using assms(1) CancelSession by simp
    have e: "accounts s u []" if "controlled_cancel i r s = (Inl x, u, w)" for x u w
      using that by (auto simp: controlled_cancel_def accounts_quiet split: if_splits prod.splits)
    show ?thesis using assms CancelSession nr none rest e
      by (cases input) (auto split: prod.splits sum.splits dest!: controlled_cancel_accounts intro!: accounts_append)
  next
    case AwaitRollback
    have nr: "\<forall>j. \<not> releases j (c # rest)" using assms(1) AwaitRollback by simp
    show ?thesis using assms(2) AwaitRollback nr none rest unwind_accounts
      by (cases "(c, input, rest, s)" rule: resume.cases) (auto simp: accounts_quiet)
  next
    case (FinallyReleaseLease l)
    have nr: "\<forall>j. \<not> releases j (c # rest)" using assms(1) FinallyReleaseLease by simp
    show ?thesis using assms FinallyReleaseLease nr none rest
      by (cases input) (auto split: prod.splits dest!: release_lease_accounts intro!: accounts_append)
  next
    case AwaitDrained
    have nr: "\<forall>j. \<not> releases j (c # rest)" using assms(1) AwaitDrained by simp
    show ?thesis using assms(2) AwaitDrained nr none rest unwind_accounts
      by (cases "(c, input, rest, s)" rule: resume.cases) (auto simp: accounts_quiet split: if_splits)
  qed
qed

lemma submit_reserved_accounts:
  "accounts s (snd (submit_reserved l r final runtime s)) []
     \<and> cn_cancel_failed (snd (submit_reserved l r final runtime s)) = cn_cancel_failed s"
proof -
  have reg: "accounts s (snd (register_session l r final u)) [] \<and> cn_cancel_failed (snd (register_session l r final u)) = cn_cancel_failed s"
    if "cn_session_heap u = cn_session_heap s" "cn_cancel_failed u = cn_cancel_failed s" for u
    using that by (auto simp: register_session_def Let_def accounts_def nth_append ended_def less_Suc_eq)
  show ?thesis
    unfolding submit_reserved_def Let_def by (auto simp: accounts_quiet reg split: option.split submission.split)
qed

lemma acquire_quiet [simp]:
  "cn_session_heap (snd (acquire rid s)) = cn_session_heap s" "cn_cancel_failed (snd (acquire rid s)) = cn_cancel_failed s"
  by (simp_all add: acquire_def Let_def)

lemma inject_text_quiet [simp]:
  "cn_session_heap (snd (inject_text rid txt acc s)) = cn_session_heap s"
  "cn_cancel_failed (snd (inject_text rid txt acc s)) = cn_cancel_failed s"
  by (simp_all add: inject_text_def split: option.split)

lemma controller_submit_accounts:
  assumes "controller_submit r runtime s = (out, t, todo)" shows "accounts s t todo"
proof -
  obtain q s1 where a: "acquire (rq_request_id r) s = (q, s1)" by fastforce
  have s1: "cn_session_heap s1 = cn_session_heap s" "cn_cancel_failed s1 = cn_cancel_failed s"
    using acquire_quiet [of "rq_request_id r" s] a by simp_all
  show ?thesis
  proof (cases q)
    case (Inl e)
    then show ?thesis using assms a s1 by (simp add: controller_submit_def accounts_quiet)
  next
    case (Inr l)
    obtain w s2 where w: "submit_reserved l r True runtime s1 = (w, s2)" by fastforce
    have s2: "accounts s1 s2 []" using submit_reserved_accounts [of s1 l r True runtime] w by simp
    have "accounts s1 t todo"
      using assms a Inr w s2 unfolding controller_submit_def
      by (cases w; cases runtime)
        (auto split: bool.splits prod.splits
          dest: release_lease_remembers release_lease_accounts
          intro: accounts_trans [OF s2] accounts_append [of _ _ "[]" "[AwaitRollback, FinallyReleaseLease l]", simplified])
    then show ?thesis using s1 by (simp add: accounts_def)
  qed
qed

lemma ends_ok_same: "ends_ok s ts \<Longrightarrow> accounts s t [] \<Longrightarrow> remembers s t \<Longrightarrow> ends_ok t ts"
  using ends_ok_call [of s ts t "[]"] by (auto simp: ends_ok_def pending_release_def)

lemma ends_ok_tasks: "ends_ok s ts \<Longrightarrow> \<forall>task\<in>set tasks. ordered task \<Longrightarrow> ends_ok s (tasks @ ts)"
  by (auto simp: ends_ok_def pending_release_def)

lemma controller_close_accounts:
  "controller_close r s = (out, t, tasks) \<Longrightarrow> accounts s t [] \<and> (\<forall>task\<in>set tasks. ordered task)"
  by (auto simp: controller_close_def mark_registered_def accounts_def split: if_splits)

lemma step_ends_ok:
  assumes "step (s, ts) (t, ts')" "ends_ok s ts"
  shows "ends_ok t ts'"
proof -
  have r: "remembers s t" using step_remembers [OF assms(1)] .
  have same: "ends_ok t ts" if "accounts s t []" using ends_ok_same [OF assms(2) that r] .
  have call: "ends_ok t (todo # ts)" if "accounts s t todo" for todo using ends_ok_call [OF assms(2) that r] .
  have sub: "accounts s (snd (lease_submit final l q rt s)) []" for final l q rt
    using submit_reserved_accounts by (simp add: lease_submit_def accounts_quiet)
  show ?thesis
  proof (rule stepE [OF assms(1)])
    fix c input rest todo pre post
    assume p: "ts = pre @ (c # rest) # post" "ts' = pre @ todo # post" "resume c input rest s = Some (t, todo)"
    have "ordered (c # rest)" using assms(2) p(1) by (auto simp: ends_ok_def)
    from resume_accounts [OF this p(3)] show ?thesis
      using ends_ok_resume [of s pre "c # rest" post t todo] assms(2) p r by simp
  next
    fix q out tasks assume "ts' = tasks @ ts" "controller_close q s = (out, t, tasks)"
    then show ?thesis using controller_close_accounts same ends_ok_tasks by blast
  next
    fix d assume "t = s\<lparr>cn_clock := cn_clock s + d\<rparr>" "ts' = ts"
    then show ?thesis using same by (simp add: accounts_quiet)
  next
    fix rid assume "t = snd (acquire rid s)" "ts' = ts"
    then show ?thesis using same by (simp add: accounts_quiet)
  next
    fix rid body accepted assume "t = snd (inject_text rid body accepted s)" "ts' = ts"
    then show ?thesis using same by (simp add: accounts_quiet)
  next
    fix l final q rt assume "t = snd (lease_submit final l q rt s)" "ts' = ts"
    then show ?thesis using same sub by simp
  qed (auto intro!: call dest: controller_submit_accounts release_lease_accounts controlled_cancel_accounts controlled_exit_accounts
      controlled_next_accounts)
qed

section \<open>Properties\<close>

lemma reachable_ok:
  assumes "reachable c s ts"
  shows "world_ok s ts \<and> ends_ok s ts \<and> cn_config s = c"
  using assms unfolding reachable_def
proof (induction "(s, ts)" arbitrary: s ts rule: rtranclp_induct)
  case base
  then show ?case
    by (auto simp: world_ok_def new_controller_ok ends_ok_def) (simp_all add: new_controller_def)
next
  case (step y)
  obtain u us where y: "y = (u, us)" by fastforce
  with step have "world_ok u us" "ends_ok u us" "cn_config u = c" by auto
  then show ?case using step_world_ok [of u us s ts] step_ends_ok [of u us s ts] step(2) y by (auto simp: grows_def)
qed

lemma steps_remember:
  assumes "step\<^sup>*\<^sup>* (s, ts) (t, ts')" shows "remembers s t"
  using assms
proof (induction "(t, ts')" arbitrary: t ts' rule: rtranclp_induct)
  case (step y)
  obtain u us where y: "y = (u, us)" by fastforce
  then have "remembers s u" "remembers u t" using step step_remembers by auto
  then show ?case by (rule remembers_trans)
qed simp

text \<open>C25. Admission control: in every reachable state, however the operations of concurrent tasks interleave
  and whatever the runtime does, the in-flight count is the number of leases that were acquired and not
  released, it is between zero and the configured maximum, and the drained flag is set exactly when it is
  zero; a request id names exactly the lease that holds it, and the registered session of an id is the
  attempt of the lease of that id.\<close>

theorem admission_invariant:
  assumes "reachable c s ts" "0 < max_in_flight c"
  shows "0 \<le> cn_in_flight s \<and> cn_in_flight s \<le> max_in_flight c \<and> (cn_drained s \<longleftrightarrow> cn_in_flight s = 0)
    \<and> cn_in_flight s = int (card {l. l < length (cn_lease_heap s) \<and> ls_state (the_lease s l) \<noteq> RELEASED})
    \<and> (\<forall>rid l. cn_leases s rid = Some l
         \<longleftrightarrow> l < length (cn_lease_heap s) \<and> ls_state (the_lease s l) \<noteq> RELEASED \<and> ls_request (the_lease s l) = rid)
    \<and> (\<forall>rid i. cn_by_request s rid = Some i \<longleftrightarrow> (\<exists>l. cn_leases s rid = Some l \<and> ls_session (the_lease s l) = Some i))"
proof -
  have ok: "leases_ok s" "count_ok s" "attempts_ok s" "cn_config s = c"
    using reachable_ok [OF assms(1)] by (auto simp: world_ok_def control_ok_def)
  have names: "cn_leases s rid = Some l
      \<longleftrightarrow> l < length (cn_lease_heap s) \<and> ls_state (the_lease s l) \<noteq> RELEASED \<and> ls_request (the_lease s l) = rid" for rid l
    using ok(1) unfolding leases_ok_def by blast
  let ?L = "{l. l < length (cn_lease_heap s) \<and> ls_state (the_lease s l) \<noteq> RELEASED}"
  have "bij_betw (\<lambda>l. ls_request (the_lease s l)) ?L (dom (cn_leases s))"
  proof (rule bij_betwI')
    fix l k assume "l \<in> ?L" "k \<in> ?L"
    then have "cn_leases s (ls_request (the_lease s l)) = Some l" "cn_leases s (ls_request (the_lease s k)) = Some k"
      using names by simp_all
    then show "(ls_request (the_lease s l) = ls_request (the_lease s k)) = (l = k)" by (metis option.inject)
  next
    fix l assume "l \<in> ?L"
    then have "cn_leases s (ls_request (the_lease s l)) = Some l" using names by simp
    then show "ls_request (the_lease s l) \<in> dom (cn_leases s)" by (rule domI)
  next
    fix rid assume "rid \<in> dom (cn_leases s)"
    then obtain l where "cn_leases s rid = Some l" by blast
    then show "\<exists>l\<in>?L. rid = ls_request (the_lease s l)" using names by auto
  qed
  then have "card ?L = card (dom (cn_leases s))" by (rule bij_betw_same_card)
  moreover have "cn_by_request s rid = Some i \<longleftrightarrow> (\<exists>l. cn_leases s rid = Some l \<and> ls_session (the_lease s l) = Some i)" for rid i
  proof
    assume "cn_by_request s rid = Some i"
    note b = session_by_request [OF ok(3) this]
    note r = registered_session [OF ok(3) b(1)]
    show "\<exists>l. cn_leases s rid = Some l \<and> ls_session (the_lease s l) = Some i"
      using attached_lease(2) [OF ok(1) r(3,2)] r(2) lease_of_session(2) [OF ok(3) r(1)] b(2) by auto
  next
    assume "\<exists>l. cn_leases s rid = Some l \<and> ls_session (the_lease s l) = Some i"
    then show "cn_by_request s rid = Some i"
      using attempt_of_lease(5) [OF ok(3)] registered_lease [OF ok(1)] by metis
  qed
  ultimately show ?thesis using ok(2,4) assms(2) unfolding names [symmetric] by (simp add: count_ok_def names)
qed

text \<open>C26. Terminal decisions are made once: after any further steps a released lease is still released, the terminal
  reason of a lease or a session is the first one it was given, cancelled, ended and released sessions stay so,
  a closed controller stays closed, and the runtime's cancel has been called at most once for every session.\<close>

theorem control_decisions_are_final:
  assumes "reachable c s ts" "step\<^sup>*\<^sup>* (s, ts) (t, ts')"
  shows "(\<forall>l < length (cn_lease_heap s).
      (ls_state (the_lease s l) = RELEASED \<longrightarrow> ls_state (the_lease t l) = RELEASED)
      \<and> (\<forall>r. ls_reason (the_lease s l) = Some r \<longrightarrow> ls_reason (the_lease t l) = Some r))
    \<and> (\<forall>i < length (cn_session_heap s).
      (\<forall>r. cs_reason (the_session s i) = Some r \<longrightarrow> cs_reason (the_session t i) = Some r)
      \<and> (cs_released (the_session s i) \<longrightarrow> cs_released (the_session t i))
      \<and> (cs_iteration_terminal (the_session s i) \<longrightarrow> cs_iteration_terminal (the_session t i)))
    \<and> (cn_closed s \<longrightarrow> cn_closed t) \<and> (\<forall>i. cn_cancels t i \<le> 1)"
proof -
  have r: "remembers s t" using steps_remember [OF assms(2)] .
  have "reachable c t ts'" using assms unfolding reachable_def by (rule rtranclp_trans)
  then have "cancels_ok t" using reachable_ok by (auto simp: world_ok_def control_ok_def)
  then have "\<forall>i. cn_cancels t i \<le> 1" by (simp add: cancels_ok_def)
  then show ?thesis using r by (auto simp: remembers_def lease_keeps_def session_keeps_def)
qed

text \<open>C27. No slot leaks: when every started operation has run to its end, a session that was cancelled or iterated
  to its end, and whose runtime did not fail to cancel, is released and no longer registered; if it was the
  final attempt of its lease, the lease is released and its slot is free.\<close>

theorem ended_sessions_free_their_slot:
  assumes "reachable c s ts" "\<forall>task\<in>set ts. task = []" "i < length (cn_session_heap s)"
    and "cs_cancel_called (the_session s i) \<or> cs_iteration_terminal (the_session s i)" "i \<notin> cn_cancel_failed s"
  shows "cs_released (the_session s i) \<and> i \<notin> cn_sessions s
    \<and> (cs_final (the_session s i) \<longrightarrow> ls_state (the_lease s (cs_lease (the_session s i))) = RELEASED)"
proof -
  have ok: "attempts_ok s" "ends_ok s ts" using reachable_ok [OF assms(1)] by (auto simp: world_ok_def control_ok_def)
  have "pending_release s ts i" using ok(2) assms(3,4) by (auto simp: ends_ok_def ended_def)
  then have rel: "cs_released (the_session s i)" using assms(2,5) by (auto simp: pending_release_def)
  have "i \<notin> cn_sessions s"
  proof
    assume "i \<in> cn_sessions s"
    note r = registered_session [OF ok(1) this]
    show False using attempt_of_lease(3) [OF ok(1) r(3,2)] rel by simp
  qed
  then show ?thesis using rel lease_of_session(3) [OF ok(1) assms(3)] by simp
qed

section \<open>A run of one request\<close>

definition ex_lost :: runtime_event where
  "ex_lost = RuntimeFailed ''r'' (canonical_error4 RUNTIME_FAILURE ''lost'' ''m'' False)"

definition ex_acquired :: controller where "ex_acquired = snd (acquire ''r'' (new_controller ex_limits))"
definition ex_submitted :: controller where "ex_submitted = snd (lease_submit True 0 ex_request Submitted ex_acquired)"
definition ex_ended :: controller where "ex_ended = hand_out 0 ex_lost ex_submitted"

lemma ex_run_steps:
  "step\<^sup>*\<^sup>* (new_controller ex_limits, []) (ex_submitted, [[AwaitEvent 0 False, ExceptNext 0]])"
  "step\<^sup>*\<^sup>* (ex_submitted, [[AwaitEvent 0 False, ExceptNext 0]]) (ex_ended, [[]])"
proof -
  have a: "step (new_controller ex_limits, []) (ex_acquired, [])" unfolding ex_acquired_def by (rule acquires)
  have "0 < length (cn_lease_heap ex_acquired)" by code_simp
  then have b: "step (ex_acquired, []) (ex_submitted, [])" unfolding ex_submitted_def by (rule submits)
  have "0 < length (cn_session_heap ex_submitted)" by code_simp
  moreover have "cs_iteration_terminal (the_session ex_submitted 0) = False" "cs_deadline (the_session ex_submitted 0) = None"
    by code_simp+
  then have "controlled_next 0 ex_submitted = (Inr (), ex_submitted, [AwaitEvent 0 False, ExceptNext 0])"
    by (simp add: controlled_next_def)
  ultimately have c: "step (ex_submitted, []) (ex_submitted, [[AwaitEvent 0 False, ExceptNext 0]])" by (rule iterates)
  show "step\<^sup>*\<^sup>* (new_controller ex_limits, []) (ex_submitted, [[AwaitEvent 0 False, ExceptNext 0]])"
    using a b c by (meson converse_rtranclp_into_rtranclp rtranclp.rtrancl_refl)
  have d: "step (ex_submitted, [[AwaitEvent 0 False, ExceptNext 0]]) (ex_ended, [[ExceptNext 0]])"
    using resumes [of "AwaitEvent 0 False" "Arrives ex_lost" "[ExceptNext 0]" ex_submitted ex_ended "[ExceptNext 0]" "[]" "[]"]
    by (simp add: ex_ended_def)
  have e: "step (ex_ended, [[ExceptNext 0]]) (ex_ended, [[]])"
    using resumes [of "ExceptNext 0" Returns "[]" ex_ended ex_ended "[]" "[]" "[]"] by simp
  show "step\<^sup>*\<^sup>* (ex_submitted, [[AwaitEvent 0 False, ExceptNext 0]]) (ex_ended, [[]])"
    using d e by (meson converse_rtranclp_into_rtranclp rtranclp.rtrancl_refl)
qed

lemma ex_reachable: "reachable ex_limits ex_submitted [[AwaitEvent 0 False, ExceptNext 0]]" "reachable ex_limits ex_ended [[]]"
  using ex_run_steps by (auto simp: reachable_def intro: rtranclp_trans)

lemma admission_invariant_witness:
  "cn_in_flight ex_submitted = 1 \<and> cn_in_flight ex_submitted \<le> max_in_flight ex_limits \<and> \<not> cn_drained ex_submitted"
proof -
  have "0 < max_in_flight ex_limits" "cn_in_flight ex_submitted = 1" by code_simp+
  then show ?thesis using admission_invariant [OF ex_reachable(1)] by simp
qed

lemma control_decisions_are_final_witness:
  "length (cn_session_heap ex_submitted) = 1 \<and> cs_reason (the_session ex_ended 0) = Some RT_RUNTIME_FAILED
   \<and> cn_cancels ex_ended 0 \<le> 1"
proof -
  have "length (cn_session_heap ex_submitted) = 1" "cs_reason (the_session ex_ended 0) = Some RT_RUNTIME_FAILED" by code_simp+
  then show ?thesis using control_decisions_are_final [OF ex_reachable(1) ex_run_steps(2)] by simp
qed

lemma ended_sessions_free_their_slot_witness:
  "cs_reason (the_session ex_ended 0) = Some RT_RUNTIME_FAILED \<and> ls_state (the_lease ex_ended 0) = RELEASED \<and> 0 \<notin> cn_sessions ex_ended"
proof -
  have "0 < length (cn_session_heap ex_ended)" "cs_iteration_terminal (the_session ex_ended 0)" "0 \<notin> cn_cancel_failed ex_ended"
    "cs_final (the_session ex_ended 0)" "cs_lease (the_session ex_ended 0) = 0"
    "cs_reason (the_session ex_ended 0) = Some RT_RUNTIME_FAILED" by code_simp+
  then show ?thesis using ended_sessions_free_their_slot [OF ex_reachable(2), of 0] by simp
qed

end
