(* ===== verification/Vision_Cache.thy ===== *)
theory Vision_Cache
  imports Runtime_Contracts "HOL-Library.Sublist"
begin

text \<open>
  The cache of multimodal embeddings, \<open>src/exqserve/runtime/vision_cache.py\<close>. An embedding is a
  Python object: \<open>em_id\<close> is its identity, which \<open>is not\<close> compares, the other fields are what the
  cache reads of it. The entries are an \<open>OrderedDict\<close>, oldest first. Every method is one critical
  section; the cancellation guard of a commit is the argument that says whether it may publish.
\<close>

section \<open>Embeddings\<close>

text \<open>\<open>tn_measurable\<close>: \<open>numel\<close> and \<open>element_size\<close> are callable. \<open>tn_cpu\<close>: the device type is "cpu".\<close>

record tensor =
  tn_measurable :: bool
  tn_cpu :: bool
  tn_numel :: int
  tn_element_size :: int

datatype deepstack = NoDeepstack | Deepstack "tensor list" | OtherDeepstack

record embedding =
  em_id :: nat
  em_tensor :: "tensor option"
  em_deepstack :: deepstack

definition tensor_retained_bytes :: "tensor \<Rightarrow> int option" where
  "tensor_retained_bytes t =
     (if \<not> tn_measurable t then None
      else if \<not> tn_cpu t then None
      else let retained = tn_numel t * tn_element_size t in if retained < 0 then None else Some retained)"

fun deepstack_bytes :: "tensor list \<Rightarrow> int \<Rightarrow> int option" where
  "deepstack_bytes [] retained = Some retained"
| "deepstack_bytes (t # ts) retained = (case tensor_retained_bytes t of
     None \<Rightarrow> None | Some b \<Rightarrow> deepstack_bytes ts (retained + b))"

definition embedding_retained_tensor_bytes :: "embedding \<Rightarrow> int option" where
  "embedding_retained_tensor_bytes e = (case em_tensor e of
       None \<Rightarrow> None
     | Some t \<Rightarrow> (case tensor_retained_bytes t of
         None \<Rightarrow> None
       | Some retained \<Rightarrow> (case em_deepstack e of
           NoDeepstack \<Rightarrow> Some retained
         | OtherDeepstack \<Rightarrow> None
         | Deepstack ts \<Rightarrow> deepstack_bytes ts retained)))"

section \<open>State\<close>

record request_stats =
  vr_unique_media_count :: int
  vr_unique_media_bytes :: int
  vr_retained_media_bytes :: int
  vr_protected_prefix_entries :: int
  vr_protected_prefix_bytes :: int
  vr_admission_skipped :: int
  vr_first_unretained :: "int option"

definition no_request :: request_stats where
  "no_request = \<lparr>vr_unique_media_count = 0, vr_unique_media_bytes = 0, vr_retained_media_bytes = 0,
     vr_protected_prefix_entries = 0, vr_protected_prefix_bytes = 0, vr_admission_skipped = 0, vr_first_unretained = None\<rparr>"

type_synonym entries = "(string \<times> embedding \<times> int) list"

text \<open>\<open>vc_last_warning_at\<close> is none for minus infinity.\<close>

record vision_cache =
  vc_max_bytes :: int
  vc_entries :: entries
  vc_retained_bytes :: int
  vc_queries :: int
  vc_hits :: int
  vc_misses :: int
  vc_evictions :: int
  vc_admission_skipped :: int
  vc_over_budget :: int
  vc_incomplete :: int
  vc_last_request :: request_stats
  vc_last_warning_at :: "seconds option"

definition new_vision_cache :: "int \<Rightarrow> vision_cache res" where
  "new_vision_cache n = raise_if (n < 0) (ValueError ''max_retained_bytes must be non-negative'')
     (Inr \<lparr>vc_max_bytes = n, vc_entries = [], vc_retained_bytes = 0, vc_queries = 0, vc_hits = 0, vc_misses = 0,
        vc_evictions = 0, vc_admission_skipped = 0, vc_over_budget = 0, vc_incomplete = 0,
        vc_last_request = no_request, vc_last_warning_at = None\<rparr>)"

definition vc_enabled :: "vision_cache \<Rightarrow> bool" where
  "vc_enabled c \<longleftrightarrow> 0 < vc_max_bytes c"

section \<open>Lookups\<close>

definition vc_get :: "string \<Rightarrow> vision_cache \<Rightarrow> embedding option \<times> vision_cache" where
  "vc_get key c0 = (let c = c0\<lparr>vc_queries := vc_queries c0 + 1\<rparr> in
     case map_of (vc_entries c) key of
       None \<Rightarrow> (None, c\<lparr>vc_misses := vc_misses c + 1\<rparr>)
     | Some entry \<Rightarrow> (Some (fst entry),
         c\<lparr>vc_entries := AList.delete key (vc_entries c) @ [(key, entry)], vc_hits := vc_hits c + 1\<rparr>))"

definition vc_peek :: "string \<Rightarrow> vision_cache \<Rightarrow> embedding option" where
  "vc_peek key c = map_option fst (map_of (vc_entries c) key)"

fun snapshot_loop :: "string list \<Rightarrow> (string \<times> embedding) list \<Rightarrow> vision_cache \<Rightarrow> (string \<times> embedding) list \<times> vision_cache" where
  "snapshot_loop [] resolved c = (resolved, c)"
| "snapshot_loop (key # keys) resolved c = (case map_of (vc_entries c) key of
     None \<Rightarrow> snapshot_loop keys resolved (c\<lparr>vc_misses := vc_misses c + 1\<rparr>)
   | Some entry \<Rightarrow> snapshot_loop keys (AList.update key (fst entry) resolved) (c\<lparr>vc_hits := vc_hits c + 1\<rparr>))"

definition snapshot_request :: "string list \<Rightarrow> vision_cache \<Rightarrow> (string \<times> embedding) list res \<times> vision_cache" where
  "snapshot_request keys c =
     (if \<not> distinct keys then (Inl (ValueError ''keys must be unique''), c)
      else case snapshot_loop keys [] (c\<lparr>vc_queries := vc_queries c + int (length keys)\<rparr>) of
        (resolved, c1) \<Rightarrow> (Inr resolved, c1))"

section \<open>Committing a request\<close>

text \<open>The protected prefix: how many leading items fit, and their bytes.\<close>

fun protected_prefix :: "int \<Rightarrow> int option list \<Rightarrow> int \<Rightarrow> int \<Rightarrow> int \<times> int" where
  "protected_prefix budget [] n bytes = (n, bytes)"
| "protected_prefix budget (None # sizes) n bytes = (n, bytes)"
| "protected_prefix budget (Some bytes_of # sizes) n bytes =
     (if bytes + bytes_of > budget then (n, bytes) else protected_prefix budget sizes (n + 1) (bytes + bytes_of))"

text \<open>The items of the request that are kept: the protected prefix, then every later one that still fits.
  The result also has the bytes kept and the number of items skipped.\<close>

fun retain_items ::
  "int \<Rightarrow> int \<Rightarrow> int \<Rightarrow> (string \<times> embedding) list \<Rightarrow> int \<Rightarrow> int \<Rightarrow> entries \<times> int \<times> int" where
  "retain_items budget lead i [] bytes skipped = ([], bytes, skipped)"
| "retain_items budget lead i ((key, e) # items) bytes skipped =
     (case embedding_retained_tensor_bytes e of
        None \<Rightarrow> retain_items budget lead (i + 1) items bytes (skipped + 1)
      | Some bytes_of \<Rightarrow>
          if \<not> i < lead \<and> bytes + bytes_of > budget then retain_items budget lead (i + 1) items bytes (skipped + 1)
          else (case retain_items budget lead (i + 1) items (bytes + bytes_of) skipped of
             (kept, b, k) \<Rightarrow> ((key, e, bytes_of) # kept, b, k)))"

text \<open>The assertion that an item of the prefix has a size holds because the prefix ends at the first item
  without one. The old entries, newest first, that fit into what is left of the budget:\<close>

fun select_old :: "string list \<Rightarrow> int \<Rightarrow> entries \<Rightarrow> entries" where
  "select_old request available [] = []"
| "select_old request available ((key, e, bytes_of) # olds) =
     (if key \<in> set request then select_old request available olds
      else if bytes_of \<le> available then (key, e, bytes_of) # select_old request (available - bytes_of) olds
      else select_old request available olds)"

definition evicted_count :: "entries \<Rightarrow> entries \<Rightarrow> int" where
  "evicted_count new old = int (length (filter (\<lambda>(key, e, _). case map_of new key of
       None \<Rightarrow> True | Some (e', _) \<Rightarrow> em_id e' \<noteq> em_id e) old))"

definition warning_interval :: seconds where
  "warning_interval = 60"

definition total_bytes :: "entries \<Rightarrow> int" where
  "total_bytes es = sum_list (map (\<lambda>(_, _, bytes_of). bytes_of) es)"

text \<open>\<open>commit_request\<close>: \<open>now\<close> is the reading of the monotonic clock, \<open>allowed\<close> what the commit guard yields. The
  result is none when the commit was cancelled, otherwise the statistics and whether a warning is logged.\<close>

definition commit_request ::
  "bool \<Rightarrow> seconds \<Rightarrow> (string \<times> embedding) list \<Rightarrow> vision_cache
     \<Rightarrow> (request_stats \<times> bool) option res \<times> vision_cache" where
  "commit_request allowed now items c =
     (let keys = map fst items; sizes = map (\<lambda>x. embedding_retained_tensor_bytes (snd x)) items in
      if \<not> distinct keys then (Inl (ValueError ''resolved_items keys must be unique''), c)
      else
       (let budget = vc_max_bytes c;
            unique_bytes = sum_list (List.map_filter id sizes);
            (lead, lead_bytes) = protected_prefix budget sizes 0 0;
            first_unretained = (if lead < int (length items) then Some (lead + 1) else None);
            over_budget = (items \<noteq> [] \<and> budget > 0 \<and> None \<notin> set sizes \<and> unique_bytes > budget);
            (current, retained, skipped) = retain_items budget lead 0 items 0 0 in
        if \<not> allowed then (Inr None, c)
        else
         (let olds = rev (select_old keys (budget - retained) (rev (vc_entries c)));
              new = olds @ current;
              stats = \<lparr>vr_unique_media_count = int (length items), vr_unique_media_bytes = unique_bytes,
                vr_retained_media_bytes = total_bytes (filter (\<lambda>x. fst x \<in> set (map fst current)) new),
                vr_protected_prefix_entries = lead, vr_protected_prefix_bytes = lead_bytes,
                vr_admission_skipped = skipped, vr_first_unretained = first_unretained\<rparr>;
              warn = (over_budget \<and> first_unretained \<noteq> None
                \<and> (case vc_last_warning_at c of None \<Rightarrow> True | Some t \<Rightarrow> warning_interval \<le> now - t)) in
          (Inr (Some (stats, warn)),
           c\<lparr>vc_entries := new, vc_retained_bytes := total_bytes new,
             vc_evictions := vc_evictions c + evicted_count new (vc_entries c),
             vc_admission_skipped := vc_admission_skipped c + skipped,
             vc_over_budget := (if over_budget then vc_over_budget c + 1 else vc_over_budget c),
             vc_incomplete := (if first_unretained \<noteq> None then vc_incomplete c + 1 else vc_incomplete c),
             vc_last_request := stats,
             vc_last_warning_at := (if warn then Some now else vc_last_warning_at c)\<rparr>))))"

text \<open>\<open>commit_request_if_active\<close> without a cancellation object always may publish; with one, it is
  the object's commit section that says so.\<close>

definition commit_request_if_active ::
  "bool option \<Rightarrow> seconds \<Rightarrow> (string \<times> embedding) list \<Rightarrow> vision_cache
     \<Rightarrow> (request_stats \<times> bool) option res \<times> vision_cache" where
  "commit_request_if_active cancellation now items c = (case cancellation of
       None \<Rightarrow> commit_request True now items c
     | Some allowed \<Rightarrow> commit_request allowed now items c)"

section \<open>Single entries\<close>

fun evict_oldest :: "int \<Rightarrow> entries \<Rightarrow> int \<Rightarrow> int \<Rightarrow> entries \<times> int \<times> int" where
  "evict_oldest budget [] retained evictions = ([], retained, evictions)"
| "evict_oldest budget ((key, e, bytes_of) # es) retained evictions =
     (if retained > budget then evict_oldest budget es (retained - bytes_of) (evictions + 1)
      else ((key, e, bytes_of) # es, retained, evictions))"

definition vc_put :: "string \<Rightarrow> embedding \<Rightarrow> vision_cache \<Rightarrow> bool \<times> vision_cache" where
  "vc_put key e c =
     (if \<not> vc_enabled c then (False, c)
      else case embedding_retained_tensor_bytes e of
        None \<Rightarrow> (False, c)
      | Some bytes_of \<Rightarrow>
          if bytes_of > vc_max_bytes c then (False, c)
          else (let freed = (case map_of (vc_entries c) key of None \<Rightarrow> 0 | Some (_, b) \<Rightarrow> b);
                    es = AList.delete key (vc_entries c) @ [(key, e, bytes_of)];
                    (kept, retained, evictions) =
                      evict_oldest (vc_max_bytes c) es (vc_retained_bytes c - freed + bytes_of) (vc_evictions c) in
                (True, c\<lparr>vc_entries := kept, vc_retained_bytes := retained, vc_evictions := evictions\<rparr>)))"

definition vc_clear :: "vision_cache \<Rightarrow> vision_cache" where
  "vc_clear c = c\<lparr>vc_entries := [], vc_retained_bytes := 0, vc_last_request := no_request\<rparr>"

definition vc_entry_count :: "vision_cache \<Rightarrow> int" where
  "vc_entry_count c = int (length (vc_entries c))"

section \<open>What a commit keeps\<close>

lemma subseq_subset: "subseq xs ys \<Longrightarrow> set xs \<subseteq> set ys"
  by (induction rule: list_emb.induct) auto

lemma subseq_keeps_distinct: "subseq xs ys \<Longrightarrow> distinct ys \<Longrightarrow> distinct xs"
  by (induction rule: list_emb.induct) (auto dest: subseq_subset)

lemma retain_items_late:
  "p \<le> i \<Longrightarrow> q \<le> i \<Longrightarrow> retain_items budget p i items b k = retain_items budget q i items b k"
proof (induction items arbitrary: i b k)
  case (Cons item items)
  then show ?case by (cases item) (simp split: option.split)
qed simp

lemma protected_prefix_grows: "fst (protected_prefix budget sizes n b) \<ge> n"
proof (induction budget sizes n b rule: protected_prefix.induct)
  case (3 budget z sizes n b)
  then show ?case by (cases "b + z > budget") auto
qed simp_all

text \<open>The special treatment of the protected prefix changes nothing: its items fit anyway.\<close>

lemma retain_items_greedy:
  assumes "protected_prefix budget (map (\<lambda>x. embedding_retained_tensor_bytes (snd x)) items) i b = (p, pb)"
  shows "retain_items budget p i items b k = retain_items budget i i items b k"
  using assms
proof (induction items arbitrary: i b k)
  case (Cons item items)
  obtain key e where item: "item = (key, e)" by fastforce
  show ?case
  proof (cases "embedding_retained_tensor_bytes e")
    case None
    then show ?thesis using Cons.prems item retain_items_late [of p "i + 1" i] by simp
  next
    case (Some z)
    show ?thesis
    proof (cases "b + z > budget")
      case True
      then show ?thesis using Cons.prems item Some by simp
    next
      case False
      then have pre: "protected_prefix budget (map (\<lambda>x. embedding_retained_tensor_bytes (snd x)) items) (i + 1) (b + z) = (p, pb)"
        using Cons.prems item Some by simp
      have "retain_items budget (i + 1) (i + 1) items (b + z) k = retain_items budget i (i + 1) items (b + z) k"
        by (rule retain_items_late) auto
      then show ?thesis using Cons.IH [OF pre] item Some False by simp
    qed
  qed
qed simp

lemma total_bytes_simps [simp]:
  "total_bytes [] = 0" "total_bytes ((k, e, z) # es) = z + total_bytes es" "total_bytes (es @ fs) = total_bytes es + total_bytes fs"
  by (simp_all add: total_bytes_def)

lemma total_bytes_rev [simp]: "total_bytes (rev es) = total_bytes es"
  by (induction es) auto

lemma retain_items_kept:
  assumes "retain_items budget i i items b k = (kept, b', k')"
  shows "b' = b + total_bytes kept \<and> (b \<le> budget \<longrightarrow> b' \<le> budget) \<and> subseq (map (\<lambda>(key, e, _). (key, e)) kept) items
    \<and> (\<forall>(key, e, z)\<in>set kept. embedding_retained_tensor_bytes e = Some z)"
  using assms
proof (induction items arbitrary: i b k kept b' k')
  case (Cons item items)
  obtain key e where item: "item = (key, e)" by fastforce
  have next_i: "retain_items budget i (i + 1) items c l = retain_items budget (i + 1) (i + 1) items c l" for c l
    by (rule retain_items_late) auto
  show ?case
  proof (cases "\<exists>z. embedding_retained_tensor_bytes e = Some z \<and> b + z \<le> budget")
    case False
    then have "retain_items budget (i + 1) (i + 1) items b (k + 1) = (kept, b', k')"
      using Cons.prems item next_i by (auto split: option.splits if_splits)
    from Cons.IH [OF this] show ?thesis by auto
  next
    case True
    then obtain z where z: "embedding_retained_tensor_bytes e = Some z" "b + z \<le> budget" by blast
    obtain ks b1 k1 where r: "retain_items budget (i + 1) (i + 1) items (b + z) k = (ks, b1, k1)" by (metis prod_cases3)
    then have "kept = (key, e, z) # ks" "b' = b1" using Cons.prems item z next_i by auto
    then show ?thesis using Cons.IH [OF r] z item by auto
  qed
qed simp

lemma select_old_kept:
  "subseq (select_old request available olds) olds
     \<and> (\<forall>(key, e, z)\<in>set (select_old request available olds). key \<notin> set request)"
  by (induction request available olds rule: select_old.induct) auto

lemma select_old_fits:
  "\<forall>(key, e, z)\<in>set olds. 0 \<le> z \<Longrightarrow> 0 \<le> available \<Longrightarrow> total_bytes (select_old request available olds) \<le> available"
proof (induction request available olds rule: select_old.induct)
  case (2 request available key e z olds)
  then show ?case by auto
qed simp

section \<open>The invariant\<close>

definition cache_ok :: "vision_cache \<Rightarrow> bool" where
  "cache_ok c \<longleftrightarrow> 0 \<le> vc_max_bytes c \<and> distinct (map fst (vc_entries c))
     \<and> (\<forall>(key, e, z)\<in>set (vc_entries c). embedding_retained_tensor_bytes e = Some z \<and> 0 \<le> z)
     \<and> vc_retained_bytes c = total_bytes (vc_entries c) \<and> vc_retained_bytes c \<le> vc_max_bytes c
     \<and> vc_queries c = vc_hits c + vc_misses c"

lemma tensor_bytes_nonneg: "tensor_retained_bytes t = Some z \<Longrightarrow> 0 \<le> z"
  by (auto simp: tensor_retained_bytes_def Let_def split: if_splits)

lemma deepstack_bytes_nonneg: "deepstack_bytes ts b = Some z \<Longrightarrow> 0 \<le> b \<Longrightarrow> 0 \<le> z"
  by (induction ts b rule: deepstack_bytes.induct) (auto split: option.splits dest: tensor_bytes_nonneg)

lemma embedding_bytes_nonneg: "embedding_retained_tensor_bytes e = Some z \<Longrightarrow> 0 \<le> z"
  by (auto simp: embedding_retained_tensor_bytes_def split: option.splits deepstack.splits
      dest: tensor_bytes_nonneg deepstack_bytes_nonneg)

lemma total_bytes_nonneg: "\<forall>(key, e, z)\<in>set es. 0 \<le> z \<Longrightarrow> 0 \<le> total_bytes es"
  by (induction es) auto

lemma total_bytes_dict_sum: "total_bytes es = dict_sum snd es"
  by (simp add: total_bytes_def dict_sum_def split_def o_def)

lemma total_bytes_delete:
  assumes "distinct (map fst es)"
  shows "total_bytes (AList.delete key es) = total_bytes es - (case map_of es key of None \<Rightarrow> 0 | Some (_, z) \<Rightarrow> z)"
proof (cases "map_of es key")
  case None
  then have "AList.delete key es = es" by (intro delete_absent) (simp add: map_of_eq_None_iff)
  then show ?thesis using None by simp
next
  case (Some entry)
  then show ?thesis using assms by (cases entry) (simp add: total_bytes_dict_sum dict_sum_delete)
qed

lemma evict_oldest_result:
  assumes "evict_oldest budget es r n = (kept, r', n')" "r = total_bytes es"
  shows "\<exists>gone. es = gone @ kept \<and> r' = total_bytes kept \<and> (r' \<le> budget \<or> kept = [])"
  using assms
proof (induction budget es r n rule: evict_oldest.induct)
  case (2 budget key e z es r n)
  show ?case
  proof (cases "r > budget")
    case True
    then have "evict_oldest budget es (r - z) (n + 1) = (kept, r', n')" "r - z = total_bytes es" using 2(2,3) by simp_all
    from 2(1) [OF True this] obtain gone where "es = gone @ kept" "r' = total_bytes kept" "r' \<le> budget \<or> kept = []" by blast
    then show ?thesis by (intro exI [of _ "(key, e, z) # gone"]) auto
  next
    case False
    then show ?thesis using 2 by auto
  qed
qed auto

lemma snapshot_loop_frame:
  "snapshot_loop keys resolved c = (out, c') \<Longrightarrow> \<exists>h m. 0 \<le> h \<and> h + m = int (length keys)
     \<and> c' = c\<lparr>vc_hits := vc_hits c + h, vc_misses := vc_misses c + m\<rparr>"
proof (induction keys resolved c rule: snapshot_loop.induct)
  case (1 resolved c)
  then show ?case by (intro exI [of _ 0]) auto
next
  case (2 key keys resolved c)
  show ?case
  proof (cases "map_of (vc_entries c) key")
    case None
    with 2 obtain h m where "0 \<le> h" "h + m = int (length keys)"
      "c' = c\<lparr>vc_misses := vc_misses c + 1, vc_hits := vc_hits c + h\<rparr>\<lparr>vc_misses := vc_misses c + 1 + m\<rparr>" by auto
    then show ?thesis by (intro exI [of _ h] exI [of _ "m + 1"]) auto
  next
    case (Some entry)
    with 2 obtain h m where "0 \<le> h" "h + m = int (length keys)"
      "c' = c\<lparr>vc_hits := vc_hits c + 1 + h, vc_misses := vc_misses c + m\<rparr>" by auto
    then show ?thesis by (intro exI [of _ "h + 1"] exI [of _ m]) auto
  qed
qed

lemma get_ok: "cache_ok c \<Longrightarrow> cache_ok (snd (vc_get key c))"
proof (cases "map_of (vc_entries c) key")
  case None
  then show "cache_ok c \<Longrightarrow> ?thesis" by (simp add: vc_get_def Let_def cache_ok_def)
next
  case (Some entry)
  obtain e z where entry: "entry = (e, z)" by fastforce
  assume ok: "cache_ok c"
  have mem: "(key, e, z) \<in> set (vc_entries c)" using Some entry by (simp add: map_of_SomeD)
  have d: "distinct (map fst (vc_entries c))" using ok by (simp add: cache_ok_def)
  have "total_bytes (AList.delete key (vc_entries c)) = total_bytes (vc_entries c) - z"
    using total_bytes_delete [OF d, of key] Some entry by simp
  moreover have "key \<notin> fst ` set (AList.delete key (vc_entries c))" by (simp add: keys_delete)
  moreover have "set (AList.delete key (vc_entries c)) \<subseteq> set (vc_entries c)" by (auto simp: set_delete)
  ultimately show ?thesis
    using ok mem d by (auto simp: vc_get_def Let_def Some entry cache_ok_def)
qed

lemma snapshot_ok: "cache_ok c \<Longrightarrow> cache_ok (snd (snapshot_request keys c))"
  by (cases "snapshot_loop keys [] (c\<lparr>vc_queries := vc_queries c + int (length keys)\<rparr>)")
    (auto simp: snapshot_request_def cache_ok_def dest!: snapshot_loop_frame)

lemma cache_put_ok:
  assumes ok: "cache_ok c" shows "cache_ok (snd (vc_put key e c))"
proof (cases "vc_enabled c \<and> (\<exists>z. embedding_retained_tensor_bytes e = Some z \<and> z \<le> vc_max_bytes c)")
  case False
  then have "snd (vc_put key e c) = c" by (auto simp: vc_put_def split: option.split)
  then show ?thesis using ok by simp
next
  case True
  then obtain z where z: "embedding_retained_tensor_bytes e = Some z" "z \<le> vc_max_bytes c" by blast
  let ?es = "AList.delete key (vc_entries c) @ [(key, e, z)]"
  let ?r = "vc_retained_bytes c - (case map_of (vc_entries c) key of None \<Rightarrow> 0 | Some (_, b) \<Rightarrow> b) + z"
  obtain kept r n where ev: "evict_oldest (vc_max_bytes c) ?es ?r (vc_evictions c) = (kept, r, n)" by (metis prod_cases3)
  have d: "distinct (map fst (vc_entries c))" using ok by (simp add: cache_ok_def)
  have "?r = total_bytes ?es" using ok total_bytes_delete [OF d, of key] by (simp add: cache_ok_def)
  from evict_oldest_result [OF ev this] obtain gone where g: "?es = gone @ kept" "r = total_bytes kept"
      "r \<le> vc_max_bytes c \<or> kept = []" by blast
  have "distinct (map fst ?es)" using d by (simp add: keys_delete distinct_delete_keys)
  then have "distinct (map fst kept)" unfolding g(1) by simp
  moreover have "\<forall>(k, v, b)\<in>set ?es. embedding_retained_tensor_bytes v = Some b \<and> 0 \<le> b"
    using ok z embedding_bytes_nonneg by (auto simp: cache_ok_def set_delete)
  then have "\<forall>(k, v, b)\<in>set kept. embedding_retained_tensor_bytes v = Some b \<and> 0 \<le> b" unfolding g(1) by simp
  ultimately have "cache_ok (c\<lparr>vc_entries := kept, vc_retained_bytes := r, vc_evictions := n\<rparr>)"
    using g ok by (auto simp: cache_ok_def)
  then show ?thesis using True z ev by (simp add: vc_put_def Let_def)
qed

text \<open>A commit that is allowed to publish.\<close>

lemma commit_result:
  assumes ok: "cache_ok c" and d: "distinct (map fst items)"
    and c': "commit_request True now items c = (r, c')"
  obtains current retained skipped stats warn where
    "r = Inr (Some (stats, warn))"
    "retain_items (vc_max_bytes c) 0 0 items 0 0 = (current, retained, skipped)"
    "vc_entries c' = rev (select_old (map fst items) (vc_max_bytes c - retained) (rev (vc_entries c))) @ current"
    "vr_protected_prefix_entries stats
       = fst (protected_prefix (vc_max_bytes c) (map (\<lambda>x. embedding_retained_tensor_bytes (snd x)) items) 0 0)"
    "vc_retained_bytes c' = total_bytes (vc_entries c')" "vc_max_bytes c' = vc_max_bytes c"
    "vc_queries c' = vc_queries c" "vc_hits c' = vc_hits c" "vc_misses c' = vc_misses c"
proof -
  let ?sizes = "map (\<lambda>x. embedding_retained_tensor_bytes (snd x)) items"
  obtain p pb where p: "protected_prefix (vc_max_bytes c) ?sizes 0 0 = (p, pb)" by fastforce
  obtain cu re sk where cu: "retain_items (vc_max_bytes c) 0 0 items 0 0 = (cu, re, sk)" by (metis prod_cases3)
  have cu': "retain_items (vc_max_bytes c) p 0 items 0 0 = (cu, re, sk)" using retain_items_greedy [OF p] cu by simp
  let ?res = "commit_request True now items c"
  have "\<exists>stats warn. fst ?res = Inr (Some (stats, warn)) \<and> vr_protected_prefix_entries stats = p"
    using d by (simp add: commit_request_def Let_def p cu')
  then obtain stats warn where st: "fst ?res = Inr (Some (stats, warn))" "vr_protected_prefix_entries stats = p" by blast
  have "vc_entries (snd ?res) = rev (select_old (map fst items) (vc_max_bytes c - re) (rev (vc_entries c))) @ cu"
    "vc_retained_bytes (snd ?res) = total_bytes (vc_entries (snd ?res))" "vc_max_bytes (snd ?res) = vc_max_bytes c"
    "vc_queries (snd ?res) = vc_queries c" "vc_hits (snd ?res) = vc_hits c" "vc_misses (snd ?res) = vc_misses c"
    using d by (simp_all add: commit_request_def Let_def p cu')
  then show thesis using that [of stats warn cu re sk] st cu p c' by simp
qed

lemma cache_commit_ok:
  assumes ok: "cache_ok c" shows "cache_ok (snd (commit_request allowed now items c))"
proof (cases "distinct (map fst items) \<and> allowed")
  case False
  then have "snd (commit_request allowed now items c) = c"
    by (auto simp: commit_request_def Let_def split: prod.split)
  then show ?thesis using ok by simp
next
  case True
  obtain r c' where c': "commit_request True now items c = (r, c')" by fastforce
  from commit_result [OF ok _ c'] True obtain current retained skipped stats warn where
    k: "retain_items (vc_max_bytes c) 0 0 items 0 0 = (current, retained, skipped)"
    "vc_entries c' = rev (select_old (map fst items) (vc_max_bytes c - retained) (rev (vc_entries c))) @ current"
    "vc_retained_bytes c' = total_bytes (vc_entries c')" "vc_max_bytes c' = vc_max_bytes c"
    "vc_queries c' = vc_queries c" "vc_hits c' = vc_hits c" "vc_misses c' = vc_misses c" by metis
  let ?olds = "select_old (map fst items) (vc_max_bytes c - retained) (rev (vc_entries c))"
  have cur: "retained = total_bytes current" "retained \<le> vc_max_bytes c"
    "subseq (map (\<lambda>(key, e, _). (key, e)) current) items"
    "\<forall>(key, e, z)\<in>set current. embedding_retained_tensor_bytes e = Some z"
    using retain_items_kept [OF k(1)] ok by (auto simp: cache_ok_def)
  have olds: "subseq ?olds (rev (vc_entries c))" "\<forall>(key, e, z)\<in>set ?olds. key \<notin> set (map fst items)"
    using select_old_kept [of "map fst items" "vc_max_bytes c - retained" "rev (vc_entries c)"] by blast+
  have sub: "set ?olds \<subseteq> set (vc_entries c)" using subseq_subset [OF olds(1)] by simp
  have "total_bytes ?olds \<le> vc_max_bytes c - retained"
    using ok cur(2) by (intro select_old_fits) (auto simp: cache_ok_def)
  then have le: "total_bytes (vc_entries c') \<le> vc_max_bytes c" using k(2) cur(1) by simp
  have keys: "map fst current = map fst (map (\<lambda>(key, e, _). (key, e)) current)" by (simp add: split_def o_def)
  have cd: "distinct (map fst current)" "set (map fst current) \<subseteq> set (map fst items)"
    using subseq_map [OF cur(3), of fst] True keys subseq_keeps_distinct subseq_subset by metis+
  have "distinct (rev (map fst (vc_entries c)))" using ok by (simp add: cache_ok_def)
  then have "distinct (map fst (rev (vc_entries c)))" by (simp only: rev_map)
  then have od: "distinct (map fst ?olds)" using subseq_map [OF olds(1), of fst] subseq_keeps_distinct by blast
  have "set (map fst ?olds) \<inter> set (map fst items) = {}" using olds(2) by force
  moreover have "distinct (rev (map fst ?olds))" using od by simp
  then have "distinct (map fst (rev ?olds))" by (simp only: rev_map)
  moreover from calculation cd(2) have "set (map fst (rev ?olds)) \<inter> set (map fst current) = {}" by (simp only: set_map set_rev) blast
  ultimately have "distinct (map fst (vc_entries c'))" using cd(1) unfolding k(2) map_append distinct_append by blast
  moreover have "\<forall>(key, e, z)\<in>set (vc_entries c'). embedding_retained_tensor_bytes e = Some z \<and> 0 \<le> z"
    using k(2) cur(4) sub ok embedding_bytes_nonneg by (fastforce simp: cache_ok_def)
  ultimately have "cache_ok c'" using k le ok by (simp add: cache_ok_def)
  then show ?thesis using True c' by simp
qed

lemma clear_ok: "cache_ok c \<Longrightarrow> cache_ok (vc_clear c)"
  by (simp add: cache_ok_def vc_clear_def)

section \<open>Properties\<close>

datatype cache_op =
    Get string | Snapshot "string list" | Commit bool seconds "(string \<times> embedding) list" | Put string embedding | Clear

fun cache_step :: "cache_op \<Rightarrow> vision_cache \<Rightarrow> vision_cache" where
  "cache_step (Get key) c = snd (vc_get key c)"
| "cache_step (Snapshot keys) c = snd (snapshot_request keys c)"
| "cache_step (Commit allowed now items) c = snd (commit_request allowed now items c)"
| "cache_step (Put key e) c = snd (vc_put key e c)"
| "cache_step Clear c = vc_clear c"

lemma cache_run_ok: "cache_ok c \<Longrightarrow> cache_ok (fold cache_step ops c)"
proof (induction ops arbitrary: c)
  case (Cons op ops)
  then have "cache_ok (cache_step op c)"
    by (cases op) (auto intro: get_ok snapshot_ok cache_commit_ok cache_put_ok clear_ok)
  then show ?case using Cons.IH by simp
qed simp

text \<open>C28. The byte bound: after any sequence of operations on a new cache the retained byte count is the sum of the
  measured sizes of the entries and is within the configured bound, no key is stored twice, every stored
  embedding is one the cache may keep, and every query was counted as a hit or a miss.\<close>

theorem vision_cache_bounded:
  assumes "new_vision_cache n = Inr c0" and "c = fold cache_step ops c0"
  shows "0 \<le> vc_retained_bytes c \<and> vc_retained_bytes c \<le> vc_max_bytes c
    \<and> vc_retained_bytes c = sum_list (map (\<lambda>(_, e, _). the (embedding_retained_tensor_bytes e)) (vc_entries c))
    \<and> (\<forall>(_, e, _)\<in>set (vc_entries c). embedding_retained_tensor_bytes e \<noteq> None)
    \<and> distinct (map fst (vc_entries c)) \<and> vc_queries c = vc_hits c + vc_misses c"
proof -
  have "cache_ok c0" using assms(1) by (auto simp: new_vision_cache_def raise_if_def cache_ok_def split: if_splits)
  then have ok: "cache_ok c" using assms(2) cache_run_ok by simp
  have "map (\<lambda>(_, e, _). the (embedding_retained_tensor_bytes e)) (vc_entries c) = map (\<lambda>(_, _, z). z) (vc_entries c)"
    using ok by (intro map_cong) (auto simp: cache_ok_def)
  then have "total_bytes (vc_entries c) = sum_list (map (\<lambda>(_, e, _). the (embedding_retained_tensor_bytes e)) (vc_entries c))"
    unfolding total_bytes_def by (rule arg_cong [OF sym])
  moreover have "0 \<le> total_bytes (vc_entries c)" using ok by (intro total_bytes_nonneg) (auto simp: cache_ok_def)
  ultimately show ?thesis using ok unfolding cache_ok_def by (intro conjI) (simp_all, auto)
qed

lemma prefix_is_kept:
  assumes "protected_prefix budget (map (\<lambda>x. embedding_retained_tensor_bytes (snd x)) items) i b = (p, pb)"
    and "retain_items budget i i items b k = (kept, b', k')" and "i + int j < p"
  shows "j < length items \<and> (\<exists>z. (fst (items ! j), snd (items ! j), z) \<in> set kept)"
  using assms
proof (induction items arbitrary: i b k kept b' k' j)
  case (Cons item items)
  obtain key e where item: "item = (key, e)" by fastforce
  have next_i: "retain_items budget i (i + 1) items c l = retain_items budget (i + 1) (i + 1) items c l" for c l
    by (rule retain_items_late) auto
  obtain z where z: "embedding_retained_tensor_bytes e = Some z" "\<not> b + z > budget"
    using Cons.prems(1,3) item by (cases "embedding_retained_tensor_bytes e") (auto split: if_splits)
  obtain ks b1 k1 where r: "retain_items budget (i + 1) (i + 1) items (b + z) k = (ks, b1, k1)" by (metis prod_cases3)
  then have kept: "kept = (key, e, z) # ks" using Cons.prems(2) item z next_i by auto
  have pre: "protected_prefix budget (map (\<lambda>x. embedding_retained_tensor_bytes (snd x)) items) (i + 1) (b + z) = (p, pb)"
    using Cons.prems(1) item z by simp
  show ?case
  proof (cases j)
    case 0
    then show ?thesis using kept item by auto
  next
    case (Suc n)
    then show ?thesis using Cons.IH [OF pre r, of n] Cons.prems(3) kept by auto
  qed
qed simp

lemma prefix_is_maximal:
  assumes "protected_prefix budget (map (\<lambda>x. embedding_retained_tensor_bytes (snd x)) items) i b = (p, pb)"
  shows "nat (p - i) = length items \<or> embedding_retained_tensor_bytes (snd (items ! nat (p - i))) = None
    \<or> b + sum_list (map (\<lambda>x. the (embedding_retained_tensor_bytes (snd x))) (take (nat (p - i) + 1) items)) > budget"
  using assms
proof (induction items arbitrary: i b)
  case (Cons item items)
  obtain key e where item: "item = (key, e)" by fastforce
  show ?case
  proof (cases "\<exists>z. embedding_retained_tensor_bytes e = Some z \<and> b + z \<le> budget")
    case False
    then have "p = i" "embedding_retained_tensor_bytes e = None \<or> b + the (embedding_retained_tensor_bytes e) > budget"
      using Cons.prems item by (auto split: if_splits option.splits) (cases "embedding_retained_tensor_bytes e"; auto)+
    then show ?thesis by (auto simp: item)
  next
    case True
    then obtain z where z: "embedding_retained_tensor_bytes e = Some z" "b + z \<le> budget" by blast
    then have pre: "protected_prefix budget (map (\<lambda>x. embedding_retained_tensor_bytes (snd x)) items) (i + 1) (b + z) = (p, pb)"
      using Cons.prems item by simp
    have "i + 1 \<le> p" using protected_prefix_grows [of "i + 1" budget _ "b + z"] pre by (metis fst_conv)
    then have n: "nat (p - i) = Suc (nat (p - (i + 1)))" by simp
    show ?thesis using Cons.IH [OF pre] unfolding n by (simp add: item z algebra_simps)
  qed
qed auto

lemma subseq_rev: "subseq xs ys \<Longrightarrow> subseq (rev xs) (rev ys)"
proof (induction rule: list_emb.induct)
  case (list_emb_Cons xs ys y)
  then show ?case by (auto intro: list_emb_append2)
next
  case (list_emb_Cons2 x y xs ys)
  then show ?case by (auto intro: list_emb_append_mono)
qed simp

text \<open>Prefix priority: when a commit publishes, every item of the protected prefix of the request is found in
  the cache with the very embedding of the request; the prefix is as long as the budget allows; no other
  embedding is stored under a key of the request; and the older entries that stay keep their order.\<close>

theorem commit_prefers_prefix:
  assumes "cache_ok c" and "commit_request True now items c = (Inr (Some (stats, warn)), c')"
  shows "(\<forall>j. int j < vr_protected_prefix_entries stats \<longrightarrow> j < length items
        \<and> vc_peek (fst (items ! j)) c' = Some (snd (items ! j)))
    \<and> (let k = nat (vr_protected_prefix_entries stats) in k = length items
        \<or> embedding_retained_tensor_bytes (snd (items ! k)) = None
        \<or> sum_list (map (\<lambda>x. the (embedding_retained_tensor_bytes (snd x))) (take (k + 1) items)) > vc_max_bytes c)
    \<and> (\<forall>(key, e)\<in>set items. vc_peek key c' = None \<or> vc_peek key c' = Some e)
    \<and> subseq (filter (\<lambda>x. fst x \<notin> fst ` set items) (vc_entries c')) (vc_entries c)"
proof -
  have d: "distinct (map fst items)" using assms(2) by (auto simp: commit_request_def Let_def split: if_splits)
  let ?sizes = "map (\<lambda>x. embedding_retained_tensor_bytes (snd x)) items"
  obtain p pb where p: "protected_prefix (vc_max_bytes c) ?sizes 0 0 = (p, pb)" by fastforce
  from commit_result [OF assms(1) d assms(2)] p obtain current retained skipped where
    k: "retain_items (vc_max_bytes c) 0 0 items 0 0 = (current, retained, skipped)"
    "vc_entries c' = rev (select_old (map fst items) (vc_max_bytes c - retained) (rev (vc_entries c))) @ current"
    "vr_protected_prefix_entries stats = p" by (metis Inr_inject fst_conv option.inject prod.inject)
  let ?olds = "select_old (map fst items) (vc_max_bytes c - retained) (rev (vc_entries c))"
  have olds: "subseq ?olds (rev (vc_entries c))" "\<forall>(key, e, z)\<in>set ?olds. key \<notin> set (map fst items)"
    using select_old_kept [of "map fst items" "vc_max_bytes c - retained" "rev (vc_entries c)"] by blast+
  have cur: "subseq (map (\<lambda>(key, e, _). (key, e)) current) items" using retain_items_kept [OF k(1)] by blast
  have "map fst current = map fst (map (\<lambda>(key, e, _). (key, e)) current)" by (simp add: split_def o_def)
  then have cd: "distinct (map fst current)" using subseq_map [OF cur, of fst] d subseq_keeps_distinct by metis
  have ci: "(key, e) \<in> set items" if "(key, e, z) \<in> set current" for key e z
    using subseq_subset [OF cur] that by force
  have peek: "vc_peek key c' = map_option fst (map_of current key)" if "key \<in> fst ` set items" for key
  proof -
    have "map_of (rev ?olds) key = None" using olds(2) that by (fastforce simp: map_of_eq_None_iff)
    then show ?thesis by (simp add: vc_peek_def k(2) map_add_def)
  qed
  have "j < length items \<and> vc_peek (fst (items ! j)) c' = Some (snd (items ! j))"
    if lt: "int j < vr_protected_prefix_entries stats" for j
  proof -
    obtain z where z: "j < length items" "(fst (items ! j), snd (items ! j), z) \<in> set current"
      using prefix_is_kept [OF p k(1), of j] lt k(3) by auto
    then have "map_of current (fst (items ! j)) = Some (snd (items ! j), z)" using cd by simp
    then show ?thesis using z(1) peek [of "fst (items ! j)"] by simp
  qed
  moreover have "\<forall>(key, e)\<in>set items. vc_peek key c' = None \<or> vc_peek key c' = Some e"
  proof (clarify)
    fix key e y assume e: "(key, e) \<in> set items" "vc_peek key c' \<noteq> Some e"
    show "vc_peek key c' = None"
    proof (rule ccontr)
      assume "vc_peek key c' \<noteq> None"
      moreover have "key \<in> fst ` set items" using e(1) by force
      ultimately obtain e' z where "map_of current key = Some (e', z)" using peek [of key] by fastforce
      then have "(key, e') \<in> set items" using ci map_of_SomeD by fast
      then have "e' = e" using e(1) d by (meson eq_key_imp_eq_value)
      then show False using \<open>map_of current key = Some (e', z)\<close> peek [OF \<open>key \<in> fst ` set items\<close>] e(2) by simp
    qed
  qed
  moreover have "filter (\<lambda>x. fst x \<notin> fst ` set items) (vc_entries c') = rev ?olds"
  proof -
    have "filter (\<lambda>x. fst x \<notin> fst ` set items) (rev ?olds) = rev ?olds" using olds(2) by (intro filter_True) force
    moreover have "filter (\<lambda>x. fst x \<notin> fst ` set items) current = []" using ci by (force simp: filter_empty_conv)
    ultimately show ?thesis by (simp add: k(2))
  qed
  then have "subseq (filter (\<lambda>x. fst x \<notin> fst ` set items) (vc_entries c')) (vc_entries c)"
    using subseq_rev [OF olds(1)] by simp
  moreover note prefix_is_maximal [OF p]
  ultimately show ?thesis by (simp add: Let_def k(3))
qed

section \<open>Witnesses\<close>

definition image_of :: "nat \<Rightarrow> int \<Rightarrow> embedding" where
  "image_of n k = \<lparr>em_id = n, em_tensor = Some \<lparr>tn_measurable = True, tn_cpu = True, tn_numel = k, tn_element_size = 2\<rparr>,
     em_deepstack = NoDeepstack\<rparr>"

definition cache_ten :: vision_cache where
  "cache_ten = \<lparr>vc_max_bytes = 10, vc_entries = [], vc_retained_bytes = 0, vc_queries = 0, vc_hits = 0, vc_misses = 0,
     vc_evictions = 0, vc_admission_skipped = 0, vc_over_budget = 0, vc_incomplete = 0,
     vc_last_request = no_request, vc_last_warning_at = None\<rparr>"

definition some_ops :: "cache_op list" where
  "some_ops = [Put ''a'' (image_of 1 2), Put ''b'' (image_of 2 2), Get ''a'',
     Commit True 0 [(''c'', image_of 3 3), (''d'', image_of 4 3)], Snapshot [''a'', ''c'']]"

lemma some_ops_run: "map fst (vc_entries (fold cache_step some_ops cache_ten)) = [''a'', ''c'']"
  by code_simp

lemma vision_cache_bounded_witness: "vc_retained_bytes (fold cache_step some_ops cache_ten) \<le> 10"
proof -
  have "new_vision_cache 10 = Inr cache_ten" by (simp add: new_vision_cache_def cache_ten_def raise_if_def)
  from vision_cache_bounded [OF this refl, of some_ops]
  have "vc_retained_bytes (fold cache_step some_ops cache_ten) \<le> vc_max_bytes (fold cache_step some_ops cache_ten)"
    by blast
  moreover have "vc_max_bytes (fold cache_step some_ops cache_ten) = 10" by code_simp
  ultimately show ?thesis by simp
qed

lemma commit_prefers_prefix_witness:
  "vc_peek ''c'' (snd (commit_request True 0 [(''c'', image_of 3 3), (''d'', image_of 4 3)] cache_ten)) = Some (image_of 3 3)"
proof -
  let ?items = "[(''c'', image_of 3 3), (''d'', image_of 4 3)]"
  have ok: "cache_ok cache_ten" by (simp add: cache_ok_def cache_ten_def)
  obtain stats warn c' where r: "commit_request True 0 ?items cache_ten = (Inr (Some (stats, warn)), c')"
    "vr_protected_prefix_entries stats = 1"
    by (simp add: commit_request_def Let_def image_of_def cache_ten_def embedding_retained_tensor_bytes_def tensor_retained_bytes_def)
  have "\<forall>j. int j < 1 \<longrightarrow> j < length ?items \<and> vc_peek (fst (?items ! j)) c' = Some (snd (?items ! j))"
    using commit_prefers_prefix [OF ok r(1)] unfolding r(2) by blast
  from this [rule_format, of 0] show ?thesis by (simp add: r(1))
qed

end
