(* ===== verification/Event_Stream.thy ===== *)
theory Event_Stream
  imports Core_Types
begin

text \<open>
  What a well-formed stream of generation events is: text and reasoning segments and tool calls, one after
  the other, each closed before the next one opens, the completion carrying what the deltas carried. This is
  the contract between the dialect parsers, which produce such streams, and the protocol serializers, which
  consume them. \<open>explode\<close> cuts every delta into single characters: two streams with the same explosion say
  the same and differ only in where the deltas are cut.
\<close>

datatype open_item =
    Idle
  | InText string
  | InReasoning string
  | InCall string string int string

text \<open>The state of the check: what is open, and the index of the next tool call.\<close>

fun content_step :: "string \<Rightarrow> open_item \<times> int \<Rightarrow> generation_event \<Rightarrow> (open_item \<times> int) option" where
  "content_step r (x, n) (TextStarted q) = (if q = r \<and> x = Idle then Some (InText [], n) else None)"
| "content_step r (InText s, n) (TextDelta q t) = (if q = r \<and> t \<noteq> [] then Some (InText (s @ t), n) else None)"
| "content_step r (InText s, n) (TextCompleted q t) = (if q = r \<and> t = s then Some (Idle, n) else None)"
| "content_step r (x, n) (ReasoningStarted q) = (if q = r \<and> x = Idle then Some (InReasoning [], n) else None)"
| "content_step r (InReasoning s, n) (ReasoningDelta q t) = (if q = r \<and> t \<noteq> [] then Some (InReasoning (s @ t), n) else None)"
| "content_step r (InReasoning s, n) (ReasoningCompleted q t) = (if q = r \<and> t = s then Some (Idle, n) else None)"
| "content_step r (x, n) (ToolCallStarted q c name i) =
     (if q = r \<and> x = Idle \<and> i = n then Some (InCall c name i [], n + 1) else None)"
| "content_step r (InCall c name i s, n) (ToolCallArgumentsDelta q c' t j) =
     (if q = r \<and> c' = c \<and> j = i \<and> t \<noteq> [] then Some (InCall c name i (s @ t), n) else None)"
| "content_step r (InCall c name i s, n) (ToolCallCompleted q call) =
     (if q = r \<and> call = \<lparr>call_id = c, tool_name = name, arguments_json = s, call_index = i\<rparr>
      then Some (Idle, n) else None)"
| "content_step r (x, n) (TimingUpdated q t) = (if q = r then Some (x, n) else None)"
| "content_step r (x, n) (UsageUpdated q u) = (if q = r then Some (x, n) else None)"
| "content_step r s e = None"

fun content_run :: "string \<Rightarrow> open_item \<times> int \<Rightarrow> generation_event list \<Rightarrow> (open_item \<times> int) option" where
  "content_run r s [] = Some s"
| "content_run r s (e # es) = (case content_step r s e of None \<Rightarrow> None | Some s' \<Rightarrow> content_run r s' es)"

lemma content_run_append:
  "content_run r s (es @ fs) = (case content_run r s es of None \<Rightarrow> None | Some s' \<Rightarrow> content_run r s' fs)"
  by (induction es arbitrary: s) (auto split: option.split)

text \<open>A whole stream: everything that was opened is closed, and the tool calls are numbered from zero.\<close>

definition well_formed_content :: "string \<Rightarrow> generation_event list \<Rightarrow> bool" where
  "well_formed_content r es \<longleftrightarrow> (case content_run r (Idle, 0) es of Some (Idle, n) \<Rightarrow> True | _ \<Rightarrow> False)"

lemma well_formed_content_iff: "well_formed_content r es \<longleftrightarrow> (\<exists>n. content_run r (Idle, 0) es = Some (Idle, n))"
  unfolding well_formed_content_def by (auto split: option.splits prod.splits open_item.splits)

text \<open>The text an event adds to the answer.\<close>

fun text_said :: "generation_event \<Rightarrow> string" where
  "text_said (TextDelta r t) = t"
| "text_said e = []"

section \<open>Cutting deltas\<close>

fun cut_event :: "generation_event \<Rightarrow> generation_event list" where
  "cut_event (TextDelta r s) = map (\<lambda>c. TextDelta r [c]) s"
| "cut_event (ReasoningDelta r s) = map (\<lambda>c. ReasoningDelta r [c]) s"
| "cut_event e = [e]"

definition explode :: "generation_event list \<Rightarrow> generation_event list" where
  "explode es = concat (map cut_event es)"

lemma explode_simps [simp]:
  "explode [] = []" "explode (e # es) = cut_event e @ explode es" "explode (es @ fs) = explode es @ explode fs"
  by (simp_all add: explode_def)

section \<open>Feeding a stream\<close>

text \<open>A serializer is fed one event after the other and emits items, an accumulator consumes the same events; the
  first exception ends either. A client reads the emitted items, None when it rejects one.\<close>

fun feed_events :: "(generation_event \<Rightarrow> 's \<Rightarrow> 'o list res \<times> 's) \<Rightarrow> generation_event list \<Rightarrow> 's \<Rightarrow> 'o list res \<times> 's" where
  "feed_events feed [] s = (Inr [], s)"
| "feed_events feed (e # es) s = (case feed e s of
     (Inl x, t) \<Rightarrow> (Inl x, t)
   | (Inr out, t) \<Rightarrow> (case feed_events feed es t of (Inl x, u) \<Rightarrow> (Inl x, u) | (Inr later, u) \<Rightarrow> (Inr (out @ later), u)))"

fun consume_events :: "(generation_event \<Rightarrow> 'a \<Rightarrow> unit res \<times> 'a) \<Rightarrow> generation_event list \<Rightarrow> 'a \<Rightarrow> unit res \<times> 'a" where
  "consume_events consume [] a = (Inr (), a)"
| "consume_events consume (e # es) a = (case consume e a of
     (Inl x, b) \<Rightarrow> (Inl x, b) | (Inr u, b) \<Rightarrow> consume_events consume es b)"

fun read_items :: "('o \<Rightarrow> 'c \<Rightarrow> 'c option) \<Rightarrow> 'o list \<Rightarrow> 'c \<Rightarrow> 'c option" where
  "read_items read_one [] c = Some c"
| "read_items read_one (x # xs) c = (case read_one x c of None \<Rightarrow> None | Some d \<Rightarrow> read_items read_one xs d)"

lemma feed_events_append:
  "feed_events feed (es @ fs) s = (case feed_events feed es s of (Inl x, t) \<Rightarrow> (Inl x, t)
     | (Inr out, t) \<Rightarrow> (case feed_events feed fs t of (Inl x, u) \<Rightarrow> (Inl x, u) | (Inr later, u) \<Rightarrow> (Inr (out @ later), u)))"
  by (induction es arbitrary: s) (auto split: prod.splits sum.splits)

lemma consume_events_append:
  "consume_events consume (es @ fs) a = (case consume_events consume es a of
     (Inl x, t) \<Rightarrow> (Inl x, t) | (Inr u, t) \<Rightarrow> consume_events consume fs t)"
  by (induction es arbitrary: a) (auto split: prod.splits sum.splits)

lemma read_items_append:
  "read_items read_one (xs @ ys) c = (case read_items read_one xs c of None \<Rightarrow> None | Some d \<Rightarrow> read_items read_one ys d)"
  by (induction xs arbitrary: c) (auto split: option.split)

text \<open>The contract of a protocol: on a step of a well-formed stream neither the serializer nor the accumulator raises,
  the client accepts what is emitted, and the three still agree. \<open>admits\<close> is what the protocol needs of the rest of
  the stream beyond being well-formed.\<close>

locale answer_protocol =
  fixes feed :: "generation_event \<Rightarrow> 's \<Rightarrow> 'o list res \<times> 's"
    and consume :: "generation_event \<Rightarrow> 'a \<Rightarrow> unit res \<times> 'a"
    and read_one :: "'o \<Rightarrow> 'c \<Rightarrow> 'c option"
    and agree :: "open_item \<times> int \<Rightarrow> 's \<Rightarrow> 'a \<Rightarrow> 'c \<Rightarrow> bool"
    and admits :: "generation_event list \<Rightarrow> 's \<Rightarrow> bool"
  assumes step: "content_step r x e = Some y \<Longrightarrow> admits (e # es) s \<Longrightarrow> agree x s a c \<Longrightarrow>
      \<exists>out s' a' c'. feed e s = (Inr out, s') \<and> consume e a = (Inr (), a')
        \<and> read_items read_one out c = Some c' \<and> agree y s' a' c' \<and> admits es s'"
begin

lemma runs:
  assumes "content_run r x es = Some y" and "admits es s" and "agree x s a c"
  shows "\<exists>out s' a' c'. feed_events feed es s = (Inr out, s') \<and> consume_events consume es a = (Inr (), a')
    \<and> read_items read_one out c = Some c' \<and> agree y s' a' c'"
  using assms
proof (induction es arbitrary: x s a c)
  case (Cons e es)
  obtain z where z: "content_step r x e = Some z" "content_run r z es = Some y"
    using Cons.prems(1) by (auto split: option.splits)
  obtain o1 s1 a1 c1 where one: "feed e s = (Inr o1, s1)" "consume e a = (Inr (), a1)"
    "read_items read_one o1 c = Some c1" "agree z s1 a1 c1" "admits es s1"
    using step [OF z(1) Cons.prems(2,3)] by blast
  obtain o2 s2 a2 c2 where "feed_events feed es s1 = (Inr o2, s2)" "consume_events consume es a1 = (Inr (), a2)"
    "read_items read_one o2 c1 = Some c2" "agree y s2 a2 c2"
    using Cons.IH [OF z(2) one(5,4)] by blast
  then show ?case using one by (auto simp: read_items_append)
qed auto

text \<open>A whole run, between an event that opens it and one that ends it.\<close>

lemma complete_runs:
  assumes "content_run r x es = Some y" and "admits es s0" and "agree x s0 a0 c0"
    and "feed opening s = (Inr o0, s0)" and "consume opening a = (Inr (), a0)" and "read_items read_one o0 c = Some c0"
    and closing: "\<And>s1 a1 c1. agree y s1 a1 c1 \<Longrightarrow> \<exists>o2 s2 a2 c2. feed ending s1 = (Inr o2, s2) \<and> consume ending a1 = (Inr (), a2)
      \<and> read_items read_one o2 c1 = Some c2 \<and> Q s2 a2 c2"
  shows "\<exists>out s2 a2 c2. feed_events feed ([opening] @ es @ [ending]) s = (Inr out, s2)
    \<and> consume_events consume ([opening] @ es @ [ending]) a = (Inr (), a2) \<and> read_items read_one out c = Some c2 \<and> Q s2 a2 c2"
proof -
  obtain out s1 a1 c1 where run: "feed_events feed es s0 = (Inr out, s1)" "consume_events consume es a0 = (Inr (), a1)"
    "read_items read_one out c0 = Some c1" "agree y s1 a1 c1"
    using runs [OF assms(1-3)] by blast
  obtain o2 s2 a2 c2 where "feed ending s1 = (Inr o2, s2)" "consume ending a1 = (Inr (), a2)"
    "read_items read_one o2 c1 = Some c2" "Q s2 a2 c2"
    using closing [OF run(4)] by blast
  then show ?thesis using assms(4-6) run by (simp add: feed_events_append consume_events_append read_items_append)
qed

end

text \<open>What the client has kept so far: every event adds to it what the event says.\<close>

locale recorded_protocol = answer_protocol feed consume read_one agree admits
  for feed :: "generation_event \<Rightarrow> 's \<Rightarrow> 'o list res \<times> 's" and consume :: "generation_event \<Rightarrow> 'a \<Rightarrow> unit res \<times> 'a"
    and read_one :: "'o \<Rightarrow> 'c \<Rightarrow> 'c option" and agree :: "open_item \<times> int \<Rightarrow> 's \<Rightarrow> 'a \<Rightarrow> 'c \<Rightarrow> bool"
    and admits :: "generation_event list \<Rightarrow> 's \<Rightarrow> bool" +
  fixes kept :: "'c \<Rightarrow> 'k list" and says :: "generation_event \<Rightarrow> 'k list"
  assumes keep: "content_step r x e = Some y \<Longrightarrow> admits (e # es) s \<Longrightarrow> agree x s a c \<Longrightarrow> feed e s = (Inr out, s') \<Longrightarrow>
      read_items read_one out c = Some c' \<Longrightarrow> kept c' = kept c @ says e"
begin

lemma runs_keeping:
  assumes "content_run r x es = Some y" and "admits es s" and "agree x s a c"
  shows "\<exists>out s' a' c'. feed_events feed es s = (Inr out, s') \<and> consume_events consume es a = (Inr (), a')
    \<and> read_items read_one out c = Some c' \<and> agree y s' a' c' \<and> kept c' = kept c @ concat (map says es)"
  using assms
proof (induction es arbitrary: x s a c)
  case (Cons e es)
  obtain z where z: "content_step r x e = Some z" "content_run r z es = Some y"
    using Cons.prems(1) by (auto split: option.splits)
  obtain o1 s1 a1 c1 where one: "feed e s = (Inr o1, s1)" "consume e a = (Inr (), a1)"
    "read_items read_one o1 c = Some c1" "agree z s1 a1 c1" "admits es s1"
    using step [OF z(1) Cons.prems(2,3)] by blast
  have kept: "kept c1 = kept c @ says e" by (rule keep [OF z(1) Cons.prems(2,3) one(1,3)])
  obtain o2 s2 a2 c2 where "feed_events feed es s1 = (Inr o2, s2)" "consume_events consume es a1 = (Inr (), a2)"
    "read_items read_one o2 c1 = Some c2" "agree y s2 a2 c2" "kept c2 = kept c1 @ concat (map says es)"
    using Cons.IH [OF z(2) one(5,4)] by blast
  then show ?case using one kept by (auto simp: read_items_append)
qed auto

lemma complete_runs_keeping:
  assumes "content_run r x es = Some y" and "admits es s0" and "agree x s0 a0 c0"
    and "feed opening s = (Inr o0, s0)" and "consume opening a = (Inr (), a0)" and "read_items read_one o0 c = Some c0"
    and closing: "\<And>s1 a1 c1. agree y s1 a1 c1 \<Longrightarrow> kept c1 = kept c0 @ concat (map says es) \<Longrightarrow>
      \<exists>o2 s2 a2 c2. feed ending s1 = (Inr o2, s2) \<and> consume ending a1 = (Inr (), a2)
      \<and> read_items read_one o2 c1 = Some c2 \<and> Q s2 a2 c2"
  shows "\<exists>out s2 a2 c2. feed_events feed ([opening] @ es @ [ending]) s = (Inr out, s2)
    \<and> consume_events consume ([opening] @ es @ [ending]) a = (Inr (), a2) \<and> read_items read_one out c = Some c2 \<and> Q s2 a2 c2"
proof -
  obtain out s1 a1 c1 where run: "feed_events feed es s0 = (Inr out, s1)" "consume_events consume es a0 = (Inr (), a1)"
    "read_items read_one out c0 = Some c1" "agree y s1 a1 c1" "kept c1 = kept c0 @ concat (map says es)"
    using runs_keeping [OF assms(1-3)] by blast
  obtain o2 s2 a2 c2 where "feed ending s1 = (Inr o2, s2)" "consume ending a1 = (Inr (), a2)"
    "read_items read_one o2 c1 = Some c2" "Q s2 a2 c2"
    using closing [OF run(4,5)] by blast
  then show ?thesis using assms(4-6) run by (simp add: feed_events_append consume_events_append read_items_append)
qed

end

end
