(* ===== verification/Py_Strings.thy ===== *)
theory Py_Strings
  imports Prelude "HOL-Library.Sublist"
begin

text \<open>
  The methods of Python's \<open>str\<close> that the parsers use: \<open>find\<close>, \<open>strip\<close>, \<open>split\<close>, \<open>replace\<close>. Then the part the
  incremental parsers of the model dialects share: finding the first marker in a buffer, and holding back the end
  of a buffer that may be the beginning of a marker.
\<close>

section \<open>String methods\<close>

text \<open>\<open>s.find(pat)\<close>, None for -1.\<close>

fun str_find :: "string \<Rightarrow> string \<Rightarrow> nat option" where
  "str_find pat [] = (if pat = [] then Some 0 else None)"
| "str_find pat (c # s) = (if prefix pat (c # s) then Some 0 else map_option Suc (str_find pat s))"

definition str_lstrip :: "string \<Rightarrow> string" where
  "str_lstrip s = dropWhile py_space s"

definition str_strip :: "string \<Rightarrow> string" where
  "str_strip s = rev (str_lstrip (rev (str_lstrip s)))"

text \<open>\<open>s.split(c)\<close> for a separator of one character.\<close>

fun str_split :: "char \<Rightarrow> string \<Rightarrow> string list" where
  "str_split c [] = [[]]"
| "str_split c (x # s) = (if x = c then [] # str_split c s
     else (case str_split c s of [] \<Rightarrow> [[x]] | w # ws \<Rightarrow> (x # w) # ws))"

text \<open>\<open>s.replace(old, new)\<close>. The source never replaces the empty string.\<close>

function str_replace :: "string \<Rightarrow> string \<Rightarrow> string \<Rightarrow> string" where
  "str_replace old new [] = []"
| "str_replace old new (c # s) =
     (if old \<noteq> [] \<and> prefix old (c # s) then new @ str_replace old new (drop (length old) (c # s))
      else c # str_replace old new s)"
  by pat_completeness auto

termination
  by (relation "measure (\<lambda>(old, new, s). length s)") auto

lemma str_find_Some:
  "str_find pat s = Some n \<Longrightarrow> n \<le> length s \<and> prefix pat (drop n s) \<and> (\<forall>j<n. \<not> prefix pat (drop j s))"
proof (induction s arbitrary: n)
  case (Cons c s)
  show ?case
  proof (cases "prefix pat (c # s)")
    case False
    then obtain k where k: "str_find pat s = Some k" "n = Suc k" using Cons.prems by auto
    have "\<not> prefix pat (drop j (c # s))" if "j < n" for j
      using that Cons.IH [OF k(1)] k(2) False by (cases j) auto
    then show ?thesis using Cons.IH [OF k(1)] k(2) by auto
  qed (use Cons.prems in auto)
qed (auto split: if_splits)

lemma str_find_None: "str_find pat s = None \<longleftrightarrow> (\<forall>j\<le>length s. \<not> prefix pat (drop j s))"
proof (induction s)
  case (Cons c s)
  have "(\<forall>j\<le>length (c # s). \<not> prefix pat (drop j (c # s)))
      \<longleftrightarrow> \<not> prefix pat (c # s) \<and> (\<forall>j\<le>length s. \<not> prefix pat (drop j s))" (is "?l \<longleftrightarrow> ?r")
  proof
    assume l: ?l
    have "\<not> prefix pat (drop j s)" if "j \<le> length s" for j using l [rule_format, of "Suc j"] that by simp
    then show ?r using l [rule_format, of 0] by auto
  next
    assume r: ?r
    have "\<not> prefix pat (drop j (c # s))" if "j \<le> length (c # s)" for j using r that by (cases j) auto
    then show ?l by blast
  qed
  then show ?case using Cons by simp
qed simp

lemma str_find_length: "str_find pat s = Some n \<Longrightarrow> n + length pat \<le> length s"
  using str_find_Some [of pat s n] prefix_length_le [of pat "drop n s"] by auto

lemma str_findI: "prefix pat (drop n s) \<Longrightarrow> (\<And>j. j < n \<Longrightarrow> \<not> prefix pat (drop j s)) \<Longrightarrow> n \<le> length s \<Longrightarrow> str_find pat s = Some n"
proof (cases "str_find pat s")
  case None
  then show "prefix pat (drop n s) \<Longrightarrow> n \<le> length s \<Longrightarrow> str_find pat s = Some n" by (simp add: str_find_None)
next
  case (Some m)
  assume p: "prefix pat (drop n s)" and least: "\<And>j. j < n \<Longrightarrow> \<not> prefix pat (drop j s)"
  have "\<not> m < n" using least str_find_Some [OF Some] by blast
  moreover have "\<not> n < m" using p str_find_Some [OF Some] by blast
  ultimately show "str_find pat s = Some n" using Some by simp
qed

section \<open>The first marker of a buffer\<close>

text \<open>\<open>min\<close> over the pairs of a position and a marker, by position: the earliest position, and of the markers
  found there the first one of the list.\<close>

fun first_marker :: "string list \<Rightarrow> string \<Rightarrow> (nat \<times> string) option" where
  "first_marker [] s = None"
| "first_marker (m # ms) s = (case str_find m s of
     None \<Rightarrow> first_marker ms s
   | Some i \<Rightarrow> (case first_marker ms s of
       None \<Rightarrow> Some (i, m)
     | Some (j, m') \<Rightarrow> if j < i then Some (j, m') else Some (i, m)))"

text \<open>\<open>_longest_partial_suffix\<close>: the longest proper, non-empty prefix of a marker that ends the text.\<close>

definition partial_sizes :: "string \<Rightarrow> string \<Rightarrow> nat list" where
  "partial_sizes s marker = filter (\<lambda>n. prefix (drop (length s - n) s) marker) [1..<Suc (min (length s) (length marker - 1))]"

definition longest_partial_suffix :: "string \<Rightarrow> string list \<Rightarrow> nat" where
  "longest_partial_suffix s markers = fold (\<lambda>m longest. fold max (partial_sizes s m) longest) markers 0"

lemma first_marker_None: "first_marker ms s = None \<longleftrightarrow> (\<forall>m\<in>set ms. str_find m s = None)"
  by (induction ms) (auto split: option.splits if_splits)

lemma first_marker_Some:
  "first_marker ms s = Some (i, m) \<Longrightarrow> m \<in> set ms \<and> str_find m s = Some i \<and> (\<forall>m'\<in>set ms. \<forall>j. str_find m' s = Some j \<longrightarrow> i \<le> j)"
proof (induction ms arbitrary: i m)
  case (Cons a ms)
  show ?case
  proof (cases "str_find a s")
    case None
    then show ?thesis using Cons by auto
  next
    case (Some k)
    note k = Some
    show ?thesis
    proof (cases "first_marker ms s")
      case None
      then have "i = k" "m = a" using k Cons.prems by simp_all
      then show ?thesis using k None unfolding first_marker_None by auto
    next
      case (Some p)
      obtain j m' where p: "p = (j, m')" by fastforce
      have "m' \<in> set ms \<and> str_find m' s = Some j \<and> (\<forall>x\<in>set ms. \<forall>y. str_find x s = Some y \<longrightarrow> j \<le> y)"
        using Cons.IH Some p by simp
      then show ?thesis using k Some p Cons.prems by (auto split: if_splits dest: order.trans less_imp_le)
    qed
  qed
qed simp

lemma partial_sizes_set:
  "n \<in> set (partial_sizes s m) \<longleftrightarrow> 1 \<le> n \<and> n \<le> length s \<and> n < length m \<and> prefix (drop (length s - n) s) m"
proof -
  have "n \<in> set [1..<Suc (min (length s) (length m - 1))] \<longleftrightarrow> 1 \<le> n \<and> n \<le> length s \<and> n < length m"
    by (cases m) auto
  then show ?thesis unfolding partial_sizes_def by auto
qed

lemma fold_max_set: "fold max xs (k::nat) = Max (insert k (set xs))"
proof (induction xs arbitrary: k)
  case (Cons x xs)
  have "Max (insert (max x k) (set xs)) = max (max x k) (if set xs = {} then 0 else Max (set xs))"
    by (cases "xs = []") (simp_all)
  then show ?case using Cons by (cases "xs = []") (auto simp: max.commute max.left_commute max.assoc)
qed simp

lemma longest_partial_suffix_Max:
  "longest_partial_suffix s ms = Max (insert 0 (\<Union>m\<in>set ms. set (partial_sizes s m)))"
proof -
  have "fold (\<lambda>m longest. fold max (partial_sizes s m) longest) ms k = Max (insert k (\<Union>m\<in>set ms. set (partial_sizes s m)))" for k
  proof (induction ms arbitrary: k)
    case (Cons m ms)
    have "Max (insert (Max (insert k A)) B) = Max (insert k (A \<union> B))" if "finite A" "finite B" for A B :: "nat set"
    proof (cases "B = {}")
      case False
      have "Max (insert k (A \<union> B)) = Max (insert k A \<union> B)" by simp
      also have "\<dots> = max (Max (insert k A)) (Max B)" using that False by (intro Max_Un) auto
      finally show ?thesis using that False by simp
    qed simp
    note merge = this
    have "fold (\<lambda>m longest. fold max (partial_sizes s m) longest) (m # ms) k
        = fold (\<lambda>m longest. fold max (partial_sizes s m) longest) ms (Max (insert k (set (partial_sizes s m))))"
      by (simp add: fold_max_set)
    also have "\<dots> = Max (insert (Max (insert k (set (partial_sizes s m)))) (\<Union>m\<in>set ms. set (partial_sizes s m)))"
      by (rule Cons)
    also have "\<dots> = Max (insert k (set (partial_sizes s m) \<union> (\<Union>m\<in>set ms. set (partial_sizes s m))))"
      by (rule merge) auto
    finally show ?case by simp
  qed simp
  then show ?thesis by (simp add: longest_partial_suffix_def)
qed

section \<open>Splitting a buffer at the first candidate\<close>

text \<open>Markers as all dialects have them: at least two characters, the first one "<" and no other "<", none the
  beginning of another. At a candidate a marker begins, or could begin if the text went on.\<close>

definition good_markers :: "string list \<Rightarrow> bool" where
  "good_markers ms \<longleftrightarrow> (\<forall>m\<in>set ms. \<exists>t. m = CHR ''<'' # t \<and> t \<noteq> [] \<and> CHR ''<'' \<notin> set t)
     \<and> (\<forall>m\<in>set ms. \<forall>m'\<in>set ms. prefix m m' \<longrightarrow> m = m')"

definition candidate :: "string list \<Rightarrow> string \<Rightarrow> bool" where
  "candidate ms s \<longleftrightarrow> s \<noteq> [] \<and> list_ex (\<lambda>m. prefix m s \<or> prefix s m) ms"

fun plain_split :: "string list \<Rightarrow> string \<Rightarrow> string \<times> string" where
  "plain_split ms [] = ([], [])"
| "plain_split ms (c # s) = (if candidate ms (c # s) then ([], c # s)
     else (case plain_split ms s of (a, b) \<Rightarrow> (c # a, b)))"

lemma plain_split_append: "plain_split ms s = (a, b) \<Longrightarrow> s = a @ b"
  by (induction s arbitrary: a b) (auto split: if_splits prod.splits)

lemma plain_split_candidate: "plain_split ms s = (a, b) \<Longrightarrow> b = [] \<or> candidate ms b"
  by (induction s arbitrary: a b) (auto split: if_splits prod.splits)

lemma plain_split_first:
  "plain_split ms s = (a, b) \<Longrightarrow> j < length a \<Longrightarrow> \<not> candidate ms (drop j s)"
proof (induction s arbitrary: a b j)
  case (Cons c s)
  then show ?case by (cases j) (auto split: if_splits prod.splits)
qed simp

lemma candidate_shrink: "candidate ms (s @ c) \<Longrightarrow> s \<noteq> [] \<Longrightarrow> candidate ms s"
  by (auto simp: candidate_def list_ex_iff prefix_append dest: append_prefixD) (metis prefix_def prefix_same_cases)+

lemma plain_split_more:
  "plain_split ms s = (a, b) \<Longrightarrow> plain_split ms (s @ c) = (case plain_split ms (b @ c) of (a', b') \<Rightarrow> (a @ a', b'))"
proof (induction s arbitrary: a b)
  case (Cons x s)
  show ?case
  proof (cases "candidate ms (x # s)")
    case True
    then show ?thesis using Cons.prems by (auto split: prod.split)
  next
    case False
    then have n: "\<not> candidate ms (x # s @ c)" using candidate_shrink [of ms "x # s" c] by auto
    obtain a1 where a1: "plain_split ms s = (a1, b)" "a = x # a1"
      using Cons.prems False by (auto split: prod.splits)
    show ?thesis using Cons.IH [OF a1(1)] n a1 by (auto split: prod.splits)
  qed
qed (auto split: prod.split)

lemma good_markersD:
  assumes "good_markers ms" and "m \<in> set ms"
  obtains t where "m = CHR ''<'' # t" "t \<noteq> []" "CHR ''<'' \<notin> set t"
  using assms unfolding good_markers_def by blast

lemma good_markers_subset: "good_markers ms \<Longrightarrow> set ms' \<subseteq> set ms \<Longrightarrow> good_markers ms'"
  unfolding good_markers_def by blast

text \<open>What the first-marker search and the held-back suffix of the code amount to.\<close>

lemma marker_found:
  assumes g: "good_markers ms" and s: "plain_split ms s = (a, b)" and m: "m \<in> set ms" "prefix m b"
  shows "first_marker ms s = Some (length a, m)"
proof -
  have sab: "s = a @ b" using plain_split_append [OF s] .
  have notin: "\<not> candidate ms (drop j s)" if "j < length a" for j using plain_split_first [OF s that] .
  have cand: "candidate ms (drop j s)" if "m' \<in> set ms" "prefix m' (drop j s)" for j m'
  proof -
    have "drop j s \<noteq> []" using g that by (auto simp: good_markers_def)
    then show ?thesis using that by (auto simp: candidate_def list_ex_iff)
  qed
  have least: "length a \<le> j" if "m' \<in> set ms" "str_find m' s = Some j" for m' j
    using notin cand [OF that(1)] str_find_Some [OF that(2)] by (meson not_less)
  have "str_find m s = Some (length a)"
  proof (rule str_findI)
    show "\<not> prefix m (drop j s)" if "j < length a" for j using notin [OF that] cand [OF m(1)] by blast
  qed (use m sab in auto)
  then obtain i m' where f: "first_marker ms s = Some (i, m')"
    using m(1) first_marker_None [of ms s] by (cases "first_marker ms s") auto
  from first_marker_Some [OF f] have f': "m' \<in> set ms" "str_find m' s = Some i" "i \<le> length a"
    using m(1) \<open>str_find m s = Some (length a)\<close> by auto
  then have "i = length a" using least by (meson le_antisym)
  then have "prefix m' b" using str_find_Some [OF f'(2)] sab by simp
  then have "prefix m' m \<or> prefix m m'" using m(2) by (rule prefix_same_cases)
  then have "m' = m" using g m(1) f'(1) by (auto simp: good_markers_def)
  then show ?thesis using f \<open>i = length a\<close> by simp
qed

lemma marker_not_found:
  assumes g: "good_markers ms" and s: "plain_split ms s = (a, b)" and n: "\<forall>m\<in>set ms. \<not> prefix m b"
  shows "first_marker ms s = None \<and> longest_partial_suffix s ms = length b"
proof -
  have sab: "s = a @ b" using plain_split_append [OF s] .
  have cand: "length a \<le> j" if "m \<in> set ms" "prefix m (drop j s) \<or> prefix (drop j s) m" "j < length s" for m j
  proof (rule ccontr)
    assume "\<not> length a \<le> j"
    then have "\<not> candidate ms (drop j s)" using plain_split_first [OF s] by simp
    then show False using that by (auto simp: candidate_def list_ex_iff)
  qed
  have part: "\<exists>m\<in>set ms. prefix b m" if "b \<noteq> []"
    using plain_split_candidate [OF s] that n by (auto simp: candidate_def list_ex_iff)
  have "str_find m s = None" if m: "m \<in> set ms" for m
  proof (rule ccontr)
    assume "str_find m s \<noteq> None"
    then obtain j where j: "str_find m s = Some j" by blast
    obtain t where t: "m = CHR ''<'' # t" using g m by (rule good_markersD)
    have p: "prefix m (drop j s)" "j < length s"
      using str_find_Some [OF j] str_find_length [OF j] t by auto
    then obtain k where k: "j = length a + k" using cand [OF m] le_Suc_ex by blast
    then have d: "prefix m (drop k b)" using p sab by simp
    have "k \<noteq> 0"
    proof
      assume "k = 0"
      then show False using d n m by auto
    qed
    have "b \<noteq> []" using d t by auto
    then obtain m' where m': "m' \<in> set ms" "prefix b m'" using part by blast
    obtain t' where t': "m' = CHR ''<'' # t'" "CHR ''<'' \<notin> set t'" using g m'(1) by (rule good_markersD)
    have "CHR ''<'' \<in> set (drop k b)" using d t by (auto simp: prefix_def)
    moreover have "set (drop k b) \<subseteq> set (tl b)" using \<open>k \<noteq> 0\<close> by (cases k) (auto simp: drop_Suc dest: in_set_dropD)
    moreover have "set (tl b) \<subseteq> set t'" using m'(2) t'(1) \<open>b \<noteq> []\<close> by (cases b) (auto dest: set_mono_prefix)
    ultimately show False using t'(2) by blast
  qed
  then have none: "first_marker ms s = None" by (simp add: first_marker_None)
  have up: "i \<le> length b" if i: "i \<in> set (partial_sizes s m)" "m \<in> set ms" for i m
  proof -
    have i': "1 \<le> i" "i \<le> length s" "prefix (drop (length s - i) s) m" using i(1) by (auto simp: partial_sizes_set)
    have "length a \<le> length s - i" using cand [OF i(2), of "length s - i"] i' by auto
    then show ?thesis using sab i' by simp
  qed
  have mem: "length b \<in> insert 0 (\<Union>m\<in>set ms. set (partial_sizes s m))"
  proof (cases "b = []")
    case False
    then obtain m where m: "m \<in> set ms" "prefix b m" using part by blast
    then have "length b < length m" using n by (metis not_equal_is_parallel prefix_length_less prefix_order.le_less prefix_order.refl)
    then have "length b \<in> set (partial_sizes s m)" using m False sab by (auto simp: partial_sizes_set Suc_le_eq)
    then show ?thesis using m(1) by blast
  qed simp
  have "longest_partial_suffix s ms = length b"
    unfolding longest_partial_suffix_Max by (rule Max_eqI) (use up mem in auto)
  then show ?thesis using none by simp
qed

end
