(* ===== verification/Glm5_Parser.thy ===== *)
theory Glm5_Parser
  imports Event_Stream Py_Strings Agent
begin

text \<open>
  The incremental parser of the GLM-5 dialect, \<open>src/exqserve/model/glm5.py\<close>: the model's text arrives in chunks,
  \<open>feed\<close> turns what is certain into generation events and keeps the rest in a buffer, \<open>finish\<close> ends the stream.
  A method returns the events it appends and the next parser state. Everything outside the sources is in
  \<open>parser_env\<close>: the text of a float and the hexadecimal SHA-256 digest of a text. A JSON escape for a code point
  above 255 is outside the strings of the model.
\<close>

record parser_env =
  pe_float_repr :: "string \<Rightarrow> string option"
  pe_sha256 :: "string \<Rightarrow> string"

section \<open>Markers\<close>

definition think_open :: string where "think_open = ''<think>''"
definition think_close :: string where "think_close = ''</think>''"
definition tool_open :: string where "tool_open = ''<tool_call>''"
definition tool_close :: string where "tool_close = ''</tool_call>''"
definition arg_key_open :: string where "arg_key_open = ''<arg_key>''"
definition arg_key_close :: string where "arg_key_close = ''</arg_key>''"
definition arg_value_open :: string where "arg_value_open = ''<arg_value>''"
definition arg_value_close :: string where "arg_value_close = ''</arg_value>''"

section \<open>Types of parameters\<close>

fun resolve_parts :: "string list \<Rightarrow> json \<Rightarrow> json option" where
  "resolve_parts [] current = Some current"
| "resolve_parts (raw_part # parts) current = (case current of
       JObj kvs \<Rightarrow> (case map_of kvs (str_replace ''~0'' ''~'' (str_replace ''~1'' ''/'' raw_part)) of
           None \<Rightarrow> None | Some v \<Rightarrow> resolve_parts parts v)
     | _ \<Rightarrow> None)"

definition resolve_local_schema_ref :: "string \<Rightarrow> json \<Rightarrow> json option" where
  "resolve_local_schema_ref reference doc =
     (if prefix ''#/'' reference then resolve_parts (str_split (CHR ''/'') (drop 2 reference)) doc else None)"

fun json_str :: "json \<Rightarrow> string option" where
  "json_str (JStr s) = Some s"
| "json_str _ = None"

fun json_arr :: "json \<Rightarrow> json list option" where
  "json_arr (JArr vs) = Some vs"
| "json_arr _ = None"

text \<open>The declared type or types: None when \<open>type\<close> says nothing.\<close>

definition declared_types :: "json_dict \<Rightarrow> string set option" where
  "declared_types kvs = (case json_get kvs ''type'' of
       JStr t \<Rightarrow> Some {t}
     | JArr vs \<Rightarrow> if list_all (\<lambda>v. json_str v \<noteq> None) vs then Some (set (List.map_filter json_str vs)) else None
     | _ \<Rightarrow> None)"

text \<open>The branches of the first of \<open>anyOf\<close> and \<open>oneOf\<close> that is a non-empty list.\<close>

definition union_branches :: "json_dict \<Rightarrow> json list option" where
  "union_branches kvs = first_some (\<lambda>keyword. case json_arr (json_get kvs keyword) of
       None \<Rightarrow> None | Some vs \<Rightarrow> if vs = [] then None else Some vs) [''anyOf'', ''oneOf'']"

fun union_types :: "string set option list \<Rightarrow> string set option" where
  "union_types [] = Some {}"
| "union_types (None # ts) = None"
| "union_types (Some t # ts) = map_option ((\<union>) t) (union_types ts)"

text \<open>All texts a \<open>$ref\<close> member has anywhere in a value: what bounds the recursion of \<open>_schema_types\<close>.\<close>

fun ref_names :: "json \<Rightarrow> string set" where
  "ref_names (JObj kvs) = (\<Union>kv\<in>set kvs. ref_names (snd kv) \<union> (case kv of (k, v) \<Rightarrow> if k = ''$ref'' then set_option (json_str v) else {}))"
| "ref_names (JArr vs) = (\<Union>v\<in>set vs. ref_names v)"
| "ref_names _ = {}"

lemma finite_ref_names [simp]: "finite (ref_names v)"
  by (induction v rule: ref_names.induct) (auto split: prod.split)

lemma ref_names_member: "map_of kvs k = Some v \<Longrightarrow> ref_names v \<subseteq> ref_names (JObj kvs)"
  by (auto dest!: map_of_SomeD intro!: bexI)

lemma ref_names_get: "ref_names (json_get kvs k) \<subseteq> ref_names (JObj kvs)"
  using ref_names_member [of kvs k] by (cases "map_of kvs k") (auto simp: json_get_def)

lemma ref_names_resolved: "resolve_parts parts doc = Some v \<Longrightarrow> ref_names v \<subseteq> ref_names doc"
proof (induction parts arbitrary: doc)
  case (Cons p parts)
  then obtain kvs k w where "doc = JObj kvs" "map_of kvs k = Some w" "resolve_parts parts w = Some v"
    by (auto split: json.splits option.splits)
  then show ?case using Cons.IH ref_names_member by blast
qed simp

lemma ref_is_named: "json_str (json_get kvs ''$ref'') = Some r \<Longrightarrow> r \<in> ref_names (JObj kvs)"
proof -
  assume a: "json_str (json_get kvs ''$ref'') = Some r"
  then have "map_of kvs ''$ref'' = Some (JStr r)"
    by (cases "json_get kvs ''$ref''") (auto simp: json_get_def split: option.splits)
  then have "(''$ref'', JStr r) \<in> set kvs" by (rule map_of_SomeD)
  then show ?thesis by (force intro!: bexI)
qed

lemma union_branches_member:
  assumes "union_branches kvs = Some vs"
  obtains k where "json_get kvs k = JArr vs"
proof -
  from assms obtain k where k: "(case json_arr (json_get kvs k) of None \<Rightarrow> None | Some vs \<Rightarrow> if vs = [] then None else Some vs) = Some vs"
    unfolding union_branches_def by (blast dest: first_some_Some)
  then have "json_get kvs k = JArr vs" by (cases "json_get kvs k") (auto split: if_splits)
  then show thesis by (rule that)
qed

function schema_types :: "json \<Rightarrow> json \<Rightarrow> string set \<Rightarrow> string set option" where
  "schema_types doc (JObj kvs) seen = (case json_str (json_get kvs ''$ref'') of
       Some reference \<Rightarrow>
         (if reference \<in> seen then None
          else (case resolve_local_schema_ref reference doc of
              None \<Rightarrow> None | Some resolved \<Rightarrow> schema_types doc resolved (insert reference seen)))
     | None \<Rightarrow> (case declared_types kvs of Some ts \<Rightarrow> Some ts
         | None \<Rightarrow> (case union_branches kvs of None \<Rightarrow> None
             | Some branches \<Rightarrow> union_types (map (\<lambda>branch. schema_types doc branch seen) branches))))"
| "schema_types doc JNull seen = None"
| "schema_types doc (JBool b) seen = None"
| "schema_types doc (JInt i) seen = None"
| "schema_types doc (JFloat t) seen = None"
| "schema_types doc (JStr s) seen = None"
| "schema_types doc (JArr vs) seen = None"
  by pat_completeness auto

termination
proof (relation "measures [\<lambda>(doc, schema, seen). card ((ref_names schema \<union> ref_names doc) - seen), \<lambda>(doc, schema, seen). size schema]")
  fix doc kvs seen reference resolved
  assume r: "json_str (json_get kvs ''$ref'') = Some reference" "reference \<notin> seen" "resolve_local_schema_ref reference doc = Some resolved"
  have "ref_names resolved \<subseteq> ref_names doc"
    using r(3) by (auto simp: resolve_local_schema_ref_def dest!: ref_names_resolved split: if_splits)
  then have "(ref_names resolved \<union> ref_names doc) - insert reference seen \<subset> (ref_names (JObj kvs) \<union> ref_names doc) - seen"
    using ref_is_named [OF r(1)] r(2) by blast
  then have "card ((ref_names resolved \<union> ref_names doc) - insert reference seen) < card ((ref_names (JObj kvs) \<union> ref_names doc) - seen)"
    by (intro psubset_card_mono) (auto simp del: ref_names.simps)
  then show "((doc, resolved, insert reference seen), doc, JObj kvs, seen)
      \<in> measures [\<lambda>(doc, schema, seen). card ((ref_names schema \<union> ref_names doc) - seen), \<lambda>(doc, schema, seen). size schema]"
    by (simp del: ref_names.simps)
next
  fix doc kvs seen branches branch
  assume "json_str (json_get kvs ''$ref'') = None" "declared_types kvs = None" "union_branches kvs = Some branches" "branch \<in> set branches"
  then obtain k where k: "json_get kvs k = JArr branches" by (blast elim: union_branches_member)
  have "ref_names branch \<subseteq> ref_names (JArr branches)" using \<open>branch \<in> set branches\<close> by auto
  then have "ref_names branch \<subseteq> ref_names (JObj kvs)" using ref_names_get [of kvs k] k by auto
  then have "card ((ref_names branch \<union> ref_names doc) - seen) \<le> card ((ref_names (JObj kvs) \<union> ref_names doc) - seen)"
    by (intro card_mono) (auto simp del: ref_names.simps)
  moreover have "size branch < size (JObj kvs)"
    using size_json_get [of kvs k "JArr branches"] size_element [OF \<open>branch \<in> set branches\<close>] k by (simp del: json.size)
  ultimately show "((doc, branch, seen), doc, JObj kvs, seen)
      \<in> measures [\<lambda>(doc, schema, seen). card ((ref_names schema \<union> ref_names doc) - seen), \<lambda>(doc, schema, seen). size schema]"
    by (auto simp del: ref_names.simps json.size)
qed simp

text \<open>\<open>TemplateTool\<close> and the tools a policy exposes to the model, sorted by name.\<close>

record template_tool =
  tt_name :: string
  tt_description :: "string option"
  tt_parameters_json :: string

definition exposed_tools :: "tool_policy \<Rightarrow> template_tool list" where
  "exposed_tools p =
     (let selected = (case tc_mode (tp_choice p) of
            MODE_NONE \<Rightarrow> []
          | MODE_NAMED \<Rightarrow> filter (\<lambda>t. Some (ft_name t) = tc_name (tp_choice p)) (tp_tools p)
          | _ \<Rightarrow> tp_tools p) in
      map (\<lambda>t. \<lparr>tt_name = ft_name t, tt_description = ft_description t, tt_parameters_json = ft_parameters t\<rparr>)
        (sort_key ft_name selected))"

type_synonym parameter_types = "(string \<times> (string \<times> string set option) list) list"

record glm_context =
  gc_tools_enabled :: bool
  gc_parameter_types :: parameter_types

definition tool_parameter_types :: "parser_env \<Rightarrow> string \<Rightarrow> (string \<times> string set option) list" where
  "tool_parameter_types E parameters_json = (case parse_json_strict (pe_float_repr E) parameters_json of
       Inl e \<Rightarrow> []
     | Inr v \<Rightarrow> (case v of
         JObj schema \<Rightarrow> (case json_get schema ''properties'' of
             JObj properties \<Rightarrow> map (\<lambda>(name, property_schema). (name, schema_types v property_schema {})) properties
           | _ \<Rightarrow> [])
       | _ \<Rightarrow> []))"

definition parser_context_from_tools :: "parser_env \<Rightarrow> template_tool list \<Rightarrow> glm_context" where
  "parser_context_from_tools E tools =
     \<lparr>gc_tools_enabled = (tools \<noteq> []),
      gc_parameter_types = fold (\<lambda>t. AList.update (tt_name t) (tool_parameter_types E (tt_parameters_json t))) tools []\<rparr>"

definition glm5_parser_context :: "parser_env \<Rightarrow> tool_policy \<Rightarrow> glm_context" where
  "glm5_parser_context E p = parser_context_from_tools E (exposed_tools p)"

section \<open>The body of a tool call\<close>

definition decode_argument :: "parser_env \<Rightarrow> string \<Rightarrow> string set option \<Rightarrow> json" where
  "decode_argument E raw types =
     (let stripped = str_strip raw;
          lenient = (case parse_json_strict (pe_float_repr E) stripped of Inl e \<Rightarrow> JStr raw | Inr v \<Rightarrow> v) in
      case types of
        None \<Rightarrow> lenient
      | Some ts \<Rightarrow>
          (if ''string'' \<in> ts \<and> ts \<subseteq> {''string'', ''null''}
           then (if stripped = ''null'' \<and> ''null'' \<in> ts then JNull else JStr raw)
           else lenient))"

definition bad_name :: "string \<Rightarrow> bool" where
  "bad_name name \<longleftrightarrow> name = [] \<or> list_ex (\<lambda>c. py_space c \<or> c = CHR ''<'' \<or> c = CHR ''>'') name"

lemma strip_prefix_Some: "strip_prefix p s = Some t \<longleftrightarrow> s = p @ t"
  by (auto simp: strip_prefix_def) (metis append_take_drop_id)

lemma length_lstrip [simp]: "length (str_lstrip s) \<le> length s"
  by (simp add: str_lstrip_def length_dropWhile_le)

text \<open>The loop over the arguments; the text is what is left from the cursor on.\<close>

function parse_arguments ::
  "parser_env \<Rightarrow> (string \<times> string set option) list \<Rightarrow> string \<Rightarrow> json_dict \<Rightarrow> json_dict res" where
  "parse_arguments E types rest args =
     (let r = str_lstrip rest in
      if r = [] then Inr args
      else case strip_prefix arg_key_open r of
        None \<Rightarrow> Inl (ValueError ''unexpected text between GLM-5 tool arguments'')
      | Some a \<Rightarrow> (case str_find arg_key_close a of
          None \<Rightarrow> Inl (ValueError ''GLM-5 tool argument key is incomplete'')
        | Some n \<Rightarrow>
            (let key = str_strip (take n a) in
             if key = [] \<or> key \<in> set (map fst args)
             then Inl (ValueError ''invalid or duplicate GLM-5 tool argument key'')
             else case strip_prefix arg_value_open (str_lstrip (drop (n + length arg_key_close) a)) of
               None \<Rightarrow> Inl (ValueError ''GLM-5 tool argument value is missing'')
             | Some v \<Rightarrow> (case str_find arg_value_close v of
                 None \<Rightarrow> Inl (ValueError ''GLM-5 tool argument value is incomplete'')
               | Some k \<Rightarrow>
                   parse_arguments E types (drop (k + length arg_value_close) v)
                     (args @ [(key, decode_argument E (take k v) (Option.bind (map_of types key) id))])))))"
  by pat_completeness auto

termination
proof (relation "measure (\<lambda>(E, types, rest, args). length rest)")
  fix E :: parser_env and types :: "(string \<times> string set option) list" and rest args r a n key v k
  assume "r = str_lstrip rest" "strip_prefix arg_key_open r = Some a"
    "strip_prefix arg_value_open (str_lstrip (drop (n + length arg_key_close) a)) = Some v"
  then have "length rest \<ge> length arg_key_open + length a" "length v \<le> length a"
    using length_lstrip [of rest] length_lstrip [of "drop (n + length arg_key_close) a"]
    by (auto simp: strip_prefix_Some)
  moreover have "length arg_key_open = 9" by (simp add: arg_key_open_def)
  ultimately show "((E, types, drop (k + length arg_value_close) v,
      args @ [(key, decode_argument E (take k v) (Option.bind (map_of types key) id))]), E, types, rest, args)
      \<in> measure (\<lambda>(E, types, rest, args). length rest)" by simp
qed simp

declare parse_arguments.simps [simp del]

definition parse_tool_body :: "parser_env \<Rightarrow> parameter_types \<Rightarrow> string \<Rightarrow> (string \<times> string) res" where
  "parse_tool_body E types body = (case str_find arg_key_open body of
       None \<Rightarrow> (let name = str_strip body in
         if bad_name name then Inl (ValueError ''invalid GLM-5 zero-argument tool call'') else Inr (name, ''{}''))
     | Some first_key \<Rightarrow> (let name = str_strip (take first_key body) in
         if bad_name name then Inl (ValueError ''invalid GLM-5 tool name'')
         else (case parse_arguments E (case map_of types name of None \<Rightarrow> [] | Some ts \<Rightarrow> ts) (drop first_key body) [] of
             Inl e \<Rightarrow> Inl e
           | Inr arguments \<Rightarrow> Inr (name, canonical_json_dumps (JObj arguments)))))"

section \<open>The parser\<close>

datatype glm_mode = GText | GReasoning | GTool

record glm_parser =
  gp_request_id :: string
  gp_buffer :: string
  gp_mode :: glm_mode
  gp_text_open :: bool
  gp_text_value :: string
  gp_reasoning_open :: bool
  gp_reasoning_value :: string
  gp_tool_body :: string
  gp_tool_return_mode :: glm_mode
  gp_call_index :: int
  gp_had_incomplete_tool :: bool
  gp_finished :: bool
  gp_parameter_types :: parameter_types
  gp_tools_enabled :: bool

text \<open>\<open>__init__\<close> with a parser context, or with tools from which it is derived.\<close>

definition new_glm_parser :: "parser_env \<Rightarrow> string \<Rightarrow> bool \<Rightarrow> template_tool list \<Rightarrow> glm_context option \<Rightarrow> glm_parser res" where
  "new_glm_parser E rid start_in_reasoning tools context =
     raise_if (blank rid) (ValueError ''request_id must not be empty'')
    (raise_if (context \<noteq> None \<and> tools \<noteq> []) (ValueError ''provide tools or parser_context, not both'')
    (let ctx = (case context of None \<Rightarrow> parser_context_from_tools E tools | Some c \<Rightarrow> c) in
     Inr \<lparr>gp_request_id = rid, gp_buffer = [], gp_mode = (if start_in_reasoning then GReasoning else GText),
       gp_text_open = False, gp_text_value = [], gp_reasoning_open = False, gp_reasoning_value = [],
       gp_tool_body = [], gp_tool_return_mode = GText, gp_call_index = 0, gp_had_incomplete_tool = False,
       gp_finished = False, gp_parameter_types = gc_parameter_types ctx, gp_tools_enabled = gc_tools_enabled ctx\<rparr>))"

definition glm5_call_id :: "parser_env \<Rightarrow> string \<Rightarrow> int \<Rightarrow> string" where
  "glm5_call_id E rid index = ''call_'' @ take 24 (pe_sha256 E (rid @ [CHR 0x00] @ ''glm5'' @ [CHR 0x00] @ show_int index))"

definition emit_content :: "string \<Rightarrow> glm_parser \<Rightarrow> generation_event list \<times> glm_parser" where
  "emit_content t p =
     (if t = [] then ([], p)
      else if gp_mode p = GReasoning
      then ((if gp_reasoning_open p then [] else [ReasoningStarted (gp_request_id p)]) @ [ReasoningDelta (gp_request_id p) t],
            p\<lparr>gp_reasoning_open := True, gp_reasoning_value := gp_reasoning_value p @ t\<rparr>)
      else ((if gp_text_open p then [] else [TextStarted (gp_request_id p)]) @ [TextDelta (gp_request_id p) t],
            p\<lparr>gp_text_open := True, gp_text_value := gp_text_value p @ t\<rparr>))"

definition close_channel :: "glm_parser \<Rightarrow> generation_event list \<times> glm_parser" where
  "close_channel p =
     (if gp_mode p = GReasoning \<and> gp_reasoning_open p
      then ([ReasoningCompleted (gp_request_id p) (gp_reasoning_value p)], p\<lparr>gp_reasoning_open := False, gp_reasoning_value := []\<rparr>)
      else if gp_mode p = GText \<and> gp_text_open p
      then ([TextCompleted (gp_request_id p) (gp_text_value p)], p\<lparr>gp_text_open := False, gp_text_value := []\<rparr>)
      else ([], p))"

definition enter_tool :: "glm_parser \<Rightarrow> generation_event list \<times> glm_parser" where
  "enter_tool p0 = (case close_channel p0 of (events, p) \<Rightarrow>
     (events, p\<lparr>gp_tool_return_mode := GText, gp_mode := GTool, gp_tool_body := []\<rparr>))"

definition finish_tool :: "parser_env \<Rightarrow> glm_parser \<Rightarrow> generation_event list \<times> glm_parser" where
  "finish_tool E p =
     (let result = (case parse_tool_body E (gp_parameter_types p) (gp_tool_body p) of
            Inl e \<Rightarrow> ([], p\<lparr>gp_had_incomplete_tool := True\<rparr>)
          | Inr (name, arguments) \<Rightarrow>
              (let rid = gp_request_id p; i = gp_call_index p; c = glm5_call_id E rid i in
               ([ToolCallStarted rid c name i, ToolCallArgumentsDelta rid c arguments i,
                 ToolCallCompleted rid \<lparr>call_id = c, tool_name = name, arguments_json = arguments, call_index = i\<rparr>],
                p\<lparr>gp_call_index := i + 1\<rparr>))) in
      (fst result, (snd result)\<lparr>gp_tool_body := [], gp_mode := gp_tool_return_mode p\<rparr>))"

definition glm_markers :: "glm_parser \<Rightarrow> string list" where
  "glm_markers p = (if gp_tools_enabled p then [think_open, think_close, tool_open] else [think_open, think_close])"

text \<open>One round of the loop of \<open>feed\<close>: whether it made progress, what it appended, and the next state.\<close>

definition process_plain :: "glm_parser \<Rightarrow> bool \<times> generation_event list \<times> glm_parser" where
  "process_plain p = (case first_marker (glm_markers p) (gp_buffer p) of
       Some (position, marker) \<Rightarrow>
         (if position > 0
          then (case emit_content (take position (gp_buffer p)) p of (events, q) \<Rightarrow>
            (True, events, q\<lparr>gp_buffer := drop position (gp_buffer p)\<rparr>))
          else
           (let q = p\<lparr>gp_buffer := drop (length marker) (gp_buffer p)\<rparr> in
            if marker = think_open then (case close_channel q of (events, q1) \<Rightarrow> (True, events, q1\<lparr>gp_mode := GReasoning\<rparr>))
            else if marker = think_close then (case close_channel q of (events, q1) \<Rightarrow> (True, events, q1\<lparr>gp_mode := GText\<rparr>))
            else (case enter_tool q of (events, q1) \<Rightarrow> (True, events, q1))))
     | None \<Rightarrow>
         (let emit_length = length (gp_buffer p) - longest_partial_suffix (gp_buffer p) (glm_markers p) in
          if emit_length > 0
          then (case emit_content (take emit_length (gp_buffer p)) p of (events, q) \<Rightarrow>
            (True, events, q\<lparr>gp_buffer := drop emit_length (gp_buffer p)\<rparr>))
          else (False, [], p)))"

definition process_tool :: "parser_env \<Rightarrow> glm_parser \<Rightarrow> bool \<times> generation_event list \<times> glm_parser" where
  "process_tool E p = (case str_find tool_close (gp_buffer p) of
       Some close_at \<Rightarrow>
         (case finish_tool E (p\<lparr>gp_tool_body := gp_tool_body p @ take close_at (gp_buffer p),
              gp_buffer := drop (close_at + length tool_close) (gp_buffer p)\<rparr>) of (events, q) \<Rightarrow> (True, events, q))
     | None \<Rightarrow>
         (let consume = length (gp_buffer p) - longest_partial_suffix (gp_buffer p) [tool_close] in
          if consume > 0
          then (True, [], p\<lparr>gp_tool_body := gp_tool_body p @ take consume (gp_buffer p),
              gp_buffer := drop consume (gp_buffer p)\<rparr>)
          else (False, [], p)))"

definition glm_round :: "parser_env \<Rightarrow> glm_parser \<Rightarrow> bool \<times> generation_event list \<times> glm_parser" where
  "glm_round E p = (if gp_mode p = GTool then process_tool E p else process_plain p)"

section \<open>The loop\<close>

lemma marker_lengths [simp]:
  "length think_open = 7" "length think_close = 8" "length tool_open = 11" "length tool_close = 12"
  by (simp_all add: think_open_def think_close_def tool_open_def tool_close_def)

lemma markers_nonempty [simp]: "think_open \<noteq> []" "think_close \<noteq> []" "tool_open \<noteq> []" "tool_close \<noteq> []"
  by (simp_all add: think_open_def think_close_def tool_open_def tool_close_def)

lemma marker_in_glm: "m \<in> set (glm_markers p) \<Longrightarrow> m \<noteq> []"
  by (auto simp: glm_markers_def markers_nonempty [symmetric] simp del: markers_nonempty split: if_splits)

lemma emit_fields [simp]:
  "gp_buffer (snd (emit_content t p)) = gp_buffer p" "gp_mode (snd (emit_content t p)) = gp_mode p"
  "gp_tools_enabled (snd (emit_content t p)) = gp_tools_enabled p" "gp_finished (snd (emit_content t p)) = gp_finished p"
  by (simp_all add: emit_content_def)

lemma close_fields [simp]:
  "gp_buffer (snd (close_channel p)) = gp_buffer p" "gp_mode (snd (close_channel p)) = gp_mode p"
  "gp_tools_enabled (snd (close_channel p)) = gp_tools_enabled p" "gp_finished (snd (close_channel p)) = gp_finished p"
  by (simp_all add: close_channel_def)

lemma enter_fields [simp]:
  "gp_buffer (snd (enter_tool p)) = gp_buffer p" "gp_mode (snd (enter_tool p)) = GTool"
  "gp_tools_enabled (snd (enter_tool p)) = gp_tools_enabled p" "gp_finished (snd (enter_tool p)) = gp_finished p"
  by (simp_all add: enter_tool_def split_beta)

lemma finish_tool_fields [simp]:
  "gp_buffer (snd (finish_tool E p)) = gp_buffer p" "gp_mode (snd (finish_tool E p)) = gp_tool_return_mode p"
  "gp_tools_enabled (snd (finish_tool E p)) = gp_tools_enabled p" "gp_finished (snd (finish_tool E p)) = gp_finished p"
  by (auto simp: finish_tool_def Let_def split: sum.split prod.split)

lemma finish_tool_buffer: "finish_tool E p = (events, q) \<Longrightarrow> gp_buffer q = gp_buffer p"
  using finish_tool_fields(1) [of E p] by simp

lemma enter_tool_buffer: "enter_tool p = (events, q) \<Longrightarrow> gp_buffer q = gp_buffer p"
  using enter_fields(1) [of p] by simp

lemma round_shrinks:
  assumes "glm_round E p = (True, events, q)" shows "length (gp_buffer q) < length (gp_buffer p)"
proof (cases "gp_mode p = GTool")
  case True
  then show ?thesis using assms str_find_length [of tool_close "gp_buffer p"]
    by (auto simp: glm_round_def process_tool_def Let_def dest!: finish_tool_buffer split: option.splits if_splits prod.splits)
next
  case False
  show ?thesis
  proof (cases "first_marker (glm_markers p) (gp_buffer p)")
    case None
    then show ?thesis using assms False
      by (auto simp: glm_round_def process_plain_def Let_def split_beta split: if_splits)
  next
    case (Some pm)
    obtain i m where pm: "pm = (i, m)" by fastforce
    have m: "m \<in> set (glm_markers p)" "str_find m (gp_buffer p) = Some i"
      using first_marker_Some Some pm by blast+
    then have "i + length m \<le> length (gp_buffer p)" "0 < length m"
      using str_find_length marker_in_glm by auto
    then have "length (gp_buffer p) - length m < length (gp_buffer p)" by linarith
    then show ?thesis using assms False Some pm
      by (auto simp: glm_round_def process_plain_def Let_def split_beta dest!: enter_tool_buffer split: if_splits)
  qed
qed

function glm_drain :: "parser_env \<Rightarrow> glm_parser \<Rightarrow> generation_event list \<times> glm_parser" where
  "glm_drain E p = (case glm_round E p of (progressed, events, q) \<Rightarrow>
     if progressed then (case glm_drain E q of (later, r) \<Rightarrow> (events @ later, r)) else (events, q))"
  by pat_completeness auto

termination
  by (relation "measure (\<lambda>(E, p). length (gp_buffer p))") (auto dest: round_shrinks [OF sym])

declare glm_drain.simps [simp del]

definition glm_feed :: "parser_env \<Rightarrow> string \<Rightarrow> glm_parser \<Rightarrow> generation_event list res \<times> glm_parser" where
  "glm_feed E chunk p =
     (if gp_finished p then (Inl (RuntimeError ''cannot feed a finished GLM-5 parser''), p)
      else (case glm_drain E (p\<lparr>gp_buffer := gp_buffer p @ chunk\<rparr>) of (events, q) \<Rightarrow> (Inr events, q)))"

text \<open>\<open>finish\<close>: the events, whether a tool call was incomplete, and the finished parser.\<close>

definition glm_finish :: "glm_parser \<Rightarrow> (generation_event list \<times> bool) \<times> glm_parser" where
  "glm_finish p =
     (if gp_finished p then (([], gp_had_incomplete_tool p), p)
      else if gp_mode p = GTool
      then (([], True), p\<lparr>gp_had_incomplete_tool := True, gp_buffer := [], gp_tool_body := [],
              gp_mode := gp_tool_return_mode p, gp_finished := True\<rparr>)
      else (let (shown, q) =
                (if gp_buffer p = [] then ([], p)
                 else if list_ex (prefix (gp_buffer p)) [think_open, think_close] then ([], p)
                 else if gp_tools_enabled p \<and> prefix (gp_buffer p) tool_open then ([], p\<lparr>gp_had_incomplete_tool := True\<rparr>)
                 else emit_content (gp_buffer p) p);
              (closed, r) = close_channel (q\<lparr>gp_buffer := []\<rparr>) in
            ((shown @ closed, gp_had_incomplete_tool r), r\<lparr>gp_finished := True\<rparr>)))"

text \<open>The life of a parser: chunks, then the end.\<close>

fun glm_feed_all :: "parser_env \<Rightarrow> string list \<Rightarrow> glm_parser \<Rightarrow> generation_event list res \<times> glm_parser" where
  "glm_feed_all E [] p = (Inr [], p)"
| "glm_feed_all E (chunk # chunks) p = (case glm_feed E chunk p of
     (Inl e, q) \<Rightarrow> (Inl e, q)
   | (Inr events, q) \<Rightarrow> (case glm_feed_all E chunks q of (Inl e, r) \<Rightarrow> (Inl e, r) | (Inr later, r) \<Rightarrow> (Inr (events @ later), r)))"

definition glm_session :: "parser_env \<Rightarrow> string list \<Rightarrow> glm_parser \<Rightarrow> (generation_event list \<times> bool) res" where
  "glm_session E chunks p = (case glm_feed_all E chunks p of
     (Inl e, q) \<Rightarrow> Inl e
   | (Inr events, q) \<Rightarrow> (case glm_finish q of ((last_events, incomplete), r) \<Rightarrow> Inr (events @ last_events, incomplete)))"

end
