(* ===== verification/Glm5_Properties.thy ===== *)
theory Glm5_Properties
  imports Glm5_Parser
begin

text \<open>
  Properties of the GLM-5 parser: its answer does not depend on how the text was cut into chunks, and the events
  it produces are a well-formed stream of valid events.
\<close>

section \<open>A round of the loop, by the first candidate of the buffer\<close>

lemma good_glm: "good_markers [think_open, think_close, tool_open]" "good_markers [tool_close]"
  by (simp_all add: good_markers_def think_open_def think_close_def tool_open_def tool_close_def)

lemma good_glm_markers: "good_markers (glm_markers p)"
  by (rule good_markers_subset [OF good_glm(1)]) (auto simp: glm_markers_def)

definition emit_to :: "string \<Rightarrow> string \<Rightarrow> glm_parser \<Rightarrow> generation_event list \<times> glm_parser" where
  "emit_to t rest p = (fst (emit_content t p), (snd (emit_content t p))\<lparr>gp_buffer := rest\<rparr>)"

definition apply_marker :: "string \<Rightarrow> string \<Rightarrow> glm_parser \<Rightarrow> generation_event list \<times> glm_parser" where
  "apply_marker m rest p = (let q = p\<lparr>gp_buffer := rest\<rparr> in
     if m = think_open then (fst (close_channel q), (snd (close_channel q))\<lparr>gp_mode := GReasoning\<rparr>)
     else if m = think_close then (fst (close_channel q), (snd (close_channel q))\<lparr>gp_mode := GText\<rparr>)
     else enter_tool q)"

text \<open>The marker that begins a text, if any.\<close>

definition begins :: "string list \<Rightarrow> string \<Rightarrow> string option" where
  "begins ms s = List.find (\<lambda>m. prefix m s) ms"

lemma begins_Some: "begins ms s = Some m \<Longrightarrow> m \<in> set ms \<and> prefix m s"
  by (auto simp: begins_def find_Some_iff dest: nth_mem)

lemma begins_None: "begins ms s = None \<longleftrightarrow> (\<forall>m\<in>set ms. \<not> prefix m s)"
  by (auto simp: begins_def find_None_iff)

lemma begins_append:
  assumes "good_markers ms" "begins ms s = Some m" shows "begins ms (s @ c) = Some m"
proof (cases "begins ms (s @ c)")
  case None
  have "m \<in> set ms" "prefix m (s @ c)" using begins_Some [OF assms(2)] by auto
  then show ?thesis using None by (simp add: begins_None)
next
  case (Some m')
  then have m: "m' \<in> set ms" "prefix m' (s @ c)" "m \<in> set ms" "prefix m (s @ c)"
    using begins_Some [OF Some] begins_Some [OF assms(2)] by (auto intro: prefix_order.trans)
  have "prefix m m' \<or> prefix m' m" using m(4,2) by (rule prefix_same_cases)
  then have "m = m'" using assms(1) m(1,3) by (auto simp: good_markers_def)
  then show ?thesis using Some by simp
qed

lemma plain_round:
  assumes "gp_mode p \<noteq> GTool" "plain_split (glm_markers p) (gp_buffer p) = (a, b)"
  shows "glm_round E p =
    (if a \<noteq> [] then (True, emit_to a b p)
     else case begins (glm_markers p) b of
       Some m \<Rightarrow> (True, apply_marker m (drop (length m) b) p)
     | None \<Rightarrow> (False, [], p))"
proof -
  have ab: "gp_buffer p = a @ b" by (rule plain_split_append [OF assms(2)])
  show ?thesis
  proof (cases "begins (glm_markers p) b")
    case None
    then have "first_marker (glm_markers p) (gp_buffer p) = None"
      "longest_partial_suffix (gp_buffer p) (glm_markers p) = length b"
      using marker_not_found [OF good_glm_markers assms(2)] by (auto simp: begins_None)
    then show ?thesis using assms(1) None ab
      by (simp add: glm_round_def process_plain_def emit_to_def split_beta)
  next
    case (Some m)
    then have m: "m \<in> set (glm_markers p)" "prefix m b" using begins_Some [OF Some] by auto
    then have "first_marker (glm_markers p) (gp_buffer p) = Some (length a, m)"
      using marker_found [OF good_glm_markers assms(2)] by blast
    then show ?thesis using assms(1) Some ab
      by (auto simp: glm_round_def process_plain_def emit_to_def apply_marker_def split_beta Let_def)
  qed
qed

lemma tool_round:
  assumes "gp_mode p = GTool" "plain_split [tool_close] (gp_buffer p) = (a, b)"
  shows "glm_round E p =
    (if prefix tool_close b
     then (True, finish_tool E (p\<lparr>gp_tool_body := gp_tool_body p @ a, gp_buffer := drop (length tool_close) b\<rparr>))
     else if a \<noteq> [] then (True, [], p\<lparr>gp_tool_body := gp_tool_body p @ a, gp_buffer := b\<rparr>)
     else (False, [], p))"
proof -
  have ab: "gp_buffer p = a @ b" by (rule plain_split_append [OF assms(2)])
  show ?thesis
  proof (cases "prefix tool_close b")
    case True
    then have "first_marker [tool_close] (gp_buffer p) = Some (length a, tool_close)"
      by (intro marker_found [OF good_glm(2) assms(2)]) auto
    then have "str_find tool_close (gp_buffer p) = Some (length a)" by (auto split: option.splits)
    then show ?thesis using assms(1) True ab
      by (simp add: glm_round_def process_tool_def split_beta)
  next
    case False
    then have "first_marker [tool_close] (gp_buffer p) = None" "longest_partial_suffix (gp_buffer p) [tool_close] = length b"
      using marker_not_found [OF good_glm(2) assms(2)] by auto
    then have "str_find tool_close (gp_buffer p) = None" by (auto split: option.splits)
    then show ?thesis using assms(1) False ab \<open>longest_partial_suffix (gp_buffer p) [tool_close] = length b\<close>
      by (simp add: glm_round_def process_tool_def)
  qed
qed

section \<open>More text at the end of the buffer\<close>

definition more_text :: "string \<Rightarrow> glm_parser \<Rightarrow> glm_parser" where
  "more_text c p = p\<lparr>gp_buffer := gp_buffer p @ c\<rparr>"

lemma more_text_fields [simp]:
  "gp_buffer (more_text c p) = gp_buffer p @ c" "gp_mode (more_text c p) = gp_mode p"
  "gp_tools_enabled (more_text c p) = gp_tools_enabled p" "gp_tool_body (more_text c p) = gp_tool_body p"
  "glm_markers (more_text c p) = glm_markers p" "gp_finished (more_text c p) = gp_finished p"
  by (simp_all add: more_text_def glm_markers_def)

lemma emit_more: "emit_to a (b @ c) (more_text c p) = (fst (emit_to a b p), more_text c (snd (emit_to a b p)))"
  by (simp add: emit_to_def emit_content_def more_text_def)

lemma emit_twice:
  assumes "a \<noteq> []" "a' \<noteq> []" "gp_mode p \<noteq> GTool"
  shows "snd (emit_to (a @ a') b' p) = snd (emit_to a' b' (snd (emit_to a x p)))"
    and "explode (fst (emit_to (a @ a') b' p)) = explode (fst (emit_to a x p)) @ explode (fst (emit_to a' b' (snd (emit_to a x p))))"
  using assms by (auto simp: emit_to_def emit_content_def)

lemma emit_buffer: "emit_to a b (more_text c p) = emit_to a b p"
  by (simp add: emit_to_def emit_content_def more_text_def)

lemma marker_more: "apply_marker m (r @ c) (more_text c p) = (fst (apply_marker m r p), more_text c (snd (apply_marker m r p)))"
  by (simp add: apply_marker_def close_channel_def enter_tool_def more_text_def Let_def)

lemma finish_tool_more: "finish_tool E (more_text c p) = (fst (finish_tool E p), more_text c (snd (finish_tool E p)))"
  by (simp add: finish_tool_def more_text_def Let_def split: sum.split prod.split)

lemma emit_to_fields [simp]:
  "gp_buffer (snd (emit_to a b p)) = b" "gp_mode (snd (emit_to a b p)) = gp_mode p"
  "glm_markers (snd (emit_to a b p)) = glm_markers p"
  by (simp_all add: emit_to_def emit_content_def glm_markers_def)

lemma drain_step: "glm_round E p = (True, es, q) \<Longrightarrow> glm_drain E p = (es @ fst (glm_drain E q), snd (glm_drain E q))"
  by (subst glm_drain.simps) (simp add: split_beta)

lemma drain_stop: "glm_round E p = (False, es, q) \<Longrightarrow> glm_drain E p = (es, q)"
  by (subst glm_drain.simps) simp

text \<open>A round that made progress may as well be made before more text comes.\<close>

lemma plain_round_more:
  assumes m: "gp_mode p \<noteq> GTool" and r: "glm_round E p = (True, es, q)"
  shows "explode (fst (glm_drain E (more_text c p))) = explode es @ explode (fst (glm_drain E (more_text c q)))
    \<and> snd (glm_drain E (more_text c p)) = snd (glm_drain E (more_text c q))"
proof -
  obtain a b where ab: "plain_split (glm_markers p) (gp_buffer p) = (a, b)" by fastforce
  obtain a' b' where ab': "plain_split (glm_markers p) (b @ c) = (a', b')" by fastforce
  have whole: "plain_split (glm_markers (more_text c p)) (gp_buffer (more_text c p)) = (a @ a', b')"
    using plain_split_more [OF ab] ab' by simp
  have m': "gp_mode (more_text c p) \<noteq> GTool" using m by simp
  note round = plain_round [OF m ab, of E] and round' = plain_round [OF m' whole, of E]
  show ?thesis
  proof (cases "a = []")
    case False
    then have q: "es = fst (emit_to a b p)" "q = snd (emit_to a b p)" using round r by (simp_all add: prod_eq_iff)
    have first: "glm_round E (more_text c p) = (True, emit_to (a @ a') b' p)"
      using round' False by (simp add: emit_buffer)
    show ?thesis
    proof (cases "a' = []")
      case True
      then have "b' = b @ c" using plain_split_append [OF ab'] by simp
      then have "emit_to (a @ a') b' p = (es, more_text c q)"
        using emit_more [of a b c p] q True by (simp add: emit_buffer)
      then show ?thesis using drain_step [of E "more_text c p" es "more_text c q"] first by simp
    next
      case a': False
      have "gp_mode (more_text c q) \<noteq> GTool" "plain_split (glm_markers (more_text c q)) (gp_buffer (more_text c q)) = (a', b')"
        using m ab' q by simp_all
      then have "glm_round E (more_text c q) = (True, emit_to a' b' q)"
        using plain_round [of "more_text c q" a' b' E] a' by (simp add: emit_buffer)
      then have "glm_drain E (more_text c q) = (fst (emit_to a' b' q) @ fst (glm_drain E (snd (emit_to a' b' q))), snd (glm_drain E (snd (emit_to a' b' q))))"
        by (intro drain_step) simp
      moreover have "glm_drain E (more_text c p) = (fst (emit_to (a @ a') b' p) @ fst (glm_drain E (snd (emit_to (a @ a') b' p))),
          snd (glm_drain E (snd (emit_to (a @ a') b' p))))"
        using first by (intro drain_step) simp
      ultimately show ?thesis using emit_twice [OF False a' m, of b' b] q by simp
    qed
  next
    case True
    then obtain k where k: "begins (glm_markers p) b = Some k" "(es, q) = apply_marker k (drop (length k) b) p"
      using round r by (cases "begins (glm_markers p) b") auto
    have "begins (glm_markers p) (b @ c) = Some k" using begins_append [OF good_glm_markers k(1)] .
    moreover have "b = gp_buffer p" using plain_split_append [OF ab] True by simp
    moreover have "a' = []" "b' = b @ c"
    proof -
      have "k \<in> set (glm_markers p)" "prefix k b" using begins_Some [OF k(1)] by auto
      moreover from this have "b \<noteq> []" using marker_in_glm [of k p] by (auto simp: prefix_def)
      ultimately have "\<exists>m\<in>set (glm_markers p). prefix m (b @ c)" "b @ c \<noteq> []"
        using prefix_prefix [of k b c] by blast+
      then have "candidate (glm_markers p) (b @ c)" by (auto simp: candidate_def list_ex_iff)
      then have "plain_split (glm_markers p) (b @ c) = ([], b @ c)" using \<open>b \<noteq> []\<close> by (cases b) auto
      then show "a' = []" "b' = b @ c" using ab' by auto
    qed
    moreover have "drop (length k) (b @ c) = drop (length k) b @ c"
      using begins_Some [OF k(1)] prefix_length_le [of k b] by simp
    ultimately have "glm_round E (more_text c p) = (True, apply_marker k (drop (length k) b @ c) (more_text c p))"
      using round' True by simp
    then have "glm_round E (more_text c p) = (True, es, more_text c q)"
      using marker_more [of k "drop (length k) b" c p] k(2) by (metis fst_conv snd_conv)
    then show ?thesis using drain_step [of E "more_text c p" es "more_text c q"] by simp
  qed
qed

lemma tool_round_more:
  assumes m: "gp_mode p = GTool" and r: "glm_round E p = (True, es, q)"
  shows "glm_drain E (more_text c p) = (es @ fst (glm_drain E (more_text c q)), snd (glm_drain E (more_text c q)))"
proof -
  obtain a b where ab: "plain_split [tool_close] (gp_buffer p) = (a, b)" by fastforce
  obtain a' b' where ab': "plain_split [tool_close] (b @ c) = (a', b')" by fastforce
  have whole: "plain_split [tool_close] (gp_buffer (more_text c p)) = (a @ a', b')"
    using plain_split_more [OF ab] ab' by simp
  have m': "gp_mode (more_text c p) = GTool" using m by simp
  note round = tool_round [OF m ab, of E] and round' = tool_round [OF m' whole, of E]
  show ?thesis
  proof (cases "prefix tool_close b")
    case True
    have "b \<noteq> []" using True by (auto simp: prefix_def)
    then have "plain_split [tool_close] (b @ c) = ([], b @ c)"
      using True prefix_prefix [of tool_close b c] by (cases b) (auto simp: candidate_def)
    then have e: "a' = []" "b' = b @ c" using ab' by auto
    have d: "drop (length tool_close) (b @ c) = drop (length tool_close) b @ c" using True prefix_length_le [of tool_close b] by simp
    let ?t = "p\<lparr>gp_tool_body := gp_tool_body p @ a, gp_buffer := drop (length tool_close) b\<rparr>"
    have "(es, q) = finish_tool E ?t" using round r True by simp
    moreover have "glm_round E (more_text c p) = (True, finish_tool E (more_text c ?t))"
      using round' True e d by (simp add: more_text_def)
    ultimately have "glm_round E (more_text c p) = (True, es, more_text c q)"
      by (metis finish_tool_more fst_conv snd_conv)
    then show ?thesis by (rule drain_step)
  next
    case False
    then have q: "a \<noteq> []" "es = []" "q = p\<lparr>gp_tool_body := gp_tool_body p @ a, gp_buffer := b\<rparr>"
      using round r by (auto split: if_splits)
    have mq: "gp_mode (more_text c q) = GTool" "plain_split [tool_close] (gp_buffer (more_text c q)) = (a', b')"
      using m q ab' by simp_all
    note round_q = tool_round [OF mq, of E]
    have close: "(more_text c p)\<lparr>gp_tool_body := gp_tool_body p @ a @ a', gp_buffer := x\<rparr>
        = (more_text c q)\<lparr>gp_tool_body := gp_tool_body q @ a', gp_buffer := x\<rparr>" for x
      using q by (simp add: more_text_def)
    show ?thesis
    proof (cases "prefix tool_close b' \<or> a' \<noteq> []")
      case True
      then have same: "glm_round E (more_text c p) = glm_round E (more_text c q)"
        using round' round_q q(1) close by auto
      have "fst (glm_round E (more_text c q))" using round_q True by auto
      then show ?thesis using same q(2) drain_step [of E "more_text c p"] drain_step [of E "more_text c q"]
        by (metis append_Nil prod.collapse)
    next
      case False
      then have "b' = b @ c" using plain_split_append [OF ab'] by simp
      then have "glm_round E (more_text c p) = (True, [], more_text c q)"
        using round' False q by (simp add: more_text_def)
      then show ?thesis using q(2) drain_step [of E "more_text c p" "[]" "more_text c q"] by simp
    qed
  qed
qed

lemma drain_more:
  "explode (fst (glm_drain E (more_text c p)))
      = explode (fst (glm_drain E p)) @ explode (fst (glm_drain E (more_text c (snd (glm_drain E p)))))
    \<and> snd (glm_drain E (more_text c p)) = snd (glm_drain E (more_text c (snd (glm_drain E p))))"
proof (induction E p rule: glm_drain.induct)
  case (1 E p)
  obtain progressed es q where r: "glm_round E p = (progressed, es, q)" by (metis prod_cases3)
  show ?case
  proof (cases progressed)
    case False
    then have "es = []" "q = p"
    proof -
      obtain a b where ab: "plain_split (glm_markers p) (gp_buffer p) = (a, b)" by fastforce
      obtain a' b' where ab': "plain_split [tool_close] (gp_buffer p) = (a', b')" by fastforce
      have "es = [] \<and> q = p" using r False plain_round [OF _ ab, of E] tool_round [OF _ ab', of E]
        by (cases "gp_mode p = GTool") (auto split: if_splits option.splits)
      then show "es = []" "q = p" by auto
    qed
    then show ?thesis using drain_stop [of E p es q] r False by simp
  next
    case True
    then have r': "glm_round E p = (True, es, q)" using r by simp
    have "explode (fst (glm_drain E (more_text c p))) = explode es @ explode (fst (glm_drain E (more_text c q)))
        \<and> snd (glm_drain E (more_text c p)) = snd (glm_drain E (more_text c q))"
    proof (cases "gp_mode p = GTool")
      case True
      then show ?thesis using tool_round_more [OF True r', of c] by simp
    qed (use plain_round_more [OF _ r'] in simp)
    moreover have "explode (fst (glm_drain E (more_text c q)))
        = explode (fst (glm_drain E q)) @ explode (fst (glm_drain E (more_text c (snd (glm_drain E q)))))
      \<and> snd (glm_drain E (more_text c q)) = snd (glm_drain E (more_text c (snd (glm_drain E q))))"
      using "1.IH" [OF r [symmetric] refl True] by blast
    ultimately show ?thesis using drain_step [OF r'] by simp
  qed
qed

section \<open>A whole session\<close>

lemma more_text_Nil [simp]: "more_text [] p = p"
  by (simp add: more_text_def)

lemma more_text_twice: "more_text c (more_text b p) = more_text (b @ c) p"
  by (simp add: more_text_def)

lemma finish_tool_finished: "finish_tool E p = (es, q) \<Longrightarrow> gp_finished q = gp_finished p"
  using finish_tool_fields(4) [of E p] by simp

lemma enter_finished: "enter_tool p = (es, q) \<Longrightarrow> gp_finished q = gp_finished p"
  using enter_fields(4) [of p] by simp

lemma round_cases:
  assumes "glm_round E p = (progressed, es, q)"
  obtains (stop) "\<not> progressed" "es = []" "q = p"
  | (emit) a b where progressed "gp_mode p \<noteq> GTool" "emit_to a b p = (es, q)"
  | (mark) m rest where progressed "gp_mode p \<noteq> GTool" "apply_marker m rest p = (es, q)"
  | (tool_end) x y where progressed "gp_mode p = GTool" "finish_tool E (p\<lparr>gp_tool_body := x, gp_buffer := y\<rparr>) = (es, q)"
  | (tool) x y where progressed "gp_mode p = GTool" "es = []" "q = p\<lparr>gp_tool_body := x, gp_buffer := y\<rparr>"
proof (cases "gp_mode p = GTool")
  case True
  obtain a b where ab: "plain_split [tool_close] (gp_buffer p) = (a, b)" by fastforce
  show thesis using assms tool_round [OF True ab, of E] True stop tool_end tool by (auto split: if_splits)
next
  case False
  obtain a b where ab: "plain_split (glm_markers p) (gp_buffer p) = (a, b)" by fastforce
  show thesis using assms plain_round [OF False ab, of E] False stop emit mark
    by (auto split: if_splits option.splits)
qed

lemma round_stops: "glm_round E p = (False, es, q) \<Longrightarrow> es = [] \<and> q = p"
  by (erule round_cases) simp_all

lemma round_keeps_finished: "glm_round E p = (b, es, q) \<Longrightarrow> gp_finished q = gp_finished p"
  by (erule round_cases) (auto simp: emit_to_def apply_marker_def Let_def split: if_splits dest: finish_tool_finished enter_finished)

lemma drain_result:
  "gp_finished (snd (glm_drain E p)) = gp_finished p
    \<and> glm_round E (snd (glm_drain E p)) = (False, [], snd (glm_drain E p))"
proof (induction E p rule: glm_drain.induct)
  case (1 E p)
  obtain progressed es q where r: "glm_round E p = (progressed, es, q)" by (metis prod_cases3)
  show ?case
  proof (cases progressed)
    case False
    then show ?thesis using r round_stops [of E p es q] drain_stop [of E p es q] by simp
  next
    case True
    then show ?thesis
      using "1.IH" [OF r [symmetric] refl True] drain_step [of E p es q] r round_keeps_finished [OF r] by simp
  qed
qed

lemma drain_again: "glm_drain E (snd (glm_drain E p)) = ([], snd (glm_drain E p))"
  using drain_result [of E p] by (intro drain_stop) blast

lemma feed_all_drain:
  assumes "\<not> gp_finished p" and "glm_drain E p = ([], p)"
  shows "\<exists>es. glm_feed_all E chunks p = (Inr es, snd (glm_drain E (more_text (concat chunks) p)))
    \<and> explode es = explode (fst (glm_drain E (more_text (concat chunks) p)))"
  using assms
proof (induction chunks arbitrary: p)
  case (Cons chunk chunks)
  obtain e1 p1 where d: "glm_drain E (more_text chunk p) = (e1, p1)" by fastforce
  then have feed: "glm_feed E chunk p = (Inr e1, p1)" using Cons.prems(1) by (simp add: glm_feed_def more_text_def)
  have "\<not> gp_finished p1" "glm_drain E p1 = ([], p1)"
    using drain_result [of E "more_text chunk p"] drain_again [of E "more_text chunk p"] d Cons.prems(1) by simp_all
  from Cons.IH [OF this] obtain es where
    es: "glm_feed_all E chunks p1 = (Inr es, snd (glm_drain E (more_text (concat chunks) p1)))"
    "explode es = explode (fst (glm_drain E (more_text (concat chunks) p1)))" by blast
  have "explode (fst (glm_drain E (more_text (concat (chunk # chunks)) p))) = explode e1 @ explode es
      \<and> snd (glm_drain E (more_text (concat (chunk # chunks)) p)) = snd (glm_drain E (more_text (concat chunks) p1))"
    using drain_more [of E "concat chunks" "more_text chunk p"] d es(2) by (simp add: more_text_twice)
  then show ?case using feed es(1) by simp
qed simp

lemma new_parser_drained:
  assumes "new_glm_parser E rid start tools context = Inr p"
  shows "\<not> gp_finished p \<and> glm_drain E p = ([], p)"
proof -
  have f: "\<not> gp_finished p" "gp_buffer p = []" "gp_mode p \<noteq> GTool"
    using assms by (auto simp: new_glm_parser_def Let_def split: if_splits)
  then have "glm_round E p = (False, [], p)"
    using plain_round [of p "[]" "[]" E] marker_in_glm [of _ p]
    by (cases "begins (glm_markers p) []") (auto dest: begins_Some)
  then show ?thesis using f drain_stop by blast
qed

text \<open>C29. Chunking is irrelevant: however the model's text is cut into chunks, the parser accepts it, reports the same
  incompleteness, and says the same as for the text in one piece; only the places where deltas are cut may differ.\<close>

theorem glm_chunking_irrelevant:
  assumes "new_glm_parser E rid start tools context = Inr p"
  shows "\<exists>es fs incomplete. glm_session E chunks p = Inr (es, incomplete)
    \<and> glm_session E [concat chunks] p = Inr (fs, incomplete) \<and> explode es = explode fs"
proof -
  note p = new_parser_drained [OF assms]
  obtain es where es: "glm_feed_all E chunks p = (Inr es, snd (glm_drain E (more_text (concat chunks) p)))"
    "explode es = explode (fst (glm_drain E (more_text (concat chunks) p)))" using feed_all_drain p by blast
  obtain fs where fs: "glm_feed_all E [concat chunks] p = (Inr fs, snd (glm_drain E (more_text (concat chunks) p)))"
    "explode fs = explode (fst (glm_drain E (more_text (concat chunks) p)))"
    using feed_all_drain [of p E "[concat chunks]"] p by auto
  show ?thesis using es fs by (auto simp: glm_session_def simp del: glm_feed_all.simps split: prod.split)
qed

section \<open>The stream of a session\<close>

text \<open>What the parser has open, as the check of a stream sees it.\<close>

definition glm_open :: "glm_parser \<Rightarrow> open_item" where
  "glm_open p = (if gp_text_open p then InText (gp_text_value p)
     else if gp_reasoning_open p then InReasoning (gp_reasoning_value p) else Idle)"

definition glm_ok :: "glm_parser \<Rightarrow> bool" where
  "glm_ok p \<longleftrightarrow> (gp_text_open p \<longrightarrow> gp_mode p = GText) \<and> (gp_reasoning_open p \<longrightarrow> gp_mode p = GReasoning)
     \<and> (\<not> gp_text_open p \<longrightarrow> gp_text_value p = []) \<and> (\<not> gp_reasoning_open p \<longrightarrow> gp_reasoning_value p = [])
     \<and> gp_tool_return_mode p = GText \<and> \<not> blank (gp_request_id p) \<and> 0 \<le> gp_call_index p"

text \<open>\<open>es\<close> leads from the parser state \<open>p\<close> to \<open>q\<close>: a stretch of a well-formed stream, of valid events.\<close>

definition leads :: "glm_parser \<Rightarrow> generation_event list \<Rightarrow> glm_parser \<Rightarrow> bool" where
  "leads p es q \<longleftrightarrow> glm_ok q \<and> gp_request_id q = gp_request_id p
     \<and> content_run (gp_request_id p) (glm_open p, gp_call_index p) es = Some (glm_open q, gp_call_index q)
     \<and> (\<forall>e\<in>set es. mk_event e = Inr e)"

lemma leads_trans: "leads p es q \<Longrightarrow> leads q fs r \<Longrightarrow> leads p (es @ fs) r"
  by (auto simp: leads_def content_run_append)

lemma leads_refl: "glm_ok p \<Longrightarrow> leads p [] p"
  by (simp add: leads_def)

lemma leads_ok: "leads p es q \<Longrightarrow> glm_ok q"
  by (simp add: leads_def)

lemma emit_leads: "glm_ok p \<Longrightarrow> gp_mode p \<noteq> GTool \<Longrightarrow> leads p (fst (emit_content t p)) (snd (emit_content t p))"
  by (cases "gp_mode p")
     (auto simp: leads_def glm_ok_def glm_open_def emit_content_def mk_event_def validate_request_id_def)

lemma close_leads: "glm_ok p \<Longrightarrow> leads p (fst (close_channel p)) (snd (close_channel p))"
  by (cases "gp_mode p"; cases "gp_text_open p"; cases "gp_reasoning_open p";
      simp add: leads_def glm_ok_def glm_open_def close_channel_def mk_event_def validate_request_id_def)

lemma close_closes: "glm_ok p \<Longrightarrow> \<not> gp_text_open (snd (close_channel p)) \<and> \<not> gp_reasoning_open (snd (close_channel p))"
  by (cases "gp_mode p"; cases "gp_text_open p"; cases "gp_reasoning_open p"; simp add: glm_ok_def close_channel_def)

lemma glm_other_fields [simp]:
  "glm_ok (q\<lparr>gp_buffer := x\<rparr>) = glm_ok q" "glm_open (q\<lparr>gp_buffer := x\<rparr>) = glm_open q"
  "glm_ok (q\<lparr>gp_tool_body := x\<rparr>) = glm_ok q" "glm_open (q\<lparr>gp_tool_body := x\<rparr>) = glm_open q"
  "glm_ok (q\<lparr>gp_finished := f\<rparr>) = glm_ok q" "glm_open (q\<lparr>gp_finished := f\<rparr>) = glm_open q"
  "glm_ok (q\<lparr>gp_had_incomplete_tool := f\<rparr>) = glm_ok q" "glm_open (q\<lparr>gp_had_incomplete_tool := f\<rparr>) = glm_open q"
  "glm_open (q\<lparr>gp_tool_return_mode := m\<rparr>) = glm_open q" "glm_open (q\<lparr>gp_mode := m\<rparr>) = glm_open q"
  "glm_ok q \<Longrightarrow> glm_ok (q\<lparr>gp_tool_return_mode := GText\<rparr>)"
  by (simp_all add: glm_ok_def glm_open_def)

lemma glm_ok_mode: "glm_ok q \<Longrightarrow> \<not> gp_text_open q \<and> \<not> gp_reasoning_open q \<Longrightarrow> glm_ok (q\<lparr>gp_mode := m\<rparr>)"
  by (simp add: glm_ok_def)

lemma leads_buffer: "leads p es q \<Longrightarrow> leads p es (q\<lparr>gp_buffer := x\<rparr>)" "leads (p\<lparr>gp_buffer := x\<rparr>) es q \<longleftrightarrow> leads p es q"
  by (simp_all add: leads_def)

lemma leads_mode:
  "leads p es q \<Longrightarrow> \<not> gp_text_open q \<and> \<not> gp_reasoning_open q \<Longrightarrow> leads p es (q\<lparr>gp_mode := m\<rparr>)"
  by (simp add: leads_def glm_ok_mode)

lemma leads_enter:
  assumes "leads p es q" and "\<not> gp_text_open q \<and> \<not> gp_reasoning_open q"
  shows "leads p es (q\<lparr>gp_tool_return_mode := GText, gp_mode := GTool, gp_tool_body := []\<rparr>)"
  using assms glm_ok_mode [of "q\<lparr>gp_tool_return_mode := GText\<rparr>" GTool] by (simp add: leads_def)

lemma apply_marker_leads:
  assumes "glm_ok p" shows "leads p (fst (apply_marker m rest p)) (snd (apply_marker m rest p))"
proof -
  let ?q = "p\<lparr>gp_buffer := rest\<rparr>"
  have ok: "glm_ok ?q" using assms by (simp add: glm_ok_def)
  have c: "leads p (fst (close_channel ?q)) (snd (close_channel ?q))"
    using close_leads [OF ok] by (simp add: leads_buffer)
  show ?thesis using leads_mode [OF c close_closes [OF ok]] leads_enter [OF c close_closes [OF ok]]
    by (simp add: apply_marker_def enter_tool_def Let_def split_beta)
qed

lemma canonical_object_text: "canonical_json_dumps (JObj kvs) \<noteq> []"
  by (simp add: canonical_json_dumps_def)

lemma parsed_body:
  assumes "parse_tool_body E types body = Inr (name, arguments)" shows "\<not> blank name \<and> arguments \<noteq> []"
proof -
  have "\<not> blank n" if "\<not> bad_name n" for n
    using that by (cases n) (auto simp: bad_name_def blank_def list_ex_iff list_all_iff)
  then show ?thesis using assms canonical_object_text
    by (auto simp: parse_tool_body_def Let_def split: option.splits if_splits sum.splits)
qed

lemma finish_tool_leads:
  assumes ok: "glm_ok p" and "gp_mode p = GTool"
  shows "leads p (fst (finish_tool E p)) (snd (finish_tool E p))"
proof -
  have closed: "\<not> gp_text_open p" "\<not> gp_reasoning_open p" using assms by (auto simp: glm_ok_def)
  have rid: "\<not> blank (gp_request_id p)" "0 \<le> gp_call_index p" using ok by (auto simp: glm_ok_def)
  show ?thesis
  proof (cases "parse_tool_body E (gp_parameter_types p) (gp_tool_body p)")
    case (Inl e)
    then show ?thesis using ok closed by (simp add: finish_tool_def leads_def glm_ok_def glm_open_def)
  next
    case (Inr na)
    obtain name arguments where na: "na = (name, arguments)" by fastforce
    have n: "\<not> blank name" "arguments \<noteq> []" using parsed_body [of E _ _ name arguments] Inr na by blast+
    have c: "\<not> blank (glm5_call_id E (gp_request_id p) i)" for i
      by (simp add: glm5_call_id_def blank_def py_space_def)
    show ?thesis using Inr na ok closed n c rid
      by (simp add: finish_tool_def leads_def glm_ok_def glm_open_def Let_def mk_event_def validate_request_id_def
          validate_tool_identity_def validate_index_def)
  qed
qed

lemma round_leads:
  assumes ok: "glm_ok p" and r: "glm_round E p = (b, es, q)" shows "leads p es q"
  using r
proof (cases rule: round_cases)
  case stop
  then show ?thesis using leads_refl [OF ok] by simp
next
  case (emit a b)
  then show ?thesis using emit_leads [OF ok, of a] leads_buffer by (auto simp: emit_to_def)
next
  case (mark m rest)
  then show ?thesis using apply_marker_leads [OF ok, of m rest] by simp
next
  case (tool_end x y)
  let ?t = "p\<lparr>gp_tool_body := x, gp_buffer := y\<rparr>"
  have "glm_ok ?t" using ok by simp
  then show ?thesis using finish_tool_leads [of ?t E] tool_end by (simp add: leads_def)
next
  case (tool x y)
  then show ?thesis using ok by (simp add: leads_def)
qed

lemma drain_leads: "glm_ok p \<Longrightarrow> leads p (fst (glm_drain E p)) (snd (glm_drain E p))"
proof (induction E p rule: glm_drain.induct)
  case (1 E p)
  obtain progressed es q where r: "glm_round E p = (progressed, es, q)" by (metis prod_cases3)
  note l = round_leads [OF "1.prems" r]
  then have "glm_ok q" by (simp add: leads_def)
  show ?case
  proof (cases progressed)
    case False
    then show ?thesis using l r drain_stop [of E p es q] by simp
  next
    case True
    then show ?thesis using leads_trans [OF l "1.IH" [OF r [symmetric] refl True \<open>glm_ok q\<close>]] r drain_step [of E p es q] by simp
  qed
qed

lemma feed_all_leads:
  "glm_ok p \<Longrightarrow> glm_feed_all E chunks p = (Inr es, q) \<Longrightarrow> leads p es q"
proof (induction chunks arbitrary: p es)
  case (Cons chunk chunks)
  obtain e1 p1 es' where f: "glm_feed E chunk p = (Inr e1, p1)" "glm_feed_all E chunks p1 = (Inr es', q)" "es = e1 @ es'"
    using Cons.prems(2) by (auto split: prod.splits sum.splits)
  have "glm_ok (p\<lparr>gp_buffer := gp_buffer p @ chunk\<rparr>)" using Cons.prems(1) by (simp add: glm_ok_def)
  from drain_leads [OF this, of E] have "leads p e1 p1"
    using f(1) by (auto simp: glm_feed_def leads_buffer split: if_splits prod.splits)
  note l = this
  have "leads p1 es' q" using Cons.IH [OF leads_ok [OF l] f(2)] .
  then show ?case using leads_trans [OF l] f(3) by simp
qed (simp add: leads_refl)

lemma finish_leads:
  assumes ok: "glm_ok p" and f: "\<not> gp_finished p" "glm_finish p = ((es, incomplete), q)"
  shows "leads p es q \<and> glm_open q = Idle"
proof (cases "gp_mode p = GTool")
  case True
  then show ?thesis using ok f glm_ok_mode [of p GText] by (auto simp: glm_finish_def leads_def glm_ok_def glm_open_def)
next
  case False
  define sq where "sq = (if gp_buffer p = [] then ([], p)
      else if list_ex (prefix (gp_buffer p)) [think_open, think_close] then ([], p)
      else if gp_tools_enabled p \<and> prefix (gp_buffer p) tool_open then ([], p\<lparr>gp_had_incomplete_tool := True\<rparr>)
      else emit_content (gp_buffer p) p)"
  let ?q = "(snd sq)\<lparr>gp_buffer := []\<rparr>"
  have "leads p [] (p\<lparr>gp_had_incomplete_tool := True\<rparr>)" using ok by (simp add: leads_def)
  then have l: "leads p (fst sq) ?q"
    using leads_refl [OF ok] emit_leads [OF ok False] by (auto simp: sq_def leads_buffer)
  then have okq: "glm_ok ?q" by (simp add: leads_def)
  have es: "es = fst sq @ fst (close_channel ?q)" "q = (snd (close_channel ?q))\<lparr>gp_finished := True\<rparr>"
    using f False by (simp_all add: glm_finish_def Let_def split_beta flip: sq_def)
  have "leads p (fst sq @ fst (close_channel ?q)) (snd (close_channel ?q))"
    using leads_trans [OF l close_leads [OF okq]] .
  then show ?thesis using es close_closes [OF okq] by (simp add: leads_def) (simp add: glm_open_def)
qed

text \<open>C30. Whatever text the model produces and however it is chunked, the parser's events are a well-formed stream:
  segments and tool calls one after the other, every one of them closed, completions carrying exactly the text
  of their deltas, tool calls numbered from zero; and every event passes the checks of its class.\<close>

theorem glm_stream_well_formed:
  assumes "new_glm_parser E rid start tools context = Inr p" and "glm_session E chunks p = Inr (es, incomplete)"
  shows "well_formed_content rid es \<and> (\<forall>e\<in>set es. mk_event e = Inr e)"
proof -
  have p: "glm_ok p" "glm_open p = Idle" "gp_call_index p = 0" "gp_request_id p = rid"
    using assms(1) by (auto simp: new_glm_parser_def glm_ok_def glm_open_def Let_def)
  obtain fs q last r where s: "glm_feed_all E chunks p = (Inr fs, q)" "glm_finish q = ((last, incomplete), r)" "es = fs @ last"
    using assms(2) by (auto simp: glm_session_def split: prod.splits sum.splits)
  have "\<not> gp_finished q"
    using feed_all_drain [of p E chunks] new_parser_drained [OF assms(1)] drain_result [of E "more_text (concat chunks) p"] s(1) by auto
  have l: "leads p fs q" by (rule feed_all_leads [OF p(1) s(1)])
  then have "glm_ok q" by (simp add: leads_def)
  from finish_leads [OF this \<open>\<not> gp_finished q\<close> s(2)] have "leads q last r" "glm_open r = Idle" by auto
  from leads_trans [OF l this(1)] show ?thesis
    using p s(3) \<open>glm_open r = Idle\<close> by (auto simp: leads_def well_formed_content_iff)
qed

section \<open>Witnesses\<close>

definition ex_env :: parser_env where
  "ex_env = \<lparr>pe_float_repr = (\<lambda>_. None), pe_sha256 = (\<lambda>s. replicate 64 (CHR ''0''))\<rparr>"

definition ex_context :: glm_context where
  "ex_context = \<lparr>gc_tools_enabled = True, gc_parameter_types = []\<rparr>"

definition ex_parser :: glm_parser where
  "ex_parser = \<lparr>gp_request_id = ''r'', gp_buffer = [], gp_mode = GReasoning,
       gp_text_open = False, gp_text_value = [], gp_reasoning_open = False, gp_reasoning_value = [],
       gp_tool_body = [], gp_tool_return_mode = GText, gp_call_index = 0, gp_had_incomplete_tool = False,
       gp_finished = False, gp_parameter_types = [], gp_tools_enabled = True\<rparr>"

lemma ex_parser_new: "new_glm_parser ex_env ''r'' True [] (Some ex_context) = Inr ex_parser"
  by (simp add: new_glm_parser_def ex_context_def ex_parser_def blank_def py_space_def)

definition ex_chunks :: "string list" where
  "ex_chunks = [''x</thi'', ''nk>ok<tool_call>f</tool'', ''_call>'']"

definition ex_events :: "generation_event list" where
  "ex_events = (let c = glm5_call_id ex_env ''r'' 0 in
     [ReasoningStarted ''r'', ReasoningDelta ''r'' ''x'', ReasoningCompleted ''r'' ''x'',
      TextStarted ''r'', TextDelta ''r'' ''ok'', TextCompleted ''r'' ''ok'', ToolCallStarted ''r'' c ''f'' 0,
      ToolCallArgumentsDelta ''r'' c ''{}'' 0,
      ToolCallCompleted ''r'' \<lparr>call_id = c, tool_name = ''f'', arguments_json = ''{}'', call_index = 0\<rparr>])"

lemma ex_glm_session: "glm_session ex_env ex_chunks ex_parser = Inr (ex_events, False)"
  by code_simp

lemma glm_chunking_irrelevant_witness:
  "\<exists>fs. glm_session ex_env [''x</think>ok<tool_call>f</tool_call>''] ex_parser = Inr (fs, False) \<and> explode fs = explode ex_events"
  using glm_chunking_irrelevant [OF ex_parser_new, of ex_chunks] ex_glm_session by (auto simp: ex_chunks_def)

lemma glm_stream_well_formed_witness: "well_formed_content ''r'' ex_events"
  using glm_stream_well_formed [OF ex_parser_new ex_glm_session] by blast

text \<open>The end of a text that is the beginning of a marker is dropped by \<open>finish\<close>: the answer "1 <" arrives as "1 ".\<close>

lemma trailing_marker_prefix_is_lost:
  "glm_session ex_env [''</think>1 <''] ex_parser
     = Inr ([TextStarted ''r'', TextDelta ''r'' ''1 '', TextCompleted ''r'' ''1 ''], False)"
  by code_simp

end
