(* ===== verification/Anthropic.thy ===== *)
theory Anthropic
  imports Event_Stream Json
begin

text \<open>
  The Anthropic Messages protocol, \<open>src/exqserve/protocol/anthropic/common.py\<close> and \<open>serialization.py\<close>: error
  mapping, usage, the accumulator behind the non-streaming answer and the serializer behind the event stream.
  A random identifier (\<open>uuid4\<close>) is an argument, and so is \<open>loads\<close>, what \<open>json.loads\<close> makes of a text. An
  emitted pair of an event name and a payload is an \<open>sse\<close>, and \<open>sse_payload\<close> is the pair the code builds.
\<close>

section \<open>Errors and usage\<close>

record anthropic_error =
  ae_status_code :: int
  ae_type :: string
  ae_message :: string
  ae_exqserve_code :: "string option"

definition mk_anthropic_error :: "int \<Rightarrow> string \<Rightarrow> string \<Rightarrow> string option \<Rightarrow> anthropic_error res" where
  "mk_anthropic_error status ty msg code =
     raise_if (\<not> (400 \<le> status \<and> status \<le> 599)) (ValueError ''status_code must be an HTTP error status'')
    (raise_if (blank ty) (ValueError ''type must be a non-empty string'')
    (raise_if (blank msg) (ValueError ''message must be a non-empty string'')
    (raise_if (case code of None \<Rightarrow> False | Some c \<Rightarrow> blank c) (ValueError ''exqserve_code must be a non-empty string or None'')
    (Inr \<lparr>ae_status_code = status, ae_type = ty, ae_message = msg, ae_exqserve_code = code\<rparr>))))"

definition error_to_body :: "anthropic_error \<Rightarrow> string \<Rightarrow> json" where
  "error_to_body e rid = JObj
     [(''type'', JStr ''error''),
      (''error'', JObj ([(''type'', JStr (ae_type e)), (''message'', JStr (ae_message e))]
         @ (case ae_exqserve_code e of None \<Rightarrow> [] | Some c \<Rightarrow> [(''exqserve_code'', JStr c)]))),
      (''request_id'', JStr rid)]"

definition map_canonical_error :: "canonical_error \<Rightarrow> anthropic_error res" where
  "map_canonical_error e =
     (let diagnostic = (case public_error_code e of
            Some c \<Rightarrow> Some c | None \<Rightarrow> if err_cause e \<noteq> None then Some (err_code e) else None) in
      case err_category e of
        OVERLOADED \<Rightarrow> mk_anthropic_error 529 ''overloaded_error'' (err_message e) diagnostic
      | INVALID_REQUEST \<Rightarrow> mk_anthropic_error 400 ''invalid_request_error'' (err_message e) diagnostic
      | UNSUPPORTED_CAPABILITY \<Rightarrow> mk_anthropic_error 400 ''invalid_request_error'' (err_message e) diagnostic
      | CONTEXT_LENGTH \<Rightarrow> mk_anthropic_error 400 ''invalid_request_error'' (err_message e) diagnostic
      | _ \<Rightarrow> mk_anthropic_error 500 ''api_error'' (err_message e) diagnostic)"

definition cancel_error :: anthropic_error where
  "cancel_error = \<lparr>ae_status_code = 500, ae_type = ''api_error'', ae_message = ''Generation was cancelled.'', ae_exqserve_code = None\<rparr>"

text \<open>\<open>usage.input_tokens or 0\<close>\<close>

definition or_zero :: "int option \<Rightarrow> int" where
  "or_zero v = (case v of None \<Rightarrow> 0 | Some n \<Rightarrow> n)"

definition anthropic_usage :: "token_usage option \<Rightarrow> (string \<times> int) list" where
  "anthropic_usage u = (case u of
       None \<Rightarrow> [(''input_tokens'', 0), (''output_tokens'', 0)]
     | Some u \<Rightarrow>
         (let cached = or_zero (cached_input_tokens u) in
          [(''input_tokens'', max 0 (or_zero (input_tokens u) - cached)), (''output_tokens'', or_zero (output_tokens u))]
            @ (case cached_input_tokens u of None \<Rightarrow> []
               | Some _ \<Rightarrow> [(''cache_read_input_tokens'', cached), (''cache_creation_input_tokens'', 0)])))"

definition stop_reason :: "completion_reason \<Rightarrow> string option \<Rightarrow> string" where
  "stop_reason reason stop_sequence = (if stop_sequence \<noteq> None then ''stop_sequence''
     else (case reason of STOP \<Rightarrow> ''end_turn'' | LENGTH_LIMIT \<Rightarrow> ''max_tokens''
       | TOOL_CALLS \<Rightarrow> ''tool_use'' | FILTERED \<Rightarrow> ''end_turn''))"

definition message_id_of :: "string \<Rightarrow> string option \<Rightarrow> string res" where
  "message_id_of uuid v = (case v of
       None \<Rightarrow> Inr (''msg_'' @ uuid)
     | Some s \<Rightarrow> raise_if (blank s) (ValueError ''message_id must be a non-empty string or None'') (Inr s))"

definition local_signature :: "string \<Rightarrow> string \<Rightarrow> string" where
  "local_signature uuid mid = ''exqserve_'' @ mid @ ''_'' @ uuid"

section \<open>Content blocks and stream events\<close>

datatype block =
    ThinkingBlock string string
  | TextBlock string
  | ToolUseBlock string string json

datatype block_delta =
    ThinkingPart string
  | SignaturePart string
  | TextPart string
  | InputJsonPart string

datatype sse =
    MessageStart string string "(string \<times> int) list"
  | BlockStart int block
  | BlockDelta int block_delta
  | BlockStop int
  | MessageDelta string "string option" "(string \<times> int) list"
  | MessageStop
  | ErrorEvent anthropic_error string

fun block_json :: "block \<Rightarrow> json" where
  "block_json (ThinkingBlock t s) = JObj [(''type'', JStr ''thinking''), (''thinking'', JStr t), (''signature'', JStr s)]"
| "block_json (TextBlock t) = JObj [(''type'', JStr ''text''), (''text'', JStr t)]"
| "block_json (ToolUseBlock c n v) = JObj [(''type'', JStr ''tool_use''), (''id'', JStr c), (''name'', JStr n), (''input'', v)]"

fun delta_json :: "block_delta \<Rightarrow> json" where
  "delta_json (ThinkingPart t) = JObj [(''type'', JStr ''thinking_delta''), (''thinking'', JStr t)]"
| "delta_json (SignaturePart t) = JObj [(''type'', JStr ''signature_delta''), (''signature'', JStr t)]"
| "delta_json (TextPart t) = JObj [(''type'', JStr ''text_delta''), (''text'', JStr t)]"
| "delta_json (InputJsonPart t) = JObj [(''type'', JStr ''input_json_delta''), (''partial_json'', JStr t)]"

definition usage_json :: "(string \<times> int) list \<Rightarrow> json" where
  "usage_json u = JObj (map (\<lambda>(k, n). (k, JInt n)) u)"

definition opt_json :: "string option \<Rightarrow> json" where
  "opt_json v = (case v of None \<Rightarrow> JNull | Some s \<Rightarrow> JStr s)"

fun sse_payload :: "sse \<Rightarrow> string \<times> json" where
  "sse_payload (MessageStart mid model usage) = (''message_start'', JObj [(''type'', JStr ''message_start''),
     (''message'', JObj [(''id'', JStr mid), (''type'', JStr ''message''), (''role'', JStr ''assistant''), (''content'', JArr []),
        (''model'', JStr model), (''stop_reason'', JNull), (''stop_sequence'', JNull), (''usage'', usage_json usage)])])"
| "sse_payload (BlockStart i b) = (''content_block_start'',
     JObj [(''type'', JStr ''content_block_start''), (''index'', JInt i), (''content_block'', block_json b)])"
| "sse_payload (BlockDelta i d) = (''content_block_delta'',
     JObj [(''type'', JStr ''content_block_delta''), (''index'', JInt i), (''delta'', delta_json d)])"
| "sse_payload (BlockStop i) = (''content_block_stop'', JObj [(''type'', JStr ''content_block_stop''), (''index'', JInt i)])"
| "sse_payload (MessageDelta reason stop usage) = (''message_delta'', JObj [(''type'', JStr ''message_delta''),
     (''delta'', JObj [(''stop_reason'', JStr reason), (''stop_sequence'', opt_json stop)]), (''usage'', usage_json usage)])"
| "sse_payload MessageStop = (''message_stop'', JObj [(''type'', JStr ''message_stop'')])"
| "sse_payload (ErrorEvent e rid) = (''error'', error_to_body e rid)"

definition anthropic_sse :: "string \<Rightarrow> json \<Rightarrow> string res" where
  "anthropic_sse event payload = raise_if (blank event) (ValueError ''event must be a non-empty string'')
     (Inr (''event: '' @ event @ [CHR 0x0A] @ ''data: '' @ dumps False payload @ [CHR 0x0A, CHR 0x0A]))"

section \<open>The accumulator\<close>

record accumulator =
  aa_model :: string
  aa_id :: string
  aa_signature :: string
  aa_omit_thinking :: bool
  aa_content :: "block list"
  aa_reasoning_index :: "nat option"
  aa_text_index :: "nat option"
  aa_tool_blocks :: "(int \<times> nat) list"
  aa_usage :: "token_usage option"
  aa_reason :: "completion_reason option"
  aa_stop_sequence :: "string option"
  aa_error :: "anthropic_error option"

definition new_accumulator :: "string \<Rightarrow> string \<Rightarrow> string \<Rightarrow> string option \<Rightarrow> bool \<Rightarrow> accumulator res" where
  "new_accumulator uuid uuid' model mid omit =
     raise_if (blank model) (ValueError ''model must be a non-empty string'')
     (case message_id_of uuid mid of Inl e \<Rightarrow> Inl e | Inr i \<Rightarrow>
        Inr \<lparr>aa_model = model, aa_id = i, aa_signature = local_signature uuid' i, aa_omit_thinking = omit, aa_content = [],
          aa_reasoning_index = None, aa_text_index = None, aa_tool_blocks = [], aa_usage = None, aa_reason = None,
          aa_stop_sequence = None, aa_error = None\<rparr>)"

definition ensure_reasoning :: "accumulator \<Rightarrow> nat \<times> accumulator" where
  "ensure_reasoning a = (case aa_reasoning_index a of
       Some i \<Rightarrow> (i, a)
     | None \<Rightarrow> (length (aa_content a), a\<lparr>aa_reasoning_index := Some (length (aa_content a)),
          aa_content := aa_content a @ [ThinkingBlock [] (aa_signature a)]\<rparr>))"

definition ensure_text :: "accumulator \<Rightarrow> nat \<times> accumulator" where
  "ensure_text a = (case aa_text_index a of
       Some i \<Rightarrow> (i, a)
     | None \<Rightarrow> (length (aa_content a), a\<lparr>aa_text_index := Some (length (aa_content a)),
          aa_content := aa_content a @ [TextBlock []]\<rparr>))"

text \<open>Assigning to the \<open>thinking\<close>, \<open>text\<close> or \<open>input\<close> member of a block.\<close>

fun set_thinking :: "(string \<Rightarrow> string) \<Rightarrow> block \<Rightarrow> block" where
  "set_thinking f (ThinkingBlock t s) = ThinkingBlock (f t) s"
| "set_thinking f b = b"

fun set_text :: "(string \<Rightarrow> string) \<Rightarrow> block \<Rightarrow> block" where
  "set_text f (TextBlock t) = TextBlock (f t)"
| "set_text f b = b"

fun set_input :: "json \<Rightarrow> block \<Rightarrow> block" where
  "set_input v (ToolUseBlock c n w) = ToolUseBlock c n v"
| "set_input v b = b"

definition update_block :: "nat \<Rightarrow> (block \<Rightarrow> block) \<Rightarrow> accumulator \<Rightarrow> accumulator" where
  "update_block i f a = a\<lparr>aa_content := (aa_content a)[i := f (aa_content a ! i)]\<rparr>"

definition consume_completed_call :: "(string \<Rightarrow> json option) \<Rightarrow> tool_call_item \<Rightarrow> accumulator \<Rightarrow> unit res \<times> accumulator" where
  "consume_completed_call loads call a = (case loads (arguments_json call) of
       None \<Rightarrow> (Inl (RuntimeError ''canonical tool call arguments are not valid JSON''), a)
     | Some (JObj arguments) \<Rightarrow> (case map_of (aa_tool_blocks a) (call_index call) of
         None \<Rightarrow> (Inr (), a\<lparr>aa_tool_blocks := AList.update (call_index call) (length (aa_content a)) (aa_tool_blocks a),
            aa_content := aa_content a @ [ToolUseBlock (call_id call) (tool_name call) (JObj arguments)]\<rparr>)
       | Some i \<Rightarrow> (Inr (), update_block i (set_input (JObj arguments)) a))
     | Some _ \<Rightarrow> (Inl (TypeError ''canonical tool call arguments must be an object''), a))"

definition consume_body :: "(string \<Rightarrow> json option) \<Rightarrow> generation_event \<Rightarrow> accumulator \<Rightarrow> unit res \<times> accumulator" where
  "consume_body loads event a = (case event of
       ReasoningStarted r \<Rightarrow> (Inr (), snd (ensure_reasoning a))
     | ReasoningDelta r t \<Rightarrow> (case ensure_reasoning a of (i, b) \<Rightarrow>
         (Inr (), if aa_omit_thinking b then b else update_block i (set_thinking (\<lambda>s. s @ t)) b))
     | ReasoningCompleted r t \<Rightarrow> (case ensure_reasoning a of (i, b) \<Rightarrow>
         (Inr (), (if aa_omit_thinking b then b else update_block i (set_thinking (\<lambda>s. t)) b)\<lparr>aa_reasoning_index := None\<rparr>))
     | TextStarted r \<Rightarrow> (Inr (), snd (ensure_text a))
     | TextDelta r t \<Rightarrow> (case ensure_text a of (i, b) \<Rightarrow> (Inr (), update_block i (set_text (\<lambda>s. s @ t)) b))
     | TextCompleted r t \<Rightarrow> (case ensure_text a of (i, b) \<Rightarrow>
         (Inr (), (update_block i (set_text (\<lambda>s. t)) b)\<lparr>aa_text_index := None\<rparr>))
     | ToolCallStarted r c n i \<Rightarrow>
         (Inr (), a\<lparr>aa_tool_blocks := AList.update i (length (aa_content a)) (aa_tool_blocks a),
            aa_content := aa_content a @ [ToolUseBlock c n (JObj [])]\<rparr>)
     | ToolCallCompleted r call \<Rightarrow> consume_completed_call loads call a
     | UsageUpdated r u \<Rightarrow> (Inr (), a\<lparr>aa_usage := Some u\<rparr>)
     | GenerationCompleted r reason u stop \<Rightarrow>
         (Inr (), a\<lparr>aa_usage := (case u of None \<Rightarrow> aa_usage a | Some v \<Rightarrow> Some v), aa_reason := Some reason,
            aa_stop_sequence := stop\<rparr>)
     | GenerationFailed r e \<Rightarrow> (case map_canonical_error e of
           Inl x \<Rightarrow> (Inl x, a) | Inr x \<Rightarrow> (Inr (), a\<lparr>aa_error := Some x\<rparr>))
     | GenerationCancelled r \<Rightarrow> (Inr (), a\<lparr>aa_error := Some cancel_error\<rparr>)
     | _ \<Rightarrow> (Inr (), a))"

record anthropic_message =
  am_id :: string
  am_model :: string
  am_content :: "block list"
  am_stop_reason :: string
  am_stop_sequence :: "string option"
  am_usage :: "(string \<times> int) list"

text \<open>\<open>result\<close>: the error of the generation, the exception of a stream without an end, or the message.\<close>

datatype accumulated = ProtocolError anthropic_error | NotTerminal | Message anthropic_message

definition accumulator_result :: "accumulator \<Rightarrow> accumulated" where
  "accumulator_result a = (case aa_error a of
       Some e \<Rightarrow> ProtocolError e
     | None \<Rightarrow> (case aa_reason a of
         None \<Rightarrow> NotTerminal
       | Some reason \<Rightarrow> Message \<lparr>am_id = aa_id a, am_model = aa_model a, am_content = aa_content a,
           am_stop_reason = stop_reason reason (aa_stop_sequence a), am_stop_sequence = aa_stop_sequence a,
           am_usage = anthropic_usage (aa_usage a)\<rparr>))"

definition message_json :: "anthropic_message \<Rightarrow> json" where
  "message_json m = JObj [(''id'', JStr (am_id m)), (''type'', JStr ''message''), (''role'', JStr ''assistant''),
     (''model'', JStr (am_model m)), (''content'', JArr (map block_json (am_content m))),
     (''stop_reason'', JStr (am_stop_reason m)), (''stop_sequence'', opt_json (am_stop_sequence m)),
     (''usage'', usage_json (am_usage m))]"

section \<open>The stream serializer\<close>

record serializer =
  as_model :: string
  as_id :: string
  as_signature :: string
  as_omit_thinking :: bool
  as_input_token_count :: int
  as_next_block :: int
  as_reasoning_block :: "int option"
  as_text_block :: "int option"
  as_tool_blocks :: "(int \<times> int) list"
  as_pending_tool :: "int option"
  as_deferred :: "generation_event list"
  as_usage :: "token_usage option"
  as_terminal :: bool

definition new_serializer :: "string \<Rightarrow> string \<Rightarrow> string \<Rightarrow> string option \<Rightarrow> bool \<Rightarrow> int \<Rightarrow> serializer res" where
  "new_serializer uuid uuid' model mid omit count =
     raise_if (blank model) (ValueError ''model must be a non-empty string'')
    (raise_if (count < 0) (ValueError ''input_token_count must be non-negative'')
     (case message_id_of uuid mid of Inl e \<Rightarrow> Inl e | Inr i \<Rightarrow>
        Inr \<lparr>as_model = model, as_id = i, as_signature = local_signature uuid' i, as_omit_thinking = omit,
          as_input_token_count = count, as_next_block = 0, as_reasoning_block = None, as_text_block = None,
          as_tool_blocks = [], as_pending_tool = None, as_deferred = [], as_usage = None, as_terminal = False\<rparr>))"

definition start_block :: "block \<Rightarrow> serializer \<Rightarrow> sse \<times> serializer" where
  "start_block b s = (BlockStart (as_next_block s) b, s\<lparr>as_next_block := as_next_block s + 1\<rparr>)"

definition can_project_while_tool_pending :: "serializer \<Rightarrow> generation_event \<Rightarrow> bool" where
  "can_project_while_tool_pending s event = (case as_pending_tool s of
       None \<Rightarrow> True
     | Some pending \<Rightarrow> (case event of
         ToolCallArgumentsDelta r c t i \<Rightarrow> i = pending
       | ToolCallCompleted r call \<Rightarrow> call_index call = pending
       | _ \<Rightarrow> False))"

fun is_content_or_success_terminal :: "generation_event \<Rightarrow> bool" where
  "is_content_or_success_terminal (GenerationStarted r) = False"
| "is_content_or_success_terminal (GenerationCancelled r) = False"
| "is_content_or_success_terminal (GenerationFailed r e) = False"
| "is_content_or_success_terminal (TimingUpdated r t) = False"
| "is_content_or_success_terminal (UsageUpdated r u) = False"
| "is_content_or_success_terminal event = True"

text \<open>The blocks a delta or a completion without a start opens first: \<open>_reasoning_block\<close> and \<open>_text_block\<close> are
  set, and the start event is emitted.\<close>

definition open_reasoning :: "serializer \<Rightarrow> sse list \<times> serializer" where
  "open_reasoning s = (case start_block (ThinkingBlock [] []) (s\<lparr>as_reasoning_block := Some (as_next_block s)\<rparr>) of
     (out, t) \<Rightarrow> ([out], t))"

definition open_text :: "serializer \<Rightarrow> sse list \<times> serializer" where
  "open_text s = (case start_block (TextBlock []) (s\<lparr>as_text_block := Some (as_next_block s)\<rparr>) of
     (out, t) \<Rightarrow> ([out], t))"

definition in_reasoning :: "serializer \<Rightarrow> sse list \<times> serializer" where
  "in_reasoning s = (if as_reasoning_block s = None then open_reasoning s else ([], s))"

definition in_text :: "serializer \<Rightarrow> sse list \<times> serializer" where
  "in_text s = (if as_text_block s = None then open_text s else ([], s))"

definition project :: "generation_event \<Rightarrow> serializer \<Rightarrow> sse list res \<times> serializer" where
  "project event s =
     (if as_terminal s then (Inr [], s)
      else case event of
        GenerationStarted r \<Rightarrow>
          (Inr [MessageStart (as_id s) (as_model s)
             (anthropic_usage (Some \<lparr>input_tokens = Some (as_input_token_count s), cached_input_tokens = None,
                output_tokens = None, reasoning_tokens = None\<rparr>))], s)
      | ReasoningStarted r \<Rightarrow> (case open_reasoning s of (out, t) \<Rightarrow> (Inr out, t))
      | ReasoningDelta r text \<Rightarrow> (case in_reasoning s of (out, t) \<Rightarrow>
          (Inr (out @ (if as_omit_thinking t then [] else [BlockDelta (the (as_reasoning_block t)) (ThinkingPart text)])), t))
      | ReasoningCompleted r text \<Rightarrow> (case in_reasoning s of (out, t) \<Rightarrow>
          (Inr (out @ [BlockDelta (the (as_reasoning_block t)) (SignaturePart (as_signature t)),
             BlockStop (the (as_reasoning_block t))]), t))
      | TextStarted r \<Rightarrow> (case open_text s of (out, t) \<Rightarrow> (Inr out, t))
      | TextDelta r text \<Rightarrow> (case in_text s of (out, t) \<Rightarrow>
          (Inr (out @ [BlockDelta (the (as_text_block t)) (TextPart text)]), t))
      | TextCompleted r text \<Rightarrow> (case in_text s of (out, t) \<Rightarrow> (Inr (out @ [BlockStop (the (as_text_block t))]), t))
      | ToolCallStarted r c n i \<Rightarrow>
          (case start_block (ToolUseBlock c n (JObj []))
              (s\<lparr>as_tool_blocks := AList.update i (as_next_block s) (as_tool_blocks s), as_pending_tool := Some i\<rparr>) of
             (out, t) \<Rightarrow> (Inr [out], t))
      | ToolCallArgumentsDelta r c text i \<Rightarrow> (case map_of (as_tool_blocks s) i of
          None \<Rightarrow> (Inr [], s)
        | Some k \<Rightarrow> (Inr [BlockDelta k (InputJsonPart text)], s))
      | ToolCallCompleted r call \<Rightarrow> (case map_of (as_tool_blocks s) (call_index call) of
          None \<Rightarrow> (Inr [], s)
        | Some k \<Rightarrow> (Inr [BlockStop k], s\<lparr>as_tool_blocks := AList.delete (call_index call) (as_tool_blocks s),
             as_pending_tool := (if as_pending_tool s = Some (call_index call) then None else as_pending_tool s)\<rparr>))
      | GenerationCompleted r reason u stop \<Rightarrow>
          (Inr [MessageDelta (stop_reason reason stop) stop
             (anthropic_usage (case u of None \<Rightarrow> as_usage s | Some v \<Rightarrow> Some v)), MessageStop], s\<lparr>as_terminal := True\<rparr>)
      | GenerationFailed r e \<Rightarrow> (case map_canonical_error e of
          Inl x \<Rightarrow> (Inl x, s\<lparr>as_terminal := True\<rparr>)
        | Inr x \<Rightarrow> (Inr [ErrorEvent x r], s\<lparr>as_terminal := True\<rparr>))
      | GenerationCancelled r \<Rightarrow> (Inr [ErrorEvent cancel_error r], s\<lparr>as_terminal := True\<rparr>)
      | TimingUpdated r t \<Rightarrow> (Inr [], s)
      | UsageUpdated r u \<Rightarrow> (Inr [], s))"

text \<open>\<open>_drain_deferred_content\<close>; the first argument is the queue.\<close>

fun drain_deferred_content :: "generation_event list \<Rightarrow> serializer \<Rightarrow> sse list res \<times> serializer" where
  "drain_deferred_content [] s = (Inr [], s\<lparr>as_deferred := []\<rparr>)"
| "drain_deferred_content (e # es) s =
     (if as_terminal s \<or> \<not> can_project_while_tool_pending s e then (Inr [], s\<lparr>as_deferred := e # es\<rparr>)
      else (case project e (s\<lparr>as_deferred := es\<rparr>) of
          (Inl x, t) \<Rightarrow> (Inl x, t)
        | (Inr out, t) \<Rightarrow> (case drain_deferred_content es t of
            (Inl x, u) \<Rightarrow> (Inl x, u) | (Inr later, u) \<Rightarrow> (Inr (out @ later), u))))"

definition serializer_feed :: "generation_event \<Rightarrow> serializer \<Rightarrow> sse list res \<times> serializer" where
  "serializer_feed event s =
     (if as_terminal s then (Inr [], s)
      else case event of
        UsageUpdated r u \<Rightarrow> (Inr [], s\<lparr>as_usage := Some u\<rparr>)
      | GenerationFailed r e \<Rightarrow> project event (s\<lparr>as_deferred := []\<rparr>)
      | GenerationCancelled r \<Rightarrow> project event (s\<lparr>as_deferred := []\<rparr>)
      | _ \<Rightarrow>
          (if as_pending_tool s \<noteq> None \<and> is_content_or_success_terminal event \<and> \<not> can_project_while_tool_pending s event
           then (Inr [], s\<lparr>as_deferred := as_deferred s @ [event]\<rparr>)
           else (case project event s of
               (Inl x, t) \<Rightarrow> (Inl x, t)
             | (Inr out, t) \<Rightarrow> (case drain_deferred_content (as_deferred t) t of
                 (Inl x, u) \<Rightarrow> (Inl x, u) | (Inr later, u) \<Rightarrow> (Inr (out @ later), u)))))"

section \<open>What a client makes of the stream\<close>

text \<open>A client that accepts only the documented order: the message starts, blocks with consecutive indices are opened,
  filled and closed one at a time, then the message delta and the stop. Anything else is None. The input of a tool
  call is parsed from the text of its parts when the block closes.\<close>

record client =
  cl_head :: "(string \<times> string) option"
  cl_blocks :: "block list"
  cl_open :: "(block \<times> string) option"
  cl_final :: "(string \<times> string option \<times> (string \<times> int) list) option"
  cl_stopped :: bool

definition new_client :: client where
  "new_client = \<lparr>cl_head = None, cl_blocks = [], cl_open = None, cl_final = None, cl_stopped = False\<rparr>"

fun fill_block :: "block_delta \<Rightarrow> block \<times> string \<Rightarrow> (block \<times> string) option" where
  "fill_block (ThinkingPart t) (ThinkingBlock u s, j) = Some (ThinkingBlock (u @ t) s, j)"
| "fill_block (SignaturePart t) (ThinkingBlock u s, j) = Some (ThinkingBlock u t, j)"
| "fill_block (TextPart t) (TextBlock u, j) = Some (TextBlock (u @ t), j)"
| "fill_block (InputJsonPart t) (ToolUseBlock c n v, j) = Some (ToolUseBlock c n v, j @ t)"
| "fill_block d b = None"

fun close_block :: "(string \<Rightarrow> json option) \<Rightarrow> block \<times> string \<Rightarrow> block option" where
  "close_block loads (ToolUseBlock c n v, j) = map_option (ToolUseBlock c n) (loads j)"
| "close_block loads (b, j) = Some b"

fun client_step :: "(string \<Rightarrow> json option) \<Rightarrow> sse \<Rightarrow> client \<Rightarrow> client option" where
  "client_step loads (MessageStart mid model u) c =
     (if cl_head c = None then Some (c\<lparr>cl_head := Some (mid, model)\<rparr>) else None)"
| "client_step loads (BlockStart i b) c =
     (if cl_head c \<noteq> None \<and> cl_open c = None \<and> cl_final c = None \<and> i = int (length (cl_blocks c))
      then Some (c\<lparr>cl_open := Some (b, [])\<rparr>) else None)"
| "client_step loads (BlockDelta i d) c = (case cl_open c of None \<Rightarrow> None | Some b \<Rightarrow>
     (if i = int (length (cl_blocks c))
      then (case fill_block d b of None \<Rightarrow> None | Some b' \<Rightarrow> Some (c\<lparr>cl_open := Some b'\<rparr>)) else None))"
| "client_step loads (BlockStop i) c = (case cl_open c of None \<Rightarrow> None | Some b \<Rightarrow>
     (if i = int (length (cl_blocks c))
      then (case close_block loads b of None \<Rightarrow> None | Some b' \<Rightarrow> Some (c\<lparr>cl_open := None, cl_blocks := cl_blocks c @ [b']\<rparr>))
      else None))"
| "client_step loads (MessageDelta reason stop u) c =
     (if cl_head c \<noteq> None \<and> cl_open c = None \<and> cl_final c = None then Some (c\<lparr>cl_final := Some (reason, stop, u)\<rparr>) else None)"
| "client_step loads MessageStop c = (if cl_final c \<noteq> None \<and> \<not> cl_stopped c then Some (c\<lparr>cl_stopped := True\<rparr>) else None)"
| "client_step loads (ErrorEvent e r) c = None"

text \<open>The message a client has after the whole stream.\<close>

definition read_stream :: "(string \<Rightarrow> json option) \<Rightarrow> sse list \<Rightarrow> anthropic_message option" where
  "read_stream loads xs = (case read_items (client_step loads) xs new_client of
       None \<Rightarrow> None
     | Some c \<Rightarrow> (case (cl_head c, cl_final c, cl_stopped c) of
         (Some (mid, model), Some (reason, stop, u), True) \<Rightarrow>
           Some \<lparr>am_id = mid, am_model = model, am_content = cl_blocks c, am_stop_reason = reason,
             am_stop_sequence = stop, am_usage = u\<rparr>
       | _ \<Rightarrow> None))"

end
