(* ===== verification/Anthropic_Properties.thy ===== *)
theory Anthropic_Properties
  imports Anthropic
begin

text \<open>
  The streaming and the non-streaming answer of the Anthropic protocol are the same message, and the stream keeps
  the documented order of blocks.
\<close>

section \<open>Serializer, accumulator and client in step\<close>

definition agree :: "open_item \<Rightarrow> serializer \<Rightarrow> accumulator \<Rightarrow> client \<Rightarrow> bool" where
  "agree x s a c \<longleftrightarrow> \<not> as_terminal s \<and> as_deferred s = [] \<and> cl_head c = Some (as_id s, as_model s) \<and> cl_final c = None
     \<and> \<not> cl_stopped c \<and> as_usage s = aa_usage a \<and> as_omit_thinking s = aa_omit_thinking a \<and> as_signature s = aa_signature a
     \<and> as_id s = aa_id a \<and> as_model s = aa_model a \<and> aa_error a = None \<and> as_next_block s = int (length (aa_content a))
     \<and> (case x of
         Idle \<Rightarrow> as_pending_tool s = None \<and> cl_open c = None \<and> aa_content a = cl_blocks c
           \<and> aa_reasoning_index a = None \<and> aa_text_index a = None
       | InText t \<Rightarrow> as_pending_tool s = None \<and> cl_open c = Some (TextBlock t, []) \<and> aa_content a = cl_blocks c @ [TextBlock t]
           \<and> aa_reasoning_index a = None \<and> aa_text_index a = Some (length (cl_blocks c))
           \<and> as_text_block s = Some (int (length (cl_blocks c)))
       | InReasoning t \<Rightarrow> (let shown = (if aa_omit_thinking a then [] else t) in
           as_pending_tool s = None \<and> cl_open c = Some (ThinkingBlock shown [], [])
           \<and> aa_content a = cl_blocks c @ [ThinkingBlock shown (aa_signature a)]
           \<and> aa_reasoning_index a = Some (length (cl_blocks c)) \<and> aa_text_index a = None
           \<and> as_reasoning_block s = Some (int (length (cl_blocks c))))
       | InCall i name k t \<Rightarrow> as_pending_tool s = Some k \<and> cl_open c = Some (ToolUseBlock i name (JObj []), t)
           \<and> aa_content a = cl_blocks c @ [ToolUseBlock i name (JObj [])]
           \<and> aa_reasoning_index a = None \<and> aa_text_index a = None
           \<and> map_of (as_tool_blocks s) k = Some (int (length (cl_blocks c)))
           \<and> map_of (aa_tool_blocks a) k = Some (length (cl_blocks c)))"

lemmas agree_simps = agree_def serializer_feed_def project_def consume_body_def start_block_def open_text_def open_reasoning_def
  in_text_def in_reasoning_def ensure_text_def ensure_reasoning_def update_block_def Let_def dict_simps
  can_project_while_tool_pending_def consume_completed_call_def

definition in_step ::
  "(string \<Rightarrow> json option) \<Rightarrow> generation_event \<Rightarrow> open_item \<Rightarrow> serializer \<Rightarrow> accumulator \<Rightarrow> client \<Rightarrow> bool" where
  "in_step loads e y s a c \<longleftrightarrow> (\<exists>out s' a' c'. serializer_feed e s = (Inr out, s') \<and> consume_body loads e a = (Inr (), a')
     \<and> read_items (client_step loads) out c = Some c' \<and> agree y s' a' c')"

lemma text_in_step:
  "agree Idle s a c \<Longrightarrow> in_step loads (TextStarted r) (InText []) s a c"
  "agree (InText t) s a c \<Longrightarrow> in_step loads (TextDelta r u) (InText (t @ u)) s a c"
  "agree (InText t) s a c \<Longrightarrow> in_step loads (TextCompleted r t) Idle s a c"
  by (simp_all add: in_step_def agree_simps)

lemma reasoning_in_step:
  "agree Idle s a c \<Longrightarrow> in_step loads (ReasoningStarted r) (InReasoning []) s a c"
  "agree (InReasoning t) s a c \<Longrightarrow> in_step loads (ReasoningDelta r u) (InReasoning (t @ u)) s a c"
  "agree (InReasoning t) s a c \<Longrightarrow> in_step loads (ReasoningCompleted r t) Idle s a c"
  by (simp_all add: in_step_def agree_simps)

lemma call_in_step:
  "agree Idle s a c \<Longrightarrow> in_step loads (ToolCallStarted r i name k) (InCall i name k []) s a c"
  "agree (InCall i name k t) s a c \<Longrightarrow> in_step loads (ToolCallArgumentsDelta r i u k) (InCall i name k (t @ u)) s a c"
  "agree (InCall i name k t) s a c \<Longrightarrow> loads t = Some (JObj kvs)
     \<Longrightarrow> in_step loads (ToolCallCompleted r \<lparr>call_id = i, tool_name = name, arguments_json = t, call_index = k\<rparr>) Idle s a c"
  by (simp_all add: in_step_def agree_simps)

lemma other_in_step:
  "agree x s a c \<Longrightarrow> in_step loads (TimingUpdated r t) x s a c"
  "agree x s a c \<Longrightarrow> in_step loads (UsageUpdated r u) x s a c"
  by (cases x; simp add: in_step_def agree_simps)+

text \<open>The arguments of a completed call are the text of a JSON object, as the tool batch gate has checked.\<close>

fun object_arguments :: "(string \<Rightarrow> json option) \<Rightarrow> generation_event \<Rightarrow> bool" where
  "object_arguments loads (ToolCallCompleted r call) = (case loads (arguments_json call) of Some (JObj kvs) \<Rightarrow> True | _ \<Rightarrow> False)"
| "object_arguments loads e = True"

lemma content_in_step:
  assumes "content_step r (x, n) e = Some (y, m)" and "object_arguments loads e" and "agree x s a c"
  shows "in_step loads e y s a c"
proof (cases e)
  case (ToolCallCompleted q call)
  then obtain i name k t where x: "x = InCall i name k t" "y = Idle"
    "call = \<lparr>call_id = i, tool_name = name, arguments_json = t, call_index = k\<rparr>"
    using assms(1) by (cases x) (auto split: if_splits)
  then obtain kvs where "loads t = Some (JObj kvs)"
    using assms(2) ToolCallCompleted by (auto split: option.splits json.splits)
  then show ?thesis using call_in_step(3) assms(3) x ToolCallCompleted by blast
qed (use assms in \<open>cases x; auto split: if_splits intro: text_in_step reasoning_in_step call_in_step other_in_step\<close>)+

interpretation anthropic: answer_protocol serializer_feed "consume_body loads" "client_step loads" "\<lambda>x. agree (fst x)"
    "\<lambda>es s. list_all (object_arguments loads) es" for loads
proof
  fix r x e y es s a c
  assume "content_step r x e = Some y" "list_all (object_arguments loads) (e # es)" "agree (fst x) s a c"
  then show "\<exists>out s' a' c'. serializer_feed e s = (Inr out, s') \<and> consume_body loads e a = (Inr (), a')
      \<and> read_items (client_step loads) out c = Some c' \<and> agree (fst y) s' a' c' \<and> list_all (object_arguments loads) es"
    using content_in_step [of r "fst x" "snd x" e "fst y" "snd y" loads s a c] by (auto simp: in_step_def)
qed

section \<open>The whole answer\<close>

text \<open>C31. Streaming and not streaming agree: for every well-formed generation that completes, the stream serializer emits a
  stream in the documented order, from which a client reads exactly the message that the accumulator returns.
  Both were created with the same identifiers and the same treatment of thinking.\<close>

theorem anthropic_stream_is_message:
  assumes "well_formed_content r es" and "list_all (object_arguments loads) es"
    and "new_serializer uuid uuid' model mid omit count = Inr s" and "new_accumulator uuid uuid' model mid omit = Inr a"
  shows "\<exists>out s' a' m. let run = [GenerationStarted r] @ es @ [GenerationCompleted r reason u stop] in
    feed_events serializer_feed run s = (Inr out, s') \<and> consume_events (consume_body loads) run a = (Inr (), a')
      \<and> accumulator_result a' = Message m \<and> read_stream loads out = Some m"
proof -
  obtain n where n: "content_run r (Idle, 0) es = Some (Idle, n)" using assms(1) by (auto simp: well_formed_content_iff)
  define c where "c = new_client\<lparr>cl_head := Some (as_id s, as_model s)\<rparr>"
  have s: "serializer_feed (GenerationStarted r) s = (Inr [MessageStart (as_id s) (as_model s) (anthropic_usage (Some
      \<lparr>input_tokens = Some (as_input_token_count s), cached_input_tokens = None, output_tokens = None, reasoning_tokens = None\<rparr>))], s)"
    and a: "consume_body loads (GenerationStarted r) a = (Inr (), a)" and ag: "agree Idle s a c"
    using assms(3,4) by (auto simp: new_serializer_def new_accumulator_def agree_simps c_def new_client_def split: sum.splits)
  obtain out s1 a1 c1 where run: "feed_events serializer_feed es s = (Inr out, s1)" "consume_events (consume_body loads) es a = (Inr (), a1)"
    "read_items (client_step loads) out c = Some c1" and ag1: "agree Idle s1 a1 c1"
    using anthropic.runs [OF n assms(2), of s a c] ag by auto
  let ?v = "case u of None \<Rightarrow> as_usage s1 | Some v \<Rightarrow> Some v"
  have fin: "serializer_feed (GenerationCompleted r reason u stop) s1
      = (Inr [MessageDelta (stop_reason reason stop) stop (anthropic_usage ?v), MessageStop], s1\<lparr>as_terminal := True\<rparr>)"
    using ag1 by (simp add: agree_simps)
  let ?head = "MessageStart (as_id s) (as_model s) (anthropic_usage (Some
      \<lparr>input_tokens = Some (as_input_token_count s), cached_input_tokens = None, output_tokens = None, reasoning_tokens = None\<rparr>))"
  let ?tail = "[MessageDelta (stop_reason reason stop) stop (anthropic_usage ?v), MessageStop]"
  let ?m = "\<lparr>am_id = as_id s1, am_model = as_model s1, am_content = cl_blocks c1, am_stop_reason = stop_reason reason stop,
      am_stop_sequence = stop, am_usage = anthropic_usage ?v\<rparr>"
  let ?a = "a1\<lparr>aa_usage := ?v, aa_reason := Some reason, aa_stop_sequence := stop\<rparr>"
  have "read_items (client_step loads) out (new_client\<lparr>cl_head := Some (as_id s, as_model s)\<rparr>) = Some c1" using run(3) c_def by simp
  moreover have "cl_head new_client = None" by (simp add: new_client_def)
  ultimately have "read_items (client_step loads) (?head # out @ ?tail) new_client
      = Some (c1\<lparr>cl_final := Some (stop_reason reason stop, stop, anthropic_usage ?v), cl_stopped := True\<rparr>)"
    using ag1 by (simp add: read_items_append agree_def)
  then have "read_stream loads (?head # out @ ?tail) = Some ?m" using ag1 by (simp add: read_stream_def agree_def)
  moreover have "feed_events serializer_feed ([GenerationStarted r] @ es @ [GenerationCompleted r reason u stop]) s
      = (Inr (?head # out @ ?tail), s1\<lparr>as_terminal := True\<rparr>)"
    using s run(1) fin by (simp add: feed_events_append)
  moreover have "consume_events (consume_body loads) ([GenerationStarted r] @ es @ [GenerationCompleted r reason u stop]) a = (Inr (), ?a)"
    using a run(2) ag1 by (simp add: consume_events_append) (simp add: consume_body_def agree_def cong del: option.case_cong_weak)
  moreover have "accumulator_result ?a = Message ?m" using ag1 by (simp add: accumulator_result_def agree_def)
  ultimately show ?thesis unfolding Let_def by blast
qed

section \<open>Witness and a limit of the queue\<close>

definition ex_loads :: "string \<Rightarrow> json option" where
  "ex_loads t = (if t = ''{}'' then Some (JObj []) else None)"

definition ex_content :: "generation_event list" where
  "ex_content = [ReasoningStarted ''r'', ReasoningDelta ''r'' ''x'', ReasoningCompleted ''r'' ''x'',
      TextStarted ''r'', TextDelta ''r'' ''ok'', UsageUpdated ''r'' \<lparr>input_tokens = Some 4, cached_input_tokens = Some 1,
        output_tokens = Some 2, reasoning_tokens = None\<rparr>, TextCompleted ''r'' ''ok'', ToolCallStarted ''r'' ''c'' ''f'' 0,
      ToolCallArgumentsDelta ''r'' ''c'' ''{'' 0, ToolCallArgumentsDelta ''r'' ''c'' ''}'' 0,
      ToolCallCompleted ''r'' \<lparr>call_id = ''c'', tool_name = ''f'', arguments_json = ''{}'', call_index = 0\<rparr>]"

definition ex_serializer :: serializer where
  "ex_serializer = \<lparr>as_model = ''m'', as_id = ''msg_1'', as_signature = ''exqserve_msg_1_2'', as_omit_thinking = False,
          as_input_token_count = 4, as_next_block = 0, as_reasoning_block = None, as_text_block = None,
          as_tool_blocks = [], as_pending_tool = None, as_deferred = [], as_usage = None, as_terminal = False\<rparr>"

definition ex_accumulator :: accumulator where
  "ex_accumulator = \<lparr>aa_model = ''m'', aa_id = ''msg_1'', aa_signature = ''exqserve_msg_1_2'', aa_omit_thinking = False, aa_content = [],
          aa_reasoning_index = None, aa_text_index = None, aa_tool_blocks = [], aa_usage = None, aa_reason = None,
          aa_stop_sequence = None, aa_error = None\<rparr>"

lemma ex_content_ok: "well_formed_content ''r'' ex_content" "list_all (object_arguments ex_loads) ex_content"
  by code_simp+

lemma ex_ends_new:
  "new_serializer ''1'' ''2'' ''m'' None False 4 = Inr ex_serializer" "new_accumulator ''1'' ''2'' ''m'' None False = Inr ex_accumulator"
  by (simp_all add: new_serializer_def new_accumulator_def ex_serializer_def ex_accumulator_def message_id_of_def local_signature_def
      blank_def py_space_def)

lemma anthropic_stream_is_message_witness:
  "\<exists>out s' m. feed_events serializer_feed ([GenerationStarted ''r''] @ ex_content @ [GenerationCompleted ''r'' TOOL_CALLS None None]) ex_serializer
      = (Inr out, s') \<and> read_stream ex_loads out = Some m"
  using anthropic_stream_is_message [OF ex_content_ok ex_ends_new, where reason = TOOL_CALLS and u = None and stop = None]
  unfolding Let_def by blast

text \<open>The queue is first in, first out, but events of the pending tool call overtake it. Three tool calls whose events
  are interleaved, a stream no parser here produces, lose their arguments: every call is closed without any.\<close>

definition interleaved_calls :: "generation_event list" where
  "interleaved_calls = (let started = (\<lambda>c n. ToolCallStarted ''r'' c ''f'' n); arg = (\<lambda>c n. ToolCallArgumentsDelta ''r'' c ''{}'' n);
       completed = (\<lambda>c n. ToolCallCompleted ''r'' \<lparr>call_id = c, tool_name = ''f'', arguments_json = ''{}'', call_index = n\<rparr>) in
     [started ''a'' 0, started ''b'' 1, started ''c'' 2, arg ''b'' 1, arg ''c'' 2,
      completed ''a'' 0, completed ''b'' 1, completed ''c'' 2])"

lemma interleaved_calls_lose_arguments:
  "fst (feed_events serializer_feed interleaved_calls ex_serializer) = Inr
     [BlockStart 0 (ToolUseBlock ''a'' ''f'' (JObj [])), BlockStop 0, BlockStart 1 (ToolUseBlock ''b'' ''f'' (JObj [])), BlockStop 1,
      BlockStart 2 (ToolUseBlock ''c'' ''f'' (JObj [])), BlockStop 2]"
  by code_simp

end
