(* ===== verification/OpenAI_Answers.thy ===== *)
theory OpenAI_Answers
  imports Event_Stream Json
begin

text \<open>
  The answers of the OpenAI protocols: errors and usage (\<open>src/exqserve/protocol/openai/common.py\<close>), the Chat
  Completions stream and accumulator (\<open>chat_output.py\<close>) and those of Responses (\<open>responses_output.py\<close>). The clock
  and \<open>uuid4\<close> are arguments. A chunk or event is a value of \<open>chat_chunk\<close> or \<open>rsp_event\<close>, rendered by
  \<open>chunk_json\<close> and \<open>rsp_event_json\<close> as the dictionary the code builds. The objects of \<open>_ResponseState\<close>, which
  several references share, are the entries of one list, and a reference is a position in it.
\<close>

section \<open>Errors and usage\<close>

record openai_error =
  oe_status_code :: int
  oe_type :: string
  oe_code :: string
  oe_message :: string
  oe_param :: "string option"
  oe_exqserve_cause :: "string option"

definition mk_openai_error :: "openai_error \<Rightarrow> openai_error res" where
  "mk_openai_error e =
     raise_if (oe_status_code e < 400 \<or> 599 < oe_status_code e) (ValueError ''status_code must be an HTTP error status'')
    (raise_if (blank (oe_type e)) (ValueError ''type must be a non-empty string'')
    (raise_if (blank (oe_code e)) (ValueError ''code must be a non-empty string'')
    (raise_if (blank (oe_message e)) (ValueError ''message must be a non-empty string'')
    (raise_if (case oe_exqserve_cause e of None \<Rightarrow> False | Some c \<Rightarrow> blank c)
       (ValueError ''exqserve_cause must be a non-empty string or None'') (Inr e)))))"

definition opt_text :: "string option \<Rightarrow> json" where
  "opt_text v = (case v of None \<Rightarrow> JNull | Some s \<Rightarrow> JStr s)"

definition to_error_object :: "bool \<Rightarrow> openai_error \<Rightarrow> json" where
  "to_error_object include_param e = JObj
     ([(''message'', JStr (oe_message e)), (''type'', JStr (oe_type e)), (''code'', JStr (oe_code e))]
       @ (if include_param then [(''param'', opt_text (oe_param e))] else [])
       @ (case oe_exqserve_cause e of None \<Rightarrow> [] | Some c \<Rightarrow> [(''exqserve_cause'', JStr c)]))"

definition openai_error_body :: "openai_error \<Rightarrow> json" where
  "openai_error_body e = JObj [(''error'', to_error_object True e)]"

fun cause_value :: "failure_cause \<Rightarrow> string" where
  "cause_value OUTPUT_EOS = ''output_eos''"
| "cause_value OUTPUT_LENGTH = ''output_length''"
| "cause_value PARSER_AMBIGUITY_LIMIT = ''parser_ambiguity_limit''"
| "cause_value RUNTIME_RECOVERING = ''runtime_recovering''"
| "cause_value RESTART_REQUIRED = ''restart_required''"
| "cause_value CONSTRAINT_FAILURE = ''constraint_failure''"
| "cause_value MODEL_TOOL_OUTPUT_INVALID = ''model_tool_output_invalid''"

definition openai_map_error :: "canonical_error \<Rightarrow> openai_error res" where
  "openai_map_error e =
     (let cause = map_option cause_value (err_cause e);
          wire_code = (case public_error_code e of Some c \<Rightarrow> c | None \<Rightarrow> err_code e);
          make = (\<lambda>status ty msg. mk_openai_error \<lparr>oe_status_code = status, oe_type = ty, oe_code = wire_code,
             oe_message = msg, oe_param = None, oe_exqserve_cause = cause\<rparr>) in
      case err_category e of
        OVERLOADED \<Rightarrow> make (if err_code e = ''runtime_recovering'' then 503 else 429) ''rate_limit_error'' (err_message e)
      | CONTEXT_LENGTH \<Rightarrow> make 400 ''invalid_request_error'' ''Request exceeds the model context window.''
      | INVALID_REQUEST \<Rightarrow> make 400 ''invalid_request_error'' (err_message e)
      | UNSUPPORTED_CAPABILITY \<Rightarrow> make 400 ''invalid_request_error'' (err_message e)
      | _ \<Rightarrow> make 500 ''server_error'' (err_message e))"

definition chat_cancel_error :: openai_error where
  "chat_cancel_error = \<lparr>oe_status_code = 500, oe_type = ''server_error'', oe_code = ''generation_cancelled'',
     oe_message = ''Generation was cancelled.'', oe_param = None, oe_exqserve_cause = None\<rparr>"

definition usage_counts :: "token_usage \<Rightarrow> int \<times> int \<times> int" where
  "usage_counts u =
     (let i = (case input_tokens u of None \<Rightarrow> 0 | Some n \<Rightarrow> n); k = (case output_tokens u of None \<Rightarrow> 0 | Some n \<Rightarrow> n) in
      (i, k, i + k))"

definition cached_details :: "string \<Rightarrow> token_usage \<Rightarrow> (string \<times> json) list" where
  "cached_details name u = (case cached_input_tokens u of None \<Rightarrow> []
     | Some n \<Rightarrow> [(name, JObj [(''cached_tokens'', JInt n)])])"

definition chat_usage :: "token_usage \<Rightarrow> json" where
  "chat_usage u = (case usage_counts u of (i, k, t) \<Rightarrow>
     JObj ([(''prompt_tokens'', JInt i), (''completion_tokens'', JInt k), (''total_tokens'', JInt t)]
       @ cached_details ''prompt_tokens_details'' u))"

definition responses_usage :: "token_usage \<Rightarrow> json" where
  "responses_usage u = (case usage_counts u of (i, k, t) \<Rightarrow>
     JObj ([(''input_tokens'', JInt i), (''output_tokens'', JInt k), (''total_tokens'', JInt t)]
       @ cached_details ''input_tokens_details'' u))"

section \<open>Chat Completions\<close>

fun finish_reason :: "completion_reason \<Rightarrow> string" where
  "finish_reason STOP = ''stop''"
| "finish_reason LENGTH_LIMIT = ''length''"
| "finish_reason TOOL_CALLS = ''tool_calls''"
| "finish_reason FILTERED = ''stop''"

definition fresh_id :: "string \<Rightarrow> string \<Rightarrow> string option \<Rightarrow> string res" where
  "fresh_id stem uuid v = (case v of None \<Rightarrow> Inr (stem @ uuid)
     | Some s \<Rightarrow> raise_if (blank s) (ValueError ''response_id must be a non-empty string or None'') (Inr s))"

definition created_time :: "int \<Rightarrow> int option \<Rightarrow> int res" where
  "created_time now v = (case v of None \<Rightarrow> Inr now
     | Some n \<Rightarrow> raise_if (n < 0) (ValueError ''created must be a non-negative integer or None'') (Inr n))"

datatype chat_delta =
    RoleDelta
  | ReasoningContent string
  | Content string
  | ToolStart int string string
  | ToolArguments int string
  | NoDelta

datatype chat_chunk =
    Chunk chat_delta "string option"
  | UsageChunk token_usage
  | ErrorBody openai_error

record chat_serializer =
  ch_model :: string
  ch_id :: string
  ch_created :: int
  ch_include_usage :: bool
  ch_usage :: "token_usage option"
  ch_terminal :: bool

definition new_chat_serializer ::
  "string \<Rightarrow> int \<Rightarrow> string \<Rightarrow> string option \<Rightarrow> int option \<Rightarrow> bool \<Rightarrow> chat_serializer res" where
  "new_chat_serializer uuid now model rid created include =
     raise_if (blank model) (ValueError ''model must be a non-empty string'')
     (case fresh_id ''chatcmpl-'' uuid rid of Inl e \<Rightarrow> Inl e | Inr i \<Rightarrow>
       (case created_time now created of Inl e \<Rightarrow> Inl e | Inr c \<Rightarrow>
          Inr \<lparr>ch_model = model, ch_id = i, ch_created = c, ch_include_usage = include, ch_usage = None, ch_terminal = False\<rparr>))"

fun chat_delta_json :: "chat_delta \<Rightarrow> json" where
  "chat_delta_json RoleDelta = JObj [(''role'', JStr ''assistant''), (''content'', JStr [])]"
| "chat_delta_json (ReasoningContent t) = JObj [(''reasoning_content'', JStr t)]"
| "chat_delta_json (Content t) = JObj [(''content'', JStr t)]"
| "chat_delta_json (ToolStart i c n) = JObj [(''tool_calls'', JArr [JObj [(''index'', JInt i), (''id'', JStr c),
     (''type'', JStr ''function''), (''function'', JObj [(''name'', JStr n), (''arguments'', JStr [])])]])]"
| "chat_delta_json (ToolArguments i t) = JObj [(''tool_calls'', JArr [JObj [(''index'', JInt i),
     (''function'', JObj [(''arguments'', JStr t)])]])]"
| "chat_delta_json NoDelta = JObj []"

definition chunk_envelope :: "chat_serializer \<Rightarrow> json list \<Rightarrow> (string \<times> json) list \<Rightarrow> json" where
  "chunk_envelope s choices usage = JObj ([(''id'', JStr (ch_id s)), (''object'', JStr ''chat.completion.chunk''),
     (''created'', JInt (ch_created s)), (''model'', JStr (ch_model s)), (''choices'', JArr choices)] @ usage)"

fun chunk_json :: "chat_serializer \<Rightarrow> chat_chunk \<Rightarrow> json" where
  "chunk_json s (Chunk d r) = chunk_envelope s
     [JObj [(''index'', JInt 0), (''delta'', chat_delta_json d), (''finish_reason'', opt_text r)]] []"
| "chunk_json s (UsageChunk u) = chunk_envelope s [] [(''usage'', chat_usage u)]"
| "chunk_json s (ErrorBody e) = openai_error_body e"

definition chat_feed :: "generation_event \<Rightarrow> chat_serializer \<Rightarrow> chat_chunk list res \<times> chat_serializer" where
  "chat_feed event s =
     (if ch_terminal s then (Inr [], s)
      else case event of
        GenerationStarted r \<Rightarrow> (Inr [Chunk RoleDelta None], s)
      | ReasoningDelta r t \<Rightarrow> (Inr [Chunk (ReasoningContent t) None], s)
      | TextDelta r t \<Rightarrow> (Inr [Chunk (Content t) None], s)
      | ToolCallStarted r c n i \<Rightarrow> (Inr [Chunk (ToolStart i c n) None], s)
      | ToolCallArgumentsDelta r c t i \<Rightarrow> (Inr [Chunk (ToolArguments i t) None], s)
      | UsageUpdated r u \<Rightarrow> (Inr [], s\<lparr>ch_usage := Some u\<rparr>)
      | GenerationCompleted r reason u stop \<Rightarrow>
          (let usage = (case u of None \<Rightarrow> ch_usage s | Some v \<Rightarrow> Some v) in
           (Inr (Chunk NoDelta (Some (finish_reason reason))
              # (if ch_include_usage s then (case usage of None \<Rightarrow> [] | Some v \<Rightarrow> [UsageChunk v]) else [])),
            s\<lparr>ch_terminal := True\<rparr>))
      | GenerationFailed r e \<Rightarrow> (case openai_map_error e of
          Inl x \<Rightarrow> (Inl x, s\<lparr>ch_terminal := True\<rparr>) | Inr x \<Rightarrow> (Inr [ErrorBody x], s\<lparr>ch_terminal := True\<rparr>))
      | GenerationCancelled r \<Rightarrow> (Inr [ErrorBody chat_cancel_error], s\<lparr>ch_terminal := True\<rparr>)
      | _ \<Rightarrow> (Inr [], s))"

record chat_accumulator =
  ca_model :: string
  ca_id :: string
  ca_created :: int
  ca_text :: "string list"
  ca_reasoning :: "string list"
  ca_calls :: "(int \<times> tool_call_item) list"
  ca_usage :: "token_usage option"
  ca_reason :: "string option"
  ca_error :: "openai_error option"

definition new_chat_accumulator :: "string \<Rightarrow> int \<Rightarrow> string \<Rightarrow> string option \<Rightarrow> int option \<Rightarrow> chat_accumulator res" where
  "new_chat_accumulator uuid now model rid created =
     raise_if (blank model) (ValueError ''model must be a non-empty string'')
     (case fresh_id ''chatcmpl-'' uuid rid of Inl e \<Rightarrow> Inl e | Inr i \<Rightarrow>
       (case created_time now created of Inl e \<Rightarrow> Inl e | Inr c \<Rightarrow>
          Inr \<lparr>ca_model = model, ca_id = i, ca_created = c, ca_text = [], ca_reasoning = [], ca_calls = [], ca_usage = None,
            ca_reason = None, ca_error = None\<rparr>))"

definition chat_consume :: "generation_event \<Rightarrow> chat_accumulator \<Rightarrow> unit res \<times> chat_accumulator" where
  "chat_consume event a = (case event of
       ReasoningDelta r t \<Rightarrow> (Inr (), a\<lparr>ca_reasoning := ca_reasoning a @ [t]\<rparr>)
     | TextDelta r t \<Rightarrow> (Inr (), a\<lparr>ca_text := ca_text a @ [t]\<rparr>)
     | ToolCallCompleted r call \<Rightarrow> (Inr (), a\<lparr>ca_calls := AList.update (call_index call) call (ca_calls a)\<rparr>)
     | UsageUpdated r u \<Rightarrow> (Inr (), a\<lparr>ca_usage := Some u\<rparr>)
     | GenerationCompleted r reason u stop \<Rightarrow>
         (Inr (), a\<lparr>ca_usage := (case u of None \<Rightarrow> ca_usage a | Some v \<Rightarrow> Some v), ca_reason := Some (finish_reason reason)\<rparr>)
     | GenerationFailed r e \<Rightarrow> (case openai_map_error e of Inl x \<Rightarrow> (Inl x, a) | Inr x \<Rightarrow> (Inr (), a\<lparr>ca_error := Some x\<rparr>))
     | GenerationCancelled r \<Rightarrow> (Inr (), a\<lparr>ca_error := Some chat_cancel_error\<rparr>)
     | _ \<Rightarrow> (Inr (), a))"

text \<open>The completion: what its dictionary holds. \<open>cc_content\<close> is none for null.\<close>

record chat_completion =
  cc_id :: string
  cc_created :: int
  cc_model :: string
  cc_content :: "string option"
  cc_reasoning :: string
  cc_calls :: "(string \<times> string \<times> string) list"
  cc_finish_reason :: string
  cc_usage :: "token_usage option"

datatype chat_result = ChatError openai_error | ChatNotTerminal | ChatCompletion chat_completion

definition chat_content :: "string \<Rightarrow> bool \<Rightarrow> string option" where
  "chat_content t any_calls = (if t \<noteq> [] then Some t else if any_calls then None else Some [])"

definition chat_accumulated :: "chat_accumulator \<Rightarrow> chat_result" where
  "chat_accumulated a = (case ca_error a of
       Some e \<Rightarrow> ChatError e
     | None \<Rightarrow> (case ca_reason a of
         None \<Rightarrow> ChatNotTerminal
       | Some reason \<Rightarrow>
           (let calls = map (\<lambda>i. the (map_of (ca_calls a) i)) (sort (map fst (ca_calls a))) in
            ChatCompletion \<lparr>cc_id = ca_id a, cc_created = ca_created a, cc_model = ca_model a,
              cc_content = chat_content (concat (ca_text a)) (calls \<noteq> []), cc_reasoning = concat (ca_reasoning a),
              cc_calls = map (\<lambda>c. (call_id c, tool_name c, arguments_json c)) calls, cc_finish_reason = reason,
              cc_usage = ca_usage a\<rparr>)))"

definition completion_message :: "chat_completion \<Rightarrow> json" where
  "completion_message c = JObj ([(''role'', JStr ''assistant''), (''content'', opt_text (cc_content c))]
     @ (if cc_reasoning c = [] then [] else [(''reasoning_content'', JStr (cc_reasoning c))])
     @ (if cc_calls c = [] then [] else [(''tool_calls'', JArr (map (\<lambda>(i, n, t). JObj [(''id'', JStr i), (''type'', JStr ''function''),
          (''function'', JObj [(''name'', JStr n), (''arguments'', JStr t)])]) (cc_calls c)))]))"

definition completion_json :: "chat_completion \<Rightarrow> json" where
  "completion_json c = JObj
     ([(''id'', JStr (cc_id c)), (''object'', JStr ''chat.completion''), (''created'', JInt (cc_created c)), (''model'', JStr (cc_model c)),
       (''choices'', JArr [JObj [(''index'', JInt 0), (''message'', completion_message c), (''finish_reason'', JStr (cc_finish_reason c))]])]
      @ (case cc_usage c of None \<Rightarrow> [] | Some u \<Rightarrow> [(''usage'', chat_usage u)]))"

text \<open>A client of the stream: it appends the parts of the content, of the reasoning and of the arguments of each call,
  where a call must be announced once and before its arguments.\<close>

record chat_client =
  ck_text :: string
  ck_reasoning :: string
  ck_calls :: "(int \<times> string \<times> string \<times> string) list"
  ck_finish :: "string option"
  ck_usage :: "token_usage option"

fun chat_client_step :: "chat_chunk \<Rightarrow> chat_client \<Rightarrow> chat_client option" where
  "chat_client_step (Chunk d r) c = (if ck_finish c \<noteq> None then None else
     (case d of
        RoleDelta \<Rightarrow> Some c
      | ReasoningContent t \<Rightarrow> Some (c\<lparr>ck_reasoning := ck_reasoning c @ t\<rparr>)
      | Content t \<Rightarrow> Some (c\<lparr>ck_text := ck_text c @ t\<rparr>)
      | ToolStart i k n \<Rightarrow> (if map_of (ck_calls c) i = None then Some (c\<lparr>ck_calls := ck_calls c @ [(i, k, n, [])]\<rparr>) else None)
      | ToolArguments i t \<Rightarrow> (case map_of (ck_calls c) i of None \<Rightarrow> None
          | Some (k, n, s) \<Rightarrow> Some (c\<lparr>ck_calls := AList.update i (k, n, s @ t) (ck_calls c)\<rparr>))
      | NoDelta \<Rightarrow> Some (c\<lparr>ck_finish := r\<rparr>)))"
| "chat_client_step (UsageChunk u) c = (if ck_finish c = None then None else Some (c\<lparr>ck_usage := Some u\<rparr>))"
| "chat_client_step (ErrorBody e) c = None"

definition new_chat_client :: chat_client where
  "new_chat_client = \<lparr>ck_text = [], ck_reasoning = [], ck_calls = [], ck_finish = None, ck_usage = None\<rparr>"

definition client_completion :: "chat_serializer \<Rightarrow> chat_client \<Rightarrow> chat_completion option" where
  "client_completion s c = (case ck_finish c of None \<Rightarrow> None
     | Some reason \<Rightarrow> Some \<lparr>cc_id = ch_id s, cc_created = ch_created s, cc_model = ch_model s,
         cc_content = chat_content (ck_text c) (ck_calls c \<noteq> []), cc_reasoning = ck_reasoning c,
         cc_calls = map (\<lambda>(i, k, n, t). (k, n, t)) (ck_calls c), cc_finish_reason = reason, cc_usage = ck_usage c\<rparr>)"

definition read_chat :: "chat_serializer \<Rightarrow> chat_chunk list \<Rightarrow> chat_completion option" where
  "read_chat s xs = Option.bind (read_items chat_client_step xs new_chat_client) (client_completion s)"

section \<open>Responses: items and events\<close>

text \<open>An output item, with the text or arguments of a completed one; None while it is in progress.\<close>

datatype output_item =
    ReasoningOut string "string option"
  | MessageOut string "string option"
  | CallOut string string string "string option"

fun item_json :: "output_item \<Rightarrow> json" where
  "item_json (ReasoningOut i None) = JObj [(''id'', JStr i), (''type'', JStr ''reasoning''), (''status'', JStr ''in_progress''),
     (''summary'', JArr []), (''content'', JArr [])]"
| "item_json (ReasoningOut i (Some t)) = JObj [(''id'', JStr i), (''type'', JStr ''reasoning''), (''status'', JStr ''completed''),
     (''summary'', JArr []), (''content'', JArr [JObj [(''type'', JStr ''reasoning_text''), (''text'', JStr t)]])]"
| "item_json (MessageOut i None) = JObj [(''id'', JStr i), (''type'', JStr ''message''), (''status'', JStr ''in_progress''),
     (''role'', JStr ''assistant''), (''content'', JArr [])]"
| "item_json (MessageOut i (Some t)) = JObj [(''id'', JStr i), (''type'', JStr ''message''), (''status'', JStr ''completed''),
     (''role'', JStr ''assistant''), (''content'', JArr [JObj [(''type'', JStr ''output_text''), (''text'', JStr t), (''annotations'', JArr [])]])]"
| "item_json (CallOut i c n t) = JObj [(''id'', JStr i), (''type'', JStr ''function_call''),
     (''status'', JStr (case t of None \<Rightarrow> ''in_progress'' | Some _ \<Rightarrow> ''completed'')), (''call_id'', JStr c), (''name'', JStr n),
     (''arguments'', JStr (case t of None \<Rightarrow> [] | Some u \<Rightarrow> u))]"

text \<open>\<open>_OutputState\<close> and \<open>_ResponseState\<close>. \<open>uuid\<close> gives the text of the n-th \<open>uuid4\<close> the state draws.\<close>

record output_state =
  os_output_index :: int
  os_item_id :: string
  os_kind :: string
  os_call_id :: "string option"
  os_name :: "string option"
  os_text_parts :: "string list"
  os_argument_parts :: "string list"
  os_final_item :: "output_item option"

record response_state =
  rp_next_index :: int
  rp_states :: "output_state list"
  rp_reasoning :: "nat option"
  rp_message :: "nat option"
  rp_tools :: "(string \<times> nat) list"

definition new_response_state :: response_state where
  "new_response_state = \<lparr>rp_next_index = 0, rp_states = [], rp_reasoning = None, rp_message = None, rp_tools = []\<rparr>"

definition new_output ::
  "(nat \<Rightarrow> string) \<Rightarrow> string \<Rightarrow> string \<Rightarrow> string option \<Rightarrow> string option \<Rightarrow> response_state \<Rightarrow> nat \<times> response_state" where
  "new_output uuid kind stem cid name s = (length (rp_states s),
     s\<lparr>rp_next_index := rp_next_index s + 1,
       rp_states := rp_states s @ [\<lparr>os_output_index = rp_next_index s, os_item_id = stem @ uuid (length (rp_states s)), os_kind = kind,
         os_call_id = cid, os_name = name, os_text_parts = [], os_argument_parts = [], os_final_item = None\<rparr>]\<rparr>)"

definition start_reasoning :: "(nat \<Rightarrow> string) \<Rightarrow> response_state \<Rightarrow> nat \<times> response_state" where
  "start_reasoning uuid s = (case rp_reasoning s of
       Some k \<Rightarrow> (k, s)
     | None \<Rightarrow> (case new_output uuid ''reasoning'' ''rs_'' None None s of (k, t) \<Rightarrow> (k, t\<lparr>rp_reasoning := Some k\<rparr>)))"

definition start_message :: "(nat \<Rightarrow> string) \<Rightarrow> response_state \<Rightarrow> nat \<times> response_state" where
  "start_message uuid s = (case rp_message s of
       Some k \<Rightarrow> (k, s)
     | None \<Rightarrow> (case new_output uuid ''message'' ''msg_'' None None s of (k, t) \<Rightarrow> (k, t\<lparr>rp_message := Some k\<rparr>)))"

definition start_tool :: "(nat \<Rightarrow> string) \<Rightarrow> string \<Rightarrow> string \<Rightarrow> response_state \<Rightarrow> nat \<times> response_state" where
  "start_tool uuid cid name s = (case map_of (rp_tools s) cid of
       Some k \<Rightarrow> (k, s)
     | None \<Rightarrow> (case new_output uuid ''function_call'' ''fc_'' (Some cid) (Some name) s of (k, t) \<Rightarrow>
         (k, t\<lparr>rp_tools := AList.update cid k (rp_tools t)\<rparr>)))"

definition update_output :: "nat \<Rightarrow> (output_state \<Rightarrow> output_state) \<Rightarrow> response_state \<Rightarrow> response_state" where
  "update_output k f s = s\<lparr>rp_states := (rp_states s)[k := f (rp_states s ! k)]\<rparr>"

definition finish_reasoning :: "(nat \<Rightarrow> string) \<Rightarrow> string \<Rightarrow> response_state \<Rightarrow> nat \<times> response_state" where
  "finish_reasoning uuid text s = (case start_reasoning uuid s of (k, t) \<Rightarrow>
     (k, (update_output k (\<lambda>x. x\<lparr>os_text_parts := [text], os_final_item := Some (ReasoningOut (os_item_id x) (Some text))\<rparr>) t)
           \<lparr>rp_reasoning := None\<rparr>))"

definition finish_message :: "(nat \<Rightarrow> string) \<Rightarrow> string \<Rightarrow> response_state \<Rightarrow> nat \<times> response_state" where
  "finish_message uuid text s = (case start_message uuid s of (k, t) \<Rightarrow>
     (k, (update_output k (\<lambda>x. x\<lparr>os_text_parts := [text], os_final_item := Some (MessageOut (os_item_id x) (Some text))\<rparr>) t)
           \<lparr>rp_message := None\<rparr>))"

definition finish_output_tool :: "(nat \<Rightarrow> string) \<Rightarrow> tool_call_item \<Rightarrow> response_state \<Rightarrow> nat \<times> response_state" where
  "finish_output_tool uuid call s = (case start_tool uuid (call_id call) (tool_name call) s of (k, t) \<Rightarrow>
     (k, update_output k (\<lambda>x. x\<lparr>os_argument_parts := [arguments_json call],
           os_final_item := Some (CallOut (os_item_id x) (call_id call) (tool_name call) (Some (arguments_json call)))\<rparr>) t))"

definition response_output :: "response_state \<Rightarrow> output_item list" where
  "response_output s = List.map_filter os_final_item (rp_states s)"

text \<open>\<open>build_response_object\<close>.\<close>

record response_object =
  ro_id :: string
  ro_created_at :: int
  ro_model :: string
  ro_status :: string
  ro_output :: "output_item list"
  ro_parallel :: bool
  ro_tool_choice :: json
  ro_usage :: "token_usage option"
  ro_previous :: "string option"
  ro_store :: bool
  ro_error :: "json option"
  ro_incomplete :: "string option"

definition response_json :: "response_object \<Rightarrow> json" where
  "response_json r = JObj
     ([(''id'', JStr (ro_id r)), (''object'', JStr ''response''), (''created_at'', JInt (ro_created_at r)), (''status'', JStr (ro_status r)),
       (''model'', JStr (ro_model r)), (''output'', JArr (map item_json (ro_output r))), (''parallel_tool_calls'', JBool (ro_parallel r)),
       (''tool_choice'', ro_tool_choice r), (''previous_response_id'', opt_text (ro_previous r)), (''store'', JBool (ro_store r)),
       (''error'', (case ro_error r of None \<Rightarrow> JNull | Some e \<Rightarrow> e)),
       (''incomplete_details'', (case ro_incomplete r of None \<Rightarrow> JNull | Some t \<Rightarrow> JObj [(''reason'', JStr t)]))]
      @ (case ro_usage r of None \<Rightarrow> [] | Some u \<Rightarrow> [(''usage'', responses_usage u)]))"

text \<open>The events of the stream, without their sequence numbers. The flag of a text event says whether it is reasoning.\<close>

datatype rsp_event =
    RespCreated response_object
  | ItemAdded int output_item
  | PartAdded bool string int
  | PartText bool string int string
  | PartTextDone bool string int string
  | PartDone bool string int string
  | ItemDone int output_item
  | ArgumentsPart string int string
  | ArgumentsDone string int string
  | RespCompleted response_object
  | RespIncomplete response_object
  | RespFailed response_object

definition part_json :: "bool \<Rightarrow> string \<Rightarrow> json" where
  "part_json reasoning t = JObj (if reasoning then [(''type'', JStr ''reasoning_text''), (''text'', JStr t)]
     else [(''type'', JStr ''output_text''), (''text'', JStr t), (''annotations'', JArr [])])"

definition text_event :: "bool \<Rightarrow> string \<Rightarrow> string" where
  "text_event reasoning suffix = (if reasoning then ''response.reasoning_text.'' else ''response.output_text.'') @ suffix"

definition located :: "string \<Rightarrow> int \<Rightarrow> (string \<times> json) list" where
  "located i k = [(''item_id'', JStr i), (''output_index'', JInt k)]"

fun rsp_members :: "rsp_event \<Rightarrow> string \<times> (string \<times> json) list" where
  "rsp_members (RespCreated r) = (''response.created'', [(''response'', response_json r)])"
| "rsp_members (ItemAdded k x) = (''response.output_item.added'', [(''output_index'', JInt k), (''item'', item_json x)])"
| "rsp_members (PartAdded b i k) = (''response.content_part.added'', located i k @ [(''content_index'', JInt 0), (''part'', part_json b [])])"
| "rsp_members (PartText b i k t) = (text_event b ''delta'', located i k @ [(''content_index'', JInt 0), (''delta'', JStr t)])"
| "rsp_members (PartTextDone b i k t) = (text_event b ''done'', located i k @ [(''content_index'', JInt 0), (''text'', JStr t)])"
| "rsp_members (PartDone b i k t) = (''response.content_part.done'', located i k @ [(''content_index'', JInt 0), (''part'', part_json b t)])"
| "rsp_members (ItemDone k x) = (''response.output_item.done'', [(''output_index'', JInt k), (''item'', item_json x)])"
| "rsp_members (ArgumentsPart i k t) = (''response.function_call_arguments.delta'', located i k @ [(''delta'', JStr t)])"
| "rsp_members (ArgumentsDone i k t) = (''response.function_call_arguments.done'', located i k @ [(''arguments'', JStr t)])"
| "rsp_members (RespCompleted r) = (''response.completed'', [(''response'', response_json r)])"
| "rsp_members (RespIncomplete r) = (''response.incomplete'', [(''response'', response_json r)])"
| "rsp_members (RespFailed r) = (''response.failed'', [(''response'', response_json r)])"

text \<open>\<open>_emit\<close> builds the dictionary of a numbered event.\<close>

definition rsp_event_json :: "int \<times> rsp_event \<Rightarrow> json" where
  "rsp_event_json ne = (case rsp_members (snd ne) of (ty, members) \<Rightarrow>
     JObj ([(''type'', JStr ty), (''sequence_number'', JInt (fst ne))] @ members))"

section \<open>Responses: serializer and accumulator\<close>

text \<open>What both are created with: the identifier, the time, and what every response object repeats.\<close>

record response_setup =
  rt_model :: string
  rt_id :: string
  rt_created_at :: int
  rt_parallel :: bool
  rt_tool_choice :: json
  rt_previous :: "string option"
  rt_store :: bool

definition new_response_setup ::
  "string \<Rightarrow> int \<Rightarrow> string \<Rightarrow> string option \<Rightarrow> int option \<Rightarrow> bool \<Rightarrow> json \<Rightarrow> string option \<Rightarrow> bool \<Rightarrow> response_setup res" where
  "new_response_setup uuid now model rid created parallel choice previous store =
     raise_if (blank model) (ValueError ''model must be a non-empty string'')
    (raise_if (case previous of None \<Rightarrow> False | Some p \<Rightarrow> blank p) (ValueError ''previous_response_id must be a non-empty string or None'')
     (case fresh_id ''resp_'' uuid rid of Inl e \<Rightarrow> Inl e | Inr i \<Rightarrow>
       (case created_time now created of Inl e \<Rightarrow> Inl e | Inr c \<Rightarrow>
          Inr \<lparr>rt_model = model, rt_id = i, rt_created_at = c, rt_parallel = parallel, rt_tool_choice = choice,
            rt_previous = previous, rt_store = store\<rparr>)))"

definition build_response_object ::
  "response_setup \<Rightarrow> string \<Rightarrow> output_item list \<Rightarrow> token_usage option \<Rightarrow> json option \<Rightarrow> string option \<Rightarrow> response_object" where
  "build_response_object R status out usage error incomplete =
     \<lparr>ro_id = rt_id R, ro_created_at = rt_created_at R, ro_model = rt_model R, ro_status = status, ro_output = out,
      ro_parallel = rt_parallel R, ro_tool_choice = rt_tool_choice R, ro_usage = usage, ro_previous = rt_previous R,
      ro_store = rt_store R, ro_error = error, ro_incomplete = incomplete\<rparr>"

record responses_serializer =
  rz_setup :: response_setup
  rz_uuid :: "nat \<Rightarrow> string"
  rz_state :: response_state
  rz_usage :: "token_usage option"
  rz_sequence :: int
  rz_terminal :: bool

definition new_responses_serializer :: "response_setup \<Rightarrow> (nat \<Rightarrow> string) \<Rightarrow> responses_serializer" where
  "new_responses_serializer R uuid = \<lparr>rz_setup = R, rz_uuid = uuid, rz_state = new_response_state, rz_usage = None,
     rz_sequence = 0, rz_terminal = False\<rparr>"

text \<open>Several \<open>_emit\<close> in a row: each takes the next number.\<close>

fun emit_all :: "rsp_event list \<Rightarrow> responses_serializer \<Rightarrow> (int \<times> rsp_event) list \<times> responses_serializer" where
  "emit_all [] s = ([], s)"
| "emit_all (e # es) s = (case emit_all es (s\<lparr>rz_sequence := rz_sequence s + 1\<rparr>) of
     (out, t) \<Rightarrow> ((rz_sequence s + 1, e) # out, t))"

definition current_response :: "responses_serializer \<Rightarrow> string \<Rightarrow> json option \<Rightarrow> string option \<Rightarrow> response_object" where
  "current_response s status error incomplete =
     build_response_object (rz_setup s) status (response_output (rz_state s)) (rz_usage s) error incomplete"

definition emits :: "rsp_event list \<Rightarrow> responses_serializer \<Rightarrow> (int \<times> rsp_event) list res \<times> responses_serializer" where
  "emits es s = (case emit_all es s of (out, t) \<Rightarrow> (Inr out, t))"

definition output_at :: "responses_serializer \<Rightarrow> nat \<Rightarrow> output_state" where
  "output_at s k = rp_states (rz_state s) ! k"

definition responses_feed :: "generation_event \<Rightarrow> responses_serializer \<Rightarrow> (int \<times> rsp_event) list res \<times> responses_serializer" where
  "responses_feed event s0 =
     (if rz_terminal s0 then (Inr [], s0)
      else case event of
        GenerationStarted r \<Rightarrow> emits [RespCreated (current_response s0 ''in_progress'' None None)] s0
      | ReasoningStarted r \<Rightarrow> (case start_reasoning (rz_uuid s0) (rz_state s0) of (k, st) \<Rightarrow>
          (let s = s0\<lparr>rz_state := st\<rparr>; x = output_at s k in
           emits [ItemAdded (os_output_index x) (ReasoningOut (os_item_id x) None), PartAdded True (os_item_id x) (os_output_index x)] s))
      | ReasoningDelta r t \<Rightarrow> (case start_reasoning (rz_uuid s0) (rz_state s0) of (k, st) \<Rightarrow>
          (let s = s0\<lparr>rz_state := update_output k (\<lambda>x. x\<lparr>os_text_parts := os_text_parts x @ [t]\<rparr>) st\<rparr>; x = output_at s k in
           emits [PartText True (os_item_id x) (os_output_index x) t] s))
      | ReasoningCompleted r t \<Rightarrow> (case finish_reasoning (rz_uuid s0) t (rz_state s0) of (k, st) \<Rightarrow>
          (let s = s0\<lparr>rz_state := st\<rparr>; x = output_at s k in
           emits [PartTextDone True (os_item_id x) (os_output_index x) t, PartDone True (os_item_id x) (os_output_index x) t,
             ItemDone (os_output_index x) (the (os_final_item x))] s))
      | TextStarted r \<Rightarrow> (case start_message (rz_uuid s0) (rz_state s0) of (k, st) \<Rightarrow>
          (let s = s0\<lparr>rz_state := st\<rparr>; x = output_at s k in
           emits [ItemAdded (os_output_index x) (MessageOut (os_item_id x) None), PartAdded False (os_item_id x) (os_output_index x)] s))
      | TextDelta r t \<Rightarrow> (case start_message (rz_uuid s0) (rz_state s0) of (k, st) \<Rightarrow>
          (let s = s0\<lparr>rz_state := update_output k (\<lambda>x. x\<lparr>os_text_parts := os_text_parts x @ [t]\<rparr>) st\<rparr>; x = output_at s k in
           emits [PartText False (os_item_id x) (os_output_index x) t] s))
      | TextCompleted r t \<Rightarrow> (case finish_message (rz_uuid s0) t (rz_state s0) of (k, st) \<Rightarrow>
          (let s = s0\<lparr>rz_state := st\<rparr>; x = output_at s k in
           emits [PartTextDone False (os_item_id x) (os_output_index x) t, PartDone False (os_item_id x) (os_output_index x) t,
             ItemDone (os_output_index x) (the (os_final_item x))] s))
      | ToolCallStarted r c n i \<Rightarrow> (case start_tool (rz_uuid s0) c n (rz_state s0) of (k, st) \<Rightarrow>
          (let s = s0\<lparr>rz_state := st\<rparr>; x = output_at s k in
           emits [ItemAdded (os_output_index x) (CallOut (os_item_id x) c n None)] s))
      | ToolCallArgumentsDelta r c t i \<Rightarrow> (case map_of (rp_tools (rz_state s0)) c of
          None \<Rightarrow> (Inr [], s0)
        | Some k \<Rightarrow>
            (let s = s0\<lparr>rz_state := update_output k (\<lambda>x. x\<lparr>os_argument_parts := os_argument_parts x @ [t]\<rparr>) (rz_state s0)\<rparr>;
                 x = output_at s k in emits [ArgumentsPart (os_item_id x) (os_output_index x) t] s))
      | ToolCallCompleted r call \<Rightarrow> (case finish_output_tool (rz_uuid s0) call (rz_state s0) of (k, st) \<Rightarrow>
          (let s = s0\<lparr>rz_state := st\<rparr>; x = output_at s k in
           emits [ArgumentsDone (os_item_id x) (os_output_index x) (arguments_json call),
             ItemDone (os_output_index x) (the (os_final_item x))] s))
      | UsageUpdated r u \<Rightarrow> (Inr [], s0\<lparr>rz_usage := Some u\<rparr>)
      | GenerationCompleted r reason u stop \<Rightarrow>
          (let s = s0\<lparr>rz_terminal := True, rz_usage := (case u of None \<Rightarrow> rz_usage s0 | Some v \<Rightarrow> Some v)\<rparr> in
           if reason = LENGTH_LIMIT then emits [RespIncomplete (current_response s ''incomplete'' None (Some ''max_output_tokens''))] s
           else emits [RespCompleted (current_response s ''completed'' None None)] s)
      | GenerationFailed r e \<Rightarrow> (let s = s0\<lparr>rz_terminal := True\<rparr> in
          (case openai_map_error e of Inl x \<Rightarrow> (Inl x, s)
           | Inr x \<Rightarrow> emits [RespFailed (current_response s ''failed'' (Some (to_error_object False x)) None)] s))
      | GenerationCancelled r \<Rightarrow> (let s = s0\<lparr>rz_terminal := True\<rparr> in
          emits [RespIncomplete (current_response s ''cancelled'' None None)] s)
      | TimingUpdated r t \<Rightarrow> (Inr [], s0))"

record responses_accumulator =
  ra_setup :: response_setup
  ra_uuid :: "nat \<Rightarrow> string"
  ra_state :: response_state
  ra_usage :: "token_usage option"
  ra_status :: "string option"
  ra_incomplete :: "string option"
  ra_error :: "openai_error option"

definition new_responses_accumulator :: "response_setup \<Rightarrow> (nat \<Rightarrow> string) \<Rightarrow> responses_accumulator" where
  "new_responses_accumulator R uuid = \<lparr>ra_setup = R, ra_uuid = uuid, ra_state = new_response_state, ra_usage = None,
     ra_status = None, ra_incomplete = None, ra_error = None\<rparr>"

definition responses_consume :: "generation_event \<Rightarrow> responses_accumulator \<Rightarrow> unit res \<times> responses_accumulator" where
  "responses_consume event a =
     (let part = (\<lambda>k t. update_output k (\<lambda>x. x\<lparr>os_text_parts := os_text_parts x @ [t]\<rparr>)) in
      case event of
        ReasoningStarted r \<Rightarrow> (Inr (), a\<lparr>ra_state := snd (start_reasoning (ra_uuid a) (ra_state a))\<rparr>)
      | ReasoningDelta r t \<Rightarrow> (case start_reasoning (ra_uuid a) (ra_state a) of (k, st) \<Rightarrow> (Inr (), a\<lparr>ra_state := part k t st\<rparr>))
      | ReasoningCompleted r t \<Rightarrow> (Inr (), a\<lparr>ra_state := snd (finish_reasoning (ra_uuid a) t (ra_state a))\<rparr>)
      | TextStarted r \<Rightarrow> (Inr (), a\<lparr>ra_state := snd (start_message (ra_uuid a) (ra_state a))\<rparr>)
      | TextDelta r t \<Rightarrow> (case start_message (ra_uuid a) (ra_state a) of (k, st) \<Rightarrow> (Inr (), a\<lparr>ra_state := part k t st\<rparr>))
      | TextCompleted r t \<Rightarrow> (Inr (), a\<lparr>ra_state := snd (finish_message (ra_uuid a) t (ra_state a))\<rparr>)
      | ToolCallStarted r c n i \<Rightarrow> (Inr (), a\<lparr>ra_state := snd (start_tool (ra_uuid a) c n (ra_state a))\<rparr>)
      | ToolCallArgumentsDelta r c t i \<Rightarrow> (case map_of (rp_tools (ra_state a)) c of
          None \<Rightarrow> (Inr (), a)
        | Some k \<Rightarrow> (Inr (), a\<lparr>ra_state := update_output k (\<lambda>x. x\<lparr>os_argument_parts := os_argument_parts x @ [t]\<rparr>) (ra_state a)\<rparr>))
      | ToolCallCompleted r call \<Rightarrow> (Inr (), a\<lparr>ra_state := snd (finish_output_tool (ra_uuid a) call (ra_state a))\<rparr>)
      | UsageUpdated r u \<Rightarrow> (Inr (), a\<lparr>ra_usage := Some u\<rparr>)
      | GenerationCompleted r reason u stop \<Rightarrow>
          (let b = a\<lparr>ra_usage := (case u of None \<Rightarrow> ra_usage a | Some v \<Rightarrow> Some v)\<rparr> in
           (Inr (), if reason = LENGTH_LIMIT then b\<lparr>ra_status := Some ''incomplete'', ra_incomplete := Some ''max_output_tokens''\<rparr>
              else b\<lparr>ra_status := Some ''completed''\<rparr>))
      | GenerationFailed r e \<Rightarrow> (case openai_map_error e of Inl x \<Rightarrow> (Inl x, a) | Inr x \<Rightarrow> (Inr (), a\<lparr>ra_error := Some x\<rparr>))
      | GenerationCancelled r \<Rightarrow> (Inr (), a\<lparr>ra_status := Some ''cancelled''\<rparr>)
      | _ \<Rightarrow> (Inr (), a))"

datatype responses_result = ResponseError openai_error | ResponseNotTerminal | ResponseResult response_object

definition responses_accumulated :: "responses_accumulator \<Rightarrow> responses_result" where
  "responses_accumulated a = (case ra_error a of
       Some e \<Rightarrow> ResponseError e
     | None \<Rightarrow> (case ra_status a of None \<Rightarrow> ResponseNotTerminal
         | Some status \<Rightarrow> ResponseResult (build_response_object (ra_setup a) status (response_output (ra_state a)) (ra_usage a)
             None (ra_incomplete a))))"

text \<open>A client of the stream, as strict as the documented order allows: numbers count up, items are added, filled and done
  one at a time at consecutive positions, what is done is what the parts add up to, and the terminal response repeats
  exactly the items that were done.\<close>

record responses_client =
  rl_number :: int
  rl_items :: "output_item list"
  rl_open :: "(output_item \<times> string) option"
  rl_created :: bool
  rl_final :: "response_object option"

definition new_responses_client :: responses_client where
  "new_responses_client = \<lparr>rl_number = 0, rl_items = [], rl_open = None, rl_created = False, rl_final = None\<rparr>"

fun done_item :: "output_item \<Rightarrow> string \<Rightarrow> output_item" where
  "done_item (ReasoningOut i _) t = ReasoningOut i (Some t)"
| "done_item (MessageOut i _) t = MessageOut i (Some t)"
| "done_item (CallOut i c n _) t = CallOut i c n (Some t)"

fun text_item :: "bool \<Rightarrow> string \<Rightarrow> output_item \<Rightarrow> bool" where
  "text_item b i (ReasoningOut j u) \<longleftrightarrow> b \<and> i = j \<and> u = None"
| "text_item b i (MessageOut j u) \<longleftrightarrow> \<not> b \<and> i = j \<and> u = None"
| "text_item b i (CallOut j c n u) \<longleftrightarrow> False"

fun call_item :: "string \<Rightarrow> output_item \<Rightarrow> bool" where
  "call_item i (CallOut j c n u) \<longleftrightarrow> i = j \<and> u = None"
| "call_item i x \<longleftrightarrow> False"

fun in_progress :: "output_item \<Rightarrow> bool" where
  "in_progress (ReasoningOut i u) \<longleftrightarrow> u = None"
| "in_progress (MessageOut i u) \<longleftrightarrow> u = None"
| "in_progress (CallOut i c n u) \<longleftrightarrow> u = None"

text \<open>An event about the open item, at its position; \<open>f\<close> says what becomes of the item and its text so far.\<close>

definition on_open :: "int \<Rightarrow> (output_item \<times> string \<Rightarrow> (output_item \<times> string) option) \<Rightarrow> responses_client \<Rightarrow> responses_client option" where
  "on_open k f c = (case rl_open c of
       None \<Rightarrow> None
     | Some x \<Rightarrow> if k = int (length (rl_items c)) then map_option (\<lambda>y. c\<lparr>rl_open := Some y\<rparr>) (f x) else None)"

definition terminal_response :: "response_object \<Rightarrow> responses_client \<Rightarrow> responses_client option" where
  "terminal_response r c = (if rl_open c = None \<and> ro_output r = rl_items c then Some (c\<lparr>rl_final := Some r\<rparr>) else None)"

fun responses_client_event :: "rsp_event \<Rightarrow> responses_client \<Rightarrow> responses_client option" where
  "responses_client_event (RespCreated r) c = (if rl_created c then None else Some (c\<lparr>rl_created := True\<rparr>))"
| "responses_client_event (ItemAdded k x) c =
     (if rl_created c \<and> rl_open c = None \<and> k = int (length (rl_items c)) \<and> in_progress x then Some (c\<lparr>rl_open := Some (x, [])\<rparr>) else None)"
| "responses_client_event (PartAdded b i k) c = on_open k (\<lambda>(x, t). if text_item b i x \<and> t = [] then Some (x, t) else None) c"
| "responses_client_event (PartText b i k u) c = on_open k (\<lambda>(x, t). if text_item b i x then Some (x, t @ u) else None) c"
| "responses_client_event (PartTextDone b i k u) c = on_open k (\<lambda>(x, t). if text_item b i x \<and> u = t then Some (x, t) else None) c"
| "responses_client_event (PartDone b i k u) c = on_open k (\<lambda>(x, t). if text_item b i x \<and> u = t then Some (x, t) else None) c"
| "responses_client_event (ArgumentsPart i k u) c = on_open k (\<lambda>(x, t). if call_item i x then Some (x, t @ u) else None) c"
| "responses_client_event (ArgumentsDone i k u) c = on_open k (\<lambda>(x, t). if call_item i x \<and> u = t then Some (x, t) else None) c"
| "responses_client_event (ItemDone k y) c = (case rl_open c of None \<Rightarrow> None | Some (x, t) \<Rightarrow>
     (if k = int (length (rl_items c)) \<and> y = done_item x t then Some (c\<lparr>rl_open := None, rl_items := rl_items c @ [y]\<rparr>) else None))"
| "responses_client_event (RespCompleted r) c = terminal_response r c"
| "responses_client_event (RespIncomplete r) c = terminal_response r c"
| "responses_client_event (RespFailed r) c = None"

definition responses_client_step :: "int \<times> rsp_event \<Rightarrow> responses_client \<Rightarrow> responses_client option" where
  "responses_client_step ne c = (if fst ne = rl_number c + 1 \<and> rl_final c = None
     then responses_client_event (snd ne) (c\<lparr>rl_number := fst ne\<rparr>) else None)"

definition read_responses :: "(int \<times> rsp_event) list \<Rightarrow> response_object option" where
  "read_responses xs = (case read_items responses_client_step xs new_responses_client of None \<Rightarrow> None | Some c \<Rightarrow> rl_final c)"

end
