(* ===== verification/OpenAI_Properties.thy ===== *)
theory OpenAI_Properties
  imports OpenAI_Answers
begin

text \<open>
  For both OpenAI protocols the streaming and the non-streaming answer are the same, by the contract of
  \<open>answer_protocol\<close>.
\<close>

section \<open>Chat Completions\<close>

text \<open>The calls of the client so far: the completed ones of the accumulator, then the open one.\<close>

definition chat_agree :: "chat_serializer \<Rightarrow> open_item \<times> int \<Rightarrow> chat_serializer \<Rightarrow> chat_accumulator \<Rightarrow> chat_client \<Rightarrow> bool" where
  "chat_agree s0 x s a c \<longleftrightarrow> \<not> ch_terminal s0 \<and> s = s0\<lparr>ch_usage := ca_usage a\<rparr> \<and> ca_error a = None \<and> ch_id s0 = ca_id a
     \<and> ch_created s0 = ca_created a \<and> ch_model s0 = ca_model a \<and> ck_finish c = None \<and> ck_usage c = None
     \<and> ck_text c = concat (ca_text a) \<and> ck_reasoning c = concat (ca_reasoning a)
     \<and> ck_calls c = map (\<lambda>(i, t). (i, call_id t, tool_name t, arguments_json t)) (ca_calls a)
          @ (case fst x of InCall k n i t \<Rightarrow> [(i, k, n, t)] | _ \<Rightarrow> [])
     \<and> map fst (ca_calls a) = map int [0..<length (ca_calls a)]
     \<and> (case fst x of InCall k n i t \<Rightarrow> i = int (length (ca_calls a)) \<and> snd x = i + 1 | _ \<Rightarrow> snd x = int (length (ca_calls a)))"

lemma numbered_absent:
  assumes "map fst d = map int [0..<length d]" shows "map_of d (int (length d)) = None"
proof -
  have "fst ` set d = int ` {0..<length d}" using arg_cong [OF assms, of set] by simp
  then have "int (length d) \<notin> fst ` set d" by auto
  then show ?thesis by (simp add: map_of_eq_None_iff)
qed

lemma update_last: "map_of d i = None \<Longrightarrow> AList.update i v (d @ [(i, w)]) = d @ [(i, v)]"
  by (induction d) (auto split: if_splits)

lemma map_of_values: "map_of (map (\<lambda>(i, t). (i, f t)) d) i = map_option f (map_of d i)"
  by (induction d) auto

interpretation chat: answer_protocol chat_feed chat_consume chat_client_step "chat_agree s0" "\<lambda>es s. True" for s0
proof
  fix r x e y es s a c
  assume st: "content_step r x e = Some y" and ag: "chat_agree s0 x s a c"
  obtain o1 n where x: "x = (o1, n)" by fastforce
  note absent = numbered_absent [of "ca_calls a"] and simps = chat_agree_def chat_feed_def chat_consume_def
  let ?goal = "\<exists>out s' a' c'. chat_feed e s = (Inr out, s') \<and> chat_consume e a = (Inr (), a')
      \<and> read_items chat_client_step out c = Some c' \<and> chat_agree s0 y s' a' c'"
  have num: "map fst (ca_calls a) = map int [0..<length (ca_calls a)]" using ag by (simp add: chat_agree_def)
  have none: "map_of (ca_calls a) (int (length (ca_calls a))) = None" by (rule absent [OF num])
  have none': "map_of (map (\<lambda>(i, t). (i, call_id t, tool_name t, arguments_json t)) (ca_calls a)) (int (length (ca_calls a))) = None"
    using none by (simp add: map_of_values [where f = "\<lambda>t. (call_id t, tool_name t, arguments_json t)"])
  have ?goal
  proof (cases e)
    case (ToolCallStarted q k m i)
    then show ?thesis using st ag x none' by (cases o1) (auto simp: simps split: if_splits)
  next
    case (ToolCallArgumentsDelta q k t i)
    then show ?thesis using st ag x none' by (cases o1) (auto simp: simps map_add_def update_last split: if_splits)
  next
    case (ToolCallCompleted q call)
    then show ?thesis using st ag x none update_absent [of "int (length (ca_calls a))" "ca_calls a" call]
      by (cases o1) (auto simp: simps in_keys_iff split: if_splits)
  qed (use st ag x in \<open>cases o1; auto simp: simps split: if_splits\<close>)+
  then show "\<exists>out s' a' c'. chat_feed e s = (Inr out, s') \<and> chat_consume e a = (Inr (), a')
      \<and> read_items chat_client_step out c = Some c' \<and> chat_agree s0 y s' a' c' \<and> True" by blast
qed

lemma numbered_values:
  assumes "map fst d = map int [0..<length d]" shows "map (\<lambda>i. the (map_of d i)) (sort (map fst d)) = map snd d"
proof -
  have "distinct (map fst d)" unfolding assms by (simp add: distinct_map)
  moreover have "sort (map fst d) = map fst d"
    unfolding assms by (rule sorted_sort_id) (simp add: sorted_iff_nth_mono)
  moreover from calculation(1) have "\<forall>x\<in>set d. the (map_of d (fst x)) = snd x" by (metis map_of_is_SomeI option.sel prod.collapse)
  ultimately show ?thesis by (simp add: comp_def)
qed

lemma chat_closing:
  assumes "chat_agree s0 (Idle, n) s a c"
  shows "\<exists>out s' a' c'. chat_feed (GenerationCompleted r reason u stop) s = (Inr out, s')
    \<and> chat_consume (GenerationCompleted r reason u stop) a = (Inr (), a') \<and> read_items chat_client_step out c = Some c'
    \<and> (\<exists>m. chat_accumulated a' = ChatCompletion m
      \<and> client_completion s0 c' = Some (if ch_include_usage s0 then m else m\<lparr>cc_usage := None\<rparr>))"
proof -
  have "map (\<lambda>i. the (map_of (ca_calls a) i)) (sort (map fst (ca_calls a))) = map snd (ca_calls a)"
    by (rule numbered_values) (use assms in \<open>simp add: chat_agree_def\<close>)
  then show ?thesis using assms
    by (cases u; cases "ca_usage a") (auto simp: chat_agree_def chat_feed_def chat_consume_def Let_def chat_accumulated_def client_completion_def comp_def case_prod_beta)
qed

text \<open>C32. Chat Completions: for every well-formed generation that completes, a client of the chunk stream ends up with the
  message, the finish reason and the calls of the completion that the accumulator returns; and with its usage when the
  request asked for usage in the stream.\<close>

theorem chat_stream_is_completion:
  assumes "well_formed_content r es"
    and "new_chat_serializer uuid now model rid created include = Inr s" and "new_chat_accumulator uuid now model rid created = Inr a"
  shows "\<exists>out s' a' m. let run = [GenerationStarted r] @ es @ [GenerationCompleted r reason u stop] in
    feed_events chat_feed run s = (Inr out, s') \<and> consume_events chat_consume run a = (Inr (), a')
      \<and> chat_accumulated a' = ChatCompletion m
      \<and> read_chat s out = Some (if include then m else m\<lparr>cc_usage := None\<rparr>)"
proof -
  obtain n where n: "content_run r (Idle, 0) es = Some (Idle, n)" using assms(1) by (auto simp: well_formed_content_iff)
  have ag: "chat_agree s (Idle, 0) s a new_chat_client" and inc: "ch_include_usage s = include"
    using assms(2,3) by (auto simp: new_chat_serializer_def new_chat_accumulator_def chat_agree_def new_chat_client_def split: sum.splits)
  have opens: "chat_feed (GenerationStarted r) s = (Inr [Chunk RoleDelta None], s)" "chat_consume (GenerationStarted r) a = (Inr (), a)"
    "read_items chat_client_step [Chunk RoleDelta None] new_chat_client = Some new_chat_client"
    using ag by (simp_all add: chat_feed_def chat_consume_def chat_agree_def new_chat_client_def)
  obtain out s' a' c' m where "feed_events chat_feed ([GenerationStarted r] @ es @ [GenerationCompleted r reason u stop]) s = (Inr out, s')"
    "consume_events chat_consume ([GenerationStarted r] @ es @ [GenerationCompleted r reason u stop]) a = (Inr (), a')"
    "read_items chat_client_step out new_chat_client = Some c'" "chat_accumulated a' = ChatCompletion m"
    "client_completion s c' = Some (if ch_include_usage s then m else m\<lparr>cc_usage := None\<rparr>)"
    using chat.complete_runs [OF n TrueI ag opens chat_closing [of s n _ _ _ r reason u stop]] by blast
  then show ?thesis
    by (intro exI [of _ out] exI [of _ s'] exI [of _ a'] exI [of _ m]) (simp add: Let_def read_chat_def inc)
qed

section \<open>Responses\<close>

text \<open>The identifiers of the calls a stream starts. A stream in which no identifier comes back is what the tool batch gate
  lets through.\<close>

fun started_call :: "generation_event \<Rightarrow> string list" where
  "started_call (ToolCallStarted r c n i) = [c]"
| "started_call e = []"

definition fresh_calls :: "generation_event list \<Rightarrow> responses_serializer \<Rightarrow> bool" where
  "fresh_calls es s \<longleftrightarrow> distinct (concat (map started_call es))
     \<and> set (concat (map started_call es)) \<inter> fst ` set (rp_tools (rz_state s)) = {}"

text \<open>The states of the items that are done, then the one of the open item.\<close>

definition opened :: "response_state \<Rightarrow> output_item list \<Rightarrow> bool" where
  "opened st items \<longleftrightarrow> length (rp_states st) = Suc (length items) \<and> map os_final_item (take (length items) (rp_states st)) = map Some items
     \<and> os_output_index (rp_states st ! length items) = int (length items) \<and> rp_next_index st = int (length items) + 1"

definition open_id :: "response_state \<Rightarrow> output_item list \<Rightarrow> string" where
  "open_id st items = os_item_id (rp_states st ! length items)"

fun states_agree :: "open_item \<Rightarrow> response_state \<Rightarrow> output_item list \<Rightarrow> (output_item \<times> string) option \<Rightarrow> bool" where
  "states_agree Idle st items opn \<longleftrightarrow> opn = None \<and> rp_reasoning st = None \<and> rp_message st = None
     \<and> map os_final_item (rp_states st) = map Some items \<and> rp_next_index st = int (length items)"
| "states_agree (InText t) st items opn \<longleftrightarrow> rp_reasoning st = None \<and> rp_message st = Some (length items)
     \<and> opened st items \<and> opn = Some (MessageOut (open_id st items) None, t)"
| "states_agree (InReasoning t) st items opn \<longleftrightarrow> rp_message st = None \<and> rp_reasoning st = Some (length items)
     \<and> opened st items \<and> opn = Some (ReasoningOut (open_id st items) None, t)"
| "states_agree (InCall cid n i t) st items opn \<longleftrightarrow> rp_message st = None \<and> rp_reasoning st = None
     \<and> map_of (rp_tools st) cid = Some (length items) \<and> opened st items \<and> opn = Some (CallOut (open_id st items) cid n None, t)"

definition responses_agree :: "open_item \<times> int \<Rightarrow> responses_serializer \<Rightarrow> responses_accumulator \<Rightarrow> responses_client \<Rightarrow> bool" where
  "responses_agree x s a c \<longleftrightarrow> \<not> rz_terminal s \<and> rz_setup s = ra_setup a \<and> rz_uuid s = ra_uuid a \<and> rz_state s = ra_state a
     \<and> rz_usage s = ra_usage a \<and> ra_error a = None \<and> ra_incomplete a = None \<and> rl_number c = rz_sequence s \<and> rl_created c
     \<and> rl_final c = None \<and> states_agree (fst x) (rz_state s) (rl_items c) (rl_open c)"

lemma agreed_states: "responses_agree x s a c \<Longrightarrow> states_agree (fst x) (rz_state s) (rl_items c) (rl_open c)"
  unfolding responses_agree_def by (elim conjE)

lemma idle_length: "states_agree Idle st items opn \<Longrightarrow> length (rp_states st) = length items"
  by (auto dest: map_eq_imp_length_eq)

text \<open>A new item is opened at the end.\<close>

lemma opened_new:
  assumes "states_agree Idle st items opn" and "new_output uuid kind stem cid name st = (k, t)"
  shows "k = length items \<and> opened t items \<and> rp_reasoning t = None \<and> rp_message t = None \<and> rp_tools t = rp_tools st"
  using assms(2) idle_length [OF assms(1)] assms(1) by (auto simp: new_output_def opened_def)

lemma reopened [simp]:
  "opened (st\<lparr>rp_reasoning := u\<rparr>) items = opened st items" "opened (st\<lparr>rp_message := u\<rparr>) items = opened st items"
  "opened (st\<lparr>rp_tools := v\<rparr>) items = opened st items"
  by (simp_all add: opened_def)

lemma idle_starts:
  assumes "states_agree Idle st items opn"
  shows "start_message uuid st = (k, t) \<Longrightarrow> k = length items \<and> opened t items \<and> rp_message t = Some k
      \<and> rp_reasoning t = None \<and> rp_tools t = rp_tools st"
    and "start_reasoning uuid st = (k, t) \<Longrightarrow> k = length items \<and> opened t items \<and> rp_reasoning t = Some k
      \<and> rp_message t = None \<and> rp_tools t = rp_tools st"
    and "start_tool uuid cid name st = (k, t) \<Longrightarrow> map_of (rp_tools st) cid = None \<Longrightarrow> k = length items \<and> opened t items
      \<and> rp_reasoning t = None \<and> rp_message t = None \<and> rp_tools t = rp_tools st @ [(cid, k)]"
  using assms by (auto simp: start_message_def start_reasoning_def start_tool_def in_keys_iff update_absent
      dest!: opened_new [OF assms] split: prod.splits)

text \<open>Filling and finishing the open item.\<close>

lemma update_output_fields [simp]:
  "rp_next_index (update_output k f st) = rp_next_index st" "rp_reasoning (update_output k f st) = rp_reasoning st"
  "rp_message (update_output k f st) = rp_message st" "rp_tools (update_output k f st) = rp_tools st"
  by (simp_all add: update_output_def)

lemma update_opened:
  assumes "opened st items"
  shows "rp_states (update_output (length items) f st) ! length items = f (rp_states st ! length items)"
    and "os_output_index (f (rp_states st ! length items)) = int (length items) \<Longrightarrow> opened (update_output (length items) f st) items"
    and "os_final_item (f (rp_states st ! length items)) = Some x \<Longrightarrow>
      map os_final_item (rp_states (update_output (length items) f st)) = map Some (items @ [x])"
proof -
  have l: "length (rp_states st) = Suc (length items)" using assms by (simp add: opened_def)
  then show "rp_states (update_output (length items) f st) ! length items = f (rp_states st ! length items)"
    by (simp add: update_output_def)
  show "os_output_index (f (rp_states st ! length items)) = int (length items) \<Longrightarrow> opened (update_output (length items) f st) items"
    using assms l by (simp add: opened_def update_output_def)
  assume x: "os_final_item (f (rp_states st ! length items)) = Some x"
  have "rp_states (update_output (length items) f st) = take (length items) (rp_states st) @ [f (rp_states st ! length items)]"
    using l by (simp add: update_output_def upd_conv_take_nth_drop)
  then show "map os_final_item (rp_states (update_output (length items) f st)) = map Some (items @ [x])"
    using assms x by (simp add: opened_def)
qed

text \<open>Emitting and reading: the numbers of the events match.\<close>

lemma emits_simps [simp]:
  "emits [] s = (Inr [], s)"
  "emits (e # es) s = (case emits es (s\<lparr>rz_sequence := rz_sequence s + 1\<rparr>) of
     (Inl x, t) \<Rightarrow> (Inl x, t) | (Inr out, t) \<Rightarrow> (Inr ((rz_sequence s + 1, e) # out), t))"
  by (simp_all add: emits_def split: prod.splits)

lemmas responses_step_simps = responses_feed_def responses_consume_def responses_agree_def responses_client_step_def on_open_def
  output_at_def open_id_def Let_def fresh_calls_def

text \<open>What an event adds to the items of the response, identifiers aside.\<close>

fun done_of :: "generation_event \<Rightarrow> output_item list" where
  "done_of (ReasoningCompleted r t) = [ReasoningOut [] (Some t)]"
| "done_of (TextCompleted r t) = [MessageOut [] (Some t)]"
| "done_of (ToolCallCompleted r c) = [CallOut [] (call_id c) (tool_name c) (Some (arguments_json c))]"
| "done_of e = []"

fun anonymous :: "output_item \<Rightarrow> output_item" where
  "anonymous (ReasoningOut i t) = ReasoningOut [] t"
| "anonymous (MessageOut i t) = MessageOut [] t"
| "anonymous (CallOut i c n t) = CallOut [] c n t"

lemma responses_step_Idle:
  assumes "content_step r (Idle, n) e = Some y" and "fresh_calls (e # es) s" and "responses_agree (Idle, n) s a c"
  shows "\<exists>out s' a' c'. responses_feed e s = (Inr out, s') \<and> responses_consume e a = (Inr (), a')
      \<and> read_items responses_client_step out c = Some c' \<and> responses_agree y s' a' c' \<and> fresh_calls es s'
      \<and> map anonymous (rl_items c') = map anonymous (rl_items c) @ done_of e"
proof -
  let ?st = "rz_state s"
  have ag: "\<not> rz_terminal s" "rz_setup s = ra_setup a" "rz_uuid s = ra_uuid a" "ra_state a = ?st" "ra_usage a = rz_usage s" "ra_error a = None"
    "ra_incomplete a = None" "rl_number c = rz_sequence s" "rl_created c" "rl_final c = None"
    using assms(3) by (simp_all add: responses_agree_def)
  have idle: "states_agree Idle ?st (rl_items c) (rl_open c)" using agreed_states [OF assms(3)] by simp
  have opn: "rl_open c = None" using idle by simp
  note starts = idle_starts [OF idle, where uuid = "ra_uuid a"]
  note simps = responses_step_simps ag opn
  show ?thesis
  proof (cases e)
    case (TextStarted q)
    obtain k t where eq: "start_message (ra_uuid a) ?st = (k, t)" by fastforce
    show ?thesis using starts(1) [OF eq] assms(1,2) TextStarted eq by (auto simp: simps opened_def split: if_splits)
  next
    case (ReasoningStarted q)
    obtain k t where eq: "start_reasoning (ra_uuid a) ?st = (k, t)" by fastforce
    show ?thesis using starts(2) [OF eq] assms(1,2) ReasoningStarted eq by (auto simp: simps opened_def split: if_splits)
  next
    case (ToolCallStarted q cid m i)
    have new: "map_of (rp_tools ?st) cid = None" using assms(2) ToolCallStarted by (auto simp: fresh_calls_def map_of_eq_None_iff)
    obtain k t where eq: "start_tool (ra_uuid a) cid m ?st = (k, t)" by fastforce
    show ?thesis using starts(3) [OF eq new] new assms(1,2) ToolCallStarted eq
      by (auto simp: simps opened_def map_add_def split: if_splits)
  qed (use assms(1,2) idle in \<open>auto simp: simps split: if_splits\<close>)
qed

text \<open>While an item is open, the references lead to it.\<close>

lemma open_references:
  "states_agree (InText t) st items opn \<Longrightarrow> start_message uuid st = (length items, st)"
  "states_agree (InReasoning t) st items opn \<Longrightarrow> start_reasoning uuid st = (length items, st)"
  "states_agree (InCall cid n i t) st items opn \<Longrightarrow> start_tool uuid cid n st = (length items, st)"
  by (simp_all add: start_message_def start_reasoning_def start_tool_def)

lemma responses_step_open:
  assumes "content_step r (x, n) e = Some y" and "x \<noteq> Idle" and "fresh_calls (e # es) s" and "responses_agree (x, n) s a c"
  shows "\<exists>out s' a' c'. responses_feed e s = (Inr out, s') \<and> responses_consume e a = (Inr (), a')
      \<and> read_items responses_client_step out c = Some c' \<and> responses_agree y s' a' c' \<and> fresh_calls es s'
      \<and> map anonymous (rl_items c') = map anonymous (rl_items c) @ done_of e"
proof -
  let ?st = "rz_state s"
  have ag: "\<not> rz_terminal s" "rz_setup s = ra_setup a" "rz_uuid s = ra_uuid a" "ra_state a = ?st" "ra_usage a = rz_usage s" "ra_error a = None"
    "ra_incomplete a = None" "rl_number c = rz_sequence s" "rl_created c" "rl_final c = None"
    using assms(4) by (simp_all add: responses_agree_def)
  have agree: "states_agree x ?st (rl_items c) (rl_open c)" using agreed_states [OF assms(4)] by simp
  have opn: "opened ?st (rl_items c)" using agree assms(2) by (cases x) simp_all
  have pos: "os_output_index (rp_states ?st ! length (rl_items c)) = int (length (rl_items c))"
    "rp_next_index ?st = int (length (rl_items c)) + 1" using opn by (simp_all add: opened_def)
  note simps = responses_step_simps ag pos update_opened [OF opn] finish_message_def finish_reasoning_def finish_output_tool_def
  show ?thesis
  proof (cases x)
    case (InText t)
    then show ?thesis using assms(1,3) agree open_references(1) [of t, where uuid = "ra_uuid a"]
      by (cases e) (auto simp: simps split: if_splits)
  next
    case (InReasoning t)
    then show ?thesis using assms(1,3) agree open_references(2) [of t, where uuid = "ra_uuid a"]
      by (cases e) (auto simp: simps split: if_splits)
  next
    case (InCall cid m i t)
    then show ?thesis using assms(1,3) agree open_references(3) [of cid m i t, where uuid = "ra_uuid a"]
      by (cases e) (auto simp: simps split: if_splits)
  qed (use assms(2) in simp)
qed

lemma responses_step:
  assumes "content_step r x e = Some y" and "fresh_calls (e # es) s" and "responses_agree x s a c"
  shows "\<exists>out s' a' c'. responses_feed e s = (Inr out, s') \<and> responses_consume e a = (Inr (), a')
      \<and> read_items responses_client_step out c = Some c' \<and> responses_agree y s' a' c' \<and> fresh_calls es s'
      \<and> map anonymous (rl_items c') = map anonymous (rl_items c) @ done_of e"
proof (cases "fst x = Idle")
  case True
  then show ?thesis using responses_step_Idle [of r "snd x" e y es s a c] assms by (metis prod.collapse)
next
  case False
  then show ?thesis using responses_step_open [of r "fst x" "snd x" e y es s a c] assms by simp
qed

interpretation responses: recorded_protocol responses_feed responses_consume responses_client_step responses_agree fresh_calls
  "\<lambda>c. map anonymous (rl_items c)" done_of
proof
  fix r x e y es s a c
  assume st: "content_step r x e = Some y" "fresh_calls (e # es) s" "responses_agree x s a c"
  show "\<exists>out s' a' c'. responses_feed e s = (Inr out, s') \<and> responses_consume e a = (Inr (), a')
      \<and> read_items responses_client_step out c = Some c' \<and> responses_agree y s' a' c' \<and> fresh_calls es s'"
    using responses_step [OF st] by blast
  fix out s' c'
  assume "responses_feed e s = (Inr out, s')" "read_items responses_client_step out c = Some c'"
  then show "map anonymous (rl_items c') = map anonymous (rl_items c) @ done_of e" using responses_step [OF st] by auto
qed

lemma response_output_items:
  assumes "states_agree Idle st items opn" shows "response_output st = items"
proof -
  have "List.map_filter (\<lambda>v. v) (map os_final_item (rp_states st)) = items"
    using assms by (induction items) (simp_all add: List.map_filter_def comp_def)
  then show ?thesis by (simp add: response_output_def List.map_filter_def comp_def filter_map)
qed

lemma responses_closing:
  assumes "responses_agree (Idle, n) s a c" and said: "map anonymous (rl_items c) = said"
  shows "\<exists>out s' a' c'. responses_feed (GenerationCompleted r reason u stop) s = (Inr out, s')
    \<and> responses_consume (GenerationCompleted r reason u stop) a = (Inr (), a') \<and> read_items responses_client_step out c = Some c'
    \<and> (\<exists>m. responses_accumulated a' = ResponseResult m \<and> rl_final c' = Some m \<and> map anonymous (ro_output m) = said)"
proof -
  have items: "response_output (rz_state s) = rl_items c" and opn: "rl_open c = None"
    using agreed_states [OF assms(1)] response_output_items by auto
  have ag: "\<not> rz_terminal s" "ra_setup a = rz_setup s" "ra_state a = rz_state s" "ra_usage a = rz_usage s" "ra_error a = None"
    "ra_incomplete a = None" "rl_number c = rz_sequence s" "rl_final c = None" using assms(1) by (simp_all add: responses_agree_def)
  let ?v = "case u of None \<Rightarrow> rz_usage s | Some v \<Rightarrow> Some v"
  let ?m = "if reason = LENGTH_LIMIT
    then build_response_object (rz_setup s) ''incomplete'' (rl_items c) ?v None (Some ''max_output_tokens'')
    else build_response_object (rz_setup s) ''completed'' (rl_items c) ?v None None"
  let ?last = "if reason = LENGTH_LIMIT then RespIncomplete ?m else RespCompleted ?m"
  have "\<exists>s'. responses_feed (GenerationCompleted r reason u stop) s = (Inr [(rz_sequence s + 1, ?last)], s')"
    using ag items by (simp add: responses_feed_def current_response_def Let_def)
  moreover have "\<exists>a'. responses_consume (GenerationCompleted r reason u stop) a = (Inr (), a') \<and> responses_accumulated a' = ResponseResult ?m"
    using ag items by (cases u) (simp_all add: responses_consume_def responses_accumulated_def Let_def)
  moreover have "\<exists>c'. read_items responses_client_step [(rz_sequence s + 1, ?last)] c = Some c' \<and> rl_final c' = Some ?m"
    using ag opn by (simp add: responses_client_step_def terminal_response_def build_response_object_def)
  moreover have "map anonymous (ro_output ?m) = said" using said by (simp add: build_response_object_def)
  ultimately show ?thesis by blast
qed

lemma responses_run:
  assumes "well_formed_content r es" and "distinct (concat (map started_call es))"
    and run_def: "run = [GenerationStarted r] @ es @ [GenerationCompleted r reason u stop]"
  shows "\<exists>out s' a' m. feed_events responses_feed run (new_responses_serializer R uuid) = (Inr out, s')
      \<and> consume_events responses_consume run (new_responses_accumulator R uuid) = (Inr (), a')
      \<and> responses_accumulated a' = ResponseResult m \<and> read_responses out = Some m
      \<and> map anonymous (ro_output m) = concat (map done_of es)"
proof -
  let ?s0 = "(new_responses_serializer R uuid)\<lparr>rz_sequence := 1\<rparr>" and ?a0 = "new_responses_accumulator R uuid"
  let ?c0 = "new_responses_client\<lparr>rl_number := 1, rl_created := True\<rparr>"
  let ?in_progress = "current_response (new_responses_serializer R uuid) ''in_progress'' None None"
  obtain n where n: "content_run r (Idle, 0) es = Some (Idle, n)" using assms(1) by (auto simp: well_formed_content_iff)
  have ag0: "responses_agree (Idle, 0) ?s0 ?a0 ?c0" and fresh: "fresh_calls es ?s0" using assms(2)
    by (simp_all add: responses_agree_def fresh_calls_def new_responses_serializer_def new_responses_accumulator_def new_responses_client_def
        new_response_state_def)
  have opens: "responses_feed (GenerationStarted r) (new_responses_serializer R uuid) = (Inr [(1, RespCreated ?in_progress)], ?s0)"
    "responses_consume (GenerationStarted r) ?a0 = (Inr (), ?a0)"
    "read_items responses_client_step [(1, RespCreated ?in_progress)] new_responses_client = Some ?c0"
    by (simp_all add: responses_feed_def responses_consume_def responses_client_step_def new_responses_serializer_def new_responses_client_def)
  have "map anonymous (rl_items c1) = map anonymous (rl_items ?c0) @ concat (map done_of es) \<Longrightarrow>
      map anonymous (rl_items c1) = concat (map done_of es)" for c1 by (simp add: new_responses_client_def)
  from responses.complete_runs_keeping [OF n fresh ag0 opens responses_closing [OF _ this, where n = n and r = r and reason = reason and u = u and stop = stop]]
  obtain out s' a' c' m where "feed_events responses_feed run (new_responses_serializer R uuid) = (Inr out, s')"
    "consume_events responses_consume run ?a0 = (Inr (), a')" "read_items responses_client_step out new_responses_client = Some c'"
    "responses_accumulated a' = ResponseResult m" "rl_final c' = Some m" "map anonymous (ro_output m) = concat (map done_of es)"
    unfolding run_def by blast
  then show ?thesis by (auto simp: read_responses_def)
qed

text \<open>C33. Responses: for every well-formed generation that completes and names each tool call by an identifier of its own, a
  client as strict as the documented order allows accepts the whole event stream, and the response object that ends it is the one
  the accumulator returns; its output is what the generation completed, item by item.\<close>

theorem responses_stream_is_response:
  assumes "well_formed_content r es" and "distinct (concat (map started_call es))"
  shows "\<exists>out s' a' m. let run = [GenerationStarted r] @ es @ [GenerationCompleted r reason u stop] in
    feed_events responses_feed run (new_responses_serializer R uuid) = (Inr out, s')
      \<and> consume_events responses_consume run (new_responses_accumulator R uuid) = (Inr (), a')
      \<and> responses_accumulated a' = ResponseResult m \<and> read_responses out = Some m
      \<and> map anonymous (ro_output m) = concat (map done_of es)"
  unfolding Let_def by (rule responses_run [OF assms refl])

section \<open>Witnesses\<close>

text \<open>Reasoning, text in two deltas, a call and more text.\<close>

definition ex_answer :: "generation_event list" where
  "ex_answer = [ReasoningStarted ''r'', ReasoningDelta ''r'' ''hm'', ReasoningCompleted ''r'' ''hm'',
     TextStarted ''r'', TextDelta ''r'' ''a'', TextDelta ''r'' ''b'', TextCompleted ''r'' ''ab'',
     ToolCallStarted ''r'' ''c1'' ''f'' 0, ToolCallArgumentsDelta ''r'' ''c1'' ''{}'' 0,
     ToolCallCompleted ''r'' \<lparr>call_id = ''c1'', tool_name = ''f'', arguments_json = ''{}'', call_index = 0\<rparr>,
     TextStarted ''r'', TextDelta ''r'' ''z'', TextCompleted ''r'' ''z'']"

lemma ex_answer_ok: "well_formed_content ''r'' ex_answer" "distinct (concat (map started_call ex_answer))"
  by code_simp+

definition ex_chat_serializer :: chat_serializer where
  "ex_chat_serializer = \<lparr>ch_model = ''m'', ch_id = ''chatcmpl-1'', ch_created = 7, ch_include_usage = True, ch_usage = None, ch_terminal = False\<rparr>"

definition ex_chat_accumulator :: chat_accumulator where
  "ex_chat_accumulator = \<lparr>ca_model = ''m'', ca_id = ''chatcmpl-1'', ca_created = 7, ca_text = [], ca_reasoning = [], ca_calls = [],
     ca_usage = None, ca_reason = None, ca_error = None\<rparr>"

lemma ex_chat_new:
  "new_chat_serializer ''1'' 7 ''m'' None None True = Inr ex_chat_serializer" "new_chat_accumulator ''1'' 7 ''m'' None None = Inr ex_chat_accumulator"
  by (simp_all add: new_chat_serializer_def new_chat_accumulator_def ex_chat_serializer_def ex_chat_accumulator_def fresh_id_def
      created_time_def blank_def py_space_def)

lemma chat_stream_is_completion_witness:
  "\<exists>out s' m. feed_events chat_feed ([GenerationStarted ''r''] @ ex_answer @ [GenerationCompleted ''r'' STOP None None]) ex_chat_serializer
      = (Inr out, s') \<and> read_chat ex_chat_serializer out = Some m \<and> ex_answer \<noteq> []"
  using chat_stream_is_completion [OF ex_answer_ok(1) ex_chat_new, where reason = STOP and u = None and stop = None]
  by (auto simp: Let_def ex_answer_def)

definition ex_setup :: response_setup where
  "ex_setup = \<lparr>rt_model = ''m'', rt_id = ''resp_1'', rt_created_at = 7, rt_parallel = True, rt_tool_choice = JStr ''auto'', rt_previous = None,
     rt_store = False\<rparr>"

lemma responses_stream_is_response_witness:
  "\<exists>out s' m. feed_events responses_feed ([GenerationStarted ''r''] @ ex_answer @ [GenerationCompleted ''r'' LENGTH_LIMIT None None])
      (new_responses_serializer ex_setup (\<lambda>n. [])) = (Inr out, s') \<and> read_responses out = Some m"
  using responses_stream_is_response [OF ex_answer_ok, where reason = LENGTH_LIMIT and u = None and stop = None and R = ex_setup
      and uuid = "\<lambda>n. []"]
  unfolding Let_def by blast

end
