(* ===== verification/Request_Values.thy ===== *)
theory Request_Values
  imports Runtime_Contracts Validation
begin

text \<open>
  What the request parsers of the protocols share: how a parser fails, Python's view of a decoded JSON number, the
  sampling overrides of \<open>src/exqserve/core/sampling.py\<close>, and the requests of \<open>src/exqserve/serving/contracts.py\<close>
  that a parser produces.

  A parser returns or raises. \<open>Rejected\<close> is the protocol's own error, which the handler turns into its answer; \<open>Raised\<close>
  is any other exception, which the handler does not catch. A body is the dictionary \<open>json.loads\<close> gives; the value of
  a float is a parameter, none for a float that is not finite.
\<close>

section \<open>Failing\<close>

datatype 'e failure = Rejected 'e | Raised exn

definition sum_bind :: "'e + 'a \<Rightarrow> ('a \<Rightarrow> 'e + 'b) \<Rightarrow> 'e + 'b" where
  "sum_bind r f = (case r of Inl e \<Rightarrow> Inl e | Inr x \<Rightarrow> f x)"

lemma sum_bind_simps [simp]: "sum_bind (Inl e) f = Inl e" "sum_bind (Inr x) f = f x"
  by (simp_all add: sum_bind_def)

lemma sum_bind_Inr: "sum_bind r f = Inr y \<longleftrightarrow> (\<exists>x. r = Inr x \<and> f x = Inr y)"
  by (cases r) auto

lemma sum_bind_Inl: "sum_bind r f = Inl e \<longleftrightarrow> r = Inl e \<or> (\<exists>x. r = Inr x \<and> f x = Inl e)"
  by (cases r) auto

lemma sum_bind_cong [fundef_cong]: "r = r' \<Longrightarrow> (\<And>x. r' = Inr x \<Longrightarrow> f x = g x) \<Longrightarrow> sum_bind r f = sum_bind r' g"
  by (cases r') auto

text \<open>\<open>for index, x in enumerate(xs)\<close>, collecting what the body gives.\<close>

primrec each :: "(nat \<Rightarrow> 'a \<Rightarrow> 'e + 'b) \<Rightarrow> nat \<Rightarrow> 'a list \<Rightarrow> 'e + 'b list" where
  "each f n [] = Inr []"
| "each f n (x # xs) = sum_bind (f n x) (\<lambda>y. sum_bind (each f (Suc n) xs) (\<lambda>ys. Inr (y # ys)))"

lemma each_Inl: "each f n xs = Inl e \<Longrightarrow> \<exists>i x. x \<in> set xs \<and> f i x = Inl e"
  by (induction xs arbitrary: n) (fastforce simp: sum_bind_Inl)+

lemma each_all: "each f n xs = Inr ys \<Longrightarrow> (\<And>i x y. f i x = Inr y \<Longrightarrow> P y) \<Longrightarrow> list_all P ys"
  by (induction xs arbitrary: n ys) (auto simp: sum_bind_Inr)

lemma each_map: "(\<And>i. i < length xs \<Longrightarrow> f (n + i) (xs ! i) = Inr (ys ! i)) \<Longrightarrow> length ys = length xs \<Longrightarrow> each f n xs = Inr ys"
proof (induction xs arbitrary: n ys)
  case (Cons x xs)
  then obtain y zs where ys: "ys = y # zs" by (cases ys) auto
  have "each f (Suc n) xs = Inr zs"
    by (rule Cons.IH) (use Cons.prems(1) [of "Suc _"] Cons.prems(2) ys in auto)
  then show ?case using Cons.prems(1) [of 0] ys by simp
qed simp

text \<open>A constructor that raises, outside and inside \<open>try ... except (TypeError, ValueError)\<close>.\<close>

definition construct :: "'a res \<Rightarrow> 'e failure + 'a" where
  "construct r = (case r of Inl e \<Rightarrow> Inl (Raised e) | Inr x \<Rightarrow> Inr x)"

fun caught :: "exn \<Rightarrow> bool" where
  "caught (TypeError m) = True"
| "caught (ValueError m) = True"
| "caught e = False"

definition construct_or :: "'e \<Rightarrow> 'a res \<Rightarrow> 'e failure + 'a" where
  "construct_or err r = (case r of Inl e \<Rightarrow> Inl (if caught e then Rejected err else Raised e) | Inr x \<Rightarrow> Inr x)"

lemma construct_Inr [simp]: "construct r = Inr x \<longleftrightarrow> r = Inr x" "construct_or err r = Inr x \<longleftrightarrow> r = Inr x"
  by (auto simp: construct_def construct_or_def split: sum.split)

section \<open>Numbers\<close>

text \<open>An integer too large for a double: \<open>float(n)\<close> raises \<open>OverflowError\<close>, which is not a \<open>ValueError\<close>.\<close>

definition float_overflows :: "int \<Rightarrow> bool" where
  "float_overflows n \<longleftrightarrow> 2 ^ 1024 - 2 ^ 970 \<le> \<bar>n\<bar>"

type_synonym float_value = "string \<Rightarrow> rat option"

text \<open>\<open>_validate_finite\<close>\<close>

definition finite_number :: "float_value \<Rightarrow> json \<Rightarrow> rat res" where
  "finite_number fv v = (case v of
       JInt n \<Rightarrow> raise_if (float_overflows n) OverflowError (Inr (of_int n))
     | JFloat t \<Rightarrow> (case fv t of None \<Rightarrow> Inl (ValueError ''must be finite'') | Some q \<Rightarrow> Inr q)
     | _ \<Rightarrow> Inl (TypeError ''must be a number''))"

definition integer_value :: "json \<Rightarrow> int res" where
  "integer_value v = (case v of JInt n \<Rightarrow> Inr n | _ \<Rightarrow> Inl (TypeError ''must be an integer''))"

definition bool_value :: "json \<Rightarrow> bool res" where
  "bool_value v = (case v of JBool b \<Rightarrow> Inr b | _ \<Rightarrow> Inl (TypeError ''must be a bool''))"

text \<open>\<open>==\<close> of decoded values: numbers by value, dictionaries without order. Inside a container the one object that stands
  for NaN is identical to itself, at the top it is unequal to everything.\<close>

definition number_value :: "float_value \<Rightarrow> json \<Rightarrow> rat option" where
  "number_value fv v = (case v of JBool b \<Rightarrow> Some (if b then 1 else 0) | JInt n \<Rightarrow> Some (of_int n) | JFloat t \<Rightarrow> fv t | _ \<Rightarrow> None)"

function equal_values :: "float_value \<Rightarrow> json \<Rightarrow> json \<Rightarrow> bool" where
  "equal_values fv (JArr xs) w \<longleftrightarrow> (case w of
     JArr ys \<Rightarrow> length xs = length ys \<and> list_all (\<lambda>p. fst p \<in> set xs \<and> equal_values fv (fst p) (snd p)) (zip xs ys) | _ \<Rightarrow> False)"
| "equal_values fv (JObj d) w \<longleftrightarrow> (case w of
     JObj d' \<Rightarrow> length d = length d' \<and> list_all (\<lambda>p. p \<in> set d \<and> (case map_of d' (fst p) of
       None \<Rightarrow> False | Some v \<Rightarrow> equal_values fv (snd p) v)) d | _ \<Rightarrow> False)"
| "equal_values fv (JStr s) w \<longleftrightarrow> w = JStr s"
| "equal_values fv JNull w \<longleftrightarrow> w = JNull"
| "equal_values fv (JBool b) w \<longleftrightarrow> number_value fv w = Some (if b then 1 else 0)"
| "equal_values fv (JInt n) w \<longleftrightarrow> number_value fv w = Some (of_int n)"
| "equal_values fv (JFloat t) w \<longleftrightarrow> w = JFloat t \<or> (fv t \<noteq> None \<and> number_value fv w = fv t)"
  by pat_completeness auto

termination
  by (relation "measure (\<lambda>(fv, v, w). size v)") (auto dest: size_child size_element set_zip_leftD simp del: json.size)

definition not_equal :: "float_value \<Rightarrow> json \<Rightarrow> json \<Rightarrow> bool" where
  "not_equal fv v w \<longleftrightarrow> v = JFloat ''nan'' \<or> \<not> equal_values fv v w"

text \<open>\<open>int(s)\<close> on text of one-byte characters: blanks around, a sign, digits with single underscores between them.\<close>

fun digits_int :: "string \<Rightarrow> int \<Rightarrow> bool \<Rightarrow> int option" where
  "digits_int [] n digit = (if digit then Some n else None)"
| "digits_int (c # s) n digit = (if is_digit c then digits_int s (10 * n + int (digit_value c)) True
     else if c = CHR ''_'' \<and> digit then digits_int s n False else None)"

definition text_int :: "string \<Rightarrow> int option" where
  "text_int s = (case strip s of
       [] \<Rightarrow> None
     | c # t \<Rightarrow> if c = CHR ''-'' then map_option uminus (digits_int t 0 False)
         else if c = CHR ''+'' then digits_int t 0 False else digits_int (c # t) 0 False)"

text \<open>\<open>str.lower\<close>. No letter outside ASCII becomes a letter of the words the parsers compare with.\<close>

definition str_lower :: "string \<Rightarrow> string" where
  "str_lower s = map (\<lambda>c. let n = of_char c :: nat in if 65 \<le> n \<and> n \<le> 90 then char_of (n + 32) else c) s"

section \<open>Sampling overrides\<close>

text \<open>The value of an override; the body it is put into is a JSON object, so the integer keys of a bias become texts.\<close>

datatype override_value = OverInt int | OverFloat string | OverBool bool | OverBias "(int \<times> string) list"

record sampling_override =
  sv_field :: string
  sv_value :: override_value
  sv_force :: bool

definition supported_override_fields :: "string list" where
  "supported_override_fields = [''temperature'', ''top_p'', ''top_k'', ''min_p'', ''repetition_penalty'', ''frequency_penalty'',
     ''presence_penalty'', ''repetition_penalty_range'', ''repetition_decay'', ''temperature_last'', ''adaptive_target'', ''adaptive_decay'',
     ''logit_bias'']"

definition mk_sampling_override :: "sampling_override \<Rightarrow> sampling_override res" where
  "mk_sampling_override o1 = raise_if (sv_field o1 \<notin> set supported_override_fields) (ValueError ''unsupported sampling override field'') (Inr o1)"

type_synonym override_policy = "sampling_override list"

definition mk_override_policy :: "override_policy \<Rightarrow> override_policy res" where
  "mk_override_policy os = raise_if (\<not> distinct (map sv_field os)) (ValueError ''duplicate sampling override field'') (Inr os)"

definition policy_enabled :: "override_policy \<Rightarrow> bool" where
  "policy_enabled os \<longleftrightarrow> os \<noteq> []"

section \<open>Serving requests\<close>

datatype mid_system_policy = LEGACY_UNSPECIFIED | MID_STRICT | MID_BEST_EFFORT

record serving_request =
  sq_input :: canonical_request
  sq_reasoning :: reasoning_policy
  sq_tools :: tool_policy
  sq_max_output_tokens :: "int option"
  sq_structured_output :: "structured_spec option"
  sq_seed :: "int option"
  sq_sampling :: "sampling_config option"
  sq_stop_conditions :: "stop_condition list"
  sq_reasoning_budget :: reasoning_budget_override
  sq_mid_system_policy :: mid_system_policy
  sq_visibility :: visibility_mode

definition request_checks :: "int option \<Rightarrow> stop_condition list \<Rightarrow> (bool \<times> exn) list" where
  "request_checks limit stops =
     [(case limit of None \<Rightarrow> False | Some n \<Rightarrow> n \<le> 0, ValueError ''max_output_tokens must be positive or None'')] @ map stop_check stops"

definition mk_serving_request :: "serving_request \<Rightarrow> serving_request res" where
  "mk_serving_request q = checked (request_checks (sq_max_output_tokens q) (sq_stop_conditions q)) q"

record raw_serving_request =
  rw_input :: raw_prompt_request
  rw_max_output_tokens :: "int option"
  rw_stop_conditions :: "stop_condition list"
  rw_seed :: "int option"
  rw_sampling :: "sampling_config option"

definition mk_raw_serving_request :: "raw_serving_request \<Rightarrow> raw_serving_request res" where
  "mk_raw_serving_request q = checked (request_checks (rw_max_output_tokens q) (rw_stop_conditions q)) q"

definition inherit_budget :: reasoning_budget_override where
  "inherit_budget = \<lparr>rb_mode = BUDGET_INHERIT, rb_max_tokens = None, rb_message = None\<rparr>"

section \<open>Parts every protocol parses alike\<close>

text \<open>\<open>JsonSchema(json.dumps(value, ensure_ascii=False, separators=(",", ":")))\<close>\<close>

definition schema_of_json :: "validator \<Rightarrow> json \<Rightarrow> string res" where
  "schema_of_json V v = mk_json_schema V (dumps False v)"

text \<open>A declared function whose parts have been read: strictness is checked before the tool is built.\<close>

definition build_tool :: "validator \<Rightarrow> 'e \<Rightarrow> 'e \<Rightarrow> string \<Rightarrow> string option \<Rightarrow> string \<Rightarrow> bool \<Rightarrow> 'e failure + function_tool" where
  "build_tool V not_strict invalid name description schema strict =
     sum_bind (if strict then construct_or not_strict (validate_strict_function_schema V schema) else Inr ()) (\<lambda>u.
       construct_or invalid (mk_function_tool \<lparr>ft_name = name, ft_description = description, ft_parameters = schema, ft_strict = strict\<rparr>))"

end
