(* ===== verification/OpenAI_Requests.thy ===== *)
theory OpenAI_Requests
  imports Request_Values OpenAI_Answers
begin

text \<open>
  The request parsers of the OpenAI protocols: what they share (\<open>src/exqserve/protocol/openai/common.py\<close>), Chat
  Completions (\<open>chat_request.py\<close>), Responses (\<open>responses_request.py\<close>) and the legacy Completions with their answers
  (\<open>completions.py\<close>). A parser goes through the body in the order of the code, since the first error wins.
\<close>

type_synonym 'a parse = "openai_error failure + 'a"

text \<open>The validator of schemas and the value of a float.\<close>

record request_env =
  qe_validator :: validator
  qe_float :: float_value

definition invalid_request :: "string \<Rightarrow> string \<Rightarrow> string option \<Rightarrow> openai_error" where
  "invalid_request code message param = \<lparr>oe_status_code = 400, oe_type = ''invalid_request_error'', oe_code = code, oe_message = message,
     oe_param = param, oe_exqserve_cause = None\<rparr>"

definition reject :: "string \<Rightarrow> string \<Rightarrow> string option \<Rightarrow> 'a parse" where
  "reject code message param = Inl (Rejected (invalid_request code message param))"

definition at_index :: "string \<Rightarrow> nat \<Rightarrow> string" where
  "at_index param i = param @ ''['' @ dec_digits i @ '']''"

definition as_object :: "string \<Rightarrow> string \<Rightarrow> json \<Rightarrow> json_dict parse" where
  "as_object code param v = (case v of JObj d \<Rightarrow> Inr d | _ \<Rightarrow> reject code (param @ '' must be an object.'') (Some param))"

text \<open>\<open>isinstance(v, str) and v.strip()\<close>\<close>

definition text_value :: "json \<Rightarrow> string option" where
  "text_value v = (case v of JStr s \<Rightarrow> Some s | _ \<Rightarrow> None)"

definition nonblank_text :: "json \<Rightarrow> string option" where
  "nonblank_text v = (case v of JStr s \<Rightarrow> if blank s then None else Some s | _ \<Rightarrow> None)"

section \<open>Reasoning, sampling, stop strings\<close>

definition budget_aliases :: "string list" where
  "budget_aliases = [''reasoning_budget_tokens'', ''thinking_token_budget'']"

definition budget_value :: "string \<times> json \<Rightarrow> int parse" where
  "budget_value nv = (case snd nv of
       JInt n \<Rightarrow> if n < -1 then reject ''invalid_reasoning_budget'' (fst nv @ '' must be -1 or a non-negative integer.'') (Some (fst nv))
         else Inr n
     | _ \<Rightarrow> reject ''invalid_reasoning_budget'' (fst nv @ '' must be an integer.'') (Some (fst nv)))"

definition parse_reasoning_budget :: "json_dict \<Rightarrow> reasoning_budget_override parse" where
  "parse_reasoning_budget body =
     (let supplied = concat (map (\<lambda>n. case map_of body n of None \<Rightarrow> [] | Some v \<Rightarrow> [(n, v)]) budget_aliases);
          raw = map_of body ''reasoning_budget_message''; text = (case raw of None \<Rightarrow> None | Some v \<Rightarrow> text_value v);
          name = ''reasoning_budget_message'' in
      if raw \<noteq> None \<and> text = None then reject ''invalid_reasoning_budget_message'' ''reasoning_budget_message must be a string.'' (Some name)
      else if supplied = [] then
        (if raw \<noteq> None then reject ''reasoning_budget_message_requires_budget''
             ''reasoning_budget_message requires an explicit reasoning budget.'' (Some name)
         else construct (mk_reasoning_budget_override inherit_budget))
      else sum_bind (each (\<lambda>i. budget_value) 0 supplied) (\<lambda>values.
        if card (set values) \<noteq> 1 then reject ''conflicting_reasoning_budget''
            ''Reasoning budget aliases must not contain conflicting values.'' (Some (fst (last supplied)))
        else if hd values = -1 then
          (if raw \<noteq> None then reject ''reasoning_budget_message_with_disabled_budget''
               ''reasoning_budget_message cannot be used when the reasoning budget is disabled.'' (Some name)
           else construct (mk_reasoning_budget_override \<lparr>rb_mode = BUDGET_DISABLE, rb_max_tokens = None, rb_message = None\<rparr>))
        else construct (mk_reasoning_budget_override \<lparr>rb_mode = BUDGET_EXPLICIT, rb_max_tokens = Some (hd values), rb_message = text\<rparr>)))"

definition effort_map :: "(string \<times> reasoning_effort) list" where
  "effort_map = [(''low'', EFFORT_LOW), (''medium'', EFFORT_MEDIUM), (''high'', EFFORT_HIGH), (''xhigh'', EFFORT_XHIGH),
     (''max'', EFFORT_MAXIMUM), (''maximum'', EFFORT_MAXIMUM)]"

definition parse_reasoning_effort :: "string \<Rightarrow> json \<Rightarrow> reasoning_policy parse" where
  "parse_reasoning_effort param v = (case v of
       JNull \<Rightarrow> Inr \<lparr>rp_mode = REASONING_DEFAULT, rp_effort = None\<rparr>
     | JStr s \<Rightarrow> (let normalized = str_lower s in
         if normalized = ''none'' \<or> normalized = ''disabled'' then Inr \<lparr>rp_mode = REASONING_DISABLED, rp_effort = None\<rparr>
         else (case map_of effort_map normalized of
             None \<Rightarrow> reject ''invalid_reasoning_effort'' ''Unsupported reasoning effort.'' (Some param)
           | Some e \<Rightarrow> Inr \<lparr>rp_mode = REASONING_ENABLED, rp_effort = Some e\<rparr>))
     | _ \<Rightarrow> reject ''invalid_reasoning_effort'' ''Reasoning effort must be a string.'' (Some param))"

text \<open>The readers below raise \<open>TypeError\<close> and \<open>ValueError\<close>; \<open>parse_sampling\<close> turns these into its own error.\<close>

fun logit_bias_entries :: "float_value \<Rightarrow> (string \<times> json) list \<Rightarrow> int list \<Rightarrow> (int \<times> rat) list res" where
  "logit_bias_entries fv [] seen = Inr []"
| "logit_bias_entries fv ((k, v) # d) seen = (case text_int k of
       None \<Rightarrow> Inl (ValueError ''logit_bias token ids must be decimal integers'')
     | Some i \<Rightarrow>
         raise_if (i < 0 \<or> i \<in> set seen) (ValueError ''logit_bias token ids must be unique and non-negative'')
        (sum_bind (finite_number fv v) (\<lambda>b.
         raise_if (\<not> (-100 \<le> b \<and> b \<le> 100)) (ValueError ''logit_bias values must be between -100 and 100'')
        (sum_bind (logit_bias_entries fv d (seen @ [i])) (\<lambda>bs. Inr ((i, b) # bs))))))"

definition parse_logit_bias :: "float_value \<Rightarrow> json \<Rightarrow> (int \<times> rat) list res" where
  "parse_logit_bias fv v = (case v of
       JNull \<Rightarrow> Inr [] | JObj d \<Rightarrow> logit_bias_entries fv d [] | _ \<Rightarrow> Inl (TypeError ''logit_bias must be an object''))"

fun token_ids :: "json list \<Rightarrow> int list \<Rightarrow> int list res" where
  "token_ids [] seen = Inr []"
| "token_ids (v # vs) seen = sum_bind (integer_value v) (\<lambda>i.
     raise_if (i < 0 \<or> i \<in> set seen) (ValueError ''entries must be unique and non-negative'')
    (sum_bind (token_ids vs (seen @ [i])) (\<lambda>is. Inr (i # is))))"

definition parse_token_id_extension :: "bool \<Rightarrow> json \<Rightarrow> int list option res" where
  "parse_token_id_extension allow_none v = (case v of
       JNull \<Rightarrow> Inr (if allow_none then None else Some [])
     | JArr vs \<Rightarrow> sum_bind (token_ids vs []) (\<lambda>is. Inr (Some is))
     | _ \<Rightarrow> Inl (TypeError ''must be a list of token ids''))"

definition nonempty_texts :: "json list \<Rightarrow> string list option" where
  "nonempty_texts vs = those (map (\<lambda>v. case v of JStr s \<Rightarrow> if s = [] then None else Some s | _ \<Rightarrow> None) vs)"

definition parse_string_list_extension :: "json \<Rightarrow> string list res" where
  "parse_string_list_extension v = (case v of
       JNull \<Rightarrow> Inr []
     | JArr vs \<Rightarrow> (case nonempty_texts vs of
           None \<Rightarrow> Inl (ValueError ''entries must be non-empty strings'')
         | Some ss \<Rightarrow> raise_if (\<not> distinct ss) (ValueError ''entries must be unique'') (Inr ss))
     | _ \<Rightarrow> Inl (TypeError ''must be a list of strings''))"

definition parse_penalty_range :: "json \<Rightarrow> int res" where
  "parse_penalty_range v = sum_bind (integer_value v) (\<lambda>n.
     raise_if (n < -1) (ValueError ''penalty_range must be -1 or non-negative'') (Inr (if n = -1 then 100000000 else n)))"

definition parse_stop :: "json \<Rightarrow> stop_condition list parse" where
  "parse_stop v = (case v of
       JNull \<Rightarrow> Inr []
     | JStr s \<Rightarrow> if s = [] then reject ''invalid_stop'' ''stop strings must not be empty.'' (Some ''stop'') else Inr [StopText s]
     | JArr vs \<Rightarrow> (case nonempty_texts vs of
           Some ss \<Rightarrow> if 1 \<le> length vs \<and> length vs \<le> 4 then Inr (map StopText ss)
             else reject ''invalid_stop'' ''stop must contain between one and four non-empty strings.'' (Some ''stop'')
         | None \<Rightarrow> reject ''invalid_stop'' ''stop must contain between one and four non-empty strings.'' (Some ''stop''))
     | _ \<Rightarrow> reject ''invalid_stop'' ''stop must be a string or a list of up to four strings.'' (Some ''stop''))"

definition override_body_field :: "string \<Rightarrow> string" where
  "override_body_field f = (if f = ''repetition_penalty_range'' then ''penalty_range'' else f)"

definition override_json :: "override_value \<Rightarrow> json" where
  "override_json v = (case v of OverInt n \<Rightarrow> JInt n | OverFloat t \<Rightarrow> JFloat t | OverBool b \<Rightarrow> JBool b
     | OverBias ds \<Rightarrow> JObj (map (\<lambda>(i, t). (show_int i, JFloat t)) ds))"

definition apply_sampling_overrides :: "json_dict \<Rightarrow> override_policy option \<Rightarrow> json_dict" where
  "apply_sampling_overrides body policy = (case policy of None \<Rightarrow> body | Some os \<Rightarrow>
     fold (\<lambda>x effective. let f = override_body_field (sv_field x) in
       if sv_force x \<or> map_of body f = None then AList.update f (override_json (sv_value x)) effective else effective) os body)"

definition sampler_names :: "string list" where
  "sampler_names = [''temperature'', ''top_p'', ''top_k'', ''min_p'', ''repetition_penalty'', ''frequency_penalty'', ''presence_penalty'',
     ''penalty_range'', ''repetition_decay'', ''temperature_last'', ''adaptive_target'', ''adaptive_decay'', ''logit_bias'',
     ''dry_multiplier'', ''dry_base'', ''dry_allowed_length'', ''dry_range'', ''dry_sequence_breaker_ids'', ''blocked_tokens'']"

text \<open>A field of the body, with the constructor's default when it is missing.\<close>

definition field_or :: "json_dict \<Rightarrow> string \<Rightarrow> (json \<Rightarrow> 'a res) \<Rightarrow> 'a \<Rightarrow> 'a res" where
  "field_or body name read d = (case map_of body name of None \<Rightarrow> Inr d | Some v \<Rightarrow> read v)"

text \<open>The keyword arguments that are parsed are evaluated first, then \<open>__post_init__\<close> checks the ten numbers in its
  order, then the rest. 0.9 is the double next to nine tenths.\<close>

definition sampling_arguments :: "float_value \<Rightarrow> json_dict \<Rightarrow> bool \<Rightarrow> sampling_config res" where
  "sampling_arguments fv body requested =
     sum_bind (parse_penalty_range (get_default body ''penalty_range'' (JInt (-1)))) (\<lambda>range.
     sum_bind (parse_logit_bias fv (json_get body ''logit_bias'')) (\<lambda>bias.
     sum_bind (parse_token_id_extension True (json_get body ''dry_sequence_breaker_ids'')) (\<lambda>breakers.
     sum_bind (parse_token_id_extension False (json_get body ''blocked_tokens'')) (\<lambda>blocked.
     sum_bind (parse_string_list_extension (json_get body ''banned_strings'')) (\<lambda>banned.
     sum_bind (field_or body ''temperature'' (finite_number fv) 1) (\<lambda>temperature.
     sum_bind (field_or body ''min_p'' (finite_number fv) 0) (\<lambda>min_p.
     sum_bind (field_or body ''top_p'' (finite_number fv) 1) (\<lambda>top_p.
     sum_bind (field_or body ''repetition_penalty'' (finite_number fv) 1) (\<lambda>repetition.
     sum_bind (field_or body ''frequency_penalty'' (finite_number fv) 0) (\<lambda>frequency.
     sum_bind (field_or body ''presence_penalty'' (finite_number fv) 0) (\<lambda>presence.
     sum_bind (field_or body ''adaptive_target'' (finite_number fv) 1) (\<lambda>target.
     sum_bind (field_or body ''adaptive_decay'' (finite_number fv) (8106479329266893 / 9007199254740992)) (\<lambda>decay.
     sum_bind (field_or body ''dry_multiplier'' (finite_number fv) 0) (\<lambda>multiplier.
     sum_bind (field_or body ''dry_base'' (finite_number fv) (7 / 4)) (\<lambda>base.
     sum_bind (field_or body ''temperature_last'' bool_value False) (\<lambda>temperature_last.
     sum_bind (field_or body ''top_k'' integer_value 0) (\<lambda>top_k.
     sum_bind (field_or body ''repetition_decay'' integer_value 0) (\<lambda>repetition_decay.
     sum_bind (field_or body ''dry_allowed_length'' integer_value 2) (\<lambda>allowed.
     sum_bind (field_or body ''dry_range'' integer_value 0) (\<lambda>dry_range.
     sum_bind (field_or body ''token_healing'' bool_value False) (\<lambda>healing.
       mk_sampling_config
         \<lparr>sp_temperature = temperature, sp_min_p = min_p, sp_top_k = top_k, sp_top_p = top_p, sp_repetition_penalty = repetition,
          sp_frequency_penalty = frequency, sp_presence_penalty = presence, sp_temperature_last = temperature_last,
          sp_repetition_penalty_range = range, sp_repetition_decay = repetition_decay, sp_adaptive_target = target,
          sp_adaptive_decay = decay, sp_logit_bias = bias, sp_dry_multiplier = multiplier, sp_dry_base = base,
          sp_dry_allowed_length = allowed, sp_dry_range = dry_range, sp_dry_sequence_breaker_ids = breakers,
          sp_blocked_ids = (case blocked of None \<Rightarrow> [] | Some is \<Rightarrow> is), sp_banned_strings = banned, sp_token_healing = healing,
          sp_sampler_requested = requested\<rparr>)))))))))))))))))))))"

definition parse_sampling :: "request_env \<Rightarrow> json_dict \<Rightarrow> override_policy option \<Rightarrow> sampling_config option parse" where
  "parse_sampling E body0 policy =
     (let body = apply_sampling_overrides body0 policy; requested = list_ex (\<lambda>n. map_of body n \<noteq> None) sampler_names in
      if \<not> requested \<and> \<not> list_ex (\<lambda>n. map_of body n \<noteq> None) [''banned_strings'', ''token_healing''] then Inr None
      else sum_bind (construct_or (invalid_request ''invalid_sampling'' ''Sampling parameters are invalid.'' None)
             (sampling_arguments (qe_float E) body requested)) (\<lambda>c. Inr (Some c)))"

section \<open>Chat Completions: messages\<close>

text \<open>\<open>"".join\<close> over the parts of a content, each read in turn.\<close>

definition joined :: "string list parse \<Rightarrow> string parse" where
  "joined r = sum_bind r (\<lambda>ts. Inr (concat ts))"

definition chat_text_part :: "string \<Rightarrow> nat \<Rightarrow> json \<Rightarrow> string parse" where
  "chat_text_part param i raw = sum_bind (as_object ''invalid_message_content'' (at_index param i) raw) (\<lambda>part.
     if json_get part ''type'' \<noteq> JStr ''text''
     then reject ''unsupported_content_part'' ''Only text content is supported for this message role.'' (Some (at_index param i @ ''.type''))
     else (case text_value (json_get part ''text'') of Some t \<Rightarrow> Inr t
       | None \<Rightarrow> reject ''invalid_message_content'' ''Text content part must contain a string.'' (Some (at_index param i @ ''.text''))))"

definition chat_text_content :: "string \<Rightarrow> json \<Rightarrow> string parse" where
  "chat_text_content param v = (case v of
       JStr s \<Rightarrow> Inr s
     | JArr vs \<Rightarrow> joined (each (chat_text_part param) 0 vs)
     | _ \<Rightarrow> reject ''invalid_message_content'' ''Message content must be text.'' (Some param))"

text \<open>The content of a user: text, or parts with an image among them.\<close>

datatype user_content = PlainText string | ContentParts "content_part list"

fun part_text :: "content_part \<Rightarrow> string" where
  "part_text (TextContentPart t) = t"
| "part_text (ImageContentPart p) = []"

definition gather_parts :: "content_part list \<Rightarrow> user_content" where
  "gather_parts ps = (if list_ex is_image_part ps then ContentParts ps else PlainText (concat (map part_text ps)))"

definition image_details :: "string list" where
  "image_details = [''auto'', ''low'', ''high'']"

definition chat_user_part :: "string \<Rightarrow> nat \<Rightarrow> json \<Rightarrow> content_part parse" where
  "chat_user_part param i raw = (let p = at_index param i in
     sum_bind (as_object ''invalid_message_content'' p raw) (\<lambda>part.
       if json_get part ''type'' = JStr ''text'' then
         (case text_value (json_get part ''text'') of Some t \<Rightarrow> Inr (TextContentPart t)
          | None \<Rightarrow> reject ''invalid_message_content'' ''Text content part must contain a string.'' (Some (p @ ''.text'')))
       else if json_get part ''type'' = JStr ''image_url'' then
         (case json_get part ''image_url'' of
            JObj picture \<Rightarrow> (case nonblank_text (json_get picture ''url'') of
                None \<Rightarrow> reject ''invalid_image_url'' ''image_url.url must be a non-empty string.'' (Some (p @ ''.image_url.url''))
              | Some source \<Rightarrow> (let detail = json_get picture ''detail'' in
                  if detail \<noteq> JNull \<and> detail \<notin> JStr ` set image_details
                  then reject ''invalid_image_detail'' ''image_url.detail must be auto, low, or high.'' (Some (p @ ''.image_url.detail''))
                  else sum_bind (construct (mk_image_content_part source (text_value detail))) (\<lambda>x. Inr (ImageContentPart x))))
          | _ \<Rightarrow> reject ''invalid_image_url'' ''image_url content part must contain an image_url object.'' (Some (p @ ''.image_url'')))
       else reject ''unsupported_content_part'' ''Only text and image_url user content parts are supported.'' (Some (p @ ''.type''))))"

definition chat_user_content :: "string \<Rightarrow> json \<Rightarrow> user_content parse" where
  "chat_user_content param v = (case v of
       JStr s \<Rightarrow> Inr (PlainText s)
     | JArr (x # xs) \<Rightarrow> sum_bind (each (chat_user_part param) 0 (x # xs)) (\<lambda>ps. Inr (gather_parts ps))
     | _ \<Rightarrow> reject ''invalid_message_content'' ''User message content must be text or a non-empty content-part array.'' (Some param))"

definition user_item :: "user_content \<Rightarrow> canonical_item parse" where
  "user_item c = (case c of
       PlainText t \<Rightarrow> Inr (MessageItem \<lparr>mi_role = USER, mi_text = t\<rparr>)
     | ContentParts ps \<Rightarrow> sum_bind (construct (mk_multimodal_message_item USER ps)) (\<lambda>x. Inr (MultimodalMessageItem x)))"

definition malformed_call :: "'a parse" where
  "malformed_call = reject ''invalid_tool_calls'' ''Function tool call is malformed.'' (Some ''messages'')"

definition assistant_tool_call :: "nat \<Rightarrow> nat \<Rightarrow> json \<Rightarrow> canonical_item parse" where
  "assistant_tool_call m i raw = (let p = at_index (at_index ''messages'' m @ ''.tool_calls'') i in
     sum_bind (as_object ''invalid_tool_calls'' p raw) (\<lambda>call.
       if json_get call ''type'' \<noteq> JStr ''function''
       then reject ''unsupported_tool_type'' ''Only function tool calls are supported in V1.'' (Some (p @ ''.type''))
       else (case nonblank_text (json_get call ''id'') of
           None \<Rightarrow> malformed_call
         | Some cid \<Rightarrow> (case json_get call ''function'' of
             JObj function \<Rightarrow> (case nonblank_text (json_get function ''name'') of
                 None \<Rightarrow> malformed_call
               | Some name \<Rightarrow> (case text_value (json_get function ''arguments'') of
                   None \<Rightarrow> malformed_call
                 | Some arguments \<Rightarrow> sum_bind (construct (mk_tool_call_item cid name arguments (int i))) (\<lambda>x. Inr (ToolCallItem x))))
           | _ \<Rightarrow> malformed_call))))"

definition assistant_tool_calls :: "nat \<Rightarrow> json \<Rightarrow> canonical_item list parse" where
  "assistant_tool_calls m v = (case v of
       JNull \<Rightarrow> Inr []
     | JArr vs \<Rightarrow> each (assistant_tool_call m) 0 vs
     | _ \<Rightarrow> reject ''invalid_tool_calls'' ''tool_calls must be an array.'' (Some ''messages''))"

definition assistant_message :: "nat \<Rightarrow> json_dict \<Rightarrow> canonical_item list parse" where
  "assistant_message i m = (let p = at_index ''messages'' i in
     if map_of m ''function_call'' \<noteq> None
     then reject ''unsupported_function_call'' ''Deprecated function_call messages are not supported in V1.'' (Some (p @ ''.function_call''))
     else sum_bind (case json_get m ''reasoning_content'' of
           JNull \<Rightarrow> Inr []
         | JStr t \<Rightarrow> Inr [ReasoningItem \<lparr>ri_text = t, starts_new_assistant_segment = False\<rparr>]
         | _ \<Rightarrow> reject ''invalid_reasoning_content'' ''reasoning_content must be a string.'' (Some (p @ ''.reasoning_content''))) (\<lambda>reasoning.
       sum_bind (case json_get m ''content'' of
           JNull \<Rightarrow> Inr []
         | v \<Rightarrow> sum_bind (chat_text_content (p @ ''.content'') v) (\<lambda>t. Inr [MessageItem \<lparr>mi_role = ASSISTANT, mi_text = t\<rparr>])) (\<lambda>content.
       sum_bind (assistant_tool_calls i (json_get m ''tool_calls'')) (\<lambda>calls. Inr (reasoning @ content @ calls)))))"

definition tool_message :: "nat \<Rightarrow> json_dict \<Rightarrow> canonical_item list parse" where
  "tool_message i m = (let p = at_index ''messages'' i in
     case nonblank_text (json_get m ''tool_call_id'') of
       None \<Rightarrow> reject ''invalid_tool_result'' ''Tool message requires tool_call_id.'' (Some (p @ ''.tool_call_id''))
     | Some cid \<Rightarrow> sum_bind (chat_text_content (p @ ''.content'') (json_get m ''content'')) (\<lambda>t.
         sum_bind (construct (mk_tool_result_item cid t False)) (\<lambda>x. Inr [ToolResultItem x])))"

definition chat_message :: "nat \<Rightarrow> json \<Rightarrow> canonical_item list parse" where
  "chat_message i raw = (let p = at_index ''messages'' i in
     sum_bind (as_object ''invalid_messages'' p raw) (\<lambda>m.
       let role = json_get m ''role'' in
       if role = JStr ''system'' \<or> role = JStr ''developer''
       then sum_bind (chat_text_content (p @ ''.content'') (json_get m ''content'')) (\<lambda>t.
         Inr [MessageItem \<lparr>mi_role = (if role = JStr ''system'' then SYSTEM else DEVELOPER), mi_text = t\<rparr>])
       else if role = JStr ''user''
       then sum_bind (chat_user_content (p @ ''.content'') (json_get m ''content'')) (\<lambda>c. sum_bind (user_item c) (\<lambda>x. Inr [x]))
       else if role = JStr ''assistant'' then assistant_message i m
       else if role = JStr ''tool'' then tool_message i m
       else reject ''unsupported_message_role'' ''Unsupported Chat message role.'' (Some (p @ ''.role''))))"

definition parse_messages :: "json \<Rightarrow> canonical_item list parse" where
  "parse_messages v = (case v of
       JArr (x # xs) \<Rightarrow> sum_bind (each chat_message 0 (x # xs)) (\<lambda>iss. Inr (concat iss))
     | _ \<Rightarrow> reject ''invalid_messages'' ''messages must be a non-empty array.'' (Some ''messages''))"

section \<open>Chat Completions: tools and the rest of the body\<close>

definition schema_from_object :: "request_env \<Rightarrow> string \<Rightarrow> json \<Rightarrow> string parse" where
  "schema_from_object E param v = (case v of
       JObj d \<Rightarrow> construct_or (invalid_request ''invalid_json_schema'' ''JSON Schema is invalid.'' (Some param)) (schema_of_json (qe_validator E) v)
     | _ \<Rightarrow> reject ''invalid_json_schema'' ''JSON Schema must be an object.'' (Some param))"

text \<open>The members of a function declaration, for both protocols: \<open>p\<close> is where its own members are, \<open>q\<close> where the tool is.\<close>

definition function_declaration :: "request_env \<Rightarrow> string \<Rightarrow> string \<Rightarrow> json_dict \<Rightarrow> function_tool parse" where
  "function_declaration E p q d =
     (let description = json_get d ''description''; strict = get_default d ''strict'' (JBool False) in
      case nonblank_text (json_get d ''name'') of
        None \<Rightarrow> reject ''invalid_tools'' ''Function tool name is required.'' (Some (p @ ''.name''))
      | Some name \<Rightarrow>
          if description \<noteq> JNull \<and> text_value description = None
          then reject ''invalid_tools'' ''Function description must be text.'' (Some (p @ ''.description''))
          else (case strict of
              JBool b \<Rightarrow> sum_bind (schema_from_object E (p @ ''.parameters'')
                    (get_default d ''parameters'' (JObj [(''type'', JStr ''object''), (''properties'', JObj [])]))) (\<lambda>schema.
                  build_tool (qe_validator E) (invalid_request ''invalid_json_schema'' ''Strict function schema is invalid'' (Some (p @ ''.parameters'')))
                    (invalid_request ''invalid_tools'' ''Function tool declaration is invalid.'' (Some q))
                    name (text_value description) schema b)
            | _ \<Rightarrow> reject ''invalid_tools'' ''Function strict must be boolean.'' (Some (p @ ''.strict''))))"

definition chat_tool :: "request_env \<Rightarrow> nat \<Rightarrow> json \<Rightarrow> function_tool parse" where
  "chat_tool E i raw = (let q = at_index ''tools'' i in
     sum_bind (as_object ''invalid_tools'' q raw) (\<lambda>tool.
       if json_get tool ''type'' \<noteq> JStr ''function''
       then reject ''unsupported_tool_type'' ''Only function tools are supported in V1.'' (Some (q @ ''.type''))
       else (case json_get tool ''function'' of
           JObj function \<Rightarrow> function_declaration E (q @ ''.function'') q function
         | _ \<Rightarrow> reject ''invalid_tools'' ''Function tool declaration is malformed.'' (Some q))))"

definition parse_tool_list :: "(nat \<Rightarrow> json \<Rightarrow> function_tool parse) \<Rightarrow> json \<Rightarrow> function_tool list parse" where
  "parse_tool_list read v = (case v of
       JNull \<Rightarrow> Inr []
     | JArr vs \<Rightarrow> each read 0 vs
     | _ \<Rightarrow> reject ''invalid_tools'' ''tools must be an array.'' (Some ''tools''))"

definition choice_modes :: "(string \<times> tool_choice_mode) list" where
  "choice_modes = [(''none'', MODE_NONE), (''auto'', MODE_AUTO), (''required'', MODE_REQUIRED)]"

definition bad_choice :: "'a parse" where
  "bad_choice = reject ''invalid_tool_choice'' ''Unsupported tool_choice.'' (Some ''tool_choice'')"

text \<open>\<open>named\<close> finds the name in a choice of type function: \<open>ToolChoice\<close> itself is built outside any \<open>try\<close>.\<close>

definition parse_choice :: "(json_dict \<Rightarrow> json) \<Rightarrow> json \<Rightarrow> tool_choice parse" where
  "parse_choice named v = (case v of
       JNull \<Rightarrow> construct (mk_tool_choice \<lparr>tc_mode = MODE_AUTO, tc_name = None\<rparr>)
     | JStr s \<Rightarrow> (case map_of choice_modes s of None \<Rightarrow> bad_choice | Some m \<Rightarrow> construct (mk_tool_choice \<lparr>tc_mode = m, tc_name = None\<rparr>))
     | JObj d \<Rightarrow> (if json_get d ''type'' = JStr ''function'' then (case named d of
           JStr n \<Rightarrow> construct (mk_tool_choice \<lparr>tc_mode = MODE_NAMED, tc_name = Some n\<rparr>) | _ \<Rightarrow> bad_choice) else bad_choice)
     | _ \<Rightarrow> bad_choice)"

definition chat_choice_name :: "json_dict \<Rightarrow> json" where
  "chat_choice_name d = (case json_get d ''function'' of JObj f \<Rightarrow> json_get f ''name'' | _ \<Rightarrow> JNull)"

definition parse_tool_policy ::
  "(nat \<Rightarrow> json \<Rightarrow> function_tool parse) \<Rightarrow> (json_dict \<Rightarrow> json) \<Rightarrow> json_dict \<Rightarrow> tool_policy parse" where
  "parse_tool_policy read named body =
     sum_bind (parse_tool_list read (json_get body ''tools'')) (\<lambda>tools.
     sum_bind (parse_choice named (json_get body ''tool_choice'')) (\<lambda>choice.
       case get_default body ''parallel_tool_calls'' (JBool True) of
         JBool parallel \<Rightarrow> construct_or (invalid_request ''invalid_tool_choice'' ''tool_choice is incompatible with declared tools.'' (Some ''tool_choice''))
           (mk_tool_policy \<lparr>tp_tools = tools, tp_choice = choice, tp_parallel = parallel\<rparr>)
       | _ \<Rightarrow> reject ''invalid_parallel_tool_calls'' ''parallel_tool_calls must be boolean.'' (Some ''parallel_tool_calls'')))"

definition chat_output_limit :: "request_env \<Rightarrow> int option \<Rightarrow> json_dict \<Rightarrow> int option parse" where
  "chat_output_limit E limit0 body =
     (let modern = json_get body ''max_completion_tokens''; legacy = json_get body ''max_tokens'' in
      if modern \<noteq> JNull \<and> legacy \<noteq> JNull \<and> not_equal (qe_float E) modern legacy
      then reject ''conflicting_max_tokens'' ''max_completion_tokens and max_tokens must match when both are supplied.'' None
      else (case (if modern \<noteq> JNull then modern else legacy) of
          JNull \<Rightarrow> (case limit0 of
              None \<Rightarrow> Inr None
            | Some n \<Rightarrow> if n \<le> 0 then reject ''invalid_max_tokens'' ''A positive output token limit is required.'' None else Inr (Some n))
        | JInt n \<Rightarrow> if n \<le> 0 then reject ''invalid_max_tokens'' ''A positive output token limit is required.'' None else Inr (Some n)
        | _ \<Rightarrow> reject ''invalid_max_tokens'' ''A positive output token limit is required.'' None))"

definition spec_of :: "generation_guarantee \<Rightarrow> string \<Rightarrow> structured_spec option parse" where
  "spec_of g schema = sum_bind (construct (mk_structured_spec \<lparr>so_schema = schema, so_requested = g,
     so_fallback = (if g = GNone then ALLOW_VALIDATION_ONLY else FAIL_CLOSED)\<rparr>)) (\<lambda>s. Inr (Some s))"

text \<open>The format of the answer: \<open>schema_at\<close> finds the definition of a \<open>json_schema\<close> format, \<open>p\<close> says where it is.\<close>

definition parse_format :: "request_env \<Rightarrow> string \<Rightarrow> string \<Rightarrow> string \<Rightarrow> json_dict \<Rightarrow> structured_spec option parse" where
  "parse_format E code message p definition1 = (case get_default definition1 ''strict'' (JBool False) of
       JBool strict \<Rightarrow> sum_bind (schema_from_object E (p @ ''.schema'') (json_get definition1 ''schema''))
         (spec_of (if strict then GSchema else GNone))
     | _ \<Rightarrow> reject code message (Some (p @ ''.strict'')))"

definition json_object_schema :: json where
  "json_object_schema = JObj [(''type'', JStr ''object'')]"

definition chat_structured_output :: "request_env \<Rightarrow> json \<Rightarrow> structured_spec option parse" where
  "chat_structured_output E v = (case v of JNull \<Rightarrow> Inr None | _ \<Rightarrow>
     sum_bind (as_object ''invalid_response_format'' ''response_format'' v) (\<lambda>format.
       let ty = json_get format ''type'' in
       if ty = JStr ''text'' then Inr None
       else if ty = JStr ''json_object'' then sum_bind (schema_from_object E ''response_format'' json_object_schema) (spec_of GFormat)
       else if ty = JStr ''json_schema'' then (case json_get format ''json_schema'' of
           JObj definition1 \<Rightarrow> parse_format E ''invalid_response_format'' ''response_format.json_schema.strict must be boolean.''
             ''response_format.json_schema'' definition1
         | _ \<Rightarrow> reject ''invalid_response_format'' ''json_schema definition is required.'' (Some ''response_format.json_schema''))
       else reject ''invalid_response_format'' ''Unsupported response_format.'' (Some ''response_format.type'')))"

definition parse_seed :: "json_dict \<Rightarrow> int option parse" where
  "parse_seed body = (case json_get body ''seed'' of JNull \<Rightarrow> Inr None | JInt n \<Rightarrow> Inr (Some n)
     | _ \<Rightarrow> reject ''invalid_seed'' ''seed must be an integer.'' (Some ''seed''))"

definition parse_flag :: "json_dict \<Rightarrow> string \<Rightarrow> bool parse" where
  "parse_flag body name = (case get_default body name (JBool False) of JBool b \<Rightarrow> Inr b
     | _ \<Rightarrow> reject (''invalid_'' @ name) (name @ '' must be boolean.'') (Some name))"

definition parse_include_usage :: "json_dict \<Rightarrow> bool parse" where
  "parse_include_usage body = (case json_get body ''stream_options'' of JNull \<Rightarrow> Inr False | v \<Rightarrow>
     sum_bind (as_object ''invalid_stream_options'' ''stream_options'' v) (\<lambda>options.
       case get_default options ''include_usage'' (JBool False) of JBool b \<Rightarrow> Inr b
       | _ \<Rightarrow> reject ''invalid_stream_options'' ''stream_options.include_usage must be boolean.'' (Some ''stream_options.include_usage'')))"

definition parse_model :: "json_dict \<Rightarrow> string parse" where
  "parse_model body = (case nonblank_text (json_get body ''model'') of Some m \<Rightarrow> Inr m
     | None \<Rightarrow> reject ''invalid_model'' ''model must be a non-empty string.'' (Some ''model''))"

definition only_one :: "request_env \<Rightarrow> json \<Rightarrow> bool" where
  "only_one E v \<longleftrightarrow> (case v of JBool b \<Rightarrow> False | _ \<Rightarrow> number_value (qe_float E) v = Some 1)"

datatype openai_protocol = PROTOCOL_CHAT | PROTOCOL_RESPONSES

record parsed_openai_request =
  po_serving :: serving_request
  po_model :: string
  po_stream :: bool
  po_protocol :: openai_protocol
  po_include_usage :: bool

definition mk_parsed_openai_request :: "parsed_openai_request \<Rightarrow> parsed_openai_request res" where
  "mk_parsed_openai_request r = raise_if (blank (po_model r)) (ValueError ''model must be a non-empty string'') (Inr r)"

definition visibility_of :: "bool \<Rightarrow> visibility_mode" where
  "visibility_of stream = (if stream then STREAMING else BUFFERED)"

definition parse_chat ::
  "request_env \<Rightarrow> int option \<Rightarrow> override_policy option \<Rightarrow> json_dict \<Rightarrow> string \<Rightarrow> parsed_openai_request parse" where
  "parse_chat E limit0 policy body rid =
     sum_bind (parse_model body) (\<lambda>model.
     if \<not> only_one E (get_default body ''n'' (JInt 1)) then reject ''unsupported_n'' ''Only n=1 is supported in V1.'' (Some ''n'')
     else if json_get body ''logprobs'' \<notin> {JNull, JBool False} then reject ''unsupported_logprobs'' ''logprobs are not supported in V1.'' (Some ''logprobs'')
     else
     sum_bind (parse_messages (json_get body ''messages'')) (\<lambda>items.
     sum_bind (parse_tool_policy (chat_tool E) chat_choice_name body) (\<lambda>tools.
     sum_bind (parse_reasoning_effort ''reasoning_effort'' (json_get body ''reasoning_effort'')) (\<lambda>reasoning.
     sum_bind (parse_reasoning_budget body) (\<lambda>budget.
     sum_bind (chat_output_limit E limit0 body) (\<lambda>limit.
     sum_bind (chat_structured_output E (json_get body ''response_format'')) (\<lambda>structured.
     sum_bind (parse_sampling E body policy) (\<lambda>sampling.
     sum_bind (parse_seed body) (\<lambda>seed.
     sum_bind (parse_flag body ''stream'') (\<lambda>stream.
     sum_bind (parse_include_usage body) (\<lambda>usage.
     sum_bind (construct (mk_canonical_request rid model items)) (\<lambda>input.
     sum_bind (parse_stop (json_get body ''stop'')) (\<lambda>stops.
     sum_bind (construct (mk_serving_request \<lparr>sq_input = input, sq_reasoning = reasoning, sq_tools = tools, sq_max_output_tokens = limit,
         sq_structured_output = structured, sq_seed = seed, sq_sampling = sampling, sq_stop_conditions = stops, sq_reasoning_budget = budget,
         sq_mid_system_policy = LEGACY_UNSPECIFIED, sq_visibility = visibility_of stream\<rparr>)) (\<lambda>serving.
       construct (mk_parsed_openai_request \<lparr>po_serving = serving, po_model = model, po_stream = stream, po_protocol = PROTOCOL_CHAT,
         po_include_usage = usage\<rparr>)))))))))))))))"

end
