(* ===== verification/Responses_Requests.thy ===== *)
theory Responses_Requests
  imports OpenAI_Requests
begin

text \<open>
  The request parser of the Responses protocol, \<open>src/exqserve/protocol/openai/responses_request.py\<close>: the input items
  with the segments of an assistant turn, the options for stored state, and the two adapters \<open>parse\<close> and \<open>parse_count\<close>.
\<close>

section \<open>Content\<close>

definition text_types :: "string list" where
  "text_types = [''text'', ''input_text'', ''output_text'']"

definition response_text_part :: "string \<Rightarrow> nat \<Rightarrow> json \<Rightarrow> string parse" where
  "response_text_part param i raw = (let p = at_index param i in
     sum_bind (as_object ''invalid_input_message'' p raw) (\<lambda>part.
       if json_get part ''type'' \<notin> JStr ` set text_types
       then reject ''unsupported_content_part'' ''Only text content is supported for this message role.'' (Some (p @ ''.type''))
       else (case text_value (json_get part ''text'') of Some t \<Rightarrow> Inr t
         | None \<Rightarrow> reject ''invalid_input_message'' ''Text content part must contain a string.'' (Some (p @ ''.text'')))))"

definition message_text :: "string \<Rightarrow> json \<Rightarrow> string parse" where
  "message_text param v = (case v of
       JStr s \<Rightarrow> Inr s
     | JArr vs \<Rightarrow> joined (each (response_text_part param) 0 vs)
     | _ \<Rightarrow> reject ''invalid_input_message'' ''Message content must be text.'' (Some param))"

text \<open>\<open>_user_message_content\<close> and \<open>_function_output_content\<close> differ in their code and messages only.\<close>

record content_errors =
  ce_code :: string
  ce_empty :: string
  ce_text :: string
  ce_unsupported_code :: string
  ce_unsupported :: string

definition user_content_errors :: content_errors where
  "user_content_errors = \<lparr>ce_code = ''invalid_input_message'',
     ce_empty = ''User message content must be text or a non-empty content-part array.'',
     ce_text = ''Text content part must contain a string.'', ce_unsupported_code = ''unsupported_content_part'',
     ce_unsupported = ''Only text and input_image user content parts are supported.''\<rparr>"

definition output_content_errors :: content_errors where
  "output_content_errors = \<lparr>ce_code = ''unsupported_function_output'',
     ce_empty = ''Function output must be a string or a non-empty text/image content-part array.'',
     ce_text = ''Function-output text content part must contain a string.'', ce_unsupported_code = ''unsupported_function_output'',
     ce_unsupported = ''Only text and input_image function-output content parts are supported.''\<rparr>"

definition response_part :: "content_errors \<Rightarrow> string \<Rightarrow> nat \<Rightarrow> json \<Rightarrow> content_part parse" where
  "response_part X param i raw = (let p = at_index param i in
     sum_bind (as_object (ce_code X) p raw) (\<lambda>part.
       if json_get part ''type'' \<in> JStr ` set text_types then
         (case text_value (json_get part ''text'') of Some t \<Rightarrow> Inr (TextContentPart t)
          | None \<Rightarrow> reject (ce_code X) (ce_text X) (Some (p @ ''.text'')))
       else if json_get part ''type'' = JStr ''input_image'' then
         (case nonblank_text (json_get part ''image_url'') of
            None \<Rightarrow> (if map_of part ''file_id'' \<noteq> None
              then reject ''unsupported_image_file'' ''input_image.file_id is not supported; provide image_url instead.'' (Some (p @ ''.file_id''))
              else reject ''invalid_image_url'' ''input_image.image_url must be a non-empty string.'' (Some (p @ ''.image_url'')))
          | Some source \<Rightarrow> (let detail = json_get part ''detail'' in
              if detail \<noteq> JNull \<and> detail \<notin> JStr ` set image_details
              then reject ''invalid_image_detail'' ''input_image.detail must be auto, low, or high.'' (Some (p @ ''.detail''))
              else sum_bind (construct (mk_image_content_part source (text_value detail))) (\<lambda>x. Inr (ImageContentPart x))))
       else reject (ce_unsupported_code X) (ce_unsupported X) (Some (p @ ''.type''))))"

definition response_content :: "content_errors \<Rightarrow> string \<Rightarrow> json \<Rightarrow> user_content parse" where
  "response_content X param v = (case v of
       JStr s \<Rightarrow> Inr (PlainText s)
     | JArr (x # xs) \<Rightarrow> sum_bind (each (response_part X param) 0 (x # xs)) (\<lambda>ps. Inr (gather_parts ps))
     | _ \<Rightarrow> reject (ce_code X) (ce_empty X) (Some param))"

definition reasoning_part :: "string \<Rightarrow> nat \<Rightarrow> json \<Rightarrow> string parse" where
  "reasoning_part param i raw = (let p = at_index param i in
     sum_bind (as_object ''invalid_reasoning_item'' p raw) (\<lambda>part.
       if json_get part ''type'' \<noteq> JStr ''reasoning_text''
       then reject ''unsupported_content_part'' ''Only reasoning_text content is supported for reasoning history.'' (Some (p @ ''.type''))
       else (case text_value (json_get part ''text'') of Some t \<Rightarrow> Inr t
         | None \<Rightarrow> reject ''invalid_reasoning_item'' ''Reasoning text must be a string.'' (Some (p @ ''.text'')))))"

definition reasoning_text :: "string \<Rightarrow> json \<Rightarrow> string parse" where
  "reasoning_text param v = (case v of
       JArr vs \<Rightarrow> joined (each (reasoning_part param) 0 vs)
     | _ \<Rightarrow> reject ''invalid_reasoning_item'' ''Reasoning content must be an array.'' (Some param))"

section \<open>Input items\<close>

text \<open>The local variables of the loop over the input: the items so far, the index of the next call, and what the current
  segment of the assistant has had.\<close>

record input_state =
  in_items :: "canonical_item list"
  in_call_index :: int
  in_text :: bool
  in_call :: bool

definition new_input :: input_state where
  "new_input = \<lparr>in_items = [], in_call_index = 0, in_text = False, in_call = False\<rparr>"

definition append_item :: "canonical_item \<Rightarrow> input_state \<Rightarrow> input_state" where
  "append_item x s = s\<lparr>in_items := in_items s @ [x]\<rparr>"

definition new_turn :: "canonical_item \<Rightarrow> input_state \<Rightarrow> input_state" where
  "new_turn x s = (append_item x s)\<lparr>in_call_index := 0, in_text := False, in_call := False\<rparr>"

definition response_roles :: "(string \<times> message_role) list" where
  "response_roles = [(''system'', SYSTEM), (''developer'', DEVELOPER), (''user'', USER), (''assistant'', ASSISTANT)]"

definition message_input :: "string \<Rightarrow> json_dict \<Rightarrow> input_state \<Rightarrow> input_state parse" where
  "message_input p item s = (case Option.bind (text_value (json_get item ''role'')) (map_of response_roles) of
       None \<Rightarrow> reject ''unsupported_message_role'' ''Unsupported Responses message role.'' (Some (p @ ''.role''))
     | Some USER \<Rightarrow> sum_bind (response_content user_content_errors (p @ ''.content'') (json_get item ''content'')) (\<lambda>c.
         sum_bind (user_item c) (\<lambda>x. Inr (new_turn x s)))
     | Some role \<Rightarrow> sum_bind (message_text (p @ ''.content'') (json_get item ''content'')) (\<lambda>t.
         let x = MessageItem \<lparr>mi_role = role, mi_text = t\<rparr> in
         Inr (if role = ASSISTANT then (append_item x s)\<lparr>in_text := in_text s \<or> \<not> blank t\<rparr> else new_turn x s)))"

definition reasoning_input :: "string \<Rightarrow> json_dict \<Rightarrow> input_state \<Rightarrow> input_state parse" where
  "reasoning_input p item s = sum_bind (reasoning_text (p @ ''.content'') (json_get item ''content'')) (\<lambda>t.
     let starts = in_text s \<and> \<not> in_call s;
         s' = append_item (ReasoningItem \<lparr>ri_text = t, starts_new_assistant_segment = starts\<rparr>) s in
     Inr (if starts then s'\<lparr>in_text := False, in_call := False\<rparr> else s'))"

definition call_input :: "string \<Rightarrow> json_dict \<Rightarrow> input_state \<Rightarrow> input_state parse" where
  "call_input p item s = (case (nonblank_text (json_get item ''call_id''), nonblank_text (json_get item ''name''), text_value (json_get item ''arguments'')) of
       (Some cid, Some name, Some arguments) \<Rightarrow>
         sum_bind (construct (mk_tool_call_item cid name arguments (in_call_index s))) (\<lambda>x.
           Inr ((append_item (ToolCallItem x) s)\<lparr>in_call_index := in_call_index s + 1, in_call := True\<rparr>))
     | _ \<Rightarrow> reject ''invalid_function_call'' ''Function call item is malformed.'' (Some p))"

definition output_input :: "string \<Rightarrow> json_dict \<Rightarrow> input_state \<Rightarrow> input_state parse" where
  "output_input p item s = (case nonblank_text (json_get item ''call_id'') of
       None \<Rightarrow> reject ''invalid_function_output'' ''Function output requires call_id.'' (Some (p @ ''.call_id''))
     | Some cid \<Rightarrow> sum_bind (response_content output_content_errors (p @ ''.output'') (json_get item ''output'')) (\<lambda>c.
         sum_bind (case c of
             PlainText t \<Rightarrow> sum_bind (construct (mk_tool_result_item cid t False)) (\<lambda>x. Inr (ToolResultItem x))
           | ContentParts ps \<Rightarrow> sum_bind (construct (mk_multimodal_tool_result_item cid ps False)) (\<lambda>x. Inr (MultimodalToolResultItem x))) (\<lambda>x.
         Inr (new_turn x s))))"

definition input_item :: "nat \<Rightarrow> json \<Rightarrow> input_state \<Rightarrow> input_state parse" where
  "input_item i raw s = (let p = at_index ''input'' i in
     sum_bind (as_object ''invalid_input'' p raw) (\<lambda>item.
       let ty = json_get item ''type'' in
       if ty = JNull \<or> ty = JStr ''message'' then message_input p item s
       else if ty = JStr ''reasoning'' then reasoning_input p item s
       else if ty = JStr ''function_call'' then call_input p item s
       else if ty = JStr ''function_call_output'' then output_input p item s
       else reject ''unsupported_input_item'' ''Unsupported Responses input item type.'' (Some (p @ ''.type''))))"

fun input_loop :: "nat \<Rightarrow> json list \<Rightarrow> input_state \<Rightarrow> input_state parse" where
  "input_loop i [] s = Inr s"
| "input_loop i (v # vs) s = sum_bind (input_item i v s) (input_loop (Suc i) vs)"

definition parse_input :: "json \<Rightarrow> canonical_item list parse" where
  "parse_input v = (case v of
       JStr s \<Rightarrow> Inr [MessageItem \<lparr>mi_role = USER, mi_text = s\<rparr>]
     | JArr (x # xs) \<Rightarrow> sum_bind (input_loop 0 (x # xs) new_input) (\<lambda>s. Inr (in_items s))
     | _ \<Rightarrow> reject ''invalid_input'' ''input must be a string or non-empty item array.'' (Some ''input''))"

definition parse_instructions :: "json \<Rightarrow> canonical_item list parse" where
  "parse_instructions v = (case v of
       JNull \<Rightarrow> Inr []
     | JStr s \<Rightarrow> Inr [MessageItem \<lparr>mi_role = DEVELOPER, mi_text = s\<rparr>]
     | _ \<Rightarrow> reject ''invalid_instructions'' ''instructions must be a string.'' (Some ''instructions''))"

section \<open>Tools and the rest of the body\<close>

definition response_tool :: "request_env \<Rightarrow> nat \<Rightarrow> json \<Rightarrow> function_tool parse" where
  "response_tool E i raw = (let q = at_index ''tools'' i in
     sum_bind (as_object ''invalid_tools'' q raw) (\<lambda>tool.
       if json_get tool ''type'' \<noteq> JStr ''function''
       then reject ''unsupported_tool_type'' ''Only function tools are supported in Responses V1.'' (Some (q @ ''.type''))
       else function_declaration E q q tool))"

definition response_choice_name :: "json_dict \<Rightarrow> json" where
  "response_choice_name d = json_get d ''name''"

definition response_output_limit :: "int option \<Rightarrow> json_dict \<Rightarrow> int option parse" where
  "response_output_limit limit0 body =
     (let bad = reject ''invalid_max_output_tokens'' ''A positive max_output_tokens value is required.'' (Some ''max_output_tokens'') in
      case (case map_of body ''max_output_tokens'' of None \<Rightarrow> (case limit0 of None \<Rightarrow> JNull | Some n \<Rightarrow> JInt n) | Some v \<Rightarrow> v) of
        JNull \<Rightarrow> Inr None
      | JInt n \<Rightarrow> if n \<le> 0 then bad else Inr (Some n)
      | _ \<Rightarrow> bad)"

definition response_reasoning :: "json \<Rightarrow> reasoning_policy parse" where
  "response_reasoning v = (case v of
       JNull \<Rightarrow> parse_reasoning_effort ''reasoning.effort'' JNull
     | _ \<Rightarrow> sum_bind (as_object ''invalid_reasoning'' ''reasoning'' v) (\<lambda>r. parse_reasoning_effort ''reasoning.effort'' (json_get r ''effort'')))"

definition response_structured_output :: "request_env \<Rightarrow> json \<Rightarrow> structured_spec option parse" where
  "response_structured_output E v = (case v of JNull \<Rightarrow> Inr None | _ \<Rightarrow>
     sum_bind (as_object ''invalid_text_config'' ''text'' v) (\<lambda>t. case json_get t ''format'' of JNull \<Rightarrow> Inr None | w \<Rightarrow>
     sum_bind (as_object ''invalid_text_format'' ''text.format'' w) (\<lambda>format.
       let ty = json_get format ''type'' in
       if ty = JNull \<or> ty = JStr ''text'' then Inr None
       else if ty = JStr ''json_object'' then sum_bind (schema_from_object E ''text.format'' json_object_schema) (spec_of GFormat)
       else if ty = JStr ''json_schema'' then
         parse_format E ''invalid_text_format'' ''text.format.strict must be boolean.'' ''text.format'' format
       else reject ''invalid_text_format'' ''Unsupported Responses text format.'' (Some ''text.format.type''))))"

definition parse_previous_response_id :: "json_dict \<Rightarrow> string option parse" where
  "parse_previous_response_id body = (case json_get body ''previous_response_id'' of
       JNull \<Rightarrow> Inr None
     | v \<Rightarrow> (case nonblank_text v of Some p \<Rightarrow> Inr (Some p)
         | None \<Rightarrow> reject ''invalid_previous_response_id'' ''previous_response_id must be a non-empty string.'' (Some ''previous_response_id'')))"

definition no_conversation :: "json_dict \<Rightarrow> unit parse" where
  "no_conversation body = (if json_get body ''conversation'' \<noteq> JNull
     then reject ''unsupported_conversation'' ''Responses conversation state is not supported in V1.'' (Some ''conversation'') else Inr ())"

definition parse_state_options :: "json_dict \<Rightarrow> (string option \<times> bool) parse" where
  "parse_state_options body =
     sum_bind (no_conversation body) (\<lambda>u.
     if json_get body ''background'' = JBool True
     then reject ''unsupported_background'' ''Background Responses are not supported in V1.'' (Some ''background'')
     else sum_bind (parse_previous_response_id body) (\<lambda>previous.
       case get_default body ''store'' (JBool True) of JBool b \<Rightarrow> Inr (previous, b)
       | _ \<Rightarrow> reject ''invalid_store'' ''store must be boolean.'' (Some ''store'')))"

definition parse_count_state_options :: "json_dict \<Rightarrow> string option parse" where
  "parse_count_state_options body = sum_bind (no_conversation body) (\<lambda>u. parse_previous_response_id body)"

section \<open>The adapters\<close>

record parsed_responses_request =
  pr_serving :: serving_request
  pr_model :: string
  pr_stream :: bool
  pr_previous :: "string option"
  pr_store :: bool
  pr_instructions :: "canonical_item list"
  pr_input :: "canonical_item list"

text \<open>The conversation so far goes between the instructions and the input.\<close>

definition serving_with_context :: "parsed_responses_request \<Rightarrow> canonical_item list \<Rightarrow> serving_request res" where
  "serving_with_context r previous = (let q = pr_serving r in
     sum_bind (mk_canonical_request (cr_request_id (sq_input q)) (pr_model r) (pr_instructions r @ previous @ pr_input r)) (\<lambda>input.
       mk_serving_request (q\<lparr>sq_input := input, sq_stop_conditions := [], sq_mid_system_policy := LEGACY_UNSPECIFIED\<rparr>)))"

definition parse_responses ::
  "request_env \<Rightarrow> int option \<Rightarrow> override_policy option \<Rightarrow> json_dict \<Rightarrow> string \<Rightarrow> parsed_responses_request parse" where
  "parse_responses E limit0 policy body rid =
     sum_bind (parse_model body) (\<lambda>model.
     sum_bind (parse_state_options body) (\<lambda>(previous, store_it).
     sum_bind (parse_instructions (json_get body ''instructions'')) (\<lambda>instructions.
     sum_bind (parse_input (json_get body ''input'')) (\<lambda>input_items.
     sum_bind (parse_tool_policy (response_tool E) response_choice_name body) (\<lambda>tools.
     sum_bind (response_reasoning (json_get body ''reasoning'')) (\<lambda>reasoning.
     sum_bind (parse_reasoning_budget body) (\<lambda>budget.
     sum_bind (response_output_limit limit0 body) (\<lambda>limit.
     sum_bind (response_structured_output E (json_get body ''text'')) (\<lambda>structured.
     sum_bind (parse_sampling E body policy) (\<lambda>sampling.
     sum_bind (parse_seed body) (\<lambda>seed.
     sum_bind (parse_flag body ''stream'') (\<lambda>stream.
     sum_bind (construct (mk_canonical_request rid model (instructions @ input_items))) (\<lambda>input.
     sum_bind (construct (mk_serving_request \<lparr>sq_input = input, sq_reasoning = reasoning, sq_tools = tools, sq_max_output_tokens = limit,
         sq_structured_output = structured, sq_seed = seed, sq_sampling = sampling, sq_stop_conditions = [], sq_reasoning_budget = budget,
         sq_mid_system_policy = LEGACY_UNSPECIFIED, sq_visibility = visibility_of stream\<rparr>)) (\<lambda>serving.
       Inr \<lparr>pr_serving = serving, pr_model = model, pr_stream = stream, pr_previous = previous, pr_store = store_it,
         pr_instructions = instructions, pr_input = input_items\<rparr>))))))))))))))"

definition parse_responses_count :: "request_env \<Rightarrow> json_dict \<Rightarrow> string \<Rightarrow> parsed_responses_request parse" where
  "parse_responses_count E body rid =
     sum_bind (parse_model body) (\<lambda>model.
     sum_bind (parse_count_state_options body) (\<lambda>previous.
     sum_bind (parse_instructions (json_get body ''instructions'')) (\<lambda>instructions.
     sum_bind (parse_input (json_get body ''input'')) (\<lambda>input_items.
     sum_bind (parse_tool_policy (response_tool E) response_choice_name body) (\<lambda>tools.
     sum_bind (response_reasoning (json_get body ''reasoning'')) (\<lambda>reasoning.
     sum_bind (parse_reasoning_budget body) (\<lambda>budget.
     sum_bind (response_structured_output E (json_get body ''text'')) (\<lambda>structured.
     sum_bind (construct (mk_canonical_request rid model (instructions @ input_items))) (\<lambda>input.
     sum_bind (construct (mk_serving_request \<lparr>sq_input = input, sq_reasoning = reasoning, sq_tools = tools, sq_max_output_tokens = Some 1,
         sq_structured_output = structured, sq_seed = None, sq_sampling = None, sq_stop_conditions = [], sq_reasoning_budget = budget,
         sq_mid_system_policy = LEGACY_UNSPECIFIED, sq_visibility = VISIBILITY_UNKNOWN_MODE\<rparr>)) (\<lambda>serving.
       Inr \<lparr>pr_serving = serving, pr_model = model, pr_stream = False, pr_previous = previous, pr_store = False,
         pr_instructions = instructions, pr_input = input_items\<rparr>))))))))))"

end
