(* ===== verification/Completions.thy ===== *)
theory Completions
  imports OpenAI_Requests
begin

text \<open>
  The legacy Completions protocol, \<open>src/exqserve/protocol/openai/completions.py\<close>: a raw prompt goes in, text comes out. The
  parser, the stream serializer and the accumulator.
\<close>

section \<open>Requests\<close>

definition parse_prompt :: "json \<Rightarrow> raw_prompt_item parse" where
  "parse_prompt v = (let bad = reject ''unsupported_prompt_form'' ''Only one string prompt or one flat token-id array is supported.'' (Some ''prompt'') in
     case v of
       JNull \<Rightarrow> construct (mk_raw_prompt_item (Some []) None)
     | JStr s \<Rightarrow> construct (mk_raw_prompt_item (Some s) None)
     | JArr vs \<Rightarrow> (case those (map (\<lambda>w. case w of JInt n \<Rightarrow> if 0 \<le> n then Some n else None | _ \<Rightarrow> None) vs) of
           Some ids \<Rightarrow> if vs = [] then bad else construct (mk_raw_prompt_item None (Some ids))
         | None \<Rightarrow> bad)
     | _ \<Rightarrow> bad)"

definition positive_max_tokens :: "json \<Rightarrow> int option parse" where
  "positive_max_tokens v = (let bad = reject ''invalid_max_tokens'' ''max_tokens must be a positive integer.'' (Some ''max_tokens'') in
     case v of JNull \<Rightarrow> Inr None | JInt n \<Rightarrow> if n \<le> 0 then bad else Inr (Some n) | _ \<Rightarrow> bad)"

definition reject_unsupported :: "request_env \<Rightarrow> json_dict \<Rightarrow> unit parse" where
  "reject_unsupported E body =
     (let best = get_default body ''best_of'' (JInt 1) in
      if \<not> only_one E (get_default body ''n'' (JInt 1)) then reject ''unsupported_n'' ''Only n=1 is supported.'' (Some ''n'')
      else if best \<noteq> JNull \<and> \<not> only_one E best then reject ''unsupported_best_of'' ''best_of greater than 1 is not supported.'' (Some ''best_of'')
      else if json_get body ''logprobs'' \<noteq> JNull then reject ''unsupported_logprobs'' ''logprobs are not supported.'' (Some ''logprobs'')
      else if json_get body ''suffix'' \<noteq> JNull then reject ''unsupported_suffix'' ''suffix is not supported.'' (Some ''suffix'')
      else Inr ())"

definition completions_include_usage :: "json_dict \<Rightarrow> bool parse" where
  "completions_include_usage body = (case json_get body ''stream_options'' of
       JNull \<Rightarrow> Inr False
     | JObj options \<Rightarrow> (case get_default options ''include_usage'' (JBool False) of JBool b \<Rightarrow> Inr b
         | _ \<Rightarrow> reject ''invalid_stream_options'' ''stream_options.include_usage must be boolean.'' (Some ''stream_options.include_usage''))
     | _ \<Rightarrow> reject ''invalid_stream_options'' ''stream_options must be an object.'' (Some ''stream_options''))"

record parsed_completions_request =
  pc_raw :: raw_serving_request
  pc_model :: string
  pc_stream :: bool
  pc_echo :: bool
  pc_include_usage :: bool

definition parse_completions :: "request_env \<Rightarrow> override_policy option \<Rightarrow> json_dict \<Rightarrow> string \<Rightarrow> parsed_completions_request parse" where
  "parse_completions E policy body rid =
     sum_bind (parse_model body) (\<lambda>model.
     sum_bind (reject_unsupported E body) (\<lambda>u.
     sum_bind (parse_prompt (json_get body ''prompt'')) (\<lambda>prompt.
     sum_bind (parse_flag body ''stream'') (\<lambda>stream.
     sum_bind (parse_flag body ''echo'') (\<lambda>echo.
     if echo \<and> rp_token_ids prompt \<noteq> None
     then reject ''unsupported_echo_token_prompt'' ''echo=true is supported only for text prompts.'' (Some ''echo'')
     else
     sum_bind (completions_include_usage body) (\<lambda>usage.
     sum_bind (parse_seed body) (\<lambda>seed.
     sum_bind (construct (mk_raw_prompt_request rid model [prompt])) (\<lambda>input.
     sum_bind (positive_max_tokens (json_get body ''max_tokens'')) (\<lambda>limit.
     sum_bind (parse_stop (json_get body ''stop'')) (\<lambda>stops.
     sum_bind (parse_sampling E body policy) (\<lambda>sampling.
     sum_bind (construct (mk_raw_serving_request \<lparr>rw_input = input, rw_max_output_tokens = limit, rw_stop_conditions = stops, rw_seed = seed,
         rw_sampling = sampling\<rparr>)) (\<lambda>raw.
       Inr \<lparr>pc_raw = raw, pc_model = model, pc_stream = stream, pc_echo = echo, pc_include_usage = usage\<rparr>))))))))))))"

section \<open>Answers\<close>

fun completions_finish_reason :: "completion_reason \<Rightarrow> string" where
  "completions_finish_reason STOP = ''stop''"
| "completions_finish_reason LENGTH_LIMIT = ''length''"
| "completions_finish_reason TOOL_CALLS = ''tool_calls''"
| "completions_finish_reason FILTERED = ''stop''"

record text_serializer =
  ts_model :: string
  ts_id :: string
  ts_created :: int
  ts_echo_text :: string
  ts_include_usage :: bool
  ts_usage :: "token_usage option"
  ts_terminal :: bool

definition new_text_serializer ::
  "string \<Rightarrow> int \<Rightarrow> string \<Rightarrow> string option \<Rightarrow> int option \<Rightarrow> string \<Rightarrow> bool \<Rightarrow> text_serializer res" where
  "new_text_serializer uuid now model rid created echo include =
     raise_if (blank model) (ValueError ''model must be a non-empty string'')
     (case fresh_id ''cmpl-'' uuid rid of Inl e \<Rightarrow> Inl e | Inr i \<Rightarrow>
       (case created_time now created of Inl e \<Rightarrow> Inl e | Inr c \<Rightarrow>
          Inr \<lparr>ts_model = model, ts_id = i, ts_created = c, ts_echo_text = echo, ts_include_usage = include, ts_usage = None,
            ts_terminal = False\<rparr>))"

datatype text_chunk = TextChunk string "string option" | TextUsage token_usage | TextError openai_error

definition text_choice :: "string \<Rightarrow> string option \<Rightarrow> json" where
  "text_choice t reason = JObj [(''text'', JStr t), (''index'', JInt 0), (''logprobs'', JNull), (''finish_reason'', opt_text reason)]"

definition text_envelope :: "string \<Rightarrow> int \<Rightarrow> string \<Rightarrow> json list \<Rightarrow> (string \<times> json) list \<Rightarrow> json" where
  "text_envelope i c m choices rest = JObj ([(''id'', JStr i), (''object'', JStr ''text_completion''), (''created'', JInt c), (''model'', JStr m),
     (''choices'', JArr choices)] @ rest)"

fun text_chunk_json :: "text_serializer \<Rightarrow> text_chunk \<Rightarrow> json" where
  "text_chunk_json s (TextChunk t r) = text_envelope (ts_id s) (ts_created s) (ts_model s) [text_choice t r] []"
| "text_chunk_json s (TextUsage u) = text_envelope (ts_id s) (ts_created s) (ts_model s) [] [(''usage'', chat_usage u)]"
| "text_chunk_json s (TextError e) = openai_error_body e"

definition text_feed :: "generation_event \<Rightarrow> text_serializer \<Rightarrow> text_chunk list res \<times> text_serializer" where
  "text_feed event s =
     (if ts_terminal s then (Inr [], s)
      else case event of
        GenerationStarted r \<Rightarrow> (Inr (if ts_echo_text s \<noteq> [] then [TextChunk (ts_echo_text s) None] else []), s)
      | TextDelta r t \<Rightarrow> (Inr [TextChunk t None], s)
      | UsageUpdated r u \<Rightarrow> (Inr [], s\<lparr>ts_usage := Some u\<rparr>)
      | GenerationCompleted r reason u stop \<Rightarrow>
          (let usage = (case u of None \<Rightarrow> ts_usage s | Some v \<Rightarrow> Some v) in
           (Inr (TextChunk [] (Some (completions_finish_reason reason))
              # (if ts_include_usage s then (case usage of None \<Rightarrow> [] | Some v \<Rightarrow> [TextUsage v]) else [])),
            s\<lparr>ts_terminal := True\<rparr>))
      | GenerationFailed r e \<Rightarrow> (case openai_map_error e of
          Inl x \<Rightarrow> (Inl x, s\<lparr>ts_terminal := True\<rparr>) | Inr x \<Rightarrow> (Inr [TextError x], s\<lparr>ts_terminal := True\<rparr>))
      | GenerationCancelled r \<Rightarrow> (Inr [TextError chat_cancel_error], s\<lparr>ts_terminal := True\<rparr>)
      | _ \<Rightarrow> (Inr [], s))"

record text_accumulator =
  ta_model :: string
  ta_id :: string
  ta_created :: int
  ta_echo_text :: string
  ta_parts :: "string list"
  ta_usage :: "token_usage option"
  ta_reason :: "string option"
  ta_error :: "openai_error option"

definition new_text_accumulator :: "string \<Rightarrow> int \<Rightarrow> string \<Rightarrow> string option \<Rightarrow> int option \<Rightarrow> string \<Rightarrow> text_accumulator res" where
  "new_text_accumulator uuid now model rid created echo =
     raise_if (blank model) (ValueError ''model must be a non-empty string'')
     (case fresh_id ''cmpl-'' uuid rid of Inl e \<Rightarrow> Inl e | Inr i \<Rightarrow>
       (case created_time now created of Inl e \<Rightarrow> Inl e | Inr c \<Rightarrow>
          Inr \<lparr>ta_model = model, ta_id = i, ta_created = c, ta_echo_text = echo, ta_parts = [], ta_usage = None, ta_reason = None,
            ta_error = None\<rparr>))"

definition text_consume :: "generation_event \<Rightarrow> text_accumulator \<Rightarrow> unit res \<times> text_accumulator" where
  "text_consume event a = (case event of
       TextDelta r t \<Rightarrow> (Inr (), a\<lparr>ta_parts := ta_parts a @ [t]\<rparr>)
     | UsageUpdated r u \<Rightarrow> (Inr (), a\<lparr>ta_usage := Some u\<rparr>)
     | GenerationCompleted r reason u stop \<Rightarrow>
         (Inr (), a\<lparr>ta_usage := (case u of None \<Rightarrow> ta_usage a | Some v \<Rightarrow> Some v), ta_reason := Some (completions_finish_reason reason)\<rparr>)
     | GenerationFailed r e \<Rightarrow> (case openai_map_error e of Inl x \<Rightarrow> (Inl x, a) | Inr x \<Rightarrow> (Inr (), a\<lparr>ta_error := Some x\<rparr>))
     | GenerationCancelled r \<Rightarrow> (Inr (), a\<lparr>ta_error := Some chat_cancel_error\<rparr>)
     | _ \<Rightarrow> (Inr (), a))"

record text_completion =
  tx_text :: string
  tx_finish_reason :: string
  tx_usage :: "token_usage option"

datatype text_result = TextFailed openai_error | TextNotTerminal | TextCompletion text_completion

definition text_accumulated :: "text_accumulator \<Rightarrow> text_result" where
  "text_accumulated a = (case ta_error a of Some e \<Rightarrow> TextFailed e | None \<Rightarrow> (case ta_reason a of None \<Rightarrow> TextNotTerminal
     | Some r \<Rightarrow> TextCompletion \<lparr>tx_text = ta_echo_text a @ concat (ta_parts a), tx_finish_reason = r, tx_usage = ta_usage a\<rparr>))"

definition text_completion_json :: "text_accumulator \<Rightarrow> text_completion \<Rightarrow> json" where
  "text_completion_json a c = text_envelope (ta_id a) (ta_created a) (ta_model a) [text_choice (tx_text c) (Some (tx_finish_reason c))]
     (case tx_usage c of None \<Rightarrow> [] | Some u \<Rightarrow> [(''usage'', chat_usage u)])"

text \<open>A client appends the texts; nothing may follow the finish reason but the usage.\<close>

fun text_client_step :: "text_chunk \<Rightarrow> string \<times> string option \<times> token_usage option \<Rightarrow> (string \<times> string option \<times> token_usage option) option" where
  "text_client_step (TextChunk t r) (s, fin, u) = (if fin = None \<and> u = None then Some (s @ t, r, u) else None)"
| "text_client_step (TextUsage v) (s, fin, u) = (if fin \<noteq> None \<and> u = None then Some (s, fin, Some v) else None)"
| "text_client_step (TextError e) c = None"

definition client_text :: "string \<times> string option \<times> token_usage option \<Rightarrow> text_completion option" where
  "client_text c = (case c of (s, Some r, u) \<Rightarrow> Some \<lparr>tx_text = s, tx_finish_reason = r, tx_usage = u\<rparr> | _ \<Rightarrow> None)"

definition read_text :: "text_chunk list \<Rightarrow> text_completion option" where
  "read_text xs = Option.bind (read_items text_client_step xs ([], None, None)) client_text"

section \<open>Stream and completion\<close>

definition text_agree :: "text_serializer \<Rightarrow> open_item \<times> int \<Rightarrow> text_serializer \<Rightarrow> text_accumulator \<Rightarrow>
    string \<times> string option \<times> token_usage option \<Rightarrow> bool" where
  "text_agree s0 x s a c \<longleftrightarrow> \<not> ts_terminal s0 \<and> s = s0\<lparr>ts_usage := ta_usage a\<rparr> \<and> ta_error a = None \<and> ta_echo_text a = ts_echo_text s0
     \<and> c = (ts_echo_text s0 @ concat (ta_parts a), None, None)"

interpretation completions: recorded_protocol text_feed text_consume text_client_step "text_agree s0" "\<lambda>es s. True" fst text_said for s0
proof
  fix r x e y es s a c
  assume st: "content_step r x e = Some y" and ag: "text_agree s0 x s a c"
  obtain o1 n where x: "x = (o1, n)" by fastforce
  show "\<exists>out s' a' c'. text_feed e s = (Inr out, s') \<and> text_consume e a = (Inr (), a')
      \<and> read_items text_client_step out c = Some c' \<and> text_agree s0 y s' a' c' \<and> True"
    using st ag x by (cases e; cases o1) (auto simp: text_agree_def text_feed_def text_consume_def split: if_splits)
next
  fix r x e y es s a c out s' c'
  assume st: "content_step r x e = Some y" and ag: "text_agree s0 x s a c"
    and fed: "text_feed e s = (Inr out, s')" "read_items text_client_step out c = Some c'"
  obtain o1 n where x: "x = (o1, n)" by fastforce
  show "fst c' = fst c @ text_said e"
    using st ag x fed by (cases e; cases o1) (auto simp: text_agree_def text_feed_def split: if_splits)
qed

lemma text_closing:
  assumes "text_agree s0 (Idle, n) s a c" and "fst c = said"
  shows "\<exists>out s' a' c'. text_feed (GenerationCompleted r reason u stop) s = (Inr out, s')
    \<and> text_consume (GenerationCompleted r reason u stop) a = (Inr (), a') \<and> read_items text_client_step out c = Some c'
    \<and> (\<exists>m. text_accumulated a' = TextCompletion m \<and> tx_text m = said
        \<and> tx_finish_reason m = completions_finish_reason reason \<and> (u \<noteq> None \<longrightarrow> tx_usage m = u)
        \<and> client_text c' = Some (if ts_include_usage s0 then m else m\<lparr>tx_usage := None\<rparr>))"
  using assms by (cases u; cases "ta_usage a") (auto simp: text_agree_def text_feed_def text_consume_def Let_def text_accumulated_def client_text_def)

text \<open>For every well-formed generation that completes, a client of the stream ends up with the completion the
  accumulator returns, its usage when the request asked for it; the text is the echo of the prompt and what was generated.\<close>

lemma completions_run:
  assumes "well_formed_content r es"
    and "new_text_serializer uuid now model rid created echo include = Inr s" and "new_text_accumulator uuid now model rid created echo = Inr a"
  shows "\<exists>out s' a' m. let run = [GenerationStarted r] @ es @ [GenerationCompleted r reason u stop] in
    feed_events text_feed run s = (Inr out, s') \<and> consume_events text_consume run a = (Inr (), a')
      \<and> text_accumulated a' = TextCompletion m \<and> tx_text m = echo @ concat (map text_said es)
      \<and> tx_finish_reason m = completions_finish_reason reason \<and> (u \<noteq> None \<longrightarrow> tx_usage m = u)
      \<and> read_text out = Some (if include then m else m\<lparr>tx_usage := None\<rparr>)"
proof -
  let ?o = "if echo \<noteq> [] then [TextChunk echo None] else []"
  obtain n where n: "content_run r (Idle, 0) es = Some (Idle, n)" using assms(1) by (auto simp: well_formed_content_iff)
  have ag: "text_agree s (Idle, 0) s a (echo, None, None)" and inc: "ts_include_usage s = include" and echo: "ts_echo_text s = echo"
    using assms(2,3) by (auto simp: new_text_serializer_def new_text_accumulator_def text_agree_def split: sum.splits)
  have opens: "text_feed (GenerationStarted r) s = (Inr ?o, s)" "text_consume (GenerationStarted r) a = (Inr (), a)"
    "read_items text_client_step ?o ([], None, None) = Some (echo, None, None)"
    using ag echo by (simp_all add: text_feed_def text_consume_def text_agree_def)
  obtain out s' a' c' m where "feed_events text_feed ([GenerationStarted r] @ es @ [GenerationCompleted r reason u stop]) s = (Inr out, s')"
    "consume_events text_consume ([GenerationStarted r] @ es @ [GenerationCompleted r reason u stop]) a = (Inr (), a')"
    "read_items text_client_step out ([], None, None) = Some c'" "text_accumulated a' = TextCompletion m"
    "tx_text m = fst (echo, None :: string option, None :: token_usage option) @ concat (map text_said es)"
    "tx_finish_reason m = completions_finish_reason reason" "u \<noteq> None \<longrightarrow> tx_usage m = u"
    "client_text c' = Some (if ts_include_usage s then m else m\<lparr>tx_usage := None\<rparr>)"
    using completions.complete_runs_keeping [OF n TrueI ag opens text_closing [of s n _ _ _ _ r reason u stop]] by blast
  then show ?thesis
    by (intro exI [of _ out] exI [of _ s'] exI [of _ a'] exI [of _ m]) (simp add: Let_def read_text_def inc)
qed

end
