(* ===== verification/Anthropic_Requests.thy ===== *)
theory Anthropic_Requests
  imports Request_Values Anthropic
begin

text \<open>
  The request parser of the Anthropic protocol, \<open>src/exqserve/protocol/anthropic/messages.py\<close>: messages and their blocks, the
  placement of system sections between messages, tools, the output configuration and thinking.
\<close>

type_synonym 'a anthropic_parse = "anthropic_error failure + 'a"

definition refused :: "string \<Rightarrow> anthropic_error" where
  "refused message = \<lparr>ae_status_code = 400, ae_type = ''invalid_request_error'', ae_message = message, ae_exqserve_code = None\<rparr>"

definition refuse :: "string \<Rightarrow> 'a anthropic_parse" where
  "refuse message = Inl (Rejected (refused message))"

definition object_of :: "string \<Rightarrow> json \<Rightarrow> json_dict anthropic_parse" where
  "object_of message v = (case v of JObj d \<Rightarrow> Inr d | _ \<Rightarrow> refuse message)"

definition string_of :: "json \<Rightarrow> string option" where
  "string_of v = (case v of JStr s \<Rightarrow> Some s | _ \<Rightarrow> None)"

definition named_string :: "json \<Rightarrow> string option" where
  "named_string v = (case v of JStr s \<Rightarrow> if blank s then None else Some s | _ \<Rightarrow> None)"

section \<open>Blocks\<close>

definition text_blocks :: "string \<Rightarrow> json \<Rightarrow> string anthropic_parse" where
  "text_blocks field v = (case v of
       JStr s \<Rightarrow> Inr s
     | JArr vs \<Rightarrow> sum_bind (each (\<lambda>i raw. sum_bind (object_of (field @ '' blocks must be objects.'') raw) (\<lambda>b.
           case (json_get b ''type'' = JStr ''text'', string_of (json_get b ''text'')) of
             (True, Some t) \<Rightarrow> Inr t | _ \<Rightarrow> refuse (field @ '' supports text blocks only.''))) 0 vs) (\<lambda>ts. Inr (concat ts))
     | _ \<Rightarrow> refuse (field @ '' must be a string or an array of text blocks.''))"

definition media_types :: "string list" where
  "media_types = [''image/jpeg'', ''image/png'', ''image/gif'', ''image/webp'']"

definition image_block :: "json_dict \<Rightarrow> content_part anthropic_parse" where
  "image_block b = sum_bind (object_of ''image source must be an object.'' (json_get b ''source'')) (\<lambda>source.
     if json_get source ''type'' = JStr ''base64'' then
       (case string_of (json_get source ''media_type'') of
          None \<Rightarrow> refuse ''image media_type is unsupported.''
        | Some m \<Rightarrow> if m \<notin> set media_types then refuse ''image media_type is unsupported.''
            else (case string_of (json_get source ''data'') of
                None \<Rightarrow> refuse ''base64 image data must be a non-empty string.''
              | Some d \<Rightarrow> if d = [] then refuse ''base64 image data must be a non-empty string.''
                  else sum_bind (construct (mk_image_content_part (''data:'' @ m @ '';base64,'' @ d) None)) (\<lambda>x. Inr (ImageContentPart x))))
     else if json_get source ''type'' = JStr ''url'' then
       (case named_string (json_get source ''url'') of
          None \<Rightarrow> refuse ''image URL must be a non-empty string.''
        | Some u \<Rightarrow> sum_bind (construct (mk_image_content_part u None)) (\<lambda>x. Inr (ImageContentPart x)))
     else refuse ''Only base64 and URL image sources are supported.'')"

fun text_of_part :: "content_part \<Rightarrow> string" where
  "text_of_part (TextContentPart t) = t"
| "text_of_part (ImageContentPart p) = []"

text \<open>\<open>_append_user_segment\<close>: the items the segment becomes.\<close>

definition user_segment :: "content_part list \<Rightarrow> canonical_item list anthropic_parse" where
  "user_segment parts = (if parts = [] then Inr []
     else if list_ex is_image_part parts
     then sum_bind (construct (mk_multimodal_message_item USER parts)) (\<lambda>x. Inr [MultimodalMessageItem x])
     else Inr [MessageItem \<lparr>mi_role = USER, mi_text = concat (map text_of_part parts)\<rparr>])"

definition result_part :: "json \<Rightarrow> content_part anthropic_parse" where
  "result_part raw = sum_bind (object_of ''tool_result content blocks must be objects.'' raw) (\<lambda>part.
     case (json_get part ''type'' = JStr ''text'', string_of (json_get part ''text'')) of
       (True, Some t) \<Rightarrow> Inr (TextContentPart t)
     | _ \<Rightarrow> if json_get part ''type'' = JStr ''image'' then image_block part else refuse ''Unsupported tool_result content block.'')"

definition tool_result_block :: "json_dict \<Rightarrow> canonical_item anthropic_parse" where
  "tool_result_block b = (case named_string (json_get b ''tool_use_id'') of
       None \<Rightarrow> refuse ''tool_result.tool_use_id must be a non-empty string.''
     | Some tid \<Rightarrow> (case get_default b ''is_error'' (JBool False) of
         JBool err \<Rightarrow> (case get_default b ''content'' (JStr []) of
             JStr s \<Rightarrow> sum_bind (construct (mk_tool_result_item tid s err)) (\<lambda>x. Inr (ToolResultItem x))
           | JArr vs \<Rightarrow> sum_bind (each (\<lambda>i. result_part) 0 vs) (\<lambda>parts.
               if list_ex is_image_part parts
               then sum_bind (construct (mk_multimodal_tool_result_item tid parts err)) (\<lambda>x. Inr (MultimodalToolResultItem x))
               else sum_bind (construct (mk_tool_result_item tid (concat (map text_of_part parts)) err)) (\<lambda>x. Inr (ToolResultItem x)))
           | _ \<Rightarrow> refuse ''tool_result.content must be text or a content-block array.'')
       | _ \<Rightarrow> refuse ''tool_result.is_error must be boolean.''))"

text \<open>The blocks of a user: a tool result closes the segment of parts before it.\<close>

fun user_blocks :: "json list \<Rightarrow> content_part list \<Rightarrow> canonical_item list anthropic_parse" where
  "user_blocks [] segment = user_segment segment"
| "user_blocks (raw # raws) segment = sum_bind (object_of ''user content blocks must be objects.'' raw) (\<lambda>b.
     let ty = json_get b ''type'' in
     if ty = JStr ''text'' then (case string_of (json_get b ''text'') of
         None \<Rightarrow> refuse ''text content requires a string text field.''
       | Some t \<Rightarrow> user_blocks raws (segment @ [TextContentPart t]))
     else if ty = JStr ''image'' then sum_bind (image_block b) (\<lambda>x. user_blocks raws (segment @ [x]))
     else if ty = JStr ''tool_result'' then
       sum_bind (user_segment segment) (\<lambda>before. sum_bind (tool_result_block b) (\<lambda>x.
         sum_bind (user_blocks raws []) (\<lambda>later. Inr (before @ [x] @ later))))
     else refuse ''Unsupported user content block type.'')"

definition parse_user_content :: "json \<Rightarrow> canonical_item list anthropic_parse" where
  "parse_user_content v = (case v of
       JStr s \<Rightarrow> Inr [MessageItem \<lparr>mi_role = USER, mi_text = s\<rparr>]
     | JArr (x # xs) \<Rightarrow> user_blocks (x # xs) []
     | _ \<Rightarrow> refuse ''user content must be text or a non-empty content-block array.'')"

fun assistant_blocks :: "json list \<Rightarrow> int \<Rightarrow> canonical_item list anthropic_parse" where
  "assistant_blocks [] i = Inr []"
| "assistant_blocks (raw # raws) i = sum_bind (object_of ''assistant content blocks must be objects.'' raw) (\<lambda>b.
     let ty = json_get b ''type'' in
     if ty = JStr ''text'' then (case string_of (json_get b ''text'') of
         None \<Rightarrow> refuse ''text content requires a string text field.''
       | Some t \<Rightarrow> sum_bind (assistant_blocks raws i) (\<lambda>later. Inr (MessageItem \<lparr>mi_role = ASSISTANT, mi_text = t\<rparr> # later)))
     else if ty = JStr ''thinking'' then
       (case (string_of (json_get b ''thinking''), string_of (get_default b ''signature'' (JStr []))) of
          (Some t, Some s) \<Rightarrow> sum_bind (assistant_blocks raws i) (\<lambda>later.
            Inr (ReasoningItem \<lparr>ri_text = t, starts_new_assistant_segment = False\<rparr> # later))
        | _ \<Rightarrow> refuse ''thinking blocks require string thinking/signature fields.'')
     else if ty = JStr ''redacted_thinking'' then refuse ''redacted_thinking round-trip is not supported in V1.''
     else if ty = JStr ''tool_use'' then
       (case (named_string (json_get b ''id''), named_string (json_get b ''name''), json_get b ''input'') of
          (Some cid, Some name, JObj d) \<Rightarrow> sum_bind (construct (mk_tool_call_item cid name (dumps False (JObj d)) i)) (\<lambda>x.
            sum_bind (assistant_blocks raws (i + 1)) (\<lambda>later. Inr (ToolCallItem x # later)))
        | _ \<Rightarrow> refuse ''tool_use block is malformed.'')
     else refuse ''Unsupported assistant content block type.'')"

definition parse_assistant_content :: "json \<Rightarrow> canonical_item list anthropic_parse" where
  "parse_assistant_content v = (case v of
       JStr s \<Rightarrow> Inr [MessageItem \<lparr>mi_role = ASSISTANT, mi_text = s\<rparr>]
     | JArr (x # xs) \<Rightarrow> assistant_blocks (x # xs) 0
     | _ \<Rightarrow> refuse ''assistant content must be text or a non-empty content-block array.'')"

section \<open>Messages\<close>

definition role_of :: "json \<Rightarrow> json anthropic_parse" where
  "role_of raw = sum_bind (object_of ''messages must contain objects.'' raw) (\<lambda>m. Inr (json_get m ''role''))"

text \<open>\<open>_validate_mid_system_placement\<close>. The list is what is left from the index on, \<open>previous\<close> the message before it;
  \<open>skip_system\<close> is the inner loop, which gives the messages from \<open>end\<close> on and the last one before.\<close>

fun skip_system :: "json \<Rightarrow> json list \<Rightarrow> (json \<times> json list) anthropic_parse" where
  "skip_system previous [] = Inr (previous, [])"
| "skip_system previous (raw # raws) = sum_bind (role_of raw) (\<lambda>role.
     if role = JStr ''system'' then skip_system raw raws else Inr (previous, raw # raws))"

lemma skip_system_length: "skip_system p raws = Inr (q, rest) \<Longrightarrow> length rest \<le> length raws"
  by (induction raws arbitrary: p) (fastforce simp: sum_bind_Inr split: if_splits)+

function check_placement :: "json option \<Rightarrow> json list \<Rightarrow> unit anthropic_parse" where
  "check_placement previous [] = Inr ()"
| "check_placement previous (raw # raws) = sum_bind (role_of raw) (\<lambda>role.
     if role \<noteq> JStr ''system'' then check_placement (Some raw) raws
     else (case previous of
         None \<Rightarrow> refuse ''messages-level system sections cannot be the first message.''
       | Some p \<Rightarrow> sum_bind (role_of p) (\<lambda>before.
           if before \<noteq> JStr ''user'' then refuse ''messages-level system sections must immediately follow a user turn.''
           else sum_bind (skip_system raw raws) (\<lambda>(lst, rest). case rest of
               [] \<Rightarrow> Inr ()
             | following # others \<Rightarrow> sum_bind (role_of following) (\<lambda>after.
                 if after \<noteq> JStr ''assistant''
                 then refuse ''messages-level system sections must be final or followed by an assistant turn.''
                 else check_placement (Some lst) (following # others))))))"
  by pat_completeness auto

termination
  by (relation "measure (\<lambda>(previous, raws). length raws)") (auto dest!: skip_system_length)

declare check_placement.simps [simp del]

definition anthropic_message_items :: "json \<Rightarrow> canonical_item list anthropic_parse" where
  "anthropic_message_items raw = sum_bind (object_of ''messages must contain objects.'' raw) (\<lambda>m.
     let role = json_get m ''role''; content = json_get m ''content'' in
     if role = JStr ''user'' then parse_user_content content
     else if role = JStr ''assistant'' then parse_assistant_content content
     else if role = JStr ''system'' then sum_bind (text_blocks ''messages[].system.content'' content) (\<lambda>t.
       Inr [MessageItem \<lparr>mi_role = SYSTEM, mi_text = t\<rparr>])
     else refuse ''Messages API roles must be user, assistant, or system.'')"

definition parse_anthropic_messages :: "json \<Rightarrow> json \<Rightarrow> canonical_item list anthropic_parse" where
  "parse_anthropic_messages v system = (case v of
       JArr (x # xs) \<Rightarrow> sum_bind (check_placement None (x # xs)) (\<lambda>u.
         sum_bind (if system = JNull then Inr [] else sum_bind (text_blocks ''system'' system) (\<lambda>t.
           Inr [MessageItem \<lparr>mi_role = SYSTEM, mi_text = t\<rparr>])) (\<lambda>before.
         sum_bind (each (\<lambda>i. anthropic_message_items) 0 (x # xs)) (\<lambda>iss. Inr (before @ concat iss))))
     | _ \<Rightarrow> refuse ''messages must be a non-empty array.'')"

section \<open>Tools, output and thinking\<close>

definition anthropic_tool :: "validator \<Rightarrow> json \<Rightarrow> function_tool anthropic_parse" where
  "anthropic_tool V raw = sum_bind (object_of ''tools must contain objects.'' raw) (\<lambda>tool.
     let description = json_get tool ''description''; strict = get_default tool ''strict'' (JBool False) in
     if map_of tool ''type'' \<noteq> None then refuse ''Anthropic server/built-in tools are not supported in V1.''
     else (case named_string (json_get tool ''name'') of
         None \<Rightarrow> refuse ''tool name must be a non-empty string.''
       | Some name \<Rightarrow>
           if description \<noteq> JNull \<and> string_of description = None then refuse ''tool description must be a string.''
           else (case strict of
               JBool b \<Rightarrow> (case json_get tool ''input_schema'' of
                   JObj d \<Rightarrow> sum_bind (construct_or (refused ''tool input_schema is invalid.'') (schema_of_json V (JObj d))) (\<lambda>schema.
                     build_tool V (refused ''strict tool input_schema is invalid'') (refused ''tool declaration is invalid.'')
                       name (string_of description) schema b)
                 | _ \<Rightarrow> refuse ''tool input_schema must be an object.'')
             | _ \<Rightarrow> refuse ''tool strict must be boolean.'')))"

definition anthropic_choice :: "json \<Rightarrow> (tool_choice \<times> bool) anthropic_parse" where
  "anthropic_choice v = (case v of
       JNull \<Rightarrow> sum_bind (construct (mk_tool_choice \<lparr>tc_mode = MODE_AUTO, tc_name = None\<rparr>)) (\<lambda>c. Inr (c, True))
     | _ \<Rightarrow> sum_bind (object_of ''tool_choice must be an object.'' v) (\<lambda>d.
         let ty = json_get d ''type''; bare = (\<lambda>m. construct (mk_tool_choice \<lparr>tc_mode = m, tc_name = None\<rparr>)) in
         sum_bind (if ty = JStr ''auto'' then bare MODE_AUTO else if ty = JStr ''any'' then bare MODE_REQUIRED
           else if ty = JStr ''none'' then bare MODE_NONE
           else if ty = JStr ''tool'' then (case named_string (json_get d ''name'') of
               None \<Rightarrow> refuse ''tool_choice.tool requires a non-empty name.''
             | Some n \<Rightarrow> construct (mk_tool_choice \<lparr>tc_mode = MODE_NAMED, tc_name = Some n\<rparr>))
           else refuse ''Unsupported tool_choice type.'') (\<lambda>c.
         case get_default d ''disable_parallel_tool_use'' (JBool False) of
           JBool b \<Rightarrow> Inr (c, \<not> b) | _ \<Rightarrow> refuse ''disable_parallel_tool_use must be boolean.'')))"

definition anthropic_tool_policy :: "validator \<Rightarrow> json_dict \<Rightarrow> tool_policy anthropic_parse" where
  "anthropic_tool_policy V body =
     sum_bind (case json_get body ''tools'' of JNull \<Rightarrow> Inr [] | JArr vs \<Rightarrow> each (\<lambda>i. anthropic_tool V) 0 vs
       | _ \<Rightarrow> refuse ''tools must be an array.'') (\<lambda>tools.
     sum_bind (anthropic_choice (json_get body ''tool_choice'')) (\<lambda>(choice, parallel).
       construct_or (refused ''tool_choice is incompatible with declared tools.'')
         (mk_tool_policy \<lparr>tp_tools = tools, tp_choice = choice, tp_parallel = parallel\<rparr>)))"

definition anthropic_efforts :: "(string \<times> reasoning_effort) list" where
  "anthropic_efforts = [(''low'', EFFORT_LOW), (''medium'', EFFORT_MEDIUM), (''high'', EFFORT_HIGH), (''xhigh'', EFFORT_XHIGH),
     (''max'', EFFORT_MAXIMUM)]"

definition parse_output_config :: "validator \<Rightarrow> json \<Rightarrow> (reasoning_effort option \<times> structured_spec option) anthropic_parse" where
  "parse_output_config V v = (case v of JNull \<Rightarrow> Inr (None, None) | _ \<Rightarrow>
     sum_bind (object_of ''output_config must be an object.'' v) (\<lambda>config.
     sum_bind (case json_get config ''effort'' of
         JNull \<Rightarrow> Inr None
       | w \<Rightarrow> (case Option.bind (string_of w) (map_of anthropic_efforts) of
           None \<Rightarrow> refuse ''output_config.effort is unsupported.'' | Some e \<Rightarrow> Inr (Some e))) (\<lambda>effort.
     sum_bind (case json_get config ''format'' of
         JNull \<Rightarrow> Inr None
       | w \<Rightarrow> sum_bind (object_of ''output_config.format must be an object.'' w) (\<lambda>format.
           if json_get format ''type'' \<noteq> JStr ''json_schema'' then refuse ''output_config.format.type must be json_schema.''
           else (case json_get format ''schema'' of
               JObj d \<Rightarrow> construct_or (refused ''output_config.format.schema is invalid.'')
                 (sum_bind (schema_of_json V (JObj d)) (\<lambda>s. sum_bind (mk_structured_spec \<lparr>so_schema = s, so_requested = GSchema,
                    so_fallback = FAIL_CLOSED\<rparr>) (\<lambda>x. Inr (Some x))))
             | _ \<Rightarrow> refuse ''output_config.format.schema must be an object.''))) (\<lambda>structured.
       Inr (effort, structured)))))"

definition thinking_budget :: "json_dict \<Rightarrow> reasoning_budget_override anthropic_parse" where
  "thinking_budget thinking = (case map_of thinking ''budget_tokens'' of
       None \<Rightarrow> construct (mk_reasoning_budget_override inherit_budget)
     | Some (JInt n) \<Rightarrow> if n \<le> 0 then refuse ''thinking.budget_tokens must be a positive integer.''
         else construct (mk_reasoning_budget_override \<lparr>rb_mode = BUDGET_EXPLICIT, rb_max_tokens = Some n, rb_message = None\<rparr>)
     | Some v \<Rightarrow> refuse ''thinking.budget_tokens must be a positive integer.'')"

definition parse_thinking :: "json \<Rightarrow> reasoning_effort option \<Rightarrow> (reasoning_policy \<times> bool \<times> reasoning_budget_override) anthropic_parse" where
  "parse_thinking v effort = (case v of
       JNull \<Rightarrow> sum_bind (construct (mk_reasoning_budget_override inherit_budget)) (\<lambda>b.
         Inr (\<lparr>rp_mode = REASONING_DEFAULT, rp_effort = effort\<rparr>, False, b))
     | _ \<Rightarrow> sum_bind (object_of ''thinking must be an object.'' v) (\<lambda>thinking.
         let ty = json_get thinking ''type'' in
         if ty = JStr ''disabled'' then
           (if map_of thinking ''display'' \<noteq> None then refuse ''thinking.display is invalid when thinking is disabled.''
            else if map_of thinking ''budget_tokens'' \<noteq> None then refuse ''thinking.budget_tokens is invalid when thinking is disabled.''
            else sum_bind (construct (mk_reasoning_budget_override \<lparr>rb_mode = BUDGET_DISABLE, rb_max_tokens = None, rb_message = None\<rparr>)) (\<lambda>b.
              Inr (\<lparr>rp_mode = REASONING_DISABLED, rp_effort = effort\<rparr>, False, b)))
         else if ty = JStr ''enabled'' \<or> ty = JStr ''adaptive'' then
           sum_bind (thinking_budget thinking) (\<lambda>b. let display = json_get thinking ''display'' in
             if display \<noteq> JNull \<and> display \<notin> {JStr ''summarized'', JStr ''omitted''} then refuse ''thinking.display is unsupported.''
             else Inr (\<lparr>rp_mode = REASONING_ENABLED, rp_effort = effort\<rparr>, display = JStr ''omitted'', b))
         else refuse ''Unsupported thinking type.''))"

text \<open>Fields that are not given keep the defaults of \<open>RuntimeSamplingConfig\<close>; the numbers are checked in its order.\<close>

definition anthropic_sampling :: "float_value \<Rightarrow> json_dict \<Rightarrow> sampling_config option anthropic_parse" where
  "anthropic_sampling fv body =
     (if \<not> list_ex (\<lambda>n. map_of body n \<noteq> None) [''temperature'', ''top_p'', ''top_k''] then Inr None
      else sum_bind (construct_or (refused ''Sampling parameters are invalid.'')
        (sum_bind (case map_of body ''temperature'' of None \<Rightarrow> Inr 1 | Some v \<Rightarrow> finite_number fv v) (\<lambda>temperature.
         sum_bind (case map_of body ''top_p'' of None \<Rightarrow> Inr 1 | Some v \<Rightarrow> finite_number fv v) (\<lambda>top_p.
         sum_bind (case map_of body ''top_k'' of None \<Rightarrow> Inr 0 | Some v \<Rightarrow> integer_value v) (\<lambda>top_k.
           mk_sampling_config
             \<lparr>sp_temperature = temperature, sp_min_p = 0, sp_top_k = top_k, sp_top_p = top_p, sp_repetition_penalty = 1,
              sp_frequency_penalty = 0, sp_presence_penalty = 0, sp_temperature_last = False, sp_repetition_penalty_range = 100000000,
              sp_repetition_decay = 0, sp_adaptive_target = 1, sp_adaptive_decay = 8106479329266893 / 9007199254740992, sp_logit_bias = [],
              sp_dry_multiplier = 0, sp_dry_base = 7 / 4, sp_dry_allowed_length = 2, sp_dry_range = 0, sp_dry_sequence_breaker_ids = None,
              sp_blocked_ids = [], sp_banned_strings = [], sp_token_healing = False, sp_sampler_requested = True\<rparr>))))) (\<lambda>c. Inr (Some c)))"

definition parse_stop_sequences :: "json \<Rightarrow> stop_condition list anthropic_parse" where
  "parse_stop_sequences v = (case v of
       JNull \<Rightarrow> Inr []
     | JArr vs \<Rightarrow> each (\<lambda>i w. case string_of w of
           Some s \<Rightarrow> if s = [] then refuse ''stop_sequences must contain non-empty strings.'' else Inr (StopText s)
         | None \<Rightarrow> refuse ''stop_sequences must contain non-empty strings.'') 0 vs
     | _ \<Rightarrow> refuse ''stop_sequences must be an array.'')"

section \<open>The adapter\<close>

datatype compatibility_profile = CLAUDE_CODE | CLAUDE_CODE_2_1_251

text \<open>\<open>__init__\<close>: only without a profile is the placement of system sections strict.\<close>

definition mid_system_policy_of :: "compatibility_profile option \<Rightarrow> mid_system_policy" where
  "mid_system_policy_of profile = (if profile = None then MID_STRICT else MID_BEST_EFFORT)"

record parsed_anthropic_request =
  pa_serving :: serving_request
  pa_model :: string
  pa_stream :: bool
  pa_omit_thinking :: bool

definition identity_and_items :: "json_dict \<Rightarrow> (string \<times> canonical_item list) anthropic_parse" where
  "identity_and_items body = (case named_string (json_get body ''model'') of
       None \<Rightarrow> refuse ''model must be a non-empty string.''
     | Some model \<Rightarrow> sum_bind (parse_anthropic_messages (json_get body ''messages'') (json_get body ''system'')) (\<lambda>items. Inr (model, items)))"

definition parse_anthropic ::
  "validator \<Rightarrow> float_value \<Rightarrow> compatibility_profile option \<Rightarrow> json_dict \<Rightarrow> string \<Rightarrow> parsed_anthropic_request anthropic_parse" where
  "parse_anthropic V fv profile body rid =
     sum_bind (identity_and_items body) (\<lambda>(model, items).
     sum_bind (parse_output_config V (json_get body ''output_config'')) (\<lambda>(effort, structured).
     sum_bind (parse_thinking (json_get body ''thinking'') effort) (\<lambda>(reasoning, omit, budget).
     sum_bind (case json_get body ''max_tokens'' of
         JInt n \<Rightarrow> if n \<le> 0 then refuse ''max_tokens must be a positive integer; cache-only max_tokens=0 is unsupported.'' else Inr n
       | _ \<Rightarrow> refuse ''max_tokens must be a positive integer; cache-only max_tokens=0 is unsupported.'') (\<lambda>limit.
     sum_bind (case get_default body ''stream'' (JBool False) of JBool b \<Rightarrow> Inr b | _ \<Rightarrow> refuse ''stream must be boolean.'') (\<lambda>stream.
     sum_bind (construct (mk_canonical_request rid model items)) (\<lambda>input.
     sum_bind (anthropic_tool_policy V body) (\<lambda>tools.
     sum_bind (anthropic_sampling fv body) (\<lambda>sampling.
     sum_bind (parse_stop_sequences (json_get body ''stop_sequences'')) (\<lambda>stops.
     sum_bind (construct (mk_serving_request \<lparr>sq_input = input, sq_reasoning = reasoning, sq_tools = tools, sq_max_output_tokens = Some limit,
         sq_structured_output = structured, sq_seed = None, sq_sampling = sampling, sq_stop_conditions = stops, sq_reasoning_budget = budget,
         sq_mid_system_policy = mid_system_policy_of profile, sq_visibility = (if stream then STREAMING else BUFFERED)\<rparr>)) (\<lambda>serving.
       Inr \<lparr>pa_serving = serving, pa_model = model, pa_stream = stream, pa_omit_thinking = omit\<rparr>))))))))))"

definition parse_anthropic_count ::
  "validator \<Rightarrow> compatibility_profile option \<Rightarrow> json_dict \<Rightarrow> string \<Rightarrow> parsed_anthropic_request anthropic_parse" where
  "parse_anthropic_count V profile body rid =
     sum_bind (identity_and_items body) (\<lambda>(model, items).
     sum_bind (parse_output_config V (json_get body ''output_config'')) (\<lambda>(effort, structured).
     sum_bind (parse_thinking (json_get body ''thinking'') effort) (\<lambda>(reasoning, omit, budget).
     sum_bind (construct (mk_canonical_request rid model items)) (\<lambda>input.
     sum_bind (anthropic_tool_policy V body) (\<lambda>tools.
     sum_bind (construct (mk_serving_request \<lparr>sq_input = input, sq_reasoning = reasoning, sq_tools = tools, sq_max_output_tokens = Some 1,
         sq_structured_output = structured, sq_seed = None, sq_sampling = None, sq_stop_conditions = [], sq_reasoning_budget = budget,
         sq_mid_system_policy = mid_system_policy_of profile, sq_visibility = VISIBILITY_UNKNOWN_MODE\<rparr>)) (\<lambda>serving.
       Inr \<lparr>pa_serving = serving, pa_model = model, pa_stream = False, pa_omit_thinking = omit\<rparr>))))))"

end
