(* ===== verification/Request_Failures.thy ===== *)
theory Request_Failures
  imports Responses_Requests Completions Anthropic_Requests
begin

text \<open>
  How the request parsers fail: with the protocol's own error of status 400, but for two exceptions that the handlers do not
  catch. \<open>fails_only P r\<close> says that every failure of \<open>r\<close> satisfies \<open>P\<close>; its rules follow the structure of the parsers.
\<close>

section \<open>Rules\<close>

definition fails_only :: "('e \<Rightarrow> bool) \<Rightarrow> 'e + 'a \<Rightarrow> bool" where
  "fails_only P r \<longleftrightarrow> (\<forall>e. r = Inl e \<longrightarrow> P e)"

lemma fails_simps [simp]: "fails_only P (Inr x)" "fails_only P (Inl e) = P e"
  by (simp_all add: fails_only_def)

lemma fails_bind: "fails_only P r \<Longrightarrow> (\<And>x. r = Inr x \<Longrightarrow> fails_only P (f x)) \<Longrightarrow> fails_only P (sum_bind r f)"
  by (auto simp: fails_only_def sum_bind_Inl)

lemma fails_if: "(b \<Longrightarrow> fails_only P r) \<Longrightarrow> (\<not> b \<Longrightarrow> fails_only P q) \<Longrightarrow> fails_only P (if b then r else q)"
  by simp

lemma fails_option: "(v = None \<Longrightarrow> fails_only P r) \<Longrightarrow> (\<And>x. v = Some x \<Longrightarrow> fails_only P (f x)) \<Longrightarrow> fails_only P (case v of None \<Rightarrow> r | Some x \<Rightarrow> f x)"
  by (cases v) auto

lemma fails_prod: "(\<And>x y. p = (x, y) \<Longrightarrow> fails_only P (f x y)) \<Longrightarrow> fails_only P (case p of (x, y) \<Rightarrow> f x y)"
  by (cases p) auto

lemma fails_let: "fails_only P (f x) \<Longrightarrow> fails_only P (let y = x in f y)"
  by simp

lemma fails_json:
  assumes "v = JNull \<Longrightarrow> fails_only P f1" "\<And>b. v = JBool b \<Longrightarrow> fails_only P (f2 b)" "\<And>n. v = JInt n \<Longrightarrow> fails_only P (f3 n)"
    "\<And>t. v = JFloat t \<Longrightarrow> fails_only P (f4 t)" "\<And>s. v = JStr s \<Longrightarrow> fails_only P (f5 s)" "\<And>vs. v = JArr vs \<Longrightarrow> fails_only P (f6 vs)"
    "\<And>d. v = JObj d \<Longrightarrow> fails_only P (f7 d)"
  shows "fails_only P (case v of JNull \<Rightarrow> f1 | JBool b \<Rightarrow> f2 b | JInt n \<Rightarrow> f3 n | JFloat t \<Rightarrow> f4 t | JStr s \<Rightarrow> f5 s | JArr vs \<Rightarrow> f6 vs | JObj d \<Rightarrow> f7 d)"
  using assms by (cases v) auto

lemma fails_list: "(xs = [] \<Longrightarrow> fails_only P r) \<Longrightarrow> (\<And>y ys. xs = y # ys \<Longrightarrow> fails_only P (f y ys)) \<Longrightarrow> fails_only P (case xs of [] \<Rightarrow> r | y # ys \<Rightarrow> f y ys)"
  by (cases xs) auto

lemma fails_bool: "(b \<Longrightarrow> fails_only P r) \<Longrightarrow> (\<not> b \<Longrightarrow> fails_only P q) \<Longrightarrow> fails_only P (case b of True \<Rightarrow> r | False \<Rightarrow> q)"
  by (cases b) auto

lemma fails_each: "(\<And>i x. x \<in> set xs \<Longrightarrow> fails_only P (f i x)) \<Longrightarrow> fails_only P (each f n xs)"
  by (auto simp: fails_only_def dest: each_Inl)

lemma fails_construct: "\<exists>x. r = Inr x \<Longrightarrow> fails_only P (construct r)"
  by (auto simp: construct_def)

lemma fails_weaken: "fails_only P r \<Longrightarrow> (\<And>e. P e \<Longrightarrow> Q e) \<Longrightarrow> fails_only Q r"
  by (auto simp: fails_only_def)

lemmas fails_rules = fails_bind fails_if fails_option fails_prod fails_let fails_json fails_list fails_bool fails_each

section \<open>The OpenAI protocols\<close>

definition bad_request :: "openai_error failure \<Rightarrow> bool" where
  "bad_request f \<longleftrightarrow> (\<exists>code message param. f = Rejected (invalid_request code message param))"

lemma fails_reject [simp]: "fails_only bad_request (reject code message param)"
  by (auto simp: reject_def bad_request_def)

lemma fails_object [simp]: "fails_only bad_request (as_object code param v)"
  by (auto simp: as_object_def split: json.split)

lemma fails_joined: "fails_only P r \<Longrightarrow> fails_only P (joined r)"
  by (auto simp: joined_def intro: fails_rules)

lemma nonblank_text_Some: "nonblank_text v = Some s \<Longrightarrow> v = JStr s \<and> \<not> blank s"
  by (auto simp: nonblank_text_def split: json.splits if_splits)

lemma text_value_JStr: "text_value v = Some s \<longleftrightarrow> v = JStr s"
  by (auto simp: text_value_def split: json.splits)

lemma fails_chat_text: "fails_only bad_request (chat_text_content param v)"
  unfolding chat_text_content_def chat_text_part_def by (intro fails_rules fails_joined) simp_all

lemma detail_ok: "detail = JNull \<or> detail \<in> JStr ` set image_details \<Longrightarrow> \<not> blank source \<Longrightarrow>
    \<exists>x. mk_image_content_part source (text_value detail) = Inr x"
  by (auto simp: mk_image_content_part_def image_details_def text_value_def)

lemma fails_chat_user: "fails_only bad_request (chat_user_content param v)"
  unfolding chat_user_content_def chat_user_part_def
  by (intro fails_rules fails_construct detail_ok) (auto dest: nonblank_text_Some)

lemma gathered_item: "fails_only P (user_item (gather_parts ps))"
  by (cases "ps = []") (auto simp: user_item_def gather_parts_def mk_multimodal_message_item_def intro!: fails_rules fails_construct)

lemma plain_item: "fails_only P (user_item (PlainText t))"
  by (simp add: user_item_def)

lemma fails_user_item: "chat_user_content param v = Inr c \<Longrightarrow> fails_only P (user_item c)"
  by (auto simp: chat_user_content_def sum_bind_Inr gathered_item plain_item reject_def split: json.splits list.splits)

lemma fails_chat_message: "fails_only bad_request (chat_message i raw)"
  unfolding chat_message_def assistant_message_def assistant_tool_calls_def assistant_tool_call_def malformed_call_def tool_message_def
  by (intro fails_rules fails_construct fails_chat_text fails_chat_user fails_user_item fails_reject fails_object)
    (auto simp: mk_tool_call_item_def mk_tool_result_item_def fails_reject dest: nonblank_text_Some)

lemma fails_messages: "fails_only bad_request (parse_messages v)"
  unfolding parse_messages_def by (intro fails_rules fails_chat_message) simp_all

subsection \<open>Schemas\<close>

text \<open>What is relied on of \<open>Draft202012Validator.check_schema\<close>: in a schema that was accepted, the members of every subschema
  that the strict walk asserts to be a dictionary and a list are one.\<close>

definition assertable :: "json_dict \<Rightarrow> bool" where
  "assertable sub \<longleftrightarrow> (case get_default sub ''properties'' (JObj []) of JObj d \<Rightarrow> True | _ \<Rightarrow> False)
     \<and> (case get_default sub ''required'' (JArr []) of JArr vs \<Rightarrow> True | _ \<Rightarrow> False)"

definition metaschema_checked :: "validator \<Rightarrow> bool" where
  "metaschema_checked V \<longleftrightarrow> (\<forall>s t kvs sub. mk_json_schema V s = Inr t \<and> parse_json_strict (float_repr V) t = Inr (JObj kvs)
     \<and> subschema (JObj kvs) (JObj sub) \<longrightarrow> assertable sub)"

lemma subschema_prepend: "v \<in> set (strict_schema_children kvs) \<Longrightarrow> subschema v w \<Longrightarrow> subschema (JObj kvs) w"
  by (rotate_tac, induction rule: subschema.induct) (auto intro: subschema.intros)

lemma node_error_caught:
  "strict_schema_node v = Some e \<Longrightarrow> (\<And>sub. subschema v (JObj sub) \<Longrightarrow> assertable sub) \<Longrightarrow> caught e"
proof (induction v arbitrary: e rule: strict_schema_node.induct)
  case (1 kvs)
  have here: "check_object_schema kvs = Some e \<Longrightarrow> caught e"
    using 1(3) [OF subschema.root] by (auto simp: check_object_schema_def assertable_def split: if_splits json.splits)
  show ?case
  proof (cases "check_object_schema kvs")
    case None
    then obtain v where v: "v \<in> set (strict_schema_children kvs)" "strict_schema_node v = Some e"
      using 1(2) by (auto dest!: first_some_Some split: if_splits)
    then show ?thesis using 1(1) [OF None v(1) v(2)] 1(3) subschema_prepend by blast
  qed (use 1(2) here in auto)
qed simp_all

lemma schema_error_caught: "mk_json_schema V s = Inl e \<Longrightarrow> caught e"
  by (auto simp: mk_json_schema_def json_error_exn_def raise_if_def split: sum.splits json.splits if_splits)

lemma object_from_pairs_object: "object_from_pairs d kvs = Inr v \<Longrightarrow> \<exists>d'. v = JObj d'"
  by (induction kvs arbitrary: d) (auto split: if_splits)

lemma brace_is_object: "parse_json_strict fr (CHR ''{'' # s) = Inr v \<Longrightarrow> \<exists>d. v = JObj d"
  by (auto simp: parse_json_strict_def json_ws_def dest: object_from_pairs_object
      split: sum.splits if_splits option.splits)

lemma accepted_object: "mk_json_schema V s = Inr t \<Longrightarrow> parse_json_strict (float_repr V) t = Inr v \<Longrightarrow> \<exists>d. v = JObj d"
  by (auto simp: mk_json_schema_def canonical_json_dumps_def intro: brace_is_object split: sum.splits json.splits)

lemma strict_error_caught:
  assumes "metaschema_checked V" and "mk_json_schema V s = Inr t" and "validate_strict_function_schema V t = Inl e"
  shows "caught e"
proof (cases "parse_json_strict (float_repr V) t")
  case (Inl x)
  then show ?thesis using assms(3) by (auto simp: validate_strict_function_schema_def json_error_exn_def)
next
  case (Inr v)
  obtain kvs where kvs: "v = JObj kvs" using accepted_object [OF assms(2) Inr] by blast
  have "\<And>sub. subschema (JObj kvs) (JObj sub) \<Longrightarrow> assertable sub"
    using assms(1,2) Inr kvs unfolding metaschema_checked_def by blast
  then show ?thesis using assms(3) Inr kvs node_error_caught [of "JObj kvs" e]
    by (auto simp: validate_strict_function_schema_def raise_if_def simp del: strict_schema_node.simps split: if_splits option.splits)
qed

lemma fails_construct_or: "(\<And>e. r = Inl e \<Longrightarrow> caught e) \<Longrightarrow> fails_only bad_request (construct_or (invalid_request code message param) r)"
  by (auto simp: construct_or_def bad_request_def split: sum.splits)

lemma fails_schema: "fails_only bad_request (schema_from_object E param v)"
  unfolding schema_from_object_def by (intro fails_rules fails_construct_or) (auto simp: schema_of_json_def intro: schema_error_caught)

lemma schema_from_object_Inr: "schema_from_object E param v = Inr t \<Longrightarrow> \<exists>s. mk_json_schema (qe_validator E) s = Inr t"
  by (auto simp: schema_from_object_def reject_def schema_of_json_def split: json.splits)

lemma fails_declaration: "metaschema_checked (qe_validator E) \<Longrightarrow> fails_only bad_request (function_declaration E p q d)"
  unfolding function_declaration_def build_tool_def
  by (intro fails_rules fails_schema fails_construct_or)
    (auto dest!: schema_from_object_Inr intro: strict_error_caught simp: mk_function_tool_def raise_if_def split: if_splits)

subsection \<open>Tool choice\<close>

text \<open>A choice that names a blank tool: the exception of the constructor escapes.\<close>

definition blank_choice :: "(json_dict \<Rightarrow> json) \<Rightarrow> json \<Rightarrow> bool" where
  "blank_choice named v \<longleftrightarrow> (\<exists>d n. v = JObj d \<and> named d = JStr n \<and> blank n)"

definition nameless :: exn where
  "nameless = ValueError ''named tool choice requires a non-empty name''"

lemma fails_choice: "fails_only (\<lambda>f. bad_request f \<or> f = Raised nameless \<and> blank_choice named v) (parse_choice named v)"
  unfolding parse_choice_def bad_choice_def
  by (intro fails_rules)
    (auto simp: reject_def bad_request_def construct_def mk_tool_choice_def raise_if_def nameless_def blank_choice_def choice_modes_def
      split: if_splits sum.splits)

lemma fails_policy:
  assumes "\<And>i raw. fails_only bad_request (read i raw)"
  shows "fails_only (\<lambda>f. bad_request f \<or> f = Raised nameless \<and> blank_choice named (json_get body ''tool_choice'')) (parse_tool_policy read named body)"
proof -
  have tools: "fails_only bad_request (parse_tool_list read v)" for v
    unfolding parse_tool_list_def by (intro fails_rules assms) simp_all
  have policy: "mk_tool_policy p = Inl e \<Longrightarrow> caught e" for p e
    by (auto simp: mk_tool_policy_def raise_if_def split: if_splits)
  show ?thesis unfolding parse_tool_policy_def
    by (intro fails_rules fails_weaken [OF tools] fails_choice fails_weaken [OF fails_construct_or] fails_weaken [OF fails_reject])
      (auto intro: policy)
qed

subsection \<open>Sampling\<close>

text \<open>A number too large for a double, somewhere in a value.\<close>

fun huge_number :: "json \<Rightarrow> bool" where
  "huge_number (JInt n) = float_overflows n"
| "huge_number (JArr vs) = (\<exists>v\<in>set vs. huge_number v)"
| "huge_number (JObj d) = (\<exists>kv\<in>set d. huge_number (snd kv))"
| "huge_number v = False"

definition caught_or_huge :: "json_dict \<Rightarrow> exn \<Rightarrow> bool" where
  "caught_or_huge body e \<longleftrightarrow> caught e \<or> (e = OverflowError \<and> huge_number (JObj body))"

lemma fails_caught: "caught e \<Longrightarrow> caught_or_huge body e"
  by (simp add: caught_or_huge_def)

lemma fails_raise_if: "caught e \<Longrightarrow> fails_only (caught_or_huge body) r \<Longrightarrow> fails_only (caught_or_huge body) (raise_if b e r)"
  by (simp add: raise_if_def fails_caught)

lemma fails_number: "(huge_number v \<Longrightarrow> huge_number (JObj body)) \<Longrightarrow> fails_only (caught_or_huge body) (finite_number fv v)"
  by (auto simp: finite_number_def raise_if_def caught_or_huge_def split: json.splits option.splits)

lemma huge_member: "map_of body name = Some v \<Longrightarrow> huge_number v \<Longrightarrow> huge_number (JObj body)"
  by (force dest: map_of_SomeD)

lemma fails_integer: "fails_only (caught_or_huge body) (integer_value v)" "fails_only (caught_or_huge body) (bool_value v)"
  by (auto simp: integer_value_def bool_value_def caught_or_huge_def split: json.splits)

lemma fails_bias: "(huge_number (JObj d) \<Longrightarrow> huge_number (JObj body)) \<Longrightarrow> fails_only (caught_or_huge body) (logit_bias_entries fv d seen)"
proof (induction d arbitrary: seen)
  case (Cons p d)
  obtain k v where p: "p = (k, v)" by fastforce
  have "huge_number v \<Longrightarrow> huge_number (JObj body)" "huge_number (JObj d) \<Longrightarrow> huge_number (JObj body)" using Cons.prems p by auto
  then show ?case unfolding p logit_bias_entries.simps
    by (intro fails_rules fails_raise_if fails_number Cons.IH) (auto simp: caught_or_huge_def)
qed simp

lemma fails_token_ids: "fails_only (caught_or_huge body) (token_ids vs seen)"
proof (induction vs arbitrary: seen)
  case (Cons v vs)
  show ?case unfolding token_ids.simps by (intro fails_rules fails_raise_if fails_integer Cons.IH) simp_all
qed simp

lemma fails_field: "(\<And>v. map_of body name = Some v \<Longrightarrow> fails_only P (read v)) \<Longrightarrow> fails_only P (field_or body name read d)"
  by (auto simp: field_or_def split: option.split)

lemma checked_caught: "list_all (\<lambda>c. caught (snd c)) cs \<Longrightarrow> fails_only (caught_or_huge body) (checked cs x)"
proof -
  assume all: "list_all (\<lambda>c. caught (snd c)) cs"
  have "first_error cs = Some e \<Longrightarrow> caught e" for e using all by (induction cs rule: first_error.induct) (auto split: if_splits)
  then show ?thesis by (auto simp: checked_def caught_or_huge_def split: option.split)
qed

lemma banned_caught: "list_all (\<lambda>c. caught (snd c)) (banned_checks seen ss)"
  by (induction ss arbitrary: seen) auto

lemma fails_config: "fails_only (caught_or_huge body) (mk_sampling_config c)"
  unfolding mk_sampling_config_def by (rule checked_caught) (simp add: banned_caught)

lemma fails_arguments: "fails_only (caught_or_huge body) (sampling_arguments fv body requested)"
proof -
  have bias: "fails_only (caught_or_huge body) (parse_logit_bias fv (json_get body ''logit_bias''))"
  proof -
    have "huge_number (json_get body ''logit_bias'') \<Longrightarrow> huge_number (JObj body)"
      by (auto simp: json_get_def simp del: huge_number.simps(3) dest: huge_member split: option.splits)
    then show ?thesis unfolding parse_logit_bias_def
      by (intro fails_rules fails_bias) (auto simp: caught_or_huge_def)
  qed
  have small: "fails_only (caught_or_huge body) (parse_penalty_range v)" "fails_only (caught_or_huge body) (parse_token_id_extension b v)"
    "fails_only (caught_or_huge body) (parse_string_list_extension v)" for b v
    unfolding parse_penalty_range_def parse_token_id_extension_def parse_string_list_extension_def
    by (intro fails_rules fails_raise_if fails_integer fails_token_ids; simp add: caught_or_huge_def)+
  show ?thesis unfolding sampling_arguments_def
    by (intro fails_bind fails_field bias small fails_number fails_integer fails_config) (auto intro: huge_member simp del: huge_number.simps(3))
qed

definition overflows :: "json_dict \<Rightarrow> override_policy option \<Rightarrow> openai_error failure \<Rightarrow> bool" where
  "overflows body policy f \<longleftrightarrow> f = Raised OverflowError \<and> huge_number (JObj (apply_sampling_overrides body policy))"

lemma fails_sampling: "fails_only (\<lambda>f. bad_request f \<or> overflows body policy f) (parse_sampling E body policy)"
proof -
  let ?body = "apply_sampling_overrides body policy"
  have "fails_only (\<lambda>f. bad_request f \<or> overflows body policy f)
      (construct_or (invalid_request code message param) (sampling_arguments fv ?body requested))" for code message param fv requested
    using fails_arguments [of ?body fv requested]
    by (auto simp: fails_only_def construct_or_def caught_or_huge_def bad_request_def overflows_def split: sum.splits)
  then show ?thesis unfolding parse_sampling_def by (intro fails_rules) simp_all
qed

subsection \<open>The rest of a body\<close>

lemma fails_effort: "fails_only bad_request (parse_reasoning_effort param v)"
  unfolding parse_reasoning_effort_def by (intro fails_rules) simp_all

lemma budget_values: "each (\<lambda>i. budget_value) n nvs = Inr ns \<Longrightarrow> list_all (\<lambda>m. - 1 \<le> m) ns"
  by (erule each_all) (auto simp: budget_value_def reject_def split: json.splits if_splits)

lemma hd_budget: "each (\<lambda>i. budget_value) n nvs = Inr ns \<Longrightarrow> nvs \<noteq> [] \<Longrightarrow> - 1 \<le> hd ns"
  using budget_values [of n nvs ns] by (cases nvs) (auto simp: sum_bind_Inr)

lemma fails_budget: "fails_only bad_request (parse_reasoning_budget body)"
  unfolding parse_reasoning_budget_def Let_def
  by (intro fails_rules fails_construct)
    (auto simp: mk_reasoning_budget_override_def inherit_budget_def raise_if_def budget_value_def negative_def
      dest!: hd_budget intro: fails_rules split: option.splits json.split)

lemma fails_spec: "fails_only bad_request (spec_of g schema)" if "g \<noteq> GUnknown"
  using that unfolding spec_of_def by (intro fails_rules fails_construct) (auto simp: mk_structured_spec_def)

lemma fails_format: "fails_only bad_request (parse_format E code message p d)"
  unfolding parse_format_def by (intro fails_rules fails_schema fails_spec) simp_all

lemma fails_chat_structured: "fails_only bad_request (chat_structured_output E v)"
  unfolding chat_structured_output_def Let_def by (intro fails_rules fails_schema fails_spec fails_format fails_object) simp_all

lemma fails_stop: "fails_only bad_request (parse_stop v)"
  unfolding parse_stop_def by (intro fails_rules) simp_all

lemma fails_seed: "fails_only bad_request (parse_seed body)" "fails_only bad_request (parse_flag body name)" "fails_only bad_request (parse_model body)"
  unfolding parse_seed_def parse_flag_def parse_model_def by (intro fails_rules; simp)+

lemma fails_usage: "fails_only bad_request (parse_include_usage body)"
  unfolding parse_include_usage_def by (intro fails_rules) simp_all

lemma fails_chat_limit: "fails_only bad_request (chat_output_limit E limit0 body)"
  unfolding chat_output_limit_def Let_def by (intro fails_rules) simp_all

lemma accepted_stops: "parse_stop v = Inr stops \<Longrightarrow> list_all (\<lambda>s. \<not> fst (stop_check s)) stops"
proof -
  have texts: "nonempty_texts vs = Some ss \<Longrightarrow> [] \<in> set ss \<Longrightarrow> False" for vs ss
    by (induction vs arbitrary: ss) (auto simp: nonempty_texts_def split: json.splits if_splits)
  show "parse_stop v = Inr stops \<Longrightarrow> list_all (\<lambda>s. \<not> fst (stop_check s)) stops"
    by (auto simp: parse_stop_def stop_check_def list_all_iff reject_def split: json.splits if_splits option.splits) (use texts in blast)
qed

lemma accepted_limit: "chat_output_limit E limit0 body = Inr (Some n) \<Longrightarrow> 0 < n"
  by (auto simp: chat_output_limit_def Let_def reject_def split: json.splits if_splits option.splits)

lemma accepted_model: "parse_model body = Inr model \<Longrightarrow> \<not> blank model"
  by (auto simp: parse_model_def reject_def dest: nonblank_text_Some split: option.splits)

lemma serving_accepted:
  assumes "(\<And>n. sq_max_output_tokens q = Some n \<Longrightarrow> 0 < n)" and "list_all (\<lambda>s. \<not> fst (stop_check s)) (sq_stop_conditions q)"
  shows "\<exists>x. mk_serving_request q = Inr x"
proof -
  have "\<exists>x. checked (request_checks (sq_max_output_tokens q) (sq_stop_conditions q)) q = Inr x"
    unfolding checked_Inr using assms by (force simp: request_checks_def list_all_iff split: option.split)
  then show ?thesis by (simp add: mk_serving_request_def)
qed

section \<open>Chat Completions\<close>

definition expected_failure :: "(json_dict \<Rightarrow> json) \<Rightarrow> json_dict \<Rightarrow> override_policy option \<Rightarrow> openai_error failure \<Rightarrow> bool" where
  "expected_failure named body policy f \<longleftrightarrow> bad_request f \<or> f = Raised nameless \<and> blank_choice named (json_get body ''tool_choice'')
     \<or> overflows body policy f"

lemma expected_rules:
  "fails_only bad_request r \<Longrightarrow> fails_only (expected_failure named body policy) r"
  "fails_only (expected_failure named body policy) (parse_sampling E body policy)"
  using fails_sampling [of body policy E] by (auto simp: fails_only_def expected_failure_def)

lemma expected_policy:
  "(\<And>i raw. fails_only bad_request (read i raw)) \<Longrightarrow> fails_only (expected_failure named body policy) (parse_tool_policy read named body)"
  using fails_policy [of read named body] by (auto simp: fails_only_def expected_failure_def)

lemma fails_chat_tool: "metaschema_checked (qe_validator E) \<Longrightarrow> fails_only bad_request (chat_tool E i raw)"
  unfolding chat_tool_def Let_def by (intro fails_rules fails_declaration) simp_all

text \<open>C34. Chat Completions: a body that is not accepted is answered with the protocol's own error of status 400, unless its
  tool choice names a blank tool or it holds an integer too large for a double: these two raise an exception that the
  handler does not catch.\<close>

theorem chat_parse_failures:
  assumes "metaschema_checked (qe_validator E)" and "\<not> blank rid" and "parse_chat E limit0 policy body rid = Inl f"
  shows "(\<exists>e. f = Rejected e \<and> oe_status_code e = 400)
    \<or> (f = Raised (ValueError ''named tool choice requires a non-empty name'') \<and> blank_choice chat_choice_name (json_get body ''tool_choice''))
    \<or> (f = Raised OverflowError \<and> huge_number (JObj (apply_sampling_overrides body policy)))"
proof -
  have "fails_only (expected_failure chat_choice_name body policy) (parse_chat E limit0 policy body rid)"
    unfolding parse_chat_def
    by (intro fails_bind fails_if fails_construct serving_accepted expected_rules expected_policy fails_chat_tool [OF assms(1)]
        fails_messages fails_effort fails_budget fails_chat_limit fails_chat_structured fails_seed fails_usage fails_stop fails_reject)
      (use assms(2) in \<open>auto simp: mk_canonical_request_def mk_parsed_openai_request_def raise_if_def
        dest: accepted_model accepted_limit accepted_stops split: if_splits\<close>)
  then show ?thesis using assms(3)
    by (auto simp: fails_only_def expected_failure_def bad_request_def invalid_request_def nameless_def overflows_def)
qed

section \<open>Responses\<close>

lemma fails_message_text: "fails_only bad_request (message_text param v)"
  unfolding message_text_def response_text_part_def by (intro fails_rules fails_joined) simp_all

lemma fails_response_content: "fails_only bad_request (response_content X param v)"
  unfolding response_content_def response_part_def
  by (intro fails_rules fails_construct detail_ok) (auto dest: nonblank_text_Some)

lemma fails_reasoning_text: "fails_only bad_request (reasoning_text param v)"
  unfolding reasoning_text_def reasoning_part_def by (intro fails_rules fails_joined) simp_all

lemma response_user_item: "response_content X param v = Inr c \<Longrightarrow> fails_only P (user_item c)"
  by (auto simp: response_content_def sum_bind_Inr gathered_item plain_item reject_def split: json.splits list.splits)

lemma response_output_parts: "response_content X param v = Inr (ContentParts ps) \<Longrightarrow> list_ex is_image_part ps"
  by (auto simp: response_content_def sum_bind_Inr gather_parts_def reject_def split: json.splits list.splits if_splits)

lemma fails_message_input: "fails_only bad_request (message_input p item s)"
proof -
  have role: "fails_only bad_request (case r of SYSTEM \<Rightarrow> f1 | DEVELOPER \<Rightarrow> f2 | USER \<Rightarrow> f3 | ASSISTANT \<Rightarrow> f4)"
    if "fails_only bad_request f1" "fails_only bad_request f2" "fails_only bad_request f3" "fails_only bad_request f4" for r and f1 f2 f3 f4 :: "input_state parse"
    using that by (cases r) auto
  show ?thesis unfolding message_input_def
    by (intro fails_rules role fails_response_content fails_message_text response_user_item) simp_all
qed

lemma fails_output_input: "fails_only bad_request (output_input p item s)"
proof -
  have content: "fails_only bad_request (case c of PlainText t \<Rightarrow> g t | ContentParts ps \<Rightarrow> h ps)"
    if "\<And>t. fails_only bad_request (g t)" "\<And>ps. c = ContentParts ps \<Longrightarrow> fails_only bad_request (h ps)" for c and g :: "string \<Rightarrow> canonical_item parse" and h
    using that by (cases c) auto
  show ?thesis unfolding output_input_def
    by (intro fails_rules content fails_response_content fails_construct)
      (auto simp: mk_tool_result_item_def mk_multimodal_tool_result_item_def dest: nonblank_text_Some response_output_parts)
qed

definition index_ok :: "input_state \<Rightarrow> bool" where
  "index_ok s \<longleftrightarrow> 0 \<le> in_call_index s"

lemma fails_input_item: "index_ok s \<Longrightarrow> fails_only bad_request (input_item i raw s)"
  unfolding input_item_def Let_def reasoning_input_def call_input_def
  by (intro fails_rules fails_message_input fails_output_input fails_reasoning_text fails_construct)
    (auto simp: mk_tool_call_item_def index_ok_def dest: nonblank_text_Some)

lemma input_item_index: "input_item i raw s = Inr t \<Longrightarrow> index_ok s \<Longrightarrow> index_ok t"
  by (auto simp: input_item_def Let_def message_input_def reasoning_input_def call_input_def output_input_def sum_bind_Inr index_ok_def
      new_turn_def append_item_def reject_def split: if_splits option.splits message_role.splits json.splits)

lemma fails_input_loop: "index_ok s \<Longrightarrow> fails_only bad_request (input_loop i vs s)"
proof (induction vs arbitrary: i s)
  case (Cons v vs)
  then show ?case by (auto intro!: fails_bind fails_input_item dest: input_item_index)
qed simp

lemma fails_input: "fails_only bad_request (parse_input v)"
  unfolding parse_input_def by (intro fails_rules fails_input_loop) (simp_all add: index_ok_def new_input_def)

lemma fails_response_options:
  "fails_only bad_request (parse_instructions v)" "fails_only bad_request (response_output_limit limit0 body)"
  "fails_only bad_request (response_reasoning v)" "fails_only bad_request (parse_state_options body)" "fails_only bad_request (parse_count_state_options body)"
  unfolding parse_instructions_def response_output_limit_def Let_def response_reasoning_def parse_state_options_def
    parse_count_state_options_def parse_previous_response_id_def no_conversation_def
  by (intro fails_rules fails_effort fails_object; simp)+

lemma fails_response_structured: "fails_only bad_request (response_structured_output E v)"
  unfolding response_structured_output_def Let_def by (intro fails_rules fails_schema fails_spec fails_format fails_object) simp_all

lemma fails_response_tool: "metaschema_checked (qe_validator E) \<Longrightarrow> fails_only bad_request (response_tool E i raw)"
  unfolding response_tool_def Let_def by (intro fails_rules fails_declaration) simp_all

lemma accepted_response_limit: "response_output_limit limit0 body = Inr (Some n) \<Longrightarrow> 0 < n"
  by (auto simp: response_output_limit_def Let_def reject_def split: json.splits if_splits option.splits)

text \<open>C35. Responses: the same for both adapters, the one that generates and the one that counts tokens.\<close>

theorem responses_parse_failures:
  assumes "metaschema_checked (qe_validator E)" and "\<not> blank rid"
    and "parse_responses E limit0 policy body rid = Inl f \<or> parse_responses_count E body rid = Inl f"
  shows "(\<exists>e. f = Rejected e \<and> oe_status_code e = 400)
    \<or> (f = Raised (ValueError ''named tool choice requires a non-empty name'') \<and> blank_choice response_choice_name (json_get body ''tool_choice''))
    \<or> (f = Raised OverflowError \<and> huge_number (JObj (apply_sampling_overrides body policy)))"
proof -
  let ?P = "expected_failure response_choice_name body policy"
  have "fails_only ?P (parse_responses E limit0 policy body rid)" unfolding parse_responses_def
    by (intro fails_bind fails_prod fails_construct serving_accepted expected_rules expected_policy fails_response_tool [OF assms(1)]
        fails_input fails_budget fails_response_options fails_response_structured fails_seed)
      (use assms(2) in \<open>auto simp: mk_canonical_request_def raise_if_def dest: accepted_model accepted_response_limit split: if_splits\<close>)
  moreover have "fails_only ?P (parse_responses_count E body rid)" unfolding parse_responses_count_def
    by (intro fails_bind fails_construct serving_accepted expected_rules expected_policy fails_response_tool [OF assms(1)]
        fails_input fails_budget fails_response_options fails_response_structured fails_seed)
      (use assms(2) in \<open>auto simp: mk_canonical_request_def raise_if_def dest: accepted_model split: if_splits\<close>)
  ultimately show ?thesis using assms(3)
    by (auto simp: fails_only_def expected_failure_def bad_request_def invalid_request_def nameless_def overflows_def)
qed

section \<open>Completions\<close>

lemma fails_prompt: "fails_only bad_request (parse_prompt v)"
proof -
  have ids: "those (map (\<lambda>w. case w of JInt n \<Rightarrow> if 0 \<le> n then Some n else None | _ \<Rightarrow> None) vs) = Some ids \<Longrightarrow>
      list_all (\<lambda>i. 0 \<le> i) ids \<and> (vs \<noteq> [] \<longrightarrow> ids \<noteq> [])" for vs ids
    by (induction vs arbitrary: ids) (auto split: json.splits if_splits)
  show ?thesis unfolding parse_prompt_def Let_def
    by (intro fails_rules fails_construct) (auto simp: mk_raw_prompt_item_def dest: ids)
qed

lemma fails_completions_options:
  "fails_only bad_request (positive_max_tokens v)" "fails_only bad_request (reject_unsupported E body)" "fails_only bad_request (completions_include_usage body)"
  unfolding positive_max_tokens_def Let_def reject_unsupported_def completions_include_usage_def by (intro fails_rules; simp)+

lemma accepted_max_tokens: "positive_max_tokens v = Inr (Some n) \<Longrightarrow> 0 < n"
  by (auto simp: positive_max_tokens_def Let_def reject_def split: json.splits if_splits)

lemma raw_accepted:
  assumes "(\<And>n. rw_max_output_tokens q = Some n \<Longrightarrow> 0 < n)" and "list_all (\<lambda>s. \<not> fst (stop_check s)) (rw_stop_conditions q)"
  shows "\<exists>x. mk_raw_serving_request q = Inr x"
proof -
  have "\<exists>x. checked (request_checks (rw_max_output_tokens q) (rw_stop_conditions q)) q = Inr x"
    unfolding checked_Inr using assms by (force simp: request_checks_def list_all_iff split: option.split)
  then show ?thesis by (simp add: mk_raw_serving_request_def)
qed

text \<open>Completions, which has no tools: a refused body is answered with status 400, unless an integer is too large for a double.\<close>

theorem completions_parse_failures:
  assumes "\<not> blank rid" and "parse_completions E policy body rid = Inl f"
  shows "(\<exists>e. f = Rejected e \<and> oe_status_code e = 400)
    \<or> (f = Raised OverflowError \<and> huge_number (JObj (apply_sampling_overrides body policy)))"
proof -
  let ?P = "\<lambda>f. bad_request f \<or> overflows body policy f"
  have "fails_only ?P (parse_completions E policy body rid)" unfolding parse_completions_def
    by (intro fails_bind fails_if fails_construct raw_accepted fails_sampling
        fails_seed [THEN fails_weaken] fails_prompt [THEN fails_weaken] fails_completions_options [THEN fails_weaken] fails_stop [THEN fails_weaken]
        fails_reject [THEN fails_weaken])
      (use assms(1) in \<open>auto simp: mk_raw_prompt_request_def raise_if_def dest: accepted_model accepted_max_tokens accepted_stops split: if_splits\<close>)
  then show ?thesis using assms(2)
    by (auto simp: fails_only_def bad_request_def invalid_request_def overflows_def)
qed

section \<open>Anthropic Messages\<close>

definition anthropic_bad :: "anthropic_error failure \<Rightarrow> bool" where
  "anthropic_bad f \<longleftrightarrow> (\<exists>message. f = Rejected (refused message))"

lemma fails_refuse [simp]: "fails_only anthropic_bad (refuse message)"
  by (auto simp: refuse_def anthropic_bad_def)

lemma fails_object_of [simp]: "fails_only anthropic_bad (object_of message v)"
  by (auto simp: object_of_def split: json.split)

lemma fails_refused_or: "(\<And>e. r = Inl e \<Longrightarrow> caught e) \<Longrightarrow> fails_only anthropic_bad (construct_or (refused message) r)"
  by (auto simp: construct_or_def anthropic_bad_def split: sum.splits)

lemma named_string_Some: "named_string v = Some s \<Longrightarrow> v = JStr s \<and> \<not> blank s"
  by (auto simp: named_string_def split: json.splits if_splits)

lemma fails_text_blocks: "fails_only anthropic_bad (text_blocks field v)"
  unfolding text_blocks_def by (intro fails_rules) simp_all

lemma fails_image_block: "fails_only anthropic_bad (image_block b)"
proof -
  have data: "\<not> blank (''data:'' @ s)" for s by (simp add: blank_def py_space_def)
  show ?thesis unfolding image_block_def
    by (intro fails_rules fails_construct)
      (use data in \<open>auto simp: mk_image_content_part_def dest: named_string_Some\<close>)
qed

lemma fails_user_segment: "fails_only anthropic_bad (user_segment ps)"
  unfolding user_segment_def by (intro fails_rules fails_construct) (auto simp: mk_multimodal_message_item_def)

lemma fails_tool_result: "fails_only anthropic_bad (tool_result_block b)"
  unfolding tool_result_block_def result_part_def
  by (intro fails_rules fails_construct fails_image_block)
    (auto simp: mk_tool_result_item_def mk_multimodal_tool_result_item_def dest: named_string_Some)

lemma fails_user_blocks: "fails_only anthropic_bad (user_blocks raws segment)"
proof (induction raws arbitrary: segment)
  case Nil
  then show ?case by (simp add: fails_user_segment)
next
  case (Cons raw raws)
  show ?case unfolding user_blocks.simps Let_def
    by (intro fails_rules fails_image_block fails_user_segment fails_tool_result Cons.IH) simp_all
qed

lemma fails_assistant_blocks: "0 \<le> i \<Longrightarrow> fails_only anthropic_bad (assistant_blocks raws i)"
proof (induction raws arbitrary: i)
  case (Cons raw raws)
  show ?case unfolding assistant_blocks.simps Let_def
    by (intro fails_rules fails_construct Cons.IH) (use Cons.prems in \<open>auto simp: mk_tool_call_item_def dest: named_string_Some\<close>)
qed simp

lemma fails_role_of: "fails_only anthropic_bad (role_of raw)"
  unfolding role_of_def by (intro fails_rules) simp_all

lemma fails_skip: "fails_only anthropic_bad (skip_system p raws)"
proof (induction raws arbitrary: p)
  case (Cons raw raws)
  show ?case unfolding skip_system.simps by (intro fails_rules fails_role_of Cons.IH) simp_all
qed simp

lemma fails_placement: "fails_only anthropic_bad (check_placement p raws)"
proof (induction p raws rule: check_placement.induct)
  case (2 previous raw raws)
  show ?case
    by (subst check_placement.simps, intro fails_rules fails_role_of fails_skip) (auto intro: 2)
qed (simp add: check_placement.simps)

lemma fails_anthropic_messages: "fails_only anthropic_bad (parse_anthropic_messages v system)"
  unfolding parse_anthropic_messages_def anthropic_message_items_def Let_def parse_user_content_def parse_assistant_content_def
  by (intro fails_rules fails_placement fails_text_blocks fails_user_blocks fails_assistant_blocks) simp_all

lemma fails_anthropic_tool: "metaschema_checked V \<Longrightarrow> fails_only anthropic_bad (anthropic_tool V raw)"
  unfolding anthropic_tool_def Let_def build_tool_def
  by (intro fails_rules fails_refused_or)
    (auto simp: schema_of_json_def mk_function_tool_def raise_if_def intro: schema_error_caught strict_error_caught split: if_splits)

lemma fails_anthropic_policy: "metaschema_checked V \<Longrightarrow> fails_only anthropic_bad (anthropic_tool_policy V body)"
  unfolding anthropic_tool_policy_def anthropic_choice_def Let_def
  by (intro fails_rules fails_construct fails_refused_or fails_anthropic_tool)
    (auto simp: mk_tool_choice_def mk_tool_policy_def raise_if_def dest: named_string_Some split: if_splits)

lemma fails_output_config: "fails_only anthropic_bad (parse_output_config V v)"
  unfolding parse_output_config_def
  by (intro fails_rules fails_refused_or)
    (auto simp: sum_bind_Inl schema_of_json_def mk_structured_spec_def intro: schema_error_caught)

lemma fails_thinking: "fails_only anthropic_bad (parse_thinking v effort)"
  unfolding parse_thinking_def thinking_budget_def Let_def
  by (intro fails_rules fails_construct) (auto simp: mk_reasoning_budget_override_def inherit_budget_def raise_if_def negative_def)

lemma fails_stop_sequences: "fails_only anthropic_bad (parse_stop_sequences v)"
  unfolding parse_stop_sequences_def by (intro fails_rules) simp_all

lemma accepted_stop_sequences: "parse_stop_sequences v = Inr stops \<Longrightarrow> list_all (\<lambda>s. \<not> fst (stop_check s)) stops"
  by (auto simp: parse_stop_sequences_def refuse_def stop_check_def split: json.splits option.splits if_splits elim!: each_all)

lemma fails_identity: "fails_only anthropic_bad (identity_and_items body)"
  unfolding identity_and_items_def by (intro fails_rules fails_anthropic_messages) simp_all

lemma accepted_identity: "identity_and_items body = Inr (model, items) \<Longrightarrow> \<not> blank model"
  by (auto simp: identity_and_items_def refuse_def sum_bind_Inr dest: named_string_Some split: option.splits)

definition anthropic_expected :: "json_dict \<Rightarrow> anthropic_error failure \<Rightarrow> bool" where
  "anthropic_expected body f \<longleftrightarrow> anthropic_bad f \<or> (f = Raised OverflowError \<and> huge_number (JObj body))"

lemma anthropic_weaken: "fails_only anthropic_bad r \<Longrightarrow> fails_only (anthropic_expected body) r"
  by (auto simp: fails_only_def anthropic_expected_def)

lemma fails_anthropic_sampling: "fails_only (anthropic_expected body) (anthropic_sampling fv body)"
proof -
  have guarded: "fails_only (anthropic_expected body) (construct_or (refused message) r)" if "fails_only (caught_or_huge body) r" for message and r :: "'a res"
    using that by (auto simp: fails_only_def construct_or_def caught_or_huge_def anthropic_expected_def anthropic_bad_def split: sum.splits)
  show ?thesis unfolding anthropic_sampling_def
    by (intro fails_if fails_bind guarded fails_option fails_number fails_integer fails_config)
      (auto simp del: huge_number.simps(3) dest: huge_member)
qed

text \<open>C36. Anthropic Messages: a refused body is answered with status 400 by both adapters, unless an integer is too large for a
  double. The count of tokens does not even read the sampling parameters.\<close>

theorem anthropic_parse_failures:
  assumes "metaschema_checked V" and "\<not> blank rid"
    and "parse_anthropic V fv profile body rid = Inl f \<or> parse_anthropic_count V profile body rid = Inl f"
  shows "(\<exists>e. f = Rejected e \<and> ae_status_code e = 400) \<or> (f = Raised OverflowError \<and> huge_number (JObj body))"
proof -
  have "fails_only (anthropic_expected body) (parse_anthropic V fv profile body rid)" unfolding parse_anthropic_def
    by (intro fails_bind fails_prod fails_if fails_json fails_construct serving_accepted fails_anthropic_sampling
        anthropic_weaken [OF fails_identity] anthropic_weaken [OF fails_output_config] anthropic_weaken [OF fails_thinking]
        anthropic_weaken [OF fails_anthropic_policy [OF assms(1)]] anthropic_weaken [OF fails_stop_sequences] anthropic_weaken [OF fails_refuse])
      (use assms(2) in \<open>auto simp: mk_canonical_request_def raise_if_def sum_bind_Inr refuse_def dest: accepted_identity accepted_stop_sequences
        split: if_splits json.splits\<close>)
  moreover have "fails_only (anthropic_expected body) (parse_anthropic_count V profile body rid)" unfolding parse_anthropic_count_def
    by (intro fails_bind fails_prod fails_construct serving_accepted
        anthropic_weaken [OF fails_identity] anthropic_weaken [OF fails_output_config] anthropic_weaken [OF fails_thinking]
        anthropic_weaken [OF fails_anthropic_policy [OF assms(1)]])
      (use assms(2) in \<open>auto simp: mk_canonical_request_def raise_if_def dest: accepted_identity split: if_splits\<close>)
  ultimately show ?thesis using assms(3)
    by (auto simp: fails_only_def anthropic_expected_def anthropic_bad_def refused_def)
qed

section \<open>The two exceptions that escape\<close>

text \<open>A validator that knows one schema.\<close>

definition one_schema :: json where
  "one_schema = JObj [(''type'', JStr ''object'')]"

definition one_validator :: validator where
  "one_validator = \<lparr>float_repr = (\<lambda>t. None), check_schema = (\<lambda>v. v = one_schema), iter_errors = (\<lambda>s v. [])\<rparr>"

definition ex_request_env :: request_env where
  "ex_request_env = \<lparr>qe_validator = one_validator, qe_float = (\<lambda>t. if t = ''1.0'' then Some 1 else None)\<rparr>"

lemma one_validator_checked: "metaschema_checked one_validator"
proof -
  have "t = canonical_json_dumps one_schema" if "mk_json_schema one_validator s = Inr t" for s t
    using that by (auto simp: mk_json_schema_def one_validator_def raise_if_def split: sum.splits json.splits if_splits)
  moreover have "parse_json_strict (\<lambda>t. None) (canonical_json_dumps one_schema) = Inr one_schema" by code_simp
  moreover have "w = one_schema" if "subschema one_schema w" for w
    using that by induction (auto simp: one_schema_def strict_schema_children_def named_children_def single_child_def sequence_children_def
      json_get_def)
  moreover have "assertable [(''type'', JStr ''object'')]" by (simp add: assertable_def get_default_def)
  ultimately show ?thesis by (fastforce simp: metaschema_checked_def one_validator_def one_schema_def)
qed

definition greeting :: json_dict where
  "greeting = [(''model'', JStr ''m''), (''messages'', JArr [JObj [(''role'', JStr ''user''), (''content'', JStr ''hi'')]]), (''input'', JStr ''hi''),
     (''prompt'', JStr ''hi''), (''max_tokens'', JInt 9)]"

text \<open>A named tool choice with a blank name, in the shape of each protocol, and a temperature of one followed by 309 zeros.\<close>

definition nameless_choice :: json_dict where
  "nameless_choice = greeting @ [(''tool_choice'', JObj [(''type'', JStr ''function''), (''name'', JStr '' ''),
     (''function'', JObj [(''name'', JStr '' '')])])]"

definition huge_temperature :: json_dict where
  "huge_temperature = greeting @ [(''temperature'', JInt (10 ^ 309))]"

lemma escaping_exceptions:
  "parse_chat ex_request_env None None nameless_choice ''r'' = Inl (Raised nameless)"
  "parse_responses ex_request_env None None nameless_choice ''r'' = Inl (Raised nameless)"
  "parse_completions ex_request_env None huge_temperature ''r'' = Inl (Raised OverflowError)"
  "parse_anthropic one_validator (qe_float ex_request_env) None huge_temperature ''r'' = Inl (Raised OverflowError)"
  by code_simp+

theorem chat_parse_failures_witness:
  "parse_chat ex_request_env None None nameless_choice ''r'' = Inl (Raised nameless)
    \<and> blank_choice chat_choice_name (json_get nameless_choice ''tool_choice'')"
  using chat_parse_failures [OF _ _ escaping_exceptions(1)] one_validator_checked escaping_exceptions(1)
  by (simp add: ex_request_env_def nameless_def blank_def py_space_def)

theorem responses_parse_failures_witness:
  "parse_responses ex_request_env None None nameless_choice ''r'' = Inl (Raised nameless)
    \<and> blank_choice response_choice_name (json_get nameless_choice ''tool_choice'')"
  using responses_parse_failures [OF _ _ disjI1 [OF escaping_exceptions(2)]] one_validator_checked escaping_exceptions(2)
  by (simp add: ex_request_env_def nameless_def blank_def py_space_def)

theorem completions_parse_failures_witness:
  "parse_completions ex_request_env None huge_temperature ''r'' = Inl (Raised OverflowError)
    \<and> huge_number (JObj (apply_sampling_overrides huge_temperature None))"
  using completions_parse_failures [OF _ escaping_exceptions(3)] escaping_exceptions(3) by (simp add: blank_def py_space_def)

theorem anthropic_parse_failures_witness:
  "parse_anthropic one_validator (qe_float ex_request_env) None huge_temperature ''r'' = Inl (Raised OverflowError)
    \<and> huge_number (JObj huge_temperature)"
  using anthropic_parse_failures [OF one_validator_checked _ disjI1 [OF escaping_exceptions(4)]] escaping_exceptions(4)
  by (simp add: blank_def py_space_def)

end
