(* ===== verification/Request_Echo.thy ===== *)
theory Request_Echo
  imports Responses_Requests OpenAI_Properties Session
begin

text \<open>
  A client continues a conversation by sending back what it got. What the request parsers read from the answer of a
  generation are the items of that generation: for Chat Completions the message of the completion, for Responses the output
  items, which are compared with what a stateful session stores for the same generation.
\<close>

section \<open>What a generation says\<close>

fun call_of :: "generation_event \<Rightarrow> tool_call_item list" where
  "call_of (ToolCallCompleted r c) = [c]"
| "call_of e = []"

fun reasoning_said :: "generation_event \<Rightarrow> string" where
  "reasoning_said (ReasoningDelta r t) = t"
| "reasoning_said e = []"

definition calls_of :: "generation_event list \<Rightarrow> tool_call_item list" where
  "calls_of es = concat (map call_of es)"

definition numbered_from :: "int \<Rightarrow> tool_call_item list \<Rightarrow> bool" where
  "numbered_from n cs \<longleftrightarrow> map call_index cs = map (\<lambda>j. n + int j) [0..<length cs]"

lemma numbered_Nil [simp]: "numbered_from n []"
  by (simp add: numbered_from_def)

lemma numbered_Cons [simp]: "numbered_from n (c # cs) \<longleftrightarrow> call_index c = n \<and> numbered_from (n + 1) cs"
  by (auto simp: numbered_from_def upt_conv_Cons map_Suc_upt [symmetric] simp del: upt_Suc)

lemma calls_numbered:
  assumes "content_run r x es = Some (Idle, m)" and "\<And>c k i t. fst x = InCall c k i t \<Longrightarrow> snd x = i + 1"
  shows "numbered_from (case fst x of InCall c k i t \<Rightarrow> i | _ \<Rightarrow> snd x) (calls_of es)"
  using assms
proof (induction es arbitrary: x)
  case (Cons e es)
  obtain o1 n where x: "x = (o1, n)" by fastforce
  obtain y where y: "content_step r x e = Some y" "content_run r y es = Some (Idle, m)"
    using Cons.prems(1) by (auto split: option.splits)
  have keep: "\<And>c k i t. fst y = InCall c k i t \<Longrightarrow> snd y = i + 1"
    using y(1) Cons.prems(2) x by (cases e; cases o1) (auto split: if_splits)
  show ?case using Cons.IH [OF y(2) keep] y(1) x Cons.prems(2)
    by (cases e; cases o1) (auto simp: calls_of_def split: if_splits)
qed (auto simp: calls_of_def)

corollary well_formed_numbered: "well_formed_content r es \<Longrightarrow> numbered_from 0 (calls_of es)"
  using calls_numbered [of r "(Idle, 0)" es] by (auto simp: well_formed_content_iff)

text \<open>A call as the constructor of \<open>ToolCallItem\<close> lets it be.\<close>

definition real_call :: "tool_call_item \<Rightarrow> bool" where
  "real_call c \<longleftrightarrow> mk_tool_call_item (call_id c) (tool_name c) (arguments_json c) (call_index c) = Inr c"

lemma real_call_iff: "real_call c \<longleftrightarrow> \<not> blank (call_id c) \<and> \<not> blank (tool_name c) \<and> 0 \<le> call_index c"
  by (auto simp: real_call_def mk_tool_call_item_def)

section \<open>Chat Completions\<close>

definition assistant_turn :: "string \<Rightarrow> string option \<Rightarrow> tool_call_item list \<Rightarrow> canonical_item list" where
  "assistant_turn reasoning content calls =
     (if reasoning = [] then [] else [ReasoningItem \<lparr>ri_text = reasoning, starts_new_assistant_segment = False\<rparr>])
     @ (case content of None \<Rightarrow> [] | Some t \<Rightarrow> [MessageItem \<lparr>mi_role = ASSISTANT, mi_text = t\<rparr>]) @ map ToolCallItem calls"

lemma json_get_Cons [simp]: "json_get ((k, v) # d) j = (if k = j then v else json_get d j)" "json_get [] j = JNull"
  by (simp_all add: json_get_def)

lemma wire_call:
  assumes "real_call c" and "call_index c = int n"
  shows "assistant_tool_call i n (JObj [(''id'', JStr (call_id c)), (''type'', JStr ''function''),
      (''function'', JObj [(''name'', JStr (tool_name c)), (''arguments'', JStr (arguments_json c))])]) = Inr (ToolCallItem c)"
proof -
  have "mk_tool_call_item (call_id c) (tool_name c) (arguments_json c) (int n) = Inr c" using assms by (simp add: real_call_def)
  then show ?thesis using assms(1)
    by (simp add: assistant_tool_call_def Let_def as_object_def nonblank_text_def text_value_def real_call_iff construct_def)
qed

lemma parse_wire_calls:
  assumes "list_all real_call cs" and "numbered_from (int n) cs"
  shows "each (assistant_tool_call i) n (map (\<lambda>c. JObj [(''id'', JStr (call_id c)), (''type'', JStr ''function''),
      (''function'', JObj [(''name'', JStr (tool_name c)), (''arguments'', JStr (arguments_json c))])]) cs) = Inr (map ToolCallItem cs)"
  using assms
proof (induction cs arbitrary: n)
  case (Cons c cs)
  have "each (assistant_tool_call i) (Suc n) (map (\<lambda>c. JObj [(''id'', JStr (call_id c)), (''type'', JStr ''function''),
      (''function'', JObj [(''name'', JStr (tool_name c)), (''arguments'', JStr (arguments_json c))])]) cs) = Inr (map ToolCallItem cs)"
    using Cons.IH [of "Suc n"] Cons.prems by (simp add: add.commute)
  then show ?case using Cons.prems wire_call [of c n i] by simp
qed simp

lemma parse_completion_message:
  assumes "list_all real_call cs" and "numbered_from 0 cs" and "cc_calls m = map (\<lambda>c. (call_id c, tool_name c, arguments_json c)) cs"
  shows "parse_messages (JArr [completion_message m]) = Inr (assistant_turn (cc_reasoning m) (cc_content m) cs)"
proof -
  let ?wire = "map (\<lambda>c. JObj [(''id'', JStr (call_id c)), (''type'', JStr ''function''),
      (''function'', JObj [(''name'', JStr (tool_name c)), (''arguments'', JStr (arguments_json c))])]) cs"
  have calls: "each (assistant_tool_call 0) 0 ?wire = Inr (map ToolCallItem cs)"
    using parse_wire_calls [OF assms(1), of 0] assms(2) by simp
  show ?thesis
    by (cases "cc_content m"; cases "cc_reasoning m"; cases "cs = []")
      (use calls in \<open>simp_all add: parse_messages_def chat_message_def assistant_message_def Let_def as_object_def completion_message_def
        comp_def assms(3) opt_text_def assistant_tool_calls_def chat_text_content_def assistant_turn_def\<close>)
qed

text \<open>What the accumulator has collected: the deltas, and the completed calls under their indices.\<close>

lemma chat_collects:
  assumes "consume_events chat_consume es a = (Inr (), b)"
  shows "concat (ca_text b) = concat (ca_text a) @ concat (map text_said es)
    \<and> concat (ca_reasoning b) = concat (ca_reasoning a) @ concat (map reasoning_said es)"
  using assms
proof (induction es arbitrary: a)
  case (Cons e es)
  obtain a1 where a1: "chat_consume e a = (Inr (), a1)" "consume_events chat_consume es a1 = (Inr (), b)"
    using Cons.prems by (auto split: prod.splits sum.splits)
  show ?case using Cons.IH [OF a1(2)] a1(1) by (cases e) (auto simp: chat_consume_def split: sum.splits)
qed simp

lemma chat_collects_calls:
  assumes "consume_events chat_consume es a = (Inr (), b)" and "map fst (ca_calls a) = map int [0..<length (ca_calls a)]"
    and "numbered_from (int (length (ca_calls a))) (calls_of es)"
  shows "ca_calls b = ca_calls a @ map (\<lambda>c. (call_index c, c)) (calls_of es)"
  using assms
proof (induction es arbitrary: a)
  case (Cons e es)
  obtain a1 where a1: "chat_consume e a = (Inr (), a1)" "consume_events chat_consume es a1 = (Inr (), b)"
    using Cons.prems(1) by (auto split: prod.splits sum.splits)
  show ?case
  proof (cases "\<exists>r c. e = ToolCallCompleted r c")
    case True
    then obtain r c where e: "e = ToolCallCompleted r c" by blast
    have i: "call_index c = int (length (ca_calls a))" using Cons.prems(3) e by (simp add: calls_of_def)
    have "int (length (ca_calls a)) \<notin> fst ` set (ca_calls a)"
      using numbered_absent [OF Cons.prems(2)] by (simp add: map_of_eq_None_iff)
    then have calls: "ca_calls a1 = ca_calls a @ [(call_index c, c)]" using a1(1) e i by (auto simp: chat_consume_def update_absent)
    have "map fst (ca_calls a1) = map int [0..<length (ca_calls a1)]" using Cons.prems(2) calls i by simp
    then show ?thesis using Cons.IH [OF a1(2)] Cons.prems(3) e calls i by (simp add: calls_of_def add.commute [of 1])
  next
    case False
    then have "ca_calls a1 = ca_calls a" "calls_of (e # es) = calls_of es"
      using a1(1) by (cases e; auto simp: chat_consume_def calls_of_def split: sum.splits)+
    then show ?thesis using Cons.IH [OF a1(2)] Cons.prems(2,3) by simp
  qed
qed (simp add: calls_of_def)

text \<open>C37. Chat Completions: the assistant message of a completion, sent back in the next request, is parsed to exactly what the
  generation said: its reasoning, its text, and its tool calls in order, whatever the deltas were.\<close>

theorem chat_turn_returns:
  assumes "well_formed_content r es" and "list_all real_call (calls_of es)" and "new_chat_accumulator uuid now model rid created = Inr a"
  shows "\<exists>a' m. consume_events chat_consume (es @ [GenerationCompleted r reason u stop]) a = (Inr (), a')
    \<and> chat_accumulated a' = ChatCompletion m
    \<and> parse_messages (JArr [completion_message m]) = Inr (assistant_turn (concat (map reasoning_said es))
        (chat_content (concat (map text_said es)) (calls_of es \<noteq> [])) (calls_of es))"
proof -
  obtain n where n: "content_run r (Idle, 0) es = Some (Idle, n)" using assms(1) by (auto simp: well_formed_content_iff)
  have new: "ca_text a = []" "ca_reasoning a = []" "ca_calls a = []" "ca_error a = None"
    using assms(3) by (auto simp: new_chat_accumulator_def split: sum.splits)
  define s where "s = \<lparr>ch_model = ca_model a, ch_id = ca_id a, ch_created = ca_created a, ch_include_usage = False, ch_usage = ca_usage a,
    ch_terminal = False\<rparr>"
  have ag: "chat_agree s (Idle, 0) s a new_chat_client" by (simp add: chat_agree_def s_def new new_chat_client_def)
  then obtain b where b: "consume_events chat_consume es a = (Inr (), b)" "ca_error b = None"
    using chat.runs [OF n TrueI ag] by (auto simp: chat_agree_def)
  have said: "concat (ca_text b) = concat (map text_said es)" "concat (ca_reasoning b) = concat (map reasoning_said es)"
    using chat_collects [OF b(1)] new by simp_all
  have num: "numbered_from 0 (calls_of es)" by (rule well_formed_numbered [OF assms(1)])
  have calls: "ca_calls b = map (\<lambda>c. (call_index c, c)) (calls_of es)"
    using chat_collects_calls [OF b(1)] new num by simp
  have "map fst (ca_calls b) = map int [0..<length (ca_calls b)]" using num calls by (simp add: numbered_from_def comp_def)
  then have vals: "map (\<lambda>i. the (map_of (ca_calls b) i)) (sort (map fst (ca_calls b))) = calls_of es"
    using numbered_values [of "ca_calls b"] calls by (simp add: comp_def)
  define m where "m = \<lparr>cc_id = ca_id b, cc_created = ca_created b, cc_model = ca_model b,
    cc_content = chat_content (concat (map text_said es)) (calls_of es \<noteq> []), cc_reasoning = concat (map reasoning_said es),
    cc_calls = map (\<lambda>c. (call_id c, tool_name c, arguments_json c)) (calls_of es), cc_finish_reason = finish_reason reason,
    cc_usage = (case u of None \<Rightarrow> ca_usage b | Some v \<Rightarrow> Some v)\<rparr>"
  have "parse_messages (JArr [completion_message m]) = Inr (assistant_turn (cc_reasoning m) (cc_content m) (calls_of es))"
    by (rule parse_completion_message [OF assms(2) num]) (simp add: m_def)
  moreover have "consume_events chat_consume (es @ [GenerationCompleted r reason u stop]) a
      = (Inr (), b\<lparr>ca_usage := (case u of None \<Rightarrow> ca_usage b | Some v \<Rightarrow> Some v), ca_reason := Some (finish_reason reason)\<rparr>)"
    using b(1) by (simp add: consume_events_append chat_consume_def)
  ultimately show ?thesis using vals said b(2) by (simp add: chat_accumulated_def Let_def m_def)
qed

section \<open>Responses\<close>

text \<open>What the parser makes of an output item that is done.\<close>

fun echo_item :: "output_item \<Rightarrow> input_state \<Rightarrow> input_state" where
  "echo_item (ReasoningOut i u) s =
     (let starts = in_text s \<and> \<not> in_call s;
          s' = append_item (ReasoningItem \<lparr>ri_text = the u, starts_new_assistant_segment = starts\<rparr>) s in
      if starts then s'\<lparr>in_text := False, in_call := False\<rparr> else s')"
| "echo_item (MessageOut i u) s =
     (append_item (MessageItem \<lparr>mi_role = ASSISTANT, mi_text = the u\<rparr>) s)\<lparr>in_text := in_text s \<or> \<not> blank (the u)\<rparr>"
| "echo_item (CallOut i c n u) s =
     (append_item (ToolCallItem \<lparr>call_id = c, tool_name = n, arguments_json = the u, call_index = in_call_index s\<rparr>) s)
       \<lparr>in_call_index := in_call_index s + 1, in_call := True\<rparr>"

fun done_output :: "output_item \<Rightarrow> bool" where
  "done_output (ReasoningOut i u) \<longleftrightarrow> u \<noteq> None"
| "done_output (MessageOut i u) \<longleftrightarrow> u \<noteq> None"
| "done_output (CallOut i c n u) \<longleftrightarrow> u \<noteq> None \<and> \<not> blank c \<and> \<not> blank n"

lemma echo_parsed:
  assumes "done_output x" and "index_nonneg": "0 \<le> in_call_index s"
  shows "input_item i (item_json x) s = Inr (echo_item x s)" and "0 \<le> in_call_index (echo_item x s)"
  using assms
  by (cases x; (auto simp: input_item_def Let_def as_object_def reasoning_input_def message_input_def call_input_def reasoning_text_def
      message_text_def joined_def reasoning_part_def response_text_part_def text_value_def nonblank_text_def response_roles_def
      text_types_def construct_def mk_tool_call_item_def append_item_def; fail))+

lemma echo_loop:
  "list_all done_output xs \<Longrightarrow> 0 \<le> in_call_index s \<Longrightarrow> input_loop i (map item_json xs) s = Inr (fold echo_item xs s)"
  by (induction xs arbitrary: i s) (simp_all add: echo_parsed)

lemma echo_anonymous: "echo_item (anonymous x) = echo_item x" "done_output (anonymous x) = done_output x"
  by (cases x; auto simp: fun_eq_iff)+

text \<open>The flag apart, these are the items a stateful session stores.\<close>

fun without_segment :: "canonical_item \<Rightarrow> canonical_item" where
  "without_segment (ReasoningItem x) = ReasoningItem (x\<lparr>starts_new_assistant_segment := False\<rparr>)"
| "without_segment x = x"

lemma echo_stored:
  assumes "numbered_from (in_call_index s) (calls_of es)"
  shows "map without_segment (in_items (fold echo_item (concat (map done_of es)) s))
    = map without_segment (in_items s) @ concat (map output_of es)"
  using assms
proof (induction es arbitrary: s)
  case (Cons e es)
  show ?case
    by (cases e)
      (use Cons in \<open>auto simp: Let_def append_item_def output_of_def calls_of_def\<close>)
qed simp

lemma done_outputs: "list_all real_call (calls_of es) \<Longrightarrow> list_all done_output (concat (map done_of es))"
proof (induction es)
  case (Cons e es)
  then show ?case by (cases e) (auto simp: calls_of_def real_call_iff)
qed simp

text \<open>C38. Responses: the output of a response, sent back as input of the next request, is parsed to exactly the items that a stateful
  session would have stored for the same generation, in order, up to the flag that opens a new segment of the assistant.\<close>

theorem responses_turn_returns:
  assumes "well_formed_content r es" and "distinct (concat (map started_call es))" and "list_all real_call (calls_of es)"
    and "concat (map output_of es) \<noteq> []"
  shows "\<exists>out s' m items. feed_events responses_feed ([GenerationStarted r] @ es @ [GenerationCompleted r reason u stop])
      (new_responses_serializer R uuid) = (Inr out, s')
    \<and> read_responses out = Some m \<and> parse_input (JArr (map item_json (ro_output m))) = Inr items
    \<and> map without_segment items = concat (map output_of es)"
proof -
  obtain out s' m where m: "feed_events responses_feed ([GenerationStarted r] @ es @ [GenerationCompleted r reason u stop])
      (new_responses_serializer R uuid) = (Inr out, s')" "read_responses out = Some m" "map anonymous (ro_output m) = concat (map done_of es)"
    using responses_run [OF assms(1,2) refl] by blast
  have "list_all done_output (map anonymous (ro_output m))" unfolding m(3) by (rule done_outputs [OF assms(3)])
  then have ok: "list_all done_output (ro_output m)" by (simp add: list.pred_map comp_def echo_anonymous)
  have "fold echo_item (ro_output m) new_input = fold echo_item (map anonymous (ro_output m)) new_input"
    by (simp add: fold_map comp_def echo_anonymous)
  then have items: "map without_segment (in_items (fold echo_item (ro_output m) new_input)) = concat (map output_of es)"
    using echo_stored [of new_input es] well_formed_numbered [OF assms(1)] by (simp add: m(3) new_input_def)
  have "ro_output m \<noteq> []" using items assms(4) by (auto simp: new_input_def)
  then obtain x xs where x: "map item_json (ro_output m) = x # xs" by (cases "ro_output m") auto
  have "input_loop 0 (map item_json (ro_output m)) new_input = Inr (fold echo_item (ro_output m) new_input)"
    using echo_loop [OF ok] by (simp add: new_input_def)
  then have "parse_input (JArr (map item_json (ro_output m))) = Inr (in_items (fold echo_item (ro_output m) new_input))"
    by (simp add: x parse_input_def del: input_loop.simps)
  then show ?thesis using m(1,2) items by blast
qed

text \<open>The flag differs: after text without a call, reasoning that follows in the same answer is stored as part of the segment, but
  read back as the start of a new one.\<close>

definition text_then_reasoning :: "generation_event list" where
  "text_then_reasoning = [TextStarted ''r'', TextDelta ''r'' ''a'', TextCompleted ''r'' ''a'',
     ReasoningStarted ''r'', ReasoningDelta ''r'' ''b'', ReasoningCompleted ''r'' ''b'']"

lemma echo_opens_segment:
  "well_formed_content ''r'' text_then_reasoning"
  "parse_input (JArr (map item_json [MessageOut ''msg_'' (Some ''a''), ReasoningOut ''rs_'' (Some ''b'')])) =
     Inr [MessageItem \<lparr>mi_role = ASSISTANT, mi_text = ''a''\<rparr>, ReasoningItem \<lparr>ri_text = ''b'', starts_new_assistant_segment = True\<rparr>]"
  "concat (map output_of text_then_reasoning) =
     [MessageItem \<lparr>mi_role = ASSISTANT, mi_text = ''a''\<rparr>, ReasoningItem \<lparr>ri_text = ''b'', starts_new_assistant_segment = False\<rparr>]"
  by code_simp+

section \<open>Witnesses\<close>

lemma ex_answer_calls: "list_all real_call (calls_of ex_answer)" "concat (map output_of ex_answer) \<noteq> []"
  by code_simp+

theorem chat_turn_returns_witness:
  "\<exists>a' m. consume_events chat_consume (ex_answer @ [GenerationCompleted ''r'' TOOL_CALLS None None]) ex_chat_accumulator = (Inr (), a')
    \<and> chat_accumulated a' = ChatCompletion m
    \<and> parse_messages (JArr [completion_message m]) = Inr
        [ReasoningItem \<lparr>ri_text = ''hm'', starts_new_assistant_segment = False\<rparr>, MessageItem \<lparr>mi_role = ASSISTANT, mi_text = ''abz''\<rparr>,
         ToolCallItem \<lparr>call_id = ''c1'', tool_name = ''f'', arguments_json = ''{}'', call_index = 0\<rparr>]"
proof -
  have "assistant_turn (concat (map reasoning_said ex_answer))
        (chat_content (concat (map text_said ex_answer)) (calls_of ex_answer \<noteq> [])) (calls_of ex_answer) =
      [ReasoningItem \<lparr>ri_text = ''hm'', starts_new_assistant_segment = False\<rparr>, MessageItem \<lparr>mi_role = ASSISTANT, mi_text = ''abz''\<rparr>,
       ToolCallItem \<lparr>call_id = ''c1'', tool_name = ''f'', arguments_json = ''{}'', call_index = 0\<rparr>]"
    by code_simp
  then show ?thesis
    using chat_turn_returns [OF ex_answer_ok(1) ex_answer_calls(1) ex_chat_new(2), where reason = TOOL_CALLS and u = None and stop = None]
    by simp
qed

theorem responses_turn_returns_witness:
  "\<exists>out s' m items. feed_events responses_feed ([GenerationStarted ''r''] @ ex_answer @ [GenerationCompleted ''r'' STOP None None])
      (new_responses_serializer ex_setup (\<lambda>n. [])) = (Inr out, s')
    \<and> read_responses out = Some m \<and> parse_input (JArr (map item_json (ro_output m))) = Inr items \<and> length items = 4"
proof -
  have n: "length (concat (map output_of ex_answer)) = 4" by code_simp
  obtain out s' m items where r: "feed_events responses_feed ([GenerationStarted ''r''] @ ex_answer @ [GenerationCompleted ''r'' STOP None None])
      (new_responses_serializer ex_setup (\<lambda>n. [])) = (Inr out, s')" "read_responses out = Some m"
    "parse_input (JArr (map item_json (ro_output m))) = Inr items" "map without_segment items = concat (map output_of ex_answer)"
    using responses_turn_returns [OF ex_answer_ok ex_answer_calls, where reason = STOP and u = None and stop = None and R = ex_setup
      and uuid = "\<lambda>n. []"] by blast
  then have "length items = 4" using n by (metis length_map)
  then show ?thesis using r(1,2,3) by blast
qed

end
