(* ===== verification/Raw_Serving.thy ===== *)
theory Raw_Serving
  imports Terminal Completions Json_Roundtrip
begin

text \<open>
  Document continuation, \<open>src/exqserve/serving/raw.py\<close>: \<open>RawServingEngine.submit\<close> and \<open>RawServingSession\<close>, which turns
  the runtime's events into generation events and owns the terminal decision. What the runtime's session gives is a list
  of inputs, each with the terminal reason that the controlled session shows when it is read; the answers of the
  controller, the tokenizer and the clock are a record of outcomes. Also the prompt hash, with SHA-256 as a parameter.
\<close>

section \<open>The session\<close>

record raw_compiled_prompt =
  rcp_text :: string
  rcp_input_ids :: "int list"
  rcp_prompt_hash :: string
  rcp_stop_conditions :: "stop_condition list"

record raw_session =
  rs_request_id :: string
  rs_compiled :: raw_compiled_prompt
  rs_pending :: "generation_event list"
  rs_text_parts :: "string list"
  rs_text_started :: bool
  rs_evidence :: terminal_evidence
  rs_terminal :: bool
  rs_cancelled :: bool

definition new_raw_session :: "string \<Rightarrow> raw_compiled_prompt \<Rightarrow> raw_session" where
  "new_raw_session r p = \<lparr>rs_request_id = r, rs_compiled = p, rs_pending = [], rs_text_parts = [], rs_text_started = False,
     rs_evidence = new_evidence, rs_terminal = False, rs_cancelled = False\<rparr>"

text \<open>\<open>cancel\<close>: whether the controlled session is cancelled. Leaving the context does the same unless the session has ended.\<close>

definition raw_cancel :: "raw_session \<Rightarrow> bool \<times> raw_session" where
  "raw_cancel s = (if rs_terminal s \<or> rs_cancelled s then (False, s) else (True, s\<lparr>rs_cancelled := True\<rparr>))"

definition raw_exit :: "raw_session \<Rightarrow> bool \<times> raw_session" where
  "raw_exit s = (if rs_terminal s then (False, s) else raw_cancel s)"

text \<open>\<open>self._pending.append(Event(...))\<close>: the event is built first.\<close>

definition built :: "generation_event \<Rightarrow> raw_session \<Rightarrow> generation_event res \<times> raw_session" where
  "built e s = (mk_event e, s)"

definition append_events :: "generation_event list \<Rightarrow> raw_session \<Rightarrow> unit res \<times> raw_session" where
  "append_events es s = (Inr (), s\<lparr>rs_pending := rs_pending s @ es\<rparr>)"

definition append_event :: "generation_event \<Rightarrow> raw_session \<Rightarrow> unit res \<times> raw_session" where
  "append_event e = and_then (built e) (\<lambda>x. append_events [x])"

definition start_text :: "raw_session \<Rightarrow> unit res \<times> raw_session" where
  "start_text s = (if rs_text_started s then (Inr (), s)
     else append_event (TextStarted (rs_request_id s)) (s\<lparr>rs_text_started := True\<rparr>))"

definition record_raw :: "(terminal_evidence \<Rightarrow> terminal_evidence) \<Rightarrow> raw_session \<Rightarrow> unit res \<times> raw_session" where
  "record_raw f s = (Inr (), s\<lparr>rs_evidence := f (rs_evidence s)\<rparr>)"

definition resolve_raw :: "raw_session \<Rightarrow> terminal_decision res \<times> raw_session" where
  "resolve_raw s = (resolve None None (rs_evidence s), s)"

definition commit_raw :: "terminal_decision \<Rightarrow> raw_session \<Rightarrow> unit res \<times> raw_session" where
  "commit_raw d s = (case commit_decision d (rs_evidence s) of (r, ev) \<Rightarrow> (map_sum id (\<lambda>_. ()) r, s\<lparr>rs_evidence := ev\<rparr>))"

definition set_terminal :: "raw_session \<Rightarrow> unit res \<times> raw_session" where
  "set_terminal s = (Inr (), s\<lparr>rs_terminal := True\<rparr>)"

definition emit_terminal_decision :: "terminal_decision \<Rightarrow> raw_session \<Rightarrow> unit res \<times> raw_session" where
  "emit_terminal_decision d s = and_then
     (case d_disposition d of
        FAILURE \<Rightarrow> (case d_error d of
            None \<Rightarrow> raises (RuntimeError ''failure terminal decision is missing canonical error'')
          | Some e \<Rightarrow> append_event (GenerationFailed (rs_request_id s) e))
      | CANCELLATION \<Rightarrow> append_event (GenerationCancelled (rs_request_id s))
      | SUCCESS \<Rightarrow> raises (RuntimeError ''failure/cancellation emitter received a successful decision''))
     (\<lambda>_. and_then (commit_raw d) (\<lambda>_. set_terminal)) s"

text \<open>The end of a success. The events are built before any is queued; when the commit raises, the queue and the flag go back.\<close>

definition publish_success :: "completion_reason \<Rightarrow> terminal_decision \<Rightarrow> runtime_finished \<Rightarrow> raw_session \<Rightarrow> unit res \<times> raw_session" where
  "publish_success reason d f s = (let r = rs_request_id s in
     and_then (if rs_text_started s then returns [] else and_then (built (TextStarted r)) (\<lambda>x. returns [x])) (\<lambda>started.
     and_then (built (TextCompleted r (concat (rs_text_parts s)))) (\<lambda>completed.
     and_then (\<lambda>t. (timing_event_from_runtime r (rf_timing f), t)) (\<lambda>timing.
     and_then (built (UsageUpdated r (rf_usage f))) (\<lambda>usage.
     and_then (built (GenerationCompleted r reason (Some (rf_usage f)) None)) (\<lambda>completion.
       \<lambda>t. let queued = t\<lparr>rs_text_started := True, rs_pending := rs_pending t @ started @ [completed]
             @ (case timing of None \<Rightarrow> [] | Some e \<Rightarrow> [e]) @ [usage, completion]\<rparr> in
         (case commit_raw d queued of
            (Inl e, u) \<Rightarrow> (Inl e, u\<lparr>rs_pending := rs_pending t, rs_text_started := rs_text_started t\<rparr>)
          | (Inr _, u) \<Rightarrow> set_terminal u)))))) s)"

definition raw_finish :: "terminal_reason option \<Rightarrow> runtime_finished \<Rightarrow> raw_session \<Rightarrow> unit res \<times> raw_session" where
  "raw_finish reason f =
     and_then (record_raw (record_controlled_reason reason)) (\<lambda>_.
     and_then (record_raw (record_runtime_finished f)) (\<lambda>_.
     and_then resolve_raw (\<lambda>d.
       if d_disposition d \<noteq> SUCCESS then emit_terminal_decision d
       else (case d_completion d of
           None \<Rightarrow> raises (RuntimeError ''successful terminal decision is missing completion reason'')
         | Some c \<Rightarrow> publish_success c d f))))"

definition end_with :: "terminal_reason option \<Rightarrow> (terminal_evidence \<Rightarrow> terminal_evidence) \<Rightarrow> raw_session \<Rightarrow> unit res \<times> raw_session" where
  "end_with reason f =
     and_then (record_raw (record_controlled_reason reason)) (\<lambda>_.
     and_then (record_raw f) (\<lambda>_.
     and_then resolve_raw emit_terminal_decision))"

definition raw_cancel_event :: "terminal_reason option \<Rightarrow> raw_session \<Rightarrow> unit res \<times> raw_session" where
  "raw_cancel_event reason = end_with reason
     (\<lambda>ev. if ev_causal_owner ev \<noteq> Some LIFECYCLE_TERMINATION then record_runtime_cancelled ev else ev)"

definition raw_process :: "terminal_reason option \<Rightarrow> runtime_event \<Rightarrow> raw_session \<Rightarrow> unit res \<times> raw_session" where
  "raw_process reason event s = (case event of
       RuntimeStarted q \<Rightarrow> append_event (GenerationStarted (rs_request_id s)) s
     | RuntimeTextDelta d \<Rightarrow> and_then start_text (\<lambda>_.
         and_then (\<lambda>t. (Inr (), t\<lparr>rs_text_parts := rs_text_parts t @ [td_text d]\<rparr>)) (\<lambda>_.
           append_event (TextDelta (rs_request_id s) (td_text d)))) s
     | RuntimeFinished f \<Rightarrow> raw_finish reason f s
     | RuntimeFailed q e \<Rightarrow> end_with reason (record_runtime_failure e) s
     | RuntimeCancelled q \<Rightarrow> raw_cancel_event reason s)"

section \<open>Reading the session\<close>

datatype raw_input = FromRuntime runtime_event | RuntimeEnded | RuntimeRaised | ConsumerCancelled

definition stream_ended_error :: canonical_error where
  "stream_ended_error = canonical_error4 RUNTIME_FAILURE ''runtime_stream_ended''
     ''Inference runtime stream ended without a terminal event.'' False"

definition stream_exception_error :: canonical_error where
  "stream_exception_error = canonical_error4 INTERNAL ''runtime_stream_exception''
     ''Inference runtime stream failed without a typed terminal event.'' False"

definition processing_error :: canonical_error where
  "processing_error = canonical_error4 INTERNAL ''terminal_processing_failed''
     ''Inference terminal processing failed unexpectedly.'' False"

text \<open>One round of the loop of \<open>__anext__\<close> with what the runtime gives; an exception here leaves \<open>__anext__\<close>.\<close>

definition raw_receive :: "raw_input \<Rightarrow> terminal_reason option \<Rightarrow> raw_session \<Rightarrow> unit res \<times> raw_session" where
  "raw_receive x reason s = (case x of
       ConsumerCancelled \<Rightarrow> (Inl CancelledError, s)
     | RuntimeEnded \<Rightarrow> end_with reason (record_runtime_failure stream_ended_error) s
     | RuntimeRaised \<Rightarrow> end_with reason (record_unknown_failure stream_exception_error) s
     | FromRuntime e \<Rightarrow> (case raw_process reason e s of
           (Inr u, t) \<Rightarrow> (Inr u, t)
         | (Inl _, t) \<Rightarrow> if rs_terminal t then (Inr (), t)
             else end_with reason (record_unknown_failure processing_error) t))"

text \<open>\<open>__anext__\<close>. \<open>NextWaits\<close>: the runtime gives nothing more for now.\<close>

datatype raw_next = NextEvent generation_event | NextStop | NextWaits | NextRaises exn

fun raw_anext :: "(raw_input \<times> terminal_reason option) list \<Rightarrow> raw_session \<Rightarrow>
    raw_next \<times> (raw_input \<times> terminal_reason option) list \<times> raw_session" where
  "raw_anext xs s = (case rs_pending s of
       e # es \<Rightarrow> (NextEvent e, xs, s\<lparr>rs_pending := es\<rparr>)
     | [] \<Rightarrow> if rs_terminal s then (NextStop, xs, s)
         else (case xs of [] \<Rightarrow> (NextWaits, [], s)
           | (x, reason) # rest \<Rightarrow> (case raw_receive x reason s of
               (Inl e, t) \<Rightarrow> (NextRaises e, rest, t)
             | (Inr u, t) \<Rightarrow> raw_anext rest t)))"

declare raw_anext.simps [simp del]

text \<open>A consumer that reads until the session stops, waits or raises.\<close>

lemma raw_anext_progress:
  "raw_anext xs s = (NextEvent e, ys, t) \<Longrightarrow> length ys < length xs \<or> ys = xs \<and> length (rs_pending t) < length (rs_pending s)"
proof (induction xs arbitrary: s)
  case Nil
  then show ?case by (subst (asm) raw_anext.simps) (auto split: list.splits if_splits)
next
  case (Cons x xs)
  show ?case
  proof (cases "rs_pending s")
    case Nil
    then obtain u where "raw_anext xs u = (NextEvent e, ys, t)"
      using Cons.prems by (subst (asm) raw_anext.simps) (auto split: if_splits prod.splits sum.splits)
    then show ?thesis using Cons.IH by fastforce
  next
    case (Cons e' es)
    then show ?thesis using Cons.prems by (subst (asm) raw_anext.simps) auto
  qed
qed

function raw_drain :: "(raw_input \<times> terminal_reason option) list \<Rightarrow> raw_session \<Rightarrow> generation_event list \<times> raw_next \<times> raw_session" where
  "raw_drain xs s = (case raw_anext xs s of
       (NextEvent e, ys, t) \<Rightarrow> (case raw_drain ys t of (es, n, u) \<Rightarrow> (e # es, n, u))
     | (n, ys, t) \<Rightarrow> ([], n, t))"
  by pat_completeness auto

termination
  by (relation "measures [\<lambda>(xs, s). length xs, \<lambda>(xs, s). length (rs_pending s)]") (auto dest: raw_anext_progress [OF sym])

declare raw_drain.simps [simp del]

text \<open>The events of the session as the loop over the inputs produces them.\<close>

definition after_events :: "'a list \<Rightarrow> 'a list \<times> 'b \<Rightarrow> 'a list \<times> 'b" where
  "after_events es p = (es @ fst p, snd p)"

lemma after_events_simps [simp]: "after_events [] p = p" "after_events es (fs, x) = (es @ fs, x)"
  by (simp_all add: after_events_def)

lemma drain_pending: "raw_drain xs s = after_events (rs_pending s) (raw_drain xs (s\<lparr>rs_pending := []\<rparr>))"
proof (induction "rs_pending s" arbitrary: s)
  case (Cons e es)
  have "raw_drain xs s = after_events [e] (raw_drain xs (s\<lparr>rs_pending := es\<rparr>))"
    by (subst raw_drain.simps, subst raw_anext.simps) (simp add: Cons.hyps(2) [symmetric] split: prod.split)
  then show ?case using Cons.hyps(1) [of "s\<lparr>rs_pending := es\<rparr>"] Cons.hyps(2) by (simp add: after_events_def)
next
  case Nil
  then show ?case by (cases s) simp
qed

lemma drain_empty:
  assumes "rs_pending s = []"
  shows "raw_drain xs s = (if rs_terminal s then ([], NextStop, s) else (case xs of [] \<Rightarrow> ([], NextWaits, s)
     | (x, reason) # rest \<Rightarrow> (case raw_receive x reason s of (Inl e, t) \<Rightarrow> ([], NextRaises e, t) | (Inr u, t) \<Rightarrow> raw_drain rest t)))"
proof -
  have same: "raw_anext xs s = raw_anext ys t \<Longrightarrow> raw_drain xs s = raw_drain ys t" for ys t
    by (subst (1 2) raw_drain.simps) simp
  have n: "raw_anext xs s = (if rs_terminal s then (NextStop, xs, s) else (case xs of [] \<Rightarrow> (NextWaits, [], s)
     | (x, reason) # rest \<Rightarrow> (case raw_receive x reason s of (Inl e, t) \<Rightarrow> (NextRaises e, rest, t) | (Inr u, t) \<Rightarrow> raw_anext rest t)))"
    using assms by (subst raw_anext.simps) simp
  show ?thesis
  proof (cases "\<exists>x reason rest u t. xs = (x, reason) # rest \<and> raw_receive x reason s = (Inr u, t) \<and> \<not> rs_terminal s")
    case True
    then show ?thesis using n same by auto
  next
    case False
    then show ?thesis using n by (subst raw_drain.simps) (auto split: list.split prod.split sum.split)
  qed
qed

lemma raw_drain_step:
  assumes "rs_pending s = []" and "\<not> rs_terminal s" and "raw_receive x reason s = (Inr u, t\<lparr>rs_pending := es\<rparr>)" and "rs_pending t = []"
  shows "raw_drain ((x, reason) # rest) s = after_events es (raw_drain rest t)"
proof -
  have "t\<lparr>rs_pending := []\<rparr> = t" using assms(4) by (cases t) simp
  then show ?thesis using assms(1-3) drain_pending [of rest "t\<lparr>rs_pending := es\<rparr>"] by (simp add: drain_empty)
qed

section \<open>What a session says\<close>

text \<open>While the session runs, what it has said opens one text at most, with the text of the runtime's deltas; at the end
  one terminal event follows, a completion only after the text is closed.\<close>

fun is_start :: "generation_event \<Rightarrow> bool" where
  "is_start (GenerationStarted r) = True"
| "is_start e = False"

definition content_of :: "generation_event list \<Rightarrow> generation_event list" where
  "content_of es = filter (\<lambda>e. \<not> is_start e) es"

definition undecided :: "terminal_evidence \<Rightarrow> bool" where
  "undecided ev \<longleftrightarrow> ev_decision ev = None \<and> ev_causal_owner ev \<in> {None, Some LIFECYCLE_TERMINATION, Some RUNTIME_OWNERSHIP}"

definition ended_stream :: "string \<Rightarrow> generation_event list \<Rightarrow> bool" where
  "ended_stream r es \<longleftrightarrow> (\<exists>cs t. content_of es = cs @ [t] \<and> is_terminal_event t \<and> content_run r (Idle, 0) cs \<noteq> None
     \<and> (\<forall>q c u s. t = GenerationCompleted q c u s \<longrightarrow> well_formed_content r cs))"

definition raw_ok :: "generation_event list \<Rightarrow> raw_session \<Rightarrow> bool" where
  "raw_ok es s \<longleftrightarrow> list_all (\<lambda>e. mk_event e = Inr e) es \<and> \<not> blank (rs_request_id s) \<and>
     (if rs_terminal s then ended_stream (rs_request_id s) es \<and> ev_decision (rs_evidence s) \<noteq> None
      else undecided (rs_evidence s) \<and> (\<not> rs_text_started s \<longrightarrow> concat (rs_text_parts s) = [])
        \<and> content_run (rs_request_id s) (Idle, 0) (content_of es)
          = Some (if rs_text_started s then InText (concat (rs_text_parts s)) else Idle, 0))"

text \<open>Recording a cause or an unknown failure leaves no success to resolve.\<close>

lemma undecided_recorded:
  assumes "undecided ev"
  shows "undecided (record_controlled_reason reason ev)" and "undecided (record_runtime_failure e ev)"
    and "undecided (record_runtime_cancelled ev)" and "undecided (record_unknown_failure e ev)" and "undecided (record_runtime_finished f ev)"
  using assms
  by (auto simp: undecided_def recording first_write_def split: option.split)

definition no_success :: "terminal_evidence \<Rightarrow> bool" where
  "no_success ev \<longleftrightarrow> undecided ev \<and> (ev_causal_owner ev \<noteq> None \<or> ev_unknown_failure ev \<noteq> None)"

lemma no_success_recorded:
  assumes "undecided ev"
  shows "no_success (record_runtime_failure e ev)" and "no_success (record_unknown_failure e ev)"
    and "no_success (if ev_causal_owner ev \<noteq> Some LIFECYCLE_TERMINATION then record_runtime_cancelled ev else ev)"
  using assms
  by (auto simp: no_success_def undecided_def recording first_write_def split: option.split)

lemma no_success_resolves:
  assumes "no_success ev"
  shows "\<exists>d. resolve None None ev = Inr d \<and> (d_disposition d = CANCELLATION \<or> d_disposition d = FAILURE \<and> d_error d \<noteq> None)"
  using assms
  by (auto simp: no_success_def undecided_def resolving split: option.splits)

text \<open>A step says more and keeps the rest of the session.\<close>

definition says_more :: "generation_event list \<Rightarrow> raw_session \<Rightarrow> raw_session \<Rightarrow> bool" where
  "says_more es s t \<longleftrightarrow> (\<exists>new. rs_pending t = rs_pending s @ new \<and> raw_ok (es @ new) t \<and> rs_request_id t = rs_request_id s)"

lemma content_of_append [simp]: "content_of (es @ fs) = content_of es @ content_of fs"
  by (simp add: content_of_def)

lemma content_of_simps [simp]: "content_of [] = []" "content_of (e # es) = (if is_start e then content_of es else e # content_of es)"
  by (simp_all add: content_of_def)

lemma emit_ok:
  assumes "raw_ok es s" and "\<not> rs_terminal s" and "d_disposition d = CANCELLATION \<or> d_disposition d = FAILURE \<and> d_error d \<noteq> None"
  shows "\<exists>t. emit_terminal_decision d s = (Inr (), t) \<and> says_more es s t \<and> rs_terminal t"
  using assms
  by (auto simp: emit_terminal_decision_def append_event_def append_events_def built_def and_then_def commit_raw_def commit_decision_def
      set_terminal_def says_more_def raw_ok_def mk_event_def validate_request_id_def raise_if_def undecided_def ended_stream_def
      content_run_append split: if_splits)

lemma end_ok:
  assumes "raw_ok es s" and "\<not> rs_terminal s" and "\<And>ev. undecided ev \<Longrightarrow> no_success (f ev)"
  shows "\<exists>t. end_with reason f s = (Inr (), t) \<and> says_more es s t \<and> rs_terminal t"
proof -
  let ?ev = "f (record_controlled_reason reason (rs_evidence s))" and ?s = "s\<lparr>rs_evidence := f (record_controlled_reason reason (rs_evidence s))\<rparr>"
  have n: "no_success ?ev" using assms by (simp add: raw_ok_def undecided_recorded)
  then have ok: "raw_ok es ?s" using assms(1,2) by (simp add: raw_ok_def no_success_def)
  obtain d where d: "resolve None None ?ev = Inr d" "d_disposition d = CANCELLATION \<or> d_disposition d = FAILURE \<and> d_error d \<noteq> None"
    using no_success_resolves [OF n] by blast
  have "end_with reason f s = emit_terminal_decision d ?s"
    using d(1) by (simp add: end_with_def record_raw_def resolve_raw_def and_then_def)
  then show ?thesis using emit_ok [OF ok _ d(2)] assms(2) by (auto simp: says_more_def)
qed

lemma timing_event_ok:
  "timing_event_from_runtime r t = Inr (Some e) \<Longrightarrow> \<exists>g. e = TimingUpdated r g \<and> mk_event e = Inr e"
  by (auto simp: timing_event_from_runtime_def mk_event_def validate_request_id_def raise_if_def split: if_splits sum.splits)

lemma and_then_returns [simp]: "and_then (returns x) k = k x"
  by (simp add: and_then_def fun_eq_iff)

lemma built_events:
  assumes "\<not> blank r"
  shows "built (TextStarted r) = returns (TextStarted r)" and "built (TextCompleted r t) = returns (TextCompleted r t)"
    and "built (UsageUpdated r u) = returns (UsageUpdated r u)" and "built (GenerationStarted r) = returns (GenerationStarted r)"
    and "built (GenerationCompleted r c v None) = returns (GenerationCompleted r c v None)"
  using assms by (simp_all add: built_def mk_event_def validate_request_id_def raise_if_def fun_eq_iff)

lemma event_valid:
  assumes "\<not> blank r"
  shows "mk_event (TextStarted r) = Inr (TextStarted r)" and "mk_event (TextCompleted r t) = Inr (TextCompleted r t)"
    and "mk_event (UsageUpdated r u) = Inr (UsageUpdated r u)" and "mk_event (GenerationStarted r) = Inr (GenerationStarted r)"
    and "mk_event (GenerationCompleted r c v None) = Inr (GenerationCompleted r c v None)"
  using assms by (simp_all add: mk_event_def validate_request_id_def raise_if_def)

text \<open>Building the events of a success fails only for a timing that is not valid; then nothing has changed.\<close>

definition closing_events :: "completion_reason \<Rightarrow> generation_event option \<Rightarrow> runtime_finished \<Rightarrow> raw_session \<Rightarrow> generation_event list" where
  "closing_events c timing f s = (let r = rs_request_id s in
     (if rs_text_started s then [] else [TextStarted r]) @ [TextCompleted r (concat (rs_text_parts s))]
       @ (case timing of None \<Rightarrow> [] | Some e \<Rightarrow> [e]) @ [UsageUpdated r (rf_usage f), GenerationCompleted r c (Some (rf_usage f)) None])"

lemma publish_success_closed:
  assumes "\<not> blank (rs_request_id s)" and "ev_decision (rs_evidence s) = None"
  shows "publish_success c d f s = (case timing_event_from_runtime (rs_request_id s) (rf_timing f) of
      Inl e \<Rightarrow> (Inl e, s)
    | Inr timing \<Rightarrow> (Inr (), s\<lparr>rs_text_started := True, rs_pending := rs_pending s @ closing_events c timing f s,
        rs_evidence := (rs_evidence s)\<lparr>ev_decision := Some d\<rparr>, rs_terminal := True\<rparr>))"
proof (cases "timing_event_from_runtime (rs_request_id s) (rf_timing f)")
  case (Inl e)
  then show ?thesis using assms by (simp add: publish_success_def built_events Let_def and_then_def)
next
  case (Inr v)
  then show ?thesis using assms
    by (cases v) (simp_all add: publish_success_def built_events Let_def and_then_def commit_raw_def commit_decision_def set_terminal_def closing_events_def)
qed

lemma closing_ok:
  assumes "raw_ok es s" and "\<not> rs_terminal s" and "timing_event_from_runtime (rs_request_id s) (rf_timing f) = Inr timing"
  shows "list_all (\<lambda>e. mk_event e = Inr e) (closing_events c timing f s)"
    and "ended_stream (rs_request_id s) (es @ closing_events c timing f s)"
proof -
  let ?r = "rs_request_id s" and ?cs = "butlast (closing_events c timing f s)"
  have r: "\<not> blank ?r" and run: "content_run ?r (Idle, 0) (content_of es)
      = Some (if rs_text_started s then InText (concat (rs_text_parts s)) else Idle, 0)"
    and parts: "\<not> rs_text_started s \<longrightarrow> concat (rs_text_parts s) = []"
    using assms(1,2) by (simp_all add: raw_ok_def)
  have tm: "case timing of None \<Rightarrow> True | Some e \<Rightarrow> \<exists>g. e = TimingUpdated ?r g \<and> mk_event e = Inr e"
    using assms(3) timing_event_ok [of ?r "rf_timing f"] by (simp split: option.split)
  show "list_all (\<lambda>e. mk_event e = Inr e) (closing_events c timing f s)"
    using r tm by (auto simp: closing_events_def Let_def event_valid split: option.split)
  have "content_of (closing_events c timing f s) = ?cs @ [GenerationCompleted ?r c (Some (rf_usage f)) None]"
    using tm by (auto simp: closing_events_def Let_def butlast_append split: option.splits)
  moreover have "content_run ?r (Idle, 0) (content_of es @ ?cs) = Some (Idle, 0)"
    using tm parts by (auto simp: closing_events_def Let_def butlast_append content_run_append run split: option.splits if_splits)
  ultimately show "ended_stream ?r (es @ closing_events c timing f s)"
    unfolding ended_stream_def by (auto simp: well_formed_content_iff intro!: exI [of _ "content_of es @ ?cs"])
qed

lemma publish_ok:
  assumes "raw_ok es s" and "\<not> rs_terminal s"
  shows "(\<exists>t. publish_success c d f s = (Inr (), t) \<and> says_more es s t \<and> rs_terminal t) \<or> (\<exists>e. publish_success c d f s = (Inl e, s))"
proof (cases "timing_event_from_runtime (rs_request_id s) (rf_timing f)")
  case Inl
  then show ?thesis using assms by (simp add: publish_success_closed raw_ok_def undecided_def)
next
  case (Inr v)
  have "\<not> blank (rs_request_id s)" "ev_decision (rs_evidence s) = None" "list_all (\<lambda>e. mk_event e = Inr e) es"
    using assms by (auto simp: raw_ok_def undecided_def)
  then show ?thesis using closing_ok [OF assms Inr, of c]
    by (auto simp: publish_success_closed Inr says_more_def raw_ok_def intro!: exI [of _ "closing_events c v f s"])
qed

lemma undecided_resolves:
  assumes "undecided ev"
  shows "\<exists>d. resolve None None ev = Inr d \<and> (d_disposition d = SUCCESS \<and> d_completion d \<noteq> None \<or> d_disposition d = CANCELLATION
    \<or> d_disposition d = FAILURE \<and> d_error d \<noteq> None)"
proof (cases "ev_causal_owner ev = None \<and> ev_unknown_failure ev = None")
  case True
  then have "resolve None None ev = resolve_content None ev" using assms by (simp add: resolve_def undecided_def)
  moreover have "\<exists>d. resolve_content None ev = Inr d \<and> (d_disposition d = SUCCESS \<and> d_completion d \<noteq> None
      \<or> d_disposition d = FAILURE \<and> d_error d \<noteq> None)"
    by (auto simp: resolve_content_def decision_for_failure_def evidence_decision_def mk_terminal_decision_def split: option.split)
  ultimately show ?thesis by auto
next
  case False
  then show ?thesis using no_success_resolves [of ev] assms by (auto simp: no_success_def)
qed

text \<open>A step that does not say more has raised, and left the session as it was but for what it recorded.\<close>

definition raised_in :: "generation_event list \<Rightarrow> raw_session \<Rightarrow> unit res \<times> raw_session \<Rightarrow> bool" where
  "raised_in es s p \<longleftrightarrow> (\<exists>e t. p = (Inl e, t) \<and> says_more es s t \<and> \<not> rs_terminal t)"

lemma raw_finish_ok:
  assumes "raw_ok es s" and "\<not> rs_terminal s"
  shows "(\<exists>t. raw_finish reason f s = (Inr (), t) \<and> says_more es s t \<and> rs_terminal t) \<or> raised_in es s (raw_finish reason f s)"
proof -
  let ?ev = "record_runtime_finished f (record_controlled_reason reason (rs_evidence s))"
  let ?s = "s\<lparr>rs_evidence := ?ev\<rparr>"
  have u: "undecided ?ev" using assms by (simp add: raw_ok_def undecided_recorded)
  then have ok: "raw_ok es ?s" and n: "\<not> rs_terminal ?s" using assms by (simp_all add: raw_ok_def)
  obtain d where d: "resolve None None ?ev = Inr d" "d_disposition d = SUCCESS \<and> d_completion d \<noteq> None \<or> d_disposition d = CANCELLATION
    \<or> d_disposition d = FAILURE \<and> d_error d \<noteq> None"
    using undecided_resolves [OF u] by blast
  have eq: "raw_finish reason f s = (if d_disposition d \<noteq> SUCCESS then emit_terminal_decision d ?s
      else publish_success (the (d_completion d)) d f ?s)"
    using d by (auto simp: raw_finish_def record_raw_def resolve_raw_def and_then_def split: option.split)
  show ?thesis
  proof (cases "d_disposition d = SUCCESS")
    case True
    then show ?thesis using publish_ok [OF ok n, of "the (d_completion d)" d f] ok n eq
      by (auto simp: raised_in_def says_more_def)
  next
    case False
    then show ?thesis using emit_ok [OF ok n] d(2) eq by (auto simp: says_more_def)
  qed
qed

lemma process_ok:
  assumes "raw_ok es s" and "\<not> rs_terminal s"
  shows "(\<exists>t. raw_process reason e s = (Inr (), t) \<and> says_more es s t) \<or> raised_in es s (raw_process reason e s)"
proof (cases e)
  case (RuntimeStarted q)
  then show ?thesis using assms
    by (auto simp: raw_process_def append_event_def built_events append_events_def says_more_def raw_ok_def event_valid)
next
  case (RuntimeTextDelta d)
  show ?thesis
  proof (cases "td_text d = []")
    case True
    then show ?thesis using assms RuntimeTextDelta
      by (auto simp: raw_process_def start_text_def append_event_def built_events append_events_def and_then_def built_def mk_event_def
        validate_request_id_def raise_if_def raised_in_def says_more_def raw_ok_def content_run_append)
  next
    case False
    then have "\<not> blank (rs_request_id s) \<Longrightarrow> mk_event (TextDelta (rs_request_id s) (td_text d)) = Inr (TextDelta (rs_request_id s) (td_text d))"
      by (simp add: mk_event_def validate_request_id_def raise_if_def)
    then show ?thesis using assms RuntimeTextDelta False
      by (auto simp: raw_process_def start_text_def append_event_def built_events append_events_def and_then_def built_def event_valid
        says_more_def raw_ok_def content_run_append)
  qed
next
  case (RuntimeFinished f)
  then show ?thesis using raw_finish_ok [OF assms] by (auto simp: raw_process_def)
next
  case (RuntimeFailed q x)
  then show ?thesis using end_ok [OF assms, of "record_runtime_failure x" reason, OF no_success_recorded(1)] by (auto simp: raw_process_def)
next
  case (RuntimeCancelled q)
  then show ?thesis using end_ok [OF assms, of "\<lambda>ev. if ev_causal_owner ev \<noteq> Some LIFECYCLE_TERMINATION then record_runtime_cancelled ev else ev" reason, OF no_success_recorded(3)]
    by (auto simp: raw_process_def raw_cancel_event_def)
qed

lemma says_more_trans: "says_more es s t \<Longrightarrow> (\<And>fs. rs_pending t = rs_pending s @ fs \<Longrightarrow> raw_ok (es @ fs) t \<Longrightarrow> says_more (es @ fs) t u) \<Longrightarrow> says_more es s u"
  by (fastforce simp: says_more_def)

lemma receive_ok:
  assumes "raw_ok es s" and "\<not> rs_terminal s"
  shows "if x = ConsumerCancelled then raw_receive x reason s = (Inl CancelledError, s)
    else \<exists>t. raw_receive x reason s = (Inr (), t) \<and> says_more es s t"
proof (cases x)
  case (FromRuntime e)
  from process_ok [OF assms, of reason e] show ?thesis
  proof
    assume "raised_in es s (raw_process reason e s)"
    then obtain y t fs where t: "raw_process reason e s = (Inl y, t)" "\<not> rs_terminal t" "rs_pending t = rs_pending s @ fs"
      "raw_ok (es @ fs) t" "rs_request_id t = rs_request_id s"
      by (auto simp: raised_in_def says_more_def)
    then show ?thesis using end_ok [OF t(4,2), of "record_unknown_failure processing_error" reason] no_success_recorded(2) FromRuntime
      by (auto simp: raw_receive_def says_more_def)
  qed (auto simp: raw_receive_def FromRuntime)
next
  case RuntimeEnded
  then show ?thesis using end_ok [OF assms, of "record_runtime_failure stream_ended_error" reason] no_success_recorded(1) by (auto simp: raw_receive_def)
next
  case RuntimeRaised
  then show ?thesis using end_ok [OF assms, of "record_unknown_failure stream_exception_error" reason] no_success_recorded(2)
    by (auto simp: raw_receive_def)
qed (simp add: raw_receive_def)

text \<open>What a consumer gets, with what it got before.\<close>

lemma drain_ok:
  assumes "raw_ok es s" and "rs_pending s = []"
  shows "case raw_drain xs s of (fs, n, t) \<Rightarrow> raw_ok (es @ fs) t \<and> rs_request_id t = rs_request_id s \<and> (if rs_terminal t then n = NextStop else n \<in> {NextWaits, NextRaises CancelledError})"
  using assms
proof (induction xs arbitrary: es s)
  case Nil
  then show ?case by (simp add: drain_empty)
next
  case (Cons p xs)
  obtain x reason where p: "p = (x, reason)" by fastforce
  show ?case
  proof (cases "rs_terminal s \<or> x = ConsumerCancelled")
    case True
    then show ?thesis using Cons.prems p receive_ok [OF Cons.prems(1), of x reason] by (auto simp: drain_empty)
  next
    case False
    then obtain t new where t: "raw_receive x reason s = (Inr (), t)" "rs_pending t = new" "raw_ok (es @ new) t" "rs_request_id t = rs_request_id s"
      using receive_ok [OF Cons.prems(1), of x reason] Cons.prems(2) by (auto simp: says_more_def)
    then have "raw_ok (es @ new) (t\<lparr>rs_pending := []\<rparr>)" by (auto simp: raw_ok_def split: if_splits)
    from Cons.IH [OF this] show ?thesis
      using Cons.prems(2) p False t by (auto simp: drain_empty drain_pending [of _ t] after_events_def split: prod.splits)
  qed
qed


section \<open>Submitting a request\<close>

text \<open>\<open>_prompt_hash\<close>: what is fed to SHA-256, each identifier's decimal text after its length in four bytes.\<close>

definition big_endian4 :: "nat \<Rightarrow> nat list" where
  "big_endian4 n = [n div 16777216 mod 256, n div 65536 mod 256, n div 256 mod 256, n mod 256]"

definition hashed_id :: "int \<Rightarrow> nat list" where
  "hashed_id i = (let t = show_int i in big_endian4 (length t) @ map of_char t)"

definition prompt_hash :: "(nat list \<Rightarrow> string) \<Rightarrow> int list \<Rightarrow> string" where
  "prompt_hash sha ids = sha (concat (map hashed_id ids))"

text \<open>Different prompts are hashed differently: the lengths say where each identifier ends.\<close>

lemma show_int_inj: "show_int i = show_int j \<Longrightarrow> i = j"
proof -
  assume eq: "show_int i = show_int j"
  have minus: "dec_digits n \<noteq> CHR ''-'' # t" for n t
    using dec_digits_not_minus [of n] by (auto simp: expect_def)
  have same: "dec_digits m = dec_digits n \<Longrightarrow> m = n" for m n using dec_digits_value by metis
  show "i = j"
  proof (cases "i < 0"; cases "j < 0")
    assume "i < 0" "j < 0"
    then show ?thesis using eq same [of "nat (- i)" "nat (- j)"] by (simp add: show_int_def)
  next
    assume "i < 0" "\<not> j < 0"
    then show ?thesis using eq minus [of "nat j"] by (metis show_int_def)
  next
    assume "\<not> i < 0" "j < 0"
    then show ?thesis using eq minus [of "nat i"] by (metis show_int_def)
  next
    assume "\<not> i < 0" "\<not> j < 0"
    then show ?thesis using eq same [of "nat i" "nat j"] by (simp add: show_int_def)
  qed
qed

lemma big_endian4_inj:
  assumes "big_endian4 m = big_endian4 n" and "m < 4294967296" and "n < 4294967296"
  shows "m = n"
proof -
  have split: "k = k div 16777216 mod 256 * 16777216 + k div 65536 mod 256 * 65536 + k div 256 mod 256 * 256 + k mod 256"
    if "k < 4294967296" for k :: nat
  proof -
    have d: "k div 65536 = k div 256 div 256" "k div 16777216 = k div 256 div 256 div 256" by (simp_all flip: div_mult2_eq)
    have "k div 256 div 256 div 256 < 256" using that by (simp add: less_mult_imp_div_less flip: div_mult2_eq)
    then have "k div 256 div 256 div 256 mod 256 = k div 256 div 256 div 256" by simp
    then show ?thesis unfolding d
      using mult_div_mod_eq [of 256 k] mult_div_mod_eq [of 256 "k div 256"] mult_div_mod_eq [of 256 "k div 256 div 256"] by linarith
  qed
  have "m div 16777216 mod 256 = n div 16777216 mod 256" "m div 65536 mod 256 = n div 65536 mod 256"
    "m div 256 mod 256 = n div 256 mod 256" "m mod 256 = n mod 256" using assms(1) by (simp_all add: big_endian4_def)
  then show ?thesis by (subst split [OF assms(2)], subst split [OF assms(3)]) (simp only:)
qed

lemma hashed_ids_inj:
  assumes "concat (map hashed_id xs) = concat (map hashed_id ys)"
    and "\<forall>i\<in>set xs \<union> set ys. length (show_int i) < 4294967296"
  shows "xs = ys"
  using assms
proof (induction xs arbitrary: ys)
  case Nil
  then show ?case by (cases ys) (auto simp: hashed_id_def big_endian4_def Let_def)
next
  case (Cons i xs)
  then obtain j zs where ys: "ys = j # zs" by (cases ys) (auto simp: hashed_id_def big_endian4_def Let_def)
  have eq: "big_endian4 (length (show_int i)) @ map of_char (show_int i) @ concat (map hashed_id xs)
      = big_endian4 (length (show_int j)) @ map of_char (show_int j) @ concat (map hashed_id zs)"
    using Cons.prems(1) ys hashed_id_def [of i] hashed_id_def [of j] by (simp add: Let_def)
  then have l: "length (show_int i) = length (show_int j)"
    using Cons.prems(2) ys by (intro big_endian4_inj) (auto simp: big_endian4_def)
  then have "map (of_char :: char \<Rightarrow> nat) (show_int i) = map of_char (show_int j)" and rest: "concat (map hashed_id xs) = concat (map hashed_id zs)"
    using eq by (auto simp: big_endian4_def)
  then have "i = j" by (intro show_int_inj map_injective [where f = "of_char :: char \<Rightarrow> nat"]) (simp_all add: inj_def)
  then show ?case using Cons.IH [OF rest] Cons.prems(2) ys by simp
qed

text \<open>What the awaited calls answer: admission with the deadline of the lease, the clock at the two checks, the rendering (by
  the pool or by the tokenizer; a timeout is that of the deadline), and the submission to the runtime.\<close>

datatype render_outcome = Rendered "int list" | RenderTimedOut | RenderInvalid | RenderFailed | RenderCancelled

datatype submit_outcome = Submitted | SubmitRejected canonical_error | SubmitFailed | SubmitCancelled

record raw_world =
  wd_acquire :: "canonical_error + seconds option"
  wd_now :: seconds
  wd_render :: render_outcome
  wd_rendered_at :: seconds
  wd_submit :: submit_outcome

record raw_engine =
  ge_sha :: "nat list \<Rightarrow> string"
  ge_limit_resolver :: "(int \<Rightarrow> canonical_error + int) option"

datatype raw_failure = RawRejected canonical_error | RawRaised exn

definition raw_expired :: "seconds option \<Rightarrow> seconds \<Rightarrow> bool" where
  "raw_expired deadline now \<longleftrightarrow> (case deadline of None \<Rightarrow> False | Some d \<Rightarrow> d \<le> now)"

definition tokenization_error :: canonical_error where
  "tokenization_error = canonical_error4 INVALID_REQUEST ''raw_prompt_tokenization_failed''
     ''Raw prompt cannot be tokenized for the selected model.'' False"

definition tokenization_crash :: canonical_error where
  "tokenization_crash = canonical_error4 INTERNAL ''serving_internal_error'' ''Raw prompt tokenization failed internally.'' False"

definition no_resolver_error :: canonical_error where
  "no_resolver_error = canonical_error4 INTERNAL ''serving_internal_error'' ''Automatic output token resolution is unavailable.'' False"

definition submission_error :: canonical_error where
  "submission_error = canonical_error4 RUNTIME_FAILURE ''runtime_submission_failed'' ''Inference runtime submission failed.'' False"

text \<open>The text and the identifiers of the prompt.\<close>

definition raw_prompt_input :: "raw_world \<Rightarrow> seconds option \<Rightarrow> raw_prompt_item \<Rightarrow> raw_failure + string \<times> int list" where
  "raw_prompt_input W deadline prompt = (case rp_text prompt of
       None \<Rightarrow> (case rp_token_ids prompt of None \<Rightarrow> Inl (RawRaised AssertionError) | Some ids \<Rightarrow> Inr ([], ids))
     | Some t \<Rightarrow> (case wd_render W of
           Rendered ids \<Rightarrow> if raw_expired deadline (wd_rendered_at W) then Inl (RawRejected timeout_error) else Inr (t, ids)
         | RenderTimedOut \<Rightarrow> Inl (RawRejected timeout_error)
         | RenderInvalid \<Rightarrow> Inl (RawRejected tokenization_error)
         | RenderFailed \<Rightarrow> Inl (RawRejected tokenization_crash)
         | RenderCancelled \<Rightarrow> Inl (RawRaised CancelledError)))"

definition raw_output_limit :: "raw_engine \<Rightarrow> int list \<Rightarrow> int option \<Rightarrow> raw_failure + int" where
  "raw_output_limit G ids limit = (case limit of Some n \<Rightarrow> Inr n
     | None \<Rightarrow> (case ge_limit_resolver G of
           None \<Rightarrow> Inl (RawRejected no_resolver_error)
         | Some f \<Rightarrow> (case f (int (length ids)) of Inl e \<Rightarrow> Inl (RawRejected e) | Inr n \<Rightarrow> Inr n)))"

definition raw_runtime_request :: "raw_serving_request \<Rightarrow> int list \<Rightarrow> int \<Rightarrow> runtime_request res" where
  "raw_runtime_request q ids limit = mk_runtime_request \<lparr>rq_request_id = rr_request_id (rw_input q), rq_input_ids = ids,
     rq_max_new_tokens = limit, rq_seed = rw_seed q, rq_stop_conditions = rw_stop_conditions q, rq_sampling = rw_sampling q,
     rq_prompt_attachments = [], rq_output_json_schema = None, rq_output_json_trigger = None, rq_generation_constraint = None,
     rq_generation_guarantee = GNone, rq_constraint_fallback_policy = ALLOW_VALIDATION_ONLY, rq_use_native_eos = False\<rparr>"

definition raw_attempt :: "raw_engine \<Rightarrow> raw_world \<Rightarrow> seconds option \<Rightarrow> raw_serving_request \<Rightarrow> raw_failure + raw_session" where
  "raw_attempt G W deadline q =
     sum_bind (raw_prompt_input W deadline (hd (rr_items (rw_input q)))) (\<lambda>(t, ids).
     sum_bind (raw_output_limit G ids (rw_max_output_tokens q)) (\<lambda>limit.
     sum_bind (map_sum RawRaised id (raw_runtime_request q ids limit)) (\<lambda>r.
       case wd_submit W of
         Submitted \<Rightarrow> Inr (new_raw_session (rr_request_id (rw_input q)) \<lparr>rcp_text = t, rcp_input_ids = ids,
             rcp_prompt_hash = prompt_hash (ge_sha G) ids, rcp_stop_conditions = rw_stop_conditions q\<rparr>)
       | SubmitRejected e \<Rightarrow> Inl (RawRejected e)
       | SubmitFailed \<Rightarrow> Inl (RawRejected submission_error)
       | SubmitCancelled \<Rightarrow> Inl (RawRaised CancelledError))))"

text \<open>\<open>submit\<close>: the outcome, and how often the lease was released. A session takes the lease over. The first check of the
  deadline stands before the block that releases.\<close>

definition raw_submit :: "raw_engine \<Rightarrow> raw_world \<Rightarrow> raw_serving_request \<Rightarrow> (raw_failure + raw_session) \<times> nat" where
  "raw_submit G W q = (case wd_acquire W of
       Inl e \<Rightarrow> (Inl (RawRejected e), 0)
     | Inr deadline \<Rightarrow> if raw_expired deadline (wd_now W) then (Inl (RawRejected timeout_error), 0)
         else (case raw_attempt G W deadline q of Inl f \<Rightarrow> (Inl f, 1) | Inr s \<Rightarrow> (Inr s, 0)))"

text \<open>A lease whose deadline has passed when it is granted is neither used nor given back.\<close>

lemma expired_lease_is_kept:
  "wd_acquire W = Inr (Some d) \<Longrightarrow> d \<le> wd_now W \<Longrightarrow> raw_submit G W q = (Inl (RawRejected timeout_error), 0)"
  by (simp add: raw_submit_def raw_expired_def)

section \<open>A whole completion\<close>

text \<open>What the runtime gives for an answer that ends normally, in whatever pieces.\<close>

definition runtime_answer :: "string \<Rightarrow> runtime_text_delta list \<Rightarrow> runtime_finished \<Rightarrow> (raw_input \<times> terminal_reason option) list" where
  "runtime_answer q ds f = (FromRuntime (RuntimeStarted q), None) # map (\<lambda>d. (FromRuntime (RuntimeTextDelta d), None)) ds
     @ [(FromRuntime (RuntimeFinished f), None)]"

definition text_events :: "string \<Rightarrow> bool \<Rightarrow> runtime_text_delta list \<Rightarrow> generation_event list" where
  "text_events r started ds = (if started \<or> ds = [] then [] else [TextStarted r]) @ map (\<lambda>d. TextDelta r (td_text d)) ds"

lemma drain_deltas:
  assumes "\<not> blank (rs_request_id s)" and "\<forall>d\<in>set ds. td_text d \<noteq> []" and "rs_pending s = []" and "\<not> rs_terminal s"
  shows "raw_drain (map (\<lambda>d. (FromRuntime (RuntimeTextDelta d), None)) ds @ xs) s
    = after_events (text_events (rs_request_id s) (rs_text_started s) ds)
        (raw_drain xs (s\<lparr>rs_text_started := (rs_text_started s \<or> ds \<noteq> []), rs_text_parts := rs_text_parts s @ map td_text ds\<rparr>))"
  using assms
proof (induction ds arbitrary: s)
  case Nil
  then show ?case by (simp add: text_events_def)
next
  case (Cons d ds)
  let ?r = "rs_request_id s"
  let ?t = "s\<lparr>rs_text_started := True, rs_text_parts := rs_text_parts s @ [td_text d]\<rparr>"
  have "raw_receive (FromRuntime (RuntimeTextDelta d)) None s
      = (Inr (), ?t\<lparr>rs_pending := (if rs_text_started s then [] else [TextStarted ?r]) @ [TextDelta ?r (td_text d)]\<rparr>)"
    using Cons.prems by (auto simp: raw_receive_def raw_process_def start_text_def append_event_def built_events and_then_def built_def
        mk_event_def validate_request_id_def raise_if_def append_events_def)
  then have "raw_drain (map (\<lambda>d. (FromRuntime (RuntimeTextDelta d), None)) (d # ds) @ xs) s
      = after_events ((if rs_text_started s then [] else [TextStarted ?r]) @ [TextDelta ?r (td_text d)])
          (raw_drain (map (\<lambda>d. (FromRuntime (RuntimeTextDelta d), None)) ds @ xs) ?t)"
    using Cons.prems raw_drain_step by simp
  also have "raw_drain (map (\<lambda>d. (FromRuntime (RuntimeTextDelta d), None)) ds @ xs) ?t
      = after_events (text_events ?r True ds) (raw_drain xs (s\<lparr>rs_text_started := True, rs_text_parts := rs_text_parts s @ map td_text (d # ds)\<rparr>))"
    using Cons.IH [of ?t] Cons.prems by simp
  finally show ?case by (simp add: after_events_def text_events_def)
qed

lemma text_events_content:
  assumes "\<forall>d\<in>set ds. td_text d \<noteq> []"
  shows "content_run r (InText t, n) (map (\<lambda>d. TextDelta r (td_text d)) ds) = Some (InText (t @ concat (map td_text ds)), n)"
  using assms by (induction ds arbitrary: t) auto

text \<open>The events of the answer: a start, one text, usage and timing, the completion.\<close>

lemma drain_answer:
  assumes "\<not> blank r" and "\<forall>d\<in>set ds. td_text d \<noteq> []" and "rf_reason f \<notin> {RLOOP, ROTHER}"
    and "timing_event_from_runtime r (rf_timing f) = Inr timing"
  shows "\<exists>es t. raw_drain (runtime_answer q ds f) (new_raw_session r p)
      = ([GenerationStarted r] @ es @ [GenerationCompleted r (default_success_reason (rf_reason f)) (Some (rf_usage f)) None], NextStop, t)
    \<and> well_formed_content r es \<and> concat (map text_said es) = concat (map td_text ds)"
proof -
  let ?s0 = "new_raw_session r p"
  let ?s1 = "?s0\<lparr>rs_text_started := (ds \<noteq> []), rs_text_parts := map td_text ds\<rparr>"
  let ?ev = "record_runtime_finished f (record_controlled_reason None new_evidence)"
  let ?c = "default_success_reason (rf_reason f)"
  have start: "raw_receive (FromRuntime (RuntimeStarted q)) None ?s0 = (Inr (), ?s0\<lparr>rs_pending := [GenerationStarted r]\<rparr>)"
    using assms(1) by (simp add: raw_receive_def raw_process_def append_event_def built_events append_events_def new_raw_session_def)
  obtain d where d: "resolve None None ?ev = Inr d" "d_disposition d = SUCCESS" "d_completion d = Some ?c"
    using assms(3) by (cases "rf_reason f")
      (auto simp: resolve_def resolve_content_def evidence_decision_def mk_terminal_decision_def recording new_evidence_def raise_if_def)
  let ?s2 = "?s1\<lparr>rs_evidence := ?ev\<rparr>"
  let ?closing = "closing_events ?c timing f ?s2"
  have fin: "\<exists>t. raw_receive (FromRuntime (RuntimeFinished f)) None ?s1 = (Inr (), t) \<and> rs_pending t = ?closing \<and> rs_terminal t"
    using d assms(1,4) by (simp add: raw_receive_def raw_process_def raw_finish_def record_raw_def resolve_raw_def and_then_def
        new_raw_session_def publish_success_closed recording new_evidence_def)
  then obtain t where t: "raw_receive (FromRuntime (RuntimeFinished f)) None ?s1 = (Inr (), t)" "rs_pending t = ?closing" "rs_terminal t" by blast
  have last: "raw_drain [(FromRuntime (RuntimeFinished f), None)] ?s1 = (?closing, NextStop, t\<lparr>rs_pending := []\<rparr>)"
    using t drain_pending [of "[]" t] by (simp add: drain_empty new_raw_session_def)
  have deltas: "raw_drain (map (\<lambda>d. (FromRuntime (RuntimeTextDelta d), None)) ds @ [(FromRuntime (RuntimeFinished f), None)]) ?s0
      = after_events (text_events r False ds) (raw_drain [(FromRuntime (RuntimeFinished f), None)] ?s1)"
    using drain_deltas [of ?s0 ds] assms(1,2) by (simp add: new_raw_session_def)
  have "raw_drain (runtime_answer q ds f) ?s0 = after_events [GenerationStarted r]
      (raw_drain (map (\<lambda>d. (FromRuntime (RuntimeTextDelta d), None)) ds @ [(FromRuntime (RuntimeFinished f), None)]) ?s0)"
    unfolding runtime_answer_def by (rule raw_drain_step [OF _ _ start]) (simp_all add: new_raw_session_def)
  then have "raw_drain (runtime_answer q ds f) ?s0 = ([GenerationStarted r] @ text_events r False ds @ ?closing, NextStop, t\<lparr>rs_pending := []\<rparr>)"
    by (simp add: deltas last)
  moreover have "timing = None \<or> (\<exists>g. timing = Some (TimingUpdated r g))" using timing_event_ok assms(4) by (cases timing) fastforce+
  ultimately show ?thesis
    by (intro exI [of _ "text_events r False ds @ butlast ?closing"])
      (auto simp: closing_events_def Let_def butlast_append well_formed_content_iff text_events_def content_run_append
        text_events_content [OF assms(2)] new_raw_session_def comp_def)
qed

text \<open>C40. Document continuation from the runtime to the client: when the runtime generates texts and ends normally, a client of the
  Completions stream reads the echo of the prompt and then exactly these texts, however they were cut, with the runtime's finish
  reason and its usage; the answer without streaming is the same.\<close>

theorem completions_answer:
  assumes "\<not> blank r" and "\<forall>d\<in>set ds. td_text d \<noteq> []" and "rf_reason f \<notin> {RLOOP, ROTHER}"
    and "timing_event_from_runtime r (rf_timing f) = Inr timing"
    and "new_text_serializer uuid now model rid created echo include = Inr s" and "new_text_accumulator uuid now model rid created echo = Inr a"
  shows "\<exists>out s' a' m. let es = fst (raw_drain (runtime_answer q ds f) (new_raw_session r p)) in
    feed_events text_feed es s = (Inr out, s') \<and> consume_events text_consume es a = (Inr (), a')
      \<and> text_accumulated a' = TextCompletion m \<and> tx_text m = echo @ concat (map td_text ds)
      \<and> tx_finish_reason m = completions_finish_reason (default_success_reason (rf_reason f)) \<and> tx_usage m = Some (rf_usage f)
      \<and> read_text out = Some (if include then m else m\<lparr>tx_usage := None\<rparr>)"
proof -
  obtain es t where es: "raw_drain (runtime_answer q ds f) (new_raw_session r p)
      = ([GenerationStarted r] @ es @ [GenerationCompleted r (default_success_reason (rf_reason f)) (Some (rf_usage f)) None], NextStop, t)"
    "well_formed_content r es" "concat (map text_said es) = concat (map td_text ds)"
    using drain_answer [OF assms(1-4)] by blast
  then show ?thesis
    using completions_run [OF es(2) assms(5,6), of "default_success_reason (rf_reason f)" "Some (rf_usage f)" None] by (simp add: Let_def)
qed

section \<open>Witnesses\<close>

definition ex_raw_delta :: "string \<Rightarrow> runtime_text_delta" where
  "ex_raw_delta t = \<lparr>td_request_id = ''r'', td_text = t, td_token_ids = [], td_spans = None, td_provenance = False\<rparr>"

definition ex_raw_finished :: runtime_finished where
  "ex_raw_finished = \<lparr>rf_request_id = ''r'', rf_reason = REOS,
     rf_usage = \<lparr>input_tokens = Some 1, cached_input_tokens = None, output_tokens = Some 2, reasoning_tokens = None\<rparr>,
     rf_timing = \<lparr>rtm_queue = None, rtm_prefill = None, rtm_generation = None\<rparr>, rf_stop_sequence = None, rf_backend_reason = None,
     rf_eos_token_id = None, rf_eos_token_text = None, rf_hard_constraint_installed = False, rf_hard_constraint_activated = False,
     rf_effective_guarantee = GNone\<rparr>"

definition ex_compiled :: raw_compiled_prompt where
  "ex_compiled = \<lparr>rcp_text = ''p'', rcp_input_ids = [1], rcp_prompt_hash = [], rcp_stop_conditions = []\<rparr>"

text \<open>The stream of the runtime breaks off after two texts.\<close>

definition ex_broken :: "(raw_input \<times> terminal_reason option) list" where
  "ex_broken = [(FromRuntime (RuntimeStarted ''r''), None), (FromRuntime (RuntimeTextDelta (ex_raw_delta ''a'')), None),
     (FromRuntime (RuntimeTextDelta (ex_raw_delta ''b'')), None), (RuntimeEnded, None)]"

lemma ex_broken_stops: "fst (snd (raw_drain ex_broken (new_raw_session ''r'' ex_compiled))) = NextStop"
  by code_simp


definition ex_text_serializer :: text_serializer where
  "ex_text_serializer = \<lparr>ts_model = ''m'', ts_id = ''cmpl-1'', ts_created = 7, ts_echo_text = ''p'', ts_include_usage = True, ts_usage = None,
     ts_terminal = False\<rparr>"

definition ex_text_accumulator :: text_accumulator where
  "ex_text_accumulator = \<lparr>ta_model = ''m'', ta_id = ''cmpl-1'', ta_created = 7, ta_echo_text = ''p'', ta_parts = [], ta_usage = None,
     ta_reason = None, ta_error = None\<rparr>"

lemma ex_text_new:
  "new_text_serializer ''1'' 7 ''m'' None None ''p'' True = Inr ex_text_serializer"
  "new_text_accumulator ''1'' 7 ''m'' None None ''p'' = Inr ex_text_accumulator"
  by (simp_all add: new_text_serializer_def new_text_accumulator_def ex_text_serializer_def ex_text_accumulator_def fresh_id_def
      created_time_def blank_def py_space_def)

theorem completions_answer_witness:
  "\<exists>out s' m. feed_events text_feed
      (fst (raw_drain (runtime_answer ''r'' [ex_raw_delta ''a'', ex_raw_delta ''b''] ex_raw_finished) (new_raw_session ''r'' ex_compiled)))
      ex_text_serializer = (Inr out, s') \<and> read_text out = Some m \<and> tx_text m = ''pab'' \<and> tx_finish_reason m = ''stop''"
  using completions_answer [of "''r''" "[ex_raw_delta ''a'', ex_raw_delta ''b'']" ex_raw_finished None "''1''" 7 "''m''" None None "''p''" True
      ex_text_serializer ex_text_accumulator "''r''" ex_compiled, OF _ _ _ _ ex_text_new]
  by (auto simp: Let_def ex_raw_delta_def ex_raw_finished_def timing_event_from_runtime_def default_success_reason_def blank_def py_space_def)

end
