(* ===== verification/Spec2Isabelle.thy ===== *)
theory Spec2Isabelle
  imports Authority_Properties Session Guarantees Tool_Batch Recovery Control_Properties Vision_Cache
    Glm5_Properties Anthropic_Properties OpenAI_Properties Request_Failures Request_Echo Raw_Serving
begin

text \<open>
  A verification development for ExQServe (\<open>src/exqserve\<close>), an asyncio server that puts OpenAI and Anthropic
  protocols in front of a local inference runtime.

  \<^bold>\<open>The program.\<close> A request enters through a protocol, becomes a canonical request (\<open>core\<close>, \<open>agent\<close>), is admitted
  (\<open>control\<close>), continues a stored conversation (\<open>state\<close>), is generated by the runtime under limits and constraints
  (\<open>runtime\<close>, \<open>serving\<close>); the text of the model is turned into generation events by the parser of its dialect (\<open>model\<close>),
  tool calls pass a publication gate and failed attempts may be repeated (\<open>serving\<close>); a protocol turns the events into the
  answer (\<open>protocol\<close>). The event vocabulary \<open>core/events.py\<close> is what all of them share.

  \<^bold>\<open>Theories and the code they model.\<close>
  \<^item> \<open>Prelude\<close>, \<open>Forest\<close>, \<open>Py_Strings\<close>, \<open>Event_Stream\<close>: what the components share. Python exceptions as values of
    \<open>res\<close>, dictionaries as association lists in iteration order; the parent-linked forest that both stores keep
    (locale \<open>forest_state\<close>); the methods of \<open>str\<close> the parsers use; what a well-formed stream of events is and the
    contract of a protocol on it (locale \<open>answer_protocol\<close>).
  \<^item> \<open>Core_Types\<close>: \<open>core/\<close>, the value classes with the validation of their \<open>__post_init__\<close> as functions \<open>mk_...\<close>.
  \<^item> \<open>Store\<close>, \<open>Store_Properties\<close>: \<open>state/store.py\<close>. \<open>Lifecycle\<close>, \<open>Lifecycle_Invariant\<close>, \<open>Lifecycle_Properties\<close>:
    \<open>state/response_lifecycle.py\<close>. \<open>Authority\<close>, \<open>Authority_Properties\<close>: \<open>state/response_authority.py\<close>, the coordinator
    of both. \<open>Session\<close>: \<open>state/session.py\<close>, a client of the store (locale \<open>response_store\<close>).
  \<^item> \<open>Request_Limits\<close>, \<open>Control\<close>, \<open>Control_Invariant\<close>, \<open>Control_Properties\<close>: \<open>control/request.py\<close>.
  \<^item> \<open>Runtime_Contracts\<close>: \<open>runtime/contracts.py\<close>. \<open>Vision_Cache\<close>: \<open>runtime/vision_cache.py\<close>.
  \<^item> \<open>Json\<close>, \<open>Json_Parse\<close>, \<open>Json_Roundtrip\<close>, \<open>Agent\<close>, \<open>Validation\<close>: \<open>agent/\<close>.
  \<^item> \<open>Guarantees\<close>: \<open>serving/guarantees.py\<close> and the constraint specifications of \<open>model/contracts.py\<close>. \<open>Terminal\<close>:
    \<open>serving/terminal.py\<close> and \<open>runtime_events.py\<close>. \<open>Tool_Batch\<close>: \<open>serving/tool_batch.py\<close>. \<open>Recovery\<close>:
    \<open>serving/recovery.py\<close>.
  \<^item> \<open>Glm5_Parser\<close>, \<open>Glm5_Properties\<close>: the incremental parser of \<open>model/glm5.py\<close>.
  \<^item> \<open>Anthropic\<close>, \<open>Anthropic_Properties\<close>: \<open>protocol/anthropic/common.py\<close> and \<open>serialization.py\<close>.
    \<open>OpenAI_Answers\<close>, \<open>OpenAI_Properties\<close>: \<open>protocol/openai/common.py\<close> (errors, usage), \<open>chat_output.py\<close> and
    \<open>responses_output.py\<close>.
  \<^item> \<open>Request_Values\<close>: \<open>core/sampling.py\<close>, the requests of \<open>serving/contracts.py\<close>, and how a parser fails. \<open>OpenAI_Requests\<close>:
    the parsers of \<open>protocol/openai/common.py\<close> and \<open>chat_request.py\<close>; \<open>Responses_Requests\<close>: \<open>responses_request.py\<close>;
    \<open>Completions\<close>: \<open>completions.py\<close>; \<open>Anthropic_Requests\<close>: \<open>protocol/anthropic/messages.py\<close>. \<open>Request_Failures\<close> shows how
    they refuse a body, \<open>Request_Echo\<close> that an answer sent back is read as what was generated.
  \<^item> \<open>Raw_Serving\<close>: \<open>serving/raw.py\<close>, document continuation: submission of a raw prompt and the session that turns runtime
    events into generation events.

  \<^bold>\<open>How state and effects are modelled.\<close> The attributes of an object are the fields of a record of the same name with a
  prefix (\<open>st_\<close> for the store, \<open>lc_\<close> for the registry, \<open>cn_\<close> for the controller, \<open>gp_\<close> for the parser, ...), a method is a
  function to the result and the new record. Where objects are shared and a property depends on it, they are entries of a
  heap and references are addresses (the active responses of the registry, the sessions and leases of the controller, the
  output states of the Responses serializer). A section under an \<open>asyncio.Lock\<close> or without an \<open>await\<close> is one step; at
  every \<open>await\<close> the other tasks act: an explicit schedule of store operations for the authority, an arbitrary interference
  for the recovery, an \<open>inductive\<close> step relation in which started operations interleave for the controller. The clock,
  \<open>uuid4\<close>, SHA-256, Python's text of a float and the value of a float's text, the JSON-schema validator, \<open>json.loads\<close> where a protocol calls it, the
  constraint factory of a dialect and the answers of the runtime are parameters.

  \<^bold>\<open>What the lemmas show.\<close>
  \<^item> Stores: every history of operations keeps identifiers, children index, parent links, pins and byte counts consistent
    and within budget; puts are found again, refused puts leave nothing, pinned chains survive; the interpretations of
    \<open>forest_state\<close> give both stores the removal of subtrees from one proof.
  \<^item> Authority and session: the first terminal resource wins, continuations are pinned exactly while they are used, only
    completed and stored responses can be continued, a completed session is read back as conversation.
  \<^item> Control: in every reachable state of the interleaving the in-flight count is the number of unreleased leases and within
    its bound, decisions are final, ended sessions give their slot back.
  \<^item> Terminal decision: a closed form of the decision over histories, from \<open>first_write_field\<close> interpreted once per field.
  \<^item> JSON and agent semantics: the round trip of the strict parser, validation reports no issue exactly when a declarative
    predicate holds, strict schemas are closed at every depth; guarantees are enforced or reported, never lowered.
  \<^item> Tool batch and recovery: calls are published all together or not at all, in order; published events stem from one
    attempt, attempts are bounded and the lease is released once.
  \<^item> Parser and protocols: the GLM-5 parser gives the same answer for every cut of the text and always a well-formed stream;
    on every well-formed stream Anthropic, Chat Completions, Responses and Completions stream what their accumulators return. All four
    protocols interpret \<open>answer_protocol\<close>, whose lemma \<open>runs\<close> is the common induction; Responses and Completions interpret
    its extension \<open>recorded_protocol\<close>, which also says what the client has kept.
  \<^item> Raw serving: its stream is valid and ends once, whatever the runtime does; composed with Completions, the client reads the
    generated text.
  \<^item> Requests: a refused body is answered with status 400 but for two named exceptions that escape (the hypothesis
    \<open>metaschema_checked\<close> says that the schema validator only accepts objects and booleans as schemas); the turns of Chat
    Completions and Responses come back as the items they were made of.

  \<^bold>\<open>Recursion and fuel.\<close> The strict JSON parser runs with fuel \<open>2 * length + 2\<close>, proved never to be used up on any input;
  chains of parents are followed with the number of entries as fuel, proved enough by the invariant; the GLM-5 drain loop
  terminates because every round shortens the buffer, the walk over schema references because each reference is visited once.

  \<^bold>\<open>Not modelled, and why.\<close> Texts of messages beyond their fixed part, Python's limits on recursion and on digits of
  integers, traces, diagnostics, logging and metrics; checks of a value's Python type where the model's type already says it;
  failures of a lease's release; cancellation at an await other than where a theory says so. The components of the manifest
  that are not modelled at all are the HTTP applications and their configuration, the GPU runtime,
  the tool-wire grammars, the other dialects and the serving engine that composes them; each has its reason there.
\<close>

end
